(* ===== verification/Prelude.thy ===== *)
theory Prelude
  imports Main
begin

text \<open>
  Shared vocabulary of the development: the clock, Python's string normalisation, and the
  collections of facts the component theories extend.

  \<^item> A timestamp is a number of milliseconds. The code writes every timestamp with
    \<^verbatim>\<open>utc_now_iso\<close> (core/time_truth.py), a fixed-width ISO-8601 text whose
    lexicographic order is the order of the instants; a missing timestamp is the empty text,
    which is below every timestamp. \<^verbatim>\<open>option\<close> stands for a nullable column.
    The instant is read once per operation.
  \<^item> A string is a list of characters, each standing for a code point below 256. Python's
    \<^verbatim>\<open>strip\<close> and \<^verbatim>\<open>lower\<close> are exact on these.
\<close>

named_theorems step_defs \<open>definitions of the operations of a component\<close>
named_theorems inv_intros \<open>every operation keeps the component's invariant\<close>

type_synonym time = int

subsection \<open>Python strings\<close>

definition py_space :: "char \<Rightarrow> bool" where
  "py_space c = (let n = (of_char c :: nat) in
     (9 \<le> n \<and> n \<le> 13) \<or> (28 \<le> n \<and> n \<le> 32) \<or> n = 133 \<or> n = 160)"

definition py_lstrip :: "string \<Rightarrow> string" where
  "py_lstrip s = dropWhile py_space s"

definition py_rstrip :: "string \<Rightarrow> string" where
  "py_rstrip s = rev (dropWhile py_space (rev s))"

definition py_strip :: "string \<Rightarrow> string" where
  "py_strip s = py_rstrip (py_lstrip s)"

definition py_lower_char :: "char \<Rightarrow> char" where
  "py_lower_char c = (let n = (of_char c :: nat) in
     if (65 \<le> n \<and> n \<le> 90) \<or> (192 \<le> n \<and> n \<le> 222 \<and> n \<noteq> 215) then char_of (n + 32) else c)"

definition py_lower :: "string \<Rightarrow> string" where
  "py_lower s = map py_lower_char s"

text \<open>\<^verbatim>\<open>str(x or "").strip()\<close>, with and without a final \<^verbatim>\<open>or None\<close>,
  for an optional text argument.\<close>

definition norm_text :: "string option \<Rightarrow> string" where
  "norm_text x = (case x of None \<Rightarrow> [] | Some s \<Rightarrow> py_strip s)"

definition or_none :: "string \<Rightarrow> string option" where
  "or_none s = (if s = [] then None else Some s)"

definition or_text :: "string \<Rightarrow> string \<Rightarrow> string" where
  "or_text s d = (if s = [] then d else s)"

definition starts_with :: "string \<Rightarrow> string \<Rightarrow> bool" where
  "starts_with p s \<longleftrightarrow> take (length p) s = p"

text \<open>\<^verbatim>\<open>str(n)\<close> for an integer.\<close>

fun dec_nat :: "nat \<Rightarrow> string" where
  "dec_nat n = (if n < 10 then [char_of (48 + n)] else dec_nat (n div 10) @ [char_of (48 + n mod 10)])"

declare dec_nat.simps [simp del]

definition py_int :: "int \<Rightarrow> string" where
  "py_int i = (if i < 0 then CHR ''-'' # dec_nat (nat (- i)) else dec_nat (nat i))"

lemma py_strip_Nil [simp]: "py_strip [] = []"
  by (simp add: py_strip_def py_lstrip_def py_rstrip_def)

lemma py_strip_eq_Nil: "py_strip s = [] \<longleftrightarrow> (\<forall>c \<in> set s. py_space c)"
  by (auto simp: py_strip_def py_lstrip_def py_rstrip_def dropWhile_eq_Nil_conv
      dest: set_dropWhileD) (metis (no_types, lifting) append_Nil2 set_rev dropWhile_eq_Nil_conv
      dropWhile_dropWhile1 rev_is_Nil_conv takeWhile_dropWhile_id)

lemma dropWhile_rev_stable:
  assumes "u = [] \<or> \<not> P (hd u)"
  shows "dropWhile P (rev (dropWhile P (rev u))) = rev (dropWhile P (rev u))"
proof (cases u)
  case (Cons x v)
  then obtain ys where "dropWhile P (rev u) = ys @ [x]" using assms
    by (cases "\<forall>x \<in> set v. P x") (auto simp: dropWhile_append)
  then show ?thesis using assms Cons by simp
qed simp

lemma py_strip_idem [simp]: "py_strip (py_strip s) = py_strip s"
proof -
  have "dropWhile py_space s = [] \<or> \<not> py_space (hd (dropWhile py_space s))" by (metis hd_dropWhile)
  from dropWhile_rev_stable [where P = py_space and u = "dropWhile py_space s", OF this] show ?thesis
    by (simp add: py_strip_def py_lstrip_def py_rstrip_def dropWhile_idem)
qed

lemma norm_text_None [simp]: "norm_text None = []"
  by (simp add: norm_text_def)

lemma norm_text_Some [simp]: "norm_text (Some s) = py_strip s"
  by (simp add: norm_text_def)

lemma or_none_eq [simp]: "or_none s = None \<longleftrightarrow> s = []" "or_none s = Some t \<longleftrightarrow> s = t \<and> t \<noteq> []"
  by (auto simp: or_none_def)

subsection \<open>Nullable timestamps\<close>

text \<open>\<^verbatim>\<open>COALESCE(col, '') <= now\<close> (and Python's \<^verbatim>\<open>str(col or "") <= now\<close>):
  a missing expiry counts as expired. \<^verbatim>\<open>col <= now\<close> alone is false on NULL.\<close>

definition expired_or_null :: "time option \<Rightarrow> time \<Rightarrow> bool" where
  "expired_or_null e now = (case e of None \<Rightarrow> True | Some t \<Rightarrow> t \<le> now)"

definition at_or_before :: "time option \<Rightarrow> time \<Rightarrow> bool" where
  "at_or_before e now = (case e of None \<Rightarrow> False | Some t \<Rightarrow> t \<le> now)"

lemma expired_or_null_simps [simp]:
  "expired_or_null None now" "expired_or_null (Some t) now \<longleftrightarrow> t \<le> now"
  by (simp_all add: expired_or_null_def)

lemma at_or_before_simps [simp]:
  "\<not> at_or_before None now" "at_or_before (Some t) now \<longleftrightarrow> t \<le> now"
  by (simp_all add: at_or_before_def)

text \<open>\<^verbatim>\<open>COALESCE(?, col)\<close> and \<^verbatim>\<open>col or default\<close>.\<close>

definition coalesce :: "'a option \<Rightarrow> 'a option \<Rightarrow> 'a option" where
  "coalesce a b = (case a of None \<Rightarrow> b | Some x \<Rightarrow> Some x)"

lemma coalesce_simps [simp]: "coalesce None b = b" "coalesce (Some x) b = Some x"
  by (simp_all add: coalesce_def)

text \<open>A lease of \<^verbatim>\<open>max(lo, int(seconds or default))\<close> seconds, in milliseconds.\<close>

definition lease_ms :: "int \<Rightarrow> int \<Rightarrow> int \<Rightarrow> time" where
  "lease_ms lo dflt s = 1000 * max lo (if s = 0 then dflt else s)"

lemma lease_ms_pos: "0 < lo \<Longrightarrow> 0 < lease_ms lo dflt s"
  by (simp add: lease_ms_def)

subsection \<open>Generic list facts\<close>

lemma find_map: "find P (map f xs) = map_option f (find (P \<circ> f) xs)"
  by (induction xs) auto

lemma find_append: "find P (xs @ ys) = (case find P xs of None \<Rightarrow> find P ys | Some x \<Rightarrow> Some x)"
  by (induction xs) auto

lemma find_SomeD: "find P xs = Some x \<Longrightarrow> x \<in> set xs \<and> P x"
  by (induction xs) (auto split: if_splits)

lemma sort_key_hd_le:
  assumes "sort_key f xs = y # ys" and "x \<in> set xs"
  shows "f y \<le> f x"
proof -
  have "sorted (map f (y # ys))" using assms(1) by (metis sorted_sort_key)
  moreover have "x \<in> set (y # ys)" using assms by (metis set_sort)
  ultimately show ?thesis by auto
qed

lemma distinct_map_filter: "distinct (map f xs) \<Longrightarrow> distinct (map f (filter P xs))"
  by (induction xs) auto

end
