(* ===== verification/PyValue.thy ===== *)
theory PyValue
  imports Prelude Complex_Main
begin

text \<open>
  The JSON values the engine stores in its text columns (\<^verbatim>\<open>json.dumps\<close> on write,
  \<^verbatim>\<open>json.loads\<close> on read), with Python's truth value, \<^verbatim>\<open>==\<close> and dictionary
  operations on them. A dictionary is an association list in insertion order; the model keeps a
  column as the value it decodes to.
\<close>

datatype json =
    JNull
  | JBool bool
  | JInt int
  | JFloat rat
  | JStr string
  | JList "json list"
  | JObj "(string \<times> json) list"

type_synonym dict = "(string \<times> json) list"

fun truthy :: "json \<Rightarrow> bool" where
  "truthy JNull = False"
| "truthy (JBool b) = b"
| "truthy (JInt i) = (i \<noteq> 0)"
| "truthy (JFloat q) = (q \<noteq> 0)"
| "truthy (JStr s) = (s \<noteq> [])"
| "truthy (JList xs) = (xs \<noteq> [])"
| "truthy (JObj d) = (d \<noteq> [])"

text \<open>\<^verbatim>\<open>d.get(k)\<close>, \<^verbatim>\<open>d[k] = v\<close>, \<^verbatim>\<open>d.pop(k)\<close>, \<^verbatim>\<open>{**d, **e}\<close>.\<close>

definition dget :: "dict \<Rightarrow> string \<Rightarrow> json" where
  "dget d k = (case map_of d k of None \<Rightarrow> JNull | Some v \<Rightarrow> v)"

fun dset :: "string \<Rightarrow> json \<Rightarrow> dict \<Rightarrow> dict" where
  "dset k v [] = [(k, v)]"
| "dset k v ((j, w) # d) = (if j = k then (k, v) # d else (j, w) # dset k v d)"

definition dpop :: "string \<Rightarrow> dict \<Rightarrow> dict" where
  "dpop k d = filter (\<lambda>p. fst p \<noteq> k) d"

fun dmerge :: "dict \<Rightarrow> dict \<Rightarrow> dict" where
  "dmerge d [] = d"
| "dmerge d ((k, v) # e) = dmerge (dset k v d) e"

text \<open>\<^verbatim>\<open>x or {}\<close> read as a dictionary: anything that is no dictionary has no keys
  here; the code only reaches this form on values that are dictionaries or falsy.\<close>

definition as_dict :: "json \<Rightarrow> dict" where
  "as_dict v = (case v of JObj d \<Rightarrow> d | _ \<Rightarrow> [])"

definition is_dict :: "json \<Rightarrow> bool" where
  "is_dict v = (case v of JObj _ \<Rightarrow> True | _ \<Rightarrow> False)"

text \<open>\<^verbatim>\<open>str(v or "")\<close> for the texts the code reads out of a dictionary; the other
  shapes are never stored under the keys that are read this way.\<close>

definition as_text :: "json \<Rightarrow> string" where
  "as_text v = (case v of JStr s \<Rightarrow> s | _ \<Rightarrow> [])"

text \<open>Python's \<^verbatim>\<open>==\<close>: numbers compare by value across \<^verbatim>\<open>bool\<close>,
  \<^verbatim>\<open>int\<close> and \<^verbatim>\<open>float\<close>, dictionaries without regard to order.\<close>

fun num_of :: "json \<Rightarrow> rat option" where
  "num_of (JBool b) = Some (if b then 1 else 0)"
| "num_of (JInt i) = Some (of_int i)"
| "num_of (JFloat q) = Some q"
| "num_of _ = None"

function (sequential) py_eq :: "json \<Rightarrow> json \<Rightarrow> bool" where
  "py_eq (JList xs) v =
     (case v of JList ys \<Rightarrow> length xs = length ys \<and> list_all (\<lambda>(x, y). py_eq x y) (zip xs ys)
      | _ \<Rightarrow> False)"
| "py_eq (JObj d) v =
     (case v of JObj e \<Rightarrow> length d = length e \<and>
          list_all (\<lambda>(k, x). case map_of e k of None \<Rightarrow> False | Some y \<Rightarrow> py_eq x y) d
      | _ \<Rightarrow> False)"
| "py_eq JNull v = (v = JNull)"
| "py_eq (JStr s) v = (v = JStr s)"
| "py_eq u v = (num_of u = num_of v)"
  by pat_completeness auto
termination
proof (relation "measure (\<lambda>(u, v). size u)", goal_cases)
  case (2 xs v ys xa x y)
  then have "x \<in> set xs" by (auto dest: set_zip_leftD)
  then have "size x \<le> size_list size xs" by (rule size_list_estimation') simp
  then show ?case using 2 by auto
next
  case (3 d v e p k x y)
  then have "size x \<le> size_list (size_prod (\<lambda>x. 0) size) d"
    by (intro size_list_estimation' [of p]) auto
  then show ?case using 3 by auto
qed simp

lemma dget_dset [simp]: "dget (dset k v d) j = (if j = k then v else dget d j)"
  by (induction k v d rule: dset.induct) (auto simp: dget_def)

lemma map_of_dset [simp]: "map_of (dset k v d) = (map_of d)(k \<mapsto> v)"
  by (induction k v d rule: dset.induct) auto

lemma map_of_dpop [simp]: "map_of (dpop k d) j = (if j = k then None else map_of d j)"
  by (induction d) (auto simp: dpop_def)

lemma dget_dpop [simp]: "dget (dpop k d) j = (if j = k then JNull else dget d j)"
  by (simp add: dget_def)

lemma dget_Nil [simp]: "dget [] k = JNull"
  by (simp add: dget_def)

lemma dget_Cons [simp]: "dget ((j, v) # d) k = (if j = k then v else dget d k)"
  by (simp add: dget_def)

lemma keys_dset: "fst ` set (dset k v d) = insert k (fst ` set d)"
  by (induction k v d rule: dset.induct) auto

lemma distinct_dset: "distinct (map fst d) \<Longrightarrow> distinct (map fst (dset k v d))"
proof (induction k v d rule: dset.induct)
  case (2 k v j w d)
  have "fst ` set (dset k v d) = insert k (fst ` set d)" by (rule keys_dset)
  then show ?case using 2 by auto
qed simp

lemma map_of_dmerge: "map_of (dmerge d e) = map_of d ++ map_of (rev e)"
  by (induction d e rule: dmerge.induct) (auto simp: map_add_def fun_eq_iff split: option.splits)

lemma dget_dmerge_other: "k \<notin> fst ` set e \<Longrightarrow> dget (dmerge d e) k = dget d k"
  by (induction d e rule: dmerge.induct) auto

lemma dset_neq_Nil [simp]: "dset k v d \<noteq> []"
  by (induction k v d rule: dset.induct) auto

lemma as_dict_JObj [simp]: "as_dict (JObj d) = d"
  by (simp add: as_dict_def)

lemma as_dict_JNull [simp]: "as_dict JNull = []"
  by (simp add: as_dict_def)

lemma is_dict_simps [simp]:
  "is_dict (JObj d)" "\<not> is_dict JNull" "\<not> is_dict (JStr s)" "\<not> is_dict (JInt i)"
  "\<not> is_dict (JBool b)" "\<not> is_dict (JFloat q)" "\<not> is_dict (JList xs)"
  by (simp_all add: is_dict_def)

lemma as_text_simps [simp]: "as_text (JStr s) = s" "as_text JNull = []"
  by (simp_all add: as_text_def)

end
