(* ===== verification/Tables.thy ===== *)
theory Tables
  imports Prelude
begin

text \<open>
  SQL tables. A table is the list of its rows in insertion (rowid) order; a statement of the
  code becomes one of the functions below:
  \<^item> \<^verbatim>\<open>SELECT * FROM t WHERE key = ?\<close> followed by \<^verbatim>\<open>fetchone\<close>: \<open>sel_by\<close>;
  \<^item> \<^verbatim>\<open>UPDATE t SET ... WHERE P\<close>: \<open>upd_where\<close>, and its \<^verbatim>\<open>rowcount\<close>: \<open>count_where\<close>;
  \<^item> \<^verbatim>\<open>ORDER BY k LIMIT 1\<close>: \<open>first_by\<close> (rows with equal keys in rowid order);
  \<^item> a \<^verbatim>\<open>PRIMARY KEY\<close> or \<^verbatim>\<open>UNIQUE\<close> column: \<open>keyed\<close>, an invariant of
    every table that the operations keep.
  A transaction that is rolled back returns the tables it was given.
\<close>

definition sel_by :: "('r \<Rightarrow> 'k) \<Rightarrow> 'k \<Rightarrow> 'r list \<Rightarrow> 'r option" where
  "sel_by key k t = find (\<lambda>r. key r = k) t"

definition upd_where :: "('r \<Rightarrow> bool) \<Rightarrow> ('r \<Rightarrow> 'r) \<Rightarrow> 'r list \<Rightarrow> 'r list" where
  "upd_where P f t = map (\<lambda>r. if P r then f r else r) t"

definition count_where :: "('r \<Rightarrow> bool) \<Rightarrow> 'r list \<Rightarrow> nat" where
  "count_where P t = length (filter P t)"

definition first_by :: "('r \<Rightarrow> 'o::linorder) \<Rightarrow> 'r list \<Rightarrow> 'r option" where
  "first_by k t = (case sort_key k t of [] \<Rightarrow> None | r # _ \<Rightarrow> Some r)"

definition keyed :: "('r \<Rightarrow> 'k) \<Rightarrow> 'r list \<Rightarrow> bool" where
  "keyed key t \<longleftrightarrow> distinct (map key t)"

subsection \<open>Lookups\<close>

lemma sel_by_SomeD: "sel_by key k t = Some r \<Longrightarrow> r \<in> set t \<and> key r = k"
  unfolding sel_by_def using find_SomeD [of "\<lambda>r. key r = k" t r] by blast

lemma sel_by_key: "sel_by key k t = Some r \<Longrightarrow> key r = k"
  by (blast dest: sel_by_SomeD)

lemma sel_by_None_iff: "sel_by key k t = None \<longleftrightarrow> k \<notin> key ` set t"
  by (auto simp: sel_by_def find_None_iff)

lemma sel_by_Nil [simp]: "sel_by key k [] = None"
  by (simp add: sel_by_def)

lemma sel_by_Cons [simp]: "sel_by key k (r # t) = (if key r = k then Some r else sel_by key k t)"
  by (simp add: sel_by_def)

lemma sel_by_append:
  "sel_by key k (t @ u) = (case sel_by key k t of None \<Rightarrow> sel_by key k u | Some r \<Rightarrow> Some r)"
  unfolding sel_by_def find_append ..

lemma keyed_sel_iff: "keyed key t \<Longrightarrow> sel_by key k t = Some r \<longleftrightarrow> r \<in> set t \<and> key r = k"
proof (induction t)
  case (Cons x t)
  have t: "keyed key t" and x: "key x \<notin> key ` set t" using Cons.prems by (simp_all add: keyed_def)
  show ?case
  proof (cases "key x = k")
    case True
    have "r \<in> set t \<Longrightarrow> key r \<noteq> k" using x True by (metis image_eqI)
    then show ?thesis using True by auto
  next
    case False
    then show ?thesis using Cons.IH [OF t] by auto
  qed
qed simp

lemma keyed_inj: "keyed key t \<Longrightarrow> r \<in> set t \<Longrightarrow> q \<in> set t \<Longrightarrow> key r = key q \<Longrightarrow> r = q"
  by (simp add: keyed_def distinct_map inj_on_def)

subsection \<open>Updates\<close>

lemma set_upd_where: "set (upd_where P f t) = (\<lambda>r. if P r then f r else r) ` set t"
  by (simp add: upd_where_def)

lemma length_upd_where [simp]: "length (upd_where P f t) = length t"
  by (simp add: upd_where_def)

lemma upd_where_Nil [simp]: "upd_where P f [] = []"
  by (simp add: upd_where_def)

lemma upd_where_Cons [simp]:
  "upd_where P f (r # t) = (if P r then f r else r) # upd_where P f t"
  by (simp add: upd_where_def)

lemma upd_where_append [simp]: "upd_where P f (t @ u) = upd_where P f t @ upd_where P f u"
  by (simp add: upd_where_def)

lemma map_key_upd_where: "(\<And>r. key (f r) = key r) \<Longrightarrow> map key (upd_where P f t) = map key t"
  by (simp add: upd_where_def)

lemma keyed_upd_where: "(\<And>r. key (f r) = key r) \<Longrightarrow> keyed key (upd_where P f t) = keyed key t"
  by (simp add: keyed_def map_key_upd_where)

lemma sel_by_upd_where:
  assumes "\<And>r. key (f r) = key r"
  shows "sel_by key k (upd_where P f t) = map_option (\<lambda>r. if P r then f r else r) (sel_by key k t)"
  using assms by (induction t) auto

lemma upd_where_id: "(\<And>r. r \<in> set t \<Longrightarrow> \<not> P r) \<Longrightarrow> upd_where P f t = t"
  by (induction t) auto

lemma filter_upd_where_frame:
  assumes "\<And>r. P r \<Longrightarrow> \<not> Q r" and "\<And>r. P r \<Longrightarrow> \<not> Q (f r)"
  shows "filter Q (upd_where P f t) = filter Q t"
proof (induction t)
  case (Cons x t)
  then show ?case using assms by (cases "P x") simp_all
qed simp

lemma upd_where_removes:
  assumes "\<And>r. P r \<Longrightarrow> \<not> P (f r)" and "r \<in> set (upd_where P f t)"
  shows "\<not> P r"
  using assms by (auto simp: set_upd_where split: if_splits)

lemma keyed_snoc: "keyed key t \<Longrightarrow> sel_by key (key r) t = None \<Longrightarrow> keyed key (t @ [r])"
  by (auto simp: keyed_def sel_by_None_iff)

lemma keyed_Nil [simp]: "keyed key []"
  by (simp add: keyed_def)

subsection \<open>Row counts\<close>

lemma count_where_eq_0: "count_where P t = 0 \<longleftrightarrow> (\<forall>r \<in> set t. \<not> P r)"
  by (simp add: count_where_def filter_empty_conv)

lemma count_where_key:
  assumes "keyed key t"
  shows "count_where (\<lambda>r. key r = k \<and> P r) t =
    (case sel_by key k t of None \<Rightarrow> 0 | Some r \<Rightarrow> if P r then 1 else 0)"
  using assms
proof (induction t)
  case (Cons x t)
  then show ?case
  proof (cases "key x = k")
    case True
    with Cons.prems have "filter (\<lambda>r. key r = k \<and> P r) t = []"
      by (force simp: keyed_def filter_empty_conv image_iff)
    with True show ?thesis by (simp add: count_where_def)
  next
    case False
    with Cons show ?thesis by (simp add: keyed_def count_where_def)
  qed
qed (simp add: count_where_def)

lemma count_where_key_1:
  assumes "keyed key t"
  shows "count_where (\<lambda>r. key r = k \<and> P r) t = 1 \<longleftrightarrow> (\<exists>r. sel_by key k t = Some r \<and> P r)"
  by (simp add: count_where_key [OF assms] split: option.splits)

lemma count_where_key_neq1:
  assumes "keyed key t"
  shows "count_where (\<lambda>r. key r = k \<and> P r) t \<noteq> 1 \<longleftrightarrow>
    (\<forall>r. sel_by key k t = Some r \<longrightarrow> \<not> P r)"
  using count_where_key_1 [OF assms] by blast

subsection \<open>Ordered choice\<close>

lemma first_by_None_iff: "first_by k t = None \<longleftrightarrow> t = []"
  by (auto simp: first_by_def split: list.splits dest: arg_cong [where f = length])

lemma first_by_SomeD: "first_by k t = Some r \<Longrightarrow> r \<in> set t \<and> (\<forall>q \<in> set t. k r \<le> k q)"
proof -
  assume "first_by k t = Some r"
  then obtain rs where rs: "sort_key k t = r # rs" by (auto simp: first_by_def split: list.splits)
  then have "r \<in> set t" by (metis list.set_intros(1) set_sort)
  then show ?thesis using sort_key_hd_le [OF rs] by blast
qed

lemma first_by_in: "first_by k (filter P t) = Some r \<Longrightarrow> r \<in> set t \<and> P r"
  by (auto dest: first_by_SomeD)

text \<open>The updates the operations make to rows of one key.\<close>

lemma upd_where_key_frame:
  assumes "\<And>r. key (f r) = key r" and "k \<noteq> j"
  shows "sel_by key j (upd_where (\<lambda>r. key r = k \<and> P r) f t) = sel_by key j t"
  using assms by (auto simp: sel_by_upd_where dest: sel_by_key split: option.splits
      intro!: option.map_ident_strong)

lemma sel_upd_key:
  assumes "\<And>r. key (f r) = key r"
  shows "sel_by key j (upd_where (\<lambda>r. key r = k \<and> P r) f t) =
    (if j = k then map_option (\<lambda>r. if P r then f r else r) (sel_by key k t) else sel_by key j t)"
proof (cases "j = k")
  case True
  then show ?thesis using assms
    by (cases "sel_by key k t") (auto simp: sel_by_upd_where dest: sel_by_key)
next
  case False
  then show ?thesis using upd_where_key_frame [of key f k j P t] assms by simp
qed

lemma sel_upd_key0:
  assumes "\<And>r. key (f r) = key r"
  shows "sel_by key j (upd_where (\<lambda>r. key r = k) f t) =
    (if j = k then map_option f (sel_by key k t) else sel_by key j t)"
  using sel_upd_key [of key f j k "\<lambda>_. True" t] assms by simp

lemma sel_snoc:
  "sel_by key (key r) t = None \<Longrightarrow>
     sel_by key j (t @ [r]) = (if j = key r then Some r else sel_by key j t)"
  by (auto simp: sel_by_append split: option.splits)

subsection \<open>Guarded updates of one row\<close>

text \<open>\<^verbatim>\<open>UPDATE t SET ... WHERE key = ? AND P\<close> followed by
  \<^verbatim>\<open>return rowcount == 1\<close>: \<open>update_row\<close>; the same in a transaction that is rolled
  back unless exactly one row was updated: \<open>try_update\<close>.\<close>

definition update_row ::
  "('r \<Rightarrow> 'k) \<Rightarrow> 'k \<Rightarrow> ('r \<Rightarrow> bool) \<Rightarrow> ('r \<Rightarrow> 'r) \<Rightarrow> 'r list \<Rightarrow> bool \<times> 'r list" where
  "update_row key k P f t =
     (count_where (\<lambda>r. key r = k \<and> P r) t = 1, upd_where (\<lambda>r. key r = k \<and> P r) f t)"

definition try_update ::
  "('r \<Rightarrow> 'k) \<Rightarrow> 'k \<Rightarrow> ('r \<Rightarrow> bool) \<Rightarrow> ('r \<Rightarrow> 'r) \<Rightarrow> 'r list \<Rightarrow> bool \<times> 'r list" where
  "try_update key k P f t =
     (if count_where (\<lambda>r. key r = k \<and> P r) t = 1
      then (True, upd_where (\<lambda>r. key r = k \<and> P r) f t) else (False, t))"

definition holds_at :: "('r \<Rightarrow> 'k) \<Rightarrow> 'k \<Rightarrow> ('r \<Rightarrow> bool) \<Rightarrow> 'r list \<Rightarrow> bool" where
  "holds_at key k P t = (case sel_by key k t of None \<Rightarrow> False | Some r \<Rightarrow> P r)"

lemma holds_at_None [simp]: "sel_by key k t = None \<Longrightarrow> \<not> holds_at key k P t"
  by (simp add: holds_at_def)

lemma holds_at_Some [simp]: "sel_by key k t = Some r \<Longrightarrow> holds_at key k P t = P r"
  by (simp add: holds_at_def)

lemma holds_atE:
  "holds_at key k P t \<Longrightarrow> (\<And>r. sel_by key k t = Some r \<Longrightarrow> P r \<Longrightarrow> thesis) \<Longrightarrow> thesis"
  by (cases "sel_by key k t") auto

lemma count_holds_at:
  "keyed key t \<Longrightarrow> (count_where (\<lambda>r. key r = k \<and> P r) t = 1) = holds_at key k P t"
  by (cases "sel_by key k t") (simp_all add: count_where_key)

lemma upd_not_holds:
  assumes "keyed key t" and "\<not> holds_at key k P t"
  shows "upd_where (\<lambda>r. key r = k \<and> P r) f t = t"
proof (rule upd_where_id)
  fix r assume "r \<in> set t"
  then have "key r = k \<Longrightarrow> sel_by key k t = Some r" using assms(1) keyed_sel_iff by metis
  then show "\<not> (key r = k \<and> P r)" using assms(2) by auto
qed

lemma try_update_eq:
  assumes "keyed key t"
  shows "try_update key k P f t = update_row key k P f t"
  using upd_not_holds [OF assms, of k P] count_holds_at [OF assms, of k P]
  by (simp add: try_update_def update_row_def)

lemma update_row_fst: "keyed key t \<Longrightarrow> fst (update_row key k P f t) = holds_at key k P t"
  unfolding update_row_def fst_conv by (rule count_holds_at)

lemma update_row_sel:
  assumes "keyed key t" and "\<And>r. key (f r) = key r"
  shows "sel_by key j (snd (update_row key k P f t)) =
    (if j = k \<and> holds_at key k P t then map_option f (sel_by key k t) else sel_by key j t)"
  by (cases "sel_by key k t")
    (simp_all add: update_row_def sel_upd_key [of key, OF assms(2)])

lemma update_row_reject:
  assumes "keyed key t" and "\<not> holds_at key k P t"
  shows "update_row key k P f t = (False, t)"
  using upd_not_holds [OF assms] count_holds_at [OF assms(1), of k P] assms(2)
  by (simp add: update_row_def)

lemma update_row_cases:
  assumes "keyed key t" and "update_row key k P f t = (ok, t')"
  shows "ok = holds_at key k P t \<and> (\<not> ok \<longrightarrow> t' = t)"
  using assms update_row_reject [OF assms(1), of k P f] update_row_fst [OF assms(1), of k P f]
  by (cases "holds_at key k P t") auto

lemma update_row_keyed:
  assumes "\<And>r. key (f r) = key r"
  shows "keyed key (snd (update_row key k P f t)) = keyed key t"
  by (simp add: update_row_def keyed_upd_where [of key, OF assms])

lemma update_row_all:
  assumes "\<And>r. r \<in> set t \<Longrightarrow> I r" and "\<And>r. r \<in> set t \<Longrightarrow> P r \<Longrightarrow> I (f r)"
    and "q \<in> set (snd (update_row key k P f t))"
  shows "I q"
  using assms by (auto simp: update_row_def set_upd_where split: if_splits)

lemma try_update_keyed:
  assumes "\<And>r. key (f r) = key r"
  shows "keyed key (snd (try_update key k P f t)) = keyed key t"
  by (simp add: try_update_def keyed_upd_where [of key, OF assms])

lemma try_update_all:
  assumes "\<And>r. r \<in> set t \<Longrightarrow> I r" and "\<And>r. r \<in> set t \<Longrightarrow> P r \<Longrightarrow> I (f r)"
    and "q \<in> set (snd (try_update key k P f t))"
  shows "I q"
  using assms by (auto simp: try_update_def set_upd_where split: if_splits)

lemma upd_where_cong: "(\<And>r. r \<in> set t \<Longrightarrow> P r = Q r) \<Longrightarrow> upd_where P f t = upd_where Q f t"
  by (induction t) auto

lemma count_where_cong: "(\<And>r. r \<in> set t \<Longrightarrow> P r = Q r) \<Longrightarrow> count_where P t = count_where Q t"
  by (simp add: count_where_def cong: filter_cong)

lemma update_row_same_key:
  assumes "\<And>r. r \<in> set t \<Longrightarrow> (key r = k) = (key' r = k')"
  shows "update_row key k P f t = update_row key' k' P f t"
  using upd_where_cong [of t "\<lambda>r. key r = k \<and> P r" "\<lambda>r. key' r = k' \<and> P r" f]
    count_where_cong [of t "\<lambda>r. key r = k \<and> P r" "\<lambda>r. key' r = k' \<and> P r"] assms
  by (simp add: update_row_def)

lemma count_where_Nil [simp]: "count_where P [] = 0"
  by (simp add: count_where_def)

lemma count_where_Cons [simp]: "count_where P (r # t) = (if P r then 1 else 0) + count_where P t"
  by (simp add: count_where_def)

lemma count_where_append [simp]: "count_where P (t @ u) = count_where P t + count_where P u"
  by (simp add: count_where_def)

text \<open>An update that never makes the condition true does not raise its count; one that makes
  it false on all rows in question brings it to zero.\<close>

lemma count_upd_le:
  assumes "\<And>r. P r \<Longrightarrow> Q (f r) \<Longrightarrow> Q r"
  shows "count_where Q (upd_where P f t) \<le> count_where Q t"
  using assms by (induction t) auto

lemma count_upd_0:
  assumes "\<And>r. Q r \<Longrightarrow> P r" and "\<And>r. P r \<Longrightarrow> \<not> Q (f r)"
  shows "count_where Q (upd_where P f t) = 0"
  using assms by (induction t) auto

text \<open>\<^verbatim>\<open>LIMIT n\<close>: a negative limit is no limit.\<close>

definition sql_limit :: "int \<Rightarrow> 'r list \<Rightarrow> 'r list" where
  "sql_limit n t = (if n < 0 then t else take (nat n) t)"

lemma set_sql_limit: "set (sql_limit n t) \<subseteq> set t"
  by (auto simp: sql_limit_def dest: in_set_takeD)

lemma length_sql_limit: "0 \<le> n \<Longrightarrow> int (length (sql_limit n t)) \<le> n"
  by (auto simp: sql_limit_def)

end
