(* ===== verification/Leases.thy ===== *)
theory Leases
  imports Prelude
begin

text \<open>
  Leases as an interface. Several tables of the engine hand work out the same way: a worker
  claims an item, holds it until an expiry time, and settles it. The locale states what such a
  table promises; the clients' reasoning (nobody else is handed the item while a lease runs, a
  worker whose item went to somebody else cannot settle it) is done once here and is
  interpreted on each table's own operations.
\<close>

definition live :: "('w \<times> time) option \<Rightarrow> time \<Rightarrow> bool" where
  "live l now = (case l of None \<Rightarrow> False | Some (_, e) \<Rightarrow> now < e)"

lemma live_simps [simp]: "\<not> live None now" "live (Some (w, e)) now \<longleftrightarrow> now < e"
  by (simp_all add: live_def)

lemma liveE: "live l now \<Longrightarrow> (\<And>w e. l = Some (w, e) \<Longrightarrow> now < e \<Longrightarrow> P) \<Longrightarrow> P"
  by (cases l) auto

text \<open>A history of a queue: claims and other operations, each at its instant. \<open>grants\<close>
  collects the items the claims of a history hand out.\<close>

datatype ('a, 'b) lease_event = Claim 'a time | Other 'b time

fun event_time :: "('a, 'b) lease_event \<Rightarrow> time" where
  "event_time (Claim _ t) = t"
| "event_time (Other _ t) = t"

fun play :: "('a \<Rightarrow> time \<Rightarrow> 's \<Rightarrow> 'k option \<times> 's) \<Rightarrow> ('b \<Rightarrow> time \<Rightarrow> 's \<Rightarrow> 's) \<Rightarrow>
    's \<Rightarrow> ('a, 'b) lease_event list \<Rightarrow> 's" where
  "play c m s [] = s"
| "play c m s (Claim a t # es) = play c m (snd (c a t s)) es"
| "play c m s (Other b t # es) = play c m (m b t s) es"

fun grants :: "('a \<Rightarrow> time \<Rightarrow> 's \<Rightarrow> 'k option \<times> 's) \<Rightarrow> ('b \<Rightarrow> time \<Rightarrow> 's \<Rightarrow> 's) \<Rightarrow>
    's \<Rightarrow> ('a, 'b) lease_event list \<Rightarrow> 'k list" where
  "grants c m s [] = []"
| "grants c m s (Claim a t # es) =
     (case fst (c a t s) of None \<Rightarrow> [] | Some k \<Rightarrow> [k]) @ grants c m (snd (c a t s)) es"
| "grants c m s (Other b t # es) = grants c m (m b t s) es"

locale lease_queue =
  fixes claim :: "'a \<Rightarrow> time \<Rightarrow> 's \<Rightarrow> 'k option \<times> 's"
    and other :: "'b \<Rightarrow> time \<Rightarrow> 's \<Rightarrow> 's"
    and targets :: "'b \<Rightarrow> 'k set"
    and worker :: "'a \<Rightarrow> 'w"
    and lease_of :: "'s \<Rightarrow> 'k \<Rightarrow> ('w \<times> time) option"
    and wf :: "'s \<Rightarrow> bool"
  assumes claim_wf: "wf s \<Longrightarrow> wf (snd (claim a t s))"
    and other_wf: "wf s \<Longrightarrow> wf (other b t s)"
    and claim_free: "wf s \<Longrightarrow> claim a t s = (Some k, s') \<Longrightarrow> \<not> live (lease_of s k) t"
    and claim_holds: "wf s \<Longrightarrow> claim a t s = (Some k, s') \<Longrightarrow>
        \<exists>e. lease_of s' k = Some (worker a, e) \<and> t < e"
    and claim_frame: "wf s \<Longrightarrow> claim a t s = (r, s') \<Longrightarrow> r \<noteq> Some k \<Longrightarrow>
        live (lease_of s k) t \<Longrightarrow> lease_of s' k = lease_of s k"
    and other_frame: "wf s \<Longrightarrow> k \<notin> targets b \<Longrightarrow> live (lease_of s k) t \<Longrightarrow>
        lease_of (other b t s) k = lease_of s k"
begin

lemma claim_keeps_live:
  assumes "wf s" and "claim a t s = (r, s')" and "live (lease_of s k) t"
  shows "r \<noteq> Some k \<and> lease_of s' k = lease_of s k"
proof -
  have "r \<noteq> Some k" using assms claim_free by blast
  then show ?thesis using assms claim_frame by blast
qed

text \<open>While a lease runs, no history that leaves the item alone hands it out again, whoever
  asks and however the claims are interleaved with work on other items.\<close>

lemma no_grant_while_leased:
  assumes "wf s" and "lease_of s k = Some (w, e)"
    and "\<And>ev. ev \<in> set es \<Longrightarrow> event_time ev < e"
    and "\<And>b t. Other b t \<in> set es \<Longrightarrow> k \<notin> targets b"
  shows "k \<notin> set (grants claim other s es) \<and> lease_of (play claim other s es) k = Some (w, e)"
  using assms
proof (induction es arbitrary: s)
  case (Cons ev es)
  have now: "event_time ev < e" using Cons.prems(3) by simp
  have later: "\<And>x. x \<in> set es \<Longrightarrow> event_time x < e"
    "\<And>b t. Other b t \<in> set es \<Longrightarrow> k \<notin> targets b" using Cons.prems(3,4) by auto
  show ?case
  proof (cases ev)
    case (Claim a t)
    obtain r s' where c: "claim a t s = (r, s')" by (cases "claim a t s")
    have "live (lease_of s k) t" using Cons.prems(2) now Claim by simp
    then have r: "r \<noteq> Some k" and l: "lease_of s' k = Some (w, e)"
      using claim_keeps_live [OF Cons.prems(1) c] Cons.prems(2) by auto
    have "wf s'" using claim_wf [OF Cons.prems(1), of a t] c by simp
    from Cons.IH [OF this l later] r c Claim show ?thesis by (auto split: option.splits)
  next
    case (Other b t)
    have "live (lease_of s k) t" and "k \<notin> targets b"
      using Cons.prems(2,4) now Other by auto
    then have l: "lease_of (other b t s) k = Some (w, e)"
      using other_frame [OF Cons.prems(1)] Cons.prems(2) by metis
    have "wf (other b t s)" by (rule other_wf [OF Cons.prems(1)])
    from Cons.IH [OF this l later] Other show ?thesis by simp
  qed
qed simp

lemma exclusive_grant:
  assumes "wf s" and "claim a t s = (Some k, s')"
  obtains e where "t < e" "lease_of s' k = Some (worker a, e)"
    "\<And>es. (\<And>ev. ev \<in> set es \<Longrightarrow> event_time ev < e) \<Longrightarrow>
       (\<And>b u. Other b u \<in> set es \<Longrightarrow> k \<notin> targets b) \<Longrightarrow> k \<notin> set (grants claim other s' es)"
proof -
  obtain e where e: "lease_of s' k = Some (worker a, e)" "t < e"
    using claim_holds [OF assms] by blast
  have "wf s'" using claim_wf [OF assms(1), of a t] assms(2) by simp
  then show ?thesis using that e no_grant_while_leased by blast
qed

end

text \<open>A queue whose settling operation is fenced by the holder.\<close>

locale fenced_lease_queue = lease_queue claim other targets worker lease_of wf
  for claim :: "'a \<Rightarrow> time \<Rightarrow> 's \<Rightarrow> 'k option \<times> 's"
    and other :: "'b \<Rightarrow> time \<Rightarrow> 's \<Rightarrow> 's"
    and targets :: "'b \<Rightarrow> 'k set"
    and worker :: "'a \<Rightarrow> 'w"
    and lease_of :: "'s \<Rightarrow> 'k \<Rightarrow> ('w \<times> time) option"
    and wf :: "'s \<Rightarrow> bool" +
  fixes settle :: "'c \<Rightarrow> time \<Rightarrow> 's \<Rightarrow> bool \<times> 's"
    and item :: "'c \<Rightarrow> 'k"
    and holder :: "'c \<Rightarrow> 'w"
  assumes settle_fence: "wf s \<Longrightarrow> settle x t s = (True, s') \<Longrightarrow>
      \<exists>e. lease_of s (item x) = Some (holder x, e)"
    and settle_reject: "wf s \<Longrightarrow> settle x t s = (False, s') \<Longrightarrow> s' = s"
begin

lemma not_holder_rejected:
  assumes "wf s" and "\<And>e. lease_of s (item x) \<noteq> Some (holder x, e)"
  shows "settle x t s = (False, s)"
proof (cases "settle x t s")
  case (Pair ok s')
  show ?thesis
  proof (cases ok)
    case True
    then show ?thesis using settle_fence [OF assms(1), of x t s'] Pair assms(2) by auto
  next
    case False
    then show ?thesis using settle_reject [OF assms(1), of x t s'] Pair by auto
  qed
qed

text \<open>Once somebody else has been handed the item, the former holder's settlement is
  rejected and changes nothing.\<close>

lemma superseded_worker_rejected:
  assumes "wf s" and "claim a t s = (Some (item x), s')" and "worker a \<noteq> holder x"
  shows "settle x u s' = (False, s')"
proof -
  obtain e where "lease_of s' (item x) = Some (worker a, e)" using claim_holds [OF assms(1,2)] by blast
  moreover have "wf s'" using claim_wf [OF assms(1), of a t] assms(2) by simp
  ultimately show ?thesis using assms(3) by (intro not_holder_rejected) auto
qed

end

end
