(* ===== verification/SideEffects.thy ===== *)
theory SideEffects
  imports PyValue Tables Leases
begin

text \<open>
  The side-effect ledger: the table \<^verbatim>\<open>runtime_side_effect_receipts\<close> with its claim,
  complete, fail, indeterminate and reconcile transactions (core/database.py) and the service
  that begins and settles an effect through them (erc/side_effect_idempotency.py). A receipt is
  identified by an idempotency key and bound to the fingerprint of its payload.
\<close>

section \<open>The receipt table\<close>

text \<open>The four values the code ever writes to the column \<^verbatim>\<open>state\<close>.\<close>

datatype effect_state = Claimed | Completed | Failed | Indeterminate

record receipt =
  rc_key :: string
  rc_session :: string
  rc_run :: "string option"
  rc_effect_kind :: string
  rc_step_key :: string
  rc_target :: string
  rc_fingerprint :: string
  rc_state :: effect_state
  rc_owner :: "string option"
  rc_attempts :: int
  rc_lease :: "time option"
  rc_started :: "time option"
  rc_completed :: "time option"
  rc_failed :: "time option"
  rc_error :: "string option"
  rc_metadata :: dict
  rc_updated :: time

record claim_req =
  cq_session :: string
  cq_run :: "string option"
  cq_key :: string
  cq_effect_kind :: string
  cq_step_key :: string
  cq_target :: string
  cq_fingerprint :: string
  cq_owner :: string
  cq_metadata :: dict
  cq_lease_seconds :: int
  cq_retry_failed :: bool
  cq_replay_safe :: bool
  cq_legacy_completed :: bool

record claim_result =
  cr_execute :: bool
  cr_reason :: string
  cr_prior_topic :: "string option"
  cr_state :: effect_state
  cr_attempts :: int

datatype effect_error = ClaimFieldsRequired | PayloadConflict string | ReconcileArguments

definition get_side_effect_receipt :: "string \<Rightarrow> receipt list \<Rightarrow> receipt option" where
  "get_side_effect_receipt key t =
     (let k = py_strip key in if k = [] then None else sel_by rc_key k t)"

fun prior_topic_of :: "effect_state \<Rightarrow> string" where
  "prior_topic_of Completed = ''side_effect.completed''"
| "prior_topic_of Failed = ''side_effect.failed''"
| "prior_topic_of Claimed = ''side_effect.started''"
| "prior_topic_of Indeterminate = ''side_effect.outcome_unknown''"

definition claim_expires :: "claim_req \<Rightarrow> time \<Rightarrow> time" where
  "claim_expires q now = now + lease_ms 1 300 (cq_lease_seconds q)"

text \<open>No row for the key: insert one, already completed when a legacy event says so.\<close>

definition claim_new_receipt ::
  "claim_req \<Rightarrow> time \<Rightarrow> receipt list \<Rightarrow> claim_result \<times> receipt list" where
  "claim_new_receipt q now t =
     (let row = \<lparr>rc_key = py_strip (cq_key q), rc_session = py_strip (cq_session q),
                 rc_run = or_none (norm_text (cq_run q)),
                 rc_effect_kind = or_text (py_strip (cq_effect_kind q)) ''unknown'',
                 rc_step_key = or_text (py_strip (cq_step_key q)) ''unknown'',
                 rc_target = py_strip (cq_target q),
                 rc_fingerprint = py_strip (cq_fingerprint q),
                 rc_state = Claimed, rc_owner = Some (py_strip (cq_owner q)), rc_attempts = 1,
                 rc_lease = Some (claim_expires q now), rc_started = Some now,
                 rc_completed = None, rc_failed = None, rc_error = None,
                 rc_metadata = cq_metadata q, rc_updated = now\<rparr>
      in if cq_legacy_completed q
         then (\<lparr>cr_execute = False, cr_reason = ''legacy_completed_receipt'',
                cr_prior_topic = Some ''side_effect.completed'', cr_state = Completed,
                cr_attempts = 1\<rparr>,
               t @ [row\<lparr>rc_state := Completed, rc_owner := None, rc_lease := None,
                        rc_completed := Some now\<rparr>])
         else (\<lparr>cr_execute = True, cr_reason = ''claimed'', cr_prior_topic = None,
                cr_state = Claimed, cr_attempts = 1\<rparr>,
               t @ [row]))"

text \<open>A row with the same payload: its durable disposition decides.\<close>

definition retry_failed_row :: "claim_req \<Rightarrow> time \<Rightarrow> receipt \<Rightarrow> receipt" where
  "retry_failed_row q now r =
     r\<lparr>rc_state := Claimed, rc_owner := Some (py_strip (cq_owner q)),
       rc_attempts := rc_attempts r + 1, rc_lease := Some (claim_expires q now),
       rc_started := Some now, rc_failed := None, rc_error := None,
       rc_metadata := cq_metadata q, rc_updated := now\<rparr>"

definition unknown_outcome_row :: "claim_req \<Rightarrow> time \<Rightarrow> receipt \<Rightarrow> receipt" where
  "unknown_outcome_row q now r =
     r\<lparr>rc_state := Indeterminate, rc_owner := None, rc_lease := None,
       rc_error := Some ''side_effect_outcome_unknown'',
       rc_metadata := dset ''unknownOutcomeDetectedAt'' (JInt now)
                        (dset ''reconciliationRequired'' (JBool True) (cq_metadata q)),
       rc_updated := now\<rparr>"

definition reclaim_row :: "claim_req \<Rightarrow> time \<Rightarrow> receipt \<Rightarrow> receipt" where
  "reclaim_row q now r =
     r\<lparr>rc_owner := Some (py_strip (cq_owner q)), rc_attempts := rc_attempts r + 1,
       rc_lease := Some (claim_expires q now), rc_started := Some now,
       rc_metadata := cq_metadata q, rc_updated := now\<rparr>"

definition claim_existing_receipt ::
  "claim_req \<Rightarrow> time \<Rightarrow> receipt \<Rightarrow> receipt list \<Rightarrow> claim_result \<times> receipt list" where
  "claim_existing_receipt q now r t =
     (let state = rc_state r; n = rc_attempts r; prior = Some (prior_topic_of state);
          key = py_strip (cq_key q);
          row = (\<lambda>st x. rc_key x = key \<and> rc_state x = st)
      in if state = Completed
         then (\<lparr>cr_execute = False, cr_reason = ''completed_receipt'', cr_prior_topic = prior,
                cr_state = state, cr_attempts = n\<rparr>, t)
         else if state = Failed \<and> cq_retry_failed q
         then (\<lparr>cr_execute = True, cr_reason = ''failed_receipt_retry'', cr_prior_topic = prior,
                cr_state = Claimed, cr_attempts = n + 1\<rparr>,
               upd_where (row Failed) (retry_failed_row q now) t)
         else if state = Indeterminate
         then (\<lparr>cr_execute = False, cr_reason = ''unknown_outcome_reconciliation_required'',
                cr_prior_topic = prior, cr_state = state, cr_attempts = n\<rparr>, t)
         else if state = Claimed \<and> expired_or_null (rc_lease r) now
         then (if \<not> cq_replay_safe q
               then (\<lparr>cr_execute = False, cr_reason = ''unknown_outcome_reconciliation_required'',
                      cr_prior_topic = Some ''side_effect.started'', cr_state = Indeterminate,
                      cr_attempts = n\<rparr>,
                     upd_where (row Claimed) (unknown_outcome_row q now) t)
               else (\<lparr>cr_execute = True, cr_reason = ''expired_claim_reclaimed'',
                      cr_prior_topic = prior, cr_state = Claimed, cr_attempts = n + 1\<rparr>,
                     upd_where (row Claimed) (reclaim_row q now) t))
         else (\<lparr>cr_execute = False,
                cr_reason = (if state = Claimed then ''in_flight_receipt'' else ''failed_receipt''),
                cr_prior_topic = prior, cr_state = state, cr_attempts = n\<rparr>, t))"

definition claim_side_effect_receipt ::
  "claim_req \<Rightarrow> time \<Rightarrow> receipt list \<Rightarrow> (effect_error + claim_result) \<times> receipt list" where
  "claim_side_effect_receipt q now t =
     (if py_strip (cq_key q) = [] \<or> py_strip (cq_session q) = [] \<or> py_strip (cq_owner q) = []
      then (Inl ClaimFieldsRequired, t)
      else case sel_by rc_key (py_strip (cq_key q)) t of
        None \<Rightarrow> (case claim_new_receipt q now t of (res, t') \<Rightarrow> (Inr res, t'))
      | Some r \<Rightarrow>
          if rc_fingerprint r \<noteq> cq_fingerprint q
          then (Inl (PayloadConflict (py_strip (cq_key q))), t)
          else (case claim_existing_receipt q now r t of (res, t') \<Rightarrow> (Inr res, t')))"

section \<open>Settling a receipt\<close>

definition completed_row :: "dict option \<Rightarrow> time \<Rightarrow> receipt \<Rightarrow> receipt" where
  "completed_row result now r =
     r\<lparr>rc_state := Completed, rc_completed := Some now, rc_lease := None, rc_error := None,
       rc_metadata := (case result of None \<Rightarrow> rc_metadata r | Some d \<Rightarrow> d), rc_updated := now\<rparr>"

definition complete_side_effect_receipt ::
  "string \<Rightarrow> string \<Rightarrow> dict option \<Rightarrow> time \<Rightarrow> receipt list \<Rightarrow> bool \<times> receipt list" where
  "complete_side_effect_receipt key owner result now t =
     try_update rc_key (py_strip key)
       (\<lambda>r. rc_owner r = Some (py_strip owner) \<and> rc_state r = Claimed)
       (completed_row result now) t"

definition failed_row :: "string \<Rightarrow> time \<Rightarrow> receipt \<Rightarrow> receipt" where
  "failed_row error now r =
     r\<lparr>rc_state := Failed, rc_failed := Some now, rc_lease := None, rc_error := Some error,
       rc_updated := now\<rparr>"

definition fail_side_effect_receipt ::
  "string \<Rightarrow> string \<Rightarrow> string \<Rightarrow> time \<Rightarrow> receipt list \<Rightarrow> bool \<times> receipt list" where
  "fail_side_effect_receipt key owner error now t =
     try_update rc_key (py_strip key)
       (\<lambda>r. rc_owner r = Some (py_strip owner) \<and> rc_state r = Claimed)
       (failed_row error now) t"

definition indeterminate_row :: "string \<Rightarrow> time \<Rightarrow> receipt \<Rightarrow> receipt" where
  "indeterminate_row error now r =
     r\<lparr>rc_state := Indeterminate, rc_owner := None, rc_lease := None, rc_error := Some error,
       rc_updated := now\<rparr>"

definition mark_side_effect_indeterminate ::
  "string \<Rightarrow> string \<Rightarrow> string \<Rightarrow> time \<Rightarrow> receipt list \<Rightarrow> bool \<times> receipt list" where
  "mark_side_effect_indeterminate key owner error now t =
     update_row rc_key key (\<lambda>r. rc_owner r = Some owner \<and> rc_state r = Claimed)
       (indeterminate_row error now) t"

definition reconciled_row :: "bool \<Rightarrow> dict \<Rightarrow> string option \<Rightarrow> time \<Rightarrow> receipt \<Rightarrow> receipt" where
  "reconciled_row ok evidence error now r =
     r\<lparr>rc_state := (if ok then Completed else Failed), rc_owner := None, rc_lease := None,
       rc_completed := (if ok then Some now else rc_completed r),
       rc_failed := (if ok then rc_failed r else Some now),
       rc_error := (if ok then None else Some (or_text (case error of None \<Rightarrow> [] | Some e \<Rightarrow> e)
                      ''reconciled_external_failure'')),
       rc_metadata := evidence, rc_updated := now\<rparr>"

definition reconcile_side_effect_receipt ::
  "string \<Rightarrow> string \<Rightarrow> dict \<Rightarrow> string option \<Rightarrow> time \<Rightarrow> receipt list \<Rightarrow>
     (effect_error + bool) \<times> receipt list" where
  "reconcile_side_effect_receipt key outcome evidence error now t =
     (let k = py_strip key; oc = py_lower (py_strip outcome)
      in if k = [] \<or> oc \<notin> {''completed'', ''failed''} then (Inl ReconcileArguments, t)
      else case try_update rc_key k (\<lambda>r. rc_state r = Indeterminate)
             (reconciled_row (oc = ''completed'') evidence error now) t
        of (ok, t') \<Rightarrow> (Inr ok, t'))"

text \<open>What each update does to the key, the state, the owner and the lease of a row.\<close>

lemma receipt_row_simps [simp]:
  "rc_key (retry_failed_row q now r) = rc_key r" "rc_state (retry_failed_row q now r) = Claimed"
  "rc_owner (retry_failed_row q now r) = Some (py_strip (cq_owner q))"
  "rc_lease (retry_failed_row q now r) = Some (claim_expires q now)"
  "rc_key (unknown_outcome_row q now r) = rc_key r"
  "rc_state (unknown_outcome_row q now r) = Indeterminate"
  "rc_owner (unknown_outcome_row q now r) = None" "rc_lease (unknown_outcome_row q now r) = None"
  "rc_key (reclaim_row q now r) = rc_key r" "rc_state (reclaim_row q now r) = rc_state r"
  "rc_owner (reclaim_row q now r) = Some (py_strip (cq_owner q))"
  "rc_lease (reclaim_row q now r) = Some (claim_expires q now)"
  "rc_key (completed_row res now r) = rc_key r" "rc_state (completed_row res now r) = Completed"
  "rc_owner (completed_row res now r) = rc_owner r" "rc_lease (completed_row res now r) = None"
  "rc_key (failed_row e now r) = rc_key r" "rc_state (failed_row e now r) = Failed"
  "rc_owner (failed_row e now r) = rc_owner r" "rc_lease (failed_row e now r) = None"
  "rc_key (indeterminate_row e now r) = rc_key r" "rc_state (indeterminate_row e now r) = Indeterminate"
  "rc_owner (indeterminate_row e now r) = None" "rc_lease (indeterminate_row e now r) = None"
  "rc_key (reconciled_row ok d err now r) = rc_key r"
  "rc_state (reconciled_row ok d err now r) = (if ok then Completed else Failed)"
  "rc_owner (reconciled_row ok d err now r) = None" "rc_lease (reconciled_row ok d err now r) = None"
  by (simp_all add: retry_failed_row_def unknown_outcome_row_def reclaim_row_def completed_row_def
    failed_row_def indeterminate_row_def reconciled_row_def)

lemma receipt_fingerprint_simps [simp]:
  "rc_fingerprint (retry_failed_row q now r) = rc_fingerprint r"
  "rc_fingerprint (unknown_outcome_row q now r) = rc_fingerprint r"
  "rc_fingerprint (reclaim_row q now r) = rc_fingerprint r"
  "rc_fingerprint (completed_row res now r) = rc_fingerprint r"
  by (simp_all add: retry_failed_row_def unknown_outcome_row_def reclaim_row_def completed_row_def)

lemmas receipt_ops = claim_side_effect_receipt_def claim_new_receipt_def
  claim_existing_receipt_def complete_side_effect_receipt_def fail_side_effect_receipt_def
  mark_side_effect_indeterminate_def reconcile_side_effect_receipt_def

section \<open>Well-formed tables\<close>

text \<open>The idempotency key is unique, and a claimed row names its owner and its lease.\<close>

definition effects_wf :: "receipt list \<Rightarrow> bool" where
  "effects_wf t \<longleftrightarrow> keyed rc_key t \<and>
     (\<forall>r \<in> set t. rc_state r = Claimed \<longrightarrow> (\<exists>w e. rc_owner r = Some w \<and> rc_lease r = Some e))"

lemma effects_wf_Nil [simp]: "effects_wf []"
  by (simp add: effects_wf_def)

lemma effects_wf_keyed [simp]: "effects_wf t \<Longrightarrow> keyed rc_key t"
  by (simp add: effects_wf_def)

lemma effects_wf_claimed:
  "effects_wf t \<Longrightarrow> sel_by rc_key k t = Some r \<Longrightarrow> rc_state r = Claimed \<Longrightarrow>
     \<exists>w e. rc_owner r = Some w \<and> rc_lease r = Some e"
  by (auto simp: effects_wf_def dest: sel_by_SomeD)

lemma effects_wf_upd:
  assumes "effects_wf t" and "\<And>r. rc_key (f r) = rc_key r"
    and "\<And>r. P r \<Longrightarrow> rc_state (f r) = Claimed \<Longrightarrow> \<exists>w e. rc_owner (f r) = Some w \<and> rc_lease (f r) = Some e"
  shows "effects_wf (upd_where P f t)"
  using assms by (auto simp: effects_wf_def keyed_upd_where set_upd_where)

lemma effects_wf_snoc:
  assumes "effects_wf t" and "sel_by rc_key (rc_key r) t = None"
    and "rc_state r = Claimed \<Longrightarrow> \<exists>w e. rc_owner r = Some w \<and> rc_lease r = Some e"
  shows "effects_wf (t @ [r])"
  using assms by (auto simp: effects_wf_def intro: keyed_snoc)

lemma receipt_claim_wf:
  assumes "effects_wf t"
  shows "effects_wf (snd (claim_side_effect_receipt q now t))"
  using assms
  by (auto simp: claim_side_effect_receipt_def claim_new_receipt_def claim_existing_receipt_def Let_def
      intro!: effects_wf_upd effects_wf_snoc split: option.splits prod.splits)

lemma effects_wf_try:
  assumes "effects_wf t" and "\<And>r. rc_key (f r) = rc_key r" and "\<And>r. rc_state (f r) \<noteq> Claimed"
  shows "effects_wf (snd (try_update rc_key k P f t))" "effects_wf (snd (update_row rc_key k P f t))"
  using assms by (auto simp: try_update_def update_row_def intro!: effects_wf_upd)

lemma complete_wf: "effects_wf t \<Longrightarrow> effects_wf (snd (complete_side_effect_receipt k w d now t))"
  by (simp add: complete_side_effect_receipt_def effects_wf_try)

lemma fail_wf: "effects_wf t \<Longrightarrow> effects_wf (snd (fail_side_effect_receipt k w e now t))"
  by (simp add: fail_side_effect_receipt_def effects_wf_try)

lemma indeterminate_wf: "effects_wf t \<Longrightarrow> effects_wf (snd (mark_side_effect_indeterminate k w e now t))"
  by (simp add: mark_side_effect_indeterminate_def effects_wf_try)

lemma reconcile_wf: "effects_wf t \<Longrightarrow> effects_wf (snd (reconcile_side_effect_receipt k oc ev e now t))"
  using effects_wf_try(1) [of t "reconciled_row (py_lower (py_strip oc) = ''completed'') ev e now"
      "py_strip k" "\<lambda>r. rc_state r = Indeterminate"]
  by (simp add: reconcile_side_effect_receipt_def Let_def split_beta)

lemmas receipt_wf [inv_intros] = receipt_claim_wf complete_wf fail_wf indeterminate_wf reconcile_wf

section \<open>Histories of the ledger\<close>

datatype effect_op =
    DoClaim claim_req
  | DoComplete string string "dict option"
  | DoFail string string string
  | DoIndeterminate string string string
  | DoReconcile string string dict "string option"

fun effect_step :: "effect_op \<Rightarrow> time \<Rightarrow> receipt list \<Rightarrow> receipt list" where
  "effect_step (DoClaim q) now t = snd (claim_side_effect_receipt q now t)"
| "effect_step (DoComplete k w d) now t = snd (complete_side_effect_receipt k w d now t)"
| "effect_step (DoFail k w e) now t = snd (fail_side_effect_receipt k w e now t)"
| "effect_step (DoIndeterminate k w e) now t = snd (mark_side_effect_indeterminate k w e now t)"
| "effect_step (DoReconcile k oc ev e) now t = snd (reconcile_side_effect_receipt k oc ev e now t)"

fun effect_run :: "(effect_op \<times> time) list \<Rightarrow> receipt list \<Rightarrow> receipt list" where
  "effect_run [] t = t"
| "effect_run ((x, now) # xs) t = effect_run xs (effect_step x now t)"

text \<open>How often a history lets the effect \<open>k\<close> be executed, and how often it records that an
  execution of \<open>k\<close> has failed.\<close>

definition executes :: "string \<Rightarrow> effect_op \<Rightarrow> time \<Rightarrow> receipt list \<Rightarrow> bool" where
  "executes k x now t = (case x of
     DoClaim q \<Rightarrow> py_strip (cq_key q) = k \<and>
       (case fst (claim_side_effect_receipt q now t) of Inl _ \<Rightarrow> False | Inr res \<Rightarrow> cr_execute res)
   | _ \<Rightarrow> False)"

definition records_failure :: "string \<Rightarrow> effect_op \<Rightarrow> time \<Rightarrow> receipt list \<Rightarrow> bool" where
  "records_failure k x now t = (case x of
     DoFail k' w e \<Rightarrow> py_strip k' = k \<and> fst (fail_side_effect_receipt k' w e now t)
   | DoReconcile k' oc ev e \<Rightarrow> py_strip k' = k \<and> py_lower (py_strip oc) = ''failed'' \<and>
       fst (reconcile_side_effect_receipt k' oc ev e now t) = Inr True
   | _ \<Rightarrow> False)"

fun executions :: "string \<Rightarrow> (effect_op \<times> time) list \<Rightarrow> receipt list \<Rightarrow> nat" where
  "executions k [] t = 0"
| "executions k ((x, now) # xs) t =
     (if executes k x now t then 1 else 0) + executions k xs (effect_step x now t)"

fun failures :: "string \<Rightarrow> (effect_op \<times> time) list \<Rightarrow> receipt list \<Rightarrow> nat" where
  "failures k [] t = 0"
| "failures k ((x, now) # xs) t =
     (if records_failure k x now t then 1 else 0) + failures k xs (effect_step x now t)"

text \<open>No request of the history declares the effect safe to replay.\<close>

definition not_replayable :: "string \<Rightarrow> (effect_op \<times> time) list \<Rightarrow> bool" where
  "not_replayable k xs = list_all (\<lambda>(x, _). case x of
     DoClaim q \<Rightarrow> py_strip (cq_key q) = k \<longrightarrow> \<not> cq_replay_safe q | _ \<Rightarrow> True) xs"

lemma effect_step_wf: "effects_wf t \<Longrightarrow> effects_wf (effect_step x now t)"
  by (cases x) (auto intro: inv_intros)

lemma effect_run_wf: "effects_wf t \<Longrightarrow> effects_wf (effect_run xs t)"
  by (induction xs t rule: effect_run.induct) (auto intro: effect_step_wf)

definition occupied :: "string \<Rightarrow> receipt list \<Rightarrow> nat" where
  "occupied k t = (case sel_by rc_key k t of None \<Rightarrow> 0 | Some r \<Rightarrow> if rc_state r = Failed then 0 else 1)"

lemma claim_sel_other:
  assumes "k \<noteq> py_strip (cq_key q)"
  shows "sel_by rc_key k (snd (claim_side_effect_receipt q now t)) = sel_by rc_key k t"
  using assms
  by (auto simp: claim_side_effect_receipt_def claim_new_receipt_def claim_existing_receipt_def
      Let_def sel_by_append sel_upd_key split: option.splits)

lemma claim_balance:
  assumes "py_strip (cq_key q) = k \<longrightarrow> \<not> cq_replay_safe q"
  shows "(if executes k (DoClaim q) now t then 1 else 0) + occupied k t
    \<le> occupied k (snd (claim_side_effect_receipt q now t))"
proof (cases "k = py_strip (cq_key q)")
  case False
  then have "\<not> executes k (DoClaim q) now t" by (simp add: executes_def)
  then show ?thesis by (simp add: occupied_def claim_sel_other [OF False])
next
  case True
  show ?thesis
  proof (cases "sel_by rc_key k t")
    case None
    then show ?thesis
      by (simp add: True executes_def occupied_def claim_side_effect_receipt_def
        claim_new_receipt_def Let_def sel_by_append split: if_splits)
  next
    case (Some r)
    have key: "rc_key r = py_strip (cq_key q)" using Some True sel_by_key by metis
    show ?thesis
      by (cases "rc_state r")
        (use Some assms True key in \<open>simp_all add: executes_def occupied_def
          claim_side_effect_receipt_def claim_existing_receipt_def Let_def sel_upd_key\<close>)
  qed
qed

text \<open>The settling operations, seen through the lookup by key.\<close>

abbreviation owned_claim :: "string \<Rightarrow> receipt \<Rightarrow> bool" where
  "owned_claim w r \<equiv> rc_owner r = Some w \<and> rc_state r = Claimed"

lemma complete_sel:
  assumes "effects_wf t"
  shows "fst (complete_side_effect_receipt k' w d now t) = holds_at rc_key (py_strip k') (owned_claim (py_strip w)) t"
    and "sel_by rc_key k (snd (complete_side_effect_receipt k' w d now t)) =
      (if k = py_strip k' \<and> holds_at rc_key (py_strip k') (owned_claim (py_strip w)) t
       then map_option (completed_row d now) (sel_by rc_key k t) else sel_by rc_key k t)"
  using assms by (simp_all add: complete_side_effect_receipt_def try_update_eq update_row_fst update_row_sel)

lemma fail_sel:
  assumes "effects_wf t"
  shows "fst (fail_side_effect_receipt k' w e now t) = holds_at rc_key (py_strip k') (owned_claim (py_strip w)) t"
    and "sel_by rc_key k (snd (fail_side_effect_receipt k' w e now t)) =
      (if k = py_strip k' \<and> holds_at rc_key (py_strip k') (owned_claim (py_strip w)) t
       then map_option (failed_row e now) (sel_by rc_key k t) else sel_by rc_key k t)"
  using assms by (simp_all add: fail_side_effect_receipt_def try_update_eq update_row_fst update_row_sel)

lemma indeterminate_sel:
  assumes "effects_wf t"
  shows "fst (mark_side_effect_indeterminate k' w e now t) = holds_at rc_key k' (owned_claim w) t"
    and "sel_by rc_key k (snd (mark_side_effect_indeterminate k' w e now t)) =
      (if k = k' \<and> holds_at rc_key k' (owned_claim w) t
       then map_option (indeterminate_row e now) (sel_by rc_key k t) else sel_by rc_key k t)"
  using assms by (simp_all add: mark_side_effect_indeterminate_def update_row_fst update_row_sel)

lemma reconcile_sel:
  assumes "effects_wf t" and "reconcile_side_effect_receipt k' oc ev err now t = (res, t')"
  shows "res = Inr True \<longleftrightarrow> py_strip k' \<noteq> [] \<and> py_lower (py_strip oc) \<in> {''completed'', ''failed''} \<and>
      holds_at rc_key (py_strip k') (\<lambda>r. rc_state r = Indeterminate) t"
    and "sel_by rc_key k t' = (if k = py_strip k' \<and> res = Inr True
      then map_option (reconciled_row (py_lower (py_strip oc) = ''completed'') ev err now) (sel_by rc_key k t)
      else sel_by rc_key k t)"
  using assms
  by (auto simp: reconcile_side_effect_receipt_def Let_def split_beta try_update_eq update_row_fst
      update_row_sel split: if_splits)

lemma settle_balance:
  assumes "effects_wf t" and "\<And>q. x \<noteq> DoClaim q"
  shows "occupied k t \<le> (if records_failure k x now t then 1 else 0) + occupied k (effect_step x now t)"
proof (cases x)
  case (DoReconcile k' oc ev e)
  obtain res t' where c: "reconcile_side_effect_receipt k' oc ev e now t = (res, t')" by force
  from reconcile_sel [OF assms(1) c] show ?thesis
    by (cases "sel_by rc_key k t") (auto simp: DoReconcile c occupied_def records_failure_def)
qed (use assms in \<open>auto simp: occupied_def records_failure_def complete_sel fail_sel indeterminate_sel
      split: option.splits\<close>)

lemma execution_balance:
  assumes "effects_wf t" and "not_replayable k xs"
  shows "executions k xs t + occupied k t \<le> failures k xs t + occupied k (effect_run xs t)"
  using assms
proof (induction xs t rule: effect_run.induct)
  case (2 x now xs t)
  have IH: "executions k xs (effect_step x now t) + occupied k (effect_step x now t)
      \<le> failures k xs (effect_step x now t) + occupied k (effect_run xs (effect_step x now t))"
    using 2 by (intro "2.IH") (auto simp: not_replayable_def effect_step_wf)
  show ?case
  proof (cases x)
    case (DoClaim q)
    then have "py_strip (cq_key q) = k \<longrightarrow> \<not> cq_replay_safe q"
      using "2.prems"(2) by (simp add: not_replayable_def)
    from claim_balance [OF this, of now t] DoClaim IH show ?thesis
      by (simp add: records_failure_def split: if_splits)
  next
    case (DoComplete k' w d)
    then have "\<And>q. x \<noteq> DoClaim q" "\<not> executes k x now t" by (simp_all add: executes_def)
    with settle_balance [OF "2.prems"(1), of x k now] IH show ?thesis by simp
  next
    case (DoFail k' w e)
    then have "\<And>q. x \<noteq> DoClaim q" "\<not> executes k x now t" by (simp_all add: executes_def)
    with settle_balance [OF "2.prems"(1), of x k now] IH show ?thesis by simp
  next
    case (DoIndeterminate k' w e)
    then have "\<And>q. x \<noteq> DoClaim q" "\<not> executes k x now t" by (simp_all add: executes_def)
    with settle_balance [OF "2.prems"(1), of x k now] IH show ?thesis by simp
  next
    case (DoReconcile k' oc ev e)
    then have "\<And>q. x \<noteq> DoClaim q" "\<not> executes k x now t" by (simp_all add: executes_def)
    with settle_balance [OF "2.prems"(1), of x k now] IH show ?thesis by simp
  qed
qed simp

text \<open>A completed receipt is never changed again and never handed out again.\<close>

lemma completed_step:
  assumes "effects_wf t" and r: "sel_by rc_key k t = Some r" "rc_state r = Completed"
  shows "sel_by rc_key k (effect_step x now t) = Some r \<and> \<not> executes k x now t"
proof (cases x)
  case (DoClaim q)
  show ?thesis
  proof (cases "k = py_strip (cq_key q)")
    case True
    then show ?thesis using r
      by (auto simp: DoClaim executes_def claim_side_effect_receipt_def claim_existing_receipt_def Let_def)
  next
    case False
    then show ?thesis using r by (simp add: DoClaim executes_def claim_sel_other)
  qed
next
  case (DoReconcile k' oc ev e)
  obtain res t' where c: "reconcile_side_effect_receipt k' oc ev e now t = (res, t')" by force
  from reconcile_sel [OF assms(1) c] r show ?thesis
    by (auto simp: DoReconcile c executes_def)
qed (use assms in \<open>auto simp: executes_def complete_sel fail_sel indeterminate_sel\<close>)

section \<open>The ledger as a lease queue\<close>

definition effect_grant :: "claim_req \<Rightarrow> time \<Rightarrow> receipt list \<Rightarrow> string option \<times> receipt list" where
  "effect_grant q now t = (case claim_side_effect_receipt q now t of
     (Inr res, t') \<Rightarrow> (if cr_execute res then Some (py_strip (cq_key q)) else None, t')
   | (Inl _, t') \<Rightarrow> (None, t'))"

definition effect_lease :: "receipt list \<Rightarrow> string \<Rightarrow> (string \<times> time) option" where
  "effect_lease t k = (case sel_by rc_key k t of
     Some r \<Rightarrow> if rc_state r = Claimed
              then (case (rc_owner r, rc_lease r) of (Some w, Some e) \<Rightarrow> Some (w, e) | _ \<Rightarrow> None)
              else None
   | None \<Rightarrow> None)"

fun effect_targets :: "effect_op \<Rightarrow> string set" where
  "effect_targets (DoClaim q) = {py_strip (cq_key q)}"
| "effect_targets (DoComplete k w d) = {py_strip k}"
| "effect_targets (DoFail k w e) = {py_strip k}"
| "effect_targets (DoIndeterminate k w e) = {k}"
| "effect_targets (DoReconcile k oc ev e) = {py_strip k}"

text \<open>The settlements an executor makes: complete, fail, or give up with unknown outcome.\<close>

datatype effect_settlement =
    SComplete string string "dict option"
  | SFail string string string
  | SUnknown string string string

fun effect_settle :: "effect_settlement \<Rightarrow> time \<Rightarrow> receipt list \<Rightarrow> bool \<times> receipt list" where
  "effect_settle (SComplete k w d) now t = complete_side_effect_receipt k w d now t"
| "effect_settle (SFail k w e) now t = fail_side_effect_receipt k w e now t"
| "effect_settle (SUnknown k w e) now t = mark_side_effect_indeterminate k w e now t"

fun settled_item :: "effect_settlement \<Rightarrow> string" where
  "settled_item (SComplete k w d) = py_strip k"
| "settled_item (SFail k w e) = py_strip k"
| "settled_item (SUnknown k w e) = k"

fun settling_owner :: "effect_settlement \<Rightarrow> string" where
  "settling_owner (SComplete k w d) = py_strip w"
| "settling_owner (SFail k w e) = py_strip w"
| "settling_owner (SUnknown k w e) = w"

lemma claim_expires_later: "now < claim_expires q now"
  by (simp add: claim_expires_def lease_ms_def)

lemma effect_step_frame:
  assumes "effects_wf t" and "k \<notin> effect_targets x"
  shows "sel_by rc_key k (effect_step x now t) = sel_by rc_key k t"
proof (cases x)
  case (DoReconcile k' oc ev e)
  obtain res t' where c: "reconcile_side_effect_receipt k' oc ev e now t = (res, t')" by force
  from reconcile_sel [OF assms(1) c] assms(2) show ?thesis by (auto simp: DoReconcile c)
qed (use assms in \<open>auto simp: complete_sel fail_sel indeterminate_sel claim_sel_other\<close>)

lemma effect_grant_sel:
  assumes "effect_grant q now t = (Some k, t')"
  shows "k = py_strip (cq_key q) \<and> \<not> live (effect_lease t k) now \<and>
    (\<exists>r. sel_by rc_key k t' = Some r \<and> owned_claim (py_strip (cq_owner q)) r \<and>
         rc_lease r = Some (claim_expires q now))"
proof -
  obtain res where c: "claim_side_effect_receipt q now t = (Inr res, t')" and ex: "cr_execute res"
    and k: "k = py_strip (cq_key q)"
    using assms by (auto simp: effect_grant_def split: prod.splits sum.splits if_splits)
  show ?thesis
  proof (cases "sel_by rc_key k t")
    case None
    then show ?thesis using c ex k
      by (auto simp: effect_lease_def claim_side_effect_receipt_def claim_new_receipt_def Let_def
          sel_by_append split: if_splits)
  next
    case (Some r)
    have "rc_key r = k" using Some by (rule sel_by_key)
    then show ?thesis using Some c ex k
      by (cases "rc_state r"; cases "rc_lease r")
        (auto simp: effect_lease_def claim_side_effect_receipt_def claim_existing_receipt_def Let_def
          sel_upd_key split: if_splits option.splits)
  qed
qed

lemma claim_executes_row:
  assumes c: "claim_side_effect_receipt q now t = (Inr c, t')" and ex: "cr_execute c"
    and fp: "py_strip (cq_fingerprint q) = cq_fingerprint q"
  shows "\<exists>r. sel_by rc_key (py_strip (cq_key q)) t' = Some r \<and> owned_claim (py_strip (cq_owner q)) r \<and>
    rc_fingerprint r = cq_fingerprint q"
proof (cases "sel_by rc_key (py_strip (cq_key q)) t")
  case None
  then show ?thesis using c ex fp
    by (auto simp: claim_side_effect_receipt_def claim_new_receipt_def Let_def sel_by_append split: if_splits)
next
  case (Some r)
  have "rc_key r = py_strip (cq_key q)" using Some by (rule sel_by_key)
  then show ?thesis using Some c ex
    by (cases "rc_state r"; cases "rc_lease r")
      (auto simp: claim_side_effect_receipt_def claim_existing_receipt_def Let_def
        sel_upd_key split: if_splits option.splits)
qed

lemma effect_grant_frame:
  assumes "effect_grant q now t = (r, t')" "r \<noteq> Some k" "live (effect_lease t k) now"
  shows "sel_by rc_key k t' = sel_by rc_key k t"
proof -
  have t': "t' = snd (claim_side_effect_receipt q now t)"
    using assms(1) by (auto simp: effect_grant_def split: prod.splits sum.splits)
  show ?thesis
  proof (cases "k = py_strip (cq_key q)")
    case False
    then show ?thesis using t' claim_sel_other by simp
  next
    case True
    from assms(3) obtain x where x: "sel_by rc_key k t = Some x" "rc_state x = Claimed"
        "\<not> expired_or_null (rc_lease x) now"
      by (auto simp: effect_lease_def split: option.splits if_splits)
    then show ?thesis using t' True
      by (simp add: claim_side_effect_receipt_def claim_existing_receipt_def Let_def)
  qed
qed

lemma effect_grant_wf: "effects_wf t \<Longrightarrow> effects_wf (snd (effect_grant q now t))"
  using receipt_claim_wf [of t q now]
  by (auto simp: effect_grant_def split: prod.splits sum.splits)

lemma effect_settle_cases:
  assumes "effects_wf t" "effect_settle x now t = (ok, t')"
  shows "ok = holds_at rc_key (settled_item x) (owned_claim (settling_owner x)) t \<and> (\<not> ok \<longrightarrow> t' = t)"
  using assms
  by (cases x) (auto simp: complete_side_effect_receipt_def fail_side_effect_receipt_def
      mark_side_effect_indeterminate_def try_update_eq dest: update_row_cases [rotated])

lemma owned_claim_lease:
  assumes "effects_wf t" "holds_at rc_key k (owned_claim w) t"
  shows "\<exists>e. effect_lease t k = Some (w, e)"
  using assms effects_wf_claimed [OF assms(1), of k]
  by (auto simp: effect_lease_def holds_at_def split: option.splits)

interpretation effects: fenced_lease_queue effect_grant effect_step effect_targets
  "\<lambda>q. py_strip (cq_owner q)" effect_lease effects_wf effect_settle settled_item settling_owner
proof
  fix t q now
  assume "effects_wf t"
  then show "effects_wf (snd (effect_grant q now t))" by (rule effect_grant_wf)
next
  fix t x now
  assume "effects_wf t"
  then show "effects_wf (effect_step x now t)" by (rule effect_step_wf)
next
  fix t q now k t'
  assume "effect_grant q now t = (Some k, t')"
  then show "\<not> live (effect_lease t k) now" by (blast dest: effect_grant_sel)
next
  fix t q now k t'
  assume "effect_grant q now t = (Some k, t')"
  then obtain r where "sel_by rc_key k t' = Some r" "owned_claim (py_strip (cq_owner q)) r"
    "rc_lease r = Some (claim_expires q now)" using effect_grant_sel by blast
  then show "\<exists>e. effect_lease t' k = Some (py_strip (cq_owner q), e) \<and> now < e"
    by (simp add: effect_lease_def claim_expires_later)
next
  fix t q now r k t'
  assume "effect_grant q now t = (r, t')" "r \<noteq> Some k" "live (effect_lease t k) now"
  then have "sel_by rc_key k t' = sel_by rc_key k t" by (rule effect_grant_frame)
  then show "effect_lease t' k = effect_lease t k" by (simp add: effect_lease_def)
next
  fix t k x now
  assume "effects_wf t" "k \<notin> effect_targets x"
  then have "sel_by rc_key k (effect_step x now t) = sel_by rc_key k t" by (rule effect_step_frame)
  then show "effect_lease (effect_step x now t) k = effect_lease t k" by (simp add: effect_lease_def)
next
  fix t x now t'
  assume wf: "effects_wf t" and "effect_settle x now t = (True, t')"
  then have "holds_at rc_key (settled_item x) (owned_claim (settling_owner x)) t"
    using effect_settle_cases by blast
  then show "\<exists>e. effect_lease t (settled_item x) = Some (settling_owner x, e)"
    by (rule owned_claim_lease [OF wf])
next
  fix t x now t'
  assume "effects_wf t" "effect_settle x now t = (False, t')"
  then show "t' = t" using effect_settle_cases by blast
qed

section \<open>The abstract ledger\<close>

text \<open>What the table promises, without rows: each key has a payload and is running under an
  owner until an expiry, done, failed, or of unknown outcome.\<close>

datatype phase = Running string time | Done | Broken | Unknown

type_synonym ledger = "string \<Rightarrow> (string \<times> phase) option"

definition phase_of :: "receipt \<Rightarrow> phase" where
  "phase_of r = (case rc_state r of
     Claimed \<Rightarrow> Running (case rc_owner r of None \<Rightarrow> [] | Some w \<Rightarrow> w)
                        (case rc_lease r of None \<Rightarrow> 0 | Some e \<Rightarrow> e)
   | Completed \<Rightarrow> Done | Failed \<Rightarrow> Broken | Indeterminate \<Rightarrow> Unknown)"

definition ledger_of :: "receipt list \<Rightarrow> ledger" where
  "ledger_of t = (\<lambda>k. map_option (\<lambda>r. (rc_fingerprint r, phase_of r)) (sel_by rc_key k t))"

definition ledger_claim :: "claim_req \<Rightarrow> time \<Rightarrow> ledger \<Rightarrow> bool option \<times> ledger" where
  "ledger_claim q now l =
     (let k = py_strip (cq_key q); fp = cq_fingerprint q;
          running = Running (py_strip (cq_owner q)) (claim_expires q now)
      in case l k of
        None \<Rightarrow> if cq_legacy_completed q then (Some False, l(k \<mapsto> (py_strip fp, Done)))
                else (Some True, l(k \<mapsto> (py_strip fp, running)))
      | Some (fp', ph) \<Rightarrow>
          if fp' \<noteq> fp then (None, l)
          else (case ph of
              Done \<Rightarrow> (Some False, l)
            | Unknown \<Rightarrow> (Some False, l)
            | Broken \<Rightarrow> if cq_retry_failed q then (Some True, l(k \<mapsto> (fp, running))) else (Some False, l)
            | Running w e \<Rightarrow>
                if now < e then (Some False, l)
                else if cq_replay_safe q then (Some True, l(k \<mapsto> (fp, running)))
                else (Some False, l(k \<mapsto> (fp, Unknown)))))"

definition claim_answer :: "effect_error + claim_result \<Rightarrow> bool option" where
  "claim_answer res = (case res of Inl _ \<Rightarrow> None | Inr c \<Rightarrow> Some (cr_execute c))"

lemma phase_of_rows [simp]:
  "phase_of (retry_failed_row q now r) = Running (py_strip (cq_owner q)) (claim_expires q now)"
  "phase_of (unknown_outcome_row q now r) = Unknown"
  "rc_state r = Claimed \<Longrightarrow>
     phase_of (reclaim_row q now r) = Running (py_strip (cq_owner q)) (claim_expires q now)"
  by (simp_all add: phase_of_def)

lemma ledger_of_upd:
  assumes "sel_by rc_key k t = Some r" and "P r" and "\<And>x. rc_key (f x) = rc_key x"
  shows "ledger_of (upd_where (\<lambda>r. rc_key r = k \<and> P r) f t) =
    (ledger_of t)(k \<mapsto> (rc_fingerprint (f r), phase_of (f r)))"
  using assms by (simp add: ledger_of_def fun_eq_iff sel_upd_key)

lemma ledger_of_snoc:
  "sel_by rc_key (rc_key r) t = None \<Longrightarrow>
     ledger_of (t @ [r]) = (ledger_of t)(rc_key r \<mapsto> (rc_fingerprint r, phase_of r))"
  by (simp add: ledger_of_def fun_eq_iff sel_snoc)

lemma ledger_at: "ledger_of t k = map_option (\<lambda>r. (rc_fingerprint r, phase_of r)) (sel_by rc_key k t)"
  by (simp add: ledger_of_def)

section \<open>Properties\<close>

definition demo_claim :: "string \<Rightarrow> claim_req" where
  "demo_claim w =
     \<lparr>cq_session = ''s1'', cq_run = Some ''r1'', cq_key = ''k'', cq_effect_kind = ''mail'',
      cq_step_key = ''step'', cq_target = ''to'', cq_fingerprint = ''fp'', cq_owner = w,
      cq_metadata = [], cq_lease_seconds = 60, cq_retry_failed = True, cq_replay_safe = False,
      cq_legacy_completed = False\<rparr>"

definition demo_ledger :: "receipt list" where
  "demo_ledger = snd (claim_side_effect_receipt (demo_claim ''w1'') 1000 [])"

lemma demo_ledger_wf: "effects_wf demo_ledger"
  unfolding demo_ledger_def by (intro receipt_claim_wf) simp



text \<open>A completed receipt is final. No later history of claims and settlements changes any
  column of the row or lets the effect run again, replay-safe requests included.\<close>

theorem completed_effect_is_final:
  assumes "effects_wf t" and "sel_by rc_key k t = Some r" and "rc_state r = Completed"
  shows "sel_by rc_key k (effect_run xs t) = Some r \<and> executions k xs t = 0"
  using assms(1,2)
proof (induction xs t rule: effect_run.induct)
  case (2 x now xs t)
  from completed_step [OF "2.prems"(1,2) assms(3), of x now] 2
  show ?case by (simp add: effect_step_wf)
qed simp

theorem completed_effect_is_final_witness:
  "executions ''k'' [(DoClaim (demo_claim ''w2''), 5000)]
     (snd (complete_side_effect_receipt ''k'' ''w1'' None 2000 demo_ledger)) = 0"
proof -
  define t where "t = snd (complete_side_effect_receipt ''k'' ''w1'' None 2000 demo_ledger)"
  have "effects_wf t" unfolding t_def by (intro complete_wf demo_ledger_wf)
  moreover have "map_option rc_state (sel_by rc_key ''k'' t) = Some Completed"
    unfolding t_def by code_simp
  ultimately obtain r where "effects_wf t" "sel_by rc_key ''k'' t = Some r" "rc_state r = Completed"
    by auto
  from completed_effect_is_final [OF this] show ?thesis unfolding t_def by blast
qed

text \<open>C2: an executor whose receipt has been handed to somebody else is fenced: whichever way it
  settles (complete, fail, unknown outcome), its settlement is refused and no row changes.\<close>

theorem superseded_executor_fenced:
  assumes "effects_wf t" and "claim_side_effect_receipt q now t = (Inr res, t')" and "cr_execute res"
    and "settled_item x = py_strip (cq_key q)" and "settling_owner x \<noteq> py_strip (cq_owner q)"
  shows "effect_settle x u t' = (False, t')"
  using effects.superseded_worker_rejected [of t q now x t' u] assms by (simp add: effect_grant_def)

theorem superseded_executor_fenced_witness:
  "effect_settle (SComplete ''k'' ''w0'' None) 1500 demo_ledger = (False, demo_ledger)"
proof -
  obtain res where c: "claim_side_effect_receipt (demo_claim ''w1'') 1000 [] = (Inr res, demo_ledger)"
    and "cr_execute res"
    unfolding demo_ledger_def by (simp add: claim_side_effect_receipt_def claim_new_receipt_def Let_def
      demo_claim_def py_strip_def py_lstrip_def py_rstrip_def py_space_def)
  then show ?thesis by (intro superseded_executor_fenced [OF _ c]) (simp, simp, code_simp, code_simp)
qed

text \<open>While the lease of a claimed receipt runs, no interleaving of claims by anybody and of
  operations on other keys hands the effect out, and the holder keeps it.\<close>

theorem effect_lease_exclusive:
  assumes "effects_wf t" and "effect_lease t k = Some (w, e)"
    and "\<And>ev. ev \<in> set es \<Longrightarrow> event_time ev < e"
    and "\<And>x now. Other x now \<in> set es \<Longrightarrow> k \<notin> effect_targets x"
  shows "k \<notin> set (grants effect_grant effect_step t es) \<and>
    effect_lease (play effect_grant effect_step t es) k = Some (w, e)"
  by (rule effects.no_grant_while_leased [OF assms])

theorem effect_lease_exclusive_witness:
  "''k'' \<notin> set (grants effect_grant effect_step demo_ledger
     [Claim (demo_claim ''w2'') 1500, Other (DoComplete ''j'' ''w3'' None) 1600])"
proof -
  have "effect_lease demo_ledger ''k'' = Some (''w1'', 61000)" by code_simp
  moreover have "''k'' \<notin> effect_targets (DoComplete ''j'' ''w3'' None)" by code_simp
  ultimately show ?thesis
    by (intro conjunct1 [OF effect_lease_exclusive [OF demo_ledger_wf, of "''k''" "''w1''" 61000]]) auto
qed

text \<open>C3: the claim transaction refines the abstract ledger: on every branch (new key, legacy
  completion, other payload, completed, failed, unknown, running, expired with and without replay
  safety) the answer and the table are those of the ledger.\<close>

theorem claim_refines_ledger:
  assumes "effects_wf t"
    and "py_strip (cq_key q) \<noteq> []" "py_strip (cq_session q) \<noteq> []" "py_strip (cq_owner q) \<noteq> []"
    and c: "claim_side_effect_receipt q now t = (res, t')"
  shows "ledger_claim q now (ledger_of t) = (claim_answer res, ledger_of t')"
proof (cases "sel_by rc_key (py_strip (cq_key q)) t")
  case None
  then show ?thesis using assms(2-4) c
    by (cases "cq_legacy_completed q")
      (auto simp: ledger_claim_def ledger_at claim_answer_def claim_side_effect_receipt_def
        claim_new_receipt_def Let_def ledger_of_snoc phase_of_def)
next
  case (Some r)
  show ?thesis
  proof (cases "rc_fingerprint r = cq_fingerprint q")
    case False
    then show ?thesis using Some c assms(2-4)
      by (auto simp: ledger_claim_def ledger_at claim_answer_def claim_side_effect_receipt_def Let_def)
  next
    case True
    obtain cr where cr: "claim_existing_receipt q now r t = (cr, t')" "res = Inr cr"
      using Some c assms(2-4) True by (auto simp: claim_side_effect_receipt_def split: prod.splits)
    show ?thesis
      using Some True cr effects_wf_claimed [OF assms(1) Some]
      by (cases "rc_state r")
        (auto simp: ledger_claim_def ledger_at claim_answer_def claim_existing_receipt_def Let_def
          ledger_of_upd phase_of_def split: if_splits)
  qed
qed

theorem claim_refines_ledger_witness:
  "ledger_claim (demo_claim ''w2'') 70000 (ledger_of demo_ledger) =
     (Some False, ledger_of (snd (claim_side_effect_receipt (demo_claim ''w2'') 70000 demo_ledger)))"
proof -
  define res where "res = fst (claim_side_effect_receipt (demo_claim ''w2'') 70000 demo_ledger)"
  have "claim_answer res = Some False" unfolding res_def by code_simp
  moreover have "py_strip (cq_key (demo_claim ''w2'')) \<noteq> []" "py_strip (cq_session (demo_claim ''w2'')) \<noteq> []"
    "py_strip (cq_owner (demo_claim ''w2'')) \<noteq> []" by code_simp+
  ultimately show ?thesis
    using claim_refines_ledger [OF demo_ledger_wf, of "demo_claim ''w2''" 70000 res] unfolding res_def by simp
qed

end
