(* ===== verification/EffectService.thy ===== *)
theory EffectService
  imports SideEffects
begin

text \<open>
  The service the runtimes call around an external effect
  (erc/side_effect_idempotency.py): it derives the idempotency key, claims the receipt, emits
  the outcome on the session's event log, and settles the receipt afterwards. The digests
  (\<^verbatim>\<open>hashlib\<close>) and the checkpoint saver of langgraph are parameters.
\<close>

record svc_receipt =
  sr_execute :: bool
  sr_effect_kind :: string
  sr_step_key :: string
  sr_target :: string
  sr_fingerprint :: string
  sr_key :: string
  sr_reason :: string
  sr_prior_topic :: "string option"
  sr_owner :: string
  sr_attempts :: int
  sr_state :: string

record effect_world =
  ew_ledger :: "receipt list"
  ew_events :: "(string \<times> dict) list"

record run_handle =
  rh_session :: string
  rh_run :: "string option"

fun state_text :: "effect_state \<Rightarrow> string" where
  "state_text Claimed = ''claimed''"
| "state_text Completed = ''completed''"
| "state_text Failed = ''failed''"
| "state_text Indeterminate = ''indeterminate''"

definition requires_reconciliation :: "svc_receipt \<Rightarrow> bool" where
  "requires_reconciliation r \<longleftrightarrow>
     sr_reason r = ''unknown_outcome_reconciliation_required'' \<or> sr_state r = ''indeterminate''"

definition receipt_dict :: "svc_receipt \<Rightarrow> dict" where
  "receipt_dict r =
     [(''execute'', JBool (sr_execute r)), (''effectKind'', JStr (sr_effect_kind r)),
      (''stepKey'', JStr (sr_step_key r)), (''targetIdentity'', JStr (sr_target r)),
      (''payloadFingerprint'', JStr (sr_fingerprint r)), (''idempotencyKey'', JStr (sr_key r)),
      (''reason'', JStr (sr_reason r)),
      (''priorTopic'', case sr_prior_topic r of None \<Rightarrow> JNull | Some p \<Rightarrow> JStr p),
      (''ownerId'', JStr (sr_owner r)), (''attemptCount'', JInt (sr_attempts r)),
      (''state'', JStr (sr_state r)),
      (''reconciliationRequired'', JBool (requires_reconciliation r))]"

definition emit :: "string \<Rightarrow> dict \<Rightarrow> effect_world \<Rightarrow> effect_world" where
  "emit topic payload w = w\<lparr>ew_events := ew_events w @ [(topic, payload)]\<rparr>"

text \<open>The latest event about the key decides whether an older release completed it.\<close>

definition event_key :: "dict \<Rightarrow> string" where
  "event_key p = as_text (if truthy (dget p ''idempotencyKey'') then dget p ''idempotencyKey''
                          else dget p ''idempotency_key'')"

definition legacy_completed_receipt_exists :: "string \<Rightarrow> (string \<times> dict) list \<Rightarrow> bool" where
  "legacy_completed_receipt_exists key events =
     (case find (\<lambda>(topic, p). topic \<in> {''side_effect.started'', ''side_effect.completed'',
                   ''side_effect.failed''} \<and> event_key p = key) (rev events) of
        None \<Rightarrow> False
      | Some (topic, _) \<Rightarrow> topic = ''side_effect.completed'')"

definition build_idempotency_key ::
  "(json \<Rightarrow> string) \<Rightarrow> run_handle \<Rightarrow> string \<Rightarrow> string \<Rightarrow> dict \<Rightarrow> string \<times> string" where
  "build_idempotency_key md5 h step target payload =
     (let fp = md5 (JObj payload)
      in (md5 (JObj [(''session_id'', JStr (py_strip (rh_session h))),
                     (''run_id'', JStr (norm_text (rh_run h))),
                     (''step_key'', JStr (py_strip step)),
                     (''target_identity'', JStr (py_strip target)),
                     (''payload_fingerprint'', JStr fp)]), fp))"

record begin_args =
  ba_effect_kind :: string
  ba_step_key :: string
  ba_target :: string
  ba_payload :: dict
  ba_node :: string
  ba_metadata :: dict
  ba_lease_seconds :: int
  ba_replay_safe :: bool
  ba_key :: "string option"

definition effect_key :: "(json \<Rightarrow> string) \<Rightarrow> run_handle \<Rightarrow> begin_args \<Rightarrow> string" where
  "effect_key md5 h a = or_text (case ba_key a of None \<Rightarrow> [] | Some k \<Rightarrow> k)
     (fst (build_idempotency_key md5 h (ba_step_key a) (ba_target a) (ba_payload a)))"

definition begin_claim ::
  "(json \<Rightarrow> string) \<Rightarrow> string \<Rightarrow> run_handle \<Rightarrow> begin_args \<Rightarrow> effect_world \<Rightarrow> claim_req" where
  "begin_claim md5 uuid h a w =
     \<lparr>cq_session = rh_session h, cq_run = rh_run h, cq_key = effect_key md5 h a,
      cq_effect_kind = ba_effect_kind a, cq_step_key = ba_step_key a, cq_target = ba_target a,
      cq_fingerprint = snd (build_idempotency_key md5 h (ba_step_key a) (ba_target a) (ba_payload a)),
      cq_owner = or_text (py_strip (or_text (ba_node a) ''side_effect'')) ''side_effect'' @ '':'' @ uuid,
      cq_metadata = ba_metadata a, cq_lease_seconds = ba_lease_seconds a,
      cq_retry_failed = True, cq_replay_safe = ba_replay_safe a,
      cq_legacy_completed =
        (get_side_effect_receipt (effect_key md5 h a) (ew_ledger w) = None \<and>
         legacy_completed_receipt_exists (effect_key md5 h a) (ew_events w))\<rparr>"

definition begin_effect ::
  "(json \<Rightarrow> string) \<Rightarrow> string \<Rightarrow> run_handle \<Rightarrow> begin_args \<Rightarrow> time \<Rightarrow> effect_world \<Rightarrow>
     (effect_error + svc_receipt) \<times> effect_world" where
  "begin_effect md5 uuid h a now w =
     (let q = begin_claim md5 uuid h a w
      in case claim_side_effect_receipt q now (ew_ledger w) of
        (Inl err, t) \<Rightarrow> (Inl err, w\<lparr>ew_ledger := t\<rparr>)
      | (Inr c, t) \<Rightarrow>
          let r = \<lparr>sr_execute = cr_execute c, sr_effect_kind = ba_effect_kind a,
                   sr_step_key = ba_step_key a, sr_target = ba_target a,
                   sr_fingerprint = cq_fingerprint q, sr_key = cq_key q,
                   sr_reason = cr_reason c,
                   sr_prior_topic = or_none (norm_text (cr_prior_topic c)),
                   sr_owner = cq_owner q,
                   sr_attempts = (if cr_execute c \<and> cr_attempts c = 0 then 1 else cr_attempts c),
                   sr_state = state_text (cr_state c)\<rparr>;
              body = receipt_dict r @ [(''metadata'', JObj (ba_metadata a))];
              topic = (if cr_execute c then ''side_effect.started''
                       else if requires_reconciliation r then ''side_effect.reconciliation_required''
                       else ''side_effect.skipped_duplicate'')
          in (Inr r, emit topic body (w\<lparr>ew_ledger := t\<rparr>)))"

definition complete_effect ::
  "svc_receipt \<Rightarrow> string \<Rightarrow> dict \<Rightarrow> time \<Rightarrow> effect_world \<Rightarrow> bool \<times> effect_world" where
  "complete_effect r node res now w =
     (if \<not> sr_execute r then (True, w)
      else case complete_side_effect_receipt (sr_key r) (sr_owner r) (Some res) now (ew_ledger w) of
        (ok, t) \<Rightarrow>
          if ok then (True, emit ''side_effect.completed''
                 (receipt_dict r @ [(''result'', JObj res), (''node'', JStr node)]) (w\<lparr>ew_ledger := t\<rparr>))
          else (False, emit ''side_effect.receipt_rejected''
                 (receipt_dict r @ [(''attemptedState'', JStr ''completed''), (''node'', JStr node)])
                 (w\<lparr>ew_ledger := t\<rparr>)))"

definition fail_effect ::
  "svc_receipt \<Rightarrow> string \<Rightarrow> string \<Rightarrow> time \<Rightarrow> effect_world \<Rightarrow> bool \<times> effect_world" where
  "fail_effect r node error now w =
     (if \<not> sr_execute r then (True, w)
      else case fail_side_effect_receipt (sr_key r) (sr_owner r) error now (ew_ledger w) of
        (ok, t) \<Rightarrow>
          if ok then (True, emit ''side_effect.failed''
                 (receipt_dict r @ [(''error'', JStr error), (''node'', JStr node)]) (w\<lparr>ew_ledger := t\<rparr>))
          else (False, emit ''side_effect.receipt_rejected''
                 (receipt_dict r @ [(''attemptedState'', JStr ''failed''), (''node'', JStr node)])
                 (w\<lparr>ew_ledger := t\<rparr>)))"

definition mark_effect_indeterminate ::
  "svc_receipt \<Rightarrow> string \<Rightarrow> string \<Rightarrow> time \<Rightarrow> effect_world \<Rightarrow> bool \<times> effect_world" where
  "mark_effect_indeterminate r node error now w =
     (if \<not> sr_execute r then (True, w)
      else case mark_side_effect_indeterminate (sr_key r) (sr_owner r) error now (ew_ledger w) of
        (ok, t) \<Rightarrow> (ok, emit (if ok then ''side_effect.outcome_unknown'' else ''side_effect.receipt_rejected'')
            (dset ''state'' (JStr ''indeterminate'') (receipt_dict r) @
               [(''node'', JStr node), (''error'', JStr error)]) (w\<lparr>ew_ledger := t\<rparr>)))"

definition reconcile_effect ::
  "svc_receipt \<Rightarrow> string \<Rightarrow> string \<Rightarrow> dict \<Rightarrow> string option \<Rightarrow> time \<Rightarrow> effect_world \<Rightarrow>
     (effect_error + bool) \<times> effect_world" where
  "reconcile_effect r node outcome evidence error now w =
     (case reconcile_side_effect_receipt (sr_key r) outcome evidence error now (ew_ledger w) of
        (Inl err, t) \<Rightarrow> (Inl err, w\<lparr>ew_ledger := t\<rparr>)
      | (Inr ok, t) \<Rightarrow> (Inr ok,
          emit (if ok then ''side_effect.reconciled'' else ''side_effect.receipt_rejected'')
            (receipt_dict r @ [(''attemptedState'', JStr (py_lower (py_strip outcome))),
               (''node'', JStr node), (''evidence'', JObj evidence)]) (w\<lparr>ew_ledger := t\<rparr>)))"

section \<open>A tool call resumed after its approval\<close>

text \<open>What awaiting the tool does: return, stop at an approval gate with or without a
  finished result, or raise. \<open>put\<close> and \<open>get\<close> are the checkpoint saver's
  \<^verbatim>\<open>aput\<close> and \<^verbatim>\<open>aget_tuple\<close> under the thread and namespace of
  the run and the episode; \<open>executed\<close> says whether the tool was awaited.\<close>

datatype tool_outcome = ToolReturned json | ToolIntervention "json option" | ToolRaised

datatype continuation_result =
    ToolResult json
  | ReconciliationRequired
  | InterventionRequired
  | ToolError
  | ClaimRefused effect_error
  | CheckpointMissing

definition continuation_args :: "(json \<Rightarrow> string) \<Rightarrow> run_handle \<Rightarrow> string \<Rightarrow> string \<Rightarrow> string \<Rightarrow> json \<Rightarrow>
    begin_args" where
  "continuation_args sha h episode call_id name args =
     \<lparr>ba_effect_kind = ''delegation_tool_continuation'', ba_step_key = episode @ '':'' @ call_id,
      ba_target = name, ba_payload = [(''name'', JStr name), (''args'', args)],
      ba_node = ''delegation_approval_resume'', ba_metadata = [], ba_lease_seconds = 300,
      ba_replay_safe = False,
      ba_key = Some (''delegation_tool:'' @ sha (JList [JStr (rh_session h),
         (case rh_run h of None \<Rightarrow> JNull | Some r \<Rightarrow> JStr r), JStr episode, JStr call_id]))\<rparr>"

definition saved_result :: "svc_receipt \<Rightarrow> effect_world \<Rightarrow> json option" where
  "saved_result r w =
     (let reference = (case get_side_effect_receipt (sr_key r) (ew_ledger w) of
                         None \<Rightarrow> JNull | Some row \<Rightarrow> dget (rc_metadata row) ''toolResultCheckpoint'')
      in if sr_state r = ''completed'' \<and> truthy reference then Some reference else None)"

definition save_and_complete ::
  "('c \<Rightarrow> json \<Rightarrow> json \<times> 'c) \<Rightarrow> svc_receipt \<Rightarrow> json \<Rightarrow> time \<Rightarrow> effect_world \<times> 'c \<Rightarrow>
     bool \<times> effect_world \<times> 'c" where
  "save_and_complete put r res now s =
     (let (ref, c) = put (snd s) (JObj [(''toolResult'', res)]);
          (ok, w) = complete_effect r ''delegation_approval_resume'' [(''toolResultCheckpoint'', ref)]
                      now (fst s)
      in (ok, w, c))"

definition execute_approved_tool_continuation ::
  "(json \<Rightarrow> string) \<Rightarrow> (json \<Rightarrow> string) \<Rightarrow> ('c \<Rightarrow> json \<Rightarrow> json \<times> 'c) \<Rightarrow> ('c \<Rightarrow> json \<Rightarrow> json option) \<Rightarrow>
     string \<Rightarrow> run_handle \<Rightarrow> string \<Rightarrow> string \<Rightarrow> string \<Rightarrow> json \<Rightarrow> tool_outcome \<Rightarrow> time \<Rightarrow> time \<Rightarrow>
     effect_world \<times> 'c \<Rightarrow> (continuation_result \<times> bool) \<times> effect_world \<times> 'c" where
  "execute_approved_tool_continuation md5 sha put get uuid h episode call_id name args tool now done_at s =
     (case begin_effect md5 uuid h (continuation_args sha h episode call_id name args) now (fst s) of
        (Inl err, w) \<Rightarrow> ((ClaimRefused err, False), w, snd s)
      | (Inr r, w) \<Rightarrow>
          if \<not> sr_execute r
          then (case saved_result r w of
              Some ref \<Rightarrow> (case get (snd s) ref of
                  None \<Rightarrow> ((CheckpointMissing, False), w, snd s)
                | Some v \<Rightarrow> ((ToolResult (dget (as_dict v) ''toolResult''), False), w, snd s))
            | None \<Rightarrow> ((ReconciliationRequired, False), w, snd s))
          else (case tool of
              ToolIntervention None \<Rightarrow>
                (let (_, w') = fail_effect r ''delegation_approval_resume''
                       ''approval_required_before_execution'' done_at w
                 in ((InterventionRequired, True), w', snd s))
            | ToolIntervention (Some res) \<Rightarrow>
                (let (_, s') = save_and_complete put r res done_at (w, snd s)
                 in ((InterventionRequired, True), s'))
            | ToolRaised \<Rightarrow> ((ToolError, True), w, snd s)
            | ToolReturned res \<Rightarrow>
                (let (ok, s') = save_and_complete put r res done_at (w, snd s)
                 in ((if ok then ToolResult res else ReconciliationRequired, True), s'))))"

section \<open>Replaying a finished call\<close>

lemma resume_owner_not_blank:
  "py_strip (or_text (py_strip (or_text ''delegation_approval_resume'' ''side_effect'')) ''side_effect'' @ '':'' @ uuid) \<noteq> []"
proof -
  have "\<not> py_space (CHR '':'')" by code_simp
  then show ?thesis by (auto simp: py_strip_eq_Nil)
qed

lemma begin_effect_executes:
  assumes b: "begin_effect md5 uuid h a now w = (Inr r, w')" and ex: "sr_execute r"
    and hex: "\<And>j. py_strip (md5 j) = md5 j"
  shows "py_strip (effect_key md5 h a) \<noteq> []" "py_strip (rh_session h) \<noteq> []"
    "sr_key r = effect_key md5 h a"
    "\<exists>row. sel_by rc_key (py_strip (effect_key md5 h a)) (ew_ledger w') = Some row \<and>
       owned_claim (py_strip (sr_owner r)) row \<and>
       rc_fingerprint row = snd (build_idempotency_key md5 h (ba_step_key a) (ba_target a) (ba_payload a))"
proof -
  let ?q = "begin_claim md5 uuid h a w"
  obtain c t where c: "claim_side_effect_receipt ?q now (ew_ledger w) = (Inr c, t)"
    and exc: "cr_execute c" and t: "ew_ledger w' = t" and o: "sr_owner r = cq_owner ?q"
    and k: "sr_key r = cq_key ?q"
    using b ex by (auto simp: begin_effect_def Let_def emit_def split: prod.splits sum.splits)
  have fields: "cq_key ?q = effect_key md5 h a" "cq_session ?q = rh_session h"
    "cq_fingerprint ?q = snd (build_idempotency_key md5 h (ba_step_key a) (ba_target a) (ba_payload a))"
    by (simp_all add: begin_claim_def)
  show "py_strip (effect_key md5 h a) \<noteq> []" "py_strip (rh_session h) \<noteq> []"
    using c fields by (auto simp: claim_side_effect_receipt_def split: if_splits)
  show "sr_key r = effect_key md5 h a" using k fields by simp
  have "py_strip (cq_fingerprint ?q) = cq_fingerprint ?q"
    using fields hex by (simp add: build_idempotency_key_def Let_def)
  from claim_executes_row [OF c exc this] show "\<exists>row. sel_by rc_key (py_strip (effect_key md5 h a)) (ew_ledger w') = Some row \<and>
       owned_claim (py_strip (sr_owner r)) row \<and>
       rc_fingerprint row = snd (build_idempotency_key md5 h (ba_step_key a) (ba_target a) (ba_payload a))"
    using fields t o by simp
qed

text \<open>Beginning an effect whose receipt is completed skips it and leaves the ledger alone.\<close>

lemma begin_effect_completed:
  assumes row: "sel_by rc_key (py_strip (effect_key md5 h a)) (ew_ledger w) = Some row"
      "rc_state row = Completed"
      "rc_fingerprint row = snd (build_idempotency_key md5 h (ba_step_key a) (ba_target a) (ba_payload a))"
    and fields: "py_strip (effect_key md5 h a) \<noteq> []" "py_strip (rh_session h) \<noteq> []"
      "py_strip (cq_owner (begin_claim md5 uuid h a w)) \<noteq> []"
  shows "\<exists>r w'. begin_effect md5 uuid h a now w = (Inr r, w') \<and> \<not> sr_execute r \<and>
    sr_key r = effect_key md5 h a \<and> sr_state r = ''completed'' \<and> ew_ledger w' = ew_ledger w"
proof -
  let ?q = "begin_claim md5 uuid h a w"
  have q: "cq_key ?q = effect_key md5 h a" "cq_session ?q = rh_session h"
    "cq_fingerprint ?q = snd (build_idempotency_key md5 h (ba_step_key a) (ba_target a) (ba_payload a))"
    by (simp_all add: begin_claim_def)
  obtain c where "claim_side_effect_receipt ?q now (ew_ledger w) = (Inr c, ew_ledger w)"
    "\<not> cr_execute c" "cr_state c = Completed"
    using row fields q by (simp add: claim_side_effect_receipt_def claim_existing_receipt_def Let_def)
  then show ?thesis using q by (simp add: begin_effect_def Let_def emit_def)
qed

lemma complete_effect_row:
  assumes "effects_wf (ew_ledger w)" and "complete_effect r node res now w = (True, w')" and "sr_execute r"
    and "sel_by rc_key (py_strip (sr_key r)) (ew_ledger w) = Some row"
  shows "sel_by rc_key (py_strip (sr_key r)) (ew_ledger w') = Some (completed_row (Some res) now row)"
  using assms complete_sel [OF assms(1), where k' = "sr_key r" and w = "sr_owner r" and d = "Some res"
      and now = now]
  by (auto simp: complete_effect_def emit_def split: prod.splits if_splits)

lemma begin_effect_wf:
  "effects_wf (ew_ledger w) \<Longrightarrow> effects_wf (ew_ledger (snd (begin_effect md5 uuid h a now w)))"
  using receipt_claim_wf [of "ew_ledger w" "begin_claim md5 uuid h a w" now]
  by (auto simp: begin_effect_def Let_def emit_def split: prod.splits sum.splits)


definition list_put :: "json list \<Rightarrow> json \<Rightarrow> json \<times> json list" where
  "list_put c v = (JInt (int (length c) + 1), c @ [v])"

definition list_get :: "json list \<Rightarrow> json \<Rightarrow> json option" where
  "list_get c ref = (case ref of
     JInt i \<Rightarrow> if 1 \<le> i \<and> nat i \<le> length c then Some (c ! (nat i - 1)) else None | _ \<Rightarrow> None)"


end
