(* ===== verification/Schema.thy ===== *)
theory Schema
  imports SideEffects
begin

text \<open>
  The rows of the runtime tables (core/database_schema.py) and the state of the database the
  operations of core/database.py share. A row has the columns some modelled operation reads or
  writes; a JSON column is the value it decodes to, with the empty dictionary for NULL. Columns
  that are filled once and only read back by clients (titles, contracts, context) are left out.
\<close>

record run_rec =
  rn_id :: string
  rn_session :: string
  rn_conversation :: string
  rn_thread :: "string option"
  rn_user :: "string option"
  rn_type :: string
  rn_status :: string
  rn_trigger :: "string option"
  rn_agent :: "string option"
  rn_workflow :: "string option"
  rn_channel :: "string option"
  rn_metadata :: dict
  rn_error :: "string option"
  rn_started :: time
  rn_finished :: "time option"
  rn_epoch :: int

text \<open>The expiry of an approval is a text the code parses: absent, an instant, or a text that is no
  date.\<close>

datatype expiry = NoExpiry | Expires time | BadExpiry

record approval_rec =
  ap_id :: string
  ap_session :: string
  ap_run :: string
  ap_kind :: string
  ap_status :: string
  ap_request :: dict
  ap_response :: "json option"
  ap_resume :: dict
  ap_expires :: expiry
  ap_created :: time
  ap_updated :: time

record ask_rec =
  ak_id :: string
  ak_session :: string
  ak_run :: string
  ak_message :: "string option"
  ak_tool_call :: "string option"
  ak_question :: "string option"
  ak_prompt :: "string option"
  ak_request :: dict
  ak_answer :: "string option"
  ak_status :: string
  ak_created :: time
  ak_resolved :: "time option"

record transcript_rec =
  tx_session :: string
  tx_epoch :: int

record event_rec =
  ev_id :: string
  ev_session :: string
  ev_run :: "string option"
  ev_seq :: int
  ev_kind :: string
  ev_topic :: string
  ev_ts :: "time option"
  ev_source :: dict
  ev_payload :: dict

record head_rec =
  sh_session :: string
  sh_last :: int
  sh_updated :: time

record snapshot_rec =
  sn_session :: string
  sn_latest :: int

record lane_rec =
  ln_session :: string
  ln_active :: "string option"
  ln_queued :: "string option"
  ln_blocked :: "string option"
  ln_mode :: string
  ln_state :: string
  ln_transition :: "string option"
  ln_transition_ts :: "time option"
  ln_metadata :: dict
  ln_updated :: time

record turn_rec =
  tn_id :: string
  tn_session :: string
  tn_role :: string
  tn_text :: string

record assignment_rec =
  sa_id :: string
  sa_root :: string
  sa_child :: string
  sa_user :: string
  sa_revision :: int
  sa_status :: string
  sa_updated :: time
  sa_revoked :: "time option"

record coordination_rec =
  cm_id :: string
  cm_thread :: string
  cm_type :: string
  cm_source_session :: string
  cm_target_session :: string
  cm_source_run :: "string option"
  cm_target_run :: "string option"
  cm_source_user :: "string option"
  cm_intent :: string
  cm_authority :: string
  cm_interaction :: "string option"
  cm_content :: string
  cm_summary :: "string option"
  cm_context :: dict
  cm_evidence :: "json list"
  cm_reply_to :: "string option"
  cm_reply_status :: "string option"
  cm_hops :: int
  cm_max_hops :: int
  cm_state :: string
  cm_key :: string
  cm_error :: "string option"
  cm_metadata :: dict
  cm_expires :: "time option"
  cm_authorized :: "time option"
  cm_promoted :: "time option"
  cm_injected :: "time option"
  cm_replied :: "time option"
  cm_cancelled :: "time option"
  cm_created :: time
  cm_updated :: time

record episode_rec =
  ep_id :: string
  ep_session :: "string option"
  ep_run :: "string option"
  ep_parent :: "string option"
  ep_kind :: string
  ep_state :: string
  ep_resume_token :: "json option"
  ep_generation :: int
  ep_result :: "string option"
  ep_priority :: int
  ep_attempts :: int
  ep_worker :: "string option"
  ep_lease :: "time option"
  ep_heartbeat :: "time option"
  ep_progress :: "string option"
  ep_error_code :: "string option"
  ep_error :: "string option"
  ep_metadata :: dict
  ep_updated :: time
  ep_completed :: "time option"

record queue_rec =
  eq_id :: string
  eq_episode :: string
  eq_session :: "string option"
  eq_run :: "string option"
  eq_kind :: string
  eq_priority :: int
  eq_state :: string
  eq_available :: "time option"
  eq_locked_by :: "string option"
  eq_lease :: "time option"
  eq_attempts :: int
  eq_error :: "string option"
  eq_created :: time
  eq_updated :: time

record ep_lease_rec =
  el_id :: string
  el_episode :: string
  el_worker :: string
  el_state :: string
  el_acquired :: time
  el_expires :: "time option"
  el_heartbeat :: "time option"
  el_released :: "time option"
  el_metadata :: dict

record ep_event_rec =
  ee_id :: string
  ee_episode :: string
  ee_session :: "string option"
  ee_run :: "string option"
  ee_topic :: string
  ee_state :: "string option"
  ee_payload :: dict
  ee_created :: time

record ep_idem_rec =
  ei_key :: string
  ei_episode :: string
  ei_session :: "string option"
  ei_run :: "string option"
  ei_updated :: time

datatype delivery_phase = DPending | DClaimed | DAdmitted | DExecuting | DBlocked | DUnknown
  | DCompleted | DFailed | DCancelled

record delivery_rec =
  ad_id :: string
  ad_kind :: string
  ad_definition :: string
  ad_revision :: string
  ad_event :: string
  ad_session :: string
  ad_source_run :: "string option"
  ad_run :: string
  ad_envelope :: dict
  ad_phase :: delivery_phase
  ad_owner :: "string option"
  ad_lease :: "time option"
  ad_available :: time
  ad_attempts :: int
  ad_receipt :: "string option"
  ad_error :: "string option"
  ad_admitted :: "time option"
  ad_created :: time
  ad_updated :: time

record db =
  db_runs :: "run_rec list"
  db_approvals :: "approval_rec list"
  db_asks :: "ask_rec list"
  db_transcripts :: "transcript_rec list"
  db_events :: "event_rec list"
  db_heads :: "head_rec list"
  db_snapshots :: "snapshot_rec list"
  db_lanes :: "lane_rec list"
  db_messages :: "turn_rec list"
  db_canonical :: "turn_rec list"
  db_assignments :: "assignment_rec list"
  db_coordination :: "coordination_rec list"
  db_episodes :: "episode_rec list"
  db_queue :: "queue_rec list"
  db_ep_leases :: "ep_lease_rec list"
  db_ep_events :: "ep_event_rec list"
  db_ep_idem :: "ep_idem_rec list"
  db_deliveries :: "delivery_rec list"
  db_receipts :: "receipt list"

definition empty_db :: db where
  "empty_db = \<lparr>db_runs = [], db_approvals = [], db_asks = [], db_transcripts = [], db_events = [],
     db_heads = [], db_snapshots = [], db_lanes = [], db_messages = [], db_canonical = [],
     db_assignments = [], db_coordination = [], db_episodes = [], db_queue = [], db_ep_leases = [],
     db_ep_events = [], db_ep_idem = [], db_deliveries = [], db_receipts = []\<rparr>"

text \<open>Rows with every column empty, for building examples.\<close>

definition blank_ask :: ask_rec where
  "blank_ask = \<lparr>ak_id = [], ak_session = [], ak_run = [], ak_message = None, ak_tool_call = None,
     ak_question = None, ak_prompt = None, ak_request = [], ak_answer = None, ak_status = ''pending'',
     ak_created = 0, ak_resolved = None\<rparr>"

definition blank_lane :: lane_rec where
  "blank_lane = \<lparr>ln_session = [], ln_active = None, ln_queued = None, ln_blocked = None, ln_mode = ''queue'',
     ln_state = ''idle'', ln_transition = None, ln_transition_ts = None, ln_metadata = [], ln_updated = 0\<rparr>"

definition blank_approval :: approval_rec where
  "blank_approval = \<lparr>ap_id = [], ap_session = [], ap_run = [], ap_kind = [], ap_status = ''pending'',
     ap_request = [], ap_response = None, ap_resume = [], ap_expires = NoExpiry, ap_created = 0,
     ap_updated = 0\<rparr>"

definition blank_message :: coordination_rec where
  "blank_message = \<lparr>cm_id = [], cm_thread = [], cm_type = [], cm_source_session = [],
     cm_target_session = [], cm_source_run = None, cm_target_run = None, cm_source_user = None,
     cm_intent = [], cm_authority = [], cm_interaction = None, cm_content = [], cm_summary = None,
     cm_context = [], cm_evidence = [], cm_reply_to = None, cm_reply_status = None, cm_hops = 1,
     cm_max_hops = 2, cm_state = [], cm_key = [], cm_error = None, cm_metadata = [], cm_expires = None,
     cm_authorized = None, cm_promoted = None, cm_injected = None, cm_replied = None,
     cm_cancelled = None, cm_created = 0, cm_updated = 0\<rparr>"

text \<open>Lookups by primary key, as the code writes them
  (\<^verbatim>\<open>SELECT * FROM t WHERE id = ?\<close>).\<close>

abbreviation run_of :: "string \<Rightarrow> db \<Rightarrow> run_rec option" where
  "run_of r d \<equiv> sel_by rn_id r (db_runs d)"

abbreviation episode_of :: "string \<Rightarrow> db \<Rightarrow> episode_rec option" where
  "episode_of e d \<equiv> sel_by ep_id e (db_episodes d)"

abbreviation delivery_of :: "string \<Rightarrow> db \<Rightarrow> delivery_rec option" where
  "delivery_of x d \<equiv> sel_by ad_id x (db_deliveries d)"

abbreviation receipt_of :: "string \<Rightarrow> db \<Rightarrow> receipt option" where
  "receipt_of k d \<equiv> sel_by rc_key k (db_receipts d)"

text \<open>The run status a control signal asks for: \<^verbatim>\<open>(metadata.get("control_signal") or
  {}).get("command")\<close>.\<close>

definition control_command :: "dict \<Rightarrow> string" where
  "control_command m = as_text (dget (as_dict (dget m ''control_signal'')) ''command'')"

definition stop_commands :: "string list" where
  "stop_commands = [''cancel'', ''interrupt'', ''pause'']"

definition terminal_statuses :: "string list" where
  "terminal_statuses = [''completed'', ''failed'', ''cancelled'', ''interrupted'']"

definition aborted_statuses :: "string list" where
  "aborted_statuses = [''failed'', ''cancelled'', ''interrupted'']"

end
