(* ===== verification/Runs.thy ===== *)
theory Runs
  imports Schema
begin

text \<open>
  Run records (core/database.py): creation bound to the conversation's epoch
  (core/conversation_schema.py), unconditional and compare-and-set status changes, the changes of
  one metadata key, control signals, and the schedule of a resume after a runtime wait.
\<close>

section \<open>The conversation epoch\<close>

definition context_epoch :: "db \<Rightarrow> string \<Rightarrow> int" where
  "context_epoch d s = (case sel_by tx_session s (db_transcripts d) of None \<Rightarrow> 0 | Some x \<Rightarrow> tx_epoch x)"

datatype run_error = RunMissing | ContextSuperseded | MetadataKeyRequired

definition assert_run_epoch :: "db \<Rightarrow> string \<Rightarrow> string option \<Rightarrow> run_error option" where
  "assert_run_epoch d s run =
     (if or_text (case run of None \<Rightarrow> [] | Some r \<Rightarrow> r) [] = [] then None
      else case run_of (the run) d of
        None \<Rightarrow> Some RunMissing
      | Some r \<Rightarrow> if rn_session r \<noteq> s \<or> rn_epoch r \<noteq> context_epoch d s then Some ContextSuperseded
                  else None)"

section \<open>Creating a run\<close>

record run_args =
  ra_id :: string
  ra_session :: string
  ra_conversation :: "string option"
  ra_thread :: "string option"
  ra_user :: "string option"
  ra_type :: string
  ra_status :: string
  ra_trigger :: "string option"
  ra_agent :: "string option"
  ra_workflow :: "string option"
  ra_channel :: "string option"
  ra_metadata :: dict

text \<open>The row inserted, and the trigger \<^verbatim>\<open>chat_run_context_epoch\<close> that stamps it
  with the epoch of its session.\<close>

definition new_run_row :: "run_args \<Rightarrow> time \<Rightarrow> int \<Rightarrow> run_rec" where
  "new_run_row a now epoch =
     \<lparr>rn_id = ra_id a, rn_session = ra_session a,
      rn_conversation = or_text (case ra_conversation a of None \<Rightarrow> [] | Some c \<Rightarrow> c) (ra_session a),
      rn_thread = ra_thread a, rn_user = ra_user a, rn_type = ra_type a, rn_status = ra_status a,
      rn_trigger = ra_trigger a, rn_agent = ra_agent a, rn_workflow = ra_workflow a,
      rn_channel = ra_channel a,
      rn_metadata = dset ''contextEpoch'' (JInt epoch) (ra_metadata a),
      rn_error = None, rn_started = now, rn_finished = None, rn_epoch = epoch\<rparr>"

text \<open>\<^verbatim>\<open>INSERT OR REPLACE\<close> deletes the old row first; with foreign keys on,
  its approvals and questions go with it and the other tables lose their reference.\<close>

definition without :: "string \<Rightarrow> string option \<Rightarrow> string option" where
  "without r x = (if x = Some r then None else x)"

definition forget_run :: "string \<Rightarrow> db \<Rightarrow> db" where
  "forget_run r d = d\<lparr>
     db_runs := filter (\<lambda>x. rn_id x \<noteq> r) (db_runs d),
     db_approvals := filter (\<lambda>x. ap_run x \<noteq> r) (db_approvals d),
     db_asks := filter (\<lambda>x. ak_run x \<noteq> r) (db_asks d),
     db_events := upd_where (\<lambda>x. ev_run x = Some r) (\<lambda>x. x\<lparr>ev_run := None\<rparr>) (db_events d),
     db_lanes := map (\<lambda>x. x\<lparr>ln_active := without r (ln_active x), ln_queued := without r (ln_queued x),
                              ln_blocked := without r (ln_blocked x)\<rparr>) (db_lanes d),
     db_episodes := upd_where (\<lambda>x. ep_run x = Some r) (\<lambda>x. x\<lparr>ep_run := None\<rparr>) (db_episodes d),
     db_queue := upd_where (\<lambda>x. eq_run x = Some r) (\<lambda>x. x\<lparr>eq_run := None\<rparr>) (db_queue d),
     db_ep_events := upd_where (\<lambda>x. ee_run x = Some r) (\<lambda>x. x\<lparr>ee_run := None\<rparr>) (db_ep_events d)\<rparr>"

definition create_run_record :: "run_args \<Rightarrow> time \<Rightarrow> db \<Rightarrow> run_error option \<times> db" where
  "create_run_record a now d =
     (case (if run_of (ra_id a) d = None then None
            else assert_run_epoch d (ra_session a) (Some (ra_id a))) of
        Some err \<Rightarrow> (Some err, d)
      | None \<Rightarrow>
          let d' = (if run_of (ra_id a) d = None then d else forget_run (ra_id a) d)
          in (None, d'\<lparr>db_runs := db_runs d' @ [new_run_row a now (context_epoch d (ra_session a))]\<rparr>))"

section \<open>Status changes\<close>

definition closed_approval :: "time \<Rightarrow> approval_rec \<Rightarrow> approval_rec" where
  "closed_approval now x =
     x\<lparr>ap_status := ''cancelled'',
       ap_response := coalesce (ap_response x) (Some (JObj
         [(''status'', JStr ''cancelled''), (''reason'', JStr ''owning_run_terminal'')])),
       ap_updated := now\<rparr>"

definition closed_ask :: "time \<Rightarrow> ask_rec \<Rightarrow> ask_rec" where
  "closed_ask now x = x\<lparr>ak_status := ''cancelled'', ak_resolved := coalesce (ak_resolved x) (Some now)\<rparr>"

definition cancel_pending_human_actions_for_run :: "string \<Rightarrow> time \<Rightarrow> db \<Rightarrow> db" where
  "cancel_pending_human_actions_for_run run now d =
     (let r = py_strip run
      in if r = [] then d else d\<lparr>
        db_approvals := upd_where (\<lambda>x. ap_run x = r \<and> ap_status x = ''pending'') (closed_approval now)
          (db_approvals d),
        db_asks := upd_where (\<lambda>x. ak_run x = r \<and> ak_status x = ''pending'') (closed_ask now) (db_asks d)\<rparr>)"

text \<open>The column assignments both status updates share.\<close>

definition run_status_row :: "string \<Rightarrow> string option \<Rightarrow> dict \<Rightarrow> time \<Rightarrow> run_rec \<Rightarrow> run_rec" where
  "run_status_row status error meta now r =
     (let terminal = status \<in> set terminal_statuses
      in r\<lparr>rn_status := status,
           rn_error := (if terminal then coalesce error (rn_error r) else error),
           rn_metadata := (if meta = [] then rn_metadata r else meta),
           rn_finished := (if terminal then Some now else None)\<rparr>)"

definition update_run_record :: "string \<Rightarrow> string \<Rightarrow> string option \<Rightarrow> dict \<Rightarrow> time \<Rightarrow> db \<Rightarrow> db" where
  "update_run_record run status error meta now d =
     (let d' = d\<lparr>db_runs := upd_where (\<lambda>r. rn_id r = run) (run_status_row status error meta now) (db_runs d)\<rparr>
      in if status \<in> set aborted_statuses then cancel_pending_human_actions_for_run run now d' else d')"

section \<open>May a project result still wake its requester\<close>

text \<open>A run is stopped when it was cancelled or asked to stop, or when it was interrupted for a
  reason and its last control event is not a resume.\<close>

definition last_control_topic :: "db \<Rightarrow> string \<Rightarrow> string option" where
  "last_control_topic d run = map_option ev_topic (first_by (\<lambda>e. - ev_seq e)
     (filter (\<lambda>e. ev_run e = Some run \<and> ev_topic e \<in> {''run.interrupted'', ''run.resumed''}) (db_events d)))"

definition run_stopped :: "db \<Rightarrow> run_rec \<Rightarrow> bool" where
  "run_stopped d r =
     (if rn_status r = ''cancelled'' \<or> control_command (rn_metadata r) \<in> {''cancel'', ''interrupt''} then True
      else if rn_status r = ''interrupted'' \<and> truthy (dget (rn_metadata r) ''interrupt_reason'')
      then last_control_topic d (rn_id r) \<in> {None, Some ''run.interrupted''}
      else False)"

definition find_origin :: "db \<Rightarrow> coordination_rec \<Rightarrow> coordination_rec \<Rightarrow> run_rec option" where
  "find_origin d result request = (case cm_source_run request of
     None \<Rightarrow> None
   | Some r \<Rightarrow> (case run_of r d of
       Some x \<Rightarrow> if rn_session x = cm_target_session result then Some x else None | None \<Rightarrow> None))"

definition result_deliveries :: "db \<Rightarrow> coordination_rec \<Rightarrow> run_rec list" where
  "result_deliveries d request =
     concat (map (\<lambda>m. case cm_target_run m of None \<Rightarrow> []
                    | Some r \<Rightarrow> (case run_of r d of None \<Rightarrow> [] | Some x \<Rightarrow> [x]))
       (filter (\<lambda>m. cm_reply_to m = Some (cm_id request) \<and> cm_authority m = ''project_result'')
          (db_coordination d)))"

definition assignment_binds :: "coordination_rec \<Rightarrow> assignment_rec option \<Rightarrow> bool" where
  "assignment_binds result a = (case a of None \<Rightarrow> False
     | Some a \<Rightarrow> sa_status a = ''active''
         \<and> py_eq (JInt (sa_revision a)) (dget (cm_metadata result) ''assignmentRevision'')
         \<and> sa_root a = cm_target_session result \<and> sa_child a = cm_source_session result
         \<and> Some (sa_user a) = cm_source_user result)"

definition session_project_result_delivery_error :: "db \<Rightarrow> string \<Rightarrow> string" where
  "session_project_result_delivery_error d message =
     (case sel_by cm_id message (db_coordination d) of
        None \<Rightarrow> []
      | Some result \<Rightarrow>
          if cm_authority result \<noteq> ''project_result'' then []
          else (case (case cm_reply_to result of None \<Rightarrow> None | Some q \<Rightarrow> sel_by cm_id q (db_coordination d)) of
            None \<Rightarrow> ''project_result_request_changed''
          | Some request \<Rightarrow>
              if cm_authority request \<noteq> ''project_assignment''
                 \<or> cm_source_session request \<noteq> cm_target_session result
                 \<or> cm_target_session request \<noteq> cm_source_session result
              then ''project_result_request_changed''
              else if \<not> assignment_binds result
                        (sel_by sa_id (as_text (dget (cm_metadata result) ''assignmentId'')) (db_assignments d))
              then ''project_result_assignment_changed''
              else (case find_origin d result request of
                  None \<Rightarrow> ''project_result_source_unavailable''
                | Some origin \<Rightarrow>
                    if run_stopped d origin then ''project_result_source_stopped''
                    else if control_command (rn_metadata origin) = ''pause''
                            \<or> (rn_status origin = ''paused''
                               \<and> as_text (dget (rn_metadata origin) ''pause_reason'') \<noteq> ''session_results_wait'')
                    then ''project_result_source_paused''
                    else if list_ex (run_stopped d) (result_deliveries d request)
                    then ''project_result_delivery_stopped''
                    else [])))"

section \<open>Compare and set\<close>

datatype cas_result =
    Updated run_rec string
  | Refused string

definition normalized_set :: "string list \<Rightarrow> string list" where
  "normalized_set xs = filter (\<lambda>x. x \<noteq> []) (map py_strip xs)"

definition update_run_record_if_status ::
  "string \<Rightarrow> string list \<Rightarrow> string \<Rightarrow> string option \<Rightarrow> dict \<Rightarrow> time \<Rightarrow> db \<Rightarrow> cas_result \<times> db" where
  "update_run_record_if_status run expected status error meta now d =
     (case run_of run d of
        None \<Rightarrow> (Refused ''run_not_found'', d)
      | Some r \<Rightarrow>
          let current = py_strip (rn_status r);
              coordination = as_text (dget (rn_metadata r) ''coordinationMessageId'');
              blocked = (if status = ''running'' \<and> coordination \<noteq> []
                         then session_project_result_delivery_error d coordination else [])
          in if blocked \<noteq> [] then (Refused blocked, d)
             else if normalized_set expected \<noteq> [] \<and> current \<notin> set (normalized_set expected)
             then (Refused (''status_mismatch:'' @ or_text current ''unknown''), d)
             else
               let d' = update_run_record run status error meta now d
               in (case run_of run d' of
                     None \<Rightarrow> (Refused ''run_not_found'', d')
                   | Some r' \<Rightarrow> (Updated r' current, d')))"

definition marker_state :: "dict \<Rightarrow> string \<Rightarrow> string" where
  "marker_state meta key = py_lower (py_strip (as_text (dget (as_dict (dget meta key)) ''state'')))"

definition set_run_metadata :: "string \<Rightarrow> dict \<Rightarrow> db \<Rightarrow> db" where
  "set_run_metadata run meta d =
     d\<lparr>db_runs := upd_where (\<lambda>r. rn_id r = run) (\<lambda>r. r\<lparr>rn_metadata := meta\<rparr>) (db_runs d)\<rparr>"

definition update_run_metadata_key_if_state ::
  "string \<Rightarrow> string \<Rightarrow> string \<Rightarrow> dict \<Rightarrow> string option \<Rightarrow> int option \<Rightarrow> dict option \<Rightarrow> db \<Rightarrow>
     (run_error + cas_result) \<times> db" where
  "update_run_metadata_key_if_state run key expected next expected_status generation expected_value d =
     (let k = py_strip key; st = py_lower (py_strip expected); rs = norm_text expected_status
      in if k = [] then (Inl MetadataKeyRequired, d)
      else (case run_of run d of
        None \<Rightarrow> (Inr (Refused ''run_not_found''), d)
      | Some r \<Rightarrow>
          let status = py_strip (rn_status r); meta = rn_metadata r; marker = dget meta k
          in if rs \<noteq> [] \<and> status \<noteq> rs
             then (Inr (Refused (''run_status_mismatch:'' @ or_text status ''unknown'')), d)
             else if (case generation of None \<Rightarrow> False
                      | Some g \<Rightarrow> \<not> py_eq (dget (as_dict marker) ''waitGeneration'') (JInt g))
             then (Inr (Refused ''runtime_wait_generation_changed''), d)
             else if (case expected_value of None \<Rightarrow> False
                      | Some v \<Rightarrow> \<not> py_eq (if truthy marker then marker else JObj []) (JObj v))
             then (Inr (Refused ''metadata_value_mismatch''), d)
             else if marker_state meta k \<noteq> st
             then (Inr (Refused (''metadata_state_mismatch:'' @ or_text (marker_state meta k) ''missing'')), d)
             else let meta' = dset k (JObj next) meta
                  in (Inr (Updated (r\<lparr>rn_metadata := meta'\<rparr>) status), set_run_metadata run meta' d)))"

text \<open>A control signal is read first (\<open>d0\<close>) and consumed in a later transaction on the
  table of that moment (\<open>d\<close>), which reads it again.\<close>

definition matching_signal :: "dict option \<Rightarrow> dict \<Rightarrow> json option" where
  "matching_signal expected meta =
     (let signal = dget meta ''control_signal''
      in if \<not> is_dict signal \<or> \<not> truthy signal
            \<or> (case expected of None \<Rightarrow> False | Some e \<Rightarrow> \<not> py_eq signal (JObj e))
         then None else Some signal)"

definition consume_run_control_signal ::
  "string \<Rightarrow> dict option \<Rightarrow> db \<Rightarrow> db \<Rightarrow> json option \<times> db" where
  "consume_run_control_signal run expected d0 d =
     (if (case run_of run d0 of None \<Rightarrow> True | Some r \<Rightarrow> matching_signal expected (rn_metadata r) = None)
      then (None, d)
      else case run_of run d of
        None \<Rightarrow> (None, d)
      | Some r \<Rightarrow> (case matching_signal expected (rn_metadata r) of
            None \<Rightarrow> (None, d)
          | Some signal \<Rightarrow>
              (Some signal, set_run_metadata run (dpop ''control_signal'' (rn_metadata r)) d)))"

section \<open>Waiting for runtime episodes\<close>

definition active_episode_states :: "string list" where
  "active_episode_states = [''detected'', ''routed'', ''queued'', ''leased'', ''active'', ''waiting'',
     ''waiting_dependency'', ''waiting_child'', ''waiting_external'', ''waiting_approval'', ''waiting_input'']"

definition terminal_episode_states :: "string list" where
  "terminal_episode_states = [''completed'', ''degraded'', ''failed'', ''merged'', ''cancelled'']"

fun string_items :: "json list \<Rightarrow> string list option" where
  "string_items [] = Some []"
| "string_items (JStr s # xs) = (if s = [] then None else map_option (\<lambda>ys. s # ys) (string_items xs))"
| "string_items (_ # xs) = None"

definition episode_ids :: "json \<Rightarrow> string list option" where
  "episode_ids v = (case v of JList xs \<Rightarrow> if xs = [] then None else string_items xs | _ \<Rightarrow> None)"

definition positive_generation :: "json \<Rightarrow> bool" where
  "positive_generation v = (case v of JInt g \<Rightarrow> 1 \<le> g | _ \<Rightarrow> False)"

definition get_durable_runtime_episode_wait :: "string \<Rightarrow> db \<Rightarrow> dict option" where
  "get_durable_runtime_episode_wait run d =
     (case run_of run d of
        None \<Rightarrow> None
      | Some r \<Rightarrow>
          if rn_status r \<noteq> ''running'' then None
          else let marker = dget (rn_metadata r) ''runtimeEpisodeResume''; m = as_dict marker
          in if truthy marker \<and> \<not> is_dict marker then None
             else if as_text (dget m ''state'') \<notin> {''waiting'', ''scheduled''}
                     \<or> \<not> positive_generation (dget m ''waitGeneration'')
                     \<or> control_command (rn_metadata r) \<in> set stop_commands then None
             else (case episode_ids (dget m ''episodeIds'') of
                None \<Rightarrow> None
              | Some ids \<Rightarrow>
                  let rows = filter (\<lambda>e. ep_id e \<in> set ids) (db_episodes d)
                  in if length rows \<noteq> card (set ids)
                        \<or> list_ex (\<lambda>e. ep_run e \<noteq> Some run \<or> ep_session e \<noteq> Some (rn_session r)
                             \<or> ep_state e \<notin> set (active_episode_states @ terminal_episode_states)) rows
                     then None else Some m))"

definition int_of_json :: "json \<Rightarrow> int option" where
  "int_of_json v = (case v of JInt i \<Rightarrow> Some i | JBool b \<Rightarrow> Some (if b then 1 else 0) | _ \<Rightarrow> None)"

fun max_some :: "int option list \<Rightarrow> int option" where
  "max_some [] = None"
| "max_some (None # xs) = max_some xs"
| "max_some (Some x # xs) = (case max_some xs of None \<Rightarrow> Some x | Some y \<Rightarrow> Some (max x y))"

text \<open>The latest message of an episode the supervisor of the run has not seen.\<close>

definition attention_seq :: "db \<Rightarrow> string \<Rightarrow> int option" where
  "attention_seq d run = max_some (map (\<lambda>e. int_of_json (dget (ee_payload e) ''deliverySeq''))
     (filter (\<lambda>e. ee_run e = Some run \<and> ee_topic e = ''runtime.episode.message'' \<and> ee_state e = Some ''pending''
        \<and> dget (ee_payload e) ''recipient'' = JStr (''supervisor:'' @ run)) (db_ep_events d)))"

definition blocking_episodes ::
  "string list \<Rightarrow> string list \<Rightarrow> string \<Rightarrow> dict \<Rightarrow> db \<Rightarrow> episode_rec list" where
  "blocking_episodes terminal active run marker d =
     (let listed = (case dget marker ''episodeIds'' of JList xs \<Rightarrow> xs | _ \<Rightarrow> [])
      in if (case attention_seq d run of None \<Rightarrow> False | Some n \<Rightarrow> n \<noteq> 0) then []
         else filter (\<lambda>e. ep_run e = Some run \<and> (case ep_parent e of None \<Rightarrow> True | Some p \<Rightarrow> p = [])
            \<and> \<not> (truthy (dget marker ''awaitExplicit'') \<and> JStr (ep_id e) \<notin> set listed)
            \<and> (let st = py_lower (py_strip (ep_state e))
               in st \<in> set active \<or> (terminal \<noteq> [] \<and> st \<notin> set terminal))) (db_episodes d))"

definition claim_runtime_episode_resume_schedule ::
  "string \<Rightarrow> string \<Rightarrow> dict \<Rightarrow> string \<Rightarrow> string \<Rightarrow> string list \<Rightarrow> string list \<Rightarrow> time \<Rightarrow> db \<Rightarrow>
     (run_error + cas_result) \<times> db" where
  "claim_runtime_episode_resume_schedule run marker_key next expected expected_status terminal active now d =
     (let k = py_strip marker_key; st = py_lower (py_strip expected); rs = py_strip expected_status;
          term = normalized_set (map py_lower terminal); act = normalized_set (map py_lower active)
      in if k = [] then (Inl MetadataKeyRequired, d)
      else (case run_of run d of
        None \<Rightarrow> (Inr (Refused ''run_not_found''), d)
      | Some r \<Rightarrow>
          let status = py_strip (rn_status r); meta = rn_metadata r; marker = as_dict (dget meta k);
              state = marker_state meta k
          in if rs \<noteq> [] \<and> status \<noteq> rs
             then (Inr (Refused (''run_not_running:'' @ or_text status ''unknown'')), d)
             else if control_command meta \<in> set stop_commands
             then (Inr (Refused ''runtime_resume_blocked_by_control''), d)
             else if \<not> py_eq (dget marker ''waitGeneration'') (dget next ''waitGeneration'')
             then (Inr (Refused ''runtime_wait_generation_changed''), d)
             else if state = ''scheduled''
             then (Inr (Refused ''runtime_episode_resume_already_scheduled''), d)
             else if state \<noteq> st
             then (Inr (Refused ''run_not_waiting_for_runtime_resume''), d)
             else if (case sel_by ln_session (rn_session r) (db_lanes d) of None \<Rightarrow> False
                      | Some l \<Rightarrow> or_text (case ln_active l of None \<Rightarrow> [] | Some x \<Rightarrow> x) [] \<noteq> [])
             then (Inr (Refused ''parent_graph_writer_active''), d)
             else if blocking_episodes term act run marker d \<noteq> []
             then (Inr (Refused ''top_level_runtime_episode_still_active''), d)
             else let meta' = dset k (JObj (dset ''scheduledAt'' (JInt now) (dset ''attentionSeq''
                          (case attention_seq d run of None \<Rightarrow> JNull | Some n \<Rightarrow> JInt n) next))) meta
                  in (Inr (Updated (r\<lparr>rn_metadata := meta'\<rparr>) status), set_run_metadata run meta' d)))"

section \<open>Lookups after an operation\<close>

lemma run_status_row_simps [simp]:
  "rn_id (run_status_row status error meta now r) = rn_id r"
  "rn_session (run_status_row status error meta now r) = rn_session r"
  "rn_epoch (run_status_row status error meta now r) = rn_epoch r"
  "rn_status (run_status_row status error meta now r) = status"
  by (simp_all add: run_status_row_def Let_def)

lemma set_run_metadata_sel:
  "run_of r (set_run_metadata run meta d) =
     (if r = run then map_option (\<lambda>x. x\<lparr>rn_metadata := meta\<rparr>) (run_of run d) else run_of r d)"
  by (simp add: set_run_metadata_def sel_upd_key0)

lemma cancel_pending_runs [simp]: "db_runs (cancel_pending_human_actions_for_run run now d) = db_runs d"
  by (simp add: cancel_pending_human_actions_for_run_def Let_def)

lemma update_run_sel:
  "run_of r (update_run_record run status error meta now d) =
     (if r = run then map_option (run_status_row status error meta now) (run_of run d) else run_of r d)"
  by (simp add: update_run_record_def Let_def sel_upd_key0)

lemma cas_run_cases:
  assumes "update_run_record_if_status run expected status error meta now d = (res, d')"
  shows "(\<exists>why. res = Refused why) \<and> d' = d \<or>
    (\<exists>r. run_of run d = Some r \<and>
       (normalized_set expected = [] \<or> py_strip (rn_status r) \<in> set (normalized_set expected)) \<and>
       res = Updated (run_status_row status error meta now r) (py_strip (rn_status r)) \<and>
       d' = update_run_record run status error meta now d)"
  using assms
  by (auto simp: update_run_record_if_status_def Let_def update_run_sel split: option.splits if_splits)

lemma consume_cases:
  assumes "consume_run_control_signal run expected d0 d = (res, d')"
  shows "res = None \<and> d' = d \<or>
    (\<exists>r signal. run_of run d = Some r \<and> matching_signal expected (rn_metadata r) = Some signal \<and>
       res = Some signal \<and> d' = set_run_metadata run (dpop ''control_signal'' (rn_metadata r)) d)"
  using assms by (auto simp: consume_run_control_signal_def split: option.splits if_splits)

lemma matching_signal_popped [simp]: "matching_signal e (dpop ''control_signal'' m) = None"
  by (simp add: matching_signal_def)

lemma schedule_cases:
  assumes "claim_runtime_episode_resume_schedule run key next ex exs term act now d = (res, d')"
  shows "(\<forall>r w. res \<noteq> Inr (Updated r w)) \<and> d' = d \<or>
    (\<exists>r att. run_of run d = Some r \<and> marker_state (rn_metadata r) (py_strip key) \<noteq> ''scheduled'' \<and>
       blocking_episodes (normalized_set (map py_lower term)) (normalized_set (map py_lower act)) run
         (as_dict (dget (rn_metadata r) (py_strip key))) d = [] \<and>
       d' = set_run_metadata run (dset (py_strip key)
         (JObj (dset ''scheduledAt'' (JInt now) (dset ''attentionSeq'' att next))) (rn_metadata r)) d)"
  using assms
  by (auto simp: claim_runtime_episode_resume_schedule_def Let_def split: option.splits if_splits)

lemma closed_row_simps [simp]:
  "ap_run (closed_approval now a) = ap_run a" "ap_status (closed_approval now a) = ''cancelled''"
  "ak_run (closed_ask now q) = ak_run q" "ak_status (closed_ask now q) = ''cancelled''"
  by (simp_all add: closed_approval_def closed_ask_def)

lemma closed_approvals:
  "a \<in> set (upd_where (\<lambda>x. ap_run x = run \<and> ap_status x = ''pending'') (closed_approval now) t) \<Longrightarrow>
     \<not> (ap_run a = run \<and> ap_status a = ''pending'')"
  "filter (\<lambda>a. ap_run a \<noteq> run \<or> ap_status a \<notin> {''pending'', ''cancelled''})
     (upd_where (\<lambda>x. ap_run x = run \<and> ap_status x = ''pending'') (closed_approval now) t) =
   filter (\<lambda>a. ap_run a \<noteq> run \<or> ap_status a \<notin> {''pending'', ''cancelled''}) t"
proof -
  show "a \<in> set (upd_where (\<lambda>x. ap_run x = run \<and> ap_status x = ''pending'') (closed_approval now) t) \<Longrightarrow>
     \<not> (ap_run a = run \<and> ap_status a = ''pending'')"
    by (erule upd_where_removes [rotated]) simp
qed (rule filter_upd_where_frame; simp)

lemma closed_asks:
  "a \<in> set (upd_where (\<lambda>x. ak_run x = run \<and> ak_status x = ''pending'') (closed_ask now) u) \<Longrightarrow>
     \<not> (ak_run a = run \<and> ak_status a = ''pending'')"
  "filter (\<lambda>a. ak_run a \<noteq> run \<or> ak_status a \<notin> {''pending'', ''cancelled''})
     (upd_where (\<lambda>x. ak_run x = run \<and> ak_status x = ''pending'') (closed_ask now) u) =
   filter (\<lambda>a. ak_run a \<noteq> run \<or> ak_status a \<notin> {''pending'', ''cancelled''}) u"
proof -
  show "a \<in> set (upd_where (\<lambda>x. ak_run x = run \<and> ak_status x = ''pending'') (closed_ask now) u) \<Longrightarrow>
     \<not> (ak_run a = run \<and> ak_status a = ''pending'')"
    by (erule upd_where_removes [rotated]) simp
qed (rule filter_upd_where_frame; simp)

lemma abort_closes:
  assumes "status \<in> set aborted_statuses" and "py_strip run = run" and "run \<noteq> []"
  shows "db_approvals (update_run_record run status error meta now d) =
      upd_where (\<lambda>x. ap_run x = run \<and> ap_status x = ''pending'') (closed_approval now) (db_approvals d)"
    "db_asks (update_run_record run status error meta now d) =
      upd_where (\<lambda>x. ak_run x = run \<and> ak_status x = ''pending'') (closed_ask now) (db_asks d)"
  using assms by (simp_all add: update_run_record_def cancel_pending_human_actions_for_run_def Let_def)

section \<open>Properties\<close>

definition demo_run :: "string \<Rightarrow> string \<Rightarrow> dict \<Rightarrow> run_args" where
  "demo_run r s m = \<lparr>ra_id = r, ra_session = s, ra_conversation = None, ra_thread = None, ra_user = None,
     ra_type = ''chat'', ra_status = ''running'', ra_trigger = None, ra_agent = None, ra_workflow = None,
     ra_channel = None, ra_metadata = m\<rparr>"

definition demo_db :: db where
  "demo_db = snd (create_run_record (demo_run ''r1'' ''s1''
     [(''control_signal'', JObj [(''command'', JStr ''pause'')])]) 1000
     (empty_db\<lparr>db_transcripts := [\<lparr>tx_session = ''s1'', tx_epoch = 3\<rparr>]\<rparr>))"

text \<open>A status change by compare-and-set happens only from an expected status; then it
  writes the requested status to exactly that run, leaves every other run alone and reports the
  status it replaced. Otherwise the whole database is as before.\<close>

theorem run_status_cas:
  assumes "update_run_record_if_status run expected status error meta now d = (res, d')"
    and "normalized_set expected \<noteq> []"
  shows "(case res of
      Refused why \<Rightarrow> d' = d
    | Updated r' previous \<Rightarrow> previous \<in> set (normalized_set expected) \<and>
        (\<exists>r. run_of run d = Some r \<and> py_strip (rn_status r) = previous) \<and>
        run_of run d' = Some r' \<and> rn_status r' = status \<and>
        (\<forall>q. q \<noteq> run \<longrightarrow> run_of q d' = run_of q d))"
  using cas_run_cases [OF assms(1)] assms(2) by (auto simp: update_run_sel)

theorem run_status_cas_witness:
  "case update_run_record_if_status ''r1'' [''running''] ''paused'' None [] 2000 demo_db of
     (Updated r' previous, d') \<Rightarrow> run_of ''r1'' d' = Some r' \<and> rn_status r' = ''paused''
   | _ \<Rightarrow> False"
proof -
  obtain res d' where u: "update_run_record_if_status ''r1'' [''running''] ''paused'' None [] 2000 demo_db = (res, d')"
    by force
  have "case fst (update_run_record_if_status ''r1'' [''running''] ''paused'' None [] 2000 demo_db) of
      Updated r' previous \<Rightarrow> True | Refused why \<Rightarrow> False" by code_simp
  moreover have "normalized_set [''running''] \<noteq> []" by code_simp
  ultimately show ?thesis using run_status_cas [OF u] u by (auto split: cas_result.splits)
qed

text \<open>When a run ends by failure, cancellation or interruption, every pending approval and
  question of that run is cancelled, and no approval or question of another run, and none that was
  decided, is touched.\<close>

theorem aborted_run_closes_its_human_actions:
  assumes "status \<in> set aborted_statuses" and "py_strip run = run" and "run \<noteq> []"
  shows "(\<forall>a \<in> set (db_approvals (update_run_record run status error meta now d)).
           ap_run a = run \<longrightarrow> ap_status a \<noteq> ''pending'') \<and>
    (\<forall>a \<in> set (db_asks (update_run_record run status error meta now d)).
           ak_run a = run \<longrightarrow> ak_status a \<noteq> ''pending'') \<and>
    filter (\<lambda>a. ap_run a \<noteq> run \<or> ap_status a \<notin> {''pending'', ''cancelled''})
        (db_approvals (update_run_record run status error meta now d)) =
      filter (\<lambda>a. ap_run a \<noteq> run \<or> ap_status a \<notin> {''pending'', ''cancelled''}) (db_approvals d) \<and>
    filter (\<lambda>a. ak_run a \<noteq> run \<or> ak_status a \<notin> {''pending'', ''cancelled''})
        (db_asks (update_run_record run status error meta now d)) =
      filter (\<lambda>a. ak_run a \<noteq> run \<or> ak_status a \<notin> {''pending'', ''cancelled''}) (db_asks d)"
  unfolding abort_closes [OF assms]
  by (intro conjI ballI impI notI closed_approvals closed_asks)
    (blast dest: closed_approvals(1) closed_asks(1))+

theorem aborted_run_closes_its_human_actions_witness:
  "''pending'' \<notin> ak_status ` {a \<in> set (db_asks (update_run_record ''r1'' ''cancelled'' None [] 2000 (demo_db\<lparr>db_asks :=
      [blank_ask\<lparr>ak_id := ''q1'', ak_run := ''r1''\<rparr>]\<rparr>))). ak_run a = ''r1''}"
proof -
  have "''cancelled'' \<in> set aborted_statuses" and "py_strip ''r1'' = ''r1''" by code_simp+
  then show ?thesis using aborted_run_closes_its_human_actions [of "''cancelled''" "''r1''"] by force
qed

text \<open>A control signal is consumed at most once. Of two consumers of a run, whatever each
  had read before and whichever signal each expects, the second gets nothing once the first got the
  signal; consuming it removes only the signal from the run's metadata and changes no status.\<close>

theorem control_signal_consumed_once:
  assumes "consume_run_control_signal run expected d0 d = (Some signal, d')"
  shows "consume_run_control_signal run expected' d1 d' = (None, d') \<and>
    (\<exists>r r'. run_of run d = Some r \<and> run_of run d' = Some r' \<and> rn_status r' = rn_status r \<and>
       dget (rn_metadata r) ''control_signal'' = signal \<and>
       (\<forall>k. dget (rn_metadata r') k = (if k = ''control_signal'' then JNull else dget (rn_metadata r) k)))"
proof -
  obtain r where r: "run_of run d = Some r" "matching_signal expected (rn_metadata r) = Some signal"
    and d': "d' = set_run_metadata run (dpop ''control_signal'' (rn_metadata r)) d"
    using consume_cases [OF assms] by auto
  have "run_of run d' = Some (r\<lparr>rn_metadata := dpop ''control_signal'' (rn_metadata r)\<rparr>)"
    using r d' by (simp add: set_run_metadata_sel)
  moreover have "dget (rn_metadata r) ''control_signal'' = signal"
    using r(2) by (auto simp: matching_signal_def Let_def split: if_splits)
  ultimately show ?thesis using r(1) by (simp add: consume_run_control_signal_def)
qed

theorem control_signal_consumed_once_witness:
  "fst (consume_run_control_signal ''r1'' None demo_db
     (snd (consume_run_control_signal ''r1'' None demo_db demo_db))) = None"
proof -
  obtain res d' where c: "consume_run_control_signal ''r1'' None demo_db demo_db = (res, d')" by force
  have "fst (consume_run_control_signal ''r1'' None demo_db demo_db) \<noteq> None" by code_simp
  then obtain signal where "consume_run_control_signal ''r1'' None demo_db demo_db = (Some signal, d')"
    using c by auto
  from control_signal_consumed_once [OF this, of None demo_db] show ?thesis using c by simp
qed



end
