(* ===== verification/Streams.thy ===== *)
theory Streams
  imports Prelude
begin

text \<open>
  Numbered streams as an interface: several tables of the engine number the rows of a session
  (events by sequence, queued messages by ordinal). An append gives the new row a number above
  all numbers of its stream and leaves the other streams alone; that the numbers of a stream stay
  strictly increasing, whatever is appended in whatever order, is proved once here.

  Lossless channels as an interface: a queue of messages or a buffer of text passes on what is put
  into it, complete and in order. If every step accounts for its own inputs and outputs, so does
  every run.
\<close>

fun appends :: "('a \<Rightarrow> 's \<Rightarrow> int option \<times> 's) \<Rightarrow> 'a list \<Rightarrow> 's \<Rightarrow> 's" where
  "appends f [] s = s"
| "appends f (a # as) s = appends f as (snd (f a s))"

text \<open>The numbers handed out for a stream.\<close>

fun handed_out :: "('a \<Rightarrow> 's \<Rightarrow> int option \<times> 's) \<Rightarrow> ('a \<Rightarrow> 'g) \<Rightarrow> 'g \<Rightarrow> 'a list \<Rightarrow> 's \<Rightarrow> int list" where
  "handed_out f stream g [] s = []"
| "handed_out f stream g (a # as) s =
     (case fst (f a s) of Some n \<Rightarrow> (if stream a = g then [n] else []) | None \<Rightarrow> []) @
     handed_out f stream g as (snd (f a s))"

text \<open>The contract for a table on which the appends rely on an invariant (unique keys, say).\<close>

locale guarded_stream =
  fixes append1 :: "'a \<Rightarrow> 's \<Rightarrow> int option \<times> 's"
    and stream :: "'a \<Rightarrow> 'g"
    and numbers :: "'s \<Rightarrow> 'g \<Rightarrow> int list"
    and wf :: "'s \<Rightarrow> bool"
  assumes append_fresh: "wf s \<Longrightarrow> append1 a s = (Some n, s') \<Longrightarrow>
      (\<forall>m \<in> set (numbers s (stream a)). m < n) \<and> numbers s' (stream a) = numbers s (stream a) @ [n]"
    and append_none: "wf s \<Longrightarrow> append1 a s = (None, s') \<Longrightarrow> s' = s"
    and append_frame: "wf s \<Longrightarrow> append1 a s = (r, s') \<Longrightarrow> g \<noteq> stream a \<Longrightarrow> numbers s' g = numbers s g"
    and append_wf: "wf s \<Longrightarrow> wf (snd (append1 a s))"
begin

lemma append_cases:
  assumes "wf s"
  shows "numbers (snd (append1 a s)) g = numbers s g \<and>
     (fst (append1 a s) = None \<or> stream a \<noteq> g) \<or>
   (\<exists>n. fst (append1 a s) = Some n \<and> stream a = g \<and> (\<forall>m \<in> set (numbers s g). m < n) \<and>
     numbers (snd (append1 a s)) g = numbers s g @ [n])"
proof (cases "append1 a s")
  case (Pair r s')
  show ?thesis
  proof (cases "stream a = g")
    case False
    then show ?thesis using append_frame [OF assms Pair, of g] Pair by auto
  next
    case True
    then show ?thesis
      using append_fresh [OF assms, of a _ s'] append_none [OF assms, of a s'] Pair by (cases r) auto
  qed
qed

lemma stream_grows:
  "wf s \<Longrightarrow> numbers (appends append1 as s) g = numbers s g @ handed_out append1 stream g as s"
proof (induction as arbitrary: s)
  case (Cons a as)
  show ?case
    using append_cases [OF Cons.prems, of a g] Cons.IH [OF append_wf [OF Cons.prems, of a]]
    by (auto split: option.splits)
qed simp

lemma stream_increasing:
  "wf s \<Longrightarrow> sorted_wrt (<) (numbers s g) \<Longrightarrow> sorted_wrt (<) (numbers (appends append1 as s) g)"
proof (induction as arbitrary: s)
  case (Cons a as)
  have "sorted_wrt (<) (numbers (snd (append1 a s)) g)"
    using append_cases [OF Cons.prems(1), of a g] Cons.prems(2) by (auto simp: sorted_wrt_append)
  then show ?case using Cons.IH [OF append_wf [OF Cons.prems(1)]] by simp
qed simp

text \<open>A number, once handed out, is never handed out again in its stream.\<close>

lemma handed_out_distinct:
  assumes "wf s" and "sorted_wrt (<) (numbers s g)"
  shows "distinct (numbers s g @ handed_out append1 stream g as s)"
proof -
  have "sorted_wrt (<) (numbers s g @ handed_out append1 stream g as s)"
    using stream_increasing [OF assms, of as] stream_grows [OF assms(1), of as g] by simp
  then show ?thesis by (metis strict_sorted_iff)
qed

end

text \<open>Without a precondition on the table.\<close>

locale numbered_stream =
  fixes append1 :: "'a \<Rightarrow> 's \<Rightarrow> int option \<times> 's"
    and stream :: "'a \<Rightarrow> 'g"
    and numbers :: "'s \<Rightarrow> 'g \<Rightarrow> int list"
  assumes append_fresh: "append1 a s = (Some n, s') \<Longrightarrow>
      (\<forall>m \<in> set (numbers s (stream a)). m < n) \<and> numbers s' (stream a) = numbers s (stream a) @ [n]"
    and append_none: "append1 a s = (None, s') \<Longrightarrow> s' = s"
    and append_frame: "append1 a s = (r, s') \<Longrightarrow> g \<noteq> stream a \<Longrightarrow> numbers s' g = numbers s g"

sublocale numbered_stream \<subseteq> guarded: guarded_stream append1 stream numbers "\<lambda>_. True"
  by unfold_locales (auto dest: append_fresh append_none append_frame)

context numbered_stream
begin

lemma stream_grows: "numbers (appends append1 as s) g = numbers s g @ handed_out append1 stream g as s"
  by (rule guarded.stream_grows [OF TrueI])

lemma stream_increasing:
  "sorted_wrt (<) (numbers s g) \<Longrightarrow> sorted_wrt (<) (numbers (appends append1 as s) g)"
  by (rule guarded.stream_increasing [OF TrueI])

lemma handed_out_distinct:
  "sorted_wrt (<) (numbers s g) \<Longrightarrow> distinct (numbers s g @ handed_out append1 stream g as s)"
  by (rule guarded.handed_out_distinct [OF TrueI])

end

section \<open>Lossless channels\<close>

fun run_steps :: "('o \<Rightarrow> 's \<Rightarrow> 's) \<Rightarrow> 'o list \<Rightarrow> 's \<Rightarrow> 's" where
  "run_steps step [] s = s"
| "run_steps step (x # xs) s = run_steps step xs (step x s)"

fun along :: "('o \<Rightarrow> 's \<Rightarrow> 's) \<Rightarrow> ('o \<Rightarrow> 's \<Rightarrow> 'x list) \<Rightarrow> 'o list \<Rightarrow> 's \<Rightarrow> 'x list" where
  "along step f [] s = []"
| "along step f (x # xs) s = f x s @ along step f xs (step x s)"

lemma run_steps_append: "run_steps step (xs @ ys) s = run_steps step ys (run_steps step xs s)"
  by (induction xs arbitrary: s) auto

lemma along_append: "along step f (xs @ ys) s = along step f xs s @ along step f ys (run_steps step xs s)"
  by (induction xs arbitrary: s) auto

locale lossless_channel =
  fixes step :: "'o \<Rightarrow> 's \<Rightarrow> 's"
    and ins :: "'o \<Rightarrow> 's \<Rightarrow> 'x list"
    and outs :: "'o \<Rightarrow> 's \<Rightarrow> 'x list"
    and content :: "'s \<Rightarrow> 'x list"
    and wf :: "'s \<Rightarrow> bool"
  assumes step_lossless: "wf s \<Longrightarrow> outs x s @ content (step x s) = content s @ ins x s"
    and step_wf: "wf s \<Longrightarrow> wf (step x s)"
begin

lemma run_wf: "wf s \<Longrightarrow> wf (run_steps step xs s)"
  by (induction xs arbitrary: s) (auto simp: step_wf)

lemma run_lossless:
  "wf s \<Longrightarrow> along step outs xs s @ content (run_steps step xs s) = content s @ along step ins xs s"
proof (induction xs arbitrary: s)
  case (Cons x xs)
  from Cons.IH [OF step_wf [OF Cons.prems], of x]
  have "along step outs (x # xs) s @ content (run_steps step (x # xs) s) =
      outs x s @ content (step x s) @ along step ins xs (step x s)" by simp
  also have "\<dots> = content s @ along step ins (x # xs) s"
    using step_lossless [OF Cons.prems, of x] by (metis along.simps(2) append_assoc)
  finally show ?case .
qed simp

text \<open>What has come out is an initial part of what was there and was put in; all of it, once
  the channel is empty.\<close>

lemma run_in_order:
  "wf s \<Longrightarrow> along step outs xs s =
     take (length (along step outs xs s)) (content s @ along step ins xs s)"
  using run_lossless [of s xs] by (metis append_eq_conv_conj)

lemma drained_run:
  "wf s \<Longrightarrow> content (run_steps step xs s) = [] \<Longrightarrow> along step outs xs s = content s @ along step ins xs s"
  using run_lossless [of s xs] by simp

end

end
