(* ===== verification/EventLog.thy ===== *)
theory EventLog
  imports Runs Streams
begin

text \<open>
  The runtime event log: sequence allocation and the fenced append of core/database.py, and the
  emitter of erc/event_bus.py that a run writes through.
\<close>

section \<open>Sequence numbers\<close>

text \<open>\<^verbatim>\<open>COALESCE(MAX(col), 0)\<close>.\<close>

definition table_max :: "int list \<Rightarrow> int" where
  "table_max xs = (case max_some (map Some xs) of None \<Rightarrow> 0 | Some m \<Rightarrow> m)"

definition runtime_event_sequence_floor :: "db \<Rightarrow> string \<Rightarrow> int" where
  "runtime_event_sequence_floor d s =
     table_max (map sh_last (filter (\<lambda>h. sh_session h = s) (db_heads d)) @
       [table_max (map ev_seq (filter (\<lambda>e. ev_session e = s) (db_events d))),
        table_max (map sn_latest (filter (\<lambda>x. sn_session x = s) (db_snapshots d)))])"

definition new_head :: "string \<Rightarrow> int \<Rightarrow> time \<Rightarrow> head_rec" where
  "new_head s n now = \<lparr>sh_session = s, sh_last = n, sh_updated = now\<rparr>"

definition moved_head :: "int \<Rightarrow> time \<Rightarrow> head_rec \<Rightarrow> head_rec" where
  "moved_head n now h = h\<lparr>sh_last := n, sh_updated := now\<rparr>"

lemma head_simps [simp]:
  "sh_session (new_head s n now) = s" "sh_last (new_head s n now) = n"
  "sh_session (moved_head n now h) = sh_session h" "sh_last (moved_head n now h) = n"
  by (simp_all add: new_head_def moved_head_def)

definition allocate_runtime_event_seq :: "string \<Rightarrow> time \<Rightarrow> db \<Rightarrow> int \<times> db" where
  "allocate_runtime_event_seq s now d =
     (let n = runtime_event_sequence_floor d s + 1
      in (n, d\<lparr>db_heads :=
        (if sel_by sh_session s (db_heads d) = None
         then db_heads d @ [new_head s n now]
         else upd_where (\<lambda>h. sh_session h = s) (moved_head n now) (db_heads d))\<rparr>))"

definition get_next_runtime_seq :: "string \<Rightarrow> db \<Rightarrow> int" where
  "get_next_runtime_seq s d = runtime_event_sequence_floor d s + 1"

definition get_latest_runtime_seq :: "string \<Rightarrow> db \<Rightarrow> int" where
  "get_latest_runtime_seq s d = runtime_event_sequence_floor d s"

section \<open>Appending an event\<close>

record event_args =
  ea_id :: string
  ea_session :: string
  ea_run :: "string option"
  ea_kind :: string
  ea_topic :: string
  ea_ts :: "time option"
  ea_source :: dict
  ea_payload :: dict

datatype event_error = EpochError run_error | DuplicateEvent

definition epoch_value :: "json \<Rightarrow> int" where
  "epoch_value v = (case int_of_json v of None \<Rightarrow> 0 | Some n \<Rightarrow> n)"

definition event_payload :: "db \<Rightarrow> event_args \<Rightarrow> dict" where
  "event_payload d a = (if ''contextEpoch'' \<in> fst ` set (ea_payload a) then ea_payload a
     else dset ''contextEpoch'' (JInt (context_epoch d (ea_session a))) (ea_payload a))"

definition new_event_row :: "event_args \<Rightarrow> int \<Rightarrow> dict \<Rightarrow> event_rec" where
  "new_event_row a n payload = \<lparr>ev_id = ea_id a, ev_session = ea_session a, ev_run = ea_run a, ev_seq = n,
     ev_kind = ea_kind a, ev_topic = ea_topic a, ev_ts = ea_ts a, ev_source = ea_source a,
     ev_payload = payload\<rparr>"

definition add_runtime_event :: "event_args \<Rightarrow> time \<Rightarrow> db \<Rightarrow> (event_error + int) \<times> db" where
  "add_runtime_event a now d =
     (case assert_run_epoch d (ea_session a) (ea_run a) of
        Some err \<Rightarrow> (Inl (EpochError err), d)
      | None \<Rightarrow>
          if epoch_value (dget (event_payload d a) ''contextEpoch'') \<noteq> context_epoch d (ea_session a)
          then (Inl (EpochError ContextSuperseded), d)
          else let (n, d') = allocate_runtime_event_seq (ea_session a) now d
               in if sel_by ev_id (ea_id a) (db_events d) \<noteq> None then (Inl DuplicateEvent, d)
                  else (Inr n, d'\<lparr>db_events := db_events d @ [new_event_row a n (event_payload d a)]\<rparr>))"

definition get_runtime_events :: "string \<Rightarrow> int option \<Rightarrow> int option \<Rightarrow> db \<Rightarrow> event_rec list" where
  "get_runtime_events s after limit d =
     (let rows = sort_key ev_seq (filter (\<lambda>e. ev_session e = s \<and>
                   (case after of None \<Rightarrow> True | Some n \<Rightarrow> n < ev_seq e)) (db_events d))
      in case limit of None \<Rightarrow> rows | Some l \<Rightarrow> take (nat (max 1 (min l 500))) rows)"

section \<open>The emitter\<close>

record emitter =
  em_session :: string
  em_run :: "string option"
  em_source :: dict
  em_seq :: int
  em_epoch :: int

datatype emit_error = EmitRefused event_error | DatabaseLocked

definition create_emitter :: "string \<Rightarrow> string option \<Rightarrow> dict \<Rightarrow> db \<Rightarrow> emitter" where
  "create_emitter s run source d =
     \<lparr>em_session = s, em_run = run, em_source = source, em_seq = get_next_runtime_seq s d,
      em_epoch = (case run of
         None \<Rightarrow> context_epoch d s
       | Some r \<Rightarrow> if r = [] then context_epoch d s
                   else (case run_of r d of None \<Rightarrow> 0 | Some x \<Rightarrow> rn_epoch x))\<rparr>"

text \<open>The append is tried once and then again after each of the four lock delays;
  \<open>locked\<close> attempts fail before one reaches the table. Every failed attempt refreshes the
  emitter's own number. Only the number the table allocated is kept.\<close>

definition lock_retry_delays :: "nat" where
  "lock_retry_delays = 4"

definition emitted_event :: "emitter \<Rightarrow> string \<Rightarrow> dict \<Rightarrow> string \<Rightarrow> string \<Rightarrow> time option \<Rightarrow> event_args" where
  "emitted_event em topic payload kind event_id ts =
     \<lparr>ea_id = event_id, ea_session = em_session em, ea_run = em_run em, ea_kind = kind, ea_topic = topic,
      ea_ts = ts, ea_source = em_source em,
      ea_payload = dset ''contextEpoch'' (JInt (em_epoch em)) payload\<rparr>"

definition emit_event ::
  "string \<Rightarrow> dict \<Rightarrow> string \<Rightarrow> string \<Rightarrow> time option \<Rightarrow> time \<Rightarrow> nat \<Rightarrow> emitter \<Rightarrow> db \<Rightarrow>
     (emit_error + int) \<times> emitter \<times> db" where
  "emit_event topic payload kind event_id ts now locked em d =
     (let refreshed = (if locked = 0 then em else em\<lparr>em_seq := get_next_runtime_seq (em_session em) d\<rparr>)
      in if locked > lock_retry_delays then (Inl DatabaseLocked, refreshed, d)
         else (case add_runtime_event (emitted_event em topic payload kind event_id ts) now d of
             (Inl err, d') \<Rightarrow> (Inl (EmitRefused err), refreshed, d')
           | (Inr n, d') \<Rightarrow> (Inr n, refreshed\<lparr>em_seq := n + 1\<rparr>, d')))"

section \<open>The log as a numbered stream\<close>

definition session_seqs :: "db \<Rightarrow> string \<Rightarrow> int list" where
  "session_seqs d s = map ev_seq (filter (\<lambda>e. ev_session e = s) (db_events d))"

definition append_event :: "event_args \<times> time \<Rightarrow> db \<Rightarrow> int option \<times> db" where
  "append_event x d = (case add_runtime_event (fst x) (snd x) d of
     (Inl _, d') \<Rightarrow> (None, d') | (Inr n, d') \<Rightarrow> (Some n, d'))"

lemma max_some_ge: "x \<in> set xs \<Longrightarrow> \<exists>m. max_some (map Some xs) = Some m \<and> x \<le> m"
  by (induction xs) (auto split: option.splits)

lemma max_some_in: "max_some (map Some xs) = Some m \<Longrightarrow> m \<in> set xs"
proof (induction xs arbitrary: m)
  case (Cons x xs)
  then show ?case by (cases "max_some (map Some xs)") (auto simp: max_def split: if_splits)
qed simp

lemma table_max_ge: "x \<in> set xs \<Longrightarrow> x \<le> table_max xs"
  using max_some_ge [of x xs] by (auto simp: table_max_def)

lemma table_max_eq: "m \<in> set xs \<Longrightarrow> (\<And>x. x \<in> set xs \<Longrightarrow> x \<le> m) \<Longrightarrow> table_max xs = m"
proof -
  assume m: "m \<in> set xs" and le: "\<And>x. x \<in> set xs \<Longrightarrow> x \<le> m"
  obtain k where k: "max_some (map Some xs) = Some k" "m \<le> k" using max_some_ge [OF m] by blast
  then have "k = m" using le [OF max_some_in [OF k(1)]] by simp
  then show ?thesis by (simp add: table_max_def k(1))
qed

lemma seq_below_floor: "n \<in> set (session_seqs d s) \<Longrightarrow> n \<le> runtime_event_sequence_floor d s"
proof -
  assume "n \<in> set (session_seqs d s)"
  then have "n \<le> table_max (session_seqs d s)" by (rule table_max_ge)
  also have "\<dots> \<le> runtime_event_sequence_floor d s"
    unfolding runtime_event_sequence_floor_def session_seqs_def by (rule table_max_ge) simp
  finally show ?thesis .
qed

lemma add_event_cases:
  assumes "add_runtime_event a now d = (res, d')"
  shows "(\<exists>err. res = Inl err) \<and> d' = d \<or>
    assert_run_epoch d (ea_session a) (ea_run a) = None \<and>
    sel_by ev_id (ea_id a) (db_events d) = None \<and>
    res = Inr (runtime_event_sequence_floor d (ea_session a) + 1) \<and>
    d' = (snd (allocate_runtime_event_seq (ea_session a) now d))\<lparr>db_events := db_events d @
      [new_event_row a (runtime_event_sequence_floor d (ea_session a) + 1) (event_payload d a)]\<rparr>"
  using assms
  by (auto simp: add_runtime_event_def allocate_runtime_event_seq_def Let_def split: option.splits if_splits)

lemma append_event_cases:
  assumes "append_event x d = (r, d')"
  shows "r = None \<and> d' = d \<or>
    r = Some (runtime_event_sequence_floor d (ea_session (fst x)) + 1) \<and>
    db_events d' = db_events d @
      [new_event_row (fst x) (runtime_event_sequence_floor d (ea_session (fst x)) + 1) (event_payload d (fst x))]"
  using assms add_event_cases [of "fst x" "snd x" d]
  by (cases "add_runtime_event (fst x) (snd x) d") (auto simp: append_event_def split: sum.splits)

lemma new_event_row_simps [simp]:
  "ev_session (new_event_row a n p) = ea_session a" "ev_seq (new_event_row a n p) = n"
  "ev_id (new_event_row a n p) = ea_id a" "ev_run (new_event_row a n p) = ea_run a"
  by (simp_all add: new_event_row_def)

interpretation event_log: numbered_stream append_event "\<lambda>x. ea_session (fst x)" session_seqs
proof
  fix x d n d'
  assume "append_event x d = (Some n, d')"
  then have "n = runtime_event_sequence_floor d (ea_session (fst x)) + 1"
    "session_seqs d' (ea_session (fst x)) = session_seqs d (ea_session (fst x)) @ [n]"
    using append_event_cases [of x d "Some n" d'] by (auto simp: session_seqs_def)
  then show "(\<forall>m \<in> set (session_seqs d (ea_session (fst x))). m < n) \<and>
      session_seqs d' (ea_session (fst x)) = session_seqs d (ea_session (fst x)) @ [n]"
    using seq_below_floor [of _ d "ea_session (fst x)"] by force
next
  fix x d d'
  assume "append_event x d = (None, d')"
  then show "d' = d" using append_event_cases by blast
next
  fix x d r d' s
  assume "append_event x d = (r, d')" "s \<noteq> ea_session (fst x)"
  then show "session_seqs d' s = session_seqs d s"
    using append_event_cases [of x d r d'] by (auto simp: session_seqs_def)
qed

lemma allocated_heads:
  assumes "h \<in> set (db_heads (snd (allocate_runtime_event_seq s now d)))" and "sh_session h = s"
  shows "sh_last h = runtime_event_sequence_floor d s + 1"
proof (cases "sel_by sh_session s (db_heads d) = None")
  case True
  then have "h \<notin> set (db_heads d)" using assms(2) by (auto simp: sel_by_None_iff)
  then have "h = new_head s (runtime_event_sequence_floor d s + 1) now"
    using assms(1) True by (simp add: allocate_runtime_event_seq_def Let_def)
  then show ?thesis by (metis head_simps(2))
next
  case False
  then have "db_heads (snd (allocate_runtime_event_seq s now d)) = upd_where (\<lambda>h. sh_session h = s)
      (moved_head (runtime_event_sequence_floor d s + 1) now) (db_heads d)"
    by (auto simp: allocate_runtime_event_seq_def Let_def)
  then have "h \<in> (\<lambda>x. if sh_session x = s then moved_head (runtime_event_sequence_floor d s + 1) now x else x) `
      set (db_heads d)"
    using assms(1) by (simp only: set_upd_where)
  then obtain x where "h = (if sh_session x = s then moved_head (runtime_event_sequence_floor d s + 1) now x else x)"
    by blast
  with assms(2) show ?thesis by (cases "sh_session x = s") simp_all
qed

lemma allocate_frame [simp]:
  "db_snapshots (snd (allocate_runtime_event_seq s now d)) = db_snapshots d"
  "db_events (snd (allocate_runtime_event_seq s now d)) = db_events d"
  by (simp_all add: allocate_runtime_event_seq_def Let_def)

lemma floor_after_add:
  assumes add: "add_runtime_event a now d = (Inr n, d')"
  shows "runtime_event_sequence_floor d' (ea_session a) = n"
proof -
  let ?s = "ea_session a"
  have n: "n = runtime_event_sequence_floor d ?s + 1"
    and d': "d' = (snd (allocate_runtime_event_seq ?s now d))\<lparr>db_events := db_events d @
      [new_event_row a n (event_payload d a)]\<rparr>"
    using add_event_cases [OF add] by auto
  have "table_max (map ev_seq (filter (\<lambda>e. ev_session e = ?s) (db_events d'))) = n"
  proof (rule table_max_eq)
    show "n \<in> set (map ev_seq (filter (\<lambda>e. ev_session e = ?s) (db_events d')))" using d' by simp
    fix m assume "m \<in> set (map ev_seq (filter (\<lambda>e. ev_session e = ?s) (db_events d')))"
    then have "m \<in> set (session_seqs d ?s) \<or> m = n" using d' by (auto simp: session_seqs_def)
    then show "m \<le> n" using seq_below_floor [of m d ?s] n by auto
  qed
  moreover have "table_max (map sn_latest (filter (\<lambda>x. sn_session x = ?s) (db_snapshots d'))) \<le> n"
  proof -
    have "table_max (map sn_latest (filter (\<lambda>x. sn_session x = ?s) (db_snapshots d))) \<le> runtime_event_sequence_floor d ?s"
      unfolding runtime_event_sequence_floor_def by (rule table_max_ge) simp
    then show ?thesis using d' n by simp
  qed
  moreover have "sh_last h = n" if "h \<in> set (db_heads d')" "sh_session h = ?s" for h
    using allocated_heads [of h ?s now d] that d' n by simp
  ultimately show ?thesis
    unfolding runtime_event_sequence_floor_def by (intro table_max_eq) auto
qed

lemma add_event_other_session:
  assumes "add_runtime_event a now d = (Inr n, d')" and "s \<noteq> ea_session a"
  shows "runtime_event_sequence_floor d' s = runtime_event_sequence_floor d s"
proof -
  have d': "d' = (snd (allocate_runtime_event_seq (ea_session a) now d))\<lparr>db_events := db_events d @
      [new_event_row a n (event_payload d a)]\<rparr>"
    using add_event_cases [OF assms(1)] by auto
  have "filter (\<lambda>h. sh_session h = s) (upd_where (\<lambda>h. sh_session h = ea_session a) (moved_head n now) t) =
      filter (\<lambda>h. sh_session h = s) t" for t
    using assms(2) by (intro filter_upd_where_frame) auto
  moreover have "n = runtime_event_sequence_floor d (ea_session a) + 1"
    using add_event_cases [OF assms(1)] by auto
  ultimately have "filter (\<lambda>h. sh_session h = s) (db_heads d') = filter (\<lambda>h. sh_session h = s) (db_heads d)"
    using assms(2) d' by (simp add: allocate_runtime_event_seq_def Let_def)
  then show ?thesis using assms(2) d' by (simp add: runtime_event_sequence_floor_def)
qed

lemma created_run_sel:
  assumes "create_run_record a now d = (None, d')"
  shows "run_of (ra_id a) d' = Some (new_run_row a now (context_epoch d (ra_session a)))"
    "db_transcripts d' = db_transcripts d"
proof -
  have id: "rn_id (new_run_row a now e) = ra_id a" for e by (simp add: new_run_row_def)
  show "run_of (ra_id a) d' = Some (new_run_row a now (context_epoch d (ra_session a)))"
  proof (cases "run_of (ra_id a) d")
    case None
    then show ?thesis using assms
      by (auto simp: create_run_record_def Let_def sel_by_append id split: option.splits)
  next
    case (Some r)
    have "sel_by rn_id (ra_id a) (filter (\<lambda>x. rn_id x \<noteq> ra_id a) t) = None" for t :: "run_rec list"
      by (auto simp: sel_by_None_iff)
    then show ?thesis using assms Some
      by (cases "assert_run_epoch d (ra_session a) (Some (ra_id a))")
        (auto simp: create_run_record_def Let_def forget_run_def sel_by_append id)
  qed
  show "db_transcripts d' = db_transcripts d"
    using assms by (auto simp: create_run_record_def Let_def forget_run_def split: option.splits if_splits)
qed

section \<open>Properties\<close>

definition demo_event :: "string \<Rightarrow> event_args" where
  "demo_event i = \<lparr>ea_id = i, ea_session = ''s1'', ea_run = Some ''r1'', ea_kind = ''event'',
     ea_topic = ''run.started'', ea_ts = None, ea_source = [], ea_payload = []\<rparr>"

text \<open>An appended event gets the next sequence number of its session, which is above every
  number the session's log holds; afterwards it is the session's latest number, and the numbering of
  every other session is where it was.\<close>

theorem event_append_takes_next_number:
  assumes "add_runtime_event a now d = (Inr n, d')"
  shows "n = get_next_runtime_seq (ea_session a) d \<and>
    (\<forall>e \<in> set (db_events d). ev_session e = ea_session a \<longrightarrow> ev_seq e < n) \<and>
    get_latest_runtime_seq (ea_session a) d' = n \<and>
    (\<forall>s. s \<noteq> ea_session a \<longrightarrow> get_latest_runtime_seq s d' = get_latest_runtime_seq s d)"
  using add_event_cases [OF assms] floor_after_add [OF assms] add_event_other_session [OF assms]
    seq_below_floor [of _ d "ea_session a"]
  by (force simp: get_next_runtime_seq_def get_latest_runtime_seq_def session_seqs_def)

theorem event_append_takes_next_number_witness:
  "get_latest_runtime_seq ''s1'' (snd (add_runtime_event (demo_event ''e1'') 5 demo_db)) = 1"
proof -
  have "fst (add_runtime_event (demo_event ''e1'') 5 demo_db) = Inr 1" by code_simp
  moreover have "ea_session (demo_event ''e1'') = ''s1''" by (simp add: demo_event_def)
  ultimately show ?thesis
    using event_append_takes_next_number [of "demo_event ''e1''" 5 demo_db 1] by (metis prod.collapse)
qed



text \<open>C7: a run may write exactly as long as its conversation's epoch stands. A run that has
  just been created can append a new event; once the epoch of its session has moved on, each of its
  appends is refused as superseded and changes nothing, whatever epoch the payload claims.\<close>

theorem superseded_run_cannot_write:
  assumes "create_run_record a now d = (None, d')" and "ra_id a \<noteq> []"
    and "ea_run x = Some (ra_id a)" and "ea_session x = ra_session a"
  shows "(\<forall>t. ''contextEpoch'' \<notin> fst ` set (ea_payload x) \<longrightarrow> sel_by ev_id (ea_id x) (db_events d') = None \<longrightarrow>
       (\<exists>n d2. add_runtime_event x t d' = (Inr n, d2))) \<and>
    (\<forall>d2 t. db_runs d2 = db_runs d' \<longrightarrow> context_epoch d2 (ra_session a) \<noteq> context_epoch d (ra_session a) \<longrightarrow>
       add_runtime_event x t d2 = (Inl (EpochError ContextSuperseded), d2))"
proof -
  have run: "run_of (ra_id a) d' = Some (new_run_row a now (context_epoch d (ra_session a)))"
    and ep: "context_epoch d' = context_epoch d"
    using created_run_sel [OF assms(1)] by (simp_all add: context_epoch_def fun_eq_iff)
  have "assert_run_epoch d' (ea_session x) (ea_run x) = None"
    using run ep assms(2-4) by (simp add: assert_run_epoch_def or_text_def new_run_row_def)
  moreover have "assert_run_epoch d2 (ea_session x) (ea_run x) = Some ContextSuperseded"
    if "db_runs d2 = db_runs d'" "context_epoch d2 (ra_session a) \<noteq> context_epoch d (ra_session a)" for d2
    using that run assms(2-4) by (simp add: assert_run_epoch_def or_text_def new_run_row_def)
  ultimately show ?thesis
    by (auto simp: add_runtime_event_def event_payload_def epoch_value_def int_of_json_def
        allocate_runtime_event_seq_def Let_def)
qed

theorem superseded_run_cannot_write_witness:
  "add_runtime_event (demo_event ''e1'') 5 (demo_db\<lparr>db_transcripts := [\<lparr>tx_session = ''s1'', tx_epoch = 4\<rparr>]\<rparr>) =
     (Inl (EpochError ContextSuperseded), demo_db\<lparr>db_transcripts := [\<lparr>tx_session = ''s1'', tx_epoch = 4\<rparr>]\<rparr>)"
proof -
  let ?a = "demo_run ''r1'' ''s1'' [(''control_signal'', JObj [(''command'', JStr ''pause'')])]"
  let ?d0 = "empty_db\<lparr>db_transcripts := [\<lparr>tx_session = ''s1'', tx_epoch = 3\<rparr>]\<rparr>"
  have "create_run_record ?a 1000 ?d0 = (None, demo_db)"
    by (simp add: demo_db_def create_run_record_def empty_db_def)
  moreover have "ra_id ?a \<noteq> []" "ea_run (demo_event ''e1'') = Some (ra_id ?a)"
    "ea_session (demo_event ''e1'') = ra_session ?a"
    by (simp_all add: demo_run_def demo_event_def)
  ultimately show ?thesis using superseded_run_cannot_write [of ?a 1000 ?d0 demo_db "demo_event ''e1''"]
    by (auto simp: context_epoch_def demo_run_def)
qed

text \<open>The emitter never loses an event and never invents a number. When emitting succeeds,
  after any tolerated number of lock failures, the event is stored once under the number reported
  and the emitter's next number is the log's; when it fails, the log is untouched, and it fails
  for locking only after the first attempt and all four retries.\<close>

theorem emitter_follows_the_log:
  "case emit_event topic payload kind i ts now locked em d of
     (Inr n, em', d') \<Rightarrow> locked \<le> lock_retry_delays \<and> em_seq em' = get_next_runtime_seq (em_session em) d' \<and>
        (\<exists>p. db_events d' = db_events d @ [new_event_row (emitted_event em topic payload kind i ts) n p])
   | (Inl err, em', d') \<Rightarrow> d' = d \<and> (err = DatabaseLocked \<longleftrightarrow> lock_retry_delays < locked)"
proof (cases "lock_retry_delays < locked")
  case True
  then show ?thesis by (simp add: emit_event_def Let_def)
next
  case False
  let ?a = "emitted_event em topic payload kind i ts"
  obtain res d' where add: "add_runtime_event ?a now d = (res, d')" by force
  have s: "ea_session ?a = em_session em" by (simp add: emitted_event_def)
  show ?thesis
  proof (cases res)
    case (Inl err)
    then show ?thesis using False add add_event_cases [OF add] by (auto simp: emit_event_def Let_def)
  next
    case (Inr n)
    then have "runtime_event_sequence_floor d' (em_session em) = n"
      using floor_after_add [of ?a now d n d'] add s by simp
    moreover have "db_events d' = db_events d @ [new_event_row ?a n (event_payload d ?a)]"
      using add_event_cases [OF add] Inr by auto
    ultimately show ?thesis using False add Inr
      by (auto simp: emit_event_def Let_def get_next_runtime_seq_def)
  qed
qed

end
