(* ===== verification/SessionWaits.thy ===== *)
theory SessionWaits
  imports Runs "HOL-Library.List_Lexorder" "HOL-Library.Char_ord"
begin

text \<open>
  Waiting for the results of child sessions (core/database.py): a running root registers a wait,
  is parked, is claimed by one delivery owner when a result has arrived, and is activated again;
  and the withdrawal of an assignment (revoke, request to cancel). The digest of the human turns is
  a parameter.
\<close>

section \<open>Assignments\<close>

definition revoke_session_command_assignment ::
  "string \<Rightarrow> string \<Rightarrow> string \<Rightarrow> int \<Rightarrow> time \<Rightarrow> db \<Rightarrow> bool \<times> db" where
  "revoke_session_command_assignment aid user session revision now d =
     (case update_row sa_id aid
        (\<lambda>a. sa_user a = user \<and> sa_revision a = revision \<and> sa_status a = ''active''
             \<and> (sa_root a = session \<or> sa_child a = session))
        (\<lambda>a. a\<lparr>sa_status := ''revoked'', sa_revision := sa_revision a + 1, sa_revoked := Some now,
               sa_updated := now\<rparr>) (db_assignments d)
      of (ok, t) \<Rightarrow> (ok, d\<lparr>db_assignments := t\<rparr>))"

definition session_command_user_revision :: "(json \<Rightarrow> string) \<Rightarrow> db \<Rightarrow> string \<Rightarrow> string" where
  "session_command_user_revision digest d s =
     (let facts = (\<lambda>table rows. map (\<lambda>x. JList [JStr table, JStr (tn_id x), JStr (tn_text x)])
                    (sort_key tn_id (filter (\<lambda>x. tn_session x = s \<and> tn_role x = ''user'') rows)))
      in digest (JObj [(''humanTurns'', JList (facts ''messages'' (db_messages d) @
                                             facts ''chat_canonical_messages'' (db_canonical d)))]))"

definition latest_run :: "db \<Rightarrow> string \<Rightarrow> run_rec option" where
  "latest_run d s = first_by (\<lambda>r. - rn_started r) (filter (\<lambda>r. rn_session r = s) (db_runs d))"

datatype cancel_error = CancelTargetMismatch | CancelRunChanged | CancelBindingChanged

record cancel_args =
  ca_assignment :: string
  ca_revision :: int
  ca_root :: string
  ca_user :: string
  ca_run :: string
  ca_message :: string
  ca_status :: string
  ca_key :: string

record cancel_receipt =
  ct_request :: string
  ct_idempotent :: bool
  ct_status :: string

definition cancellable_statuses :: "string list" where
  "cancellable_statuses = [''queued'', ''running'', ''waiting_input'', ''waiting_approval'',
     ''waiting_external_tool'', ''paused'']"

definition active_relation :: "cancel_args \<Rightarrow> db \<Rightarrow> assignment_rec option" where
  "active_relation a d = (case sel_by sa_id (ca_assignment a) (db_assignments d) of None \<Rightarrow> None
     | Some x \<Rightarrow> if sa_revision x = ca_revision a \<and> sa_root x = ca_root a \<and> sa_user x = ca_user a
                    \<and> sa_status x = ''active'' then Some x else None)"

definition bound_message :: "cancel_args \<Rightarrow> run_rec \<Rightarrow> db \<Rightarrow> bool" where
  "bound_message a r d = (case sel_by cm_id (ca_message a) (db_coordination d) of None \<Rightarrow> False
     | Some m \<Rightarrow> cm_target_run m = Some (ca_run a) \<and> cm_target_session m = rn_session r
         \<and> cm_source_session m = ca_root a \<and> cm_source_user m = Some (ca_user a)
         \<and> cm_authority m = ''project_assignment''
         \<and> cm_state m \<in> {''promoted'', ''injected'', ''replied''})"

definition cancel_request :: "(json \<Rightarrow> string) \<Rightarrow> cancel_args \<Rightarrow> time \<Rightarrow> json \<Rightarrow> dict" where
  "cancel_request digest a now previous =
     (if truthy previous then as_dict previous
      else [(''requestId'', JStr (''assignment_cancel_'' @ digest (JObj
               [(''assignmentId'', JStr (ca_assignment a)), (''revision'', JInt (ca_revision a)),
                (''runId'', JStr (ca_run a)), (''key'', JStr (ca_key a))]))),
            (''rootSessionId'', JStr (ca_root a)), (''requestedAt'', JInt now)])"

definition request_session_assignment_cancel ::
  "(json \<Rightarrow> string) \<Rightarrow> cancel_args \<Rightarrow> time \<Rightarrow> db \<Rightarrow> (cancel_error + cancel_receipt) \<times> db" where
  "request_session_assignment_cancel digest a now d =
     (case (active_relation a d, run_of (ca_run a) d) of
        (Some rel, Some r) \<Rightarrow>
          if rn_session r \<noteq> sa_child rel \<or> rn_user r \<noteq> Some (ca_user a) then (Inl CancelTargetMismatch, d)
          else if rn_status r \<noteq> ca_status a \<or> rn_status r \<notin> set cancellable_statuses
          then (Inl CancelRunChanged, d)
          else if map_option rn_id (latest_run d (rn_session r)) \<noteq> Some (ca_run a)
          then (Inl CancelRunChanged, d)
          else
            let binding = as_dict (dget (rn_metadata r) ''sessionAssignment'')
            in if as_text (dget binding ''state'') \<noteq> ''active''
                  \<or> dget binding ''assignmentId'' \<noteq> JStr (ca_assignment a)
                  \<or> \<not> py_eq (dget binding ''revision'') (JInt (ca_revision a))
                  \<or> dget binding ''messageId'' \<noteq> JStr (ca_message a)
                  \<or> \<not> bound_message a r d
               then (Inl CancelBindingChanged, d)
               else
                 let previous = dget binding ''cancelRequested'';
                     request = cancel_request digest a now previous;
                     meta = dset ''sessionAssignment''
                              (JObj (dset ''cancelRequested'' (JObj request) binding)) (rn_metadata r)
                 in (Inr \<lparr>ct_request = as_text (dget request ''requestId''),
                          ct_idempotent = truthy previous, ct_status = rn_status r\<rparr>,
                     set_run_metadata (ca_run a) meta d)
      | _ \<Rightarrow> (Inl CancelTargetMismatch, d))"

section \<open>The results a wait is for\<close>

definition marker_ids :: "dict \<Rightarrow> string list" where
  "marker_ids marker = (case dget marker ''assignmentIds'' of JList xs \<Rightarrow> map as_text xs | _ \<Rightarrow> [])"

definition result_cursor :: "coordination_rec \<Rightarrow> int option" where
  "result_cursor m = int_of_json (dget (cm_metadata m) ''resultCursor'')"

definition session_wait_results :: "db \<Rightarrow> string \<Rightarrow> dict \<Rightarrow> coordination_rec list" where
  "session_wait_results d s marker =
     (let after = (case int_of_json (dget marker ''afterCursor'') of None \<Rightarrow> 0 | Some n \<Rightarrow> n);
          rows = sort_key (\<lambda>m. case result_cursor m of None \<Rightarrow> 0 | Some n \<Rightarrow> n)
            (filter (\<lambda>m. cm_target_session m = s \<and> cm_authority m = ''project_result''
               \<and> (case result_cursor m of None \<Rightarrow> False | Some n \<Rightarrow> after < n)
               \<and> (case int_of_json (dget (cm_metadata m) ''superseded'') of None \<Rightarrow> True | Some n \<Rightarrow> n = 0))
             (db_coordination d));
          results = filter (\<lambda>m. as_text (dget (cm_metadata m) ''assignmentId'') \<in> set (marker_ids marker)) rows;
          finals = map (\<lambda>m. as_text (dget (cm_metadata m) ''assignmentId''))
                     (filter (\<lambda>m. truthy (dget (cm_metadata m) ''resultFinal'')) results)
      in if as_text (dget marker ''condition'') = ''all_final'' \<and> \<not> set (marker_ids marker) \<subseteq> set finals
         then [] else results)"

section \<open>Registering and parking\<close>

datatype wait_error = WaitContractRequired | WaitRunNotActive | WaitScopeMismatch | WaitGenerationConflict

record wait_args =
  wa_session :: string
  wa_run :: string
  wa_user :: string
  wa_key :: string
  wa_assignments :: "string list"
  wa_after :: int
  wa_condition :: string

datatype wait_answer = Waiting string | Ready string "coordination_rec list"

definition first_occurrences :: "string list \<Rightarrow> string list" where
  "first_occurrences xs = rev (remdups (rev xs))"

definition wait_generation :: "(json \<Rightarrow> string) \<Rightarrow> wait_args \<Rightarrow> string" where
  "wait_generation digest a = ''session_wait_'' @ digest (JObj
     [(''sessionId'', JStr (wa_session a)), (''runId'', JStr (wa_run a)), (''userId'', JStr (wa_user a)),
      (''idempotencyKey'', JStr (wa_key a))])"

definition wait_marker :: "(json \<Rightarrow> string) \<Rightarrow> wait_args \<Rightarrow> db \<Rightarrow> dict" where
  "wait_marker digest a d =
     [(''state'', JStr ''waiting''), (''generation'', JStr (wait_generation digest a)),
      (''assignmentIds'', JList (map JStr (first_occurrences (wa_assignments a)))),
      (''afterCursor'', JInt (max 0 (wa_after a))), (''condition'', JStr (wa_condition a)),
      (''rootUserRevision'', JStr (session_command_user_revision digest d (wa_session a)))]"

definition waitable_run :: "wait_args \<Rightarrow> db \<Rightarrow> run_rec option" where
  "waitable_run a d = (case run_of (wa_run a) d of None \<Rightarrow> None
     | Some r \<Rightarrow> if rn_session r = wa_session a \<and> rn_user r = Some (wa_user a) \<and> rn_status r = ''running''
                 then Some r else None)"

definition owns_assignment :: "wait_args \<Rightarrow> db \<Rightarrow> string \<Rightarrow> bool" where
  "owns_assignment a d x = (case sel_by sa_id x (db_assignments d) of None \<Rightarrow> False
     | Some r \<Rightarrow> sa_root r = wa_session a \<and> sa_user r = wa_user a)"

definition register_session_result_wait ::
  "(json \<Rightarrow> string) \<Rightarrow> wait_args \<Rightarrow> db \<Rightarrow> (wait_error + wait_answer) \<times> db" where
  "register_session_result_wait digest a d =
     (if wa_key a = [] \<or> wa_assignments a = [] \<or> wa_condition a \<notin> {''any'', ''all_final''}
      then (Inl WaitContractRequired, d)
      else case waitable_run a d of
        None \<Rightarrow> (Inl WaitRunNotActive, d)
      | Some r \<Rightarrow>
          if \<not> list_all (owns_assignment a d) (wa_assignments a) then (Inl WaitScopeMismatch, d)
          else
            let gen = wait_generation digest a; marker = wait_marker digest a d; meta = rn_metadata r;
                previous = as_dict (dget meta ''sessionResultWait'');
                again = (dget previous ''generation'' = JStr gen);
                results = session_wait_results d (wa_session a) marker
            in if again \<and> list_ex (\<lambda>k. \<not> py_eq (dget previous k) (dget marker k))
                            [''assignmentIds'', ''afterCursor'', ''condition'']
               then (Inl WaitGenerationConflict, d)
               else if results \<noteq> []
               then (Inr (Ready gen results), set_run_metadata (wa_run a)
                      (dset ''sessionResultWait'' (JObj (dset ''state'' (JStr ''consumed'') marker)) meta) d)
               else if again \<and> dget previous ''state'' = JStr ''consumed''
               then (Inr (Ready gen []), d)
               else (Inr (Waiting gen), set_run_metadata (wa_run a)
                      (dpop ''resume_reason'' (dset ''sessionResultWait'' (JObj marker) meta)) d))"

definition pending_human_action :: "db \<Rightarrow> string \<Rightarrow> bool" where
  "pending_human_action d run \<longleftrightarrow>
     list_ex (\<lambda>a. ap_run a = run \<and> ap_status a = ''pending'') (db_approvals d) \<or>
     list_ex (\<lambda>a. ak_run a = run \<and> ak_status a = ''pending'') (db_asks d)"

definition set_run_state :: "string \<Rightarrow> string \<Rightarrow> dict \<Rightarrow> db \<Rightarrow> db" where
  "set_run_state run status meta d =
     d\<lparr>db_runs := upd_where (\<lambda>r. rn_id r = run) (\<lambda>r. r\<lparr>rn_status := status, rn_metadata := meta\<rparr>) (db_runs d)\<rparr>"

definition current_revision :: "(json \<Rightarrow> string) \<Rightarrow> db \<Rightarrow> run_rec \<Rightarrow> dict \<Rightarrow> bool" where
  "current_revision digest d r marker \<longleftrightarrow>
     dget marker ''rootUserRevision'' = JStr (session_command_user_revision digest d (rn_session r))"

definition pause_session_result_wait :: "(json \<Rightarrow> string) \<Rightarrow> string \<Rightarrow> db \<Rightarrow> dict option \<times> db" where
  "pause_session_result_wait digest run d =
     (case run_of run d of
        None \<Rightarrow> (None, d)
      | Some r \<Rightarrow>
          let meta = rn_metadata r; marker = as_dict (dget meta ''sessionResultWait'')
          in if rn_status r \<noteq> ''running'' \<or> dget marker ''state'' \<noteq> JStr ''waiting''
                \<or> truthy (dget meta ''resume_reason'') \<or> control_command meta \<in> set stop_commands
                \<or> pending_human_action d run \<or> \<not> current_revision digest d r marker
             then (None, d)
             else (Some marker, set_run_state run ''paused''
                     (dset ''pause_reason'' (JStr ''session_results_wait'') meta) d))"

section \<open>Delivering\<close>

definition claim_session_result_wait ::
  "(json \<Rightarrow> string) \<Rightarrow> string \<Rightarrow> string \<Rightarrow> db \<Rightarrow> (json \<times> coordination_rec) option \<times> db" where
  "claim_session_result_wait digest run owner d =
     (case run_of run d of
        None \<Rightarrow> (None, d)
      | Some r \<Rightarrow>
          let meta = rn_metadata r; marker = as_dict (dget meta ''sessionResultWait'');
              results = session_wait_results d (rn_session r) marker
          in if rn_status r \<noteq> ''paused'' \<or> dget meta ''pause_reason'' \<noteq> JStr ''session_results_wait''
                \<or> as_text (dget marker ''state'') \<notin> {''waiting'', ''scheduled''}
                \<or> control_command meta \<in> set stop_commands
             then (None, d)
             else if dget marker ''state'' = JStr ''scheduled'' \<and> dget marker ''deliveryOwner'' = JStr owner
             then (None, d)
             else if \<not> current_revision digest d r marker
             then (None, set_run_state run ''interrupted''
                    (dset ''sessionResultWait'' (JObj (dset ''state'' (JStr ''superseded'') marker)) meta) d)
             else if pending_human_action d run \<or> results = [] then (None, d)
             else
               let result = last results;
                   marker' = dset ''targetCursor'' (dget (cm_metadata result) ''resultCursor'')
                     (dset ''messageId'' (JStr (cm_id result))
                     (dset ''deliveryOwner'' (JStr owner) (dset ''state'' (JStr ''scheduled'') marker)))
               in (Some (dget marker' ''generation'', result),
                   set_run_metadata run (dset ''sessionResultWait'' (JObj marker') meta) d))"

definition restore_session_result_wait :: "string \<Rightarrow> string \<Rightarrow> string \<Rightarrow> db \<Rightarrow> bool \<times> db" where
  "restore_session_result_wait run generation message d =
     (case run_of run d of
        None \<Rightarrow> (False, d)
      | Some r \<Rightarrow>
          let meta = rn_metadata r; marker = as_dict (dget meta ''sessionResultWait'')
          in if rn_status r \<noteq> ''paused'' \<or> dget marker ''state'' \<noteq> JStr ''scheduled''
                \<or> dget marker ''generation'' \<noteq> JStr generation \<or> dget marker ''messageId'' \<noteq> JStr message
             then (False, d)
             else (True, set_run_metadata run
                    (dset ''sessionResultWait'' (JObj (dset ''state'' (JStr ''waiting'') marker)) meta) d))"

definition promoted_message :: "string \<Rightarrow> string \<Rightarrow> string \<Rightarrow> string \<Rightarrow> db \<Rightarrow> bool" where
  "promoted_message message run session generation d =
     (case sel_by cm_id message (db_coordination d) of None \<Rightarrow> False
      | Some m \<Rightarrow> cm_target_run m = Some run \<and> cm_target_session m = session
          \<and> cm_authority m = ''project_result'' \<and> cm_state m = ''promoted''
          \<and> dget (cm_metadata m) ''waitGeneration'' = JStr generation)"

text \<open>The answer carries the reason of a refusal; \<open>[]\<close> is success.\<close>

definition activate_session_result_wait ::
  "(json \<Rightarrow> string) \<Rightarrow> string \<Rightarrow> string \<Rightarrow> string \<Rightarrow> string \<Rightarrow> string \<Rightarrow> db \<Rightarrow> string \<times> db" where
  "activate_session_result_wait digest run session user generation message d =
     (let rejected = ''session_result_wake_superseded''
      in case run_of run d of
        None \<Rightarrow> (rejected, d)
      | Some r \<Rightarrow>
          let meta = rn_metadata r; marker = as_dict (dget meta ''sessionResultWait'');
              blocked = session_project_result_delivery_error d message
          in if rn_status r \<noteq> ''paused'' \<or> rn_session r \<noteq> session \<or> rn_user r \<noteq> Some user
                \<or> map_option rn_id (latest_run d session) \<noteq> Some run
                \<or> dget meta ''pause_reason'' \<noteq> JStr ''session_results_wait''
                \<or> truthy (dget meta ''resume_reason'') \<or> control_command meta \<in> set stop_commands
                \<or> dget marker ''state'' \<noteq> JStr ''scheduled''
                \<or> dget marker ''generation'' \<noteq> JStr generation
                \<or> dget marker ''messageId'' \<noteq> JStr message
                \<or> \<not> current_revision digest d r marker
                \<or> \<not> promoted_message message run session generation d
             then (rejected, d)
             else if blocked \<noteq> [] then (blocked, d)
             else if pending_human_action d run then (rejected, d)
             else ([], set_run_state run ''running''
                    (dset ''sessionResultWait'' (JObj (dset ''state'' (JStr ''executing'') marker)) meta) d))"

section \<open>Properties\<close>

lemma set_run_state_sel:
  "run_of r (set_run_state run status meta d) =
     (if r = run then map_option (\<lambda>x. x\<lparr>rn_status := status, rn_metadata := meta\<rparr>) (run_of run d)
      else run_of r d)"
  by (simp add: set_run_state_def sel_upd_key0)

lemma set_run_state_frame [simp]:
  "db_approvals (set_run_state run status meta d) = db_approvals d"
  "db_asks (set_run_state run status meta d) = db_asks d"
  by (simp_all add: set_run_state_def)

lemma activate_cases:
  assumes "activate_session_result_wait digest run session user generation message d = (why, d')"
  shows "why \<noteq> [] \<and> d' = d \<or>
    (\<exists>r. run_of run d = Some r \<and> why = [] \<and> rn_status r = ''paused'' \<and>
       map_option rn_id (latest_run d session) = Some run \<and> \<not> pending_human_action d run \<and>
       current_revision digest d r (as_dict (dget (rn_metadata r) ''sessionResultWait'')) \<and>
       d' = set_run_state run ''running'' (dset ''sessionResultWait'' (JObj (dset ''state'' (JStr ''executing'')
              (as_dict (dget (rn_metadata r) ''sessionResultWait'')))) (rn_metadata r)) d)"
  using assms by (auto simp: activate_session_result_wait_def Let_def split: option.splits if_splits)


text \<open>A wait whose root session has since received human turns never resumes the run: it is
  not parked, not handed to a delivery owner and not activated; claiming it interrupts the run.\<close>

theorem stale_wait_never_wakes:
  assumes "run_of run d = Some r"
    and "\<not> current_revision digest d r (as_dict (dget (rn_metadata r) ''sessionResultWait''))"
  shows "pause_session_result_wait digest run d = (None, d) \<and>
    fst (claim_session_result_wait digest run owner d) = None \<and>
    (snd (claim_session_result_wait digest run owner d) = d \<or>
       map_option rn_status (run_of run (snd (claim_session_result_wait digest run owner d))) = Some ''interrupted'') \<and>
    fst (activate_session_result_wait digest run session user generation message d) \<noteq> [] \<and>
    snd (activate_session_result_wait digest run session user generation message d) = d"
proof -
  have "fst (activate_session_result_wait digest run session user generation message d) \<noteq> [] \<and>
      snd (activate_session_result_wait digest run session user generation message d) = d"
    using activate_cases [OF surjective_pairing, of digest run session user generation message d] assms
    by auto
  moreover have "pause_session_result_wait digest run d = (None, d)"
    using assms by (simp add: pause_session_result_wait_def Let_def)
  moreover have "fst (claim_session_result_wait digest run owner d) = None"
    and "snd (claim_session_result_wait digest run owner d) = d \<or>
       map_option rn_status (run_of run (snd (claim_session_result_wait digest run owner d))) = Some ''interrupted''"
    using assms by (simp_all add: claim_session_result_wait_def Let_def set_run_state_sel)
  ultimately show ?thesis by blast
qed

definition demo_wait :: db where
  "demo_wait = empty_db\<lparr>
     db_runs := [(new_run_row (demo_run ''r1'' ''s1'' []) 1000 0)\<lparr>rn_status := ''paused'',
        rn_user := Some ''u'', rn_metadata := [(''pause_reason'', JStr ''session_results_wait''),
          (''sessionResultWait'', JObj [(''state'', JStr ''scheduled''), (''generation'', JStr ''g''),
             (''messageId'', JStr ''m1''), (''rootUserRevision'', JStr ''v'')])]\<rparr>,
       new_run_row (demo_run ''r0'' ''s1'' []) 500 0],
     db_assignments := [\<lparr>sa_id = ''a1'', sa_root = ''s1'', sa_child = ''s2'', sa_user = ''u'', sa_revision = 1,
        sa_status = ''active'', sa_updated = 0, sa_revoked = None\<rparr>],
     db_coordination := [
       blank_message\<lparr>cm_id := ''q1'', cm_source_session := ''s1'', cm_target_session := ''s2'',
        cm_source_run := Some ''r1'', cm_source_user := Some ''u'', cm_authority := ''project_assignment'',
        cm_state := ''replied''\<rparr>,
       blank_message\<lparr>cm_id := ''m1'', cm_source_session := ''s2'', cm_target_session := ''s1'',
        cm_target_run := Some ''r1'', cm_source_user := Some ''u'', cm_authority := ''project_result'',
        cm_reply_to := Some ''q1'', cm_state := ''promoted'',
        cm_metadata := [(''waitGeneration'', JStr ''g''), (''assignmentId'', JStr ''a1''),
          (''assignmentRevision'', JInt 1)]\<rparr>]\<rparr>"


theorem stale_wait_never_wakes_witness:
  "snd (activate_session_result_wait (\<lambda>_. ''w'') ''r1'' ''s1'' ''u'' ''g'' ''m1'' demo_wait) = demo_wait"
proof -
  obtain r where r: "run_of ''r1'' demo_wait = Some r"
    "\<not> current_revision (\<lambda>_. ''w'') demo_wait r (as_dict (dget (rn_metadata r) ''sessionResultWait''))"
    by (simp add: demo_wait_def empty_db_def new_run_row_def demo_run_def current_revision_def
      session_command_user_revision_def)
  from stale_wait_never_wakes [OF r] show ?thesis by blast
qed

end
