(* ===== verification/Automation.thy ===== *)
theory Automation
  imports EventLog Leases "HOL-Library.List_Lexorder" "HOL-Library.Char_ord" "HOL-Library.Product_Lexorder"
begin

text \<open>
  Automation deliveries (core/database.py): the immutable fan-out of a source event, the claim of
  a delivery by a worker, its transitions, the fenced end of its run, and the reconciliation of
  deliveries whose worker was lost. Fresh run identifiers are a parameter.
\<close>

section \<open>Fan-out\<close>

record delivery_args =
  da_id :: string
  da_kind :: string
  da_definition :: string
  da_revision :: string
  da_run :: string
  da_envelope :: dict
  da_phase :: "delivery_phase option"
  da_error :: "string option"
  da_receipt :: "string option"

datatype automation_error = SourceIdentityConflict | SourceRunConflict | DuplicateDelivery
  | InvalidRunTransition | ReconciliationArguments

definition truthy_text :: "string option \<Rightarrow> bool" where
  "truthy_text x = (case x of None \<Rightarrow> False | Some s \<Rightarrow> s \<noteq> [])"

definition new_delivery_row :: "event_args \<Rightarrow> time \<Rightarrow> delivery_args \<Rightarrow> delivery_rec" where
  "new_delivery_row ev now a =
     \<lparr>ad_id = da_id a, ad_kind = da_kind a, ad_definition = da_definition a, ad_revision = da_revision a,
      ad_event = ea_id ev, ad_session = ea_session ev,
      ad_source_run = (let src = as_text (dget (ea_payload ev) ''sourceRunId'')
                       in if src = [] then ea_run ev else Some src),
      ad_run = da_run a, ad_envelope = da_envelope a,
      ad_phase = (case da_phase a of None \<Rightarrow> DPending | Some p \<Rightarrow> p),
      ad_owner = None, ad_lease = None, ad_available = now, ad_attempts = 0,
      ad_receipt = da_receipt a, ad_error = da_error a, ad_admitted = None, ad_created = now,
      ad_updated = now\<rparr>"

text \<open>The primary key and \<^verbatim>\<open>UNIQUE(source_event_id, definition_kind,
  definition_id)\<close>.\<close>

definition delivery_identity :: "delivery_rec \<Rightarrow> string \<times> string \<times> string" where
  "delivery_identity r = (ad_event r, ad_kind r, ad_definition r)"

fun insert_deliveries ::
  "event_args \<Rightarrow> time \<Rightarrow> delivery_args list \<Rightarrow> delivery_rec list \<Rightarrow> delivery_rec list option" where
  "insert_deliveries ev now [] t = Some t"
| "insert_deliveries ev now (a # as) t =
     (let r = new_delivery_row ev now a
      in if sel_by ad_id (ad_id r) t \<noteq> None \<or> sel_by delivery_identity (delivery_identity r) t \<noteq> None
         then None else insert_deliveries ev now as (t @ [r]))"

definition enqueue_automation_deliveries ::
  "event_args \<Rightarrow> delivery_args list \<Rightarrow> time \<Rightarrow> db \<Rightarrow> (automation_error + delivery_rec list) \<times> db" where
  "enqueue_automation_deliveries ev items now d =
     (let listed = (\<lambda>d. filter (\<lambda>r. ad_event r = ea_id ev) (db_deliveries d))
      in case sel_by ev_id (ea_id ev) (db_events d) of
        Some e \<Rightarrow>
          let original = dget (ev_payload e) ''sourceRunId'';
              declared = dget (ea_payload ev) ''sourceRunId''
          in if ev_session e \<noteq> ea_session ev \<or> \<not> py_eq original declared \<or> ev_topic e \<noteq> ea_topic ev
             then (Inl SourceIdentityConflict, d)
             else if \<not> truthy_text (ev_run e) \<and> truthy_text (ea_run ev)
             then (if \<not> py_eq (JStr (the (ea_run ev))) original then (Inl SourceRunConflict, d)
                   else (Inr (listed d), d\<lparr>db_events := upd_where (\<lambda>x. ev_id x = ea_id ev \<and> ev_run x = None)
                           (\<lambda>x. x\<lparr>ev_run := ea_run ev\<rparr>) (db_events d)\<rparr>))
             else (Inr (listed d), d)
      | None \<Rightarrow>
          let (n, d1) = allocate_runtime_event_seq (ea_session ev) now d;
              row = (new_event_row ev n (ea_payload ev))\<lparr>ev_kind := ''event'',
                       ev_ts := Some (case ea_ts ev of None \<Rightarrow> now | Some t \<Rightarrow> t)\<rparr>
          in (case insert_deliveries ev now items (db_deliveries d) of
               None \<Rightarrow> (Inl DuplicateDelivery, d)
             | Some t \<Rightarrow> let d2 = d1\<lparr>db_events := db_events d @ [row], db_deliveries := t\<rparr>
                         in (Inr (listed d2), d2)))"

section \<open>Listing\<close>

definition page_limit :: "int \<Rightarrow> nat" where
  "page_limit n = nat (max 1 (min n 256))"

definition get_automation_delivery :: "string \<Rightarrow> db \<Rightarrow> delivery_rec option" where
  "get_automation_delivery x d = sel_by ad_id x (db_deliveries d)"

definition page_unknown_automation_deliveries ::
  "(time \<times> string) option \<Rightarrow> int \<Rightarrow> db \<Rightarrow> delivery_rec list" where
  "page_unknown_automation_deliveries after limit d =
     take (page_limit limit) (sort_key (\<lambda>r. (ad_created r, ad_id r))
       (filter (\<lambda>r. ad_phase r = DUnknown \<and>
          (case after of None \<Rightarrow> True | Some c \<Rightarrow> c < (ad_created r, ad_id r))) (db_deliveries d)))"

definition list_automation_deliveries :: "delivery_phase list \<Rightarrow> int \<Rightarrow> db \<Rightarrow> delivery_rec list" where
  "list_automation_deliveries phases limit d =
     (if phases = [] then []
      else take (page_limit limit) (sort_key (\<lambda>r. (ad_available r, ad_id r))
             (filter (\<lambda>r. ad_phase r \<in> set phases) (db_deliveries d))))"

definition list_automation_terminal_sources :: "string \<Rightarrow> int \<Rightarrow> db \<Rightarrow> run_rec list" where
  "list_automation_terminal_sources after limit d =
     take (page_limit limit) (sort_key rn_id (filter (\<lambda>r. after < rn_id r \<and> rn_type r = ''chat''
        \<and> rn_status r \<in> set terminal_statuses) (db_runs d)))"

definition find_automation_source_runs :: "string \<Rightarrow> string \<Rightarrow> db \<Rightarrow> run_rec list" where
  "find_automation_source_runs source target d =
     take 32 (sort_key rn_started (filter (\<lambda>r. rn_type r = ''automation''
        \<and> (let kw = as_dict (dget (rn_metadata r) ''kwargs'')
           in dget kw ''parent_run_id'' = JStr source \<and> dget kw ''automation_delivery_id'' = JNull
              \<and> dget kw ''event_name'' = JStr ''on_chat_end'')
        \<and> dget (rn_metadata r) ''action_target'' = JStr target) (db_runs d)))"

definition get_automation_execution_receipts :: "string \<Rightarrow> db \<Rightarrow> receipt list" where
  "get_automation_execution_receipts run d =
     take 32 (filter (\<lambda>r. rc_run r = Some run \<and> rc_effect_kind r = ''automation.trigger_execution'')
       (db_receipts d))"

section \<open>Claiming\<close>

definition set_deliveries :: "(delivery_rec list \<Rightarrow> delivery_rec list) \<Rightarrow> db \<Rightarrow> db" where
  "set_deliveries f d = d\<lparr>db_deliveries := f (db_deliveries d)\<rparr>"

text \<open>A recovered attempt gets a new run identity, in the row and in the envelope.\<close>

definition claimed_delivery_row :: "string \<Rightarrow> string \<Rightarrow> time \<Rightarrow> time \<Rightarrow> delivery_rec \<Rightarrow> delivery_rec" where
  "claimed_delivery_row owner uuid lease now r =
     (let fresh = ''automation-'' @ uuid; again = (ad_attempts r \<noteq> 0)
      in r\<lparr>ad_phase := DClaimed, ad_owner := Some owner, ad_lease := Some lease,
           ad_run := (if again then fresh else ad_run r),
           ad_envelope := (if again then dset ''kwargs'' (JObj (dset ''run_id'' (JStr fresh)
                               (as_dict (dget (ad_envelope r) ''kwargs'')))) (ad_envelope r)
                           else ad_envelope r),
           ad_receipt := None, ad_attempts := ad_attempts r + 1, ad_updated := now\<rparr>)"

definition closed_delivery_row :: "delivery_phase \<Rightarrow> time \<Rightarrow> delivery_rec \<Rightarrow> delivery_rec" where
  "closed_delivery_row ph now r = r\<lparr>ad_phase := ph, ad_updated := now\<rparr>"

definition claim_automation_delivery ::
  "string \<Rightarrow> string \<Rightarrow> int \<Rightarrow> string \<Rightarrow> time \<Rightarrow> db \<Rightarrow> delivery_rec option \<times> db" where
  "claim_automation_delivery x owner seconds uuid now d =
     (case delivery_of x d of
        None \<Rightarrow> (None, d)
      | Some r \<Rightarrow>
          if ad_phase r \<noteq> DPending \<or> now < ad_available r then (None, d)
          else
            let status = map_option rn_status (run_of (ad_run r) d)
            in if status \<in> {Some ''cancelled'', Some ''completed''}
               then (None, set_deliveries (upd_where (\<lambda>q. ad_id q = x)
                      (closed_delivery_row (if status = Some ''cancelled'' then DCancelled else DUnknown) now)) d)
               else
                 let d' = set_deliveries (upd_where (\<lambda>q. ad_id q = x \<and> ad_phase q = DPending)
                            (claimed_delivery_row owner uuid (now + 1000 * seconds) now)) d
                 in (delivery_of x d', d'))"

section \<open>Transitions\<close>

definition automation_delivery_binding_conflict ::
  "delivery_rec option \<Rightarrow> delivery_rec \<Rightarrow> string option" where
  "automation_delivery_binding_conflict current expected =
     (case current of
        None \<Rightarrow> Some ''delivery_binding_changed''
      | Some c \<Rightarrow>
          if ad_kind c \<noteq> ad_kind expected \<or> ad_definition c \<noteq> ad_definition expected
             \<or> ad_revision c \<noteq> ad_revision expected \<or> ad_run c \<noteq> ad_run expected
             \<or> ad_attempts c \<noteq> ad_attempts expected \<or> ad_receipt c \<noteq> ad_receipt expected
          then Some ''delivery_binding_changed''
          else if list_ex (\<lambda>k. \<not> py_eq (dget (ad_envelope c) k) (dget (ad_envelope expected) k))
                    [''target'', ''action_type'', ''payload'', ''kwargs'']
          then Some ''delivery_target_changed''
          else None)"

definition delivery_receipt :: "delivery_rec \<Rightarrow> db \<Rightarrow> receipt option" where
  "delivery_receipt r d = (case ad_receipt r of None \<Rightarrow> None
     | Some k \<Rightarrow> if k = [] then None else receipt_of k d)"

definition same_receipt :: "receipt option \<Rightarrow> receipt option \<Rightarrow> bool" where
  "same_receipt a b = (case (a, b) of
     (None, None) \<Rightarrow> True
   | (Some x, Some y) \<Rightarrow> rc_state x = rc_state y \<and> rc_owner x = rc_owner y \<and> rc_run x = rc_run y
                          \<and> rc_session x = rc_session y
   | _ \<Rightarrow> False)"

definition leased_phases :: "delivery_phase list" where
  "leased_phases = [DClaimed, DAdmitted, DExecuting]"

record transition_args =
  ta_delivery :: string
  ta_owner :: string
  ta_expected :: "delivery_phase list"
  ta_phase :: delivery_phase
  ta_error :: "string option"
  ta_receipt :: "string option"
  ta_retry_delay :: int
  ta_binding :: "delivery_rec option"
  ta_expected_receipt :: "receipt option"

definition transitioned_row :: "transition_args \<Rightarrow> time \<Rightarrow> delivery_rec \<Rightarrow> delivery_rec" where
  "transitioned_row a now r =
     r\<lparr>ad_phase := ta_phase a, ad_error := ta_error a, ad_receipt := coalesce (ta_receipt a) (ad_receipt r),
       ad_admitted := (if ta_phase a = DAdmitted then Some now else ad_admitted r),
       ad_available := (if ta_phase a = DPending then now + 1000 * ta_retry_delay a else ad_available r),
       ad_updated := now,
       ad_lease := (if ta_phase a \<in> set leased_phases then Some (now + 30000) else None)\<rparr>"

definition binding_holds :: "transition_args \<Rightarrow> db \<Rightarrow> bool" where
  "binding_holds a d = (case ta_binding a of
     None \<Rightarrow> True
   | Some b \<Rightarrow> (case delivery_of (ta_delivery a) d of
        None \<Rightarrow> False
      | Some r \<Rightarrow> automation_delivery_binding_conflict (Some r) b = None
                   \<and> same_receipt (delivery_receipt r d) (ta_expected_receipt a)))"

definition transition_automation_delivery :: "transition_args \<Rightarrow> time \<Rightarrow> db \<Rightarrow> bool \<times> db" where
  "transition_automation_delivery a now d =
     (let row = delivery_of (ta_delivery a) d;
          status = (case row of None \<Rightarrow> None | Some r \<Rightarrow> map_option rn_status (run_of (ad_run r) d))
      in if \<not> binding_holds a d then (False, d)
         else if ta_phase a \<in> {DAdmitted, DExecuting} \<and> status \<in> {Some ''cancelled'', Some ''completed''}
         then (False, d)
         else (case update_row ad_id (ta_delivery a)
                 (\<lambda>r. ad_owner r = Some (ta_owner a) \<and> ad_phase r \<in> set (ta_expected a))
                 (transitioned_row a now) (db_deliveries d)
               of (ok, t) \<Rightarrow> (ok, d\<lparr>db_deliveries := t\<rparr>)))"

definition cancelled_delivery_row :: "string \<Rightarrow> time \<Rightarrow> delivery_rec \<Rightarrow> delivery_rec" where
  "cancelled_delivery_row reason now r =
     r\<lparr>ad_phase := DCancelled, ad_error := Some reason, ad_lease := None, ad_updated := now\<rparr>"

definition cancel_automation_delivery :: "string \<Rightarrow> string \<Rightarrow> time \<Rightarrow> db \<Rightarrow> bool \<times> db" where
  "cancel_automation_delivery x reason now d =
     (case update_row ad_id x (\<lambda>r. ad_phase r \<in> {DPending, DClaimed, DBlocked})
        (cancelled_delivery_row reason now) (db_deliveries d)
      of (ok, t) \<Rightarrow> (ok, d\<lparr>db_deliveries := t\<rparr>))"

definition renewed_row :: "time \<Rightarrow> time \<Rightarrow> delivery_rec \<Rightarrow> delivery_rec" where
  "renewed_row lease now r = r\<lparr>ad_lease := Some lease, ad_updated := now\<rparr>"

definition renew_automation_delivery :: "string \<Rightarrow> string \<Rightarrow> int \<Rightarrow> time \<Rightarrow> db \<Rightarrow> bool \<times> db" where
  "renew_automation_delivery x owner seconds now d =
     (case update_row ad_id x (\<lambda>r. ad_owner r = Some owner \<and> ad_phase r \<in> set leased_phases)
        (renewed_row (now + 1000 * seconds) now) (db_deliveries d)
      of (ok, t) \<Rightarrow> (ok, d\<lparr>db_deliveries := t\<rparr>))"

section \<open>Ending a run\<close>

datatype run_transition =
    RunMoved run_rec string string
  | RunKept string

definition run_binding_matches :: "delivery_rec \<Rightarrow> run_rec \<Rightarrow> bool" where
  "run_binding_matches c r \<longleftrightarrow>
     rn_type r = ''automation''
     \<and> dget (as_dict (dget (ad_envelope c) ''kwargs'')) ''session_id'' = JStr (rn_session r)
     \<and> py_eq (dget (rn_metadata r) ''action_target'') (dget (ad_envelope c) ''target'')
     \<and> py_eq (dget (rn_metadata r) ''action_type'') (dget (ad_envelope c) ''action_type'')
     \<and> dget (as_dict (dget (rn_metadata r) ''kwargs'')) ''automation_delivery_id'' = JStr (ad_id c)"

text \<open>The receipt counts for the caller only when the caller owns it for this run and session.\<close>

definition receipt_owned :: "string option \<Rightarrow> run_rec \<Rightarrow> receipt option \<Rightarrow> bool" where
  "receipt_owned owner r receipt = (case receipt of None \<Rightarrow> False
     | Some x \<Rightarrow> truthy_text owner \<and> rc_owner x = owner \<and> rc_run x = Some (rn_id r) \<and> rc_session x = rn_session r)"

definition receipt_in :: "effect_state list \<Rightarrow> receipt option \<Rightarrow> bool" where
  "receipt_in states receipt = (case receipt of None \<Rightarrow> False | Some x \<Rightarrow> rc_state x \<in> set states)"

definition unproven_end :: "string \<Rightarrow> delivery_rec \<Rightarrow> bool \<Rightarrow> receipt option \<Rightarrow> bool" where
  "unproven_end status c owned receipt =
     (let keyed_receipt = truthy_text (ad_receipt c);
          before = (status = ''cancelled'' \<and> ad_phase c \<noteq> DExecuting \<and> (\<not> keyed_receipt \<or> owned))
      in (status = ''completed'' \<and> (\<not> owned \<or> \<not> receipt_in [Completed] receipt))
         \<or> (keyed_receipt \<and> \<not> before \<and> (\<not> owned \<or> \<not> receipt_in [Completed, Failed] receipt))
         \<or> (status = ''cancelled'' \<and> ad_phase c = DExecuting))"

definition receipt_phase :: "receipt option \<Rightarrow> delivery_phase" where
  "receipt_phase receipt = (case receipt of None \<Rightarrow> DUnknown
     | Some x \<Rightarrow> (case rc_state x of Completed \<Rightarrow> DCompleted | Failed \<Rightarrow> DFailed | _ \<Rightarrow> DUnknown))"

definition unproven_row :: "receipt option \<Rightarrow> time \<Rightarrow> delivery_rec \<Rightarrow> delivery_rec" where
  "unproven_row receipt now r =
     r\<lparr>ad_phase := receipt_phase receipt, ad_owner := None, ad_lease := None,
       ad_error := Some ''automation_worker_termination_unproven'', ad_updated := now\<rparr>"

definition recovery_marker :: "delivery_rec \<Rightarrow> run_rec \<Rightarrow> string option \<Rightarrow> json" where
  "recovery_marker c r reason = JObj
     [(''state'', JStr ''waiting''), (''deliveryId'', JStr (ad_id c)), (''executionRunId'', JStr (rn_id r)),
      (''reason'', case reason of None \<Rightarrow> JNull | Some x \<Rightarrow> JStr x),
      (''processTermination'', JStr ''unproven''), (''recoveryRequired'', JBool True)]"

definition ended_run_row :: "string \<Rightarrow> dict \<Rightarrow> string option \<Rightarrow> time \<Rightarrow> run_rec \<Rightarrow> run_rec" where
  "ended_run_row status meta error now r =
     (let terminal = status \<in> {''completed'', ''failed'', ''cancelled''}
      in r\<lparr>rn_status := status, rn_metadata := meta,
           rn_error := (if terminal then (if truthy_text error then error else rn_error r) else None),
           rn_finished := (if terminal then Some now else None)\<rparr>)"

text \<open>The common end of the transaction: write the run, cancel its human actions when it
  failed or was cancelled.\<close>

definition finish_transition ::
  "delivery_rec \<Rightarrow> run_rec \<Rightarrow> string \<Rightarrow> string option \<Rightarrow> string option \<Rightarrow> time \<Rightarrow> db \<Rightarrow> run_transition \<times> db" where
  "finish_transition c r status reason error now d =
     (let waiting = (status = ''waiting_external_tool'');
          meta = (if waiting \<and> map_of (rn_metadata r) ''automationRecovery'' = None
                  then dset ''automationRecovery'' (recovery_marker c r reason) (rn_metadata r)
                  else rn_metadata r);
          row = ended_run_row status meta error now r;
          d1 = d\<lparr>db_runs := upd_where (\<lambda>x. rn_id x = rn_id r) (ended_run_row status meta error now) (db_runs d)\<rparr>;
          d2 = (if status \<in> {''failed'', ''cancelled''}
                then cancel_pending_human_actions_for_run (rn_id r) now d1 else d1)
      in (RunMoved row (rn_status r) status, d2))"

definition transition_automation_run ::
  "delivery_rec \<Rightarrow> string \<Rightarrow> string option \<Rightarrow> string option \<Rightarrow> string option \<Rightarrow> string option \<Rightarrow> time \<Rightarrow> db \<Rightarrow>
     (automation_error + run_transition) \<times> db" where
  "transition_automation_run item status owner receipt_owner error reason now d =
     (if status \<notin> {''waiting_external_tool'', ''completed'', ''failed'', ''cancelled''}
      then (Inl InvalidRunTransition, d)
      else
        let current = delivery_of (ad_id item) d
        in case automation_delivery_binding_conflict current item of
          Some why \<Rightarrow> (Inr (RunKept why), d)
        | None \<Rightarrow>
            let c = the current
            in (case run_of (ad_run c) d of
                None \<Rightarrow> (Inr (RunKept ''run_binding_changed''), d)
              | Some r \<Rightarrow>
                  let waiting = (status = ''waiting_external_tool'')
                  in if \<not> run_binding_matches c r then (Inr (RunKept ''run_binding_changed''), d)
                     else if rn_status r \<notin> set ([''queued'', ''running''] @
                               (if waiting then [''waiting_external_tool''] else []))
                     then (Inr (RunKept ''run_status_changed''), d)
                     else if waiting
                     then (if ad_phase c \<notin> {DUnknown, DCompleted, DFailed}
                           then (Inr (RunKept ''delivery_not_unknown''), d)
                           else if rn_status r = status \<and> truthy (dget (rn_metadata r) ''automationRecovery'')
                           then (Inr (RunKept ''already_waiting''), d)
                           else map_prod Inr id (finish_transition c r status reason error now d))
                     else if \<not> truthy_text owner \<or> ad_owner c \<noteq> owner
                             \<or> truthy (dget (ad_envelope c) ''reconciliation'')
                             \<or> ad_phase c \<notin> set (leased_phases @ [DBlocked] @
                                  (if status = ''cancelled'' then [DCancelled] else []))
                     then (Inr (RunKept ''execution_owner_lost''), d)
                     else
                       let receipt = delivery_receipt c d;
                           owned = receipt_owned receipt_owner r receipt
                       in if unproven_end status c owned receipt
                          then map_prod Inr id (finish_transition c r ''waiting_external_tool''
                                 (Some ''automation_worker_termination_unproven'') error now
                                 (set_deliveries (upd_where (\<lambda>q. ad_id q = ad_id c) (unproven_row receipt now)) d))
                          else map_prod Inr id (finish_transition c r status reason error now d)))"

section \<open>Reconciliation\<close>

text \<open>One lost or unknown delivery: its next phase with the reason.\<close>

definition reconciled_phase :: "delivery_rec \<Rightarrow> db \<Rightarrow> delivery_phase \<times> string" where
  "reconciled_phase row d =
     (let receipt = delivery_receipt row d
      in if receipt_in [Completed] receipt then (DCompleted, ''receipt_completed'')
         else if map_option rn_status (run_of (ad_run row) d) = Some ''cancelled''
         then (DCancelled, ''execution_cancelled'')
         else if receipt_in [Failed] receipt then (DFailed, ''receipt_failed'')
         else if ad_phase row \<in> {DExecuting, DUnknown}
         then (DUnknown, ''external_outcome_requires_reconciliation'')
         else (DPending, ''pre_execution_owner_lost''))"

definition lost_receipt_row :: "effect_state \<Rightarrow> string \<Rightarrow> time \<Rightarrow> receipt \<Rightarrow> receipt" where
  "lost_receipt_row st why now x =
     x\<lparr>rc_state := st, rc_owner := None, rc_lease := None, rc_error := Some why, rc_updated := now\<rparr>"

definition reconciled_receipts :: "delivery_rec \<Rightarrow> time \<Rightarrow> db \<Rightarrow> receipt list" where
  "reconciled_receipts row now d =
     (case reconciled_phase row d of
        (DUnknown, why) \<Rightarrow>
          if receipt_in [Claimed] (delivery_receipt row d)
          then upd_where (\<lambda>x. Some (rc_key x) = ad_receipt row \<and> rc_state x = Claimed)
                 (lost_receipt_row Indeterminate why now) (db_receipts d)
          else db_receipts d
      | (DPending, why) \<Rightarrow>
          upd_where (\<lambda>x. rc_run x = Some (ad_run row) \<and> rc_effect_kind x = ''automation.trigger_execution''
                         \<and> rc_state x = Claimed)
            (lost_receipt_row Failed ''automation_not_started'' now) (db_receipts d)
      | _ \<Rightarrow> db_receipts d)"

definition reconciled_delivery_row :: "delivery_phase \<Rightarrow> string \<Rightarrow> time \<Rightarrow> delivery_rec \<Rightarrow> delivery_rec" where
  "reconciled_delivery_row ph why now r =
     r\<lparr>ad_phase := ph, ad_owner := None, ad_lease := None, ad_available := now, ad_error := Some why,
       ad_updated := now\<rparr>"

definition reconcile_row :: "time \<Rightarrow> delivery_rec \<Rightarrow> db \<Rightarrow> db" where
  "reconcile_row now row d =
     (case reconciled_phase row d of (ph, why) \<Rightarrow>
        d\<lparr>db_receipts := reconciled_receipts row now d,
          db_deliveries := upd_where (\<lambda>r. ad_id r = ad_id row) (reconciled_delivery_row ph why now)
            (db_deliveries d)\<rparr>)"

definition reconcilable :: "time \<Rightarrow> delivery_rec \<Rightarrow> bool" where
  "reconcilable now r \<longleftrightarrow>
     (ad_phase r \<in> set leased_phases \<and> at_or_before (ad_lease r) now) \<or> ad_phase r = DUnknown"

definition reconcile_rows :: "int \<Rightarrow> time \<Rightarrow> db \<Rightarrow> delivery_rec list" where
  "reconcile_rows limit now d = take (page_limit limit)
     (sort_key (\<lambda>r. (ad_available r, ad_id r)) (filter (reconcilable now) (db_deliveries d)))"

fun reconcile_each :: "time \<Rightarrow> delivery_rec list \<Rightarrow> db \<Rightarrow> (string \<times> delivery_phase \<times> string) list \<times> db" where
  "reconcile_each now [] d = ([], d)"
| "reconcile_each now (row # rows) d =
     (let (ph, why) = reconciled_phase row d;
          changed = (if ph \<noteq> ad_phase row \<or> Some why \<noteq> ad_error row then [(ad_id row, ph, why)] else []);
          (rest, d') = reconcile_each now rows (reconcile_row now row d)
      in (changed @ rest, d'))"

definition reconcile_automation_deliveries ::
  "int \<Rightarrow> time \<Rightarrow> db \<Rightarrow> (string \<times> delivery_phase \<times> string) list \<times> db" where
  "reconcile_automation_deliveries limit now d = reconcile_each now (reconcile_rows limit now d) d"

definition evidenced_row :: "bool \<Rightarrow> dict \<Rightarrow> time \<Rightarrow> delivery_rec \<Rightarrow> delivery_rec" where
  "evidenced_row ok evidence now r =
     r\<lparr>ad_phase := (if ok then DCompleted else DFailed),
       ad_envelope := dset ''reconciliation'' (JObj [(''outcome'', JStr (if ok then ''completed'' else ''failed'')),
          (''evidence'', JObj evidence), (''at'', JInt now)]) (ad_envelope r),
       ad_error := None, ad_updated := now\<rparr>"

definition reconcile_automation_delivery ::
  "string \<Rightarrow> string \<Rightarrow> dict \<Rightarrow> time \<Rightarrow> db \<Rightarrow> (automation_error + bool) \<times> db" where
  "reconcile_automation_delivery x outcome evidence now d =
     (if outcome \<notin> {''completed'', ''failed''} \<or> evidence = [] then (Inl ReconciliationArguments, d)
      else case try_update ad_id x (\<lambda>r. ad_phase r = DUnknown)
             (evidenced_row (outcome = ''completed'') evidence now) (db_deliveries d)
        of (ok, t) \<Rightarrow> (Inr ok, d\<lparr>db_deliveries := t\<rparr>))"

section \<open>Well-formed deliveries\<close>

definition deliveries_wf :: "db \<Rightarrow> bool" where
  "deliveries_wf d \<longleftrightarrow> keyed ad_id (db_deliveries d) \<and>
     (\<forall>r \<in> set (db_deliveries d). ad_phase r \<in> set leased_phases \<longrightarrow>
        (\<exists>w e. ad_owner r = Some w \<and> ad_lease r = Some e))"

lemma delivery_row_simps [simp]:
  "ad_id (claimed_delivery_row w u e now r) = ad_id r"
  "ad_phase (claimed_delivery_row w u e now r) = DClaimed"
  "ad_owner (claimed_delivery_row w u e now r) = Some w" "ad_lease (claimed_delivery_row w u e now r) = Some e"
  "ad_id (closed_delivery_row ph now r) = ad_id r" "ad_phase (closed_delivery_row ph now r) = ph"
  "ad_id (transitioned_row a now r) = ad_id r" "ad_phase (transitioned_row a now r) = ta_phase a"
  "ad_owner (transitioned_row a now r) = ad_owner r"
  "ad_lease (transitioned_row a now r) = (if ta_phase a \<in> set leased_phases then Some (now + 30000) else None)"
  "ad_id (cancelled_delivery_row why now r) = ad_id r" "ad_phase (cancelled_delivery_row why now r) = DCancelled"
  "ad_id (renewed_row e now r) = ad_id r" "ad_phase (renewed_row e now r) = ad_phase r"
  "ad_owner (renewed_row e now r) = ad_owner r" "ad_lease (renewed_row e now r) = Some e"
  "ad_id (unproven_row x now r) = ad_id r" "ad_phase (unproven_row x now r) = receipt_phase x"
  "ad_owner (unproven_row x now r) = None"
  "ad_id (reconciled_delivery_row ph why now r) = ad_id r"
  "ad_phase (reconciled_delivery_row ph why now r) = ph"
  "ad_id (evidenced_row ok ev now r) = ad_id r"
  "ad_phase (evidenced_row ok ev now r) = (if ok then DCompleted else DFailed)"
  by (simp_all add: claimed_delivery_row_def closed_delivery_row_def transitioned_row_def
    cancelled_delivery_row_def renewed_row_def unproven_row_def reconciled_delivery_row_def
    evidenced_row_def Let_def)

lemma leased_phase_simps [simp]:
  "DClaimed \<in> set leased_phases" "DAdmitted \<in> set leased_phases" "DExecuting \<in> set leased_phases"
  "DPending \<notin> set leased_phases" "DBlocked \<notin> set leased_phases" "DUnknown \<notin> set leased_phases"
  "DCompleted \<notin> set leased_phases" "DFailed \<notin> set leased_phases" "DCancelled \<notin> set leased_phases"
  by (simp_all add: leased_phases_def)

lemma receipt_phase_not_leased [simp]: "receipt_phase x \<notin> set leased_phases"
  by (simp add: receipt_phase_def split: option.splits effect_state.splits)

lemma reconciled_phase_not_leased: "fst (reconciled_phase row d) \<notin> set leased_phases"
  by (simp add: reconciled_phase_def Let_def)

text \<open>An update of deliveries keeps the invariant when the rows it writes do.\<close>

lemma deliveries_wf_upd:
  assumes "deliveries_wf d" and "db_deliveries d' = upd_where P f (db_deliveries d)"
    and "\<And>r. ad_id (f r) = ad_id r"
    and "\<And>r. r \<in> set (db_deliveries d) \<Longrightarrow> P r \<Longrightarrow> ad_phase (f r) \<in> set leased_phases \<Longrightarrow>
           \<exists>w e. ad_owner (f r) = Some w \<and> ad_lease (f r) = Some e"
  shows "deliveries_wf d'"
  unfolding deliveries_wf_def assms(2) keyed_upd_where [of ad_id, OF assms(3)] set_upd_where
proof (intro conjI ballI impI)
  show "keyed ad_id (db_deliveries d)" using assms(1) by (simp add: deliveries_wf_def)
  fix r assume "r \<in> (\<lambda>r. if P r then f r else r) ` set (db_deliveries d)" "ad_phase r \<in> set leased_phases"
  then obtain q where "q \<in> set (db_deliveries d)" "r = (if P q then f q else q)" by blast
  with assms(1,4) \<open>ad_phase r \<in> set leased_phases\<close>
  show "\<exists>w e. ad_owner r = Some w \<and> ad_lease r = Some e"
    by (cases "P q") (simp_all add: deliveries_wf_def)
qed

datatype automation_op =
    OTransition transition_args
  | OCancel string string
  | ORenew string string int
  | OReconcileAll int
  | OReconcile string string dict
  | OEndRun delivery_rec string "string option" "string option" "string option" "string option"

fun automation_step :: "automation_op \<Rightarrow> time \<Rightarrow> db \<Rightarrow> db" where
  "automation_step (OTransition a) now d = snd (transition_automation_delivery a now d)"
| "automation_step (OCancel x why) now d = snd (cancel_automation_delivery x why now d)"
| "automation_step (ORenew x w n) now d = snd (renew_automation_delivery x w n now d)"
| "automation_step (OReconcileAll l) now d = snd (reconcile_automation_deliveries l now d)"
| "automation_step (OReconcile x oc ev) now d = snd (reconcile_automation_delivery x oc ev now d)"
| "automation_step (OEndRun item st w rw err why) now d =
     snd (transition_automation_run item st w rw err why now d)"

text \<open>The deliveries an operation may touch while their lease runs: reconciliation touches
  none.\<close>

fun automation_targets :: "automation_op \<Rightarrow> string set" where
  "automation_targets (OTransition a) = {ta_delivery a}"
| "automation_targets (OCancel x why) = {x}"
| "automation_targets (ORenew x w n) = {x}"
| "automation_targets (OReconcileAll l) = {}"
| "automation_targets (OReconcile x oc ev) = {}"
| "automation_targets (OEndRun item st w rw err why) = {ad_id item}"

record claim_args =
  cl_delivery :: string
  cl_owner :: string
  cl_seconds :: nat
  cl_uuid :: string

definition automation_grant :: "claim_args \<Rightarrow> time \<Rightarrow> db \<Rightarrow> string option \<times> db" where
  "automation_grant a now d =
     (case claim_automation_delivery (cl_delivery a) (cl_owner a) (int (cl_seconds a) + 1) (cl_uuid a) now d of
        (r, d') \<Rightarrow> (map_option ad_id r, d'))"

definition automation_lease :: "db \<Rightarrow> string \<Rightarrow> (string \<times> time) option" where
  "automation_lease d k = (case delivery_of k d of
     None \<Rightarrow> None
   | Some r \<Rightarrow> if ad_phase r \<in> set leased_phases
               then (case (ad_owner r, ad_lease r) of (Some w, Some e) \<Rightarrow> Some (w, e) | _ \<Rightarrow> None)
               else None)"

subsection \<open>The run transition and the deliveries\<close>

lemma finish_transition_deliveries [simp]:
  "db_deliveries (snd (finish_transition c r st why err now d)) = db_deliveries d"
  by (simp add: finish_transition_def Let_def cancel_pending_human_actions_for_run_def)

lemma end_run_deliveries:
  "db_deliveries (snd (transition_automation_run item st w rw err why now d)) = db_deliveries d \<or>
   (\<exists>receipt. db_deliveries (snd (transition_automation_run item st w rw err why now d)) =
      upd_where (\<lambda>q. ad_id q = ad_id item) (unproven_row receipt now) (db_deliveries d))"
proof (cases "delivery_of (ad_id item) d")
  case None
  then show ?thesis by (simp add: transition_automation_run_def automation_delivery_binding_conflict_def)
next
  case (Some c)
  have id: "ad_id c = ad_id item" using Some by (rule sel_by_key)
  show ?thesis
  proof (cases "run_of (ad_run c) d")
    case None
    then show ?thesis
      by (simp add: transition_automation_run_def Some Let_def split: option.split)
  next
    case (Some r)
    have "db_deliveries (snd (map_prod Inr id (finish_transition c r st why err now d'))) = db_deliveries d'"
      for st why err d' by simp
    then show ?thesis using \<open>delivery_of (ad_id item) d = Some c\<close> Some id
      by (cases "automation_delivery_binding_conflict (Some c) item")
        (simp_all add: transition_automation_run_def Let_def set_deliveries_def, blast?)
  qed
qed

subsection \<open>Reconciliation and the deliveries\<close>

lemma reconcile_row_sel:
  "delivery_of k (reconcile_row now row d) = (if k = ad_id row
     then map_option (reconciled_delivery_row (fst (reconciled_phase row d)) (snd (reconciled_phase row d)) now)
       (delivery_of k d) else delivery_of k d)"
  by (simp add: reconcile_row_def sel_upd_key0 split_beta)

lemma reconcile_row_wf: "deliveries_wf d \<Longrightarrow> deliveries_wf (reconcile_row now row d)"
  by (rule deliveries_wf_upd [of d _ "\<lambda>r. ad_id r = ad_id row"
        "reconciled_delivery_row (fst (reconciled_phase row d)) (snd (reconciled_phase row d)) now"])
    (use reconciled_phase_not_leased [of row d] in \<open>simp_all add: reconcile_row_def split_beta\<close>)

lemma reconcile_each_snd:
  "snd (reconcile_each now (row # rows) d) = snd (reconcile_each now rows (reconcile_row now row d))"
  by (simp add: Let_def split_beta)

lemma reconcile_each_wf: "deliveries_wf d \<Longrightarrow> deliveries_wf (snd (reconcile_each now rows d))"
proof (induction rows arbitrary: d)
  case (Cons row rows)
  show ?case unfolding reconcile_each_snd by (rule Cons.IH) (rule reconcile_row_wf [OF Cons.prems])
qed simp

lemma reconcile_each_frame:
  "k \<notin> ad_id ` set rows \<Longrightarrow> delivery_of k (snd (reconcile_each now rows d)) = delivery_of k d"
proof (induction rows arbitrary: d)
  case (Cons row rows)
  then show ?case unfolding reconcile_each_snd by (simp add: reconcile_row_sel)
qed simp

lemma reconcile_rows_in:
  "row \<in> set (reconcile_rows limit now d) \<Longrightarrow> row \<in> set (db_deliveries d) \<and> reconcilable now row"
  by (auto simp: reconcile_rows_def dest: in_set_takeD)

lemma live_not_reconciled:
  assumes "deliveries_wf d" and "live (automation_lease d k) now"
  shows "k \<notin> ad_id ` set (reconcile_rows limit now d)"
proof
  assume "k \<in> ad_id ` set (reconcile_rows limit now d)"
  then obtain row where row: "row \<in> set (db_deliveries d)" "reconcilable now row" "ad_id row = k"
    using reconcile_rows_in by blast
  then have "delivery_of k d = Some row"
    using assms(1) keyed_sel_iff unfolding deliveries_wf_def by metis
  then show False using assms(2) row(2)
    by (auto simp: automation_lease_def reconcilable_def split: if_splits option.splits)
qed

section \<open>Deliveries as a lease queue\<close>

lemma claim_delivery_cases:
  assumes "deliveries_wf d" and "claim_automation_delivery x w n u now d = (res, d')"
  shows "(res = None \<and> d' = d) \<or>
    (\<exists>r ph. delivery_of x d = Some r \<and> ad_phase r = DPending \<and> res = None \<and> ph \<in> {DCancelled, DUnknown} \<and>
       d' = set_deliveries (upd_where (\<lambda>q. ad_id q = x) (closed_delivery_row ph now)) d) \<or>
    (\<exists>r. delivery_of x d = Some r \<and> ad_phase r = DPending \<and> ad_available r \<le> now \<and>
       res = Some (claimed_delivery_row w u (now + 1000 * n) now r) \<and>
       d' = set_deliveries (upd_where (\<lambda>q. ad_id q = x \<and> ad_phase q = DPending)
              (claimed_delivery_row w u (now + 1000 * n) now)) d)"
  using assms(2)
  by (auto simp: claim_automation_delivery_def Let_def set_deliveries_def sel_upd_key
      split: option.splits if_splits)

lemma claim_delivery_sel:
  assumes "deliveries_wf d" and "claim_automation_delivery x w n u now d = (res, d')"
  shows "k \<noteq> x \<Longrightarrow> delivery_of k d' = delivery_of k d"
    and "delivery_of x d' = (case res of Some r \<Rightarrow> Some r | None \<Rightarrow> delivery_of x d') "
    and "res = Some r \<Longrightarrow> delivery_of x d' = Some r \<and> (\<exists>q. delivery_of x d = Some q \<and> ad_phase q = DPending \<and>
           r = claimed_delivery_row w u (now + 1000 * n) now q)"
    and "ad_phase r \<noteq> DPending \<Longrightarrow> delivery_of x d = Some r \<Longrightarrow> d' = d"
  using claim_delivery_cases [OF assms]
  by (auto simp: set_deliveries_def sel_upd_key sel_upd_key0 split: option.splits)

lemma claim_delivery_wf:
  assumes "deliveries_wf d"
  shows "deliveries_wf (snd (claim_automation_delivery x w n u now d))"
proof -
  have upd: "deliveries_wf (set_deliveries (upd_where P f) d)"
    if "\<And>r. ad_id (f r) = ad_id r" "\<And>r. ad_phase (f r) \<in> set leased_phases \<Longrightarrow>
      \<exists>w e. ad_owner (f r) = Some w \<and> ad_lease (f r) = Some e" for P f
    by (rule deliveries_wf_upd [OF assms, where P = P and f = f])
      (use that in \<open>simp_all add: set_deliveries_def\<close>)
  show ?thesis
    using claim_delivery_cases [OF assms surjective_pairing, of x w n u now]
    by (elim disjE exE conjE) (use assms in \<open>auto intro!: upd\<close>)
qed

lemma automation_step_wf:
  assumes "deliveries_wf d"
  shows "deliveries_wf (automation_step b now d)"
proof (cases b)
  case (OTransition a)
  have "\<exists>w e. ad_owner r = Some w \<and> True" if "ad_owner r = Some (ta_owner a)" for r using that by simp
  then show ?thesis
    by (auto simp: OTransition transition_automation_delivery_def Let_def split_beta update_row_def assms
        intro!: deliveries_wf_upd [OF assms])
next
  case (OReconcileAll l)
  then show ?thesis by (simp add: reconcile_automation_deliveries_def reconcile_each_wf assms)
next
  case (OEndRun item st w rw err why)
  then show ?thesis
    using end_run_deliveries [of item st w rw err why now d] assms
    by (auto simp: deliveries_wf_def keyed_upd_where set_upd_where)
qed (auto simp: cancel_automation_delivery_def renew_automation_delivery_def
      reconcile_automation_delivery_def split_beta update_row_def try_update_def assms
      intro!: deliveries_wf_upd [OF assms])

lemma automation_step_frame:
  assumes "deliveries_wf d" and "k \<notin> automation_targets b" and "live (automation_lease d k) now"
  shows "delivery_of k (automation_step b now d) = delivery_of k d"
proof (cases b)
  case (OReconcileAll l)
  then show ?thesis
    by (simp add: reconcile_automation_deliveries_def
        reconcile_each_frame [OF live_not_reconciled [OF assms(1,3)]])
next
  case (OReconcile x oc ev)
  have "\<not> (k = x \<and> holds_at ad_id x (\<lambda>r. ad_phase r = DUnknown) (db_deliveries d))"
    using assms(3) by (auto simp: automation_lease_def holds_at_def split: option.splits if_splits)
  then show ?thesis using assms(1)
    by (auto simp: OReconcile reconcile_automation_delivery_def split_beta deliveries_wf_def
        try_update_eq update_row_sel)
next
  case (OEndRun item st w rw err why)
  then show ?thesis
    using end_run_deliveries [of item st w rw err why now d] assms(2) by (auto simp: sel_upd_key0)
qed (use assms in \<open>auto simp: transition_automation_delivery_def cancel_automation_delivery_def
      renew_automation_delivery_def Let_def split_beta update_row_sel deliveries_wf_def\<close>)

interpretation automation: lease_queue automation_grant automation_step automation_targets
  cl_owner automation_lease deliveries_wf
proof
  fix d a now
  assume "deliveries_wf d"
  then show "deliveries_wf (snd (automation_grant a now d))"
    using claim_delivery_wf by (simp add: automation_grant_def split_beta)
next
  fix d b now
  assume "deliveries_wf d"
  then show "deliveries_wf (automation_step b now d)" by (rule automation_step_wf)
next
  fix d a now k d'
  assume wf: "deliveries_wf d" and "automation_grant a now d = (Some k, d')"
  then obtain r where c: "claim_automation_delivery (cl_delivery a) (cl_owner a) (int (cl_seconds a) + 1)
      (cl_uuid a) now d = (Some r, d')" and k: "k = ad_id r"
    by (auto simp: automation_grant_def split: prod.splits)
  from claim_delivery_sel(3) [OF wf c refl] obtain q where
    q: "delivery_of (cl_delivery a) d' = Some r" "delivery_of (cl_delivery a) d = Some q"
       "ad_phase q = DPending" "r = claimed_delivery_row (cl_owner a) (cl_uuid a) (now + 1000 * (int (cl_seconds a) + 1)) now q"
    by blast
  have "k = cl_delivery a" using sel_by_key [OF q(1)] k by simp
  then show "\<not> live (automation_lease d k) now"
    and "\<exists>e. automation_lease d' k = Some (cl_owner a, e) \<and> now < e"
    using q by (simp_all add: automation_lease_def)
next
  fix d a now r k d'
  assume wf: "deliveries_wf d" and g: "automation_grant a now d = (r, d')" and "r \<noteq> Some k"
    and l: "live (automation_lease d k) now"
  obtain res where c: "claim_automation_delivery (cl_delivery a) (cl_owner a) (int (cl_seconds a) + 1)
      (cl_uuid a) now d = (res, d')"
    using g by (auto simp: automation_grant_def split: prod.splits)
  obtain q where q: "delivery_of k d = Some q" "ad_phase q \<in> set leased_phases"
    using l by (auto simp: automation_lease_def split: option.splits if_splits)
  then have "ad_phase q \<noteq> DPending" by auto
  then have "delivery_of k d' = delivery_of k d"
    using claim_delivery_sel(1,4) [OF wf c] q(1) by (cases "k = cl_delivery a") auto
  then show "automation_lease d' k = automation_lease d k" by (simp add: automation_lease_def)
next
  fix d k b now
  assume "deliveries_wf d" "k \<notin> automation_targets b" "live (automation_lease d k) now"
  then have "delivery_of k (automation_step b now d) = delivery_of k d" by (rule automation_step_frame)
  then show "automation_lease (automation_step b now d) k = automation_lease d k"
    by (simp add: automation_lease_def)
qed

section \<open>Reconciliation and the receipts\<close>

abbreviation trigger_receipts_closed :: "string \<Rightarrow> db \<Rightarrow> bool" where
  "trigger_receipts_closed run d \<equiv> \<forall>x \<in> set (db_receipts d).
     rc_run x = Some run \<longrightarrow> rc_effect_kind x = ''automation.trigger_execution'' \<longrightarrow> rc_state x \<noteq> Claimed"

lemma lost_receipt_row_simps [simp]:
  "rc_run (lost_receipt_row st why now x) = rc_run x"
  "rc_effect_kind (lost_receipt_row st why now x) = rc_effect_kind x"
  "rc_state (lost_receipt_row st why now x) = st"
  by (simp_all add: lost_receipt_row_def)

lemma upd_keeps_closed:
  assumes "\<forall>x \<in> set t. rc_run x = Some run \<longrightarrow> rc_effect_kind x = kind \<longrightarrow> rc_state x \<noteq> Claimed" and "st \<noteq> Claimed"
  shows "\<forall>x \<in> set (upd_where P (lost_receipt_row st why now) t).
    rc_run x = Some run \<longrightarrow> rc_effect_kind x = kind \<longrightarrow> rc_state x \<noteq> Claimed"
  using assms by (induction t) auto

lemma upd_closes:
  assumes "st \<noteq> Claimed"
  shows "\<forall>x \<in> set (upd_where (\<lambda>x. rc_run x = Some run \<and> rc_effect_kind x = kind \<and> rc_state x = Claimed)
      (lost_receipt_row st why now) t). rc_run x = Some run \<longrightarrow> rc_effect_kind x = kind \<longrightarrow> rc_state x \<noteq> Claimed"
  using assms by (induction t) auto

lemma reconcile_row_receipts [simp]: "db_receipts (reconcile_row now row d) = reconciled_receipts row now d"
  by (simp add: reconcile_row_def split_beta)

lemma reconcile_row_keeps_closed:
  assumes "trigger_receipts_closed run d"
  shows "trigger_receipts_closed run (reconcile_row now row d)"
proof -
  note cl = assms
  obtain ph why where rp: "reconciled_phase row d = (ph, why)" by force
  show ?thesis unfolding reconcile_row_receipts reconciled_receipts_def rp
    using cl upd_keeps_closed [OF cl, of Failed] upd_keeps_closed [OF cl, of Indeterminate]
    by (cases ph) simp_all
qed

lemma reconcile_row_closes:
  assumes "fst (reconciled_phase row d) = DPending"
  shows "trigger_receipts_closed (ad_run row) (reconcile_row now row d)"
proof -
  from assms obtain why where rp: "reconciled_phase row d = (DPending, why)"
    by (cases "reconciled_phase row d") auto
  show ?thesis unfolding reconcile_row_receipts reconciled_receipts_def rp
    using upd_closes [of Failed "ad_run row" "''automation.trigger_execution''"] by simp
qed

lemma reconcile_each_keeps_closed:
  "trigger_receipts_closed run d \<Longrightarrow> trigger_receipts_closed run (snd (reconcile_each now rows d))"
proof (induction rows arbitrary: d)
  case (Cons row rows)
  show ?case unfolding reconcile_each_snd by (rule Cons.IH) (rule reconcile_row_keeps_closed [OF Cons.prems])
qed simp

lemma reconciled_pending:
  "fst (reconciled_phase row d) = DPending \<Longrightarrow> ad_phase row \<notin> {DExecuting, DUnknown} \<and>
     \<not> receipt_in [Completed] (delivery_receipt row d) \<and> \<not> receipt_in [Failed] (delivery_receipt row d)"
  by (simp add: reconciled_phase_def Let_def split: if_splits)

lemma reconcile_each_pending:
  assumes "distinct (map ad_id rows)" and "row \<in> set rows"
    and "delivery_of (ad_id row) (snd (reconcile_each now rows d)) = Some r'" and "ad_phase r' = DPending"
  shows "ad_phase row \<notin> {DExecuting, DUnknown} \<and>
    trigger_receipts_closed (ad_run row) (snd (reconcile_each now rows d))"
  using assms
proof (induction rows arbitrary: d)
  case (Cons x rows)
  show ?case
  proof (cases "row = x")
    case True
    then have "ad_id row \<notin> ad_id ` set rows" using Cons.prems(1) by auto
    then have "delivery_of (ad_id row) (snd (reconcile_each now (x # rows) d)) =
        map_option (reconciled_delivery_row (fst (reconciled_phase row d)) (snd (reconciled_phase row d)) now)
          (delivery_of (ad_id row) d)"
      unfolding reconcile_each_snd reconcile_each_frame [OF \<open>ad_id row \<notin> ad_id ` set rows\<close>]
      by (simp add: reconcile_row_sel True)
    then have ph: "fst (reconciled_phase row d) = DPending" using Cons.prems(3,4) by auto
    then show ?thesis unfolding reconcile_each_snd True [symmetric]
      using reconciled_pending [OF ph] reconcile_each_keeps_closed [OF reconcile_row_closes [OF ph]] by blast
  next
    case False
    then have "row \<in> set rows" "distinct (map ad_id rows)" using Cons.prems(1,2) by auto
    then show ?thesis unfolding reconcile_each_snd
      using Cons.IH [of "reconcile_row now x d"] Cons.prems(3,4) unfolding reconcile_each_snd by blast
  qed
qed simp

lemma reconcile_rows_distinct:
  assumes "deliveries_wf d"
  shows "distinct (map ad_id (reconcile_rows limit now d))"
proof -
  have "distinct (map ad_id (filter (reconcilable now) (db_deliveries d)))"
    using assms by (auto simp: deliveries_wf_def keyed_def intro: distinct_map_filter)
  then have "distinct (map ad_id (sort_key (\<lambda>r. (ad_available r, ad_id r)) (filter (reconcilable now) (db_deliveries d))))"
    by (simp add: distinct_map)
  then show ?thesis unfolding reconcile_rows_def by (metis distinct_take take_map)
qed

section \<open>Properties\<close>

definition demo_delivery :: "delivery_phase \<Rightarrow> delivery_rec" where
  "demo_delivery ph = \<lparr>ad_id = ''d1'', ad_kind = ''k'', ad_definition = ''def'', ad_revision = ''1'',
     ad_event = ''e1'', ad_session = ''s1'', ad_source_run = None, ad_run = ''run1'',
     ad_envelope = [(''target'', JStr ''t''), (''kwargs'', JObj [(''session_id'', JStr ''s1'')])],
     ad_phase = ph, ad_owner = Some ''w1'', ad_lease = Some 5000, ad_available = 0, ad_attempts = 1,
     ad_receipt = None, ad_error = None, ad_admitted = None, ad_created = 0, ad_updated = 0\<rparr>"

definition demo_deliveries :: "delivery_phase \<Rightarrow> db" where
  "demo_deliveries ph = empty_db\<lparr>db_deliveries := [demo_delivery ph]\<rparr>"

lemma demo_deliveries_wf: "deliveries_wf (demo_deliveries ph)"
  by (simp add: deliveries_wf_def demo_deliveries_def demo_delivery_def empty_db_def keyed_def)

text \<open>While a worker's lease on a delivery runs, nobody else is handed the delivery and the
  lease stays, through any interleaving of claims by any workers, of reconciliation passes over the
  whole table, of evidence records, and of transitions, cancellations, renewals and run ends of other
  deliveries.\<close>

theorem delivery_lease_exclusive:
  assumes "deliveries_wf d" and "automation_lease d k = Some (w, e)"
    and "\<And>ev. ev \<in> set es \<Longrightarrow> event_time ev < e"
    and "\<And>b t. Other b t \<in> set es \<Longrightarrow> k \<notin> automation_targets b"
  shows "k \<notin> set (grants automation_grant automation_step d es) \<and>
    automation_lease (play automation_grant automation_step d es) k = Some (w, e)"
  by (rule automation.no_grant_while_leased [OF assms])

theorem delivery_lease_exclusive_witness:
  "automation_lease (play automation_grant automation_step (demo_deliveries DClaimed)
     [Claim \<lparr>cl_delivery = ''d1'', cl_owner = ''w2'', cl_seconds = 30, cl_uuid = ''u''\<rparr> 1000,
      Other (OReconcileAll 10) 2000]) ''d1'' = Some (''w1'', 5000)"
proof -
  have "automation_lease (demo_deliveries DClaimed) ''d1'' = Some (''w1'', 5000)"
    by (simp add: automation_lease_def demo_deliveries_def demo_delivery_def)
  then show ?thesis
    by (intro conjunct2 [OF delivery_lease_exclusive [OF demo_deliveries_wf]]) auto
qed

text \<open>A reconciliation pass never requeues work that may have started. A delivery that is
  pending afterwards was either untouched or had been claimed or admitted only, with its lease run
  out; a delivery that was executing or of unknown outcome is not pending. And when a delivery is
  requeued, no effect receipt of its run is left claimed, so the lost worker cannot complete one.\<close>

theorem reconciliation_requeues_only_unstarted:
  assumes "deliveries_wf d" and "delivery_of k d = Some r"
    and "delivery_of k (snd (reconcile_automation_deliveries limit now d)) = Some r'"
    and "ad_phase r' = DPending"
  shows "r' = r \<or> ad_phase r \<in> {DClaimed, DAdmitted} \<and> at_or_before (ad_lease r) now \<and>
    trigger_receipts_closed (ad_run r) (snd (reconcile_automation_deliveries limit now d))"
proof (cases "k \<in> ad_id ` set (reconcile_rows limit now d)")
  case False
  then show ?thesis using assms(2,3) reconcile_each_frame [OF False, of now d]
    by (simp add: reconcile_automation_deliveries_def)
next
  case True
  then obtain row where row: "row \<in> set (reconcile_rows limit now d)" "ad_id row = k" by blast
  then have in_d: "row \<in> set (db_deliveries d)" "reconcilable now row" using reconcile_rows_in by blast+
  then have "delivery_of k d = Some row"
    using assms(1) row(2) keyed_sel_iff unfolding deliveries_wf_def by metis
  then have "row = r" using assms(2) by simp
  then show ?thesis
    using reconcile_each_pending [OF reconcile_rows_distinct [OF assms(1)] row(1), of now d r'] assms(3,4)
      row(2) in_d(2)
    by (auto simp: reconcile_automation_deliveries_def reconcilable_def leased_phases_def)
qed

theorem reconciliation_requeues_only_unstarted_witness:
  "map_option ad_phase (delivery_of ''d1'' (snd (reconcile_automation_deliveries 10 9000 (demo_deliveries DExecuting))))
     \<noteq> Some DPending"
proof
  let ?d' = "snd (reconcile_automation_deliveries 10 9000 (demo_deliveries DExecuting))"
  assume "map_option ad_phase (delivery_of ''d1'' ?d') = Some DPending"
  then obtain r' where r': "delivery_of ''d1'' ?d' = Some r'" "ad_phase r' = DPending" by auto
  have "delivery_of ''d1'' (demo_deliveries DExecuting) = Some (demo_delivery DExecuting)"
    by (simp add: demo_deliveries_def demo_delivery_def)
  from reconciliation_requeues_only_unstarted [OF demo_deliveries_wf this r'(1) r'(2)] r'(2)
  show False by (auto simp: demo_delivery_def)
qed

lemma finish_transition_status:
  assumes "finish_transition c r st why err now d = (RunMoved r' prev st', d')"
  shows "st' = st \<and> rn_id r' = rn_id r \<and> prev = rn_status r"
  using assms by (auto simp: finish_transition_def Let_def ended_run_row_def)


definition demo_end_delivery :: delivery_rec where
  "demo_end_delivery = (demo_delivery DExecuting)\<lparr>ad_receipt := Some ''k''\<rparr>"

definition demo_end :: db where
  "demo_end = empty_db\<lparr>db_deliveries := [demo_end_delivery],
     db_runs := [(new_run_row (demo_run ''run1'' ''s1'' [(''action_target'', JStr ''t''),
        (''kwargs'', JObj [(''automation_delivery_id'', JStr ''d1'')])]) 1000 0)\<lparr>rn_type := ''automation''\<rparr>],
     db_receipts := [\<lparr>rc_key = ''k'', rc_session = ''s1'', rc_run = Some ''run1'',
        rc_effect_kind = ''automation.trigger_execution'', rc_step_key = ''x'', rc_target = ''t'',
        rc_fingerprint = ''f'', rc_state = Completed, rc_owner = Some ''o'', rc_attempts = 1, rc_lease = None,
        rc_started = None, rc_completed = None, rc_failed = None, rc_error = None, rc_metadata = [],
        rc_updated = 0\<rparr>]\<rparr>"


section \<open>Fan-out once\<close>

lemma insert_deliveries_append:
  "insert_deliveries ev now as t = Some u \<Longrightarrow> u = t @ map (new_delivery_row ev now) as"
proof (induction as arbitrary: t)
  case (Cons a as)
  have "insert_deliveries ev now as (t @ [new_delivery_row ev now a]) = Some u"
    using Cons.prems by (auto simp: Let_def split: if_splits)
  from Cons.IH [OF this] show ?case by simp
qed simp

text \<open>The fan-out of a source event happens once. Enqueueing the same event again, with
  whatever deliveries, answers with the deliveries of the first time and adds neither a delivery nor an
  event; the first time appends the event once and all its deliveries, or nothing at all.\<close>

theorem fanout_happens_once:
  assumes "enqueue_automation_deliveries ev items now d = (Inr rows, d')"
    and "sel_by ev_id (ea_id ev) (db_events d) = None"
    and "\<exists>x. dget (ea_payload ev) ''sourceRunId'' \<in> {JNull, JStr x}"
  shows "enqueue_automation_deliveries ev items2 now2 d' = (Inr rows, d') \<and>
    db_deliveries d' = db_deliveries d @ map (new_delivery_row ev now) items \<and>
    length (db_events d') = Suc (length (db_events d))"
proof -
  obtain n d1 where a: "allocate_runtime_event_seq (ea_session ev) now d = (n, d1)" by force
  define row where "row = (new_event_row ev n (ea_payload ev))\<lparr>ev_kind := ''event'',
     ev_ts := Some (case ea_ts ev of None \<Rightarrow> now | Some t \<Rightarrow> t)\<rparr>"
  obtain t where t: "insert_deliveries ev now items (db_deliveries d) = Some t"
    and d': "d' = d1\<lparr>db_events := db_events d @ [row], db_deliveries := t\<rparr>"
    and rows: "rows = filter (\<lambda>r. ad_event r = ea_id ev) t"
    using assms(1,2) a
    by (auto simp: enqueue_automation_deliveries_def Let_def row_def split: option.splits)
  have row: "ev_id row = ea_id ev" "ev_session row = ea_session ev" "ev_topic row = ea_topic ev"
    "ev_run row = ea_run ev" "ev_payload row = ea_payload ev"
    by (simp_all add: row_def new_event_row_def)
  have "sel_by ev_id (ea_id ev) (db_events d') = Some row"
    using assms(2) row(1) d' by (simp add: sel_by_append)
  moreover have "py_eq (dget (ea_payload ev) ''sourceRunId'') (dget (ea_payload ev) ''sourceRunId'')"
    using assms(3) by auto
  ultimately have "enqueue_automation_deliveries ev items2 now2 d' = (Inr rows, d')"
    using row rows d' by (auto simp: enqueue_automation_deliveries_def Let_def)
  then show ?thesis using insert_deliveries_append [OF t] d' by simp
qed

definition demo_source :: event_args where
  "demo_source = \<lparr>ea_id = ''e1'', ea_session = ''s1'', ea_run = None, ea_kind = ''event'', ea_topic = ''on_chat_end'',
     ea_ts = None, ea_source = [], ea_payload = []\<rparr>"

definition demo_item :: delivery_args where
  "demo_item = \<lparr>da_id = ''d1'', da_kind = ''k'', da_definition = ''f'', da_revision = ''1'', da_run = ''run1'',
     da_envelope = [], da_phase = None, da_error = None, da_receipt = None\<rparr>"

theorem fanout_happens_once_witness:
  "length (db_events (snd (enqueue_automation_deliveries demo_source [demo_item] 5 empty_db))) = 1"
proof -
  let ?e = "enqueue_automation_deliveries demo_source [demo_item] 5 empty_db"
  have "(case fst ?e of Inr rows \<Rightarrow> True | _ \<Rightarrow> False)" by code_simp
  then obtain rows where e: "?e = (Inr rows, snd ?e)" by (cases ?e) (auto split: sum.splits)
  have "sel_by ev_id (ea_id demo_source) (db_events empty_db) = None"
    and "\<exists>x. dget (ea_payload demo_source) ''sourceRunId'' \<in> {JNull, JStr x}"
    and "db_events empty_db = []"
    by (simp_all add: empty_db_def demo_source_def)
  then show ?thesis using fanout_happens_once [OF e] by simp
qed

end
