(* ===== verification/Episodes.thy ===== *)
theory Episodes
  imports Runs Leases "HOL-Library.Product_Lexorder"
begin

text \<open>
  Runtime episodes (core/database.py): the queue a worker claims episodes from, the lease with its
  generation that fences the worker's reports, and the ways an episode leaves a worker: completion,
  retry, cancellation, resumption. The three tables (episodes, queue, leases) change together.
\<close>

datatype episode_error = FenceArguments | BindingConflict | DuplicateLease

section \<open>Queueing\<close>

definition queue_row_id :: "string \<Rightarrow> string" where
  "queue_row_id e = ''episode_queue:'' @ e"

definition new_queue_row ::
  "string \<Rightarrow> string option \<Rightarrow> string option \<Rightarrow> string \<Rightarrow> int \<Rightarrow> time \<Rightarrow> time \<Rightarrow> queue_rec" where
  "new_queue_row e session run kind priority available now =
     \<lparr>eq_id = queue_row_id e, eq_episode = e, eq_session = session, eq_run = run, eq_kind = kind,
      eq_priority = priority, eq_state = ''queued'', eq_available = Some available, eq_locked_by = None,
      eq_lease = None, eq_attempts = 0, eq_error = None, eq_created = now, eq_updated = now\<rparr>"

text \<open>\<^verbatim>\<open>INSERT ... ON CONFLICT(episode_id) DO UPDATE\<close>.\<close>

definition upsert_queue :: "queue_rec \<Rightarrow> (queue_rec \<Rightarrow> queue_rec) \<Rightarrow> db \<Rightarrow> db" where
  "upsert_queue row f d = d\<lparr>db_queue :=
     (if sel_by eq_episode (eq_episode row) (db_queue d) = None then db_queue d @ [row]
      else upd_where (\<lambda>q. eq_episode q = eq_episode row) f (db_queue d))\<rparr>"

definition requeued_row :: "int \<Rightarrow> time \<Rightarrow> time \<Rightarrow> queue_rec \<Rightarrow> queue_rec" where
  "requeued_row priority available now q =
     q\<lparr>eq_state := ''queued'', eq_priority := priority, eq_available := Some available, eq_updated := now\<rparr>"

definition freed_row :: "queue_rec \<Rightarrow> queue_rec" where
  "freed_row q = q\<lparr>eq_locked_by := None, eq_lease := None\<rparr>"

definition enqueue_runtime_episode ::
  "string \<Rightarrow> string option \<Rightarrow> string option \<Rightarrow> string \<Rightarrow> int \<Rightarrow> time option \<Rightarrow> time \<Rightarrow> db \<Rightarrow> db" where
  "enqueue_runtime_episode e session run kind priority available now d =
     (let start = (case available of None \<Rightarrow> now | Some t \<Rightarrow> t)
      in upsert_queue (new_queue_row e session run (or_text kind ''unknown'') priority start now)
           (requeued_row priority start now) d)"

definition bound_episode :: "string option \<Rightarrow> string option \<Rightarrow> time \<Rightarrow> episode_rec \<Rightarrow> episode_rec" where
  "bound_episode s r now e =
     e\<lparr>ep_session := coalesce (ep_session e) s, ep_run := coalesce (ep_run e) r, ep_updated := now\<rparr>"

definition conflicting :: "string option \<Rightarrow> string option \<Rightarrow> bool" where
  "conflicting prior new \<longleftrightarrow> norm_text prior \<noteq> [] \<and> new \<noteq> None \<and> Some (norm_text prior) \<noteq> new"

definition backfill_runtime_episode_binding ::
  "string \<Rightarrow> string option \<Rightarrow> string option \<Rightarrow> time \<Rightarrow> db \<Rightarrow> episode_error option \<times> db" where
  "backfill_runtime_episode_binding e session run now d =
     (let s = or_none (norm_text session); r = or_none (norm_text run)
      in if s = None \<and> r = None then (None, d)
         else
           let ledger = sel_by ei_episode e (db_ep_idem d)
           in if (case ledger of None \<Rightarrow> False
                  | Some l \<Rightarrow> conflicting (ei_session l) s \<or> conflicting (ei_run l) r)
              then (Some BindingConflict, d)
              else (None, d\<lparr>
                db_episodes := upd_where (\<lambda>x. ep_id x = e) (bound_episode s r now) (db_episodes d),
                db_ep_idem := upd_where (\<lambda>l. ei_episode l = e)
                  (\<lambda>l. l\<lparr>ei_session := coalesce (ei_session l) s, ei_run := coalesce (ei_run l) r,
                         ei_updated := now\<rparr>) (db_ep_idem d),
                db_queue := upd_where (\<lambda>q. eq_episode q = e)
                  (\<lambda>q. q\<lparr>eq_session := coalesce (eq_session q) s, eq_run := coalesce (eq_run q) r,
                         eq_updated := now\<rparr>) (db_queue d)\<rparr>))"

section \<open>Claiming\<close>

definition executable_kinds :: "string list" where
  "executable_kinds = [''research'', ''engineering'', ''creative_media'', ''computer_use'', ''rpa'', ''delegation'']"

definition claimable :: "time \<Rightarrow> queue_rec \<Rightarrow> bool" where
  "claimable now q \<longleftrightarrow>
     (eq_state q \<in> {''queued'', ''retry''} \<or> (eq_state q = ''leased'' \<and> expired_or_null (eq_lease q) now))
     \<and> (case eq_available q of None \<Rightarrow> True | Some t \<Rightarrow> t \<le> now)"

definition present :: "string option \<Rightarrow> bool" where
  "present x = (case x of None \<Rightarrow> False | Some s \<Rightarrow> s \<noteq> [])"

definition next_queue_row :: "string list \<Rightarrow> bool \<Rightarrow> time \<Rightarrow> db \<Rightarrow> queue_rec option" where
  "next_queue_row kinds bound now d =
     (let requested = filter (\<lambda>k. k \<noteq> []) (map py_strip kinds);
          wanted = (if requested = [] then executable_kinds else requested)
      in first_by (\<lambda>q. (- eq_priority q, eq_created q))
           (filter (\<lambda>q. claimable now q \<and> episode_of (eq_episode q) d \<noteq> None \<and> eq_kind q \<in> set wanted
              \<and> (bound \<longrightarrow> present (eq_session q) \<and> present (eq_run q))) (db_queue d)))"

definition leased_queue_row :: "string \<Rightarrow> time \<Rightarrow> int \<Rightarrow> time \<Rightarrow> queue_rec \<Rightarrow> queue_rec" where
  "leased_queue_row w lease attempts now q =
     q\<lparr>eq_state := ''leased'', eq_locked_by := Some w, eq_lease := Some lease, eq_attempts := attempts,
       eq_updated := now\<rparr>"

definition claimed_episode :: "string \<Rightarrow> time \<Rightarrow> int \<Rightarrow> time \<Rightarrow> episode_rec \<Rightarrow> episode_rec" where
  "claimed_episode w lease attempts now e =
     e\<lparr>ep_state := ''active'', ep_worker := Some w, ep_lease := Some lease, ep_heartbeat := Some now,
       ep_attempts := attempts, ep_generation := ep_generation e + 1, ep_updated := now\<rparr>"

definition released_lease :: "string \<Rightarrow> time \<Rightarrow> ep_lease_rec \<Rightarrow> ep_lease_rec" where
  "released_lease st now l = l\<lparr>el_state := st, el_released := coalesce (el_released l) (Some now)\<rparr>"

definition new_lease_row :: "string \<Rightarrow> string \<Rightarrow> int \<Rightarrow> int \<Rightarrow> string \<Rightarrow> time \<Rightarrow> time \<Rightarrow> ep_lease_rec" where
  "new_lease_row e w attempts generation queue_id lease now =
     \<lparr>el_id = ''episode_lease:'' @ e @ '':'' @ py_int attempts, el_episode = e, el_worker = w,
      el_state = ''active'', el_acquired = now, el_expires = Some lease, el_heartbeat = Some now,
      el_released = None,
      el_metadata = [(''queueId'', JStr queue_id), (''leaseGeneration'', JInt generation)]\<rparr>"

definition claim_runtime_episode ::
  "string \<Rightarrow> int \<Rightarrow> string list \<Rightarrow> bool \<Rightarrow> time \<Rightarrow> db \<Rightarrow> (episode_error + string option) \<times> db" where
  "claim_runtime_episode w seconds kinds bound now d =
     (case next_queue_row kinds bound now d of
        None \<Rightarrow> (Inr None, d)
      | Some q \<Rightarrow>
          let e = eq_episode q; lease = now + 1000 * (if seconds = 0 then 60 else seconds);
              attempts = eq_attempts q + 1;
              (ok, queue) = update_row eq_id (eq_id q) (claimable now)
                              (leased_queue_row w lease attempts now) (db_queue d);
              episodes = upd_where (\<lambda>x. ep_id x = e) (claimed_episode w lease attempts now) (db_episodes d);
              generation = (case sel_by ep_id e episodes of None \<Rightarrow> 0 | Some x \<Rightarrow> ep_generation x);
              leases = upd_where (\<lambda>l. el_episode l = e \<and> el_state l = ''active'')
                         (released_lease ''expired'' now) (db_ep_leases d);
              row = new_lease_row e w attempts generation (eq_id q) lease now
          in if \<not> ok then (Inr None, d)
             else if sel_by el_id (el_id row) leases \<noteq> None then (Inl DuplicateLease, d)
             else (Inr (Some e), d\<lparr>db_queue := queue, db_episodes := episodes, db_ep_leases := leases @ [row]\<rparr>))"

section \<open>Reports of the worker\<close>

definition fence_of :: "string option \<Rightarrow> int option \<Rightarrow> episode_error + (string \<times> int) option" where
  "fence_of w g = (case (w, g) of
     (None, None) \<Rightarrow> Inr None
   | (Some w', Some g') \<Rightarrow> if w' = [] then Inl FenceArguments else Inr (Some (w', g'))
   | _ \<Rightarrow> Inl FenceArguments)"

text \<open>\<^verbatim>\<open>state = 'active' AND worker_id = ? AND lease_generation = ? AND
  COALESCE(lease_expires_at, '') > ?\<close>.\<close>

definition fenced_at :: "string \<Rightarrow> int \<Rightarrow> time \<Rightarrow> episode_rec \<Rightarrow> bool" where
  "fenced_at w g now e \<longleftrightarrow> ep_state e = ''active'' \<and> ep_worker e = Some w \<and> ep_generation e = g
     \<and> \<not> expired_or_null (ep_lease e) now"

definition unowned :: "episode_rec \<Rightarrow> bool" where
  "unowned e \<longleftrightarrow> \<not> present (ep_worker e)"

definition lapsed :: "time \<Rightarrow> episode_rec \<Rightarrow> bool" where
  "lapsed now e \<longleftrightarrow> at_or_before (ep_lease e) now"

definition held_states :: "string list" where
  "held_states = [''leased'', ''active'', ''waiting'', ''waiting_dependency'', ''waiting_child'',
     ''waiting_external'', ''waiting_approval'', ''waiting_input'']"

definition beaten_episode :: "time option \<Rightarrow> string option \<Rightarrow> time \<Rightarrow> episode_rec \<Rightarrow> episode_rec" where
  "beaten_episode lease progress now e =
     e\<lparr>ep_heartbeat := Some now, ep_lease := (case lease of None \<Rightarrow> ep_lease e | Some t \<Rightarrow> Some t),
       ep_progress := coalesce progress (ep_progress e), ep_updated := now\<rparr>"

definition renew_leases :: "string \<Rightarrow> string \<Rightarrow> time \<Rightarrow> time \<Rightarrow> db \<Rightarrow> db" where
  "renew_leases e w lease now d = d\<lparr>
     db_queue := upd_where (\<lambda>q. eq_episode q = e \<and> eq_state q = ''leased'' \<and> eq_locked_by q = Some w)
       (\<lambda>q. q\<lparr>eq_lease := Some lease, eq_updated := now\<rparr>) (db_queue d),
     db_ep_leases := upd_where (\<lambda>l. el_episode l = e \<and> el_worker l = w \<and> el_state l = ''active'')
       (\<lambda>l. l\<lparr>el_heartbeat := Some now, el_expires := Some lease\<rparr>) (db_ep_leases d)\<rparr>"

definition heartbeat_runtime_episode ::
  "string \<Rightarrow> string option \<Rightarrow> int option \<Rightarrow> string option \<Rightarrow> int \<Rightarrow> time \<Rightarrow> db \<Rightarrow>
     (episode_error + bool) \<times> db" where
  "heartbeat_runtime_episode e worker generation progress seconds now d =
     (let lease = now + 1000 * (if seconds = 0 then 60 else seconds)
      in case fence_of worker generation of
        Inl err \<Rightarrow> (Inl err, d)
      | Inr None \<Rightarrow>
          (case try_update ep_id e (\<lambda>x. ep_state x \<noteq> ''leased'' \<and> unowned x)
             (beaten_episode None progress now) (db_episodes d)
           of (ok, t) \<Rightarrow> (Inr ok, d\<lparr>db_episodes := t\<rparr>))
      | Inr (Some (w, g)) \<Rightarrow>
          (case try_update ep_id e (fenced_at w g now) (beaten_episode (Some lease) progress now) (db_episodes d)
           of (ok, t) \<Rightarrow> if ok then (Inr True, renew_leases e w lease now (d\<lparr>db_episodes := t\<rparr>))
                        else (Inr False, d)))"

section \<open>Completion\<close>

text \<open>Some metadata of the prior record survives whatever the caller writes.\<close>

definition kept_metadata :: "dict \<Rightarrow> dict \<Rightarrow> dict" where
  "kept_metadata prior new =
     foldl (\<lambda>m k. case map_of prior k of None \<Rightarrow> m | Some v \<Rightarrow> dset k v m) new
       [''supervisorAcceptance'', ''retryOfResults'', ''supervisorOwned'', ''ownerEpisodeId'']"

record completion =
  co_state :: string
  co_result :: "string option"
  co_code :: "string option"
  co_error :: "string option"
  co_metadata :: "dict option"
  co_worker :: "string option"
  co_generation :: "int option"
  co_expected :: "string option"

definition completable :: "completion \<Rightarrow> (string \<times> int) option \<Rightarrow> time \<Rightarrow> episode_rec \<Rightarrow> bool" where
  "completable c fence now e = (case fence of
     Some (w, g) \<Rightarrow> fenced_at w g now e
   | None \<Rightarrow>
       if present (co_expected c)
       then let x = py_strip (the (co_expected c))
            in ep_state e = x \<and> (x \<in> set held_states \<longrightarrow> unowned e \<or> lapsed now e)
       else ep_state e \<notin> set held_states)"

definition completed_episode :: "completion \<Rightarrow> dict option \<Rightarrow> time \<Rightarrow> episode_rec \<Rightarrow> episode_rec" where
  "completed_episode c meta now e =
     (let release = (co_state c \<noteq> ''active''); terminal = (co_state c \<in> set terminal_episode_states)
      in e\<lparr>ep_state := co_state c, ep_result := coalesce (co_result c) (ep_result e),
           ep_error_code := coalesce (co_code c) (ep_error_code e),
           ep_error := coalesce (co_error c) (ep_error e),
           ep_metadata := (case meta of None \<Rightarrow> ep_metadata e | Some m \<Rightarrow> m),
           ep_worker := (if release then None else ep_worker e),
           ep_lease := (if release then None else ep_lease e),
           ep_completed := (if terminal then coalesce (ep_completed e) (Some now) else ep_completed e),
           ep_updated := now\<rparr>)"

definition completed_queue_row :: "completion \<Rightarrow> time \<Rightarrow> queue_rec \<Rightarrow> queue_rec" where
  "completed_queue_row c now q =
     (let release = (co_state c \<noteq> ''active'')
      in q\<lparr>eq_state := (if co_state c \<in> {''completed'', ''merged''} then ''completed'' else co_state c),
           eq_error := coalesce (co_error c) (eq_error q),
           eq_locked_by := (if release then None else eq_locked_by q),
           eq_lease := (if release then None else eq_lease q), eq_updated := now\<rparr>)"

definition settle_tables ::
  "string \<Rightarrow> (string \<times> int) option \<Rightarrow> (queue_rec \<Rightarrow> queue_rec) \<Rightarrow> (ep_lease_rec \<Rightarrow> ep_lease_rec) \<Rightarrow> db \<Rightarrow> db" where
  "settle_tables e fence fq fl d = d\<lparr>
     db_queue := upd_where (\<lambda>q. eq_episode q = e \<and> (case fence of None \<Rightarrow> True
         | Some (w, _) \<Rightarrow> eq_state q = ''leased'' \<and> eq_locked_by q = Some w)) fq (db_queue d),
     db_ep_leases := upd_where (\<lambda>l. el_episode l = e \<and> el_state l = ''active'' \<and> (case fence of None \<Rightarrow> True
         | Some (w, _) \<Rightarrow> el_worker l = w)) fl (db_ep_leases d)\<rparr>"

definition complete_runtime_episode :: "string \<Rightarrow> completion \<Rightarrow> time \<Rightarrow> db \<Rightarrow> (episode_error + bool) \<times> db" where
  "complete_runtime_episode e c now d =
     (let prior = (case episode_of e d of None \<Rightarrow> [] | Some x \<Rightarrow> ep_metadata x);
          meta = map_option (kept_metadata prior) (co_metadata c)
      in case fence_of (co_worker c) (co_generation c) of
        Inl err \<Rightarrow> (Inl err, d)
      | Inr fence \<Rightarrow>
          (case try_update ep_id e (completable c fence now) (completed_episode c meta now) (db_episodes d)
           of (ok, t) \<Rightarrow> if \<not> ok then (Inr False, d)
                else (Inr True, settle_tables e fence (completed_queue_row c now)
                        (released_lease (co_state c) now) (d\<lparr>db_episodes := t\<rparr>))))"

definition cancel_runtime_episode ::
  "string \<Rightarrow> string option \<Rightarrow> string option \<Rightarrow> int option \<Rightarrow> time \<Rightarrow> db \<Rightarrow> (episode_error + bool) \<times> db" where
  "cancel_runtime_episode e reason worker generation now d =
     (let why = (case reason of None \<Rightarrow> [] | Some r \<Rightarrow> r)
      in complete_runtime_episode e
           \<lparr>co_state = ''cancelled'', co_result = None, co_code = Some ''episode_cancelled'',
            co_error = Some (or_text why ''Runtime episode cancelled.''),
            co_metadata = Some [(''recoverable'', JBool True), (''cancelReason'', JStr (or_text why ''manual''))],
            co_worker = worker, co_generation = generation, co_expected = None\<rparr> now d)"

section \<open>Retry and resumption\<close>

definition queued_episode :: "string option \<Rightarrow> time \<Rightarrow> episode_rec \<Rightarrow> episode_rec" where
  "queued_episode error now e =
     e\<lparr>ep_state := ''queued'', ep_error := coalesce error (ep_error e), ep_worker := None, ep_lease := None,
       ep_updated := now\<rparr>"

definition retried_queue_row :: "string option \<Rightarrow> time \<Rightarrow> time \<Rightarrow> queue_rec \<Rightarrow> queue_rec" where
  "retried_queue_row error available now q =
     q\<lparr>eq_state := ''retry'', eq_error := coalesce error (eq_error q), eq_available := Some available,
       eq_locked_by := None, eq_lease := None, eq_updated := now\<rparr>"

definition retryable :: "(string \<times> int) option \<Rightarrow> time \<Rightarrow> episode_rec \<Rightarrow> bool" where
  "retryable fence now e = (case fence of
     Some (w, g) \<Rightarrow> fenced_at w g now e
   | None \<Rightarrow> ep_state e \<notin> {''active'', ''leased''} \<and> unowned e \<and> (ep_lease e = None \<or> lapsed now e))"

definition retry_runtime_episode ::
  "string \<Rightarrow> string option \<Rightarrow> int \<Rightarrow> string option \<Rightarrow> int option \<Rightarrow> time \<Rightarrow> db \<Rightarrow> (episode_error + bool) \<times> db" where
  "retry_runtime_episode e error delay worker generation now d =
     (case fence_of worker generation of
        Inl err \<Rightarrow> (Inl err, d)
      | Inr fence \<Rightarrow>
          (case try_update ep_id e (retryable fence now) (queued_episode error now) (db_episodes d)
           of (ok, t) \<Rightarrow> if \<not> ok then (Inr False, d)
                else (Inr True, settle_tables e fence
                        (retried_queue_row error (now + 1000 * max 0 delay) now)
                        (released_lease ''retry'' now) (d\<lparr>db_episodes := t\<rparr>))))"

definition resumable :: "string \<Rightarrow> time \<Rightarrow> episode_rec \<Rightarrow> bool" where
  "resumable expected now e =
     (if expected \<noteq> []
      then ep_state e = expected \<and> (expected \<in> set held_states \<longrightarrow> unowned e \<or> lapsed now e)
      else ep_state e \<notin> set held_states \<or> unowned e \<or> lapsed now e)"

definition resumed_episode :: "json option \<Rightarrow> int option \<Rightarrow> time \<Rightarrow> episode_rec \<Rightarrow> episode_rec" where
  "resumed_episode token priority now e =
     e\<lparr>ep_state := ''queued'', ep_resume_token := coalesce token (ep_resume_token e),
       ep_priority := (case priority of None \<Rightarrow> ep_priority e | Some p \<Rightarrow> p), ep_worker := None,
       ep_lease := None, ep_updated := now\<rparr>"

definition resume_runtime_episode ::
  "string \<Rightarrow> json option \<Rightarrow> int option \<Rightarrow> string option \<Rightarrow> time \<Rightarrow> db \<Rightarrow> bool \<times> db" where
  "resume_runtime_episode e token priority expected now d =
     (case try_update ep_id e (resumable (norm_text expected) now) (resumed_episode token priority now) (db_episodes d)
      of (ok, t) \<Rightarrow>
        if \<not> ok then (False, d)
        else (True, case sel_by ep_id e t of
            None \<Rightarrow> d\<lparr>db_episodes := t\<rparr>
          | Some x \<Rightarrow>
              let p = (case priority of Some p \<Rightarrow> p | None \<Rightarrow> ep_priority x)
              in upsert_queue (new_queue_row e (ep_session x) (ep_run x) (ep_kind x) p now now)
                   (freed_row \<circ> requeued_row p now now) (d\<lparr>db_episodes := t\<rparr>)))"

datatype approval_resume = ResumeScheduled string bool | ResumeRefused string

definition approved_row :: "queue_rec \<Rightarrow> time \<Rightarrow> queue_rec" where
  "approved_row q now = freed_row (requeued_row (eq_priority q) now now q)"

definition resume_runtime_episode_after_approval :: "string \<Rightarrow> time \<Rightarrow> db \<Rightarrow> approval_resume \<times> db" where
  "resume_runtime_episode_after_approval approval now d =
     (case sel_by ap_id approval (db_approvals d) of
        None \<Rightarrow> (ResumeRefused ''approval_not_approved'', d)
      | Some a \<Rightarrow>
          if ap_status a \<noteq> ''approved'' then (ResumeRefused ''approval_not_approved'', d)
          else
            let continuation = as_dict (dget (ap_request a) ''runtimeContinuation'');
                e = as_text (dget continuation ''episodeId'');
                checkpoint = dget continuation ''checkpoint''
            in (case run_of (ap_run a) d of
                None \<Rightarrow> (ResumeRefused ''run_not_eligible_for_resume'', d)
              | Some r \<Rightarrow>
                  if rn_status r \<noteq> ''running'' \<or> control_command (rn_metadata r) \<in> set stop_commands
                  then (ResumeRefused ''run_not_eligible_for_resume'', d)
                  else (case episode_of e d of
                      None \<Rightarrow> (ResumeRefused ''approval_episode_scope_mismatch'', d)
                    | Some x \<Rightarrow>
                        if ep_session x \<noteq> Some (ap_session a) \<or> ep_run x \<noteq> Some (ap_run a)
                        then (ResumeRefused ''approval_episode_scope_mismatch'', d)
                        else
                          let wait = as_dict (dget (ep_metadata x) ''governanceWait'');
                              marker = as_dict (dget (ep_metadata x) ''governanceResume'')
                          in if dget wait ''approvalId'' \<noteq> JStr approval \<or> \<not> truthy checkpoint
                                \<or> \<not> py_eq (dget wait ''checkpoint'') checkpoint
                             then (ResumeRefused ''approval_continuation_mismatch'', d)
                             else if dget marker ''approvalId'' = JStr approval
                             then (ResumeScheduled e True, d)
                             else if ep_state x \<noteq> ''waiting_approval'' \<or> present (ep_worker x)
                             then (ResumeRefused ''episode_not_waiting_for_approval'', d)
                             else
                               let meta = dset ''governanceResume'' (JObj [(''approvalId'', JStr approval),
                                            (''state'', JStr ''queued'')]) (ep_metadata x);
                                   d' = d\<lparr>db_episodes := upd_where (\<lambda>y. ep_id y = e)
                                          (\<lambda>y. y\<lparr>ep_state := ''queued'', ep_metadata := meta, ep_updated := now\<rparr>)
                                          (db_episodes d)\<rparr>
                               in (ResumeScheduled e False,
                                   upsert_queue (new_queue_row e (ep_session x) (ep_run x) (ep_kind x) (ep_priority x) now now)
                                     (\<lambda>q. approved_row q now) d'))))"

section \<open>The end of the parent run\<close>

definition parent_ended_episode :: "string \<Rightarrow> time \<Rightarrow> episode_rec \<Rightarrow> episode_rec" where
  "parent_ended_episode reason now e =
     e\<lparr>ep_state := ''cancelled'', ep_error_code := Some ''parent_run_terminal'', ep_error := Some reason,
       ep_metadata := [(''recoverable'', JBool True), (''cancelReason'', JStr reason),
                       (''cancelSource'', JStr ''parent_run_terminal'')],
       ep_worker := None, ep_lease := None, ep_completed := coalesce (ep_completed e) (Some now),
       ep_updated := now\<rparr>"

definition parent_ended_queue_row :: "string \<Rightarrow> time \<Rightarrow> queue_rec \<Rightarrow> queue_rec" where
  "parent_ended_queue_row reason now q =
     q\<lparr>eq_state := ''cancelled'', eq_error := Some reason, eq_locked_by := None, eq_lease := None,
       eq_updated := now\<rparr>"

definition cancel_active_runtime_episodes_for_run ::
  "string \<Rightarrow> string option \<Rightarrow> time \<Rightarrow> db \<Rightarrow> string list \<times> db" where
  "cancel_active_runtime_episodes_for_run run reason now d =
     (let r = py_strip run;
          why = py_strip (or_text (case reason of None \<Rightarrow> [] | Some x \<Rightarrow> x)
                  ''Parent run reached a terminal state.'');
          ids = map ep_id (filter (\<lambda>e. ep_run e = Some r \<and> ep_state e \<in> set active_episode_states) (db_episodes d))
      in if r = [] \<or> ids = [] then ([], d)
         else (ids, d\<lparr>
           db_episodes := upd_where (\<lambda>e. ep_id e \<in> set ids \<and> ep_state e \<in> set active_episode_states)
             (parent_ended_episode why now) (db_episodes d),
           db_queue := upd_where (\<lambda>q. eq_episode q \<in> set ids) (parent_ended_queue_row why now) (db_queue d),
           db_ep_leases := upd_where (\<lambda>l. el_episode l \<in> set ids \<and> el_state l = ''active'')
             (released_lease ''cancelled'' now) (db_ep_leases d)\<rparr>))"

section \<open>Histories\<close>

datatype episode_op =
    EEnqueue string "string option" "string option" string int "time option"
  | EBackfill string "string option" "string option"
  | EClaim string int "string list" bool
  | EHeartbeat string "string option" "int option" "string option" int
  | EComplete string completion
  | ERetry string "string option" int "string option" "int option"
  | EResume string "json option" "int option" "string option"
  | EApproval string
  | ERunEnded string "string option"

fun episode_step :: "episode_op \<Rightarrow> time \<Rightarrow> db \<Rightarrow> db" where
  "episode_step (EEnqueue e s r k p a) now d = enqueue_runtime_episode e s r k p a now d"
| "episode_step (EBackfill e s r) now d = snd (backfill_runtime_episode_binding e s r now d)"
| "episode_step (EClaim w n ks b) now d = snd (claim_runtime_episode w n ks b now d)"
| "episode_step (EHeartbeat e w g p n) now d = snd (heartbeat_runtime_episode e w g p n now d)"
| "episode_step (EComplete e c) now d = snd (complete_runtime_episode e c now d)"
| "episode_step (ERetry e err n w g) now d = snd (retry_runtime_episode e err n w g now d)"
| "episode_step (EResume e t p x) now d = snd (resume_runtime_episode e t p x now d)"
| "episode_step (EApproval a) now d = snd (resume_runtime_episode_after_approval a now d)"
| "episode_step (ERunEnded r why) now d = snd (cancel_active_runtime_episodes_for_run r why now d)"

fun episode_run :: "(episode_op \<times> time) list \<Rightarrow> db \<Rightarrow> db" where
  "episode_run [] d = d"
| "episode_run ((x, now) # xs) d = episode_run xs (episode_step x now d)"

definition generation_of :: "db \<Rightarrow> string \<Rightarrow> int" where
  "generation_of d e = (case episode_of e d of None \<Rightarrow> 0 | Some x \<Rightarrow> ep_generation x)"

definition episodes_wf :: "db \<Rightarrow> bool" where
  "episodes_wf d \<longleftrightarrow> keyed ep_id (db_episodes d) \<and> keyed eq_episode (db_queue d) \<and>
     (\<forall>q \<in> set (db_queue d). eq_id q = queue_row_id (eq_episode q))"

subsection \<open>What the updates keep\<close>

lemma episode_row_simps [simp]:
  "ep_id (bound_episode s r now e) = ep_id e" "ep_generation (bound_episode s r now e) = ep_generation e"
  "ep_id (claimed_episode w l n now e) = ep_id e"
  "ep_generation (claimed_episode w l n now e) = ep_generation e + 1"
  "ep_id (beaten_episode lo p now e) = ep_id e" "ep_generation (beaten_episode lo p now e) = ep_generation e"
  "ep_id (completed_episode c m now e) = ep_id e" "ep_generation (completed_episode c m now e) = ep_generation e"
  "ep_id (queued_episode err now e) = ep_id e" "ep_generation (queued_episode err now e) = ep_generation e"
  "ep_id (resumed_episode t pr now e) = ep_id e" "ep_generation (resumed_episode t pr now e) = ep_generation e"
  "ep_id (parent_ended_episode why now e) = ep_id e" "ep_run (parent_ended_episode why now e) = ep_run e"
  "ep_generation (parent_ended_episode why now e) = ep_generation e"
  "ep_state (parent_ended_episode why now e) = ''cancelled''"
  by (simp_all add: bound_episode_def claimed_episode_def beaten_episode_def completed_episode_def
    queued_episode_def resumed_episode_def parent_ended_episode_def Let_def)

lemma queue_row_simps [simp]:
  "eq_id (new_queue_row e s r k p a now) = queue_row_id e" "eq_episode (new_queue_row e s r k p a now) = e"
  "eq_state (new_queue_row e s r k p a now) = ''queued''"
  "eq_id (requeued_row p a now q) = eq_id q" "eq_episode (requeued_row p a now q) = eq_episode q"
  "eq_id (freed_row q) = eq_id q" "eq_episode (freed_row q) = eq_episode q"
  "eq_id (approved_row q now) = eq_id q" "eq_episode (approved_row q now) = eq_episode q"
  "eq_id (leased_queue_row w l n now q) = eq_id q" "eq_episode (leased_queue_row w l n now q) = eq_episode q"
  "eq_state (leased_queue_row w l n now q) = ''leased''"
  "eq_locked_by (leased_queue_row w l n now q) = Some w" "eq_lease (leased_queue_row w l n now q) = Some l"
  "eq_id (completed_queue_row c now q) = eq_id q" "eq_episode (completed_queue_row c now q) = eq_episode q"
  "eq_id (retried_queue_row err a now q) = eq_id q" "eq_episode (retried_queue_row err a now q) = eq_episode q"
  "eq_id (parent_ended_queue_row why now q) = eq_id q"
  "eq_episode (parent_ended_queue_row why now q) = eq_episode q"
  "eq_state (parent_ended_queue_row why now q) = ''cancelled''"
  by (simp_all add: new_queue_row_def requeued_row_def freed_row_def approved_row_def leased_queue_row_def
    completed_queue_row_def retried_queue_row_def parent_ended_queue_row_def Let_def)

lemma lease_row_simps [simp]:
  "el_episode (released_lease st now l) = el_episode l" "el_state (released_lease st now l) = st"
  "el_episode (new_lease_row e w n g qi ex now) = e" "el_state (new_lease_row e w n g qi ex now) = ''active''"
  by (simp_all add: released_lease_def new_lease_row_def)

lemma upsert_queue_frame [simp]:
  "db_episodes (upsert_queue row f d) = db_episodes d" "db_ep_leases (upsert_queue row f d) = db_ep_leases d"
  by (simp_all add: upsert_queue_def)

lemma settle_tables_frame [simp]: "db_episodes (settle_tables e fence fq fl d) = db_episodes d"
  by (simp add: settle_tables_def)

lemma renew_leases_frame [simp]: "db_episodes (renew_leases e w l now d) = db_episodes d"
  by (simp add: renew_leases_def)

subsection \<open>Generations\<close>

text \<open>An operation updates episodes in place and never lowers a generation.\<close>

definition advances :: "episode_rec list \<Rightarrow> episode_rec list \<Rightarrow> bool" where
  "advances t u \<longleftrightarrow> (\<exists>P f. u = upd_where P f t \<and> (\<forall>r. ep_id (f r) = ep_id r \<and> ep_generation r \<le> ep_generation (f r)))"

lemma advances_refl [simp]: "advances t t"
  unfolding advances_def
  by (intro exI [of _ "\<lambda>_. False"] exI [of _ "\<lambda>r. r"]) (simp add: upd_where_def)

lemma advances_upd: "(\<And>r. ep_id (f r) = ep_id r \<and> ep_generation r \<le> ep_generation (f r)) \<Longrightarrow> advances t (upd_where P f t)"
  unfolding advances_def by blast

lemma advances_try:
  "(\<And>r. ep_id (f r) = ep_id r \<and> ep_generation r \<le> ep_generation (f r)) \<Longrightarrow> advances t (snd (try_update ep_id e P f t))"
  by (simp add: try_update_def advances_upd)

lemma advances_keyed: "advances t u \<Longrightarrow> keyed ep_id u = keyed ep_id t"
  by (auto simp: advances_def keyed_upd_where)

lemma advances_sel:
  "advances t u \<Longrightarrow> (case sel_by ep_id e t of None \<Rightarrow> sel_by ep_id e u = None
     | Some r \<Rightarrow> \<exists>r'. sel_by ep_id e u = Some r' \<and> ep_generation r \<le> ep_generation r')"
  by (auto simp: advances_def sel_by_upd_where split: option.splits)

lemma claim_episode_cases:
  assumes "claim_runtime_episode w n ks b now d = (res, d')"
  shows "(\<forall>e. res \<noteq> Inr (Some e)) \<and> d' = d \<or>
    (\<exists>q lease row. next_queue_row ks b now d = Some q \<and> res = Inr (Some (eq_episode q)) \<and>
       lease = now + 1000 * (if n = 0 then 60 else n) \<and>
       db_queue d' = snd (update_row eq_id (eq_id q) (claimable now)
          (leased_queue_row w lease (eq_attempts q + 1) now) (db_queue d)) \<and>
       db_episodes d' = upd_where (\<lambda>x. ep_id x = eq_episode q)
          (claimed_episode w lease (eq_attempts q + 1) now) (db_episodes d) \<and>
       el_episode row = eq_episode q \<and> el_state row = ''active'' \<and>
       db_ep_leases d' = upd_where (\<lambda>l. el_episode l = eq_episode q \<and> el_state l = ''active'')
          (released_lease ''expired'' now) (db_ep_leases d) @ [row])"
proof (cases "next_queue_row ks b now d")
  case None
  then show ?thesis using assms by (auto simp: claim_runtime_episode_def)
next
  case (Some q)
  then show ?thesis using assms
    by (auto simp: claim_runtime_episode_def Let_def split_beta split: if_splits)
qed

lemma step_advances: "advances (db_episodes d) (db_episodes (episode_step x now d))"
proof (cases x)
  case (EClaim w n ks b)
  then show ?thesis
    using claim_episode_cases [OF surjective_pairing, of w n ks b now d]
    by (elim disjE exE conjE) (simp_all add: advances_upd)
next
  case (EHeartbeat e w g p n)
  then show ?thesis
    by (auto simp: heartbeat_runtime_episode_def Let_def split_beta advances_try
        split: sum.splits option.splits)
next
  case (EComplete e c)
  then show ?thesis
    by (auto simp: complete_runtime_episode_def Let_def split_beta advances_try split: sum.splits)
next
  case (ERetry e err n w g)
  then show ?thesis
    by (auto simp: retry_runtime_episode_def Let_def split_beta advances_try split: sum.splits)
next
  case (EResume e t p x)
  then show ?thesis
    by (auto simp: resume_runtime_episode_def Let_def split_beta advances_try split: option.splits)
next
  case (EApproval a)
  then show ?thesis
    by (auto simp: resume_runtime_episode_after_approval_def Let_def advances_upd split: option.splits)
qed (auto simp: enqueue_runtime_episode_def backfill_runtime_episode_binding_def
      cancel_active_runtime_episodes_for_run_def Let_def advances_upd split: option.splits)

lemma run_advances_generation:
  "episode_of e d \<noteq> None \<Longrightarrow> generation_of d e \<le> generation_of (episode_run xs d) e"
proof (induction xs d rule: episode_run.induct)
  case (2 x now xs d)
  have "episode_of e (episode_step x now d) \<noteq> None \<and> generation_of d e \<le> generation_of (episode_step x now d) e"
    using advances_sel [OF step_advances [of d x now], of e] "2.prems"
    by (auto simp: generation_of_def split: option.splits)
  then show ?case using 2 by force
qed simp

subsection \<open>The queue\<close>

text \<open>An operation updates queue rows in place, or adds the row of an episode that has none.\<close>

definition queue_moves :: "queue_rec list \<Rightarrow> queue_rec list \<Rightarrow> bool" where
  "queue_moves t u \<longleftrightarrow>
     (\<exists>P f. u = upd_where P f t \<and> (\<forall>r. eq_id (f r) = eq_id r \<and> eq_episode (f r) = eq_episode r)) \<or>
     (\<exists>row. u = t @ [row] \<and> sel_by eq_episode (eq_episode row) t = None \<and> eq_id row = queue_row_id (eq_episode row))"

lemma queue_moves_upd:
  "(\<And>r. eq_id (f r) = eq_id r \<and> eq_episode (f r) = eq_episode r) \<Longrightarrow> queue_moves t (upd_where P f t)"
  unfolding queue_moves_def by blast

lemma queue_moves_refl [simp]: "queue_moves t t"
  unfolding queue_moves_def
  by (intro disjI1 exI [of _ "\<lambda>_. False"] exI [of _ "\<lambda>r. r"]) (simp add: upd_where_def)

lemma queue_moves_wf:
  assumes "queue_moves (db_queue d) (db_queue d')" and "keyed ep_id (db_episodes d')" and "episodes_wf d"
  shows "episodes_wf d'"
proof -
  consider (upd) P f where "db_queue d' = upd_where P f (db_queue d)"
      "\<And>r. eq_id (f r) = eq_id r" "\<And>r. eq_episode (f r) = eq_episode r"
    | (new) row where "db_queue d' = db_queue d @ [row]" "sel_by eq_episode (eq_episode row) (db_queue d) = None"
      "eq_id row = queue_row_id (eq_episode row)"
    using assms(1) unfolding queue_moves_def by blast
  then show ?thesis
  proof cases
    case upd
    then show ?thesis using assms(2,3)
      by (auto simp: episodes_wf_def keyed_upd_where set_upd_where)
  next
    case new
    then show ?thesis using assms(2,3) keyed_snoc [of eq_episode "db_queue d" row]
      by (auto simp: episodes_wf_def)
  qed
qed

lemma upsert_moves:
  assumes "\<And>r. eq_id (f r) = eq_id r \<and> eq_episode (f r) = eq_episode r"
    and "eq_id row = queue_row_id (eq_episode row)"
  shows "queue_moves (db_queue d) (db_queue (upsert_queue row f d))"
  using assms queue_moves_upd [of f "db_queue d" "\<lambda>q. eq_episode q = eq_episode row"]
  by (auto simp: upsert_queue_def queue_moves_def)

lemma settle_moves:
  "(\<And>r. eq_id (f r) = eq_id r \<and> eq_episode (f r) = eq_episode r) \<Longrightarrow>
     queue_moves (db_queue d) (db_queue (settle_tables e fence f fl d))"
  by (simp add: settle_tables_def queue_moves_upd)

lemma step_queue_moves: "queue_moves (db_queue d) (db_queue (episode_step x now d))"
proof (cases x)
  case (EEnqueue e s r k p a)
  then show ?thesis by (simp add: enqueue_runtime_episode_def Let_def upsert_moves)
next
  case (EClaim w n ks b)
  then show ?thesis
    using claim_episode_cases [OF surjective_pairing, of w n ks b now d]
    by (elim disjE exE conjE) (simp_all add: update_row_def queue_moves_upd)
next
  case (EHeartbeat e w g p n)
  then show ?thesis
    by (auto simp: heartbeat_runtime_episode_def Let_def split_beta renew_leases_def queue_moves_upd
        split: sum.splits option.splits)
next
  case (EComplete e c)
  then show ?thesis
    using settle_moves [of "completed_queue_row c now" "d\<lparr>db_episodes := u\<rparr>" for u]
    by (auto simp: complete_runtime_episode_def Let_def split_beta split: sum.splits)
next
  case (ERetry e err n w g)
  then show ?thesis
    using settle_moves [of "retried_queue_row err a now" "d\<lparr>db_episodes := u\<rparr>" for a u]
    by (auto simp: retry_runtime_episode_def Let_def split_beta split: sum.splits)
next
  case (EResume e t p x)
  have "queue_moves (db_queue d) (db_queue (upsert_queue (new_queue_row e s r k pr now now)
      (freed_row \<circ> requeued_row pr now now) (d\<lparr>db_episodes := u\<rparr>)))" for s r k pr u
    using upsert_moves [of "freed_row \<circ> requeued_row pr now now" "new_queue_row e s r k pr now now"
        "d\<lparr>db_episodes := u\<rparr>"] by simp
  then show ?thesis
    by (auto simp: EResume resume_runtime_episode_def Let_def split_beta split: option.splits)
next
  case (EApproval a)
  have "queue_moves (db_queue d) (db_queue (upsert_queue (new_queue_row e s r k pr now now)
      (\<lambda>q. approved_row q now) (d\<lparr>db_episodes := u\<rparr>)))" for e s r k pr u
    using upsert_moves [of "\<lambda>q. approved_row q now" "new_queue_row e s r k pr now now"
        "d\<lparr>db_episodes := u\<rparr>"] by simp
  then show ?thesis
    by (auto simp: EApproval resume_runtime_episode_after_approval_def Let_def split: option.splits)
qed (auto simp: backfill_runtime_episode_binding_def cancel_active_runtime_episodes_for_run_def Let_def
      queue_moves_upd split: option.splits)

lemma episode_step_wf: "episodes_wf d \<Longrightarrow> episodes_wf (episode_step x now d)"
  using queue_moves_wf [OF step_queue_moves, of x now d] advances_keyed [OF step_advances [of d x now]]
  by (simp add: episodes_wf_def)

lemma episode_run_wf: "episodes_wf d \<Longrightarrow> episodes_wf (episode_run xs d)"
  by (induction xs d rule: episode_run.induct) (simp_all add: episode_step_wf)

subsection \<open>Fenced reports\<close>

lemma stale_generation_not_fenced:
  assumes "generation_of d e \<noteq> g"
  shows "\<not> holds_at ep_id e (fenced_at w g now) (db_episodes d)"
  using assms by (auto simp: holds_at_def fenced_at_def generation_of_def split: option.splits)

lemma rejected_try: "keyed ep_id t \<Longrightarrow> \<not> holds_at ep_id e P t \<Longrightarrow> try_update ep_id e P f t = (False, t)"
  by (simp add: try_update_eq update_row_reject)

lemma stale_report_rejected:
  assumes "episodes_wf d" and "generation_of d e \<noteq> g"
  shows "heartbeat_runtime_episode e (Some w) (Some g) p n now d = (res, d') \<Longrightarrow> res \<noteq> Inr True \<and> d' = d"
    and "co_worker c = Some w \<Longrightarrow> co_generation c = Some g \<Longrightarrow>
      complete_runtime_episode e c now d = (res, d') \<Longrightarrow> res \<noteq> Inr True \<and> d' = d"
    and "retry_runtime_episode e err n (Some w) (Some g) now d = (res, d') \<Longrightarrow> res \<noteq> Inr True \<and> d' = d"
proof -
  have k: "keyed ep_id (db_episodes d)" using assms(1) by (simp add: episodes_wf_def)
  have r: "try_update ep_id e (fenced_at w g now) f (db_episodes d) = (False, db_episodes d)" for f
    by (rule rejected_try [OF k stale_generation_not_fenced [OF assms(2)]])
  have c: "completable c (Some (w, g)) now = fenced_at w g now" for c
    by (simp add: completable_def fun_eq_iff)
  have t: "retryable (Some (w, g)) now = fenced_at w g now" by (simp add: retryable_def fun_eq_iff)
  show "heartbeat_runtime_episode e (Some w) (Some g) p n now d = (res, d') \<Longrightarrow> res \<noteq> Inr True \<and> d' = d"
    by (auto simp: heartbeat_runtime_episode_def fence_of_def Let_def r split: if_splits)
  show "co_worker c = Some w \<Longrightarrow> co_generation c = Some g \<Longrightarrow>
      complete_runtime_episode e c now d = (res, d') \<Longrightarrow> res \<noteq> Inr True \<and> d' = d"
    by (auto simp: complete_runtime_episode_def fence_of_def Let_def r c split: if_splits)
  show "retry_runtime_episode e err n (Some w) (Some g) now d = (res, d') \<Longrightarrow> res \<noteq> Inr True \<and> d' = d"
    by (auto simp: retry_runtime_episode_def fence_of_def r t split: if_splits)
qed

subsection \<open>Claims\<close>

lemma next_queue_row_in:
  assumes "next_queue_row ks b now d = Some q"
  shows "q \<in> set (db_queue d) \<and> claimable now q \<and> episode_of (eq_episode q) d \<noteq> None"
  using assms unfolding next_queue_row_def Let_def by (auto dest!: first_by_in)

lemma queue_row_id_inj [simp]: "queue_row_id a = queue_row_id b \<longleftrightarrow> a = b"
  by (simp add: queue_row_id_def)

lemma claim_episode_effect:
  assumes wf: "episodes_wf d" and c: "claim_runtime_episode w n ks b now d = (Inr (Some e), d')"
  obtains q x where "sel_by eq_episode e (db_queue d) = Some q" "claimable now q"
    "episode_of e d = Some x"
    "\<And>k. sel_by eq_episode k (db_queue d') = (if k = e then Some (leased_queue_row w
        (now + 1000 * (if n = 0 then 60 else n)) (eq_attempts q + 1) now q) else sel_by eq_episode k (db_queue d))"
    "\<And>k. episode_of k d' = (if k = e then Some (claimed_episode w (now + 1000 * (if n = 0 then 60 else n))
        (eq_attempts q + 1) now x) else episode_of k d)"
proof -
  have keyed: "keyed eq_episode (db_queue d)" and ids: "\<And>r. r \<in> set (db_queue d) \<Longrightarrow> eq_id r = queue_row_id (eq_episode r)"
    using wf by (auto simp: episodes_wf_def)
  obtain q lease where q: "next_queue_row ks b now d = Some q" "eq_episode q = e"
    and lease: "lease = now + 1000 * (if n = 0 then 60 else n)"
    and dq: "db_queue d' = snd (update_row eq_id (eq_id q) (claimable now)
          (leased_queue_row w lease (eq_attempts q + 1) now) (db_queue d))"
    and de: "db_episodes d' = upd_where (\<lambda>x. ep_id x = eq_episode q)
          (claimed_episode w lease (eq_attempts q + 1) now) (db_episodes d)"
    using claim_episode_cases [OF c] by auto
  note in_q = next_queue_row_in [OF q(1)]
  have sel: "sel_by eq_episode e (db_queue d) = Some q"
    using keyed_sel_iff [OF keyed] in_q q(2) by blast
  obtain x where x: "episode_of e d = Some x" using in_q q(2) by auto
  have "update_row eq_id (eq_id q) (claimable now) f (db_queue d) =
      update_row eq_episode e (claimable now) f (db_queue d)" for f
    using ids in_q q(2) by (intro update_row_same_key) auto
  then have "sel_by eq_episode k (db_queue d') = (if k = e then Some (leased_queue_row w lease (eq_attempts q + 1) now q)
      else sel_by eq_episode k (db_queue d))" for k
    using dq sel in_q by (simp add: update_row_sel [OF keyed])
  moreover have "episode_of k d' = (if k = e then Some (claimed_episode w lease (eq_attempts q + 1) now x)
      else episode_of k d)" for k
    using de x q(2) by (simp add: sel_upd_key0)
  ultimately show ?thesis using that sel in_q x lease by blast
qed

section \<open>Episodes as a lease queue\<close>

record episode_claim =
  ec_worker :: string
  ec_seconds :: nat
  ec_kinds :: "string list"
  ec_bound :: bool

definition episode_grant :: "episode_claim \<Rightarrow> time \<Rightarrow> db \<Rightarrow> string option \<times> db" where
  "episode_grant a now d =
     (case claim_runtime_episode (ec_worker a) (int (ec_seconds a) + 1) (ec_kinds a) (ec_bound a) now d of
        (Inl _, d') \<Rightarrow> (None, d') | (Inr r, d') \<Rightarrow> (r, d'))"

definition queue_lease :: "queue_rec \<Rightarrow> (string \<times> time) option" where
  "queue_lease q = (if eq_state q = ''leased''
     then (case (eq_locked_by q, eq_lease q) of (Some w, Some e) \<Rightarrow> Some (w, e) | _ \<Rightarrow> None) else None)"

definition episode_lease :: "db \<Rightarrow> string \<Rightarrow> (string \<times> time) option" where
  "episode_lease d k = (case sel_by eq_episode k (db_queue d) of None \<Rightarrow> None | Some q \<Rightarrow> queue_lease q)"

text \<open>The episodes whose queue row an operation may change; claims and the operations that
  choose episodes by run or approval may change any.\<close>

fun episode_targets :: "episode_op \<Rightarrow> string set" where
  "episode_targets (EEnqueue e s r k p a) = {e}"
| "episode_targets (EBackfill e s r) = {}"
| "episode_targets (EClaim w n ks b) = UNIV"
| "episode_targets (EHeartbeat e w g p n) = {e}"
| "episode_targets (EComplete e c) = {e}"
| "episode_targets (ERetry e err n w g) = {e}"
| "episode_targets (EResume e t p x) = {e}"
| "episode_targets (EApproval a) = UNIV"
| "episode_targets (ERunEnded r why) = UNIV"

lemma claimable_not_live: "claimable now q \<Longrightarrow> \<not> live (queue_lease q) now"
  by (auto simp: claimable_def queue_lease_def split: option.splits)

lemma sel_upsert_other:
  "k \<noteq> eq_episode row \<Longrightarrow> (\<And>q. eq_episode (f q) = eq_episode q) \<Longrightarrow>
     sel_by eq_episode k (db_queue (upsert_queue row f d)) = sel_by eq_episode k (db_queue d)"
  by (auto simp: upsert_queue_def sel_by_append sel_upd_key0 split: option.splits)

lemma sel_settle_other:
  "k \<noteq> e \<Longrightarrow> (\<And>q. eq_episode (f q) = eq_episode q) \<Longrightarrow>
     sel_by eq_episode k (db_queue (settle_tables e fence f fl d)) = sel_by eq_episode k (db_queue d)"
  by (simp add: settle_tables_def sel_upd_key)

lemma sel_renew_other:
  "k \<noteq> e \<Longrightarrow> sel_by eq_episode k (db_queue (renew_leases e w lease now d)) = sel_by eq_episode k (db_queue d)"
  by (simp add: renew_leases_def sel_upd_key)

lemma backfill_lease:
  "episode_lease (snd (backfill_runtime_episode_binding e s r now d)) k = episode_lease d k"
  by (auto simp: backfill_runtime_episode_binding_def episode_lease_def queue_lease_def Let_def sel_upd_key0
      split: option.splits)

lemma episode_step_frame:
  assumes "k \<notin> episode_targets x"
  shows "episode_lease (episode_step x now d) k = episode_lease d k"
proof (cases x)
  case (EEnqueue e s r kd p a)
  then show ?thesis using assms
    by (simp add: enqueue_runtime_episode_def Let_def episode_lease_def sel_upsert_other)
next
  case (EBackfill e s r)
  then show ?thesis by (simp add: backfill_lease)
next
  case (EHeartbeat e w g p n)
  then show ?thesis using assms
    by (auto simp: heartbeat_runtime_episode_def Let_def split_beta episode_lease_def sel_renew_other
        split: sum.split option.split)
next
  case (EComplete e c)
  then show ?thesis using assms
    by (auto simp: complete_runtime_episode_def Let_def split_beta episode_lease_def sel_settle_other
        split: sum.split)
next
  case (ERetry e err n w g)
  then show ?thesis using assms
    by (auto simp: retry_runtime_episode_def Let_def split_beta episode_lease_def sel_settle_other
        split: sum.split)
next
  case (EResume e t p ex)
  then have "k \<noteq> e" using assms by simp
  then show ?thesis
    by (auto simp: EResume resume_runtime_episode_def Let_def split_beta episode_lease_def sel_upsert_other
        split: option.split)
qed (use assms in auto)

lemma episode_grant_cases:
  assumes "episodes_wf d" and "episode_grant a now d = (r, d')"
  shows "(r = None \<and> d' = d) \<or>
    (\<exists>e q. r = Some e \<and> sel_by eq_episode e (db_queue d) = Some q \<and> claimable now q \<and>
       episode_lease d' e = Some (ec_worker a, now + 1000 * (int (ec_seconds a) + 1)) \<and>
       (\<forall>k. k \<noteq> e \<longrightarrow> episode_lease d' k = episode_lease d k))"
proof -
  obtain res where c: "claim_runtime_episode (ec_worker a) (int (ec_seconds a) + 1) (ec_kinds a) (ec_bound a) now d = (res, d')"
    and r: "r = (case res of Inl _ \<Rightarrow> None | Inr x \<Rightarrow> x)"
    using assms(2) by (auto simp: episode_grant_def split: prod.splits sum.splits)
  show ?thesis
  proof (cases "\<exists>e. res = Inr (Some e)")
    case False
    then show ?thesis using claim_episode_cases [OF c] r by (auto split: sum.splits)
  next
    case True
    then obtain e where e: "res = Inr (Some e)" by blast
    from claim_episode_effect [OF assms(1) c [unfolded e]] obtain q where
      q: "sel_by eq_episode e (db_queue d) = Some q" "claimable now q"
      and s: "\<And>k. sel_by eq_episode k (db_queue d') = (if k = e then Some (leased_queue_row (ec_worker a)
        (now + 1000 * (if int (ec_seconds a) + 1 = 0 then 60 else int (ec_seconds a) + 1)) (eq_attempts q + 1) now q)
        else sel_by eq_episode k (db_queue d))" by metis
    then show ?thesis using e r by (auto simp: episode_lease_def queue_lease_def)
  qed
qed

interpretation episodes: lease_queue episode_grant episode_step episode_targets ec_worker episode_lease episodes_wf
proof
  fix d a now
  assume "episodes_wf d"
  then show "episodes_wf (snd (episode_grant a now d))"
    using episode_step_wf [of d "EClaim (ec_worker a) (int (ec_seconds a) + 1) (ec_kinds a) (ec_bound a)" now]
    by (auto simp: episode_grant_def split: prod.splits sum.splits)
next
  fix d b now
  assume "episodes_wf d"
  then show "episodes_wf (episode_step b now d)" by (rule episode_step_wf)
next
  fix d a now k d'
  assume "episodes_wf d" "episode_grant a now d = (Some k, d')"
  then show "\<not> live (episode_lease d k) now"
    using episode_grant_cases [of d a now "Some k" d'] claimable_not_live by (auto simp: episode_lease_def)
next
  fix d a now k d'
  assume "episodes_wf d" "episode_grant a now d = (Some k, d')"
  then show "\<exists>e. episode_lease d' k = Some (ec_worker a, e) \<and> now < e"
    using episode_grant_cases [of d a now "Some k" d'] by auto
next
  fix d a now r k d'
  assume wf: "episodes_wf d" "episode_grant a now d = (r, d')" and r: "r \<noteq> Some k"
  consider "d' = d" | e where "r = Some e" "\<forall>k. k \<noteq> e \<longrightarrow> episode_lease d' k = episode_lease d k"
    using episode_grant_cases [OF wf] by (elim disjE exE conjE) simp_all
  then show "episode_lease d' k = episode_lease d k"
    using r by cases simp_all
next
  fix d k b now
  assume "k \<notin> episode_targets b"
  then show "episode_lease (episode_step b now d) k = episode_lease d k" by (rule episode_step_frame)
qed

section \<open>Lease rows\<close>

definition active_leases :: "db \<Rightarrow> string \<Rightarrow> nat" where
  "active_leases d e = count_where (\<lambda>l. el_episode l = e \<and> el_state l = ''active'') (db_ep_leases d)"

lemma active_upd_le:
  assumes "\<And>l. el_episode (f l) = el_episode l" and "\<And>l. P l \<Longrightarrow> el_state l = ''active''"
  shows "count_where (\<lambda>l. el_episode l = e \<and> el_state l = ''active'') (upd_where P f t)
    \<le> count_where (\<lambda>l. el_episode l = e \<and> el_state l = ''active'') t"
  by (rule count_upd_le) (use assms in auto)

lemma settle_active_le:
  assumes "\<And>l. el_episode (f l) = el_episode l"
  shows "active_leases (settle_tables e fence fq f d) k \<le> active_leases d k"
proof -
  have "db_ep_leases (settle_tables e fence fq f d) = upd_where (\<lambda>l. el_episode l = e \<and> el_state l = ''active'' \<and>
      (case fence of None \<Rightarrow> True | Some (w, _) \<Rightarrow> el_worker l = w)) f (db_ep_leases d)"
    by (simp add: settle_tables_def)
  then show ?thesis unfolding active_leases_def by (simp only:) (rule active_upd_le, simp_all add: assms)
qed

lemma renew_active_le: "active_leases (renew_leases e w lease now d) k \<le> active_leases d k"
proof -
  have "db_ep_leases (renew_leases e w lease now d) =
      upd_where (\<lambda>l. el_episode l = e \<and> el_worker l = w \<and> el_state l = ''active'')
       (\<lambda>l. l\<lparr>el_heartbeat := Some now, el_expires := Some lease\<rparr>) (db_ep_leases d)"
    by (simp add: renew_leases_def)
  then show ?thesis unfolding active_leases_def by (simp only:) (rule active_upd_le, simp_all)
qed

lemma active_leases_episodes [simp]: "active_leases (d\<lparr>db_episodes := t\<rparr>) k = active_leases d k"
  by (simp add: active_leases_def)

lemma active_leases_queue [simp]:
  "active_leases (upsert_queue row f d) k = active_leases d k"
  "active_leases (d\<lparr>db_episodes := t, db_queue := q, db_ep_idem := i\<rparr>) k = active_leases d k"
  by (simp_all add: active_leases_def)

lemma claim_active_leases:
  assumes "claim_runtime_episode w n ks b now d = (res, d')" and "active_leases d k \<le> 1"
  shows "active_leases d' k \<le> 1"
  using claim_episode_cases [OF assms(1)]
proof (elim disjE exE conjE)
  fix q row
  assume "el_episode row = eq_episode q" "el_state row = ''active''"
    and l: "db_ep_leases d' = upd_where (\<lambda>l. el_episode l = eq_episode q \<and> el_state l = ''active'')
          (released_lease ''expired'' now) (db_ep_leases d) @ [row]"
  have le: "count_where (\<lambda>l. el_episode l = k \<and> el_state l = ''active'')
      (upd_where (\<lambda>l. el_episode l = eq_episode q \<and> el_state l = ''active'')
        (released_lease ''expired'' now) (db_ep_leases d)) \<le> active_leases d k"
    unfolding active_leases_def by (rule active_upd_le) simp_all
  have "count_where (\<lambda>l. el_episode l = eq_episode q \<and> el_state l = ''active'')
      (upd_where (\<lambda>l. el_episode l = eq_episode q \<and> el_state l = ''active'')
        (released_lease ''expired'' now) (db_ep_leases d)) = 0"
    by (rule count_upd_0) simp_all
  then show ?thesis using l le assms(2) \<open>el_episode row = eq_episode q\<close>
    by (cases "k = eq_episode q") (simp_all add: active_leases_def)
qed (use assms(2) in \<open>simp add: active_leases_def\<close>)

lemma step_active_leases:
  assumes "active_leases d k \<le> 1"
  shows "active_leases (episode_step x now d) k \<le> 1"
proof (cases x)
  case (EClaim w n ks b)
  then show ?thesis using claim_active_leases [OF surjective_pairing assms] by simp
next
  case (EHeartbeat e w g p n)
  have le: "active_leases (renew_leases e w lease now (d\<lparr>db_episodes := t\<rparr>)) k \<le> 1" for w lease t
    using renew_active_le [of e w lease now "d\<lparr>db_episodes := t\<rparr>" k] assms by simp
  show ?thesis
  proof (cases "fence_of w g")
    case (Inl err)
    then show ?thesis using assms by (simp add: EHeartbeat heartbeat_runtime_episode_def Let_def)
  next
    case (Inr fence)
    then show ?thesis using assms le
      by (cases fence) (auto simp: EHeartbeat heartbeat_runtime_episode_def Let_def split_beta)
  qed
next
  case (EComplete e c)
  have le: "active_leases (settle_tables e fence fq (released_lease st now) (d\<lparr>db_episodes := t\<rparr>)) k \<le> 1" for fence fq st t
    using settle_active_le [of "released_lease st now" e fence fq "d\<lparr>db_episodes := t\<rparr>" k] assms by simp
  show ?thesis using assms le
    by (cases "fence_of (co_worker c) (co_generation c)")
      (simp_all add: EComplete complete_runtime_episode_def Let_def split_beta)
next
  case (ERetry e err n w g)
  have le: "active_leases (settle_tables e fence fq (released_lease st now) (d\<lparr>db_episodes := t\<rparr>)) k \<le> 1" for fence fq st t
    using settle_active_le [of "released_lease st now" e fence fq "d\<lparr>db_episodes := t\<rparr>" k] assms by simp
  show ?thesis using assms le
    by (cases "fence_of w g") (simp_all add: ERetry retry_runtime_episode_def Let_def split_beta)
next
  case (ERunEnded r why)
  have "count_where (\<lambda>l. el_episode l = k \<and> el_state l = ''active'')
      (upd_where (\<lambda>l. el_episode l \<in> A \<and> el_state l = ''active'') (released_lease ''cancelled'' now) (db_ep_leases d)) \<le> 1" for A
    using active_upd_le [of "released_lease ''cancelled'' now" "\<lambda>l. el_episode l \<in> A \<and> el_state l = ''active''" k
        "db_ep_leases d"] assms by (simp add: active_leases_def)
  then show ?thesis using assms
    by (simp add: ERunEnded cancel_active_runtime_episodes_for_run_def Let_def active_leases_def)
next
  case (EResume e t p x)
  then show ?thesis using assms
    by (cases "sel_by ep_id e (snd (try_update ep_id e (resumable (norm_text x) now) (resumed_episode t p now) (db_episodes d)))")
      (simp_all add: resume_runtime_episode_def split_beta Let_def)
next
  case (EBackfill e s r)
  then show ?thesis using assms
    by (simp add: backfill_runtime_episode_binding_def Let_def active_leases_def)
next
  case (EApproval a)
  have "active_leases (snd (resume_runtime_episode_after_approval a now d)) k = active_leases d k"
    by (simp add: resume_runtime_episode_after_approval_def Let_def split: option.split)
  then show ?thesis using assms EApproval by simp
qed (use assms in \<open>simp_all add: enqueue_runtime_episode_def Let_def\<close>)

section \<open>Properties\<close>

definition demo_episode :: "string \<Rightarrow> string \<Rightarrow> episode_rec" where
  "demo_episode e st = \<lparr>ep_id = e, ep_session = Some ''s1'', ep_run = Some ''r1'', ep_parent = None,
     ep_kind = ''research'', ep_state = st, ep_resume_token = None, ep_generation = 0, ep_result = None,
     ep_priority = 0, ep_attempts = 0, ep_worker = None, ep_lease = None, ep_heartbeat = None,
     ep_progress = None, ep_error_code = None, ep_error = None, ep_metadata = [], ep_updated = 0,
     ep_completed = None\<rparr>"

definition demo_queue :: db where
  "demo_queue = enqueue_runtime_episode ''e1'' (Some ''s1'') (Some ''r1'') ''research'' 0 None 10
     (empty_db\<lparr>db_episodes := [demo_episode ''e1'' ''queued'']\<rparr>)"

definition demo_claimed :: db where
  "demo_claimed = snd (claim_runtime_episode ''w1'' 60 [] False 20 demo_queue)"

lemma demo_queue_wf: "episodes_wf demo_queue"
  by (simp add: episodes_wf_def demo_queue_def enqueue_runtime_episode_def upsert_queue_def empty_db_def
      keyed_def Let_def)

lemma demo_claim: "claim_runtime_episode ''w1'' 60 [] False 20 demo_queue = (Inr (Some ''e1''), demo_claimed)"
proof -
  have "(case fst (claim_runtime_episode ''w1'' 60 [] False 20 demo_queue) of
      Inr (Some e) \<Rightarrow> e = ''e1'' | _ \<Rightarrow> False)" by code_simp
  then show ?thesis unfolding demo_claimed_def
    by (cases "claim_runtime_episode ''w1'' 60 [] False 20 demo_queue") (auto split: sum.splits option.splits)
qed

lemma demo_claimed_wf: "episodes_wf demo_claimed"
  using episode_step_wf [OF demo_queue_wf, of "EClaim ''w1'' 60 [] False" 20] by (simp add: demo_claimed_def)

text \<open>C26: a worker that lost an episode can no longer report on it. Once the episode has been
  claimed again, every heartbeat, completion or retry under a generation from before that claim is
  refused and changes nothing, whatever has happened in between: the generation only grows.\<close>

theorem superseded_generation_fenced:
  assumes "episodes_wf d" and "claim_runtime_episode w n ks b now d = (Inr (Some e), d')"
    and "g \<le> generation_of d e" and "u = episode_run xs d'"
  shows "generation_of d' e = generation_of d e + 1 \<and>
    (\<forall>v p m t. fst (heartbeat_runtime_episode e (Some v) (Some g) p m t u) \<noteq> Inr True \<and>
       snd (heartbeat_runtime_episode e (Some v) (Some g) p m t u) = u) \<and>
    (\<forall>v c t. fst (complete_runtime_episode e (c\<lparr>co_worker := Some v, co_generation := Some g\<rparr>) t u) \<noteq> Inr True \<and>
       snd (complete_runtime_episode e (c\<lparr>co_worker := Some v, co_generation := Some g\<rparr>) t u) = u) \<and>
    (\<forall>v err m t. fst (retry_runtime_episode e err m (Some v) (Some g) t u) \<noteq> Inr True \<and>
       snd (retry_runtime_episode e err m (Some v) (Some g) t u) = u)"
proof -
  have claimed: "episode_of e d' \<noteq> None \<and> generation_of d' e = generation_of d e + 1"
  proof (rule claim_episode_effect [OF assms(1,2)])
    fix q x
    assume "episode_of e d = Some x"
      and "\<And>k. episode_of k d' = (if k = e then Some (claimed_episode w
         (now + 1000 * (if n = 0 then 60 else n)) (eq_attempts q + 1) now x) else episode_of k d)"
    then show ?thesis by (simp add: generation_of_def)
  qed
  then have gen: "generation_of d' e = generation_of d e + 1" by simp
  have "generation_of d' e \<le> generation_of u e"
    unfolding assms(4) using claimed by (intro run_advances_generation) simp
  then have ne: "generation_of u e \<noteq> g" using gen assms(3) by simp
  have "episodes_wf d'" using episode_step_wf [OF assms(1), of "EClaim w n ks b" now] assms(2) by simp
  then have wf: "episodes_wf u" unfolding assms(4) by (rule episode_run_wf)
  note rejected = stale_report_rejected [OF wf ne]
  show ?thesis
    using gen rejected(1) [OF surjective_pairing] rejected(3) [OF surjective_pairing]
      rejected(2) [OF _ _ surjective_pairing] by simp
qed

theorem superseded_generation_fenced_witness:
  "snd (heartbeat_runtime_episode ''e1'' (Some ''w0'') (Some 0) None 60 30 demo_claimed) = demo_claimed"
proof -
  have "(0::int) \<le> generation_of demo_queue ''e1''" by code_simp
  from superseded_generation_fenced [OF demo_queue_wf demo_claim this, of demo_claimed "[]"]
  show ?thesis by simp
qed

text \<open>While the lease of an episode's queue row runs, no claim hands the episode to anybody,
  in any interleaving of claims with enqueues, bindings, heartbeats, completions, retries and resumptions
  of other episodes.\<close>

theorem episode_lease_exclusive:
  assumes "episodes_wf d" and "episode_lease d k = Some (w, e)"
    and "\<And>ev. ev \<in> set es \<Longrightarrow> event_time ev < e"
    and "\<And>b t. Other b t \<in> set es \<Longrightarrow> k \<notin> episode_targets b"
  shows "k \<notin> set (grants episode_grant episode_step d es) \<and>
    episode_lease (play episode_grant episode_step d es) k = Some (w, e)"
  by (rule episodes.no_grant_while_leased [OF assms])

theorem episode_lease_exclusive_witness:
  "''e1'' \<notin> set (grants episode_grant episode_step demo_claimed
     [Claim \<lparr>ec_worker = ''w2'', ec_seconds = 60, ec_kinds = [], ec_bound = False\<rparr> 30,
      Other (EEnqueue ''e2'' None None ''rpa'' 0 None) 40])"
proof -
  have "episode_lease demo_claimed ''e1'' = Some (''w1'', 60020)" by code_simp
  then show ?thesis
    by (intro conjunct1 [OF episode_lease_exclusive [OF demo_claimed_wf]]) auto
qed

text \<open>At any moment an episode has at most one active lease row: every history of the
  operations keeps this, claims after lost leases included.\<close>

theorem one_active_lease_per_episode:
  assumes "active_leases d e \<le> 1"
  shows "active_leases (episode_run xs d) e \<le> 1"
  using assms
proof (induction xs d rule: episode_run.induct)
  case (2 x now xs d)
  from "2.IH" [OF step_active_leases [OF "2.prems"]] show ?case by simp
qed simp

theorem one_active_lease_per_episode_witness:
  "active_leases (episode_run [(EClaim ''w1'' 60 [] False, 20), (EClaim ''w2'' 60 [] False, 90000)] demo_queue) ''e1'' \<le> 1"
  by (rule one_active_lease_per_episode) (simp add: active_leases_def demo_queue_def enqueue_runtime_episode_def
      upsert_queue_def empty_db_def Let_def)

lemma ended_frame:
  assumes "e \<notin> set ids"
  shows "sel_by ep_id e (upd_where (\<lambda>x. ep_id x \<in> set ids \<and> P x) (parent_ended_episode why now) t) = sel_by ep_id e t"
  using assms by (auto simp: sel_by_upd_where dest: sel_by_key split: option.splits intro!: option.map_ident_strong)

text \<open>The end of a run ends its episodes. After the cancellation no episode of the run is in
  an active state; the episodes that were are cancelled, reported, not queued and without active
  lease; and every other episode is exactly as before.\<close>

theorem run_end_cancels_its_episodes:
  assumes "episodes_wf d" and "py_strip run = run" and "run \<noteq> []"
    and "cancel_active_runtime_episodes_for_run run reason now d = (ids, d')"
  shows "(\<forall>x \<in> set (db_episodes d'). ep_run x = Some run \<longrightarrow> ep_state x \<notin> set active_episode_states) \<and>
    (\<forall>e. e \<in> set ids \<longleftrightarrow> (\<exists>x. episode_of e d = Some x \<and> ep_run x = Some run \<and> ep_state x \<in> set active_episode_states)) \<and>
    (\<forall>e \<in> set ids. map_option ep_state (episode_of e d') = Some ''cancelled'' \<and> active_leases d' e = 0 \<and>
       (\<forall>q. sel_by eq_episode e (db_queue d') = Some q \<longrightarrow> eq_state q = ''cancelled'')) \<and>
    (\<forall>e. e \<notin> set ids \<longrightarrow> episode_of e d' = episode_of e d)"
proof -
  let ?ids = "map ep_id (filter (\<lambda>e. ep_run e = Some run \<and> ep_state e \<in> set active_episode_states) (db_episodes d))"
  have keyed: "keyed ep_id (db_episodes d)" using assms(1) by (simp add: episodes_wf_def)
  have ids: "ids = ?ids" using assms(2,3,4) by (auto simp: cancel_active_runtime_episodes_for_run_def Let_def split: if_splits)
  have iff: "e \<in> set ids \<longleftrightarrow> (\<exists>x. episode_of e d = Some x \<and> ep_run x = Some run \<and> ep_state x \<in> set active_episode_states)" for e
    unfolding ids by (auto simp: keyed_sel_iff [OF keyed])
  have not_active: "''cancelled'' \<notin> set active_episode_states" by code_simp
  show ?thesis
  proof (cases "ids = []")
    case True
    then have "d' = d" using assms(4) ids by (auto simp: cancel_active_runtime_episodes_for_run_def Let_def split: if_splits)
    moreover have "\<forall>x \<in> set (db_episodes d). ep_run x = Some run \<longrightarrow> ep_state x \<notin> set active_episode_states"
      using True ids by (auto simp: filter_empty_conv)
    ultimately show ?thesis using True iff by simp
  next
    case False
    then obtain why where de: "db_episodes d' = upd_where (\<lambda>e. ep_id e \<in> set ids \<and> ep_state e \<in> set active_episode_states)
             (parent_ended_episode why now) (db_episodes d)"
      and dq: "db_queue d' = upd_where (\<lambda>q. eq_episode q \<in> set ids) (parent_ended_queue_row why now) (db_queue d)"
      and dl: "db_ep_leases d' = upd_where (\<lambda>l. el_episode l \<in> set ids \<and> el_state l = ''active'')
             (released_lease ''cancelled'' now) (db_ep_leases d)"
      using assms(2,3,4) ids by (auto simp: cancel_active_runtime_episodes_for_run_def Let_def split: if_splits)
    have "ep_state x \<notin> set active_episode_states" if "x \<in> set (db_episodes d')" "ep_run x = Some run" for x
    proof -
      have "x \<in> (\<lambda>y. if ep_id y \<in> set ids \<and> ep_state y \<in> set active_episode_states
          then parent_ended_episode why now y else y) ` set (db_episodes d)"
        using that(1) by (simp only: de set_upd_where)
      then obtain y where y: "y \<in> set (db_episodes d)"
        "x = (if ep_id y \<in> set ids \<and> ep_state y \<in> set active_episode_states then parent_ended_episode why now y else y)"
        by blast
      show ?thesis
      proof (cases "ep_id y \<in> set ids \<and> ep_state y \<in> set active_episode_states")
        case True
        then show ?thesis using y(2) not_active by simp
      next
        case False
        moreover have "episode_of (ep_id y) d = Some y" using y(1) keyed_sel_iff [OF keyed] by blast
        ultimately show ?thesis using y(2) that(2) iff [of "ep_id y"] by auto
      qed
    qed
    moreover have "map_option ep_state (episode_of e d') = Some ''cancelled'' \<and> active_leases d' e = 0 \<and>
       (\<forall>q. sel_by eq_episode e (db_queue d') = Some q \<longrightarrow> eq_state q = ''cancelled'')" if e: "e \<in> set ids" for e
    proof (intro conjI allI impI)
      show "map_option ep_state (episode_of e d') = Some ''cancelled''"
      proof -
        obtain x where x: "episode_of e d = Some x" "ep_state x \<in> set active_episode_states"
          using iff [of e] e by blast
        moreover have "ep_id x = e" using x(1) sel_by_key [of ep_id e "db_episodes d" x] by simp
        ultimately show ?thesis using e by (simp add: de sel_by_upd_where)
      qed
      show "active_leases d' e = 0" unfolding active_leases_def dl by (rule count_upd_0) (use e in auto)
      fix q assume q: "sel_by eq_episode e (db_queue d') = Some q"
      then obtain p where "sel_by eq_episode e (db_queue d) = Some p"
        "q = (if eq_episode p \<in> set ids then parent_ended_queue_row why now p else p)"
        by (auto simp: dq sel_by_upd_where)
      then show "eq_state q = ''cancelled''" using e sel_by_key [of eq_episode e "db_queue d" p] by simp
    qed
    moreover have "episode_of e d' = episode_of e d" if "e \<notin> set ids" for e
      unfolding de by (rule ended_frame [OF that])
    ultimately show ?thesis using iff by blast
  qed
qed

theorem run_end_cancels_its_episodes_witness:
  "active_leases (snd (cancel_active_runtime_episodes_for_run ''r1'' None 50 demo_claimed)) ''e1'' = 0"
proof -
  have r: "py_strip ''r1'' = ''r1''" "''r1'' \<noteq> []" by code_simp+
  have "''e1'' \<in> set (fst (cancel_active_runtime_episodes_for_run ''r1'' None 50 demo_claimed))" by code_simp
  then show ?thesis using run_end_cancels_its_episodes [OF demo_claimed_wf r surjective_pairing] by blast
qed

end
