(* ===== verification/NetSchema.thy ===== *)
theory NetSchema
  imports Schema "HOL-Library.List_Lexorder" "HOL-Library.Char_ord" "HOL-Library.Product_Lexorder"
begin

text \<open>
  The rows of the neighbour and relay tables (core/database_schema.py) and the state they form.
  As in the runtime tables a JSON column is the value it decodes to. Foreign keys are enforced by
  the database: an insertion whose parent row is missing fails and the transaction with it.
\<close>

record link_rec =
  nl_id :: string
  nl_peer :: string
  nl_local_nickname :: string
  nl_remote_nickname :: string
  nl_local_role :: string
  nl_remote_role :: string
  nl_trust :: string
  nl_binding :: dict
  nl_metadata :: dict
  nl_paired :: time
  nl_last_seen :: "time option"
  nl_created :: time
  nl_updated :: time

record nmsg_rec =
  nm_id :: string
  nm_link :: string
  nm_seq :: int
  nm_direction :: string
  nm_from :: string
  nm_nickname :: string
  nm_role :: string
  nm_body :: string
  nm_preview :: string
  nm_status :: string
  nm_run :: "string option"
  nm_binding :: dict
  nm_metadata :: dict
  nm_created :: time
  nm_received :: time

record wake_rec =
  wq_id :: string
  wq_link :: string
  wq_message :: string
  wq_run :: string
  wq_state :: string
  wq_attempts :: int
  wq_max :: int
  wq_available :: "time option"
  wq_claimed_by :: "string option"
  wq_lease :: "time option"
  wq_error :: "string option"
  wq_payload :: dict
  wq_created :: time
  wq_updated :: time
  wq_completed :: "time option"
  wq_failed :: "time option"

record ntask_rec =
  nt_id :: string
  nt_title :: "string option"
  nt_body :: string
  nt_status :: string
  nt_mode :: string
  nt_session :: "string option"
  nt_run :: "string option"
  nt_wake :: string
  nt_capabilities :: "json list"
  nt_binding :: dict
  nt_metadata :: dict
  nt_deadline :: "string option"
  nt_created :: time
  nt_updated :: time
  nt_completed :: "time option"

record nassign_rec =
  na_id :: string
  na_task :: string
  na_link :: string
  na_peer :: string
  na_parent :: "string option"
  na_depth :: int
  na_status :: string
  na_body :: string
  na_capabilities :: "json list"
  na_wake :: string
  na_run :: "string option"
  na_result :: "string option"
  na_error :: "string option"
  na_metadata :: dict
  na_created :: time
  na_updated :: time
  na_completed :: "time option"

record nresult_rec =
  nr_id :: string
  nr_task :: string
  nr_assignment :: string
  nr_link :: string
  nr_peer :: string
  nr_status :: string
  nr_summary :: "string option"
  nr_body :: "string option"
  nr_attention :: bool
  nr_capabilities :: "json list"
  nr_reason :: "string option"
  nr_metadata :: dict
  nr_created :: time

record outbox_rec =
  ob_id :: string
  ob_peer :: string
  ob_link :: "string option"
  ob_message :: "string option"
  ob_envelope :: dict
  ob_state :: string
  ob_attempts :: int
  ob_max :: int
  ob_available :: "time option"
  ob_claimed_by :: "string option"
  ob_lease :: "time option"
  ob_relay_message :: "string option"
  ob_error :: "string option"
  ob_created :: time
  ob_updated :: time
  ob_published :: "time option"
  ob_failed :: "time option"

record cursor_rec =
  rl_peer :: string
  rl_cursor :: string
  rl_updated :: time

record ack_rec =
  ac_id :: string
  ac_peer :: string
  ac_message :: string
  ac_state :: string
  ac_metadata :: dict
  ac_created :: time

record dead_rec =
  dl_id :: string
  dl_direction :: string
  dl_peer :: "string option"
  dl_message :: "string option"
  dl_outbox :: "string option"
  dl_envelope :: dict
  dl_reason :: string
  dl_metadata :: dict
  dl_created :: time

record net_db =
  nd_links :: "link_rec list"
  nd_messages :: "nmsg_rec list"
  nd_wakes :: "wake_rec list"
  nd_tasks :: "ntask_rec list"
  nd_assignments :: "nassign_rec list"
  nd_results :: "nresult_rec list"
  nd_outbox :: "outbox_rec list"
  nd_cursors :: "cursor_rec list"
  nd_acks :: "ack_rec list"
  nd_dead :: "dead_rec list"

definition empty_net :: net_db where
  "empty_net = \<lparr>nd_links = [], nd_messages = [], nd_wakes = [], nd_tasks = [], nd_assignments = [],
     nd_results = [], nd_outbox = [], nd_cursors = [], nd_acks = [], nd_dead = []\<rparr>"

abbreviation link_of :: "string \<Rightarrow> net_db \<Rightarrow> link_rec option" where
  "link_of k d \<equiv> sel_by nl_id k (nd_links d)"

abbreviation message_of :: "string \<Rightarrow> net_db \<Rightarrow> nmsg_rec option" where
  "message_of k d \<equiv> sel_by nm_id k (nd_messages d)"

abbreviation wake_of :: "string \<Rightarrow> net_db \<Rightarrow> wake_rec option" where
  "wake_of k d \<equiv> sel_by wq_id k (nd_wakes d)"

abbreviation ntask_of :: "string \<Rightarrow> net_db \<Rightarrow> ntask_rec option" where
  "ntask_of k d \<equiv> sel_by nt_id k (nd_tasks d)"

abbreviation nassign_of :: "string \<Rightarrow> net_db \<Rightarrow> nassign_rec option" where
  "nassign_of k d \<equiv> sel_by na_id k (nd_assignments d)"

abbreviation nresult_of :: "string \<Rightarrow> net_db \<Rightarrow> nresult_rec option" where
  "nresult_of k d \<equiv> sel_by nr_id k (nd_results d)"

abbreviation outbox_of :: "string \<Rightarrow> net_db \<Rightarrow> outbox_rec option" where
  "outbox_of k d \<equiv> sel_by ob_id k (nd_outbox d)"

text \<open>What the operations answer when they do not succeed: the refusals of the code
  (\<^verbatim>\<open>HTTPException\<close>, \<^verbatim>\<open>ValueError\<close>) and the database's own
  (\<^verbatim>\<open>IntegrityError\<close>).\<close>

datatype net_error =
    MissingParent
  | DuplicateRow
  | LinkChanged
  | MessageIdentityConflict
  | ReceiptContentConflict
  | TaskConflict
  | AssignmentConflict
  | UnknownAssignment
  | ResultNotOwned
  | AssignmentSettled
  | ResultConflict

text \<open>\<^verbatim>\<open>max(lo, min(int(n or default), hi))\<close>.\<close>

definition clamp :: "int \<Rightarrow> int \<Rightarrow> int \<Rightarrow> int \<Rightarrow> int" where
  "clamp lo dflt hi n = max lo (min (if n = 0 then dflt else n) hi)"

lemma clamp_bounds: "lo \<le> hi \<Longrightarrow> lo \<le> clamp lo dflt hi n \<and> clamp lo dflt hi n \<le> hi"
  by (simp add: clamp_def)

text \<open>\<^verbatim>\<open>[str(item).strip() for item in (xs or []) if str(item).strip()]\<close>.\<close>

definition nonblank :: "string list \<Rightarrow> string list" where
  "nonblank xs = filter (\<lambda>s. s \<noteq> []) (map py_strip xs)"

definition opt_json :: "string option \<Rightarrow> json" where
  "opt_json x = (case x of None \<Rightarrow> JNull | Some s \<Rightarrow> JStr s)"

definition time_json :: "time option \<Rightarrow> json" where
  "time_json x = (case x of None \<Rightarrow> JNull | Some t \<Rightarrow> JInt t)"

end
