(* ===== verification/NeighborWake.thy ===== *)
theory NeighborWake
  imports NetSchema
begin

text \<open>
  The wake queue of the neighbour network: the queue operations of core/database.py and the
  fenced settlement of core/network_neighbor_delivery.py. An item is one execution requested by a
  peer; an execution whose lease ran out is not repeated but marked as failed for review.
\<close>

section \<open>Operations of core/database.py\<close>

definition new_wake_row ::
  "string \<Rightarrow> string \<Rightarrow> string \<Rightarrow> string \<Rightarrow> int \<Rightarrow> dict \<Rightarrow> time \<Rightarrow> wake_rec" where
  "new_wake_row q link message run limit payload now =
     \<lparr>wq_id = q, wq_link = link, wq_message = message, wq_run = run, wq_state = ''queued'', wq_attempts = 0,
      wq_max = limit, wq_available = Some now, wq_claimed_by = None, wq_lease = None, wq_error = None,
      wq_payload = payload, wq_created = now, wq_updated = now, wq_completed = None, wq_failed = None\<rparr>"

definition get_network_neighbor_wake_queue_item :: "string \<Rightarrow> net_db \<Rightarrow> wake_rec option" where
  "get_network_neighbor_wake_queue_item q d =
     (let k = py_strip q in if k = [] then None else wake_of k d)"

text \<open>An insertion of a queue row, under the constraints of the table.\<close>

definition insert_wake :: "wake_rec \<Rightarrow> net_db \<Rightarrow> net_error option \<times> net_db" where
  "insert_wake row d =
     (if wake_of (wq_id row) d \<noteq> None then (Some DuplicateRow, d)
      else if link_of (wq_link row) d = None \<or> message_of (wq_message row) d = None then (Some MissingParent, d)
      else (None, d\<lparr>nd_wakes := nd_wakes d @ [row]\<rparr>))"

definition add_network_neighbor_wake_queue_item ::
  "string \<Rightarrow> string \<Rightarrow> string \<Rightarrow> string \<Rightarrow> dict \<Rightarrow> int \<Rightarrow> time \<Rightarrow> net_db \<Rightarrow>
     (net_error + wake_rec option) \<times> net_db" where
  "add_network_neighbor_wake_queue_item q link message run payload limit now d =
     (case insert_wake (new_wake_row q link message run (clamp 1 3 10 limit) payload now) d of
        (Some err, d') \<Rightarrow> (Inl err, d')
      | (None, d') \<Rightarrow> (Inr (get_network_neighbor_wake_queue_item q d'), d'))"

text \<open>An execution whose lease has run out. Its assignment fails unless it has a result, and
  its task is closed when all assignments of the task are.\<close>

definition lapsed_wake :: "time \<Rightarrow> wake_rec \<Rightarrow> bool" where
  "lapsed_wake now q \<longleftrightarrow> wq_state q = ''leased'' \<and> at_or_before (wq_lease q) now"

definition interrupted_assignment :: "time \<Rightarrow> nassign_rec \<Rightarrow> nassign_rec" where
  "interrupted_assignment now a =
     a\<lparr>na_status := ''failed'', na_error := Some ''execution_interrupted: inspect effects before retry'',
       na_updated := now\<rparr>"

definition settled_statuses :: "string list" where
  "settled_statuses = [''completed'', ''failed'', ''cancelled'', ''handoff_no_candidate'', ''handoff_review_required'']"

definition task_outcome :: "string set \<Rightarrow> string" where
  "task_outcome states = (if states = {''completed''} then ''completed''
     else if ''completed'' \<in> states then ''degraded'' else ''failed'')"

definition closed_task :: "string \<Rightarrow> time \<Rightarrow> ntask_rec \<Rightarrow> ntask_rec" where
  "closed_task st now t = t\<lparr>nt_status := st, nt_updated := now, nt_completed := Some now\<rparr>"

definition assignment_states :: "string \<Rightarrow> net_db \<Rightarrow> string set" where
  "assignment_states task d = na_status ` set (filter (\<lambda>a. na_task a = task) (nd_assignments d))"

definition reap_assignment :: "time \<Rightarrow> wake_rec \<Rightarrow> net_db \<Rightarrow> net_db" where
  "reap_assignment now q d =
     (if dget (wq_payload q) ''kind'' \<noteq> JStr ''neighbor_task_assignment'' then d
      else
        let assignment = as_text (dget (as_dict (dget (wq_payload q) ''assignment'')) ''assignmentId'');
            task = as_text (dget (as_dict (dget (wq_payload q) ''task'')) ''taskId'');
            d' = d\<lparr>nd_assignments := upd_where (\<lambda>a. na_id a = assignment \<and> na_result a = None)
                   (interrupted_assignment now) (nd_assignments d)\<rparr>;
            states = assignment_states task d'
        in if states \<noteq> {} \<and> states \<subseteq> set settled_statuses
           then d'\<lparr>nd_tasks := upd_where (\<lambda>t. nt_id t = task) (closed_task (task_outcome states) now) (nd_tasks d')\<rparr>
           else d')"

fun reap_assignments :: "time \<Rightarrow> wake_rec list \<Rightarrow> net_db \<Rightarrow> net_db" where
  "reap_assignments now [] d = d"
| "reap_assignments now (q # qs) d = reap_assignments now qs (reap_assignment now q d)"

definition interrupted_wake :: "time \<Rightarrow> wake_rec \<Rightarrow> wake_rec" where
  "interrupted_wake now q =
     q\<lparr>wq_state := ''failed'',
       wq_error := Some ''execution_interrupted: outcome requires review before retry'',
       wq_failed := Some now, wq_updated := now, wq_lease := None\<rparr>"

definition wake_ready :: "time \<Rightarrow> wake_rec \<Rightarrow> bool" where
  "wake_ready now q \<longleftrightarrow> wq_attempts q < wq_max q \<and> wq_state q \<in> {''queued'', ''retry''} \<and>
     expired_or_null (wq_available q) now"

definition leased_wake :: "string \<Rightarrow> time \<Rightarrow> time \<Rightarrow> wake_rec \<Rightarrow> wake_rec" where
  "leased_wake w lease now q =
     q\<lparr>wq_state := ''leased'', wq_attempts := wq_attempts q + 1, wq_claimed_by := Some w,
       wq_lease := Some lease, wq_updated := now\<rparr>"

definition reap_lapsed :: "time \<Rightarrow> net_db \<Rightarrow> net_db" where
  "reap_lapsed now d =
     (let d' = reap_assignments now (filter (lapsed_wake now) (nd_wakes d)) d
      in d'\<lparr>nd_wakes := upd_where (lapsed_wake now) (interrupted_wake now) (nd_wakes d')\<rparr>)"

definition claim_next_network_neighbor_wake_item ::
  "string \<Rightarrow> int \<Rightarrow> time \<Rightarrow> net_db \<Rightarrow> wake_rec option \<times> net_db" where
  "claim_next_network_neighbor_wake_item w seconds now d =
     (let d' = reap_lapsed now d; lease = now + lease_ms 30 180 seconds
      in case first_by wq_created (filter (wake_ready now) (nd_wakes d')) of
           None \<Rightarrow> (None, d')
         | Some q \<Rightarrow>
             (case update_row wq_id (wq_id q) (wake_ready now) (leased_wake w lease now) (nd_wakes d') of
                (ok, t) \<Rightarrow>
                  (let d'' = d'\<lparr>nd_wakes := t\<rparr>
                   in if ok then (wake_of (wq_id q) d'', d'') else (None, d''))))"

definition completed_wake :: "time \<Rightarrow> wake_rec \<Rightarrow> wake_rec" where
  "completed_wake now q =
     q\<lparr>wq_state := ''completed'', wq_completed := Some now, wq_available := None, wq_lease := None,
       wq_updated := now\<rparr>"

definition complete_network_neighbor_wake_item ::
  "string \<Rightarrow> time \<Rightarrow> net_db \<Rightarrow> wake_rec option \<times> net_db" where
  "complete_network_neighbor_wake_item q now d =
     (let d' = d\<lparr>nd_wakes := upd_where (\<lambda>x. wq_id x = q \<and> wq_state x = ''leased'') (completed_wake now) (nd_wakes d)\<rparr>
      in (get_network_neighbor_wake_queue_item q d', d'))"

definition retried_wake :: "bool \<Rightarrow> string \<Rightarrow> time \<Rightarrow> time \<Rightarrow> wake_rec \<Rightarrow> wake_rec" where
  "retried_wake exhausted error available now q =
     q\<lparr>wq_state := (if exhausted then ''failed'' else ''retry''),
       wq_available := (if exhausted then None else Some available), wq_lease := None,
       wq_error := Some (take 1000 error),
       wq_failed := (if exhausted then Some now else wq_failed q), wq_updated := now\<rparr>"

text \<open>The item is read in a transaction of its own: \<open>d0\<close> is the state it was read in.\<close>

definition fail_network_neighbor_wake_item ::
  "string \<Rightarrow> string \<Rightarrow> int \<Rightarrow> time \<Rightarrow> net_db \<Rightarrow> net_db \<Rightarrow> wake_rec option \<times> net_db" where
  "fail_network_neighbor_wake_item q error delay now d0 d =
     (case get_network_neighbor_wake_queue_item q d0 of
        None \<Rightarrow> (None, d)
      | Some x \<Rightarrow>
          let exhausted = (wq_attempts x \<ge> (if wq_max x = 0 then 1 else wq_max x));
              d' = d\<lparr>nd_wakes := upd_where (\<lambda>y. wq_id y = q \<and> wq_state y = ''leased'')
                     (retried_wake exhausted error (now + lease_ms 1 30 delay) now) (nd_wakes d)\<rparr>
          in (get_network_neighbor_wake_queue_item q d', d'))"

section \<open>Settlement by the executor\<close>

text \<open>\<^verbatim>\<open>settle_wake\<close>, \<^verbatim>\<open>renew_wake\<close> and \<^verbatim>\<open>claim_waiting_delivery\<close> are given the item
  as the claim returned it; its worker and its attempt number are the fence.\<close>

definition fenced_wake :: "wake_rec \<Rightarrow> wake_rec \<Rightarrow> bool" where
  "fenced_wake item q \<longleftrightarrow> wq_state q = ''leased'' \<and> wq_claimed_by item \<noteq> None \<and>
     wq_claimed_by q = wq_claimed_by item \<and> wq_attempts q = wq_attempts item"

definition settled_wake :: "string \<Rightarrow> string \<Rightarrow> time \<Rightarrow> wake_rec \<Rightarrow> wake_rec" where
  "settled_wake st error now q =
     q\<lparr>wq_state := st, wq_error := or_none error, wq_updated := now,
       wq_completed := (if st = ''completed'' then Some now else wq_completed q),
       wq_failed := (if st = ''failed'' then Some now else wq_failed q), wq_lease := None\<rparr>"

definition settle_wake :: "wake_rec \<Rightarrow> string \<Rightarrow> string \<Rightarrow> time \<Rightarrow> net_db \<Rightarrow> bool \<times> net_db" where
  "settle_wake item st error now d =
     (let (ok, t) = update_row wq_id (wq_id item) (fenced_wake item) (settled_wake st error now) (nd_wakes d)
      in (ok, d\<lparr>nd_wakes := t\<rparr>))"

definition renewed_wake :: "time \<Rightarrow> time \<Rightarrow> wake_rec \<Rightarrow> wake_rec" where
  "renewed_wake lease now q = q\<lparr>wq_lease := Some lease, wq_updated := now\<rparr>"

definition renew_wake :: "wake_rec \<Rightarrow> int \<Rightarrow> time \<Rightarrow> net_db \<Rightarrow> bool \<times> net_db" where
  "renew_wake item seconds now d =
     (let (ok, t) = update_row wq_id (wq_id item)
            (\<lambda>q. fenced_wake item q \<and> (case wq_lease q of None \<Rightarrow> False | Some e \<Rightarrow> now < e))
            (renewed_wake (now + 1000 * seconds) now) (nd_wakes d)
      in (ok, d\<lparr>nd_wakes := t\<rparr>))"

definition claim_waiting_delivery :: "string \<Rightarrow> string \<Rightarrow> time \<Rightarrow> net_db \<Rightarrow> wake_rec option \<times> net_db" where
  "claim_waiting_delivery q w now d =
     (let P = (\<lambda>x. wq_id x = q \<and> wq_state x \<in> {''waiting_input'', ''waiting_approval''});
          d' = d\<lparr>nd_wakes := upd_where P (leased_wake w (now + 180000) now) (nd_wakes d)\<rparr>
      in (if count_where P (nd_wakes d) \<noteq> 0 then get_network_neighbor_wake_queue_item q d' else None, d'))"

section \<open>Listing and recovery\<close>

definition wake_page :: "int \<Rightarrow> nat" where
  "wake_page limit = nat (clamp 1 50 200 limit)"

text \<open>Without a recovery mode: newest first, then by identifier.\<close>

definition list_network_neighbor_wake_queue :: "string list \<Rightarrow> int \<Rightarrow> net_db \<Rightarrow> wake_rec list" where
  "list_network_neighbor_wake_queue states limit d =
     (let wanted = nonblank states
      in take (wake_page limit) (sort_key (\<lambda>q. (- wq_created q, wq_id q))
           (filter (\<lambda>q. wanted = [] \<or> wq_state q \<in> set wanted) (nd_wakes d))))"

definition delivered_statuses :: "string list" where
  "delivered_statuses = [''delivered'', ''queued'', ''published'']"

text \<open>The last outbound result of the assignment named in the payload
  (\<^verbatim>\<open>ORDER BY created_at DESC, rowid DESC LIMIT 1\<close>).\<close>

definition payload_assignment :: "wake_rec \<Rightarrow> string option" where
  "payload_assignment q = (case dget (as_dict (dget (wq_payload q) ''assignment'')) ''assignmentId'' of
     JStr a \<Rightarrow> Some a | _ \<Rightarrow> None)"

definition latest_outbound :: "wake_rec \<Rightarrow> net_db \<Rightarrow> nresult_rec option" where
  "latest_outbound q d = first_by (\<lambda>r. - nr_created r)
     (rev (filter (\<lambda>r. Some (nr_assignment r) = payload_assignment q \<and>
        dget (nr_metadata r) ''direction'' = JStr ''outbound'') (nd_results d)))"

definition undelivered :: "wake_rec \<Rightarrow> net_db \<Rightarrow> bool" where
  "undelivered q d = (case latest_outbound q d of
     None \<Rightarrow> True
   | Some r \<Rightarrow> \<not> (\<exists>m \<in> set (nd_messages d). nm_status m \<in> set delivered_statuses \<and> nm_id m = nr_id r))"

definition recovery_due :: "time \<Rightarrow> wake_rec \<Rightarrow> bool" where
  "recovery_due now q \<longleftrightarrow>
     wq_state q = ''failed'' \<and> dget (wq_payload q) ''kind'' = JStr ''neighbor_task_assignment'' \<and>
     (case dget (wq_payload q) ''deliveryRecoveryAttempts'' of JInt n \<Rightarrow> n < 3 | _ \<Rightarrow> True) \<and>
     (case dget (wq_payload q) ''deliveryRetryAt'' of JInt t \<Rightarrow> t \<le> now | _ \<Rightarrow> True)"

definition list_delivery_recovery :: "string list \<Rightarrow> int \<Rightarrow> time \<Rightarrow> net_db \<Rightarrow> wake_rec list" where
  "list_delivery_recovery states limit now d =
     (let wanted = nonblank states
      in take (wake_page limit) (sort_key (\<lambda>q. (wq_created q, wq_id q))
           (filter (\<lambda>q. (wanted = [] \<or> wq_state q \<in> set wanted) \<and> recovery_due now q \<and> undelivered q d)
             (nd_wakes d))))"

definition run_over_statuses :: "string list" where
  "run_over_statuses = [''finished'', ''completed'', ''failed'', ''cancelled'', ''aborted'', ''error'']"

definition list_terminal_run_recovery :: "string list \<Rightarrow> int \<Rightarrow> db \<Rightarrow> net_db \<Rightarrow> wake_rec list" where
  "list_terminal_run_recovery states limit runs d =
     (let wanted = nonblank states
      in take (wake_page limit) (sort_key (\<lambda>q. (wq_created q, wq_id q))
           (filter (\<lambda>q. (wanted = [] \<or> wq_state q \<in> set wanted) \<and>
              wq_state q \<in> {''waiting_input'', ''waiting_approval''} \<and>
              (case run_of (wq_run q) runs of None \<Rightarrow> False | Some r \<Rightarrow> rn_status r \<in> set run_over_statuses))
             (nd_wakes d))))"

text \<open>The bookkeeping of a delivery retry and the return of a failed item whose run only waits
  (runtimes/network_supervisor/neighbor.py).\<close>

definition recovery_payload :: "time \<Rightarrow> dict \<Rightarrow> dict" where
  "recovery_payload now p =
     dset ''deliveryRetryAt'' (JInt (now + 30000))
       (dset ''deliveryRecoveryAttempts''
         (JInt ((case dget p ''deliveryRecoveryAttempts'' of JInt n \<Rightarrow> n | _ \<Rightarrow> 0) + 1)) p)"

definition note_delivery_retry :: "wake_rec \<Rightarrow> time \<Rightarrow> net_db \<Rightarrow> net_db" where
  "note_delivery_retry item now d =
     d\<lparr>nd_wakes := upd_where (\<lambda>q. wq_id q = wq_id item \<and> wq_state q = ''failed'')
        (\<lambda>q. q\<lparr>wq_payload := recovery_payload now (wq_payload item)\<rparr>) (nd_wakes d)\<rparr>"

definition restorable :: "string option \<Rightarrow> net_db \<Rightarrow> wake_rec \<Rightarrow> nresult_rec option" where
  "restorable queue d q =
     (if wq_state q \<noteq> ''failed'' \<or> (queue \<noteq> None \<and> queue \<noteq> Some (wq_id q))
         \<or> dget (wq_payload q) ''kind'' \<noteq> JStr ''neighbor_task_assignment'' then None
      else case latest_outbound q d of
        None \<Rightarrow> None
      | Some r \<Rightarrow>
          (case message_of (nr_id r) d of
             None \<Rightarrow> None
           | Some m \<Rightarrow>
               if nm_link m = wq_link q \<and> nr_link r = wq_link q
                  \<and> dget (nr_metadata r) ''runId'' = JStr (wq_run q)
                  \<and> nr_status r \<in> {''waiting_input'', ''waiting_approval''}
                  \<and> nm_direction m = ''outbound'' \<and> nm_status m \<in> set delivered_statuses
               then Some r else None))"

definition restored_wake :: "string \<Rightarrow> time \<Rightarrow> wake_rec \<Rightarrow> wake_rec" where
  "restored_wake st now q =
     q\<lparr>wq_state := st, wq_error := None, wq_failed := None, wq_lease := None, wq_updated := now\<rparr>"

definition restore_waiting_result_receipt :: "string option \<Rightarrow> time \<Rightarrow> net_db \<Rightarrow> bool \<times> net_db" where
  "restore_waiting_result_receipt queue now d =
     (case first_by (\<lambda>q. (wq_created q, wq_id q)) (filter (\<lambda>q. restorable queue d q \<noteq> None) (nd_wakes d)) of
        None \<Rightarrow> (False, d)
      | Some q \<Rightarrow>
          (case restorable queue d q of
             None \<Rightarrow> (False, d)
           | Some r \<Rightarrow>
               (let (ok, t) = update_row wq_id (wq_id q) (\<lambda>x. wq_run x = wq_run q \<and> wq_state x = ''failed'')
                      (restored_wake (nr_status r) now) (nd_wakes d)
                in (ok, d\<lparr>nd_wakes := t\<rparr>))))"

end
