(* ===== verification/NeighborStore.thy ===== *)
theory NeighborStore
  imports NeighborWake Streams
begin

text \<open>
  Links, messages, tasks, assignments and results of the neighbour network: the store operations
  of core/database.py. A message is numbered within its link; a task has assignments to peers, an
  assignment a result.
\<close>

section \<open>Links\<close>

record link_args =
  la_id :: string
  la_peer :: string
  la_local_nickname :: string
  la_remote_nickname :: string
  la_local_role :: string
  la_remote_role :: string
  la_trust :: string
  la_binding :: dict
  la_metadata :: dict
  la_last_seen :: "time option"
  la_expected_binding :: "dict option"
  la_expected_updated :: "time option"

text \<open>With an expected binding the write is a compare-and-set on the link of the peer.\<close>

definition link_unchanged :: "link_args \<Rightarrow> net_db \<Rightarrow> bool" where
  "link_unchanged a d =
     (case la_expected_binding a of
        None \<Rightarrow> True
      | Some b \<Rightarrow> (case sel_by nl_peer (la_peer a) (nd_links d) of
            None \<Rightarrow> False
          | Some l \<Rightarrow> nl_id l = la_id a \<and> nl_trust l = ''trusted'' \<and> py_eq (JObj (nl_binding l)) (JObj b)
              \<and> (la_expected_updated a = None \<or> la_expected_updated a = Some (nl_updated l))))"

definition new_link_row :: "link_args \<Rightarrow> time \<Rightarrow> link_rec" where
  "new_link_row a now =
     \<lparr>nl_id = la_id a, nl_peer = la_peer a, nl_local_nickname = la_local_nickname a,
      nl_remote_nickname = la_remote_nickname a, nl_local_role = or_text (la_local_role a) ''primary'',
      nl_remote_role = or_text (la_remote_role a) ''companion'', nl_trust = or_text (la_trust a) ''trusted'',
      nl_binding = la_binding a, nl_metadata = la_metadata a, nl_paired = now,
      nl_last_seen = coalesce (la_last_seen a) (Some now), nl_created = now, nl_updated = now\<rparr>"

definition updated_link_row :: "link_rec \<Rightarrow> link_rec \<Rightarrow> link_rec" where
  "updated_link_row new l =
     l\<lparr>nl_id := nl_id new, nl_local_nickname := nl_local_nickname new,
       nl_remote_nickname := nl_remote_nickname new, nl_local_role := nl_local_role new,
       nl_remote_role := nl_remote_role new, nl_trust := nl_trust new, nl_binding := nl_binding new,
       nl_metadata := nl_metadata new, nl_last_seen := coalesce (nl_last_seen new) (nl_last_seen l),
       nl_updated := nl_updated new\<rparr>"

text \<open>A link that messages, queue rows, assignments or results refer to cannot change its
  identifier, and two links cannot share one.\<close>

definition link_referenced :: "string \<Rightarrow> net_db \<Rightarrow> bool" where
  "link_referenced l d \<longleftrightarrow> l \<in> nm_link ` set (nd_messages d) \<or> l \<in> wq_link ` set (nd_wakes d) \<or>
     l \<in> na_link ` set (nd_assignments d) \<or> l \<in> nr_link ` set (nd_results d)"

definition upsert_network_neighbor_link ::
  "link_args \<Rightarrow> time \<Rightarrow> net_db \<Rightarrow> (net_error + link_rec option) \<times> net_db" where
  "upsert_network_neighbor_link a now d =
     (let new = new_link_row a now; old = sel_by nl_peer (la_peer a) (nd_links d)
      in if \<not> link_unchanged a d then (Inl LinkChanged, d)
         else case old of
           None \<Rightarrow>
             if link_of (la_id a) d \<noteq> None then (Inl DuplicateRow, d)
             else (Inr (Some new), d\<lparr>nd_links := nd_links d @ [new]\<rparr>)
         | Some l \<Rightarrow>
             if la_id a \<noteq> nl_id l \<and> link_of (la_id a) d \<noteq> None then (Inl DuplicateRow, d)
             else if la_id a \<noteq> nl_id l \<and> link_referenced (nl_id l) d then (Inl MissingParent, d)
             else
               let d' = d\<lparr>nd_links := upd_where (\<lambda>x. nl_peer x = la_peer a) (updated_link_row new) (nd_links d)\<rparr>
               in (Inr (sel_by nl_peer (la_peer a) (nd_links d')), d'))"

definition get_network_neighbor_link :: "string \<Rightarrow> net_db \<Rightarrow> link_rec option" where
  "get_network_neighbor_link l d = (let k = py_strip l in if k = [] then None else link_of k d)"

definition get_network_neighbor_link_by_peer :: "string \<Rightarrow> net_db \<Rightarrow> link_rec option" where
  "get_network_neighbor_link_by_peer p d =
     (let k = py_strip p in if k = [] then None else sel_by nl_peer k (nd_links d))"

definition list_network_neighbor_links :: "net_db \<Rightarrow> link_rec list" where
  "list_network_neighbor_links d = sort_key (\<lambda>l. (- nl_updated l, - nl_paired l)) (nd_links d)"

text \<open>Deleting a link deletes everything that refers to it, and the results of its
  assignments.\<close>

definition delete_network_neighbor_link :: "string \<Rightarrow> net_db \<Rightarrow> bool \<times> net_db" where
  "delete_network_neighbor_link l d =
     (let k = py_strip l;
          assignments = filter (\<lambda>a. na_link a \<noteq> k) (nd_assignments d);
          gone = na_id ` set (filter (\<lambda>a. na_link a = k) (nd_assignments d));
          messages = filter (\<lambda>m. nm_link m \<noteq> k) (nd_messages d);
          unread = nm_id ` set (filter (\<lambda>m. nm_link m = k) (nd_messages d))
      in if k = [] \<or> link_of k d = None then (False, d)
         else (True, d\<lparr>nd_links := filter (\<lambda>x. nl_id x \<noteq> k) (nd_links d), nd_messages := messages,
                nd_wakes := filter (\<lambda>q. wq_link q \<noteq> k \<and> wq_message q \<notin> unread) (nd_wakes d),
                nd_assignments := assignments,
                nd_results := filter (\<lambda>r. nr_link r \<noteq> k \<and> nr_assignment r \<notin> gone) (nd_results d)\<rparr>))"

section \<open>Messages\<close>

definition link_seqs :: "net_db \<Rightarrow> string \<Rightarrow> int list" where
  "link_seqs d l = map nm_seq (filter (\<lambda>m. nm_link m = l) (nd_messages d))"

fun max_or_zero :: "int list \<Rightarrow> int" where
  "max_or_zero [] = 0"
| "max_or_zero [x] = x"
| "max_or_zero (x # xs) = max x (max_or_zero xs)"

definition next_network_neighbor_message_seq :: "net_db \<Rightarrow> string \<Rightarrow> int" where
  "next_network_neighbor_message_seq d l = max_or_zero (link_seqs d l) + 1"

record message_args =
  ma_id :: string
  ma_link :: string
  ma_direction :: string
  ma_from :: string
  ma_nickname :: string
  ma_role :: string
  ma_body :: string
  ma_preview :: string
  ma_status :: string
  ma_run :: "string option"
  ma_binding :: dict
  ma_metadata :: dict

definition new_message_row :: "message_args \<Rightarrow> int \<Rightarrow> time \<Rightarrow> nmsg_rec" where
  "new_message_row a n now =
     \<lparr>nm_id = ma_id a, nm_link = ma_link a, nm_seq = n, nm_direction = ma_direction a, nm_from = ma_from a,
      nm_nickname = ma_nickname a, nm_role = ma_role a, nm_body = ma_body a, nm_preview = ma_preview a,
      nm_status = or_text (ma_status a) ''stored'', nm_run = ma_run a, nm_binding = ma_binding a,
      nm_metadata = ma_metadata a, nm_created = now, nm_received = now\<rparr>"

definition same_message :: "message_args \<Rightarrow> nmsg_rec \<Rightarrow> bool" where
  "same_message a m \<longleftrightarrow> nm_link m = ma_link a \<and> nm_direction m = ma_direction a \<and>
     nm_from m = ma_from a \<and> nm_body m = ma_body a"

definition touched_link :: "bool \<Rightarrow> time \<Rightarrow> link_rec \<Rightarrow> link_rec" where
  "touched_link seen now l =
     l\<lparr>nl_updated := now, nl_last_seen := (if seen then Some now else nl_last_seen l)\<rparr>"

text \<open>\<open>run_known\<close> says which runs exist (the foreign key of \<^verbatim>\<open>run_id\<close>).\<close>

definition add_network_neighbor_message ::
  "(string \<Rightarrow> bool) \<Rightarrow> message_args \<Rightarrow> time \<Rightarrow> net_db \<Rightarrow> (net_error + nmsg_rec option) \<times> net_db" where
  "add_network_neighbor_message run_known a now d =
     (case message_of (ma_id a) d of
        Some m \<Rightarrow> if same_message a m then (Inr (Some m), d) else (Inl MessageIdentityConflict, d)
      | None \<Rightarrow>
          let row = new_message_row a (next_network_neighbor_message_seq d (ma_link a)) now
          in if link_of (ma_link a) d = None \<or> (case ma_run a of None \<Rightarrow> False | Some r \<Rightarrow> \<not> run_known r)
             then (Inl MissingParent, d)
             else (Inr (Some row),
                   d\<lparr>nd_messages := nd_messages d @ [row],
                     nd_links := upd_where (\<lambda>l. nl_id l = ma_link a)
                       (touched_link (ma_direction a = ''inbound'') now) (nd_links d)\<rparr>))"

definition list_network_neighbor_messages ::
  "string \<Rightarrow> int option \<Rightarrow> int option \<Rightarrow> bool \<Rightarrow> int \<Rightarrow> net_db \<Rightarrow> nmsg_rec list" where
  "list_network_neighbor_messages l after before latest limit d =
     (let descending = (latest \<or> before \<noteq> None);
          rows = filter (\<lambda>m. nm_link m = l \<and> (case after of None \<Rightarrow> True | Some n \<Rightarrow> n < nm_seq m)
                   \<and> (case before of None \<Rightarrow> True | Some n \<Rightarrow> nm_seq m < n)) (nd_messages d);
          page = take (wake_page limit) (sort_key (\<lambda>m. if descending then - nm_seq m else nm_seq m) rows)
      in if descending then rev page else page)"

definition reported_message :: "string \<Rightarrow> time \<Rightarrow> nmsg_rec \<Rightarrow> nmsg_rec" where
  "reported_message st now m = m\<lparr>nm_status := st, nm_received := now\<rparr>"

definition update_network_neighbor_message_status ::
  "string \<Rightarrow> string \<Rightarrow> time \<Rightarrow> net_db \<Rightarrow> nmsg_rec option \<times> net_db" where
  "update_network_neighbor_message_status m st now d =
     (let k = py_strip m
      in if k = [] then (None, d)
         else
           let d' = d\<lparr>nd_messages := upd_where (\<lambda>x. nm_id x = k)
                  (reported_message (or_text (py_strip st) ''stored'') now) (nd_messages d)\<rparr>
           in (message_of k d', d'))"

section \<open>Tasks\<close>

record task_args =
  tk_id :: string
  tk_title :: "string option"
  tk_body :: string
  tk_status :: string
  tk_mode :: string
  tk_session :: "string option"
  tk_run :: "string option"
  tk_wake :: string
  tk_capabilities :: "json list"
  tk_binding :: dict
  tk_metadata :: dict
  tk_deadline :: "string option"

definition new_task_row :: "task_args \<Rightarrow> time \<Rightarrow> ntask_rec" where
  "new_task_row a now =
     \<lparr>nt_id = tk_id a, nt_title = tk_title a, nt_body = tk_body a, nt_status = or_text (tk_status a) ''queued'',
      nt_mode = or_text (tk_mode a) ''auto'', nt_session = tk_session a, nt_run = tk_run a,
      nt_wake = or_text (tk_wake a) ''inbox'', nt_capabilities = tk_capabilities a, nt_binding = tk_binding a,
      nt_metadata = tk_metadata a, nt_deadline = tk_deadline a, nt_created = now, nt_updated = now,
      nt_completed = None\<rparr>"

definition updated_task_row :: "ntask_rec \<Rightarrow> ntask_rec \<Rightarrow> ntask_rec" where
  "updated_task_row new t =
     t\<lparr>nt_title := nt_title new, nt_body := nt_body new, nt_status := nt_status new, nt_mode := nt_mode new,
       nt_session := coalesce (nt_session new) (nt_session t), nt_run := coalesce (nt_run new) (nt_run t),
       nt_wake := nt_wake new, nt_capabilities := nt_capabilities new, nt_binding := nt_binding new,
       nt_metadata := nt_metadata new, nt_deadline := coalesce (nt_deadline new) (nt_deadline t),
       nt_updated := nt_updated new\<rparr>"

definition upsert_network_neighbor_task :: "task_args \<Rightarrow> time \<Rightarrow> net_db \<Rightarrow> net_db" where
  "upsert_network_neighbor_task a now d =
     (let new = new_task_row a now
      in d\<lparr>nd_tasks := (if ntask_of (tk_id a) d = None then nd_tasks d @ [new]
              else upd_where (\<lambda>t. nt_id t = tk_id a) (updated_task_row new) (nd_tasks d))\<rparr>)"

definition get_network_neighbor_task :: "string \<Rightarrow> net_db \<Rightarrow> ntask_rec option" where
  "get_network_neighbor_task t d = (let k = py_strip t in if k = [] then None else ntask_of k d)"

definition task_status_row :: "string \<Rightarrow> bool \<Rightarrow> time \<Rightarrow> ntask_rec \<Rightarrow> ntask_rec" where
  "task_status_row st completed now t =
     t\<lparr>nt_status := st, nt_completed := (if completed then coalesce (nt_completed t) (Some now) else nt_completed t),
       nt_updated := now\<rparr>"

definition update_network_neighbor_task_status ::
  "string \<Rightarrow> string \<Rightarrow> bool \<Rightarrow> time \<Rightarrow> net_db \<Rightarrow> net_db" where
  "update_network_neighbor_task_status t st completed now d =
     d\<lparr>nd_tasks := upd_where (\<lambda>x. nt_id x = t) (task_status_row st completed now) (nd_tasks d)\<rparr>"

definition list_network_neighbor_tasks :: "string list \<Rightarrow> int \<Rightarrow> net_db \<Rightarrow> ntask_rec list" where
  "list_network_neighbor_tasks statuses limit d =
     (let wanted = nonblank statuses
      in take (wake_page limit) (sort_key (\<lambda>t. (- nt_updated t, - nt_created t))
           (filter (\<lambda>t. wanted = [] \<or> nt_status t \<in> set wanted) (nd_tasks d))))"

section \<open>Assignments\<close>

record nassign_args =
  aa_id :: string
  aa_task :: string
  aa_link :: string
  aa_peer :: string
  aa_body :: string
  aa_parent :: "string option"
  aa_depth :: int
  aa_status :: string
  aa_capabilities :: "json list"
  aa_wake :: string
  aa_run :: "string option"
  aa_result :: "string option"
  aa_error :: "string option"
  aa_metadata :: dict

definition new_assignment_row :: "nassign_args \<Rightarrow> time \<Rightarrow> nassign_rec" where
  "new_assignment_row a now =
     \<lparr>na_id = aa_id a, na_task = aa_task a, na_link = aa_link a, na_peer = aa_peer a, na_parent = aa_parent a,
      na_depth = max 0 (aa_depth a), na_status = or_text (aa_status a) ''queued'', na_body = aa_body a,
      na_capabilities = aa_capabilities a, na_wake = or_text (aa_wake a) ''inbox'', na_run = aa_run a,
      na_result = aa_result a, na_error = aa_error a, na_metadata = aa_metadata a, na_created = now,
      na_updated = now, na_completed = None\<rparr>"

definition updated_assignment_row :: "nassign_rec \<Rightarrow> nassign_rec \<Rightarrow> nassign_rec" where
  "updated_assignment_row new a =
     a\<lparr>na_status := na_status new, na_body := na_body new, na_capabilities := na_capabilities new,
       na_wake := na_wake new, na_run := coalesce (na_run new) (na_run a),
       na_result := coalesce (na_result new) (na_result a), na_error := coalesce (na_error new) (na_error a),
       na_metadata := na_metadata new, na_updated := na_updated new\<rparr>"

definition assignment_parents :: "(string \<Rightarrow> bool) \<Rightarrow> nassign_rec \<Rightarrow> net_db \<Rightarrow> bool" where
  "assignment_parents run_known a d \<longleftrightarrow> ntask_of (na_task a) d \<noteq> None \<and> link_of (na_link a) d \<noteq> None \<and>
     (case na_run a of None \<Rightarrow> True | Some r \<Rightarrow> run_known r)"

definition upsert_network_neighbor_assignment ::
  "(string \<Rightarrow> bool) \<Rightarrow> nassign_args \<Rightarrow> time \<Rightarrow> net_db \<Rightarrow> net_error option \<times> net_db" where
  "upsert_network_neighbor_assignment run_known a now d =
     (let new = new_assignment_row a now
      in if nassign_of (aa_id a) d = None
         then (if assignment_parents run_known new d
               then (None, d\<lparr>nd_assignments := nd_assignments d @ [new]\<rparr>) else (Some MissingParent, d))
         else if (case na_run new of None \<Rightarrow> False | Some r \<Rightarrow> \<not> run_known r) then (Some MissingParent, d)
         else (None, d\<lparr>nd_assignments := upd_where (\<lambda>x. na_id x = aa_id a) (updated_assignment_row new)
                         (nd_assignments d)\<rparr>))"

definition get_network_neighbor_assignment :: "string \<Rightarrow> net_db \<Rightarrow> nassign_rec option" where
  "get_network_neighbor_assignment a d = (let k = py_strip a in if k = [] then None else nassign_of k d)"

record assignment_status =
  as_status :: string
  as_run :: "string option"
  as_result :: "string option"
  as_error :: "string option"
  as_completed :: bool
  as_only_without_result :: bool

definition assignment_status_row :: "assignment_status \<Rightarrow> time \<Rightarrow> nassign_rec \<Rightarrow> nassign_rec" where
  "assignment_status_row u now a =
     a\<lparr>na_status := as_status u, na_run := coalesce (as_run u) (na_run a),
       na_result := coalesce (as_result u) (na_result a), na_error := coalesce (as_error u) (na_error a),
       na_completed := (if as_completed u then coalesce (na_completed a) (Some now) else na_completed a),
       na_updated := now\<rparr>"

definition update_network_neighbor_assignment_status ::
  "(string \<Rightarrow> bool) \<Rightarrow> string \<Rightarrow> assignment_status \<Rightarrow> time \<Rightarrow> net_db \<Rightarrow> net_error option \<times> net_db" where
  "update_network_neighbor_assignment_status run_known k u now d =
     (let P = (\<lambda>a. na_id a = k \<and> (\<not> as_only_without_result u \<or> na_result a = None))
      in if (case as_run u of None \<Rightarrow> False | Some r \<Rightarrow> \<not> run_known r) \<and> count_where P (nd_assignments d) \<noteq> 0
         then (Some MissingParent, d)
         else (None, d\<lparr>nd_assignments := upd_where P (assignment_status_row u now) (nd_assignments d)\<rparr>))"

definition list_network_neighbor_assignments ::
  "string option \<Rightarrow> string option \<Rightarrow> string list \<Rightarrow> int \<Rightarrow> net_db \<Rightarrow> nassign_rec list" where
  "list_network_neighbor_assignments task link statuses limit d =
     (let wanted = nonblank statuses; given = (\<lambda>x v. case x of None \<Rightarrow> True | Some s \<Rightarrow> s = [] \<or> v = s)
      in take (nat (clamp 1 100 500 limit)) (sort_key na_created
           (filter (\<lambda>a. given task (na_task a) \<and> given link (na_link a) \<and>
              (wanted = [] \<or> na_status a \<in> set wanted)) (nd_assignments d))))"

section \<open>Results\<close>

record result_args =
  rs_id :: string
  rs_task :: string
  rs_assignment :: string
  rs_link :: string
  rs_peer :: string
  rs_outcome :: string
  rs_summary :: "string option"
  rs_body :: "string option"
  rs_attention :: bool
  rs_capabilities :: "json list"
  rs_reason :: "string option"
  rs_meta :: dict

definition new_result_row :: "result_args \<Rightarrow> time \<Rightarrow> nresult_rec" where
  "new_result_row a now =
     \<lparr>nr_id = rs_id a, nr_task = rs_task a, nr_assignment = rs_assignment a, nr_link = rs_link a,
      nr_peer = rs_peer a, nr_status = rs_outcome a, nr_summary = rs_summary a, nr_body = rs_body a,
      nr_attention = rs_attention a, nr_capabilities = rs_capabilities a, nr_reason = rs_reason a,
      nr_metadata = rs_meta a, nr_created = now\<rparr>"

definition result_parents :: "nresult_rec \<Rightarrow> net_db \<Rightarrow> bool" where
  "result_parents r d \<longleftrightarrow> ntask_of (nr_task r) d \<noteq> None \<and> nassign_of (nr_assignment r) d \<noteq> None \<and>
     link_of (nr_link r) d \<noteq> None"

text \<open>\<^verbatim>\<open>INSERT OR IGNORE\<close>: an existing row stays; a missing parent is still an
  error.\<close>

definition add_network_neighbor_task_result :: "result_args \<Rightarrow> time \<Rightarrow> net_db \<Rightarrow> net_error option \<times> net_db" where
  "add_network_neighbor_task_result a now d =
     (let row = (new_result_row a now)\<lparr>nr_status := or_text (rs_outcome a) ''completed''\<rparr>
      in if nresult_of (rs_id a) d \<noteq> None then (None, d)
         else if \<not> result_parents row d then (Some MissingParent, d)
         else (None, d\<lparr>nd_results := nd_results d @ [row]\<rparr>))"

definition get_network_neighbor_task_result :: "string \<Rightarrow> net_db \<Rightarrow> nresult_rec option" where
  "get_network_neighbor_task_result r d = (let k = py_strip r in if k = [] then None else nresult_of k d)"

definition list_network_neighbor_task_results ::
  "string option \<Rightarrow> string option \<Rightarrow> int \<Rightarrow> net_db \<Rightarrow> nresult_rec list" where
  "list_network_neighbor_task_results task assignment limit d =
     (let given = (\<lambda>x v. case x of None \<Rightarrow> True | Some s \<Rightarrow> s = [] \<or> v = s)
      in take (nat (clamp 1 100 500 limit)) (sort_key nr_created
           (filter (\<lambda>r. given task (nr_task r) \<and> given assignment (nr_assignment r)) (nd_results d))))"

end
