(* ===== verification/NeighborInbox.thy ===== *)
theory NeighborInbox
  imports NeighborStore
begin

text \<open>
  The inbox of the neighbour network (core/network_neighbor_delivery.py): a signed message becomes
  a receipt, keyed by the sender's business identity, together with the task, assignment or result
  it carries and the wake it asks for, in one transaction. The digest (\<^verbatim>\<open>_digest\<close>) is a
  parameter.
\<close>

section \<open>What a wake carries\<close>

text \<open>The rows as \<^verbatim>\<open>_hydrate_..._row\<close> hands them out; of the JSON columns only the decoded
  values are kept.\<close>

definition message_json :: "nmsg_rec \<Rightarrow> dict" where
  "message_json m =
     [(''id'', JStr (nm_id m)), (''link_id'', JStr (nm_link m)), (''seq'', JInt (nm_seq m)),
      (''direction'', JStr (nm_direction m)), (''from_peer_id'', JStr (nm_from m)),
      (''from_nickname'', JStr (nm_nickname m)), (''role'', JStr (nm_role m)), (''body'', JStr (nm_body m)),
      (''preview'', JStr (nm_preview m)), (''status'', JStr (nm_status m)), (''run_id'', opt_json (nm_run m)),
      (''created_at'', JInt (nm_created m)), (''received_at'', JInt (nm_received m)),
      (''messageId'', JStr (nm_id m)), (''linkId'', JStr (nm_link m)), (''fromPeerId'', JStr (nm_from m)),
      (''fromNickname'', JStr (nm_nickname m)), (''workspaceBinding'', JObj (nm_binding m)),
      (''metadata'', JObj (nm_metadata m)), (''createdAt'', JInt (nm_created m)),
      (''receivedAt'', JInt (nm_received m))]"

definition task_json :: "ntask_rec \<Rightarrow> dict" where
  "task_json t =
     [(''id'', JStr (nt_id t)), (''title'', opt_json (nt_title t)), (''body'', JStr (nt_body t)),
      (''status'', JStr (nt_status t)), (''target_mode'', JStr (nt_mode t)),
      (''origin_session_id'', opt_json (nt_session t)), (''origin_run_id'', opt_json (nt_run t)),
      (''wake_policy'', JStr (nt_wake t)), (''deadline_at'', opt_json (nt_deadline t)),
      (''created_at'', JInt (nt_created t)), (''updated_at'', JInt (nt_updated t)),
      (''completed_at'', time_json (nt_completed t)),
      (''taskId'', JStr (nt_id t)), (''targetMode'', JStr (or_text (nt_mode t) ''auto'')),
      (''originSessionId'', opt_json (nt_session t)), (''originRunId'', opt_json (nt_run t)),
      (''wakePolicy'', JStr (or_text (nt_wake t) ''inbox'')),
      (''requiredCapabilities'', JList (nt_capabilities t)), (''workspaceBinding'', JObj (nt_binding t)),
      (''metadata'', JObj (nt_metadata t)), (''deadlineAt'', opt_json (nt_deadline t)),
      (''createdAt'', JInt (nt_created t)), (''updatedAt'', JInt (nt_updated t)),
      (''completedAt'', time_json (nt_completed t))]"

definition assignment_json :: "nassign_rec \<Rightarrow> dict" where
  "assignment_json a =
     [(''id'', JStr (na_id a)), (''task_id'', JStr (na_task a)), (''link_id'', JStr (na_link a)),
      (''peer_id'', JStr (na_peer a)), (''parent_assignment_id'', opt_json (na_parent a)),
      (''depth'', JInt (na_depth a)), (''status'', JStr (na_status a)), (''body'', JStr (na_body a)),
      (''wake_policy'', JStr (na_wake a)), (''run_id'', opt_json (na_run a)),
      (''result_id'', opt_json (na_result a)), (''error'', opt_json (na_error a)),
      (''created_at'', JInt (na_created a)), (''updated_at'', JInt (na_updated a)),
      (''completed_at'', time_json (na_completed a)),
      (''assignmentId'', JStr (na_id a)), (''taskId'', JStr (na_task a)), (''linkId'', JStr (na_link a)),
      (''peerId'', JStr (na_peer a)), (''parentAssignmentId'', opt_json (na_parent a)),
      (''requiredCapabilities'', JList (na_capabilities a)),
      (''wakePolicy'', JStr (or_text (na_wake a) ''inbox'')), (''runId'', opt_json (na_run a)),
      (''resultId'', opt_json (na_result a)), (''metadata'', JObj (na_metadata a)),
      (''createdAt'', JInt (na_created a)), (''updatedAt'', JInt (na_updated a)),
      (''completedAt'', time_json (na_completed a))]"

definition result_json :: "nresult_rec \<Rightarrow> dict" where
  "result_json r =
     [(''id'', JStr (nr_id r)), (''task_id'', JStr (nr_task r)), (''assignment_id'', JStr (nr_assignment r)),
      (''link_id'', JStr (nr_link r)), (''peer_id'', JStr (nr_peer r)), (''status'', JStr (nr_status r)),
      (''summary'', opt_json (nr_summary r)), (''body'', opt_json (nr_body r)),
      (''needs_attention'', JInt (if nr_attention r then 1 else 0)),
      (''handoff_reason'', opt_json (nr_reason r)), (''created_at'', JInt (nr_created r)),
      (''resultId'', JStr (nr_id r)), (''taskId'', JStr (nr_task r)),
      (''assignmentId'', JStr (nr_assignment r)), (''linkId'', JStr (nr_link r)),
      (''peerId'', JStr (nr_peer r)), (''needsAttention'', JBool (nr_attention r)),
      (''requestedCapabilities'', JList (nr_capabilities r)), (''handoffReason'', opt_json (nr_reason r)),
      (''metadata'', JObj (nr_metadata r)), (''createdAt'', JInt (nr_created r))]"

section \<open>The task and the assignment a message carries\<close>

definition received_task_row :: "task_args \<Rightarrow> time \<Rightarrow> ntask_rec" where
  "received_task_row a now =
     \<lparr>nt_id = tk_id a, nt_title = tk_title a, nt_body = tk_body a, nt_status = ''received'',
      nt_mode = ''inbound'', nt_session = tk_session a, nt_run = tk_run a, nt_wake = tk_wake a,
      nt_capabilities = tk_capabilities a, nt_binding = tk_binding a, nt_metadata = tk_metadata a,
      nt_deadline = None, nt_created = now, nt_updated = now, nt_completed = None\<rparr>"

definition received_assignment_row :: "string \<Rightarrow> nassign_args \<Rightarrow> time \<Rightarrow> nassign_rec" where
  "received_assignment_row task a now =
     \<lparr>na_id = aa_id a, na_task = task, na_link = aa_link a, na_peer = aa_peer a, na_parent = aa_parent a,
      na_depth = aa_depth a, na_status = ''received'', na_body = aa_body a,
      na_capabilities = aa_capabilities a, na_wake = aa_wake a, na_run = None, na_result = None,
      na_error = None, na_metadata = aa_metadata a, na_created = now, na_updated = now,
      na_completed = None\<rparr>"

definition store_task :: "task_args \<Rightarrow> string \<Rightarrow> time \<Rightarrow> net_db \<Rightarrow> net_error + net_db" where
  "store_task task peer now d =
     (case ntask_of (tk_id task) d of
        Some t \<Rightarrow>
          if nt_body t \<noteq> tk_body task \<or> dget (nt_metadata t) ''fromPeerId'' \<noteq> JStr peer
          then Inl TaskConflict else Inr d
      | None \<Rightarrow> Inr (d\<lparr>nd_tasks := nd_tasks d @ [received_task_row task now]\<rparr>))"

definition same_assignment :: "string \<Rightarrow> nassign_args \<Rightarrow> nassign_rec \<Rightarrow> bool" where
  "same_assignment task a x \<longleftrightarrow> na_task x = task \<and> na_peer x = aa_peer a \<and> na_link x = aa_link a \<and>
     py_eq (dget (na_metadata x) ''payloadDigest'') (dget (aa_metadata a) ''payloadDigest'')"

definition store_assignment ::
  "task_args \<Rightarrow> nassign_args \<Rightarrow> time \<Rightarrow> net_db \<Rightarrow> net_error + (dict \<times> dict) \<times> net_db" where
  "store_assignment task a now d =
     (case store_task task (aa_peer a) now d of
        Inl err \<Rightarrow> Inl err
      | Inr d1 \<Rightarrow>
          (let answer = (\<lambda>d'. case (ntask_of (tk_id task) d', nassign_of (aa_id a) d') of
                 (Some t, Some x) \<Rightarrow> Inr ((task_json t, assignment_json x), d')
               | _ \<Rightarrow> Inl MissingParent);
               row = received_assignment_row (tk_id task) a now
           in case nassign_of (aa_id a) d1 of
                Some x \<Rightarrow> if same_assignment (tk_id task) a x then answer d1 else Inl AssignmentConflict
              | None \<Rightarrow>
                  if link_of (aa_link a) d1 = None then Inl MissingParent
                  else answer (d1\<lparr>nd_assignments := nd_assignments d1 @ [row]\<rparr>)))"

section \<open>The result a message carries\<close>

definition final_outcomes :: "string list" where
  "final_outcomes = [''completed'', ''failed'', ''cancelled'']"

definition same_result :: "result_args \<Rightarrow> nresult_rec \<Rightarrow> bool" where
  "same_result a r \<longleftrightarrow> nr_task r = rs_task a \<and> nr_assignment r = rs_assignment a \<and>
     nr_peer r = rs_peer a \<and> nr_body r = rs_body a \<and> nr_status r = rs_outcome a"

definition answered_assignment :: "result_args \<Rightarrow> time \<Rightarrow> nassign_rec \<Rightarrow> nassign_rec" where
  "answered_assignment a now x =
     x\<lparr>na_status := rs_outcome a, na_result := Some (rs_id a), na_updated := now,
       na_completed := (if rs_outcome a \<in> set final_outcomes then Some now else na_completed x)\<rparr>"

definition result_admissible :: "result_args \<Rightarrow> nassign_rec \<Rightarrow> net_error option" where
  "result_admissible a x =
     (if (na_task x, na_peer x, na_link x) \<noteq> (rs_task a, rs_peer a, rs_link a) then Some ResultNotOwned
      else if na_status x \<in> set final_outcomes \<and> na_result x \<notin> {None, Some [], Some (rs_id a)}
      then Some AssignmentSettled
      else None)"

definition record_result :: "result_args \<Rightarrow> time \<Rightarrow> net_db \<Rightarrow> net_error + net_db" where
  "record_result a now d =
     (let row = new_result_row a now
      in case nresult_of (rs_id a) d of
           Some r \<Rightarrow> if same_result a r then Inr d else Inl ResultConflict
         | None \<Rightarrow> if result_parents row d then Inr (d\<lparr>nd_results := nd_results d @ [row]\<rparr>) else Inl MissingParent)"

definition store_result :: "result_args \<Rightarrow> time \<Rightarrow> net_db \<Rightarrow> net_error + dict \<times> net_db" where
  "store_result a now d =
     (case nassign_of (rs_assignment a) d of
        None \<Rightarrow> Inl UnknownAssignment
      | Some x \<Rightarrow>
          (case result_admissible a x of
             Some err \<Rightarrow> Inl err
           | None \<Rightarrow>
               (case record_result a now d of
                  Inl err \<Rightarrow> Inl err
                | Inr d1 \<Rightarrow>
                    (let d2 = d1\<lparr>nd_assignments := upd_where (\<lambda>y. na_id y = rs_assignment a)
                                (answered_assignment a now) (nd_assignments d1)\<rparr>
                     in case nresult_of (rs_id a) d2 of
                          None \<Rightarrow> Inl MissingParent
                        | Some r \<Rightarrow> Inr (result_json r, d2)))))"

section \<open>Receiving a message\<close>

record receive_args =
  rx_link :: dict
  rx_from :: string
  rx_type :: string
  rx_payload :: json
  rx_body :: string
  rx_preview :: string
  rx_binding :: dict
  rx_metadata :: dict
  rx_business :: string
  rx_wake :: "dict option"
  rx_assign :: "(task_args \<times> nassign_args) option"
  rx_result :: "result_args option"
  rx_uuid :: string

record receipt_answer =
  ry_message :: nmsg_rec
  ry_queue :: "wake_rec option"
  ry_duplicate :: bool

definition receive_link :: "receive_args \<Rightarrow> string" where
  "receive_link a = or_text (as_text (dget (rx_link a) ''linkId'')) (as_text (dget (rx_link a) ''id''))"

definition receipt_id :: "(json \<Rightarrow> string) \<Rightarrow> receive_args \<Rightarrow> string" where
  "receipt_id sha a = ''nmsg_in_'' @ sha (JList [JStr (receive_link a), JStr (rx_from a), JStr (rx_type a),
     JStr (rx_business a)])"

text \<open>The task, assignment and result are stored first; what they were stored as goes into the
  wake.\<close>

definition store_seeds :: "receive_args \<Rightarrow> time \<Rightarrow> net_db \<Rightarrow> net_error + dict option \<times> net_db" where
  "store_seeds a now d =
     (case (case rx_assign a of
              None \<Rightarrow> Inr (rx_wake a, d)
            | Some (task, assignment) \<Rightarrow>
                (case store_assignment task assignment now d of
                   Inl err \<Rightarrow> Inl err
                 | Inr ((t, x), d') \<Rightarrow>
                     Inr (Some (dset ''assignment'' (JObj x) (dset ''task'' (JObj t)
                       (case rx_wake a of None \<Rightarrow> [] | Some w \<Rightarrow> w))), d'))) of
        Inl err \<Rightarrow> Inl err
      | Inr (wake, d1) \<Rightarrow>
          (case rx_result a of
             None \<Rightarrow> Inr (wake, d1)
           | Some res \<Rightarrow>
               (case store_result res now d1 of
                  Inl err \<Rightarrow> Inl err
                | Inr (r, d2) \<Rightarrow> Inr (map_option (dset ''result'' (JObj r)) wake, d2))))"

definition receipt_row :: "(json \<Rightarrow> string) \<Rightarrow> receive_args \<Rightarrow> int \<Rightarrow> time \<Rightarrow> nmsg_rec" where
  "receipt_row sha a n now =
     \<lparr>nm_id = receipt_id sha a, nm_link = receive_link a, nm_seq = n, nm_direction = ''inbound'',
      nm_from = rx_from a,
      nm_nickname = or_text (as_text (dget (rx_link a) ''remoteNickname'')) (rx_from a),
      nm_role = or_text (as_text (dget (rx_link a) ''remoteRole'')) ''companion'',
      nm_body = rx_body a, nm_preview = rx_preview a, nm_status = ''received'', nm_run = None,
      nm_binding = rx_binding a,
      nm_metadata = dset ''payloadDigest'' (JStr (sha (rx_payload a)))
        (dset ''remoteMessageId'' (JStr (rx_business a)) (rx_metadata a)),
      nm_created = now, nm_received = now\<rparr>"

definition receipt_wake :: "(json \<Rightarrow> string) \<Rightarrow> receive_args \<Rightarrow> nmsg_rec \<Rightarrow> dict \<Rightarrow> time \<Rightarrow> wake_rec" where
  "receipt_wake sha a m wake now =
     new_wake_row (''nwake_'' @ drop (length ''nmsg_in_'') (receipt_id sha a)) (receive_link a)
       (receipt_id sha a) (''run_'' @ rx_uuid a) 3
       (dset ''sourcePeerId'' (JStr (rx_from a)) (dset ''workspaceBinding'' (JObj (rx_binding a))
         (dset ''inboundMessage'' (JObj (message_json m)) (dset ''link'' (JObj (rx_link a)) wake)))) now"

definition receive_message ::
  "(json \<Rightarrow> string) \<Rightarrow> receive_args \<Rightarrow> time \<Rightarrow> net_db \<Rightarrow> (net_error + receipt_answer) \<times> net_db" where
  "receive_message sha a now d =
     (case message_of (receipt_id sha a) d of
        Some m \<Rightarrow>
          if dget (nm_metadata m) ''payloadDigest'' \<noteq> JStr (sha (rx_payload a))
          then (Inl ReceiptContentConflict, d)
          else (Inr \<lparr>ry_message = m, ry_queue = sel_by wq_message (receipt_id sha a) (nd_wakes d),
                     ry_duplicate = True\<rparr>, d)
      | None \<Rightarrow>
          (case store_seeds a now d of
             Inl err \<Rightarrow> (Inl err, d)
           | Inr (wake, d1) \<Rightarrow>
               (let m = receipt_row sha a (next_network_neighbor_message_seq d1 (receive_link a)) now;
                    d2 = d1\<lparr>nd_messages := nd_messages d1 @ [m]\<rparr>;
                    d3 = (\<lambda>d'. d'\<lparr>nd_links := upd_where (\<lambda>l. nl_id l = receive_link a) (touched_link True now)
                                       (nd_links d')\<rparr>)
                in if link_of (receive_link a) d1 = None then (Inl MissingParent, d)
                   else case wake of
                     None \<Rightarrow> (Inr \<lparr>ry_message = m, ry_queue = None, ry_duplicate = False\<rparr>, d3 d2)
                   | Some w \<Rightarrow>
                       (case insert_wake (receipt_wake sha a m w now) d2 of
                          (Some err, _) \<Rightarrow> (Inl err, d)
                        | (None, d') \<Rightarrow>
                            (Inr \<lparr>ry_message = m, ry_queue = Some (receipt_wake sha a m w now),
                                  ry_duplicate = False\<rparr>, d3 d')))))"

section \<open>The status of a task\<close>

text \<open>\<^verbatim>\<open>_recompute_task_status\<close> and \<^verbatim>\<open>_project_execution_failure\<close>
  (runtimes/network_supervisor/neighbor_tasks.py, neighbor.py).\<close>

definition recompute_task_status :: "string \<Rightarrow> time \<Rightarrow> net_db \<Rightarrow> net_db" where
  "recompute_task_status task now d =
     (let assignments = list_network_neighbor_assignments (Some task) None [] 500 d;
          superseded = concat (map (\<lambda>a. case na_parent a of None \<Rightarrow> [] | Some p \<Rightarrow> if p = [] then [] else [p])
            assignments);
          statuses = na_status ` set (filter (\<lambda>a. na_id a \<notin> set superseded) assignments)
      in if assignments = [] then d
         else if statuses \<noteq> {} \<and> statuses \<subseteq> set settled_statuses
         then update_network_neighbor_task_status task (task_outcome statuses) True now d
         else update_network_neighbor_task_status task
                (if ''running'' \<in> statuses then ''running'' else ''assigned'') False now d)"

definition project_execution_failure :: "(string \<Rightarrow> bool) \<Rightarrow> wake_rec \<Rightarrow> string \<Rightarrow> time \<Rightarrow> net_db \<Rightarrow> net_db" where
  "project_execution_failure run_known q error now d =
     (let assignment = as_text (dget (as_dict (dget (wq_payload q) ''assignment'')) ''assignmentId'');
          d' = snd (update_network_neighbor_assignment_status run_known assignment
                 \<lparr>as_status = ''failed'', as_run = None, as_result = None, as_error = Some error,
                  as_completed = True, as_only_without_result = True\<rparr> now d)
      in if dget (wq_payload q) ''kind'' \<noteq> JStr ''neighbor_task_assignment'' then d
         else case get_network_neighbor_assignment assignment d' of
           None \<Rightarrow> d'
         | Some a \<Rightarrow> recompute_task_status (na_task a) now d')"

end
