(* ===== verification/NeighborHistory.thy ===== *)
theory NeighborHistory
  imports NeighborInbox
begin

text \<open>
  Histories of the neighbour network and what holds along them: a message is received once, a wake
  is executed once unless its execution is explicitly put back, an executor that lost its item is
  fenced, the final result of an assignment stays, and the messages of a link are numbered without
  repetition. A link is never deleted in a history: deletion takes the rows with it.
\<close>

section \<open>Histories\<close>

datatype net_op =
    NReceive receive_args
  | NSend message_args
  | NReport string string
  | NEnqueue string string string string dict int
  | NClaim string int
  | NRenew wake_rec int
  | NSettle wake_rec string string
  | NWaiting string string
  | NComplete string
  | NFail string string int net_db
  | NNote wake_rec
  | NRestore "string option"
  | NLink link_args
  | NTask task_args
  | NTaskStatus string string bool
  | NAssign nassign_args
  | NStatus string assignment_status
  | NResult result_args
  | NProject wake_rec string
  | NRecompute string

fun net_step :: "(json \<Rightarrow> string) \<Rightarrow> (string \<Rightarrow> bool) \<Rightarrow> net_op \<Rightarrow> time \<Rightarrow> net_db \<Rightarrow> net_db" where
  "net_step sha known (NReceive a) now d = snd (receive_message sha a now d)"
| "net_step sha known (NSend a) now d = snd (add_network_neighbor_message known a now d)"
| "net_step sha known (NReport m st) now d = snd (update_network_neighbor_message_status m st now d)"
| "net_step sha known (NEnqueue q l m r p n) now d = snd (add_network_neighbor_wake_queue_item q l m r p n now d)"
| "net_step sha known (NClaim w n) now d = snd (claim_next_network_neighbor_wake_item w n now d)"
| "net_step sha known (NRenew x n) now d = snd (renew_wake x n now d)"
| "net_step sha known (NSettle x st e) now d = snd (settle_wake x st e now d)"
| "net_step sha known (NWaiting q w) now d = snd (claim_waiting_delivery q w now d)"
| "net_step sha known (NComplete q) now d = snd (complete_network_neighbor_wake_item q now d)"
| "net_step sha known (NFail q e n d0) now d = snd (fail_network_neighbor_wake_item q e n now d0 d)"
| "net_step sha known (NNote x) now d = note_delivery_retry x now d"
| "net_step sha known (NRestore q) now d = snd (restore_waiting_result_receipt q now d)"
| "net_step sha known (NLink a) now d = snd (upsert_network_neighbor_link a now d)"
| "net_step sha known (NTask a) now d = upsert_network_neighbor_task a now d"
| "net_step sha known (NTaskStatus t st c) now d = update_network_neighbor_task_status t st c now d"
| "net_step sha known (NAssign a) now d = snd (upsert_network_neighbor_assignment known a now d)"
| "net_step sha known (NStatus k u) now d = snd (update_network_neighbor_assignment_status known k u now d)"
| "net_step sha known (NResult a) now d = snd (add_network_neighbor_task_result a now d)"
| "net_step sha known (NProject x e) now d = project_execution_failure known x e now d"
| "net_step sha known (NRecompute t) now d = recompute_task_status t now d"

fun net_run :: "(json \<Rightarrow> string) \<Rightarrow> (string \<Rightarrow> bool) \<Rightarrow> (net_op \<times> time) list \<Rightarrow> net_db \<Rightarrow> net_db" where
  "net_run sha known [] d = d"
| "net_run sha known ((x, now) # xs) d = net_run sha known xs (net_step sha known x now d)"

definition net_wf :: "net_db \<Rightarrow> bool" where
  "net_wf d \<longleftrightarrow> keyed nm_id (nd_messages d) \<and> keyed wq_id (nd_wakes d) \<and>
     keyed na_id (nd_assignments d) \<and> keyed nr_id (nd_results d)"

section \<open>Row updates\<close>

lemma wake_row_simps [simp]:
  "wq_id (new_wake_row q l m r n p now) = q" "wq_state (new_wake_row q l m r n p now) = ''queued''"
  "wq_attempts (new_wake_row q l m r n p now) = 0"
  "wq_id (interrupted_wake now x) = wq_id x" "wq_state (interrupted_wake now x) = ''failed''"
  "wq_attempts (interrupted_wake now x) = wq_attempts x"
  "wq_id (leased_wake w e now x) = wq_id x" "wq_state (leased_wake w e now x) = ''leased''"
  "wq_attempts (leased_wake w e now x) = wq_attempts x + 1"
  "wq_claimed_by (leased_wake w e now x) = Some w"
  "wq_id (completed_wake now x) = wq_id x" "wq_state (completed_wake now x) = ''completed''"
  "wq_attempts (completed_wake now x) = wq_attempts x"
  "wq_id (retried_wake ex er av now x) = wq_id x"
  "wq_attempts (retried_wake ex er av now x) = wq_attempts x"
  "wq_id (settled_wake st er now x) = wq_id x" "wq_state (settled_wake st er now x) = st"
  "wq_attempts (settled_wake st er now x) = wq_attempts x"
  "wq_id (renewed_wake e now x) = wq_id x" "wq_state (renewed_wake e now x) = wq_state x"
  "wq_attempts (renewed_wake e now x) = wq_attempts x"
  "wq_id (restored_wake st now x) = wq_id x" "wq_state (restored_wake st now x) = st"
  "wq_attempts (restored_wake st now x) = wq_attempts x"
  by (simp_all add: new_wake_row_def interrupted_wake_def leased_wake_def completed_wake_def
    retried_wake_def settled_wake_def renewed_wake_def restored_wake_def)

lemma message_row_simps [simp]:
  "nm_id (reported_message st now m) = nm_id m" "nm_seq (reported_message st now m) = nm_seq m"
  "nm_link (reported_message st now m) = nm_link m" "nm_metadata (reported_message st now m) = nm_metadata m"
  "nm_body (reported_message st now m) = nm_body m" "nm_from (reported_message st now m) = nm_from m"
  "nm_id (new_message_row a n now) = ma_id a" "nm_seq (new_message_row a n now) = n"
  "nm_link (new_message_row a n now) = ma_link a"
  "nm_id (receipt_row sha r n now) = receipt_id sha r" "nm_seq (receipt_row sha r n now) = n"
  "nm_link (receipt_row sha r n now) = receive_link r" "nm_body (receipt_row sha r n now) = rx_body r"
  "nm_from (receipt_row sha r n now) = rx_from r"
  "dget (nm_metadata (receipt_row sha r n now)) ''payloadDigest'' = JStr (sha (rx_payload r))"
  by (simp_all add: reported_message_def new_message_row_def receipt_row_def)

lemma assignment_row_simps [simp]:
  "na_id (interrupted_assignment now a) = na_id a" "na_result (interrupted_assignment now a) = na_result a"
  "na_id (new_assignment_row x now) = aa_id x"
  "na_id (updated_assignment_row y a) = na_id a"
  "na_id (assignment_status_row u now a) = na_id a"
  "na_id (received_assignment_row t x now) = aa_id x"
  "na_id (answered_assignment r now a) = na_id a" "na_status (answered_assignment r now a) = rs_outcome r"
  "na_result (answered_assignment r now a) = Some (rs_id r)"
  "nr_id (new_result_row r now) = rs_id r" "nr_status (new_result_row r now) = rs_outcome r"
  by (simp_all add: interrupted_assignment_def new_assignment_row_def updated_assignment_row_def
    assignment_status_row_def received_assignment_row_def answered_assignment_def new_result_row_def)

section \<open>What an operation does to each table\<close>

text \<open>The tables an operation does not mention stay as they are.\<close>

lemma reap_assignment_tables [simp]:
  "nd_messages (reap_assignment now q d) = nd_messages d" "nd_wakes (reap_assignment now q d) = nd_wakes d"
  "nd_results (reap_assignment now q d) = nd_results d" "nd_links (reap_assignment now q d) = nd_links d"
  by (simp_all add: reap_assignment_def Let_def)

lemma reap_assignments_tables [simp]:
  "nd_messages (reap_assignments now qs d) = nd_messages d" "nd_wakes (reap_assignments now qs d) = nd_wakes d"
  "nd_results (reap_assignments now qs d) = nd_results d" "nd_links (reap_assignments now qs d) = nd_links d"
  by (induction now qs d rule: reap_assignments.induct) simp_all

lemma reap_lapsed_tables [simp]:
  "nd_messages (reap_lapsed now d) = nd_messages d" "nd_results (reap_lapsed now d) = nd_results d"
  "nd_wakes (reap_lapsed now d) = upd_where (lapsed_wake now) (interrupted_wake now) (nd_wakes d)"
  "nd_assignments (reap_lapsed now d) =
     nd_assignments (reap_assignments now (filter (lapsed_wake now) (nd_wakes d)) d)"
  by (simp_all add: reap_lapsed_def Let_def)

text \<open>Storing the seeds of a message appends at most a task, an assignment and a result and
  answers one assignment.\<close>

lemma store_task_tables:
  "store_task t p now d = Inr d' \<Longrightarrow> nd_messages d' = nd_messages d \<and> nd_wakes d' = nd_wakes d \<and>
     nd_results d' = nd_results d \<and> nd_assignments d' = nd_assignments d \<and> nd_links d' = nd_links d"
  by (auto simp: store_task_def split: option.splits if_splits)

lemma store_assignment_tables:
  assumes "store_assignment t a now d = Inr (p, d')"
  shows "nd_messages d' = nd_messages d \<and> nd_wakes d' = nd_wakes d \<and> nd_results d' = nd_results d \<and>
    nd_links d' = nd_links d \<and>
    (nd_assignments d' = nd_assignments d \<or> nassign_of (aa_id a) d = None \<and>
       nd_assignments d' = nd_assignments d @ [received_assignment_row (tk_id t) a now])"
  using assms
  by (auto simp: store_assignment_def Let_def split: sum.splits option.splits if_splits
      dest!: store_task_tables)

lemma store_result_tables:
  assumes "store_result a now d = Inr (j, d')"
  shows "nd_messages d' = nd_messages d \<and> nd_wakes d' = nd_wakes d \<and> nd_links d' = nd_links d \<and>
    (\<exists>x. nassign_of (rs_assignment a) d = Some x \<and> result_admissible a x = None) \<and>
    nd_assignments d' = upd_where (\<lambda>y. na_id y = rs_assignment a) (answered_assignment a now) (nd_assignments d) \<and>
    ((\<exists>r. nresult_of (rs_id a) d = Some r \<and> same_result a r) \<and> nd_results d' = nd_results d \<or>
     nresult_of (rs_id a) d = None \<and> nd_results d' = nd_results d @ [new_result_row a now])"
  using assms
  by (auto simp: store_result_def record_result_def Let_def split: sum.splits option.splits if_splits)

lemma store_seeds_tables:
  assumes "store_seeds a now d = Inr (w, d')"
  shows "nd_messages d' = nd_messages d \<and> nd_wakes d' = nd_wakes d \<and> nd_links d' = nd_links d"
  using assms unfolding store_seeds_def
  by (auto split: sum.splits option.splits dest!: store_assignment_tables store_result_tables)

lemma insert_wake_tables:
  "insert_wake row d = (None, d') \<Longrightarrow> wake_of (wq_id row) d = None \<and> d' = d\<lparr>nd_wakes := nd_wakes d @ [row]\<rparr>"
  by (auto simp: insert_wake_def split: if_splits)

lemma insert_wake_err: "insert_wake row d = (Some e, d') \<Longrightarrow> d' = d"
  by (auto simp: insert_wake_def split: if_splits)

text \<open>The three ways a message is received.\<close>

lemma receive_cases:
  assumes "receive_message sha a now d = (res, d')"
  shows "(\<exists>err. res = Inl err \<and> d' = d) \<or>
    (\<exists>y. res = Inr y \<and> d' = d \<and> ry_duplicate y \<and> message_of (receipt_id sha a) d = Some (ry_message y) \<and>
       dget (nm_metadata (ry_message y)) ''payloadDigest'' = JStr (sha (rx_payload a))) \<or>
    (\<exists>y w d1. res = Inr y \<and> \<not> ry_duplicate y \<and> message_of (receipt_id sha a) d = None \<and>
       store_seeds a now d = Inr (w, d1) \<and>
       ry_message y = receipt_row sha a (next_network_neighbor_message_seq d (receive_link a)) now \<and>
       nd_messages d' = nd_messages d @ [ry_message y] \<and>
       nd_assignments d' = nd_assignments d1 \<and> nd_results d' = nd_results d1 \<and>
       (nd_wakes d' = nd_wakes d \<or>
        (\<exists>q. wake_of (wq_id q) d = None \<and> wq_state q = ''queued'' \<and> wq_attempts q = 0 \<and>
           nd_wakes d' = nd_wakes d @ [q])))"
proof (cases "message_of (receipt_id sha a) d")
  case (Some m)
  then show ?thesis using assms by (auto simp: receive_message_def split: if_splits)
next
  case None
  show ?thesis
  proof (cases "store_seeds a now d")
    case (Inl e)
    then show ?thesis using assms None by (auto simp: receive_message_def)
  next
    case (Inr p)
    obtain w d1 where p: "p = (w, d1)" by (cases p)
    have t: "nd_messages d1 = nd_messages d" "nd_wakes d1 = nd_wakes d" "nd_links d1 = nd_links d"
      using store_seeds_tables Inr p by blast+
    have seq: "next_network_neighbor_message_seq d1 l = next_network_neighbor_message_seq d l" for l
      by (simp add: next_network_neighbor_message_seq_def link_seqs_def t)
    let ?m = "receipt_row sha a (next_network_neighbor_message_seq d (receive_link a)) now"
    show ?thesis
    proof (cases w)
      case None
      then show ?thesis using assms \<open>message_of (receipt_id sha a) d = None\<close> Inr p
        by (auto simp: receive_message_def Let_def seq t split: if_splits)
    next
      case (Some wake)
      obtain e d2 where i: "insert_wake (receipt_wake sha a ?m wake now) (d1\<lparr>nd_messages := nd_messages d1 @ [?m]\<rparr>) = (e, d2)"
        by (meson surj_pair)
      show ?thesis
      proof (cases e)
        case None
        then show ?thesis using assms \<open>message_of (receipt_id sha a) d = None\<close> Inr p Some i insert_wake_tables [OF i [unfolded None]]
          by (auto simp: receive_message_def Let_def seq t receipt_wake_def split: if_splits)
      next
        case (Some err)
        then show ?thesis using assms \<open>message_of (receipt_id sha a) d = None\<close> Inr p \<open>w = Some wake\<close> i
          by (auto simp: receive_message_def Let_def seq t split: if_splits)
      qed
    qed
  qed
qed

text \<open>Messages are only appended and reported.\<close>

lemma send_tables:
  "nd_wakes (snd (add_network_neighbor_message known a now d)) = nd_wakes d"
  "nd_assignments (snd (add_network_neighbor_message known a now d)) = nd_assignments d"
  "nd_results (snd (add_network_neighbor_message known a now d)) = nd_results d"
  "nd_messages (snd (add_network_neighbor_message known a now d)) = nd_messages d \<or>
     message_of (ma_id a) d = None \<and> nd_messages (snd (add_network_neighbor_message known a now d)) =
       nd_messages d @ [new_message_row a (next_network_neighbor_message_seq d (ma_link a)) now]"
  by (auto simp: add_network_neighbor_message_def Let_def split: option.splits)

lemma report_tables:
  "nd_wakes (snd (update_network_neighbor_message_status m st now d)) = nd_wakes d"
  "nd_assignments (snd (update_network_neighbor_message_status m st now d)) = nd_assignments d"
  "nd_results (snd (update_network_neighbor_message_status m st now d)) = nd_results d"
  "nd_messages (snd (update_network_neighbor_message_status m st now d)) = nd_messages d \<or>
     (\<exists>k st'. nd_messages (snd (update_network_neighbor_message_status m st now d)) =
       upd_where (\<lambda>x. nm_id x = k) (reported_message st' now) (nd_messages d))"
  by (auto simp: update_network_neighbor_message_status_def Let_def)

lemma enqueue_tables:
  "nd_messages (snd (add_network_neighbor_wake_queue_item q l m r p n now d)) = nd_messages d"
  "nd_assignments (snd (add_network_neighbor_wake_queue_item q l m r p n now d)) = nd_assignments d"
  "nd_results (snd (add_network_neighbor_wake_queue_item q l m r p n now d)) = nd_results d"
  "nd_wakes (snd (add_network_neighbor_wake_queue_item q l m r p n now d)) = nd_wakes d \<or>
     wake_of q d = None \<and> nd_wakes (snd (add_network_neighbor_wake_queue_item q l m r p n now d)) =
       nd_wakes d @ [new_wake_row q l m r (clamp 1 3 10 n) p now]"
  by (auto simp: add_network_neighbor_wake_queue_item_def insert_wake_def)

lemma claim_tables:
  "nd_messages (snd (claim_next_network_neighbor_wake_item w n now d)) = nd_messages d"
  "nd_results (snd (claim_next_network_neighbor_wake_item w n now d)) = nd_results d"
  "nd_assignments (snd (claim_next_network_neighbor_wake_item w n now d)) = nd_assignments (reap_lapsed now d)"
  by (auto simp: claim_next_network_neighbor_wake_item_def Let_def split: option.splits prod.splits)

lemma queue_op_tables:
  "nd_messages (snd (renew_wake x n now d)) = nd_messages d"
  "nd_assignments (snd (renew_wake x n now d)) = nd_assignments d"
  "nd_results (snd (renew_wake x n now d)) = nd_results d"
  "nd_messages (snd (settle_wake x st er now d)) = nd_messages d"
  "nd_assignments (snd (settle_wake x st er now d)) = nd_assignments d"
  "nd_results (snd (settle_wake x st er now d)) = nd_results d"
  "nd_messages (snd (claim_waiting_delivery q w now d)) = nd_messages d"
  "nd_assignments (snd (claim_waiting_delivery q w now d)) = nd_assignments d"
  "nd_results (snd (claim_waiting_delivery q w now d)) = nd_results d"
  "nd_messages (snd (complete_network_neighbor_wake_item q now d)) = nd_messages d"
  "nd_assignments (snd (complete_network_neighbor_wake_item q now d)) = nd_assignments d"
  "nd_results (snd (complete_network_neighbor_wake_item q now d)) = nd_results d"
  "nd_messages (snd (fail_network_neighbor_wake_item q er m now d0 d)) = nd_messages d"
  "nd_assignments (snd (fail_network_neighbor_wake_item q er m now d0 d)) = nd_assignments d"
  "nd_results (snd (fail_network_neighbor_wake_item q er m now d0 d)) = nd_results d"
  "nd_messages (note_delivery_retry x now d) = nd_messages d"
  "nd_assignments (note_delivery_retry x now d) = nd_assignments d"
  "nd_results (note_delivery_retry x now d) = nd_results d"
  by (simp_all add: renew_wake_def settle_wake_def claim_waiting_delivery_def
    complete_network_neighbor_wake_item_def fail_network_neighbor_wake_item_def note_delivery_retry_def
    Let_def split_beta split: option.split)

lemma restore_tables:
  "nd_messages (snd (restore_waiting_result_receipt k now d)) = nd_messages d"
  "nd_assignments (snd (restore_waiting_result_receipt k now d)) = nd_assignments d"
  "nd_results (snd (restore_waiting_result_receipt k now d)) = nd_results d"
  by (auto simp: restore_waiting_result_receipt_def split_beta split: option.split)

lemma link_tables:
  "nd_messages (snd (upsert_network_neighbor_link a now d)) = nd_messages d"
  "nd_wakes (snd (upsert_network_neighbor_link a now d)) = nd_wakes d"
  "nd_assignments (snd (upsert_network_neighbor_link a now d)) = nd_assignments d"
  "nd_results (snd (upsert_network_neighbor_link a now d)) = nd_results d"
  by (auto simp: upsert_network_neighbor_link_def Let_def split: option.split)

lemma task_tables:
  "nd_messages (upsert_network_neighbor_task a now d) = nd_messages d"
  "nd_wakes (upsert_network_neighbor_task a now d) = nd_wakes d"
  "nd_assignments (upsert_network_neighbor_task a now d) = nd_assignments d"
  "nd_results (upsert_network_neighbor_task a now d) = nd_results d"
  "nd_messages (update_network_neighbor_task_status t st c now d) = nd_messages d"
  "nd_wakes (update_network_neighbor_task_status t st c now d) = nd_wakes d"
  "nd_assignments (update_network_neighbor_task_status t st c now d) = nd_assignments d"
  "nd_results (update_network_neighbor_task_status t st c now d) = nd_results d"
  by (simp_all add: upsert_network_neighbor_task_def update_network_neighbor_task_status_def Let_def)

lemma recompute_tables:
  "nd_messages (recompute_task_status t now d) = nd_messages d"
  "nd_wakes (recompute_task_status t now d) = nd_wakes d"
  "nd_assignments (recompute_task_status t now d) = nd_assignments d"
  "nd_results (recompute_task_status t now d) = nd_results d"
  by (simp_all add: recompute_task_status_def Let_def task_tables)

lemma assign_tables:
  "nd_messages (snd (upsert_network_neighbor_assignment known a now d)) = nd_messages d"
  "nd_wakes (snd (upsert_network_neighbor_assignment known a now d)) = nd_wakes d"
  "nd_results (snd (upsert_network_neighbor_assignment known a now d)) = nd_results d"
  "nd_messages (snd (update_network_neighbor_assignment_status known k u now d)) = nd_messages d"
  "nd_wakes (snd (update_network_neighbor_assignment_status known k u now d)) = nd_wakes d"
  "nd_results (snd (update_network_neighbor_assignment_status known k u now d)) = nd_results d"
  "nd_messages (snd (add_network_neighbor_task_result r now d)) = nd_messages d"
  "nd_wakes (snd (add_network_neighbor_task_result r now d)) = nd_wakes d"
  "nd_assignments (snd (add_network_neighbor_task_result r now d)) = nd_assignments d"
  by (simp_all add: upsert_network_neighbor_assignment_def update_network_neighbor_assignment_status_def
    add_network_neighbor_task_result_def Let_def)

lemma project_tables:
  "nd_messages (project_execution_failure known q er now d) = nd_messages d"
  "nd_wakes (project_execution_failure known q er now d) = nd_wakes d"
  "nd_results (project_execution_failure known q er now d) = nd_results d"
  by (simp_all add: project_execution_failure_def Let_def recompute_tables assign_tables split: option.split)

lemmas net_tables = send_tables(1-3) report_tables(1-3) enqueue_tables(1-3) claim_tables queue_op_tables
  restore_tables link_tables task_tables recompute_tables assign_tables project_tables

section \<open>The wake queue along a history\<close>

definition wake_open :: "wake_rec \<Rightarrow> bool" where
  "wake_open q \<longleftrightarrow> wq_state q \<in> {''queued'', ''retry''}"

text \<open>The reports that put an execution back into the queue.\<close>

fun puts_back :: "string \<Rightarrow> net_op \<Rightarrow> bool" where
  "puts_back k (NSettle x st e) \<longleftrightarrow> wq_id x = k \<and> st \<in> {''queued'', ''retry''}"
| "puts_back k (NFail q e n d0) \<longleftrightarrow> q = k"
| "puts_back k _ \<longleftrightarrow> False"

definition wake_map :: "net_op \<Rightarrow> (wake_rec \<Rightarrow> wake_rec) \<Rightarrow> bool" where
  "wake_map x g \<longleftrightarrow> (\<forall>q. wq_id (g q) = wq_id q \<and> wq_attempts q \<le> wq_attempts (g q) \<and>
     (wake_open (g q) \<longrightarrow> wake_open q \<or> puts_back (wq_id q) x))"

lemma wake_map_id: "wake_map x id"
  by (simp add: wake_map_def)

lemma wake_map_upd:
  assumes "\<And>q. wq_id (f q) = wq_id q" "\<And>q. wq_attempts q \<le> wq_attempts (f q)"
    and "\<And>q. P q \<Longrightarrow> wake_open (f q) \<Longrightarrow> wake_open q \<or> puts_back (wq_id q) x"
  shows "\<exists>g. upd_where P f t = map g t \<and> wake_map x g"
  using assms by (intro exI [of _ "\<lambda>q. if P q then f q else q"]) (auto simp: upd_where_def wake_map_def)

lemma wake_map_upd_row:
  assumes "\<And>q. wq_id (f q) = wq_id q" "\<And>q. wq_attempts q \<le> wq_attempts (f q)"
    and "\<And>q. wq_id q = k \<Longrightarrow> P q \<Longrightarrow> wake_open (f q) \<Longrightarrow> wake_open q \<or> puts_back (wq_id q) x"
  shows "\<exists>g. snd (update_row wq_id k P f t) = map g t \<and> wake_map x g"
  unfolding update_row_def snd_conv by (rule wake_map_upd) (use assms in auto)

lemma wake_map_comp: "wake_map x f \<Longrightarrow> wake_map x g \<Longrightarrow> wake_map x (g \<circ> f)"
  unfolding wake_map_def comp_def by (metis order_trans)

lemma wake_map_sel:
  assumes "wake_map x g"
  shows "sel_by wq_id k (map g t) = map_option g (sel_by wq_id k t)"
  using assms by (induction t) (auto simp: wake_map_def)

lemma restorable_waits: "restorable k d q = Some r \<Longrightarrow> nr_status r \<in> {''waiting_input'', ''waiting_approval''}"
  by (auto simp: restorable_def split: option.splits if_splits)

lemma not_open [simp]:
  "\<not> wake_open (interrupted_wake now q)" "\<not> wake_open (leased_wake w e now q)"
  "\<not> wake_open (completed_wake now q)" "wake_open (renewed_wake e now q) = wake_open q"
  "wake_open (settled_wake st er now q) \<longleftrightarrow> st \<in> {''queued'', ''retry''}"
  "\<not> wake_open (restored_wake ''waiting_input'' now q)" "\<not> wake_open (restored_wake ''waiting_approval'' now q)"
  by (simp_all add: wake_open_def)

lemma claim_wakes:
  "\<exists>g. nd_wakes (snd (claim_next_network_neighbor_wake_item w n now d)) = map g (nd_wakes d) \<and> wake_map (NClaim w n) g"
proof -
  obtain g where g: "upd_where (lapsed_wake now) (interrupted_wake now) (nd_wakes d) = map g (nd_wakes d)"
    "wake_map (NClaim w n) g"
    using wake_map_upd [of "interrupted_wake now" "lapsed_wake now" "NClaim w n" "nd_wakes d"] by auto
  show ?thesis
  proof (cases "first_by wq_created (filter (wake_ready now) (nd_wakes (reap_lapsed now d)))")
    case None
    then show ?thesis using g
      by (intro exI [of _ g]) (simp add: claim_next_network_neighbor_wake_item_def Let_def)
  next
    case (Some q)
    obtain h where h: "snd (update_row wq_id (wq_id q) (wake_ready now) (leased_wake w (now + lease_ms 30 180 n) now)
        (map g (nd_wakes d))) = map h (map g (nd_wakes d))" "wake_map (NClaim w n) h"
      using wake_map_upd_row [of "leased_wake w (now + lease_ms 30 180 n) now" "wq_id q" "wake_ready now"
          "NClaim w n" "map g (nd_wakes d)"] by auto
    have "nd_wakes (snd (claim_next_network_neighbor_wake_item w n now d)) = map (h \<circ> g) (nd_wakes d)"
      using Some h(1) g(1)
      by (simp add: claim_next_network_neighbor_wake_item_def Let_def split_beta)
    then show ?thesis using wake_map_comp [OF g(2) h(2)] by blast
  qed
qed

lemma restore_wakes:
  "\<exists>g. nd_wakes (snd (restore_waiting_result_receipt k now d)) = map g (nd_wakes d) \<and> wake_map (NRestore k) g"
proof (cases "first_by (\<lambda>q. (wq_created q, wq_id q)) (filter (\<lambda>q. restorable k d q \<noteq> None) (nd_wakes d))")
  case None
  then show ?thesis using wake_map_id by (intro exI [of _ id]) (simp add: restore_waiting_result_receipt_def)
next
  case (Some q)
  from first_by_in [OF Some] obtain r where r: "restorable k d q = Some r" by auto
  have "\<exists>g. snd (update_row wq_id (wq_id q) (\<lambda>x. wq_run x = wq_run q \<and> wq_state x = ''failed'')
      (restored_wake (nr_status r) now) (nd_wakes d)) = map g (nd_wakes d) \<and> wake_map (NRestore k) g"
    by (rule wake_map_upd_row) (use restorable_waits [OF r] in auto)
  moreover have "nd_wakes (snd (restore_waiting_result_receipt k now d)) =
      snd (update_row wq_id (wq_id q) (\<lambda>x. wq_run x = wq_run q \<and> wq_state x = ''failed'')
        (restored_wake (nr_status r) now) (nd_wakes d))"
    unfolding restore_waiting_result_receipt_def Some option.case r split_beta Let_def by simp
  ultimately show ?thesis by simp
qed

lemma receive_wakes:
  "nd_wakes (snd (receive_message sha a now d)) = nd_wakes d \<or>
   (\<exists>q. wake_of (wq_id q) d = None \<and> wq_state q = ''queued'' \<and> wq_attempts q = 0 \<and>
     nd_wakes (snd (receive_message sha a now d)) = nd_wakes d @ [q])"
  using receive_cases [OF surjective_pairing, of sha a now d] by auto

text \<open>An operation adds a fresh row or maps every row to its successor.\<close>

lemma wake_step_cases:
  "(\<exists>q. wake_of (wq_id q) d = None \<and> wq_attempts q = 0 \<and> nd_wakes (net_step sha known x now d) = nd_wakes d @ [q]) \<or>
   (\<exists>g. nd_wakes (net_step sha known x now d) = map g (nd_wakes d) \<and> wake_map x g)"
proof -
  have same: "\<exists>g. nd_wakes d = map g (nd_wakes d) \<and> wake_map y g" for y
    using wake_map_id by (intro exI [of _ id]) simp
  show ?thesis
  proof (cases x)
    case (NReceive a)
    then show ?thesis using receive_wakes [of sha a now d] same by auto
  next
    case (NEnqueue q l m r p n)
    then show ?thesis using enqueue_tables(4) [of q l m r p n now d] same by fastforce
  next
    case (NClaim w n)
    then show ?thesis using claim_wakes by simp
  next
    case (NRenew y n)
    have "\<exists>g. snd (update_row wq_id (wq_id y) P (renewed_wake e now) (nd_wakes d)) = map g (nd_wakes d) \<and> wake_map x g" for P e
      by (rule wake_map_upd_row) auto
    then show ?thesis by (simp add: NRenew renew_wake_def split_beta)
  next
    case (NSettle y st er)
    have "\<exists>g. snd (update_row wq_id (wq_id y) P (settled_wake st er now) (nd_wakes d)) = map g (nd_wakes d) \<and> wake_map x g" for P
      by (rule wake_map_upd_row) (auto simp: NSettle)
    then show ?thesis by (simp add: NSettle settle_wake_def split_beta)
  next
    case (NWaiting q w)
    have "\<exists>g. upd_where P (leased_wake w e now) (nd_wakes d) = map g (nd_wakes d) \<and> wake_map x g" for P e
      by (rule wake_map_upd) auto
    then show ?thesis by (simp add: NWaiting claim_waiting_delivery_def Let_def)
  next
    case (NComplete q)
    have "\<exists>g. upd_where P (completed_wake now) (nd_wakes d) = map g (nd_wakes d) \<and> wake_map x g" for P
      by (rule wake_map_upd) auto
    then show ?thesis by (simp add: NComplete complete_network_neighbor_wake_item_def Let_def)
  next
    case (NFail q er n d0)
    have "\<exists>g. upd_where (\<lambda>y. wq_id y = q \<and> wq_state y = ''leased'') (retried_wake ex er av now) (nd_wakes d) = map g (nd_wakes d) \<and>
        wake_map x g" for ex av
      by (rule wake_map_upd) (auto simp: NFail)
    then show ?thesis using same
      by (auto simp: NFail fail_network_neighbor_wake_item_def Let_def split: option.split)
  next
    case (NNote y)
    have "\<exists>g. upd_where P (\<lambda>q. q\<lparr>wq_payload := p\<rparr>) (nd_wakes d) = map g (nd_wakes d) \<and> wake_map x g" for P p
      by (rule wake_map_upd) (auto simp: wake_open_def)
    then show ?thesis by (simp add: NNote note_delivery_retry_def)
  next
    case (NRestore k)
    then show ?thesis using restore_wakes by simp
  qed (simp_all add: net_tables same)
qed

text \<open>The item a claim hands out was open, is now leased to the claimer, one attempt later.\<close>

lemma claimed_wake:
  assumes "keyed wq_id (nd_wakes d)" and "claim_next_network_neighbor_wake_item w n now d = (Some q, d')"
  shows "wake_of (wq_id q) d' = Some q \<and> wq_claimed_by q = Some w \<and> \<not> wake_open q \<and>
    (\<exists>p. wake_of (wq_id q) d = Some p \<and> wake_open p \<and> wq_attempts p < wq_max p \<and> wq_attempts q = wq_attempts p + 1)"
proof -
  let ?t = "nd_wakes (reap_lapsed now d)"
  have keyed: "keyed wq_id ?t" using assms(1) by (simp add: keyed_upd_where)
  obtain p where p: "first_by wq_created (filter (wake_ready now) ?t) = Some p"
    using assms(2) by (cases "first_by wq_created (filter (wake_ready now) ?t)")
      (simp_all add: claim_next_network_neighbor_wake_item_def Let_def)
  from first_by_in [OF this] have ready: "p \<in> set ?t" "wake_ready now p" by auto
  then have sel: "sel_by wq_id (wq_id p) ?t = Some p" using keyed_sel_iff [OF keyed] by blast
  then obtain r where r: "wake_of (wq_id p) d = Some r" "p = (if lapsed_wake now r then interrupted_wake now r else r)"
    by (auto simp: sel_by_upd_where)
  then have "p = r" using ready(2) by (auto simp: wake_ready_def split: if_splits)
  obtain ok t where u: "update_row wq_id (wq_id p) (wake_ready now) (leased_wake w (now + lease_ms 30 180 n) now) ?t = (ok, t)"
    by (meson surj_pair)
  have ok: "ok" using update_row_fst [OF keyed, of "wq_id p" "wake_ready now"] u sel ready(2) by (metis fst_conv holds_at_Some)
  have t: "sel_by wq_id (wq_id p) t = Some (leased_wake w (now + lease_ms 30 180 n) now p)"
    using update_row_sel [OF keyed, of "leased_wake w (now + lease_ms 30 180 n) now" "wq_id p" "wq_id p" "wake_ready now"]
      u sel ready(2) by simp
  have d': "d' = (reap_lapsed now d)\<lparr>nd_wakes := t\<rparr>" "q = leased_wake w (now + lease_ms 30 180 n) now p"
    using assms(2) p u ok t by (auto simp: claim_next_network_neighbor_wake_item_def Let_def)
  show ?thesis using d' t r(1) \<open>p = r\<close> ready(2) by (auto simp: wake_open_def wake_ready_def)
qed

lemma net_wakes_keyed:
  assumes "keyed wq_id (nd_wakes d)"
  shows "keyed wq_id (nd_wakes (net_step sha known x now d))"
  using wake_step_cases [of d sha known x now]
proof (elim disjE exE conjE)
  fix q assume "wake_of (wq_id q) d = None" "nd_wakes (net_step sha known x now d) = nd_wakes d @ [q]"
  then show ?thesis using assms by (simp add: keyed_snoc)
next
  fix g assume "nd_wakes (net_step sha known x now d) = map g (nd_wakes d)" "wake_map x g"
  then show ?thesis using assms by (simp add: keyed_def wake_map_def comp_def)
qed

text \<open>A row stays, and its attempts are never taken back.\<close>

lemma wake_attempts_step:
  assumes "wake_of k d = Some q"
  shows "\<exists>q'. wake_of k (net_step sha known x now d) = Some q' \<and> wq_attempts q \<le> wq_attempts q'"
  using wake_step_cases [of d sha known x now]
proof (elim disjE exE conjE)
  fix p assume "nd_wakes (net_step sha known x now d) = nd_wakes d @ [p]"
  then show ?thesis using assms by (simp add: sel_by_append)
next
  fix g assume "nd_wakes (net_step sha known x now d) = map g (nd_wakes d)" "wake_map x g"
  then show ?thesis using assms wake_map_sel [of x g k] by (auto simp: wake_map_def)
qed

lemma wake_attempts_run:
  "wake_of k d = Some q \<Longrightarrow>
     \<exists>q'. wake_of k (net_run sha known xs d) = Some q' \<and> wq_attempts q \<le> wq_attempts q'"
proof (induction sha known xs d arbitrary: q rule: net_run.induct)
  case (2 sha known x now xs d)
  obtain q' where q': "wake_of k (net_step sha known x now d) = Some q'" "wq_attempts q \<le> wq_attempts q'"
    using wake_attempts_step [OF "2.prems"] by blast
  from "2.IH" [OF q'(1)] q'(2) show ?case by (auto intro: order_trans)
qed simp

lemma net_run_keyed: "keyed wq_id (nd_wakes d) \<Longrightarrow> keyed wq_id (nd_wakes (net_run sha known xs d))"
  by (induction sha known xs d rule: net_run.induct) (simp_all add: net_wakes_keyed)

text \<open>Executions handed out for an item, and its credit: one while it can still be claimed.\<close>

definition runs_wake :: "string \<Rightarrow> net_op \<Rightarrow> time \<Rightarrow> net_db \<Rightarrow> bool" where
  "runs_wake k x now d = (case x of
     NClaim w n \<Rightarrow> map_option wq_id (fst (claim_next_network_neighbor_wake_item w n now d)) = Some k
   | _ \<Rightarrow> False)"

fun wake_runs :: "(json \<Rightarrow> string) \<Rightarrow> (string \<Rightarrow> bool) \<Rightarrow> string \<Rightarrow> (net_op \<times> time) list \<Rightarrow> net_db \<Rightarrow> nat" where
  "wake_runs sha known k [] d = 0"
| "wake_runs sha known k ((x, now) # xs) d =
     (if runs_wake k x now d then 1 else 0) + wake_runs sha known k xs (net_step sha known x now d)"

definition wake_credit :: "string \<Rightarrow> net_db \<Rightarrow> nat" where
  "wake_credit k d = (case wake_of k d of None \<Rightarrow> 1 | Some q \<Rightarrow> if wake_open q then 1 else 0)"

lemma wake_credit_le: "wake_credit k d \<le> 1"
  by (simp add: wake_credit_def split: option.splits)

lemma wake_credit_step:
  assumes "keyed wq_id (nd_wakes d)"
  shows "(if runs_wake k x now d then 1 else 0) + wake_credit k (net_step sha known x now d) \<le>
    wake_credit k d + (if puts_back k x then 1 else 0)"
proof (cases "runs_wake k x now d")
  case True
  then obtain w n q where x: "x = NClaim w n" "wq_id q = k"
    and "fst (claim_next_network_neighbor_wake_item w n now d) = Some q"
    by (cases x) (auto simp: runs_wake_def)
  then obtain d' where c: "claim_next_network_neighbor_wake_item w n now d = (Some q, d')" by (metis prod.collapse)
  from claimed_wake [OF assms c] obtain p where
    p: "wake_of k d = Some p" "wake_open p" "wake_of k d' = Some q" "\<not> wake_open q"
    using x(2) by auto
  then show ?thesis using p c x by (simp add: wake_credit_def)
next
  case False
  show ?thesis using wake_step_cases [of d sha known x now]
  proof (elim disjE exE conjE)
    fix q assume "wake_of (wq_id q) d = None" "nd_wakes (net_step sha known x now d) = nd_wakes d @ [q]"
    then show ?thesis using False wake_credit_le [of k "net_step sha known x now d"]
      by (cases "k = wq_id q") (auto simp: wake_credit_def sel_by_append split: option.splits)
  next
    fix g assume g: "nd_wakes (net_step sha known x now d) = map g (nd_wakes d)" "wake_map x g"
    show ?thesis
    proof (cases "wake_of k d")
      case None
      then show ?thesis using False g wake_map_sel [OF g(2), of k "nd_wakes d"] by (simp add: wake_credit_def)
    next
      case (Some q)
      have "wq_id q = k" using Some by (rule sel_by_key)
      then have "wake_open (g q) \<Longrightarrow> wake_open q \<or> puts_back k x" using g(2) by (auto simp: wake_map_def)
      then show ?thesis using False g(1) wake_map_sel [OF g(2), of k "nd_wakes d"] Some by (auto simp: wake_credit_def)
    qed
  qed
qed

lemma wake_credit_run:
  assumes "keyed wq_id (nd_wakes d)"
  shows "wake_runs sha known k xs d \<le> wake_credit k d + length (filter (\<lambda>(x, now). puts_back k x) xs)"
  using assms
proof (induction sha known xs d rule: net_run.induct)
  case (2 sha known x now xs d)
  have "wake_runs sha known k xs (net_step sha known x now d) \<le>
      wake_credit k (net_step sha known x now d) + length (filter (\<lambda>(x, now). puts_back k x) xs)"
    by (rule "2.IH") (rule net_wakes_keyed [OF "2.prems"])
  then show ?case using wake_credit_step [OF "2.prems", of k x now sha known] by auto
qed simp

section \<open>Messages along a history\<close>

definition same_receipt :: "nmsg_rec \<Rightarrow> nmsg_rec \<Rightarrow> bool" where
  "same_receipt m m' \<longleftrightarrow> nm_id m' = nm_id m \<and> nm_link m' = nm_link m \<and> nm_seq m' = nm_seq m \<and>
     nm_from m' = nm_from m \<and> nm_body m' = nm_body m \<and> nm_metadata m' = nm_metadata m"

lemma same_receipt_refl [simp]: "same_receipt m m" "same_receipt m (reported_message st now m)"
  by (simp_all add: same_receipt_def)

lemma same_receipt_trans: "same_receipt a b \<Longrightarrow> same_receipt b c \<Longrightarrow> same_receipt a c"
  by (simp add: same_receipt_def)

lemma message_step_cases:
  "nd_messages (net_step sha known x now d) = nd_messages d \<or>
   (\<exists>m. message_of (nm_id m) d = None \<and> nm_seq m = next_network_neighbor_message_seq d (nm_link m) \<and>
      nd_messages (net_step sha known x now d) = nd_messages d @ [m]) \<or>
   (\<exists>k st. nd_messages (net_step sha known x now d) =
      upd_where (\<lambda>m. nm_id m = k) (reported_message st now) (nd_messages d))"
proof (cases x)
  case (NReceive a)
  have "nd_messages (snd (receive_message sha a now d)) = nd_messages d \<or>
     (\<exists>m. message_of (nm_id m) d = None \<and> nm_seq m = next_network_neighbor_message_seq d (nm_link m) \<and>
        nd_messages (snd (receive_message sha a now d)) = nd_messages d @ [m])"
    using receive_cases [OF surjective_pairing, of sha a now d]
    by (elim disjE exE conjE) simp_all
  then show ?thesis unfolding NReceive net_step.simps by blast
next
  case (NSend a)
  have "nd_messages (snd (add_network_neighbor_message known a now d)) = nd_messages d \<or>
     (\<exists>m. message_of (nm_id m) d = None \<and> nm_seq m = next_network_neighbor_message_seq d (nm_link m) \<and>
        nd_messages (snd (add_network_neighbor_message known a now d)) = nd_messages d @ [m])"
    using send_tables(4) [of known a now d] by (elim disjE conjE) simp_all
  then show ?thesis unfolding NSend net_step.simps by blast
next
  case (NReport m st)
  then show ?thesis using report_tables(4) [of m st now d] by auto
qed (simp_all add: net_tables)

lemma message_kept_step:
  assumes "message_of k d = Some m"
  shows "\<exists>m'. message_of k (net_step sha known x now d) = Some m' \<and> same_receipt m m'"
  using message_step_cases [of sha known x now d] assms
  by (elim disjE exE conjE) (simp_all add: sel_by_append sel_by_upd_where)

lemma message_kept:
  "message_of k d = Some m \<Longrightarrow> \<exists>m'. message_of k (net_run sha known xs d) = Some m' \<and> same_receipt m m'"
proof (induction sha known xs d arbitrary: m rule: net_run.induct)
  case (2 sha known x now xs d)
  obtain m' where m': "message_of k (net_step sha known x now d) = Some m'" "same_receipt m m'"
    using message_kept_step [OF "2.prems"] by blast
  from "2.IH" [OF m'(1)] obtain m'' where
    "message_of k (net_run sha known xs (net_step sha known x now d)) = Some m''" "same_receipt m' m''" by (elim exE conjE)
  then show ?case using same_receipt_trans [OF m'(2)] by (auto intro!: exI [of _ m''])
qed simp

text \<open>A received message has its receipt.\<close>

lemma received_receipt:
  assumes "receive_message sha a now d = (Inr y, d')"
  shows "message_of (receipt_id sha a) d' = Some (ry_message y) \<and>
    dget (nm_metadata (ry_message y)) ''payloadDigest'' = JStr (sha (rx_payload a))"
  using receive_cases [OF assms] by (auto simp: sel_by_append)

lemma receipt_repeated:
  assumes "message_of (receipt_id sha b) d = Some m"
    and "dget (nm_metadata m) ''payloadDigest'' = JStr (sha p)"
  shows "receive_message sha b now d =
    (if sha (rx_payload b) = sha p
     then (Inr \<lparr>ry_message = m, ry_queue = sel_by wq_message (receipt_id sha b) (nd_wakes d), ry_duplicate = True\<rparr>, d)
     else (Inl ReceiptContentConflict, d))"
  using assms by (auto simp: receive_message_def)

section \<open>Numbers of a link\<close>

datatype net_append = ASend message_args | AReceive receive_args

fun append_message ::
  "(json \<Rightarrow> string) \<Rightarrow> (string \<Rightarrow> bool) \<Rightarrow> net_append \<times> time \<Rightarrow> net_db \<Rightarrow> int option \<times> net_db" where
  "append_message sha known (ASend a, now) d =
     (let fresh = (message_of (ma_id a) d = None); r = add_network_neighbor_message known a now d
      in (case fst r of Inr (Some m) \<Rightarrow> if fresh then Some (nm_seq m) else None | _ \<Rightarrow> None, snd r))"
| "append_message sha known (AReceive a, now) d =
     (let r = receive_message sha a now d
      in (case fst r of Inr y \<Rightarrow> if ry_duplicate y then None else Some (nm_seq (ry_message y)) | _ \<Rightarrow> None, snd r))"

fun append_link :: "net_append \<times> time \<Rightarrow> string" where
  "append_link (ASend a, now) = ma_link a"
| "append_link (AReceive a, now) = receive_link a"

lemma max_or_zero_ge: "x \<in> set xs \<Longrightarrow> x \<le> max_or_zero xs"
  by (induction xs rule: max_or_zero.induct) auto

lemma next_seq_fresh: "n \<in> set (link_seqs d l) \<Longrightarrow> n < next_network_neighbor_message_seq d l"
  using max_or_zero_ge [of n "link_seqs d l"] by (simp add: next_network_neighbor_message_seq_def)

lemma append_message_cases:
  "append_message sha known a d = (r, d') \<Longrightarrow>
     (r = None \<and> d' = d) \<or>
     (\<exists>m. r = Some (nm_seq m) \<and> nm_link m = append_link a \<and> nd_messages d' = nd_messages d @ [m] \<and>
        nm_seq m = next_network_neighbor_message_seq d (append_link a))"
proof (induction sha known a d rule: append_message.induct)
  case (1 sha known a now d)
  then show ?case
    by (auto simp: add_network_neighbor_message_def Let_def split: option.splits if_splits
        intro!: exI [of _ "new_message_row a (next_network_neighbor_message_seq d (ma_link a)) now"])
next
  case (2 sha known a now d)
  then show ?case using receive_cases [OF surjective_pairing, of sha a now d] by (auto simp: Let_def)
qed

interpretation link_messages: numbered_stream "append_message sha known" append_link link_seqs
proof
  fix a s n s' assume "append_message sha known a s = (Some n, s')"
  from append_message_cases [OF this]
  show "(\<forall>m \<in> set (link_seqs s (append_link a)). m < n) \<and>
      link_seqs s' (append_link a) = link_seqs s (append_link a) @ [n]"
    using next_seq_fresh by (auto simp: link_seqs_def)
next
  fix a s s' assume "append_message sha known a s = (None, s')"
  from append_message_cases [OF this] show "s' = s" by auto
next
  fix a s r s' g assume "append_message sha known a s = (r, s')" and g: "g \<noteq> append_link a"
  from append_message_cases [OF this(1)] show "link_seqs s' g = link_seqs s g"
    using g by (auto simp: link_seqs_def)
qed

section \<open>The final result of an assignment\<close>

text \<open>Assignment \<open>k\<close> has been answered with outcome \<open>st\<close> by result \<open>r\<close>.\<close>

definition answered :: "string \<Rightarrow> string \<Rightarrow> string \<Rightarrow> net_db \<Rightarrow> bool" where
  "answered k r st d \<longleftrightarrow> st \<in> set final_outcomes \<and> r \<noteq> [] \<and>
     holds_at na_id k (\<lambda>a. na_status a = st \<and> na_result a = Some r) (nd_assignments d) \<and>
     holds_at nr_id r (\<lambda>x. nr_status x = st) (nd_results d)"

text \<open>The two writes that set the status of an assignment without regard to its result.\<close>

fun overwrites :: "string \<Rightarrow> net_op \<Rightarrow> bool" where
  "overwrites k (NAssign a) \<longleftrightarrow> aa_id a = k"
| "overwrites k (NStatus j u) \<longleftrightarrow> j = k \<and> \<not> as_only_without_result u"
| "overwrites k _ \<longleftrightarrow> False"

lemma holds_at_snoc: "holds_at key k P t \<Longrightarrow> holds_at key k P (t @ u)"
  by (auto simp: holds_at_def sel_by_append split: option.splits)

lemma holds_at_upd:
  assumes "\<And>r. key (f r) = key r" and "\<And>r. key r = k \<Longrightarrow> P r \<Longrightarrow> Q r \<Longrightarrow> P (f r)" and "holds_at key k P t"
  shows "holds_at key k P (upd_where Q f t)"
  using assms(3) sel_by_key [of key k t] assms(2)
  by (auto simp: holds_at_def sel_by_upd_where [of key f, OF assms(1)] split: option.splits)

lemma answered_cong:
  "nd_assignments d' = nd_assignments d \<Longrightarrow> nd_results d' = nd_results d \<Longrightarrow> answered k r st d' = answered k r st d"
  by (simp add: answered_def)

lemma answered_reap:
  assumes "holds_at na_id k (\<lambda>a. na_status a = st \<and> na_result a = Some r) (nd_assignments d)"
  shows "holds_at na_id k (\<lambda>a. na_status a = st \<and> na_result a = Some r) (nd_assignments (reap_assignments now qs d))"
  using assms
proof (induction now qs d rule: reap_assignments.induct)
  case (2 now q qs d)
  have "holds_at na_id k (\<lambda>a. na_status a = st \<and> na_result a = Some r) (nd_assignments (reap_assignment now q d))"
    using "2.prems" by (auto simp: reap_assignment_def Let_def intro!: holds_at_upd)
  from "2.IH" [OF this] show ?case by simp
qed simp

lemma answered_store_result:
  assumes "store_result a now d = Inr (j, d')" and "answered k r st d"
  shows "answered k r st d'"
proof -
  from store_result_tables [OF assms(1)] obtain x where x: "nassign_of (rs_assignment a) d = Some x" "result_admissible a x = None"
    and asg: "nd_assignments d' = upd_where (\<lambda>y. na_id y = rs_assignment a) (answered_assignment a now) (nd_assignments d)"
    and res: "(\<exists>p. nresult_of (rs_id a) d = Some p \<and> same_result a p) \<and> nd_results d' = nd_results d \<or>
      nresult_of (rs_id a) d = None \<and> nd_results d' = nd_results d @ [new_result_row a now]" by blast
  have k: "rs_id a = r \<and> rs_outcome a = st" if "rs_assignment a = k"
  proof -
    have s: "na_status x = st" "na_result x = Some r" "st \<in> set final_outcomes" "r \<noteq> []"
      using assms(2) x(1) that by (auto simp: answered_def)
    then have "rs_id a = r" using x(2) by (auto simp: result_admissible_def split: if_splits)
    moreover obtain p where "nresult_of r d = Some p" "nr_status p = st"
      using assms(2) by (auto simp: answered_def elim: holds_atE)
    ultimately show ?thesis using res by (auto simp: same_result_def)
  qed
  have "holds_at na_id k (\<lambda>a. na_status a = st \<and> na_result a = Some r) (nd_assignments d')"
    unfolding asg by (rule holds_at_upd) (use assms(2) k in \<open>auto simp: answered_def\<close>)
  moreover have "holds_at nr_id r (\<lambda>x. nr_status x = st) (nd_results d')"
    using res assms(2) by (auto simp: answered_def holds_at_snoc)
  ultimately show ?thesis using assms(2) by (simp add: answered_def)
qed

lemma answered_store_assignment:
  assumes "store_assignment t a now d = Inr (p, d')" and "answered k r st d"
  shows "answered k r st d'"
  using store_assignment_tables [OF assms(1)] assms(2) by (auto simp: answered_def holds_at_snoc)

lemma store_seeds_chain:
  assumes "store_seeds a now d = Inr (w, d2)"
  shows "\<exists>d1. (d1 = d \<or> (\<exists>t x p. store_assignment t x now d = Inr (p, d1))) \<and>
    (d2 = d1 \<or> (\<exists>b j. store_result b now d1 = Inr (j, d2)))"
proof -
  let ?first = "case rx_assign a of None \<Rightarrow> Inr (rx_wake a, d)
    | Some (task, assignment) \<Rightarrow> (case store_assignment task assignment now d of Inl err \<Rightarrow> Inl err
        | Inr ((t, x), d') \<Rightarrow> Inr (Some (dset ''assignment'' (JObj x) (dset ''task'' (JObj t)
            (case rx_wake a of None \<Rightarrow> [] | Some w \<Rightarrow> w))), d'))"
  obtain v d1 where f: "?first = Inr (v, d1)"
    using assms unfolding store_seeds_def by (cases ?first) auto
  have "d1 = d \<or> (\<exists>t x p. store_assignment t x now d = Inr (p, d1))"
    using f by (cases "rx_assign a") (auto split: sum.splits)
  moreover have "d2 = d1 \<or> (\<exists>b j. store_result b now d1 = Inr (j, d2))"
    using assms unfolding store_seeds_def f by (cases "rx_result a") (auto split: sum.splits)
  ultimately show ?thesis by blast
qed

lemma answered_receive:
  assumes "answered k r st d"
  shows "answered k r st (snd (receive_message sha a now d))"
proof -
  have seeds: "answered k r st d1" if "store_seeds a now d = Inr (w, d1)" for w d1
    using store_seeds_chain [OF that] assms
    by (elim exE conjE disjE) (simp_all add: answered_store_result answered_store_assignment)
  have "snd (receive_message sha a now d) = d \<or>
    (\<exists>w d1. store_seeds a now d = Inr (w, d1) \<and> nd_assignments (snd (receive_message sha a now d)) = nd_assignments d1 \<and>
       nd_results (snd (receive_message sha a now d)) = nd_results d1)"
    using receive_cases [OF surjective_pairing, of sha a now d] by (elim disjE exE conjE) simp_all
  then show ?thesis using seeds answered_cong assms by metis
qed

lemma answered_step:
  assumes "answered k r st d" and "\<not> overwrites k x"
  shows "answered k r st (net_step sha known x now d)"
proof (cases x)
  case (NReceive a)
  then show ?thesis using answered_receive [OF assms(1)] by simp
next
  case (NClaim w n)
  then show ?thesis using assms(1) answered_reap
    by (simp add: answered_def claim_tables)
next
  case (NAssign a)
  then have "aa_id a \<noteq> k" using assms(2) by simp
  then show ?thesis using assms(1)
    by (auto simp: NAssign answered_def upsert_network_neighbor_assignment_def Let_def holds_at_snoc intro!: holds_at_upd)
next
  case (NStatus j u)
  then show ?thesis using assms
    by (auto simp: answered_def update_network_neighbor_assignment_status_def Let_def intro!: holds_at_upd)
next
  case (NResult a)
  then show ?thesis using assms(1)
    by (auto simp: answered_def add_network_neighbor_task_result_def Let_def holds_at_snoc)
next
  case (NProject q er)
  then show ?thesis using assms(1)
    by (auto simp: answered_def project_execution_failure_def Let_def recompute_tables assign_tables
        update_network_neighbor_assignment_status_def intro!: holds_at_upd split: option.split)
qed (use assms(1) in \<open>simp_all add: answered_def net_tables\<close>)

lemma answered_run:
  "answered k r st d \<Longrightarrow> \<forall>x now. (x, now) \<in> set xs \<longrightarrow> \<not> overwrites k x \<Longrightarrow> answered k r st (net_run sha known xs d)"
proof (induction sha known xs d rule: net_run.induct)
  case (2 sha known x now xs d)
  have "answered k r st (net_step sha known x now d)" by (rule answered_step) (use "2.prems" in auto)
  moreover have "\<forall>x now. (x, now) \<in> set xs \<longrightarrow> \<not> overwrites k x" using "2.prems"(2) by auto
  ultimately show ?case using "2.IH" by simp
qed simp

section \<open>Fencing\<close>

lemma stale_settle_refused:
  assumes "keyed wq_id (nd_wakes d)" and "wake_of (wq_id item) d = Some q" and "wq_attempts item < wq_attempts q"
  shows "settle_wake item st er now d = (False, d)" "renew_wake item n now d = (False, d)"
proof -
  have no: "\<not> fenced_wake item q" using assms(3) by (simp add: fenced_wake_def)
  have "update_row wq_id (wq_id item) (fenced_wake item) f (nd_wakes d) = (False, nd_wakes d)" for f
    by (rule update_row_reject [OF assms(1)]) (simp add: assms(2) no)
  then show "settle_wake item st er now d = (False, d)" by (simp add: settle_wake_def)
  have "update_row wq_id (wq_id item) (\<lambda>q. fenced_wake item q \<and> P q) f (nd_wakes d) = (False, nd_wakes d)" for f P
    by (rule update_row_reject [OF assms(1)]) (simp add: assms(2) no)
  then show "renew_wake item n now d = (False, d)" by (simp add: renew_wake_def)
qed

lemma stale_item_refused:
  assumes "keyed wq_id (nd_wakes d)" and "claim_next_network_neighbor_wake_item w n t d = (Some item, d1)"
    and "claim_next_network_neighbor_wake_item w' n' t' (net_run sha known xs d1) = (Some item', d2)"
    and "wq_id item' = wq_id item"
  shows "settle_wake item st er now (net_run sha known ys d2) = (False, net_run sha known ys d2)"
    "renew_wake item m now (net_run sha known ys d2) = (False, net_run sha known ys d2)"
proof -
  have k1: "keyed wq_id (nd_wakes d1)" using net_wakes_keyed [OF assms(1), of sha known "NClaim w n" t] assms(2) by simp
  then have k: "keyed wq_id (nd_wakes (net_run sha known xs d1))" by (rule net_run_keyed)
  have k2: "keyed wq_id (nd_wakes d2)" using net_wakes_keyed [OF k, of sha known "NClaim w' n'" t'] assms(3) by simp
  have "wake_of (wq_id item) d1 = Some item" using claimed_wake [OF assms(1,2)] by blast
  from wake_attempts_run [OF this, of sha known xs] obtain p where
    p: "wake_of (wq_id item) (net_run sha known xs d1) = Some p" "wq_attempts item \<le> wq_attempts p" by blast
  have q: "wake_of (wq_id item) d2 = Some item'" "wq_attempts item < wq_attempts item'"
    using claimed_wake [OF k assms(3)] p assms(4) by auto
  from wake_attempts_run [OF q(1), of sha known ys] obtain q' where
    "wake_of (wq_id item) (net_run sha known ys d2) = Some q'" "wq_attempts item < wq_attempts q'" using q(2) by force
  then show "settle_wake item st er now (net_run sha known ys d2) = (False, net_run sha known ys d2)"
    "renew_wake item m now (net_run sha known ys d2) = (False, net_run sha known ys d2)"
    using stale_settle_refused net_run_keyed [OF k2] by blast+
qed

section \<open>Properties\<close>

text \<open>A link, a peer that assigns a task over it, and a digest that tells texts apart.\<close>

definition demo_link :: link_rec where
  "demo_link = \<lparr>nl_id = ''l1'', nl_peer = ''p1'', nl_local_nickname = [], nl_remote_nickname = [],
     nl_local_role = ''primary'', nl_remote_role = ''companion'', nl_trust = ''trusted'', nl_binding = [],
     nl_metadata = [], nl_paired = 0, nl_last_seen = None, nl_created = 0, nl_updated = 0\<rparr>"

definition demo_net :: net_db where
  "demo_net = empty_net\<lparr>nd_links := [demo_link]\<rparr>"

definition demo_sha :: "json \<Rightarrow> string" where
  "demo_sha j = (case j of JStr s \<Rightarrow> s | _ \<Rightarrow> ''1'')"

definition demo_receive :: receive_args where
  "demo_receive = \<lparr>rx_link = [(''linkId'', JStr ''l1'')], rx_from = ''p1'', rx_type = ''neighbor.task.assign'',
     rx_payload = JStr ''do it'', rx_body = ''do it'', rx_preview = ''do it'', rx_binding = [], rx_metadata = [],
     rx_business = ''a1'', rx_wake = Some [(''kind'', JStr ''neighbor_task_assignment'')],
     rx_assign = Some (\<lparr>tk_id = ''t1'', tk_title = None, tk_body = ''do it'', tk_status = ''received'', tk_mode = ''inbound'',
         tk_session = None, tk_run = None, tk_wake = ''inbox'', tk_capabilities = [], tk_binding = [],
         tk_metadata = [(''fromPeerId'', JStr ''p1'')], tk_deadline = None\<rparr>,
       \<lparr>aa_id = ''a1'', aa_task = ''t1'', aa_link = ''l1'', aa_peer = ''p1'', aa_body = ''do it'', aa_parent = None,
         aa_depth = 0, aa_status = ''received'', aa_capabilities = [], aa_wake = ''inbox'', aa_run = None,
         aa_result = None, aa_error = None, aa_metadata = [(''payloadDigest'', JStr ''d'')]\<rparr>),
     rx_result = None, rx_uuid = ''u1''\<rparr>"

definition demo_received :: net_db where
  "demo_received = snd (receive_message demo_sha demo_receive 1000 demo_net)"



text \<open>C28: an execution is not repeated on its own. In every history an item of the wake queue is
  handed out for execution at most once, and once more for each report that puts it back; a lease
  that runs out puts nothing back.\<close>

theorem wake_executed_once:
  assumes "keyed wq_id (nd_wakes d)"
  shows "wake_runs sha known k xs d \<le> 1 + length (filter (\<lambda>(x, now). puts_back k x) xs)"
  using wake_credit_run [OF assms, of sha known k xs] wake_credit_le [of k d] by simp

theorem wake_executed_once_witness:
  "wake_runs demo_sha (\<lambda>_. True) ''nwake_1'' [(NClaim ''w1'' 30, 2000), (NClaim ''w2'' 30, 900000)] demo_received
     \<le> 1 + length (filter (\<lambda>(x, now). puts_back ''nwake_1'' x) [(NClaim ''w1'' 30, 2000 :: time), (NClaim ''w2'' 30, 900000)])"
proof (rule wake_executed_once)
  show "keyed wq_id (nd_wakes demo_received)" unfolding keyed_def by code_simp
qed

text \<open>An executor that lost its item is fenced. Once an item has been handed out again,
  settling or renewing it with the item of the earlier claim is refused and changes nothing,
  whatever happened in between and since, and even for the same worker.\<close>

theorem lost_executor_fenced:
  assumes "keyed wq_id (nd_wakes d)" and "claim_next_network_neighbor_wake_item w n t d = (Some item, d1)"
    and "claim_next_network_neighbor_wake_item w' n' t' (net_run sha known xs d1) = (Some item', d2)"
    and "wq_id item' = wq_id item"
  shows "settle_wake item st er now (net_run sha known ys d2) = (False, net_run sha known ys d2) \<and>
    renew_wake item m now (net_run sha known ys d2) = (False, net_run sha known ys d2)"
  using stale_item_refused [OF assms] by blast

lemma handed_item: "map_option wq_id (fst p) = Some k \<Longrightarrow> \<exists>q. p = (Some q, snd p) \<and> wq_id q = k"
  by (cases p) auto

theorem lost_executor_fenced_witness:
  "\<exists>item d2. settle_wake item ''completed'' [] 9000 d2 = (False, d2) \<and>
     fst (claim_next_network_neighbor_wake_item ''w1'' 30 2000 demo_received) = Some item"
proof -
  let ?k = "''nwake_1''"
  define d1 where "d1 = snd (claim_next_network_neighbor_wake_item ''w1'' 30 2000 demo_received)"
  define d2 where "d2 = net_run demo_sha (\<lambda>_. True) [(NFail ?k ''boom'' 1 d1, 3000)] d1"
  have one: "map_option wq_id (fst (claim_next_network_neighbor_wake_item ''w1'' 30 2000 demo_received)) = Some ?k" by code_simp
  from handed_item [OF one] obtain item where
    i: "claim_next_network_neighbor_wake_item ''w1'' 30 2000 demo_received = (Some item, d1)" "wq_id item = ?k"
    unfolding d1_def by blast
  have two: "map_option wq_id (fst (claim_next_network_neighbor_wake_item ''w1'' 30 8000 d2)) = Some ?k"
    unfolding d2_def d1_def by code_simp
  from handed_item [OF two] obtain item' where j: "claim_next_network_neighbor_wake_item ''w1'' 30 8000 d2 =
      (Some item', snd (claim_next_network_neighbor_wake_item ''w1'' 30 8000 d2))" "wq_id item' = ?k" by blast
  have "keyed wq_id (nd_wakes demo_received)" unfolding keyed_def by code_simp
  note fenced = lost_executor_fenced [OF this i(1) j(1) [unfolded d2_def], where ys = "[]"]
  have "settle_wake item ''completed'' [] 9000 (snd (claim_next_network_neighbor_wake_item ''w1'' 30 8000 d2)) =
      (False, snd (claim_next_network_neighbor_wake_item ''w1'' 30 8000 d2))"
    using fenced i(2) j(2) unfolding d2_def by simp
  then show ?thesis using i(1) by auto
qed


definition demo_result :: "string \<Rightarrow> string \<Rightarrow> result_args" where
  "demo_result r st = \<lparr>rs_id = r, rs_task = ''t1'', rs_assignment = ''a1'', rs_link = ''l1'', rs_peer = ''p1'',
     rs_outcome = st, rs_summary = None, rs_body = Some ''done'', rs_attention = False, rs_capabilities = [],
     rs_reason = None, rs_meta = []\<rparr>"

definition demo_answered :: net_db where
  "demo_answered = snd (receive_message demo_sha (demo_receive\<lparr>rx_business := ''r1'', rx_type := ''1'', rx_wake := None,
     rx_assign := None, rx_result := Some (demo_result ''r1'' ''completed'')\<rparr>) 2000
     (demo_net\<lparr>nd_tasks := nd_tasks demo_received, nd_assignments := nd_assignments demo_received\<rparr>))"


text \<open>The messages of a link are numbered without repetition. Whatever is sent and received
  over whatever links, duplicates and refusals included, the numbers of a link stay strictly
  increasing and no new message gets a number the link had before.\<close>

theorem link_numbers_never_repeat:
  assumes "sorted_wrt (<) (link_seqs d l)"
  shows "sorted_wrt (<) (link_seqs (appends (append_message sha known) xs d) l) \<and>
    distinct (link_seqs d l @ handed_out (append_message sha known) append_link l xs d)"
  using link_messages.stream_increasing [OF assms] link_messages.handed_out_distinct [OF assms] by blast

theorem link_numbers_never_repeat_witness:
  "distinct (link_seqs demo_net ''l1'' @ handed_out (append_message demo_sha (\<lambda>_. True)) append_link ''l1''
     [(AReceive demo_receive, 1000), (AReceive demo_receive, 1001), (AReceive (demo_receive\<lparr>rx_type := ''x''\<rparr>), 1002)] demo_net)"
proof -
  have "sorted_wrt (<) (link_seqs demo_net ''l1'')" by code_simp
  from link_numbers_never_repeat [OF this] show ?thesis by blast
qed

end
