(* ===== verification/Relay.thy ===== *)
theory Relay
  imports NeighborStore Leases
begin

text \<open>
  The relay: the outbox, the inbox cursor, the acknowledgements and the dead letters
  (core/database.py), and the worker that publishes the one and drains the other
  (runtimes/network_supervisor/relay_runtime.py). What the transport answers and what handling an
  envelope does are parameters.
\<close>

section \<open>The outbox\<close>

record outbox_args =
  oa_id :: string
  oa_peer :: string
  oa_envelope :: dict
  oa_link :: "string option"
  oa_message :: "string option"
  oa_max :: int

definition new_outbox_row :: "outbox_args \<Rightarrow> time \<Rightarrow> outbox_rec" where
  "new_outbox_row a now =
     \<lparr>ob_id = oa_id a, ob_peer = oa_peer a, ob_link = oa_link a, ob_message = oa_message a,
      ob_envelope = oa_envelope a, ob_state = ''queued'', ob_attempts = 0, ob_max = clamp 1 5 20 (oa_max a),
      ob_available = Some now, ob_claimed_by = None, ob_lease = None, ob_relay_message = None,
      ob_error = None, ob_created = now, ob_updated = now, ob_published = None, ob_failed = None\<rparr>"

definition get_network_relay_outbox_item :: "string \<Rightarrow> net_db \<Rightarrow> outbox_rec option" where
  "get_network_relay_outbox_item x d = (let k = py_strip x in if k = [] then None else outbox_of k d)"

definition add_network_relay_outbox_item ::
  "outbox_args \<Rightarrow> time \<Rightarrow> net_db \<Rightarrow> (net_error + outbox_rec option) \<times> net_db" where
  "add_network_relay_outbox_item a now d =
     (if outbox_of (oa_id a) d \<noteq> None then (Inl DuplicateRow, d)
      else
        let d' = d\<lparr>nd_outbox := nd_outbox d @ [new_outbox_row a now]\<rparr>
        in (Inr (get_network_relay_outbox_item (oa_id a) d'), d'))"

definition outbox_ready :: "time \<Rightarrow> outbox_rec \<Rightarrow> bool" where
  "outbox_ready now x \<longleftrightarrow> ob_attempts x < ob_max x \<and>
     ((ob_state x \<in> {''queued'', ''retry''} \<and> expired_or_null (ob_available x) now) \<or>
      (ob_state x = ''leased'' \<and> at_or_before (ob_lease x) now))"

definition leased_outbox_row :: "string \<Rightarrow> time \<Rightarrow> time \<Rightarrow> outbox_rec \<Rightarrow> outbox_rec" where
  "leased_outbox_row w lease now x =
     x\<lparr>ob_state := ''leased'', ob_attempts := ob_attempts x + 1, ob_claimed_by := Some w,
       ob_lease := Some lease, ob_updated := now\<rparr>"

definition claim_next_network_relay_outbox_item ::
  "string \<Rightarrow> int \<Rightarrow> time \<Rightarrow> net_db \<Rightarrow> outbox_rec option \<times> net_db" where
  "claim_next_network_relay_outbox_item w seconds now d =
     (let lease = now + lease_ms 30 180 seconds
      in case first_by ob_created (filter (outbox_ready now) (nd_outbox d)) of
           None \<Rightarrow> (None, d)
         | Some x \<Rightarrow>
             (case update_row ob_id (ob_id x) (outbox_ready now) (leased_outbox_row w lease now) (nd_outbox d) of
                (ok, t) \<Rightarrow>
                  (let d' = d\<lparr>nd_outbox := t\<rparr>
                   in if ok then (outbox_of (ob_id x) d', d') else (None, d'))))"

definition published_row :: "string option \<Rightarrow> time \<Rightarrow> outbox_rec \<Rightarrow> outbox_rec" where
  "published_row m now x =
     x\<lparr>ob_state := ''published'', ob_relay_message := coalesce m (ob_relay_message x),
       ob_published := Some now, ob_available := None, ob_lease := None, ob_updated := now\<rparr>"

definition complete_network_relay_outbox_item ::
  "string \<Rightarrow> string option \<Rightarrow> time \<Rightarrow> net_db \<Rightarrow> outbox_rec option \<times> net_db" where
  "complete_network_relay_outbox_item x m now d =
     (let d' = d\<lparr>nd_outbox := upd_where (\<lambda>y. ob_id y = x \<and> ob_state y = ''leased'') (published_row m now) (nd_outbox d)\<rparr>
      in (get_network_relay_outbox_item x d', d'))"

definition retried_outbox_row :: "bool \<Rightarrow> string \<Rightarrow> time \<Rightarrow> time \<Rightarrow> outbox_rec \<Rightarrow> outbox_rec" where
  "retried_outbox_row exhausted error available now x =
     x\<lparr>ob_state := (if exhausted then ''dead_letter'' else ''retry''),
       ob_available := (if exhausted then None else Some available), ob_lease := None,
       ob_error := Some (take 1000 error),
       ob_failed := (if exhausted then Some now else ob_failed x), ob_updated := now\<rparr>"

section \<open>Dead letters, acknowledgements and cursors\<close>

record dead_args =
  da_direction :: string
  da_peer :: "string option"
  da_message :: "string option"
  da_outbox :: "string option"
  da_envelope :: dict
  da_reason :: string
  da_metadata :: dict

definition dead_letter_row :: "dead_args \<Rightarrow> string \<Rightarrow> time \<Rightarrow> dead_rec" where
  "dead_letter_row a uuid now =
     \<lparr>dl_id = ''nrdl_'' @ uuid,
      dl_direction = or_text (py_strip (or_text (da_direction a) ''inbound'')) ''inbound'',
      dl_peer = da_peer a, dl_message = da_message a, dl_outbox = da_outbox a, dl_envelope = da_envelope a,
      dl_reason = take 1000 (da_reason a), dl_metadata = da_metadata a, dl_created = now\<rparr>"

definition add_network_relay_dead_letter :: "dead_args \<Rightarrow> string \<Rightarrow> time \<Rightarrow> net_db \<Rightarrow> net_db" where
  "add_network_relay_dead_letter a uuid now d = d\<lparr>nd_dead := nd_dead d @ [dead_letter_row a uuid now]\<rparr>"

definition list_network_relay_dead_letters :: "int \<Rightarrow> net_db \<Rightarrow> dead_rec list" where
  "list_network_relay_dead_letters limit d = take (wake_page limit) (sort_key (\<lambda>x. - dl_created x) (nd_dead d))"

text \<open>\<^verbatim>\<open>INSERT OR IGNORE\<close>: the relay message identifier is unique.\<close>

definition add_network_relay_delivery_ack ::
  "string \<Rightarrow> string \<Rightarrow> dict \<Rightarrow> string \<Rightarrow> time \<Rightarrow> net_db \<Rightarrow> net_db" where
  "add_network_relay_delivery_ack peer m meta uuid now d =
     (if sel_by ac_message (py_strip m) (nd_acks d) \<noteq> None then d
      else d\<lparr>nd_acks := nd_acks d @ [\<lparr>ac_id = ''nrack_'' @ uuid, ac_peer = py_strip peer, ac_message = py_strip m,
             ac_state = ''acked'', ac_metadata = meta, ac_created = now\<rparr>]\<rparr>)"

definition get_network_relay_cursor :: "string \<Rightarrow> net_db \<Rightarrow> string" where
  "get_network_relay_cursor peer d =
     (let k = py_strip peer
      in if k = [] then [] else case sel_by rl_peer k (nd_cursors d) of None \<Rightarrow> [] | Some c \<Rightarrow> rl_cursor c)"

definition upsert_network_relay_cursor :: "string \<Rightarrow> string \<Rightarrow> time \<Rightarrow> net_db \<Rightarrow> net_db" where
  "upsert_network_relay_cursor peer cursor now d =
     (let k = py_strip peer
      in if k = [] then d
         else d\<lparr>nd_cursors :=
           (if sel_by rl_peer k (nd_cursors d) = None
            then nd_cursors d @ [\<lparr>rl_peer = k, rl_cursor = cursor, rl_updated = now\<rparr>]
            else upd_where (\<lambda>c. rl_peer c = k) (\<lambda>c. c\<lparr>rl_cursor := cursor, rl_updated := now\<rparr>) (nd_cursors d))\<rparr>)"

section \<open>Failing an item\<close>

definition outbox_dead_letter :: "outbox_rec \<Rightarrow> string \<Rightarrow> dead_args" where
  "outbox_dead_letter x error =
     \<lparr>da_direction = ''outbound'', da_peer = Some (ob_peer x), da_message = None, da_outbox = Some (ob_id x),
      da_envelope = ob_envelope x, da_reason = take 1000 error,
      da_metadata = [(''attemptCount'', JInt (ob_attempts x)), (''maxAttempts'', JInt (ob_max x))]\<rparr>"

text \<open>The item is read in a transaction of its own: \<open>d0\<close> is the state it was read in.\<close>

definition fail_network_relay_outbox_item ::
  "string \<Rightarrow> string \<Rightarrow> int \<Rightarrow> string \<Rightarrow> time \<Rightarrow> net_db \<Rightarrow> net_db \<Rightarrow> outbox_rec option \<times> net_db" where
  "fail_network_relay_outbox_item x error delay uuid now d0 d =
     (case get_network_relay_outbox_item x d0 of
        None \<Rightarrow> (None, d)
      | Some old \<Rightarrow>
          let exhausted = (ob_attempts old \<ge> (if ob_max old = 0 then 1 else ob_max old));
              d1 = d\<lparr>nd_outbox := upd_where (\<lambda>y. ob_id y = x \<and> ob_state y = ''leased'')
                     (retried_outbox_row exhausted error (now + lease_ms 1 30 delay) now) (nd_outbox d)\<rparr>;
              d2 = (if exhausted
                    then add_network_relay_dead_letter ((outbox_dead_letter old error)\<lparr>da_outbox := Some x\<rparr>) uuid now d1
                    else d1)
          in (get_network_relay_outbox_item x d2, d2))"

definition list_network_relay_outbox :: "string list \<Rightarrow> int \<Rightarrow> net_db \<Rightarrow> outbox_rec list" where
  "list_network_relay_outbox states limit d =
     (let wanted = nonblank states
      in take (wake_page limit) (sort_key (\<lambda>x. - ob_created x)
           (filter (\<lambda>x. wanted = [] \<or> ob_state x \<in> set wanted) (nd_outbox d))))"

section \<open>Publishing\<close>

datatype publish_outcome = PublishRaised string | PublishRefused string | Published "string option"

definition publish_failed :: "outbox_rec \<Rightarrow> string \<Rightarrow> string \<Rightarrow> time \<Rightarrow> net_db \<Rightarrow> net_db" where
  "publish_failed item error uuid now d =
     (let (failed, d1) = fail_network_relay_outbox_item (ob_id item) error 30 uuid now d d
      in case ob_message item of
           Some m \<Rightarrow> (if m \<noteq> [] \<and> map_option ob_state failed = Some ''dead_letter''
              then snd (update_network_neighbor_message_status m ''failed'' now d1) else d1)
         | None \<Rightarrow> d1)"

definition process_outbox_once ::
  "string \<Rightarrow> (outbox_rec \<Rightarrow> publish_outcome) \<Rightarrow> string \<Rightarrow> time \<Rightarrow> time \<Rightarrow> net_db \<Rightarrow> bool \<times> net_db" where
  "process_outbox_once worker publish uuid now finished d =
     (case claim_next_network_relay_outbox_item worker 180 now d of
        (None, d') \<Rightarrow> (False, d')
      | (Some item, d') \<Rightarrow>
          (True, case publish item of
             PublishRaised error \<Rightarrow> publish_failed item error uuid finished d'
           | PublishRefused state \<Rightarrow>
               publish_failed item (''Relay publish returned not-ok state='' @ state) uuid finished d'
           | Published m \<Rightarrow>
               (let d1 = snd (complete_network_relay_outbox_item (ob_id item) m finished d')
                in case ob_message item of
                     Some k \<Rightarrow> (if k \<noteq> [] then snd (update_network_neighbor_message_status k ''published'' finished d1)
                                else d1)
                   | None \<Rightarrow> d1)))"

section \<open>Draining the inbox\<close>

text \<open>Handling an envelope succeeds, is refused for good (a \<^verbatim>\<open>ValueError\<close> or a client
  error), or fails for now. An item without envelope is refused.\<close>

datatype handling = Handled | Refused string | Transient

definition relay_message_id :: "dict \<Rightarrow> string" where
  "relay_message_id item = py_strip (or_text (as_text (dget item ''relayMessageId'')) (as_text (dget item ''messageId'')))"

definition item_cursor :: "string \<Rightarrow> dict \<Rightarrow> string" where
  "item_cursor next item = py_strip (or_text (as_text (dget item ''cursor'')) (or_text (relay_message_id item) next))"

definition item_envelope :: "dict \<Rightarrow> json" where
  "item_envelope item = (if is_dict (dget item ''envelope'') then dget item ''envelope'' else dget item ''payload'')"

definition handle_item :: "(dict \<Rightarrow> net_db \<Rightarrow> handling \<times> net_db) \<Rightarrow> dict \<Rightarrow> net_db \<Rightarrow> handling \<times> net_db" where
  "handle_item handle item d =
     (case item_envelope item of
        JObj envelope \<Rightarrow> handle envelope d
      | _ \<Rightarrow> (Refused ''Relay mailbox item is missing envelope'', d))"

definition inbound_dead_letter :: "string \<Rightarrow> string \<Rightarrow> dict \<Rightarrow> string \<Rightarrow> dead_args" where
  "inbound_dead_letter peer cursor item reason =
     \<lparr>da_direction = ''inbound'', da_peer = Some peer, da_message = or_none (relay_message_id item), da_outbox = None,
      da_envelope = as_dict (item_envelope item), da_reason = reason, da_metadata = [(''cursor'', JStr cursor)]\<rparr>"

definition advance_cursor :: "string \<Rightarrow> string \<Rightarrow> time \<Rightarrow> net_db \<Rightarrow> net_db" where
  "advance_cursor peer cursor now d = (if cursor = [] then d else upsert_network_relay_cursor peer cursor now d)"

text \<open>One item: \<open>None\<close> when the drain stops, otherwise what is to be acknowledged.\<close>

definition drain_item ::
  "(dict \<Rightarrow> net_db \<Rightarrow> handling \<times> net_db) \<Rightarrow> string \<Rightarrow> string \<Rightarrow> string \<Rightarrow> time \<Rightarrow> dict \<Rightarrow> net_db \<Rightarrow>
     string list option \<times> net_db" where
  "drain_item handle peer next uuid now item d =
     (let m = relay_message_id item; cursor = item_cursor next item
      in case handle_item handle item d of
           (Transient, d') \<Rightarrow> (None, d')
         | (Handled, d') \<Rightarrow>
             (let d1 = (if m = [] then d'
                        else add_network_relay_delivery_ack peer m [(''cursor'', JStr cursor)] uuid now d')
              in (Some (if m = [] then [] else [m]), advance_cursor peer cursor now d1))
         | (Refused why, d') \<Rightarrow>
             (let d1 = add_network_relay_dead_letter (inbound_dead_letter peer cursor item why) uuid now d'
              in (Some (if m = [] then [] else [m]), advance_cursor peer cursor now d1)))"

fun drain_items ::
  "(dict \<Rightarrow> net_db \<Rightarrow> handling \<times> net_db) \<Rightarrow> string \<Rightarrow> string \<Rightarrow> (nat \<Rightarrow> string) \<Rightarrow> time \<Rightarrow> dict list \<Rightarrow>
     net_db \<Rightarrow> nat \<times> string list \<times> net_db" where
  "drain_items handle peer next uuid now [] d = (0, [], d)"
| "drain_items handle peer next uuid now (item # items) d =
     (case drain_item handle peer next (uuid (length items)) now item d of
        (None, d') \<Rightarrow> (0, [], d')
      | (Some acks, d') \<Rightarrow>
          (case drain_items handle peer next uuid now items d' of
             (n, rest, d'') \<Rightarrow> (Suc n, acks @ rest, d'')))"

definition ack_dead_letter :: "string \<Rightarrow> string \<Rightarrow> string list \<Rightarrow> dead_args" where
  "ack_dead_letter peer why ids =
     \<lparr>da_direction = ''ack'', da_peer = Some peer, da_message = None, da_outbox = None, da_envelope = [],
      da_reason = ''Relay ACK failed: '' @ why, da_metadata = [(''messageIds'', JList (map JStr ids))]\<rparr>"

text \<open>What was pulled (the items and the transport's next cursor, nothing when the relay is down or
  answered not ok) and whether the acknowledgement got through are parameters; the answer is
  whether an item was processed, and the acknowledged messages.\<close>

definition process_inbox_once ::
  "(dict \<Rightarrow> net_db \<Rightarrow> handling \<times> net_db) \<Rightarrow> string \<Rightarrow> (string \<Rightarrow> (dict list \<times> string) option) \<Rightarrow>
     (string list \<Rightarrow> string option) \<Rightarrow> (nat \<Rightarrow> string) \<Rightarrow> time \<Rightarrow> net_db \<Rightarrow> (bool \<times> string list) \<times> net_db" where
  "process_inbox_once handle peer pull ack uuid now d =
     (let local = py_strip peer
      in if local = [] then ((False, []), d)
         else case pull (get_network_relay_cursor local d) of
           None \<Rightarrow> ((False, []), d)
         | Some (items, next) \<Rightarrow>
             (case drain_items handle local next uuid now items d of
                (n, ids, d') \<Rightarrow>
                  ((0 < n, ids),
                   case (if ids = [] then None else ack ids) of
                     None \<Rightarrow> d'
                   | Some why \<Rightarrow> add_network_relay_dead_letter (ack_dead_letter local why ids) (uuid (length items)) now d')))"

section \<open>The outbox along a history\<close>

datatype outbox_op =
    XAdd outbox_args
  | XComplete string "string option"
  | XFail string string int string net_db

record outbox_claim =
  xc_worker :: string
  xc_seconds :: int

fun outbox_step :: "outbox_op \<Rightarrow> time \<Rightarrow> net_db \<Rightarrow> net_db" where
  "outbox_step (XAdd a) now d = snd (add_network_relay_outbox_item a now d)"
| "outbox_step (XComplete x m) now d = snd (complete_network_relay_outbox_item x m now d)"
| "outbox_step (XFail x e n u d0) now d = snd (fail_network_relay_outbox_item x e n u now d0 d)"

fun outbox_targets :: "outbox_op \<Rightarrow> string set" where
  "outbox_targets (XAdd a) = {}"
| "outbox_targets (XComplete x m) = {x}"
| "outbox_targets (XFail x e n u d0) = {x}"

definition outbox_grant :: "outbox_claim \<Rightarrow> time \<Rightarrow> net_db \<Rightarrow> string option \<times> net_db" where
  "outbox_grant c now d =
     (case claim_next_network_relay_outbox_item (xc_worker c) (xc_seconds c) now d of
        (r, d') \<Rightarrow> (map_option ob_id r, d'))"

definition outbox_lease :: "net_db \<Rightarrow> string \<Rightarrow> (string \<times> time) option" where
  "outbox_lease d k = (case outbox_of k d of
     None \<Rightarrow> None
   | Some x \<Rightarrow> if ob_state x = ''leased''
               then (case (ob_claimed_by x, ob_lease x) of (Some w, Some e) \<Rightarrow> Some (w, e) | _ \<Rightarrow> None)
               else None)"

definition outbox_wf :: "net_db \<Rightarrow> bool" where
  "outbox_wf d \<longleftrightarrow> keyed ob_id (nd_outbox d)"

lemma outbox_row_simps [simp]:
  "ob_id (new_outbox_row a now) = oa_id a" "ob_attempts (new_outbox_row a now) = 0"
  "ob_max (new_outbox_row a now) = clamp 1 5 20 (oa_max a)"
  "ob_id (leased_outbox_row w e now x) = ob_id x" "ob_state (leased_outbox_row w e now x) = ''leased''"
  "ob_attempts (leased_outbox_row w e now x) = ob_attempts x + 1" "ob_max (leased_outbox_row w e now x) = ob_max x"
  "ob_claimed_by (leased_outbox_row w e now x) = Some w" "ob_lease (leased_outbox_row w e now x) = Some e"
  "ob_id (published_row m now x) = ob_id x" "ob_attempts (published_row m now x) = ob_attempts x"
  "ob_max (published_row m now x) = ob_max x"
  "ob_id (retried_outbox_row ex er av now x) = ob_id x"
  "ob_attempts (retried_outbox_row ex er av now x) = ob_attempts x"
  "ob_max (retried_outbox_row ex er av now x) = ob_max x"
  by (simp_all add: new_outbox_row_def leased_outbox_row_def published_row_def retried_outbox_row_def)

lemma claim_outbox_cases:
  assumes "outbox_wf d" and "claim_next_network_relay_outbox_item w n now d = (r, d')"
  shows "(r = None \<and> d' = d) \<or>
    (\<exists>x. outbox_of (ob_id x) d = Some x \<and> outbox_ready now x \<and>
       r = Some (leased_outbox_row w (now + lease_ms 30 180 n) now x) \<and>
       (\<forall>k. outbox_of k d' = (if k = ob_id x then r else outbox_of k d)) \<and> outbox_wf d')"
proof (cases "first_by ob_created (filter (outbox_ready now) (nd_outbox d))")
  case None
  then show ?thesis using assms(2) by (simp add: claim_next_network_relay_outbox_item_def)
next
  case (Some x)
  let ?f = "leased_outbox_row w (now + lease_ms 30 180 n) now"
  have keyed: "keyed ob_id (nd_outbox d)" using assms(1) by (simp add: outbox_wf_def)
  from first_by_in [OF Some] have x: "outbox_of (ob_id x) d = Some x" "outbox_ready now x"
    using keyed_sel_iff [OF keyed] by blast+
  have ok: "fst (update_row ob_id (ob_id x) (outbox_ready now) ?f (nd_outbox d))"
    by (simp add: update_row_fst [OF keyed] x)
  have sel: "sel_by ob_id k (snd (update_row ob_id (ob_id x) (outbox_ready now) ?f (nd_outbox d))) =
      (if k = ob_id x then Some (?f x) else outbox_of k d)" for k
    using update_row_sel [OF keyed, of ?f k "ob_id x" "outbox_ready now"] x by simp
  have "keyed ob_id (snd (update_row ob_id (ob_id x) (outbox_ready now) ?f (nd_outbox d)))"
    using update_row_keyed [of ob_id ?f] keyed by simp
  then show ?thesis using assms(2) Some x ok sel
    by (auto simp: claim_next_network_relay_outbox_item_def Let_def split_beta outbox_wf_def)
qed

lemma outbox_step_sel:
  assumes "outbox_of k d = Some x"
  shows "\<exists>y. outbox_of k (outbox_step b now d) = Some y \<and> ob_attempts y = ob_attempts x \<and> ob_max y = ob_max x \<and>
    (k \<notin> outbox_targets b \<longrightarrow> y = x)"
proof (cases b)
  case (XAdd a)
  then show ?thesis using assms by (auto simp: add_network_relay_outbox_item_def Let_def sel_by_append)
next
  case (XComplete i m)
  then show ?thesis using assms
    by (cases "k = i"; cases "ob_state x = ''leased''")
      (simp_all add: complete_network_relay_outbox_item_def Let_def sel_upd_key)
next
  case (XFail i er n u d0)
  then show ?thesis using assms
    by (cases "k = i"; cases "ob_state x = ''leased''"; cases "get_network_relay_outbox_item i d0")
      (simp_all add: fail_network_relay_outbox_item_def Let_def sel_upd_key add_network_relay_dead_letter_def)
qed

lemma outbox_step_wf: "outbox_wf d \<Longrightarrow> outbox_wf (outbox_step b now d)"
  by (cases b) (auto simp: outbox_wf_def add_network_relay_outbox_item_def complete_network_relay_outbox_item_def
      fail_network_relay_outbox_item_def add_network_relay_dead_letter_def Let_def keyed_upd_where keyed_snoc
      split: option.split)

lemma lease_ms_now: "0 < lo \<Longrightarrow> now < now + lease_ms lo dflt n"
  using lease_ms_pos [of lo dflt n] by simp

interpretation outbox: lease_queue outbox_grant outbox_step outbox_targets xc_worker outbox_lease outbox_wf
proof
  fix s a t assume "outbox_wf s"
  then show "outbox_wf (snd (outbox_grant a t s))"
    using claim_outbox_cases [OF _ surjective_pairing, of s "xc_worker a" "xc_seconds a" t]
    by (auto simp: outbox_grant_def split_beta)
next
  fix s b t assume "outbox_wf s"
  then show "outbox_wf (outbox_step b t s)" by (rule outbox_step_wf)
next
  fix s a t k s' assume wf: "outbox_wf s" and "outbox_grant a t s = (Some k, s')"
  then show "\<not> live (outbox_lease s k) t"
    using claim_outbox_cases [OF wf, of "xc_worker a" "xc_seconds a" t]
    by (auto simp: outbox_grant_def outbox_lease_def outbox_ready_def at_or_before_def split: prod.splits option.splits)
next
  fix s a t k s' assume wf: "outbox_wf s" and "outbox_grant a t s = (Some k, s')"
  then show "\<exists>e. outbox_lease s' k = Some (xc_worker a, e) \<and> t < e"
    using claim_outbox_cases [OF wf, of "xc_worker a" "xc_seconds a" t] lease_ms_now [of 30]
    by (auto simp: outbox_grant_def outbox_lease_def split: prod.splits)
next
  fix s a t r k s' assume wf: "outbox_wf s" and "outbox_grant a t s = (r, s')" "r \<noteq> Some k"
  then have "outbox_of k s' = outbox_of k s"
    using claim_outbox_cases [OF wf, of "xc_worker a" "xc_seconds a" t]
    by (auto simp: outbox_grant_def split: prod.splits if_splits)
  then show "outbox_lease s' k = outbox_lease s k" by (simp add: outbox_lease_def)
next
  fix s k b t assume wf: "outbox_wf s" and k: "k \<notin> outbox_targets b" and "live (outbox_lease s k) t"
  then obtain x where "outbox_of k s = Some x" by (auto simp: outbox_lease_def split: option.splits)
  then show "outbox_lease (outbox_step b t s) k = outbox_lease s k"
    using outbox_step_sel [of k s x b t] k by (auto simp: outbox_lease_def)
qed

section \<open>Bounded publication\<close>

lemma outbox_grants_bound:
  assumes "outbox_wf d" and "outbox_of k d = Some x" and "ob_attempts x \<le> ob_max x"
  shows "int (count_list (grants outbox_grant outbox_step d es) k) \<le> ob_max x - ob_attempts x"
  using assms
proof (induction es arbitrary: d x)
  case (Cons ev es)
  show ?case
  proof (cases ev)
    case (Other b t)
    obtain y where y: "outbox_of k (outbox_step b t d) = Some y" "ob_attempts y = ob_attempts x" "ob_max y = ob_max x"
      using outbox_step_sel [OF Cons.prems(2)] by blast
    from Cons.IH [OF outbox_step_wf [OF Cons.prems(1)] y(1)] y Cons.prems(3) Other show ?thesis by simp
  next
    case (Claim c t)
    obtain r d' where rd: "claim_next_network_relay_outbox_item (xc_worker c) (xc_seconds c) t d = (r, d')" by (meson surj_pair)
    then have g: "outbox_grant c t d = (map_option ob_id r, d')" by (simp add: outbox_grant_def)
    from claim_outbox_cases [OF Cons.prems(1) rd] show ?thesis
    proof (elim disjE exE conjE)
      assume "r = None" "d' = d"
      then show ?thesis using Cons g Claim by simp
    next
      fix z assume z: "outbox_of (ob_id z) d = Some z" "outbox_ready t z"
        "r = Some (leased_outbox_row (xc_worker c) (t + lease_ms 30 180 (xc_seconds c)) t z)"
        "\<forall>k. outbox_of k d' = (if k = ob_id z then r else outbox_of k d)" "outbox_wf d'"
      show ?thesis
      proof (cases "k = ob_id z")
        case True
        then have "x = z" "ob_attempts x < ob_max x" using z(1,2) Cons.prems(2) by (auto simp: outbox_ready_def)
        moreover have "outbox_of k d' = Some (leased_outbox_row (xc_worker c) (t + lease_ms 30 180 (xc_seconds c)) t z)"
          using z(3,4) True by simp
        ultimately show ?thesis using Cons.IH [OF z(5)] True g z(3) Claim by fastforce
      next
        case False
        then have "outbox_of k d' = Some x" using z(4) Cons.prems(2) by simp
        then show ?thesis using Cons.IH [OF z(5) _ Cons.prems(3)] False g z(3) Claim by simp
      qed
    qed
  qed
qed simp

section \<open>Draining\<close>

text \<open>Handling an envelope leaves the relay tables alone: they belong to the worker.\<close>

definition relay_quiet :: "(dict \<Rightarrow> net_db \<Rightarrow> handling \<times> net_db) \<Rightarrow> bool" where
  "relay_quiet handle \<longleftrightarrow> (\<forall>e d. nd_acks (snd (handle e d)) = nd_acks d \<and> nd_dead (snd (handle e d)) = nd_dead d \<and>
     nd_cursors (snd (handle e d)) = nd_cursors d)"

definition accounted :: "string \<Rightarrow> net_db \<Rightarrow> bool" where
  "accounted m d \<longleftrightarrow> m \<in> ac_message ` set (nd_acks d) \<or> Some m \<in> dl_message ` set (nd_dead d)"

fun last_cursor :: "string \<Rightarrow> string \<Rightarrow> dict list \<Rightarrow> string" where
  "last_cursor next c [] = c"
| "last_cursor next c (item # items) = last_cursor next (or_text (item_cursor next item) c) items"

lemma handle_item_quiet:
  assumes "relay_quiet handle"
  shows "nd_acks (snd (handle_item handle item d)) = nd_acks d" "nd_dead (snd (handle_item handle item d)) = nd_dead d"
    "nd_cursors (snd (handle_item handle item d)) = nd_cursors d"
  using assms by (simp_all add: handle_item_def relay_quiet_def split: json.split)

lemma relay_message_id_strip [simp]: "py_strip (relay_message_id item) = relay_message_id item"
  by (simp add: relay_message_id_def)

text \<open>What one item leaves behind.\<close>

lemma cursor_after [simp]:
  assumes "py_strip peer = peer" and "peer \<noteq> []"
  shows "get_network_relay_cursor peer (advance_cursor peer c now d) = or_text c (get_network_relay_cursor peer d)"
  using assms
  by (auto simp: advance_cursor_def upsert_network_relay_cursor_def get_network_relay_cursor_def Let_def or_text_def
      sel_by_append sel_upd_key0 split: option.split)

lemma cursor_frame [simp]:
  "nd_acks (advance_cursor peer c now d) = nd_acks d" "nd_dead (advance_cursor peer c now d) = nd_dead d"
  "nd_cursors (add_network_relay_delivery_ack peer m meta u now d) = nd_cursors d"
  "nd_dead (add_network_relay_delivery_ack peer m meta u now d) = nd_dead d"
  "nd_cursors (add_network_relay_dead_letter a u now d) = nd_cursors d"
  "nd_acks (add_network_relay_dead_letter a u now d) = nd_acks d"
  by (simp_all add: advance_cursor_def upsert_network_relay_cursor_def add_network_relay_delivery_ack_def
    add_network_relay_dead_letter_def Let_def)

lemma cursor_cong: "nd_cursors d' = nd_cursors d \<Longrightarrow> get_network_relay_cursor peer d' = get_network_relay_cursor peer d"
  by (simp add: get_network_relay_cursor_def Let_def)

lemma cursor_kept [simp]:
  "get_network_relay_cursor peer (add_network_relay_delivery_ack p m meta u now d) = get_network_relay_cursor peer d"
  "get_network_relay_cursor peer (add_network_relay_dead_letter a u now d) = get_network_relay_cursor peer d"
  by (rule cursor_cong, simp)+

lemma drained_item:
  assumes quiet: "relay_quiet handle" and peer: "py_strip peer = peer" "peer \<noteq> []"
    and "drain_item handle peer next uuid now item d = (r, d')"
  shows "r = None \<longleftrightarrow> fst (handle_item handle item d) = Transient"
    and "r = Some ids \<Longrightarrow> ids = (if relay_message_id item = [] then [] else [relay_message_id item]) \<and>
       (\<forall>m \<in> set ids. accounted m d') \<and>
       get_network_relay_cursor peer d' = or_text (item_cursor next item) (get_network_relay_cursor peer d)"
    and "r = None \<Longrightarrow> get_network_relay_cursor peer d' = get_network_relay_cursor peer d"
    and "accounted m d \<Longrightarrow> accounted m d'"
proof -
  note q = handle_item_quiet [OF quiet, of item d]
  obtain h e where he: "handle_item handle item d = (h, e)" by (meson surj_pair)
  have e: "nd_acks e = nd_acks d" "nd_dead e = nd_dead d" "nd_cursors e = nd_cursors d" using q he by simp_all
  note c = cursor_cong [OF e(3)]
  show "r = None \<longleftrightarrow> fst (handle_item handle item d) = Transient"
    using assms(4) he by (cases h) (auto simp: drain_item_def Let_def)
  show "r = None \<Longrightarrow> get_network_relay_cursor peer d' = get_network_relay_cursor peer d"
    using assms(4) he c by (cases h) (auto simp: drain_item_def Let_def)
  show "accounted m d \<Longrightarrow> accounted m d'"
    using assms(4) he e by (cases h)
      (auto simp: drain_item_def Let_def accounted_def add_network_relay_delivery_ack_def
        add_network_relay_dead_letter_def)
  have ack: "accounted (relay_message_id item) (advance_cursor peer cu now
      (add_network_relay_delivery_ack peer (relay_message_id item) meta uuid now e))" for cu meta
    by (auto simp: accounted_def add_network_relay_delivery_ack_def sel_by_None_iff)
  have dead: "relay_message_id item \<noteq> [] \<Longrightarrow> accounted (relay_message_id item) (advance_cursor peer cu now
      (add_network_relay_dead_letter (inbound_dead_letter peer cu' item why) uuid now e))" for cu cu' why
    by (simp add: accounted_def add_network_relay_dead_letter_def dead_letter_row_def inbound_dead_letter_def or_none_def)
  assume "r = Some ids"
  then show "ids = (if relay_message_id item = [] then [] else [relay_message_id item]) \<and>
       (\<forall>m \<in> set ids. accounted m d') \<and>
       get_network_relay_cursor peer d' = or_text (item_cursor next item) (get_network_relay_cursor peer d)"
    using assms(4) he c [of peer] ack dead
    by (cases h; cases "relay_message_id item = []") (auto simp: drain_item_def Let_def cursor_after [OF peer])
qed

lemma drained_items:
  assumes quiet: "relay_quiet handle" and peer: "py_strip peer = peer" "peer \<noteq> []"
  shows "drain_items handle peer next uuid now items d = (n, ids, d') \<Longrightarrow>
    n \<le> length items \<and> ids = filter (\<lambda>m. m \<noteq> []) (map relay_message_id (take n items)) \<and>
    (\<forall>m. m \<in> set ids \<or> accounted m d \<longrightarrow> accounted m d') \<and>
    get_network_relay_cursor peer d' = last_cursor next (get_network_relay_cursor peer d) (take n items) \<and>
    (n < length items \<longrightarrow> (\<exists>e. fst (handle_item handle (items ! n) e) = Transient))"
proof (induction items arbitrary: d n ids d')
  case (Cons item items)
  obtain r e where i: "drain_item handle peer next (uuid (length items)) now item d = (r, e)" by (meson surj_pair)
  note one = drained_item [OF quiet peer i]
  show ?case
  proof (cases r)
    case None
    then show ?thesis using Cons.prems i one(1,3,4) by auto
  next
    case (Some acks)
    obtain m rest f where f: "drain_items handle peer next uuid now items e = (m, rest, f)" by (rule prod_cases3)
    then have res: "n = Suc m" "ids = acks @ rest" "d' = f" using Cons.prems i Some by simp_all
    from Cons.IH [OF f] one(2) [OF Some] one(4) res show ?thesis by auto
  qed
qed simp

section \<open>Properties\<close>

definition demo_outbox :: net_db where
  "demo_outbox = snd (add_network_relay_outbox_item
     \<lparr>oa_id = ''o1'', oa_peer = ''p1'', oa_envelope = [], oa_link = None, oa_message = None, oa_max = 2\<rparr> 0 empty_net)"

text \<open>C30: publication is bounded and never concurrent. In every history of claims, completions,
  failures and insertions an item of the outbox is handed out at most as many times as its attempts
  allow, and while the lease of a claim runs nobody is handed it.\<close>

theorem outbox_publication_bounded:
  assumes "outbox_wf d" and "outbox_of k d = Some x" and "ob_attempts x \<le> ob_max x"
  shows "int (count_list (grants outbox_grant outbox_step d es) k) \<le> ob_max x - ob_attempts x \<and>
    (\<forall>w e fs. outbox_lease d k = Some (w, e) \<longrightarrow> (\<forall>ev \<in> set fs. event_time ev < e) \<longrightarrow>
       (\<forall>b t. Other b t \<in> set fs \<longrightarrow> k \<notin> outbox_targets b) \<longrightarrow> k \<notin> set (grants outbox_grant outbox_step d fs))"
  using outbox_grants_bound [OF assms, of es] outbox.no_grant_while_leased [OF assms(1)] by blast

theorem outbox_publication_bounded_witness:
  "count_list (grants outbox_grant outbox_step demo_outbox
     [Claim \<lparr>xc_worker = ''w'', xc_seconds = 30\<rparr> 1, Other (XFail ''o1'' ''down'' 1 ''u'' demo_outbox) 2,
      Claim \<lparr>xc_worker = ''w'', xc_seconds = 30\<rparr> 90000, Claim \<lparr>xc_worker = ''w'', xc_seconds = 30\<rparr> 900000]) ''o1'' \<le> 2"
proof -
  let ?x = "new_outbox_row \<lparr>oa_id = ''o1'', oa_peer = ''p1'', oa_envelope = [], oa_link = None, oa_message = None, oa_max = 2\<rparr> 0"
  have a: "outbox_wf demo_outbox" unfolding outbox_wf_def keyed_def by code_simp
  have b: "outbox_of ''o1'' demo_outbox = Some ?x"
    by (simp add: demo_outbox_def add_network_relay_outbox_item_def empty_net_def Let_def)
  have c: "ob_attempts ?x \<le> ob_max ?x" and two: "ob_max ?x - ob_attempts ?x = 2" by (simp_all add: clamp_def)
  have "int (count_list (grants outbox_grant outbox_step demo_outbox es) ''o1'') \<le> 2" for es
    using outbox_publication_bounded [OF a b c] unfolding two by blast
  from this [of "[Claim \<lparr>xc_worker = ''w'', xc_seconds = 30\<rparr> 1, Other (XFail ''o1'' ''down'' 1 ''u'' demo_outbox) 2,
      Claim \<lparr>xc_worker = ''w'', xc_seconds = 30\<rparr> 90000, Claim \<lparr>xc_worker = ''w'', xc_seconds = 30\<rparr> 900000]"]
  show ?thesis by linarith
qed



end
