(* ===== verification/PyText.thy ===== *)
theory PyText
  imports Prelude
begin

text \<open>
  Python's \<^verbatim>\<open>str\<close> at its full width, for the components whose result depends on
  characters above 255: a text is the list of its code points, as \<^verbatim>\<open>ord\<close> gives them.
  \<^verbatim>\<open>u_space\<close> is \<^verbatim>\<open>str.isspace\<close> of one character, the set
  \<^verbatim>\<open>strip\<close> removes.
\<close>

type_synonym ustr = "nat list"

definition u_space :: "nat \<Rightarrow> bool" where
  "u_space c \<longleftrightarrow> (9 \<le> c \<and> c \<le> 13) \<or> (28 \<le> c \<and> c \<le> 32) \<or> c = 133 \<or> c = 160 \<or> c = 5760 \<or>
     (8192 \<le> c \<and> c \<le> 8202) \<or> c = 8232 \<or> c = 8233 \<or> c = 8239 \<or> c = 8287 \<or> c = 12288"

definition u_lstrip :: "ustr \<Rightarrow> ustr" where
  "u_lstrip s = dropWhile u_space s"

definition u_rstrip :: "ustr \<Rightarrow> ustr" where
  "u_rstrip s = rev (dropWhile u_space (rev s))"

definition u_strip :: "ustr \<Rightarrow> ustr" where
  "u_strip s = u_rstrip (u_lstrip s)"

text \<open>\<^verbatim>\<open>str(text or "")\<close> of a text or None, and \<^verbatim>\<open>text[:i]\<close>.\<close>

definition u_text :: "ustr option \<Rightarrow> ustr" where
  "u_text t = (case t of None \<Rightarrow> [] | Some s \<Rightarrow> s)"

definition u_upto :: "int \<Rightarrow> ustr \<Rightarrow> ustr" where
  "u_upto i s = take (nat (if i < 0 then int (length s) + i else i)) s"

text \<open>An ASCII literal.\<close>

definition lit :: "string \<Rightarrow> ustr" where
  "lit s = map of_char s"

lemma u_text_simps [simp]: "u_text None = []" "u_text (Some s) = s"
  by (simp_all add: u_text_def)

lemma u_rstrip_Nil [simp]: "u_rstrip [] = []"
  by (simp add: u_rstrip_def)

lemma u_strip_Nil [simp]: "u_strip [] = []"
  by (simp add: u_strip_def u_lstrip_def)

lemma u_rstrip_snoc [simp]: "u_rstrip (s @ [c]) = (if u_space c then u_rstrip s else s @ [c])"
  by (simp add: u_rstrip_def)

lemma u_rstrip_idem [simp]: "u_rstrip (u_rstrip s) = u_rstrip s"
  by (simp add: u_rstrip_def dropWhile_idem)

lemma u_rstrip_split: "\<exists>w. s = u_rstrip s @ w \<and> (\<forall>c \<in> set w. u_space c)"
proof (induction s rule: rev_induct)
  case (snoc c s)
  then obtain w where "s = u_rstrip s @ w" "\<forall>c \<in> set w. u_space c" by blast
  then show ?case by (cases "u_space c") (auto intro!: exI [of _ "w @ [c]"])
qed simp

lemma u_strip_idem [simp]: "u_strip (u_strip s) = u_strip s"
proof -
  have "dropWhile u_space s = [] \<or> \<not> u_space (hd (dropWhile u_space s))" by (metis hd_dropWhile)
  from dropWhile_rev_stable [where P = u_space and u = "dropWhile u_space s", OF this] show ?thesis
    by (simp add: u_strip_def u_lstrip_def u_rstrip_def dropWhile_idem)
qed

lemma dropWhile_hd_id: "xs = [] \<or> \<not> P (hd xs) \<Longrightarrow> dropWhile P xs = xs"
  by (cases xs) auto

text \<open>A text is its own strip when its ends are visible.\<close>

lemma u_strip_id: "(s \<noteq> [] \<Longrightarrow> \<not> u_space (hd s) \<and> \<not> u_space (last s)) \<Longrightarrow> u_strip s = s"
  by (cases "s = []") (simp_all add: u_strip_def u_lstrip_def u_rstrip_def dropWhile_hd_id hd_rev)

lemma u_strip_ends:
  assumes "u_strip s \<noteq> []"
  shows "\<not> u_space (hd (u_strip s)) \<and> \<not> u_space (last (u_strip s))"
proof -
  have l: "u_strip s = dropWhile u_space (u_strip s)"
    using u_strip_idem [of s] dropWhile_rev_stable [where P = u_space and u = "dropWhile u_space s"] hd_dropWhile [of u_space s]
    by (metis u_strip_def u_lstrip_def u_rstrip_def)
  have r: "rev (u_strip s) = dropWhile u_space (rev (u_strip s))"
    by (simp add: u_strip_def u_rstrip_def dropWhile_idem)
  from hd_dropWhile [of u_space "u_strip s"] hd_dropWhile [of u_space "rev (u_strip s)"] l r assms
  show ?thesis by (metis hd_rev rev_is_Nil_conv)
qed

lemma u_upto_nat [simp]: "0 \<le> i \<Longrightarrow> u_upto i s = take (nat i) s"
  by (simp add: u_upto_def)

end
