(* ===== verification/PromptBudget.thy ===== *)
theory PromptBudget
  imports PyText
begin

text \<open>
  core/prompt_budget.py: the token estimate of a prompt, the truncation of a text to a budget by
  binary search over its prefixes, and the enforcement of a budget. The loop of the search is a
  \<^verbatim>\<open>partial_function\<close>, so that it returns at all is part of what is proved.
  The estimate divides by 4 in floating point, which is exact for the lengths of a text.
\<close>

definition is_cjk :: "nat \<Rightarrow> bool" where
  "is_cjk c \<longleftrightarrow> (0x4E00 \<le> c \<and> c \<le> 0x9FFF) \<or> (0x3400 \<le> c \<and> c \<le> 0x4DBF) \<or>
     (0x3040 \<le> c \<and> c \<le> 0x30FF) \<or> (0xAC00 \<le> c \<and> c \<le> 0xD7AF)"

fun count_tokens :: "ustr \<Rightarrow> int \<times> int \<Rightarrow> int \<times> int" where
  "count_tokens [] (cjk, vis) = (cjk, vis)"
| "count_tokens (c # cs) (cjk, vis) =
     (if is_cjk c then count_tokens cs (cjk + 1, vis)
      else if \<not> u_space c then count_tokens cs (cjk, vis + 1)
      else count_tokens cs (cjk, vis))"

definition estimate_prompt_tokens :: "ustr \<Rightarrow> int" where
  "estimate_prompt_tokens raw =
     (if raw = [] then 0 else let (cjk, vis) = count_tokens raw (0, 0) in cjk + (vis + 3) div 4)"

partial_function (option) prefix_search :: "ustr \<Rightarrow> int \<Rightarrow> int \<Rightarrow> int \<Rightarrow> ustr \<Rightarrow> ustr option" where
  "prefix_search raw budget low high best =
     (if low \<le> high then
        let mid = (low + high) div 2; candidate = u_rstrip (u_upto mid raw) in
        if estimate_prompt_tokens candidate \<le> budget
        then prefix_search raw budget (mid + 1) high candidate
        else prefix_search raw budget low (mid - 1) best
      else Some best)"

definition budget_of :: "int option \<Rightarrow> int" where
  "budget_of budget_tokens = max 0 (case budget_tokens of None \<Rightarrow> 0 | Some n \<Rightarrow> n)"

definition truncate_to_estimated_tokens :: "ustr option \<Rightarrow> int option \<Rightarrow> ustr option" where
  "truncate_to_estimated_tokens text budget_tokens =
     (let raw = u_text text; budget = budget_of budget_tokens in
      if raw = [] \<or> estimate_prompt_tokens raw \<le> budget then Some raw
      else map_option u_rstrip (prefix_search raw budget 0 (int (length raw)) []))"

record prompt_budget_result =
  pb_source :: string
  pb_text :: ustr
  pb_estimated_tokens :: int
  pb_budget_tokens :: int
  pb_truncated :: bool
  pb_save_rejected :: bool
  pb_omitted_reason :: string

definition enforce_prompt_budget ::
  "string \<Rightarrow> ustr option \<Rightarrow> int option \<Rightarrow> bool \<Rightarrow> string \<Rightarrow> prompt_budget_result option" where
  "enforce_prompt_budget source text budget_tokens cutting omission_reason =
     (let raw = u_text text; budget = budget_of budget_tokens;
          estimated = estimate_prompt_tokens raw;
          res = \<lparr>pb_source = source, pb_text = raw, pb_estimated_tokens = estimated, pb_budget_tokens = budget,
                 pb_truncated = False, pb_save_rejected = False, pb_omitted_reason = []\<rparr> in
      if estimated \<le> budget then Some res
      else if \<not> cutting
      then Some (res\<lparr>pb_save_rejected := True, pb_omitted_reason := or_text omission_reason ''prompt_budget_exceeded''\<rparr>)
      else case truncate_to_estimated_tokens (Some raw) (Some budget) of
             None \<Rightarrow> None
           | Some t \<Rightarrow> Some (res\<lparr>pb_text := t, pb_truncated := True,
                 pb_omitted_reason := or_text omission_reason ''prompt_budget_truncated''\<rparr>))"

subsection \<open>The estimate\<close>

lemma count_tokens_eq:
  "count_tokens cs (a, b) =
     (a + int (length (filter is_cjk cs)), b + int (length (filter (\<lambda>c. \<not> is_cjk c \<and> \<not> u_space c) cs)))"
  by (induction cs arbitrary: a b) auto

lemma estimate_eq:
  "estimate_prompt_tokens s = int (length (filter is_cjk s)) +
     (int (length (filter (\<lambda>c. \<not> is_cjk c \<and> \<not> u_space c) s)) + 3) div 4"
  by (simp add: estimate_prompt_tokens_def count_tokens_eq)

lemma estimate_Nil [simp]: "estimate_prompt_tokens [] = 0"
  by (simp add: estimate_prompt_tokens_def)

lemma space_not_cjk: "u_space c \<Longrightarrow> \<not> is_cjk c"
  by (auto simp: u_space_def is_cjk_def)

lemma estimate_mono: "estimate_prompt_tokens s \<le> estimate_prompt_tokens (s @ t)"
  by (auto simp: estimate_eq intro!: add_mono zdiv_mono1)

lemma estimate_take_mono: "m \<le> n \<Longrightarrow> estimate_prompt_tokens (take m s) \<le> estimate_prompt_tokens (take n s)"
  using estimate_mono [of "take m s" "take (n - m) (drop m s)"] by (simp flip: take_add)

lemma estimate_rstrip [simp]: "estimate_prompt_tokens (u_rstrip s) = estimate_prompt_tokens s"
proof -
  obtain w where w: "s = u_rstrip s @ w" "\<forall>c \<in> set w. u_space c" using u_rstrip_split by blast
  then have "filter is_cjk w = []" "filter (\<lambda>c. \<not> is_cjk c \<and> \<not> u_space c) w = []"
    by (auto simp: filter_empty_conv space_not_cjk)
  then have "estimate_prompt_tokens (u_rstrip s @ w) = estimate_prompt_tokens (u_rstrip s)"
    by (simp add: estimate_eq)
  with w show ?thesis by simp
qed

subsection \<open>The search returns the longest prefix that fits\<close>

definition fits :: "ustr \<Rightarrow> int \<Rightarrow> nat \<Rightarrow> bool" where
  "fits raw budget n \<longleftrightarrow> estimate_prompt_tokens (take n raw) \<le> budget"

lemma fits_mono: "fits raw budget n \<Longrightarrow> m \<le> n \<Longrightarrow> fits raw budget m"
  using estimate_take_mono [of m n raw] by (simp add: fits_def)

definition longest_fitting :: "ustr \<Rightarrow> int \<Rightarrow> nat" where
  "longest_fitting raw budget = last (filter (fits raw budget) [0..<Suc (length raw)])"

lemma longest_fittingI:
  assumes "n \<le> length raw" "fits raw budget n" "\<And>m. n < m \<Longrightarrow> m \<le> length raw \<Longrightarrow> \<not> fits raw budget m"
  shows "longest_fitting raw budget = n"
proof -
  have "[0..<Suc (length raw)] = [0..<Suc n] @ [Suc n..<Suc (length raw)]"
    using assms(1) upt_add_eq_append [of 0 "Suc n" "length raw - n"] by simp
  moreover have "filter (fits raw budget) [Suc n..<Suc (length raw)] = []"
    using assms(3) by (auto simp: filter_empty_conv)
  ultimately show ?thesis using assms(2) by (simp add: longest_fitting_def)
qed

lemma prefix_search_result:
  assumes "0 \<le> low" "low \<le> high + 1" "high \<le> int (length raw)"
    and "low = 0 \<and> best = [] \<or>
         0 < low \<and> best = u_rstrip (take (nat (low - 1)) raw) \<and> fits raw budget (nat (low - 1))"
    and "\<And>m. high < int m \<Longrightarrow> m \<le> length raw \<Longrightarrow> \<not> fits raw budget m"
    and "0 \<le> budget"
  shows "prefix_search raw budget low high best = Some (u_rstrip (take (longest_fitting raw budget) raw))"
  using assms
proof (induction "nat (high + 1 - low)" arbitrary: low high best rule: less_induct)
  case less
  show ?case
  proof (cases "low \<le> high")
    case False
    then have h: "high = low - 1" using less.prems(2) by simp
    have "fits raw budget 0" using less.prems(6) by (simp add: fits_def)
    then have "low \<noteq> 0" using less.prems(5) [of 0] h by auto
    then have "longest_fitting raw budget = nat (low - 1)"
      using less.prems h by (intro longest_fittingI) (auto simp: nat_less_iff)
    then show ?thesis using False less.prems(4) \<open>low \<noteq> 0\<close> by (subst prefix_search.simps) auto
  next
    case True
    let ?mid = "(low + high) div 2"
    have m: "low \<le> ?mid" "?mid \<le> high" "0 \<le> ?mid" using True less.prems(1) by auto
    have est: "estimate_prompt_tokens (u_rstrip (u_upto ?mid raw)) \<le> budget \<longleftrightarrow> fits raw budget (nat ?mid)"
      using m by (simp add: fits_def)
    show ?thesis
    proof (cases "fits raw budget (nat ?mid)")
      case fit: True
      have "prefix_search raw budget (?mid + 1) high (u_rstrip (u_upto ?mid raw)) =
          Some (u_rstrip (take (longest_fitting raw budget) raw))"
        using m True fit less.prems by (intro less.hyps) auto
      then show ?thesis using True fit est by (subst prefix_search.simps) (simp add: Let_def)
    next
      case miss: False
      have "\<not> fits raw budget k" if "?mid - 1 < int k" "k \<le> length raw" for k
        using miss fits_mono [of raw budget k "nat ?mid"] that by linarith
      then have "prefix_search raw budget low (?mid - 1) best =
          Some (u_rstrip (take (longest_fitting raw budget) raw))"
        using m True less.prems by (intro less.hyps) auto
      then show ?thesis using True miss est by (subst prefix_search.simps) (simp add: Let_def)
    qed
  qed
qed

text \<open>The reference: drop characters one by one until the rest fits.\<close>

fun shrink_to_fit :: "int \<Rightarrow> ustr \<Rightarrow> nat \<Rightarrow> ustr" where
  "shrink_to_fit budget raw 0 = []"
| "shrink_to_fit budget raw (Suc n) =
     (if estimate_prompt_tokens (take (Suc n) raw) \<le> budget then take (Suc n) raw else shrink_to_fit budget raw n)"

lemma shrink_longest:
  assumes "0 \<le> budget" "n \<le> length raw" "\<And>m. n < m \<Longrightarrow> m \<le> length raw \<Longrightarrow> \<not> fits raw budget m"
  shows "shrink_to_fit budget raw n = take (longest_fitting raw budget) raw"
  using assms
proof (induction n)
  case 0
  have "longest_fitting raw budget = 0" using 0 by (intro longest_fittingI) (auto simp: fits_def)
  then show ?case by simp
next
  case (Suc n)
  show ?case
  proof (cases "fits raw budget (Suc n)")
    case True
    then have "longest_fitting raw budget = Suc n" using Suc.prems by (intro longest_fittingI) auto
    then show ?thesis using True by (simp add: fits_def)
  next
    case False
    then have "\<not> fits raw budget m" if "n < m" "m \<le> length raw" for m
      using Suc.prems(3) [of m] that by (cases "m = Suc n") auto
    then show ?thesis using False Suc by (simp add: fits_def)
  qed
qed

lemma budget_of_simps [simp]: "0 \<le> budget_of bt" "budget_of (Some (budget_of bt)) = budget_of bt"
  "0 \<le> b \<Longrightarrow> budget_of (Some b) = b"
  by (simp_all add: budget_of_def)

lemma truncate_shrink:
  assumes "0 \<le> b"
  shows "truncate_to_estimated_tokens (Some raw) (Some b) =
    Some (if estimate_prompt_tokens raw \<le> b then raw else u_rstrip (shrink_to_fit b raw (length raw)))"
  using assms prefix_search_result [of 0 "int (length raw)" raw "[]" b] shrink_longest [of b "length raw" raw]
  by (simp add: truncate_to_estimated_tokens_def)

lemma shrink_prefix:
  "\<exists>k. shrink_to_fit b raw n = take k raw" "0 \<le> b \<Longrightarrow> estimate_prompt_tokens (shrink_to_fit b raw n) \<le> b"
  by (induction n) (auto intro: exI [of _ 0])

lemma u_rstrip_prefix: "\<exists>k. u_rstrip s = take k s"
  using u_rstrip_split [of s] by (metis append_eq_conv_conj)

lemma shrink_rstrip_prefix: "\<exists>i. u_rstrip (shrink_to_fit b raw n) = take i raw"
  using shrink_prefix(1) [of b raw n] u_rstrip_prefix [of "shrink_to_fit b raw n"] by (auto simp: take_take)

text \<open>C32: cutting a text to a budget terminates and does what the naive procedure does that drops
  trailing characters one at a time until the estimate fits: binary search is right here because
  the estimate never falls when a prefix grows, trailing white space counting nothing. The
  negative budget and the missing one count as 0. What comes out is a prefix of the text that
  fits the budget.\<close>

theorem truncation_is_longest_fitting_prefix:
  "truncate_to_estimated_tokens (Some raw) bt =
     Some (if estimate_prompt_tokens raw \<le> budget_of bt then raw
           else u_rstrip (shrink_to_fit (budget_of bt) raw (length raw))) \<and>
   (\<exists>t k. truncate_to_estimated_tokens (Some raw) bt = Some t \<and> t = take k raw \<and>
      estimate_prompt_tokens t \<le> budget_of bt)"
proof -
  have e: "truncate_to_estimated_tokens (Some raw) bt = truncate_to_estimated_tokens (Some raw) (Some (budget_of bt))"
    by (simp add: truncate_to_estimated_tokens_def)
  have "\<exists>i. u_rstrip (shrink_to_fit (budget_of bt) raw (length raw)) = take i raw" by (rule shrink_rstrip_prefix)
  moreover have "\<exists>i. raw = take i raw" by (rule exI [of _ "length raw"]) simp
  ultimately show ?thesis using e truncate_shrink [of "budget_of bt" raw] shrink_prefix(2) [of "budget_of bt"] by auto
qed


end
