(* ===== verification/ModelBudget.thy ===== *)
theory ModelBudget
  imports PyValue Tables
begin

text \<open>
  core/model_budget_service.py and the usage ledger of core/database.py: budget reservations for
  model calls. A call reserves its estimate before it is dispatched, the reservation is settled
  with the reported usage in the transaction that writes the ledger, and admission compares the
  ledger and what is held against the configured limits.

  Conventions: money and latency are rational numbers; the day bucket of the clock
  (\<^verbatim>\<open>_today_bucket\<close>) and the instant are arguments. The settings are read after
  \<^verbatim>\<open>_safe_int\<close> and \<^verbatim>\<open>_safe_float\<close>, so a missing or malformed limit is 0.
  Of \<^verbatim>\<open>model_invocation_logs\<close>, which lives in the observability database, the model
  keeps the columns the run totals read; the ledger's \<^verbatim>\<open>updated_at\<close> stamp is left out.
\<close>

subsection \<open>Tables\<close>

record reservation =
  br_id :: string
  br_owner :: string
  br_run :: "string option"
  br_project :: "string option"
  br_provider :: string
  br_model :: string
  br_bucket :: string
  br_est_tokens :: int
  br_est_cost :: rat
  br_state :: string
  br_act_tokens :: "int option"
  br_act_cost :: "rat option"
  br_accounted :: bool
  br_reason :: "string option"
  br_created :: time
  br_updated :: time

record ledger_row =
  ul_id :: string
  ul_bucket :: string
  ul_scope_type :: string
  ul_scope_id :: string
  ul_provider :: "string option"
  ul_model :: string
  ul_role :: string
  ul_class :: "string option"
  ul_invocations :: int
  ul_success :: int
  ul_errors :: int
  ul_input :: int
  ul_output :: int
  ul_total :: int
  ul_cost :: rat
  ul_latency :: rat

record invocation_log =
  il_id :: string
  il_run :: "string option"
  il_input :: int
  il_output :: int
  il_total :: int
  il_cost :: rat
  il_latency :: rat

record budget_db =
  bd_reservations :: "reservation list"
  bd_ledger :: "ledger_row list"
  bd_logs :: "invocation_log list"

record project_limits =
  pl_project :: string
  pl_cost :: rat
  pl_tokens :: int

record budget_config =
  bc_enabled :: bool
  bc_global_cost :: rat
  bc_global_tokens :: int
  bc_run_cost :: rat
  bc_run_tokens :: int
  bc_project_cost :: rat
  bc_project_tokens :: int
  bc_overrides :: "project_limits list"

datatype budget_error =
    BudgetEstimateInvalid
  | BudgetReservationDuplicate
  | BudgetCostEstimateUnavailable
  | BudgetExceeded string rat rat rat rat
  | BudgetNotDispatchable

definition reservation_of :: "string \<Rightarrow> budget_db \<Rightarrow> reservation option" where
  "reservation_of i d = sel_by br_id i (bd_reservations d)"

text \<open>Python's truth value of an optional text argument.\<close>

definition given :: "string option \<Rightarrow> bool" where
  "given x = (case x of None \<Rightarrow> False | Some s \<Rightarrow> s \<noteq> [])"

subsection \<open>What is held\<close>

record holds =
  ho_tokens :: int
  ho_cost :: rat
  ho_invocations :: int
  ho_unknown :: int

definition charged_tokens :: "reservation \<Rightarrow> int" where
  "charged_tokens r = (if br_state r = ''settled''
     then (case br_act_tokens r of None \<Rightarrow> br_est_tokens r | Some n \<Rightarrow> n) else br_est_tokens r)"

definition charged_cost :: "reservation \<Rightarrow> rat" where
  "charged_cost r = (if br_state r = ''settled''
     then (case br_act_cost r of None \<Rightarrow> br_est_cost r | Some n \<Rightarrow> n) else br_est_cost r)"

definition held_row :: "string option \<Rightarrow> string option \<Rightarrow> string option \<Rightarrow> reservation \<Rightarrow> bool" where
  "held_row bucket run project r \<longleftrightarrow>
     (br_state r \<in> {''reserved'', ''in_flight'', ''unknown''} \<or>
      (br_state r = ''settled'' \<and> (given run \<or> \<not> br_accounted r))) \<and>
     (given bucket \<longrightarrow> br_bucket r = the bucket \<or> br_state r \<in> {''reserved'', ''in_flight''}) \<and>
     (given run \<longrightarrow> br_run r = run) \<and>
     (given project \<longrightarrow> br_project r = project)"

definition budget_holds :: "string option \<Rightarrow> string option \<Rightarrow> string option \<Rightarrow> budget_db \<Rightarrow> holds" where
  "budget_holds bucket run project d =
     (let rows = filter (held_row bucket run project) (bd_reservations d)
      in \<lparr>ho_tokens = sum_list (map charged_tokens rows), ho_cost = sum_list (map charged_cost rows),
          ho_invocations = int (length rows), ho_unknown = int (count_where (\<lambda>r. br_state r = ''unknown'') rows)\<rparr>)"

definition no_holds :: holds where
  "no_holds = \<lparr>ho_tokens = 0, ho_cost = 0, ho_invocations = 0, ho_unknown = 0\<rparr>"

subsection \<open>What has been used\<close>

record usage_totals =
  us_invocations :: int
  us_success :: int
  us_errors :: int
  us_input :: int
  us_output :: int
  us_total :: int
  us_cost :: rat
  us_latency :: rat

definition get_usage_ledger_totals ::
  "string option \<Rightarrow> string option \<Rightarrow> string option \<Rightarrow> budget_db \<Rightarrow> usage_totals" where
  "get_usage_ledger_totals bucket scope_type scope_id d =
     (let rows = filter (\<lambda>u. (given bucket \<longrightarrow> ul_bucket u = the bucket) \<and>
            (given scope_type \<longrightarrow> ul_scope_type u = the scope_type) \<and>
            (given scope_id \<longrightarrow> ul_scope_id u = the scope_id)) (bd_ledger d)
      in \<lparr>us_invocations = sum_list (map ul_invocations rows), us_success = sum_list (map ul_success rows),
          us_errors = sum_list (map ul_errors rows), us_input = sum_list (map ul_input rows),
          us_output = sum_list (map ul_output rows), us_total = sum_list (map ul_total rows),
          us_cost = sum_list (map ul_cost rows), us_latency = sum_list (map ul_latency rows)\<rparr>)"

definition run_logs :: "string \<Rightarrow> bool \<Rightarrow> budget_db \<Rightarrow> invocation_log list" where
  "run_logs run unreserved_only d = filter (\<lambda>l. il_run l = Some run \<and>
     (\<not> unreserved_only \<or> \<not> starts_with ''budget:'' (py_lower (il_id l)))) (bd_logs d)"

definition get_run_invocation_totals :: "string \<Rightarrow> bool \<Rightarrow> budget_db \<Rightarrow> usage_totals" where
  "get_run_invocation_totals run unreserved_only d =
     (let rows = run_logs run unreserved_only d
      in \<lparr>us_invocations = int (length rows), us_success = 0, us_errors = 0,
          us_input = sum_list (map il_input rows), us_output = sum_list (map il_output rows),
          us_total = sum_list (map il_total rows), us_cost = sum_list (map il_cost rows),
          us_latency = sum_list (map il_latency rows)\<rparr>)"

text \<open>\<^verbatim>\<open>ON CONFLICT(bucket_date, scope_type, scope_id, model_id, role)\<close> adds the
  excluded row to the stored one.\<close>

definition ledger_key :: "ledger_row \<Rightarrow> string \<times> string \<times> string \<times> string \<times> string" where
  "ledger_key u = (ul_bucket u, ul_scope_type u, ul_scope_id u, ul_model u, ul_role u)"

definition ledger_plus :: "ledger_row \<Rightarrow> ledger_row \<Rightarrow> ledger_row" where
  "ledger_plus e u =
     u\<lparr>ul_provider := ul_provider e, ul_class := ul_class e, ul_invocations := ul_invocations u + ul_invocations e,
       ul_success := ul_success u + ul_success e, ul_errors := ul_errors u + ul_errors e,
       ul_input := ul_input u + ul_input e, ul_output := ul_output u + ul_output e,
       ul_total := ul_total u + ul_total e, ul_cost := ul_cost u + ul_cost e, ul_latency := ul_latency u + ul_latency e\<rparr>"

definition upsert_usage_ledger :: "ledger_row \<Rightarrow> budget_db \<Rightarrow> budget_db" where
  "upsert_usage_ledger e d = d\<lparr>bd_ledger :=
     (if sel_by ledger_key (ledger_key e) (bd_ledger d) = None then bd_ledger d @ [e]
      else upd_where (\<lambda>u. ledger_key u = ledger_key e) (ledger_plus e) (bd_ledger d))\<rparr>"

text \<open>\<^verbatim>\<open>INSERT OR REPLACE\<close>.\<close>

definition add_model_invocation_log :: "invocation_log \<Rightarrow> budget_db \<Rightarrow> budget_db" where
  "add_model_invocation_log l d = d\<lparr>bd_logs := filter (\<lambda>x. il_id x \<noteq> il_id l) (bd_logs d) @ [l]\<rparr>"

subsection \<open>The limits\<close>

datatype budget_unit = UCost | UTokens

datatype budget_scope = SGlobal | SRun | SProject

record budget_check =
  ck_code :: string
  ck_limit :: rat
  ck_usage :: rat
  ck_scope :: budget_scope
  ck_unit :: budget_unit

definition project_budget :: "budget_config \<Rightarrow> string option \<Rightarrow> project_limits" where
  "project_budget cfg project =
     (case (if given project then find (\<lambda>o'. pl_project o' = the project) (bc_overrides cfg) else None) of
        Some o' \<Rightarrow> o'
      | None \<Rightarrow> \<lparr>pl_project = (case project of None \<Rightarrow> [] | Some p \<Rightarrow> p), pl_cost = bc_project_cost cfg,
                 pl_tokens = bc_project_tokens cfg\<rparr>)"

definition budget_checks :: "budget_config \<Rightarrow> string option \<Rightarrow> string option \<Rightarrow> string \<Rightarrow> budget_db \<Rightarrow> budget_check list" where
  "budget_checks cfg run project today d =
     (let globally = get_usage_ledger_totals (Some today) None None d;
          pb = project_budget cfg project;
          in_run = (\<lambda>f. if given run then f (get_run_invocation_totals (the run) True d) else 0);
          in_project = (\<lambda>f. if given project then f (get_usage_ledger_totals (Some today) (Some ''project'') project d) else 0)
      in [\<lparr>ck_code = ''global_daily_cost'', ck_limit = bc_global_cost cfg, ck_usage = us_cost globally, ck_scope = SGlobal, ck_unit = UCost\<rparr>,
          \<lparr>ck_code = ''global_daily_tokens'', ck_limit = of_int (bc_global_tokens cfg), ck_usage = of_int (us_total globally), ck_scope = SGlobal, ck_unit = UTokens\<rparr>,
          \<lparr>ck_code = ''run_cost'', ck_limit = (if given run then bc_run_cost cfg else 0), ck_usage = in_run us_cost, ck_scope = SRun, ck_unit = UCost\<rparr>,
          \<lparr>ck_code = ''run_tokens'', ck_limit = (if given run then of_int (bc_run_tokens cfg) else 0), ck_usage = in_run (\<lambda>u. of_int (us_total u)), ck_scope = SRun, ck_unit = UTokens\<rparr>,
          \<lparr>ck_code = ''project_daily_cost'', ck_limit = (if given project then pl_cost pb else 0), ck_usage = in_project us_cost, ck_scope = SProject, ck_unit = UCost\<rparr>,
          \<lparr>ck_code = ''project_daily_tokens'', ck_limit = (if given project then of_int (pl_tokens pb) else 0), ck_usage = in_project (\<lambda>u. of_int (us_total u)), ck_scope = SProject, ck_unit = UTokens\<rparr>])"

subsection \<open>Reserving\<close>

record reserve_args =
  ra_run :: "string option"
  ra_project :: "string option"
  ra_provider :: string
  ra_model :: string
  ra_tokens :: int
  ra_cost :: "rat option"
  ra_id :: "string option"

definition held_for :: "reserve_args \<Rightarrow> string \<Rightarrow> budget_db \<Rightarrow> budget_scope \<Rightarrow> holds" where
  "held_for a today d sc = (case sc of
       SGlobal \<Rightarrow> budget_holds (Some today) None None d
     | SRun \<Rightarrow> (if given (ra_run a) then budget_holds None (ra_run a) None d else no_holds)
     | SProject \<Rightarrow> (if given (ra_project a) then budget_holds (Some today) None (ra_project a) d else no_holds))"

definition held_unit :: "holds \<Rightarrow> budget_unit \<Rightarrow> rat" where
  "held_unit h u = (case u of UCost \<Rightarrow> ho_cost h | UTokens \<Rightarrow> of_int (ho_tokens h))"

fun run_checks ::
  "int \<Rightarrow> rat option \<Rightarrow> (budget_scope \<Rightarrow> holds) \<Rightarrow> budget_check list \<Rightarrow> budget_error option" where
  "run_checks tokens cost held [] = None"
| "run_checks tokens cost held (c # cs) =
     (if ck_limit c \<le> 0 then run_checks tokens cost held cs
      else case (case ck_unit c of UCost \<Rightarrow> cost | UTokens \<Rightarrow> Some (of_int tokens)) of
             None \<Rightarrow> Some BudgetCostEstimateUnavailable
           | Some requested \<Rightarrow>
               (let h = held_unit (held (ck_scope c)) (ck_unit c)
                in if ck_usage c + h + requested > ck_limit c
                   then Some (BudgetExceeded (ck_code c) (ck_limit c) (ck_usage c) h requested)
                   else run_checks tokens cost held cs))"

definition new_reservation :: "reserve_args \<Rightarrow> string \<Rightarrow> string \<Rightarrow> string \<Rightarrow> time \<Rightarrow> reservation" where
  "new_reservation a key owner today now =
     \<lparr>br_id = key, br_owner = owner, br_run = ra_run a, br_project = ra_project a, br_provider = ra_provider a,
      br_model = ra_model a, br_bucket = today, br_est_tokens = max 1 (ra_tokens a),
      br_est_cost = (case ra_cost a of None \<Rightarrow> 0 | Some c \<Rightarrow> c), br_state = ''reserved'', br_act_tokens = None,
      br_act_cost = None, br_accounted = False, br_reason = None, br_created = now, br_updated = now\<rparr>"

definition budget_reserve ::
  "budget_config \<Rightarrow> reserve_args \<Rightarrow> string \<Rightarrow> string \<Rightarrow> string \<Rightarrow> time \<Rightarrow> budget_db \<Rightarrow>
     (budget_error + string option) \<times> budget_db" where
  "budget_reserve cfg a uuid owner today now d =
     (if \<not> bc_enabled cfg then (Inr None, d)
      else if \<not> list_ex (\<lambda>c. ck_limit c > 0) (budget_checks cfg (ra_run a) (ra_project a) today d) then (Inr None, d)
      else if (case ra_cost a of None \<Rightarrow> False | Some c \<Rightarrow> c < 0) then (Inl BudgetEstimateInvalid, d)
      else
        let key = or_text (case ra_id a of None \<Rightarrow> [] | Some i \<Rightarrow> i) uuid
        in if reservation_of key d \<noteq> None then (Inl BudgetReservationDuplicate, d)
           else case run_checks (max 1 (ra_tokens a)) (ra_cost a) (held_for a today d)
                       (budget_checks cfg (ra_run a) (ra_project a) today d) of
                  Some e \<Rightarrow> (Inl e, d)
                | None \<Rightarrow> (Inr (Some key), d\<lparr>bd_reservations := bd_reservations d @ [new_reservation a key owner today now]\<rparr>))"

definition enforce_or_raise ::
  "budget_config \<Rightarrow> string option \<Rightarrow> string option \<Rightarrow> string \<Rightarrow> budget_db \<Rightarrow> budget_error option" where
  "enforce_or_raise cfg run project today d =
     (if \<not> bc_enabled cfg then None
      else case find (\<lambda>c. ck_limit c > 0 \<and> ck_usage c \<ge> ck_limit c) (budget_checks cfg run project today d) of
             None \<Rightarrow> None
           | Some c \<Rightarrow> Some (BudgetExceeded (ck_code c) (ck_limit c) (ck_usage c) 0 0))"

subsection \<open>From dispatch to settlement\<close>

definition dispatched_row :: "time \<Rightarrow> reservation \<Rightarrow> reservation" where
  "dispatched_row now r = r\<lparr>br_state := ''in_flight'', br_updated := now\<rparr>"

definition mark_dispatched :: "string option \<Rightarrow> time \<Rightarrow> budget_db \<Rightarrow> (budget_error + unit) \<times> budget_db" where
  "mark_dispatched rid now d =
     (if \<not> given rid then (Inr (), d)
      else case update_row br_id (the rid) (\<lambda>r. br_state r = ''reserved'') (dispatched_row now) (bd_reservations d) of
             (ok, t) \<Rightarrow> (if ok then Inr () else Inl BudgetNotDispatchable, d\<lparr>bd_reservations := t\<rparr>))"

definition accounted_row :: "time \<Rightarrow> reservation \<Rightarrow> reservation" where
  "accounted_row now r = r\<lparr>br_accounted := True, br_updated := now\<rparr>"

definition mark_ledger_accounted :: "string option \<Rightarrow> time \<Rightarrow> budget_db \<Rightarrow> budget_db" where
  "mark_ledger_accounted rid now d =
     (if \<not> given rid then d
      else d\<lparr>bd_reservations := upd_where (\<lambda>r. br_id r = the rid \<and> br_state r = ''settled'') (accounted_row now) (bd_reservations d)\<rparr>)"

definition released_row :: "string \<Rightarrow> time \<Rightarrow> reservation \<Rightarrow> reservation" where
  "released_row reason now r =
     r\<lparr>br_state := (if br_state r = ''reserved'' then ''released'' else ''unknown''), br_reason := Some reason, br_updated := now\<rparr>"

definition budget_release :: "string option \<Rightarrow> string \<Rightarrow> time \<Rightarrow> budget_db \<Rightarrow> budget_db" where
  "budget_release rid reason now d =
     (if \<not> given rid then d
      else d\<lparr>bd_reservations := upd_where (\<lambda>r. br_id r = the rid \<and> br_state r \<in> {''reserved'', ''in_flight''})
             (released_row reason now) (bd_reservations d)\<rparr>)"

definition settled_row :: "bool \<Rightarrow> int \<Rightarrow> rat \<Rightarrow> time \<Rightarrow> reservation \<Rightarrow> reservation" where
  "settled_row usage_reported tokens cost now r =
     r\<lparr>br_state := (if usage_reported then ''settled'' else ''unknown''),
       br_act_tokens := (if usage_reported then Some tokens else None),
       br_act_cost := (if usage_reported then Some cost else None),
       br_reason := Some (if usage_reported then ''usage_reported'' else ''usage_not_reported''), br_updated := now\<rparr>"

text \<open>The \<^verbatim>\<open>settlement\<close> context manager: \<open>body\<close> is the block it guards, with the
  flag it is handed; an error of the block is passed on, and what the block wrote is undone.\<close>

definition settlement ::
  "string option \<Rightarrow> bool \<Rightarrow> int \<Rightarrow> rat \<Rightarrow> (bool \<Rightarrow> budget_db \<Rightarrow> 'e + budget_db) \<Rightarrow> time \<Rightarrow> budget_db \<Rightarrow>
     'e option \<times> budget_db" where
  "settlement rid usage_reported tokens cost body now d =
     (if \<not> given rid then (case body True d of Inl e \<Rightarrow> (Some e, d) | Inr d' \<Rightarrow> (None, d'))
      else
        let row = reservation_of (the rid) d
        in if row = None \<or> br_state (the row) \<in> {''settled'', ''released''}
           then (case body False d of Inl e \<Rightarrow> (Some e, d) | Inr _ \<Rightarrow> (None, d))
           else case body True (d\<lparr>bd_reservations := upd_where (\<lambda>r. br_id r = the rid)
                        (settled_row usage_reported tokens cost now) (bd_reservations d)\<rparr>) of
                  Inr d' \<Rightarrow> (None, d')
                | Inl e \<Rightarrow> (Some e, budget_release rid ''settlement_failed'' now d))"

definition recover_orphans :: "string \<Rightarrow> time \<Rightarrow> budget_db \<Rightarrow> nat \<times> budget_db" where
  "recover_orphans owner now d =
     (let orphan = (\<lambda>r. br_owner r \<noteq> owner \<and> br_state r \<in> {''reserved'', ''in_flight''})
      in (count_where orphan (bd_reservations d),
          d\<lparr>bd_reservations := upd_where orphan (released_row ''previous_engine_stopped'' now) (bd_reservations d)\<rparr>))"

end
