(* ===== verification/ProviderCircuit.thy ===== *)
theory ProviderCircuit
  imports PyValue Tables
begin

text \<open>
  core/provider_circuit.py: the durable circuit breaker of a provider. A circuit is closed, open
  or half open; a permit is an attempt row bound to one invocation and one generation of the
  circuit. The clock (\<^verbatim>\<open>time.time\<close>) counts seconds, kept with the durations of
  the configuration as rational numbers; the rounding of floats is not modelled. A connection
  that closes without a commit rolls back, so an operation that raises changes nothing.
\<close>

subsection \<open>Tables, settings and errors\<close>

record circuit_row =
  cs_provider :: string
  cs_state :: string
  cs_generation :: int
  cs_open_until :: "rat option"
  cs_probe_id :: "string option"
  cs_probe_expires :: "rat option"
  cs_updated :: rat

record attempt_row =
  ca_id :: string
  ca_provider :: string
  ca_generation :: int
  ca_probe :: bool
  ca_state :: string
  ca_created :: rat
  ca_finished :: "rat option"
  ca_error :: "string option"

record circuit_db =
  cd_states :: "circuit_row list"
  cd_attempts :: "attempt_row list"

definition new_circuit_row :: "string \<Rightarrow> rat \<Rightarrow> circuit_row" where
  "new_circuit_row provider_id now =
     \<lparr>cs_provider = provider_id, cs_state = ''closed'', cs_generation = 0, cs_open_until = None,
      cs_probe_id = None, cs_probe_expires = None, cs_updated = now\<rparr>"

definition circuit_of :: "string \<Rightarrow> circuit_db \<Rightarrow> circuit_row option" where
  "circuit_of provider_id d = sel_by cs_provider provider_id (cd_states d)"

definition attempt_of :: "string \<Rightarrow> circuit_db \<Rightarrow> attempt_row option" where
  "attempt_of i d = sel_by ca_id i (cd_attempts d)"

text \<open>The governance settings the breaker reads; None is a missing value or one
  \<^verbatim>\<open>float\<close> rejects or that is not finite.\<close>

record circuit_config =
  cc_probe_lease :: "rat option"
  cc_cooldown :: "rat option"
  cc_failure_threshold :: "rat option"
  cc_error_rate :: "rat option"
  cc_window_days :: "rat option"

definition no_circuit_config :: circuit_config where
  "no_circuit_config = \<lparr>cc_probe_lease = None, cc_cooldown = None, cc_failure_threshold = None,
     cc_error_rate = None, cc_window_days = None\<rparr>"

definition positive_or :: "rat option \<Rightarrow> rat \<Rightarrow> rat" where
  "positive_or value dflt = (case value of None \<Rightarrow> dflt | Some v \<Rightarrow> if 0 < v then v else dflt)"

datatype circuit_error =
    ProviderCircuitOpen rat string
  | ProviderRequired
  | AttemptIdentityConflict
  | PermitMismatch
  | CircuitRowMissing

record permit =
  pm_id :: string
  pm_provider :: string
  pm_generation :: int
  pm_probe :: bool

definition neutral_errors :: "string list" where
  "neutral_errors = [''content_policy_block'', ''context_window_overflow'', ''invalid_request'',
     ''capability_mismatch'', ''model_capability_unavailable'', ''provider_circuit_open'',
     ''structured_output_invalid'', ''model_output_incomplete'', ''response_contract_violation'']"

subsection \<open>Reading the circuit\<close>

record circuit_view =
  cv_state :: string
  cv_allows :: bool
  cv_generation :: int
  cv_probe_in_flight :: bool
  cv_retry_after :: rat
  cv_reason :: string

definition secs_or_0 :: "rat option \<Rightarrow> rat" where
  "secs_or_0 x = (case x of None \<Rightarrow> 0 | Some t \<Rightarrow> t)"

definition circuit_status :: "circuit_row option \<Rightarrow> rat \<Rightarrow> circuit_view" where
  "circuit_status row now =
     (case row of
        None \<Rightarrow> \<lparr>cv_state = ''closed'', cv_allows = True, cv_generation = 0, cv_probe_in_flight = False,
                 cv_retry_after = 0, cv_reason = ''closed''\<rparr>
      | Some r \<Rightarrow>
          (let busy = cs_state r = ''half_open'' \<and> secs_or_0 (cs_probe_expires r) > now;
               delay = (if busy then secs_or_0 (cs_probe_expires r) else secs_or_0 (cs_open_until r)) - now;
               allowed = cs_state r = ''closed'' \<or> (\<not> busy \<and> delay \<le> 0);
               state = (if cs_state r = ''closed'' then ''closed''
                        else if allowed \<or> busy then ''half_open'' else ''open'')
           in \<lparr>cv_state = state, cv_allows = allowed, cv_generation = cs_generation r,
               cv_probe_in_flight = busy, cv_retry_after = max 0 delay,
               cv_reason = (if busy then ''probe_in_flight''
                            else if state = ''half_open'' then ''probe_available'' else state)\<rparr>))"

definition circuit_snapshot :: "string \<Rightarrow> rat \<Rightarrow> circuit_db \<Rightarrow> circuit_view" where
  "circuit_snapshot provider_id now d = circuit_status (circuit_of provider_id d) now"

subsection \<open>Admission\<close>

definition ensured_states :: "string \<Rightarrow> rat \<Rightarrow> circuit_db \<Rightarrow> circuit_row list" where
  "ensured_states provider_id now d =
     (if circuit_of provider_id d = None then cd_states d @ [new_circuit_row provider_id now] else cd_states d)"

definition permit_current :: "circuit_row \<Rightarrow> rat \<Rightarrow> attempt_row \<Rightarrow> bool" where
  "permit_current st now a \<longleftrightarrow> \<not> ca_probe a \<or>
     (cs_probe_id st = Some (ca_id a) \<and> secs_or_0 (cs_probe_expires st) > now)"

definition expired_probe :: "rat \<Rightarrow> attempt_row \<Rightarrow> attempt_row" where
  "expired_probe now a = a\<lparr>ca_state := ''expired'', ca_finished := Some now, ca_error := Some ''probe_lease_expired''\<rparr>"

definition probing_row :: "int \<Rightarrow> string \<Rightarrow> rat \<Rightarrow> rat \<Rightarrow> circuit_row \<Rightarrow> circuit_row" where
  "probing_row generation permit_id expires now r =
     r\<lparr>cs_state := ''half_open'', cs_generation := generation, cs_probe_id := Some permit_id,
       cs_probe_expires := Some expires, cs_updated := now\<rparr>"

definition new_attempt :: "string \<Rightarrow> string \<Rightarrow> int \<Rightarrow> bool \<Rightarrow> rat \<Rightarrow> attempt_row" where
  "new_attempt permit_id provider_id generation probe now =
     \<lparr>ca_id = permit_id, ca_provider = provider_id, ca_generation = generation, ca_probe = probe,
      ca_state = ''pending'', ca_created = now, ca_finished = None, ca_error = None\<rparr>"

definition attempt_key :: "string option \<Rightarrow> string \<Rightarrow> string" where
  "attempt_key attempt_id uuid = or_text (case attempt_id of None \<Rightarrow> [] | Some i \<Rightarrow> i) uuid"

definition circuit_acquire ::
  "string \<Rightarrow> circuit_config \<Rightarrow> string option \<Rightarrow> bool \<Rightarrow> string \<Rightarrow> rat \<Rightarrow> circuit_db \<Rightarrow>
     (circuit_error + permit) \<times> circuit_db" where
  "circuit_acquire provider_id cfg attempt_id explicit_probe uuid now d =
     (if py_strip provider_id = [] then (Inl ProviderRequired, d)
      else
        let permit_id = attempt_key attempt_id uuid;
            lease = positive_or (cc_probe_lease cfg) 120;
            states = ensured_states provider_id now d
        in case sel_by cs_provider provider_id states of
             None \<Rightarrow> (Inl CircuitRowMissing, d)
           | Some st \<Rightarrow>
               (case attempt_of permit_id d of
                  Some prior \<Rightarrow>
                    (if ca_provider prior \<noteq> provider_id then (Inl AttemptIdentityConflict, d)
                     else if ca_state prior \<noteq> ''pending'' \<or> ca_generation prior \<noteq> cs_generation st \<or>
                             \<not> permit_current st now prior
                     then (Inl (ProviderCircuitOpen 0 ''attempt_not_current''), d)
                     else (Inr \<lparr>pm_id = permit_id, pm_provider = provider_id,
                                pm_generation = ca_generation prior, pm_probe = ca_probe prior\<rparr>, d))
                | None \<Rightarrow>
                    (let view = circuit_status (Some st) now in
                     if \<not> cv_allows view \<and> (\<not> explicit_probe \<or> cv_probe_in_flight view)
                     then (Inl (ProviderCircuitOpen (max 0 (cv_retry_after view)) (cv_reason view)), d)
                     else
                       let probe = (cs_state st \<noteq> ''closed'');
                           generation = cs_generation st + (if probe then 1 else 0);
                           attempts = (if probe
                             then case cs_probe_id st of
                                    None \<Rightarrow> cd_attempts d
                                  | Some old \<Rightarrow> if old = [] then cd_attempts d
                                      else upd_where (\<lambda>a. ca_id a = old \<and> ca_state a = ''pending'') (expired_probe now) (cd_attempts d)
                             else cd_attempts d);
                           states' = (if probe
                             then upd_where (\<lambda>r. cs_provider r = provider_id) (probing_row generation permit_id (now + lease) now) states
                             else states)
                       in (Inr \<lparr>pm_id = permit_id, pm_provider = provider_id, pm_generation = generation, pm_probe = probe\<rparr>,
                           d\<lparr>cd_states := states',
                             cd_attempts := attempts @ [new_attempt permit_id provider_id generation probe now]\<rparr>))))"

subsection \<open>Settlement\<close>

definition attempt_current :: "circuit_row \<Rightarrow> rat \<Rightarrow> attempt_row \<Rightarrow> bool" where
  "attempt_current st now a \<longleftrightarrow> cs_generation st = ca_generation a \<and>
     ((\<not> ca_probe a \<and> cs_state st = ''closed'') \<or>
      (ca_probe a \<and> cs_probe_id st = Some (ca_id a) \<and> secs_or_0 (cs_probe_expires st) > now))"

definition settled_attempt :: "string \<Rightarrow> rat \<Rightarrow> string option \<Rightarrow> attempt_row \<Rightarrow> attempt_row" where
  "settled_attempt state now error_code a = a\<lparr>ca_state := state, ca_finished := Some now, ca_error := error_code\<rparr>"

definition moved_circuit :: "string \<Rightarrow> rat option \<Rightarrow> rat \<Rightarrow> circuit_row \<Rightarrow> circuit_row" where
  "moved_circuit state open_until now r =
     r\<lparr>cs_state := state, cs_generation := cs_generation r + 1, cs_open_until := open_until,
       cs_probe_id := None, cs_probe_expires := None, cs_updated := now\<rparr>"

text \<open>The outcomes counted in the health window: the finished successes and failures of the
  circuit's generation.\<close>

definition in_window :: "string \<Rightarrow> int \<Rightarrow> rat \<Rightarrow> attempt_row \<Rightarrow> bool" where
  "in_window provider_id generation since a \<longleftrightarrow> ca_provider a = provider_id \<and> ca_generation a = generation \<and>
     (case ca_finished a of None \<Rightarrow> False | Some t \<Rightarrow> since \<le> t) \<and> ca_state a \<in> {''success'', ''failure''}"

definition minimum_samples :: "circuit_config \<Rightarrow> int" where
  "minimum_samples cfg = max 1 (floor (positive_or (cc_failure_threshold cfg) 3))"

definition error_rate :: "circuit_config \<Rightarrow> rat" where
  "error_rate cfg = (case cc_error_rate cfg of None \<Rightarrow> 3 / 5 | Some r \<Rightarrow> min 1 (max 0 r))"

definition window_seconds :: "circuit_config \<Rightarrow> rat" where
  "window_seconds cfg = positive_or (cc_window_days cfg) 7 * 86400"

definition too_many_failures :: "circuit_config \<Rightarrow> string \<Rightarrow> int \<Rightarrow> rat \<Rightarrow> attempt_row list \<Rightarrow> bool" where
  "too_many_failures cfg provider_id generation now attempts =
     (let window = in_window provider_id generation (now - window_seconds cfg);
          events = count_where window attempts;
          errors = count_where (\<lambda>a. window a \<and> ca_state a = ''failure'') attempts
      in int events \<ge> minimum_samples cfg \<and> of_nat errors / of_nat events \<ge> error_rate cfg)"

definition circuit_settle ::
  "permit \<Rightarrow> string \<Rightarrow> circuit_config \<Rightarrow> string option \<Rightarrow> rat \<Rightarrow> circuit_db \<Rightarrow> (circuit_error + bool) \<times> circuit_db" where
  "circuit_settle permit outcome cfg error_code now d =
     (case attempt_of (pm_id permit) d of
        None \<Rightarrow> (Inl PermitMismatch, d)
      | Some call \<Rightarrow>
          (if ca_provider call \<noteq> pm_provider permit \<or> ca_generation call \<noteq> pm_generation permit
           then (Inl PermitMismatch, d)
           else if ca_state call \<noteq> ''pending'' then (Inr False, d)
           else case circuit_of (ca_provider call) d of
                  None \<Rightarrow> (Inl CircuitRowMissing, d)
                | Some st \<Rightarrow>
                    (let current = attempt_current st now call;
                         attempts = upd_where (\<lambda>a. ca_id a = ca_id call)
                           (settled_attempt (if current then outcome else ''stale'') now error_code) (cd_attempts d);
                         move = (\<lambda>state open_until. upd_where (\<lambda>r. cs_provider r = ca_provider call)
                           (moved_circuit state open_until now) (cd_states d));
                         cooldown = positive_or (cc_cooldown cfg) 60
                     in if \<not> current then (Inr False, d\<lparr>cd_attempts := attempts\<rparr>)
                        else if ca_probe call
                        then (Inr True, d\<lparr>cd_attempts := attempts, cd_states :=
                               (if outcome = ''success'' then move ''closed'' None
                                else if outcome = ''failure'' then move ''open'' (Some (now + cooldown))
                                else move ''open'' (Some (max now (secs_or_0 (cs_open_until st)))))\<rparr>)
                        else if outcome = ''failure'' \<and>
                                too_many_failures cfg (ca_provider call) (ca_generation call) now attempts
                        then (Inr True, d\<lparr>cd_attempts := attempts, cd_states := move ''open'' (Some (now + cooldown))\<rparr>)
                        else (Inr True, d\<lparr>cd_attempts := attempts\<rparr>))))"

definition circuit_finish ::
  "permit \<Rightarrow> bool \<Rightarrow> circuit_config \<Rightarrow> string option \<Rightarrow> rat \<Rightarrow> circuit_db \<Rightarrow> (circuit_error + bool) \<times> circuit_db" where
  "circuit_finish permit success cfg error_code now d =
     circuit_settle permit
       (if success then ''success''
        else if (case error_code of None \<Rightarrow> False | Some e \<Rightarrow> e \<in> set neutral_errors) then ''neutral'' else ''failure'')
       cfg error_code now d"

definition circuit_release :: "permit \<Rightarrow> string \<Rightarrow> rat \<Rightarrow> circuit_db \<Rightarrow> (circuit_error + bool) \<times> circuit_db" where
  "circuit_release permit reason now d = circuit_settle permit ''released'' no_circuit_config (Some reason) now d"

end
