(* ===== verification/ModelAdmission.thy ===== *)
theory ModelAdmission
  imports ModelBudget ProviderCircuit
begin

text \<open>
  core/model_telemetry.py, the part of the callback that joins the budget and the circuit: a model
  call is admitted by reserving its estimate, acquiring a permit and marking the reservation
  dispatched (\<^verbatim>\<open>_admit\<close>); its end writes the ledger in the transaction that
  settles the reservation, the invocation log, and the outcome for the circuit
  (\<^verbatim>\<open>_write_invocation\<close>, \<^verbatim>\<open>_record_invocation\<close>). The budget
  and circuit clocks are read separately, hence two instants. Extracting the usage from a
  provider's answer and the health log are outside the model; that a write raises is an input.
\<close>

record engine =
  en_budget :: budget_db
  en_circuit :: circuit_db

datatype admission_error =
    AdmissionBudget budget_error
  | AdmissionCircuit circuit_error

subsection \<open>Estimates\<close>

definition priced :: "rat option \<Rightarrow> bool" where
  "priced v = (case v of None \<Rightarrow> False | Some p \<Rightarrow> 0 \<le> p)"

definition estimate_cost :: "int \<Rightarrow> rat option \<Rightarrow> rat" where
  "estimate_cost tokens unit_price =
     (let price = (case unit_price of None \<Rightarrow> 0 | Some p \<Rightarrow> p)
      in if price \<le> 0 \<or> tokens \<le> 0 then 0 else of_int tokens / 1000000 * price)"

record call_spec =
  ca_provider_id :: string
  ca_model_id :: string
  ca_role :: string
  ca_price_in :: "rat option"
  ca_price_out :: "rat option"
  ca_requested_max :: int
  ca_estimated_output :: "int option"

record governance =
  go_budget :: budget_config
  go_circuit :: circuit_config
  go_output_tokens :: int
  go_max_failover :: rat

definition output_estimate :: "call_spec \<Rightarrow> governance \<Rightarrow> int" where
  "output_estimate c g =
     (case ca_estimated_output c of
        Some n \<Rightarrow> max 0 n
      | None \<Rightarrow>
          (let n = max 1 (if go_output_tokens g = 0 then 1024 else go_output_tokens g)
           in if ca_requested_max c > 0 then min n (ca_requested_max c) else n))"

definition cost_estimate :: "call_spec \<Rightarrow> int \<Rightarrow> int \<Rightarrow> rat option" where
  "cost_estimate c input_tokens output_tokens =
     (if priced (ca_price_in c) \<and> (output_tokens = 0 \<or> priced (ca_price_out c))
      then Some (estimate_cost (max 1 input_tokens) (ca_price_in c) + estimate_cost output_tokens (ca_price_out c))
      else None)"

definition admission_circuit :: "governance \<Rightarrow> circuit_config" where
  "admission_circuit g = (go_circuit g)\<lparr>cc_probe_lease := Some (max
     (case cc_probe_lease (go_circuit g) of None \<Rightarrow> 120 | Some v \<Rightarrow> if v = 0 then 120 else v)
     (if go_max_failover g = 0 then 360 else go_max_failover g))\<rparr>"

definition probe_roles :: "string list" where
  "probe_roles = [''connection_test'', ''connection_test_stream'', ''connection_test_tools'',
     ''connection_test_structured'', ''connection_test_multimodal'']"

subsection \<open>Admission\<close>

record admission =
  ad_reservation :: "string option"
  ad_permit :: permit
  ad_config :: governance

definition admission_args :: "call_spec \<Rightarrow> governance \<Rightarrow> string \<Rightarrow> string option \<Rightarrow> string option \<Rightarrow> int \<Rightarrow> reserve_args" where
  "admission_args c g key context_run project input_tokens =
     \<lparr>ra_run = Some (case context_run of None \<Rightarrow> key | Some r \<Rightarrow> or_text r key), ra_project = project,
      ra_provider = ca_provider_id c, ra_model = ca_model_id c,
      ra_tokens = max 1 (input_tokens + output_estimate c g),
      ra_cost = cost_estimate c input_tokens (output_estimate c g), ra_id = Some key\<rparr>"

text \<open>\<open>key\<close> is \<^verbatim>\<open>str(run_id)\<close> of the callback, \<open>uuid\<close> the fallback identifier.\<close>

definition admit ::
  "call_spec \<Rightarrow> governance \<Rightarrow> string \<Rightarrow> string option \<Rightarrow> string option \<Rightarrow> int \<Rightarrow> string \<Rightarrow> string \<Rightarrow> string \<Rightarrow> time \<Rightarrow> rat \<Rightarrow>
     engine \<Rightarrow> (admission_error + admission) \<times> engine" where
  "admit c g key context_run project input_tokens uuid owner today now clock s =
     (case budget_reserve (go_budget g) (admission_args c g key context_run project input_tokens) uuid owner today now (en_budget s) of
        (Inl e, b) \<Rightarrow> (Inl (AdmissionBudget e), s\<lparr>en_budget := b\<rparr>)
      | (Inr rid, b) \<Rightarrow>
          (let g' = g\<lparr>go_circuit := admission_circuit g\<rparr>
           in case circuit_acquire (ca_provider_id c) (go_circuit g') (Some key) (ca_role c \<in> set probe_roles) uuid clock (en_circuit s) of
                (Inl e, ci) \<Rightarrow>
                  (Inl (AdmissionCircuit e), s\<lparr>en_budget := budget_release rid ''admission_failed'' now b, en_circuit := ci\<rparr>)
              | (Inr pm, ci) \<Rightarrow>
                  (case mark_dispatched rid now b of
                     (Inr _, b') \<Rightarrow>
                       (Inr \<lparr>ad_reservation = rid, ad_permit = pm, ad_config = g'\<rparr>, s\<lparr>en_budget := b', en_circuit := ci\<rparr>)
                   | (Inl e, b') \<Rightarrow>
                       (case circuit_release pm ''admission_failed'' clock ci of
                          (Inl e', ci') \<Rightarrow> (Inl (AdmissionCircuit e'), s\<lparr>en_budget := b', en_circuit := ci'\<rparr>)
                        | (Inr _, ci') \<Rightarrow>
                            (Inl (AdmissionBudget e),
                             s\<lparr>en_budget := budget_release rid ''admission_failed'' now b', en_circuit := ci'\<rparr>)))))"

subsection \<open>The end of a call\<close>

record invocation =
  iv_run :: "string option"
  iv_session :: "string option"
  iv_project :: "string option"
  iv_user :: "string option"
  iv_completed :: bool
  iv_input :: int
  iv_output :: int
  iv_total :: int
  iv_cost :: rat
  iv_latency :: rat
  iv_reported :: bool
  iv_error_code :: "string option"
  iv_finish_reason :: string

definition resolve_scope :: "invocation \<Rightarrow> string \<times> string" where
  "resolve_scope v =
     (if given (iv_project v) then (''project'', the (iv_project v))
      else if given (iv_session v) then (''session'', the (iv_session v))
      else if given (iv_user v) then (''user'', the (iv_user v))
      else (''global'', ''global''))"

definition ledger_entry :: "call_spec \<Rightarrow> string option \<Rightarrow> invocation \<Rightarrow> string \<Rightarrow> string \<Rightarrow> ledger_row" where
  "ledger_entry c capability v uuid bucket =
     (case resolve_scope v of (scope_type, scope_id) \<Rightarrow>
       \<lparr>ul_id = uuid, ul_bucket = bucket, ul_scope_type = scope_type, ul_scope_id = scope_id,
        ul_provider = Some (ca_provider_id c), ul_model = ca_model_id c, ul_role = or_text (ca_role c) ''unassigned'',
        ul_class = capability, ul_invocations = 1, ul_success = (if iv_completed v then 1 else 0),
        ul_errors = (if iv_completed v then 0 else 1), ul_input = iv_input v, ul_output = iv_output v,
        ul_total = iv_total v, ul_cost = iv_cost v, ul_latency = iv_latency v\<rparr>)"

definition invocation_log_row :: "string option \<Rightarrow> invocation \<Rightarrow> string \<Rightarrow> invocation_log" where
  "invocation_log_row rid v uuid =
     \<lparr>il_id = (if given rid then ''budget:'' @ the rid else uuid), il_run = iv_run v, il_input = iv_input v,
      il_output = iv_output v, il_total = iv_total v, il_cost = iv_cost v, il_latency = iv_latency v\<rparr>"

text \<open>Which of the writes raises: the ledger's, the log's, or the health log's that follows it.\<close>

datatype write_fault = NoFault | LedgerFault | LogFault | HealthFault

definition ledger_body ::
  "ledger_row \<Rightarrow> string option \<Rightarrow> bool \<Rightarrow> write_fault \<Rightarrow> time \<Rightarrow> bool \<Rightarrow> budget_db \<Rightarrow> write_fault + budget_db" where
  "ledger_body e rid usage_reported fault now should_write d =
     (if should_write \<and> usage_reported
      then if fault = LedgerFault then Inl LedgerFault
           else Inr (mark_ledger_accounted rid now (upsert_usage_ledger e d))
      else Inr d)"

definition write_invocation ::
  "call_spec \<Rightarrow> string option \<Rightarrow> invocation \<Rightarrow> string option \<Rightarrow> string \<Rightarrow> string \<Rightarrow> write_fault \<Rightarrow> time \<Rightarrow> budget_db \<Rightarrow>
     write_fault option \<times> budget_db" where
  "write_invocation c capability v rid uuid bucket fault now d =
     (let e = ledger_entry c capability v uuid bucket
      in case (if given rid
               then settlement rid (iv_reported v) (iv_total v) (iv_cost v) (ledger_body e rid (iv_reported v) fault now) now d
               else if fault = LedgerFault then (Some LedgerFault, d) else (None, upsert_usage_ledger e d)) of
           (Some f, d') \<Rightarrow> (Some f, d')
         | (None, d') \<Rightarrow>
             (if fault = LogFault then (Some LogFault, d')
              else (if fault = HealthFault then Some HealthFault else None,
                    add_model_invocation_log (invocation_log_row rid v uuid) d')))"

definition record_invocation ::
  "call_spec \<Rightarrow> string option \<Rightarrow> invocation \<Rightarrow> string option \<Rightarrow> permit option \<Rightarrow> circuit_config \<Rightarrow> string \<Rightarrow> string \<Rightarrow>
     write_fault \<Rightarrow> time \<Rightarrow> rat \<Rightarrow> engine \<Rightarrow> engine" where
  "record_invocation c capability v rid permit cfg uuid bucket fault now clock s =
     (let b = (case write_invocation c capability v rid uuid bucket fault now (en_budget s) of
                 (None, d') \<Rightarrow> d'
               | (Some _, d') \<Rightarrow> budget_release rid ''settlement_failed'' now d');
          refusal = (py_lower (iv_finish_reason v) \<in> {''refusal'', ''content_filter'', ''safety''});
          ci = (case permit of
                  None \<Rightarrow> en_circuit s
                | Some pm \<Rightarrow>
                    (if iv_error_code v = Some ''cancelled'' then snd (circuit_release pm ''cancelled'' clock (en_circuit s))
                     else snd (circuit_finish pm (iv_completed v \<and> \<not> refusal) cfg
                            (if refusal then Some ''content_policy_block'' else iv_error_code v) clock (en_circuit s))))
      in s\<lparr>en_budget := b, en_circuit := ci\<rparr>)"

end
