(* ===== verification/CircuitHistory.thy ===== *)
theory CircuitHistory
  imports ProviderCircuit
begin

text \<open>
  Histories of the provider circuit: what each operation can do to the tables (\<open>acquire_cases\<close>,
  \<open>settle_cases\<close>), the invariant, a probe in flight, attempts and generations over time, and
  the properties of core/provider_circuit.py.
\<close>

subsection \<open>Histories and what an operation can do\<close>

datatype circuit_op =
    CAcquire string circuit_config "string option" bool string rat
  | CFinish permit bool circuit_config "string option" rat
  | CRelease permit string rat

fun circuit_step :: "circuit_op \<Rightarrow> circuit_db \<Rightarrow> circuit_db" where
  "circuit_step (CAcquire p cfg i e u now) d = snd (circuit_acquire p cfg i e u now d)"
| "circuit_step (CFinish pm ok cfg err now) d = snd (circuit_finish pm ok cfg err now d)"
| "circuit_step (CRelease pm reason now) d = snd (circuit_release pm reason now d)"

definition circuit_run :: "circuit_op list \<Rightarrow> circuit_db \<Rightarrow> circuit_db" where
  "circuit_run ops d = fold circuit_step ops d"

fun op_time :: "circuit_op \<Rightarrow> rat" where
  "op_time (CAcquire _ _ _ _ _ now) = now"
| "op_time (CFinish _ _ _ _ now) = now"
| "op_time (CRelease _ _ now) = now"

fun op_settles :: "string \<Rightarrow> circuit_op \<Rightarrow> bool" where
  "op_settles i (CAcquire _ _ _ _ _ _) = False"
| "op_settles i (CFinish pm _ _ _ _) = (pm_id pm = i)"
| "op_settles i (CRelease pm _ _) = (pm_id pm = i)"

definition circuit_inv :: "circuit_db \<Rightarrow> bool" where
  "circuit_inv d \<longleftrightarrow> keyed cs_provider (cd_states d) \<and> keyed ca_id (cd_attempts d) \<and>
     (\<forall>a \<in> set (cd_attempts d). \<exists>r. circuit_of (ca_provider a) d = Some r \<and> ca_generation a \<le> cs_generation r \<and>
        (cs_state r = ''half_open'' \<and> ca_generation a = cs_generation r \<longrightarrow> cs_probe_id r = Some (ca_id a))) \<and>
     (\<forall>r \<in> set (cd_states d). \<forall>i. cs_probe_id r = Some i \<longrightarrow> cs_state r = ''half_open'' \<and>
        (i, cs_provider r) \<in> (\<lambda>a. (ca_id a, ca_provider a)) ` set (cd_attempts d))"

definition no_circuits :: circuit_db where
  "no_circuits = \<lparr>cd_states = [], cd_attempts = []\<rparr>"

lemma circuit_of_upd:
  "(\<And>r. cs_provider (f r) = cs_provider r) \<Longrightarrow>
     circuit_of p (d\<lparr>cd_states := upd_where (\<lambda>r. cs_provider r = q) f (cd_states d)\<rparr>) =
       (if p = q then map_option f (circuit_of q d) else circuit_of p d)"
  by (simp add: circuit_of_def sel_upd_key0)

lemma circuit_of_frame [simp]: "circuit_of p (d\<lparr>cd_attempts := t\<rparr>) = circuit_of p d"
  "attempt_of i (d\<lparr>cd_states := u\<rparr>) = attempt_of i d"
  by (simp_all add: circuit_of_def attempt_of_def)

lemma row_updates [simp]:
  "cs_provider (probing_row g i e now r) = cs_provider r" "cs_provider (moved_circuit s u now r) = cs_provider r"
  "ca_id (expired_probe now a) = ca_id a" "ca_provider (expired_probe now a) = ca_provider a"
  "ca_generation (expired_probe now a) = ca_generation a"
  "ca_id (settled_attempt s now err a) = ca_id a" "ca_provider (settled_attempt s now err a) = ca_provider a"
  "ca_generation (settled_attempt s now err a) = ca_generation a" "ca_probe (settled_attempt s now err a) = ca_probe a"
  "ca_probe (expired_probe now a) = ca_probe a"
  by (simp_all add: probing_row_def moved_circuit_def expired_probe_def settled_attempt_def)

lemma new_row_sel [simp]:
  "cs_provider (new_circuit_row p now) = p" "cs_generation (new_circuit_row p now) = 0"
  "cs_state (new_circuit_row p now) = ''closed''" "cs_probe_id (new_circuit_row p now) = None"
  "ca_id (new_attempt i p g b now) = i" "ca_provider (new_attempt i p g b now) = p"
  "ca_generation (new_attempt i p g b now) = g" "ca_probe (new_attempt i p g b now) = b"
  "ca_state (new_attempt i p g b now) = ''pending''"
  by (simp_all add: new_circuit_row_def new_attempt_def)

lemma ensured_sel:
  "sel_by cs_provider q (ensured_states p now d) =
     (if q = p \<and> circuit_of p d = None then Some (new_circuit_row p now) else circuit_of q d)"
  by (auto simp: ensured_states_def circuit_of_def sel_by_append split: option.splits)

lemma ensured_keyed: "keyed cs_provider (cd_states d) \<Longrightarrow> keyed cs_provider (ensured_states p now d)"
  by (auto simp: ensured_states_def circuit_of_def intro: keyed_snoc)

text \<open>The probe a half-open circuit names is marked expired when a new one takes its place.\<close>

definition displaced :: "circuit_row \<Rightarrow> rat \<Rightarrow> attempt_row list \<Rightarrow> attempt_row list" where
  "displaced st now t = (case cs_probe_id st of None \<Rightarrow> t
     | Some old \<Rightarrow> if old = [] then t else upd_where (\<lambda>a. ca_id a = old \<and> ca_state a = ''pending'') (expired_probe now) t)"

lemma acquire_cases:
  assumes "circuit_acquire p cfg aid ex uuid now d = (res, d')"
  obtains (refused) e where "res = Inl e" "d' = d"
  | (again) prior st where "circuit_of p d = Some st \<or> circuit_of p d = None \<and> st = new_circuit_row p now"
      "attempt_of (attempt_key aid uuid) d = Some prior" "ca_provider prior = p" "ca_state prior = ''pending''"
      "ca_generation prior = cs_generation st" "permit_current st now prior" "d' = d"
      "res = Inr \<lparr>pm_id = ca_id prior, pm_provider = p, pm_generation = ca_generation prior, pm_probe = ca_probe prior\<rparr>"
  | (closed) st i where "i = attempt_key aid uuid" "attempt_of i d = None"
      "sel_by cs_provider p (ensured_states p now d) = Some st" "cs_state st = ''closed''"
      "res = Inr \<lparr>pm_id = i, pm_provider = p, pm_generation = cs_generation st, pm_probe = False\<rparr>"
      "d' = d\<lparr>cd_states := ensured_states p now d,
              cd_attempts := cd_attempts d @ [new_attempt i p (cs_generation st) False now]\<rparr>"
  | (probe) st i where "i = attempt_key aid uuid" "attempt_of i d = None"
      "circuit_of p d = Some st" "cs_state st \<noteq> ''closed''"
      "\<not> (cs_state st = ''half_open'' \<and> secs_or_0 (cs_probe_expires st) > now)"
      "res = Inr \<lparr>pm_id = i, pm_provider = p, pm_generation = cs_generation st + 1, pm_probe = True\<rparr>"
      "d' = d\<lparr>cd_states := upd_where (\<lambda>r. cs_provider r = p)
                (probing_row (cs_generation st + 1) i (now + positive_or (cc_probe_lease cfg) 120) now) (cd_states d),
              cd_attempts := displaced st now (cd_attempts d) @ [new_attempt i p (cs_generation st + 1) True now]\<rparr>"
proof -
  let ?i = "attempt_key aid uuid"
  obtain st where st: "sel_by cs_provider p (ensured_states p now d) = Some st"
    by (cases "circuit_of p d") (auto simp: ensured_sel)
  show thesis
  proof (cases "py_strip p = []")
    case True
    then show thesis using assms refused by (auto simp: circuit_acquire_def)
  next
    case ne: False
    show thesis
    proof (cases "attempt_of ?i d")
      case (Some prior)
      then have "ca_id prior = ?i" unfolding attempt_of_def by (rule sel_by_key)
      then show thesis using assms ne st Some refused again [of st prior]
        by (auto simp: circuit_acquire_def Let_def ensured_sel split: if_splits)
    next
      case None
      let ?v = "circuit_status (Some st) now"
      show thesis
      proof (cases "\<not> cv_allows ?v \<and> (\<not> ex \<or> cv_probe_in_flight ?v)")
        case True
        then show thesis using assms ne st None refused by (auto simp: circuit_acquire_def Let_def)
      next
        case ok: False
        show thesis
        proof (cases "cs_state st = ''closed''")
          case True
          then show thesis using assms ne st None ok closed [of ?i st] by (auto simp: circuit_acquire_def Let_def)
        next
          case open_: False
          then have of: "circuit_of p d = Some st" using st by (auto simp: ensured_sel split: if_splits)
          then have "ensured_states p now d = cd_states d" by (simp add: ensured_states_def)
          moreover have "\<not> (cs_state st = ''half_open'' \<and> secs_or_0 (cs_probe_expires st) > now)"
            using ok open_ by (auto simp: circuit_status_def Let_def split: if_splits)
          ultimately show thesis using assms ne st None ok open_ of probe [of ?i st]
            by (auto simp: circuit_acquire_def Let_def displaced_def)
        qed
      qed
    qed
  qed
qed

lemma settle_cases:
  assumes "circuit_settle pm outcome cfg err now d = (res, d')"
  obtains (unchanged) "d' = d" "res \<noteq> Inr True"
      "\<And>b. res = Inr b \<Longrightarrow> \<exists>call. attempt_of (pm_id pm) d = Some call \<and> ca_state call \<noteq> ''pending''"
  | (stale) call st where "attempt_of (pm_id pm) d = Some call" "ca_state call = ''pending''"
      "circuit_of (ca_provider call) d = Some st" "\<not> attempt_current st now call" "res = Inr False"
      "d' = d\<lparr>cd_attempts := upd_where (\<lambda>a. ca_id a = pm_id pm) (settled_attempt ''stale'' now err) (cd_attempts d)\<rparr>"
  | (kept) call st where "attempt_of (pm_id pm) d = Some call" "ca_state call = ''pending''"
      "circuit_of (ca_provider call) d = Some st" "attempt_current st now call" "res = Inr True" "\<not> ca_probe call"
      "ca_provider call = pm_provider pm" "ca_generation call = pm_generation pm"
      "d' = d\<lparr>cd_attempts := upd_where (\<lambda>a. ca_id a = pm_id pm) (settled_attempt outcome now err) (cd_attempts d)\<rparr>"
      "\<not> (outcome = ''failure'' \<and> too_many_failures cfg (ca_provider call) (ca_generation call) now (cd_attempts d'))"
  | (moved) call st state until where "attempt_of (pm_id pm) d = Some call" "ca_state call = ''pending''"
      "circuit_of (ca_provider call) d = Some st" "attempt_current st now call" "res = Inr True"
      "ca_provider call = pm_provider pm" "ca_generation call = pm_generation pm"
      "state \<in> {''open'', ''closed''}"
      "d' = d\<lparr>cd_attempts := upd_where (\<lambda>a. ca_id a = pm_id pm) (settled_attempt outcome now err) (cd_attempts d),
              cd_states := upd_where (\<lambda>r. cs_provider r = ca_provider call) (moved_circuit state until now) (cd_states d)\<rparr>"
      "ca_probe call \<longrightarrow> (state = ''closed'') = (outcome = ''success'')"
      "\<not> ca_probe call \<longrightarrow> state = ''open'' \<and> outcome = ''failure'' \<and>
         too_many_failures cfg (ca_provider call) (ca_generation call) now (cd_attempts d')"
proof (cases "attempt_of (pm_id pm) d")
  case None
  then show thesis using assms unchanged by (auto simp: circuit_settle_def)
next
  case (Some call)
  have id: "ca_id call = pm_id pm" using Some unfolding attempt_of_def by (rule sel_by_key)
  show thesis
  proof (cases "ca_provider call = pm_provider pm \<and> ca_generation call = pm_generation pm \<and> ca_state call = ''pending''")
    case False
    then show thesis using assms Some unchanged by (auto simp: circuit_settle_def split: if_splits)
  next
    case True
    show thesis
    proof (cases "circuit_of (ca_provider call) d")
      case None
      then show thesis using assms Some True unchanged by (auto simp: circuit_settle_def)
    next
      case st: (Some st)
      show thesis
      proof (cases "attempt_current st now call")
        case False
        then show thesis using assms Some True st id stale by (auto simp: circuit_settle_def Let_def)
      next
        case cur: True
        show thesis
        proof (cases "ca_probe call")
          case probe: True
          let ?until = "if outcome = ''success'' then None else if outcome = ''failure'' then Some (now + positive_or (cc_cooldown cfg) 60)
            else Some (max now (secs_or_0 (cs_open_until st)))"
          let ?state = "if outcome = ''success'' then ''closed'' else ''open''"
          have eq: "(res, d') = (Inr True, d\<lparr>cd_attempts := upd_where (\<lambda>a. ca_id a = pm_id pm) (settled_attempt outcome now err) (cd_attempts d),
              cd_states := upd_where (\<lambda>r. cs_provider r = ca_provider call) (moved_circuit ?state ?until now) (cd_states d)\<rparr>)"
            unfolding assms [symmetric] using Some True st id cur probe by (simp add: circuit_settle_def Let_def)
          show thesis by (rule moved [OF Some _ st cur, of ?state ?until]) (use eq True probe in simp_all)
        next
          case np: False
          let ?t = "upd_where (\<lambda>a. ca_id a = pm_id pm) (settled_attempt outcome now err) (cd_attempts d)"
          let ?until = "Some (now + positive_or (cc_cooldown cfg) 60)"
          show thesis
          proof (cases "outcome = ''failure'' \<and> too_many_failures cfg (ca_provider call) (ca_generation call) now ?t")
            case trip: True
            have eq: "(res, d') = (Inr True, d\<lparr>cd_attempts := ?t,
                cd_states := upd_where (\<lambda>r. cs_provider r = ca_provider call) (moved_circuit ''open'' ?until now) (cd_states d)\<rparr>)"
              unfolding assms [symmetric] using Some True st id cur np trip by (auto simp: circuit_settle_def Let_def)
            show thesis by (rule moved [OF Some _ st cur, of "''open''" ?until]) (use eq True np trip in auto)
          next
            case calm: False
            have eq: "(res, d') = (Inr True, d\<lparr>cd_attempts := ?t\<rparr>)"
              unfolding assms [symmetric] using Some True st id cur np calm by (auto simp: circuit_settle_def Let_def)
            show thesis by (rule kept [OF Some _ st cur]) (use eq True np calm in simp_all)
          qed
        qed
      qed
    qed
  qed
qed


subsection \<open>The invariant\<close>

lemma circuit_invI:
  assumes "keyed cs_provider (cd_states d)" "keyed ca_id (cd_attempts d)"
    and "\<And>a. a \<in> set (cd_attempts d) \<Longrightarrow> \<exists>r. circuit_of (ca_provider a) d = Some r \<and> ca_generation a \<le> cs_generation r \<and>
        (cs_state r = ''half_open'' \<and> ca_generation a = cs_generation r \<longrightarrow> cs_probe_id r = Some (ca_id a))"
    and "\<And>p r i. circuit_of p d = Some r \<Longrightarrow> cs_probe_id r = Some i \<Longrightarrow> cs_state r = ''half_open'' \<and>
        (i, p) \<in> (\<lambda>a. (ca_id a, ca_provider a)) ` set (cd_attempts d)"
  shows "circuit_inv d"
  using assms keyed_sel_iff [OF assms(1)] by (fastforce simp: circuit_inv_def circuit_of_def)

lemma circuit_invD:
  assumes "circuit_inv d"
  shows "keyed cs_provider (cd_states d)" "keyed ca_id (cd_attempts d)"
    and "a \<in> set (cd_attempts d) \<Longrightarrow> \<exists>r. circuit_of (ca_provider a) d = Some r \<and> ca_generation a \<le> cs_generation r \<and>
        (cs_state r = ''half_open'' \<and> ca_generation a = cs_generation r \<longrightarrow> cs_probe_id r = Some (ca_id a))"
    and "circuit_of p d = Some r \<Longrightarrow> cs_probe_id r = Some i \<Longrightarrow> cs_state r = ''half_open'' \<and>
        (i, p) \<in> (\<lambda>a. (ca_id a, ca_provider a)) ` set (cd_attempts d)"
  using assms by (auto simp: circuit_inv_def circuit_of_def dest: sel_by_SomeD)

lemma no_circuits_inv [simp]: "circuit_inv no_circuits"
  by (simp add: circuit_inv_def no_circuits_def)

lemma displaced_frame:
  "map ca_id (displaced st now t) = map ca_id t"
  "a \<in> set (displaced st now t) \<Longrightarrow>
     \<exists>b \<in> set t. ca_id b = ca_id a \<and> ca_provider b = ca_provider a \<and> ca_generation b = ca_generation a"
  by (auto simp: displaced_def map_key_upd_where set_upd_where split: option.splits if_splits)

lemma upd_where_image: "(\<And>r. g (f r) = g r) \<Longrightarrow> g ` set (upd_where P f t) = g ` set t"
  by (induction t) auto

lemma displaced_ids:
  "(\<lambda>a. (ca_id a, ca_provider a)) ` set (displaced st now t) = (\<lambda>a. (ca_id a, ca_provider a)) ` set t"
  by (simp add: displaced_def upd_where_image split: option.splits)

lemma acquire_inv:
  assumes "circuit_inv d" "circuit_acquire p cfg aid ex uuid now d = (res, d')"
  shows "circuit_inv d'"
  using assms(2)
proof (cases rule: acquire_cases)
  case (closed st i)
  have of: "circuit_of q d' = (if q = p then Some st else circuit_of q d)" for q
    using closed(3,6) ensured_sel [of q p now d] by (auto simp: circuit_of_def split: if_splits)
  have st: "circuit_of p d = Some st \<or> circuit_of p d = None \<and> st = new_circuit_row p now"
    using closed(3) by (auto simp: ensured_sel split: if_splits)
  show ?thesis
  proof (rule circuit_invI)
    show "keyed cs_provider (cd_states d')" using closed(6) ensured_keyed circuit_invD(1) [OF assms(1)] by simp
    show "keyed ca_id (cd_attempts d')"
      using closed(2,6) circuit_invD(2) [OF assms(1)] by (auto simp: attempt_of_def intro!: keyed_snoc)
    show "\<exists>r. circuit_of (ca_provider a) d' = Some r \<and> ca_generation a \<le> cs_generation r \<and>
        (cs_state r = ''half_open'' \<and> ca_generation a = cs_generation r \<longrightarrow> cs_probe_id r = Some (ca_id a))"
      if "a \<in> set (cd_attempts d')" for a
      using that closed(4,6) of st circuit_invD(3) [OF assms(1), of a] by auto
    show "cs_state r = ''half_open'' \<and> (j, q) \<in> (\<lambda>a. (ca_id a, ca_provider a)) ` set (cd_attempts d')"
      if "circuit_of q d' = Some r" "cs_probe_id r = Some j" for q r j
      using that of st closed(6) circuit_invD(4) [OF assms(1), of q r j] by (auto split: if_splits)
  qed
next
  case (probe st i)
  let ?row = "probing_row (cs_generation st + 1) i (now + positive_or (cc_probe_lease cfg) 120) now st"
  have of: "circuit_of q d' = (if q = p then Some ?row else circuit_of q d)" for q
    using probe(3,7) by (simp add: circuit_of_def sel_upd_key0)
  show ?thesis
  proof (rule circuit_invI)
    show "keyed cs_provider (cd_states d')" using probe(7) circuit_invD(1) [OF assms(1)] by (simp add: keyed_upd_where)
    have "i \<notin> ca_id ` set (cd_attempts d)" using probe(2) by (simp add: attempt_of_def sel_by_None_iff)
    then show "keyed ca_id (cd_attempts d')"
      using probe(7) circuit_invD(2) [OF assms(1)] displaced_frame(1) [of st now "cd_attempts d"]
      by (simp add: keyed_def flip: set_map)
    show "\<exists>r. circuit_of (ca_provider a) d' = Some r \<and> ca_generation a \<le> cs_generation r \<and>
        (cs_state r = ''half_open'' \<and> ca_generation a = cs_generation r \<longrightarrow> cs_probe_id r = Some (ca_id a))"
      if a: "a \<in> set (cd_attempts d')" for a
    proof (cases "a \<in> set (displaced st now (cd_attempts d))")
      case False
      then show ?thesis using a probe(7) of by (auto simp: probing_row_def)
    next
      case True
      then obtain b where b: "b \<in> set (cd_attempts d)" "ca_id b = ca_id a" "ca_provider b = ca_provider a" "ca_generation b = ca_generation a"
        using displaced_frame(2) by meson
      from circuit_invD(3) [OF assms(1) b(1)] b of probe(3) show ?thesis by (auto simp: probing_row_def)
    qed
    show "cs_state r = ''half_open'' \<and> (j, q) \<in> (\<lambda>a. (ca_id a, ca_provider a)) ` set (cd_attempts d')"
      if "circuit_of q d' = Some r" "cs_probe_id r = Some j" for q r j
      using that of circuit_invD(4) [OF assms(1), of q r j] probe(7) displaced_ids [of st now "cd_attempts d"]
      by (auto simp: probing_row_def split: if_splits)
  qed
qed (use assms(1) in simp_all)

lemma settle_inv:
  assumes "circuit_inv d" "circuit_settle pm outcome cfg err now d = (res, d')"
  shows "circuit_inv d'"
proof -
  let ?t = "\<lambda>s. upd_where (\<lambda>a. ca_id a = pm_id pm) (settled_attempt s now err) (cd_attempts d)"
  have k: "keyed ca_id (?t s)" for s using circuit_invD(2) [OF assms(1)] by (simp add: keyed_upd_where)
  have m: "\<exists>b \<in> set (cd_attempts d). ca_id b = ca_id a \<and> ca_provider b = ca_provider a \<and> ca_generation b = ca_generation a"
    if "a \<in> set (?t s)" for a s using that by (auto simp: set_upd_where split: if_splits)
  have ids: "(\<lambda>a. (ca_id a, ca_provider a)) ` set (?t s) = (\<lambda>a. (ca_id a, ca_provider a)) ` set (cd_attempts d)" for s
    by (rule upd_where_image) simp
  have att: "circuit_inv (d\<lparr>cd_attempts := ?t s\<rparr>)" for s
  proof (rule circuit_invI)
    show "\<exists>r. circuit_of (ca_provider a) (d\<lparr>cd_attempts := ?t s\<rparr>) = Some r \<and> ca_generation a \<le> cs_generation r \<and>
        (cs_state r = ''half_open'' \<and> ca_generation a = cs_generation r \<longrightarrow> cs_probe_id r = Some (ca_id a))"
      if "a \<in> set (cd_attempts (d\<lparr>cd_attempts := ?t s\<rparr>))" for a
      using m [of a s] that circuit_invD(3) [OF assms(1)] by fastforce
  next
    show "cs_state r = ''half_open'' \<and> (j, q) \<in> (\<lambda>a. (ca_id a, ca_provider a)) ` set (cd_attempts (d\<lparr>cd_attempts := ?t s\<rparr>))"
      if "circuit_of q (d\<lparr>cd_attempts := ?t s\<rparr>) = Some r" "cs_probe_id r = Some j" for q r j
      using that circuit_invD(4) [OF assms(1), of q r j] ids [of s] by simp
  qed (use k circuit_invD(1) [OF assms(1)] in simp_all)
  show ?thesis using assms(2)
  proof (cases rule: settle_cases)
    case (moved call st state until)
    have of: "circuit_of q d' = (if q = ca_provider call then Some (moved_circuit state until now st) else circuit_of q d)" for q
      using moved(3,9) by (simp add: circuit_of_def sel_upd_key0)
    show ?thesis
    proof (rule circuit_invI)
      show "keyed cs_provider (cd_states d')" using moved(9) circuit_invD(1) [OF assms(1)] by (simp add: keyed_upd_where)
      show "keyed ca_id (cd_attempts d')" using moved(9) k by simp
      show "\<exists>r. circuit_of (ca_provider a) d' = Some r \<and> ca_generation a \<le> cs_generation r \<and>
        (cs_state r = ''half_open'' \<and> ca_generation a = cs_generation r \<longrightarrow> cs_probe_id r = Some (ca_id a))"
        if a: "a \<in> set (cd_attempts d')" for a
      proof -
        obtain b where b: "b \<in> set (cd_attempts d)" "ca_id b = ca_id a" "ca_provider b = ca_provider a" "ca_generation b = ca_generation a"
          using m [of a outcome] a moved(9) by auto
        from circuit_invD(3) [OF assms(1) b(1)] b of moved(3,8) show ?thesis by (auto simp: moved_circuit_def)
      qed
      show "cs_state r = ''half_open'' \<and> (j, q) \<in> (\<lambda>a. (ca_id a, ca_provider a)) ` set (cd_attempts d')"
        if "circuit_of q d' = Some r" "cs_probe_id r = Some j" for q r j
        using that of circuit_invD(4) [OF assms(1), of q r j] moved(9) ids
        by (auto simp: moved_circuit_def split: if_splits)
    qed
  qed (use assms(1) att in simp_all)
qed

lemma circuit_step_inv: "circuit_inv d \<Longrightarrow> circuit_inv (circuit_step x d)"
proof (cases x)
  case (CAcquire p cfg i e u now)
  then show "circuit_inv d \<Longrightarrow> ?thesis" by (metis acquire_inv circuit_step.simps(1) prod.collapse)
next
  case (CFinish pm ok cfg err now)
  then show "circuit_inv d \<Longrightarrow> ?thesis" by (metis settle_inv circuit_finish_def circuit_step.simps(2) prod.collapse)
next
  case (CRelease pm reason now)
  then show "circuit_inv d \<Longrightarrow> ?thesis" by (metis settle_inv circuit_release_def circuit_step.simps(3) prod.collapse)
qed

lemma circuit_run_inv: "circuit_inv d \<Longrightarrow> circuit_inv (circuit_run ops d)"
  unfolding circuit_run_def by (induction ops arbitrary: d) (simp_all add: circuit_step_inv)


subsection \<open>A probe in flight\<close>

definition probe_held :: "string \<Rightarrow> string \<Rightarrow> rat \<Rightarrow> circuit_db \<Rightarrow> bool" where
  "probe_held p i e d \<longleftrightarrow> (\<exists>r a. circuit_of p d = Some r \<and> cs_state r = ''half_open'' \<and> cs_probe_id r = Some i \<and>
     cs_probe_expires r = Some e \<and> attempt_of i d = Some a \<and> ca_state a = ''pending'' \<and> ca_probe a \<and>
     ca_provider a = p \<and> ca_generation a = cs_generation r)"

lemma held_acquire:
  assumes "circuit_inv d" "probe_held p i e d" "now < e" "circuit_acquire q cfg aid ex uuid now d = (res, d')"
  shows "probe_held p i e d' \<and> (q = p \<longrightarrow> d' = d \<and>
     (attempt_key aid uuid \<noteq> i \<longrightarrow> (\<exists>err. res = Inl err)))"
proof -
  obtain r a where h: "circuit_of p d = Some r" "cs_state r = ''half_open''" "cs_probe_id r = Some i"
     "cs_probe_expires r = Some e" "attempt_of i d = Some a" "ca_state a = ''pending''" "ca_probe a"
     "ca_provider a = p" "ca_generation a = cs_generation r" using assms(2) unfolding probe_held_def by blast
  have ia: "a \<in> set (cd_attempts d)" "ca_id a = i" using h(5) by (auto simp: attempt_of_def dest: sel_by_SomeD)
  show ?thesis using assms(4)
  proof (cases rule: acquire_cases)
    case (refused err)
    then show ?thesis using assms(2) by blast
  next
    case (again prior st)
    have "ca_id prior = i" if "q = p"
    proof -
      have "prior \<in> set (cd_attempts d)" using again(2) by (auto simp: attempt_of_def dest: sel_by_SomeD)
      from circuit_invD(3) [OF assms(1) this] show ?thesis using again(1,3,5) h(1-3) that by auto
    qed
    then show ?thesis using again assms(2) sel_by_key [of ca_id _ "cd_attempts d" prior] by (auto simp: attempt_of_def)
  next
    case (closed st j)
    have "q \<noteq> p" using closed(3,4) h(1,2) by (auto simp: ensured_sel split: if_splits)
    moreover have "circuit_of p d' = Some r" "attempt_of i d' = Some a"
      using closed(2,6) h(1,5) ensured_sel [of p q now d] by (auto simp: circuit_of_def attempt_of_def sel_by_append)
    ultimately show ?thesis using h unfolding probe_held_def by blast
  next
    case (probe st j)
    have q: "q \<noteq> p" using probe(3,5) h assms(3) by (auto simp: secs_or_0_def)
    have "old \<noteq> i" if "cs_probe_id st = Some old" for old
      using circuit_invD(4) [OF assms(1) probe(3) that] q h(8) ia circuit_invD(2) [OF assms(1)]
      by (auto dest: keyed_inj)
    then have "sel_by ca_id i (displaced st now (cd_attempts d)) = Some a"
      using h(5) by (auto simp: displaced_def attempt_of_def sel_upd_key split: option.splits)
    then have "attempt_of i d' = Some a" using probe(7) by (simp add: attempt_of_def sel_by_append)
    moreover have "circuit_of p d' = Some r" using probe(7) q h(1) by (simp add: circuit_of_def sel_upd_key0)
    ultimately show ?thesis using q h unfolding probe_held_def by blast
  qed
qed

lemma held_settle:
  assumes "probe_held p i e d" "circuit_settle pm outcome cfg err now d = (res, d')" "pm_id pm \<noteq> i"
  shows "probe_held p i e d'"
proof -
  obtain r a where h: "circuit_of p d = Some r" "cs_state r = ''half_open''" "cs_probe_id r = Some i"
     "cs_probe_expires r = Some e" "attempt_of i d = Some a" "ca_state a = ''pending''" "ca_probe a"
     "ca_provider a = p" "ca_generation a = cs_generation r" using assms(1) unfolding probe_held_def by blast
  have a: "attempt_of i (d\<lparr>cd_attempts := upd_where (\<lambda>a. ca_id a = pm_id pm) (settled_attempt s now err) (cd_attempts d)\<rparr>) = Some a" for s
    using h(5) assms(3) by (simp add: attempt_of_def sel_upd_key0)
  show ?thesis using assms(2)
  proof (cases rule: settle_cases)
    case (stale call st)
    then show ?thesis using a h unfolding probe_held_def by fastforce
  next
    case (kept call st)
    then show ?thesis using a h unfolding probe_held_def by fastforce
  next
    case (moved call st state until)
    have "ca_id call = pm_id pm" using moved(1) by (auto simp: attempt_of_def dest: sel_by_key)
    then have "ca_provider call \<noteq> p" using moved(3,4) h(1-3) assms(3) by (auto simp: attempt_current_def)
    then have "circuit_of p d' = Some r" using moved(9) h(1) by (simp add: circuit_of_def sel_upd_key0)
    moreover have "attempt_of i d' = Some a" using moved(9) a by (simp add: attempt_of_def)
    ultimately show ?thesis using h unfolding probe_held_def by blast
  qed (use assms(1) in simp)
qed

lemma held_step:
  assumes "circuit_inv d" "probe_held p i e d" "op_time x < e" "\<not> op_settles i x"
  shows "probe_held p i e (circuit_step x d)"
proof (cases x)
  case (CAcquire q cfg aid ex u now)
  then show ?thesis
    using assms held_acquire [of d p i e now q cfg aid ex u] by (cases "circuit_acquire q cfg aid ex u now d") auto
next
  case (CFinish pm ok cfg err now)
  then show ?thesis using assms held_settle [OF assms(2), of pm _ cfg err now]
    by (simp add: circuit_finish_def) (metis prod.collapse)
next
  case (CRelease pm reason now)
  then show ?thesis using assms held_settle [OF assms(2), of pm _ no_circuit_config "Some reason" now]
    by (simp add: circuit_release_def) (metis prod.collapse)
qed

lemma held_run:
  assumes "circuit_inv d" "probe_held p i e d" "\<And>x. x \<in> set ops \<Longrightarrow> op_time x < e \<and> \<not> op_settles i x"
  shows "probe_held p i e (circuit_run ops d)"
  using assms
proof (induction ops arbitrary: d)
  case (Cons x ops)
  have "probe_held p i e (circuit_step x d)" using Cons.prems held_step by simp
  then show ?case using Cons circuit_step_inv by (simp add: circuit_run_def)
qed (simp add: circuit_run_def)

lemma positive_or_pos: "0 < dflt \<Longrightarrow> 0 < positive_or v dflt"
  by (simp add: positive_or_def split: option.splits)

lemma acquired_probe_held:
  assumes "circuit_inv d" "circuit_acquire p cfg aid ex uuid now d = (Inr pm, d')" "pm_probe pm" "0 \<le> now"
  obtains e where "probe_held p (pm_id pm) e d'" "now < e" "pm_provider pm = p"
    "\<exists>a. attempt_of (pm_id pm) d' = Some a \<and> ca_generation a = pm_generation pm"
    "attempt_of (pm_id pm) d = None \<longrightarrow> e = now + positive_or (cc_probe_lease cfg) 120"
  using assms(2)
proof (cases rule: acquire_cases)
  case (again prior st)
  have p: "ca_probe prior" using again(8) assms(3) by simp
  then have st: "cs_probe_id st = Some (ca_id prior)" "secs_or_0 (cs_probe_expires st) > now"
    using again(6) by (simp_all add: permit_current_def)
  then have of: "circuit_of p d = Some st" using again(1) by auto
  obtain e where e: "cs_probe_expires st = Some e" "now < e"
    using st(2) assms(4) by (cases "cs_probe_expires st") (auto simp: secs_or_0_def)
  have id: "attempt_of (ca_id prior) d = Some prior" using again(2) by (metis attempt_of_def sel_by_key)
  have "probe_held p (ca_id prior) e d"
    using of circuit_invD(4) [OF assms(1) of st(1)] st(1) e(1) id again(3-5) p unfolding probe_held_def by blast
  then show ?thesis using that [of e] again(7,8) e id by simp
next
  case (probe st i)
  let ?e = "now + positive_or (cc_probe_lease cfg) 120"
  have a: "attempt_of i d' = Some (new_attempt i p (cs_generation st + 1) True now)"
  proof -
    have "i \<notin> ca_id ` set (cd_attempts d)" using probe(2) by (simp add: attempt_of_def sel_by_None_iff)
    then have "sel_by ca_id i (displaced st now (cd_attempts d)) = None"
      using displaced_frame(1) [of st now "cd_attempts d"] by (simp add: sel_by_None_iff flip: set_map)
    then show ?thesis using probe(7) by (simp add: attempt_of_def sel_by_append)
  qed
  have "circuit_of p d' = Some (probing_row (cs_generation st + 1) i ?e now st)"
    using probe(3,7) by (simp add: circuit_of_def sel_upd_key0)
  then have "probe_held p i ?e d'" using a unfolding probe_held_def by (simp add: probing_row_def)
  then show ?thesis using that [of ?e] probe(6) a positive_or_pos [of 120 "cc_probe_lease cfg"] by simp
qed (use assms(3) in simp_all)

lemma held_finish:
  assumes "probe_held p (pm_id pm) e d" "t < e" "pm_provider pm = p"
    "attempt_of (pm_id pm) d = Some a" "ca_generation a = pm_generation pm"
  shows "\<exists>d'. circuit_finish pm True cfg err t d = (Inr True, d') \<and>
    circuit_snapshot p now d' = \<lparr>cv_state = ''closed'', cv_allows = True, cv_generation = pm_generation pm + 1,
      cv_probe_in_flight = False, cv_retry_after = max 0 (- now), cv_reason = ''closed''\<rparr>"
proof -
  obtain r where h: "circuit_of p d = Some r" "cs_state r = ''half_open''" "cs_probe_id r = Some (pm_id pm)"
     "cs_probe_expires r = Some e" "ca_state a = ''pending''" "ca_probe a"
     "ca_provider a = p" "ca_generation a = cs_generation r" using assms(1,4) unfolding probe_held_def by auto
  have id: "ca_id a = pm_id pm" using assms(4) by (auto simp: attempt_of_def dest: sel_by_key)
  have "attempt_current r t a" using h id assms(2) by (simp add: attempt_current_def secs_or_0_def)
  then have "circuit_finish pm True cfg err t d = (Inr True,
      d\<lparr>cd_attempts := upd_where (\<lambda>a. ca_id a = pm_id pm) (settled_attempt ''success'' t err) (cd_attempts d),
        cd_states := upd_where (\<lambda>r. cs_provider r = p) (moved_circuit ''closed'' None t) (cd_states d)\<rparr>)"
    using h id assms by (simp add: circuit_finish_def circuit_settle_def Let_def)
  then show ?thesis using h(1,8) assms(5)
    by (simp add: circuit_snapshot_def circuit_status_def circuit_of_def sel_upd_key0 moved_circuit_def secs_or_0_def Let_def)
qed

lemma held_snapshot: "probe_held p i e d \<Longrightarrow> t < e \<Longrightarrow> cv_probe_in_flight (circuit_snapshot p t d)"
  by (auto simp: probe_held_def circuit_snapshot_def circuit_status_def secs_or_0_def Let_def)

subsection \<open>Attempts and generations over time\<close>

definition same_permit :: "attempt_row \<Rightarrow> attempt_row \<Rightarrow> bool" where
  "same_permit a b \<longleftrightarrow> ca_provider b = ca_provider a \<and> ca_generation b = ca_generation a \<and> ca_probe b = ca_probe a \<and>
     (ca_state a \<noteq> ''pending'' \<longrightarrow> b = a)"

lemma same_permit_refl [simp]: "same_permit a a"
  by (simp add: same_permit_def)

lemma same_permit_trans: "same_permit a b \<Longrightarrow> same_permit b c \<Longrightarrow> same_permit a c"
  by (auto simp: same_permit_def)

lemma attempt_stays_acquire:
  assumes "circuit_acquire p cfg aid ex uuid now d = (res, d')" "attempt_of i d = Some a"
  shows "\<exists>b. attempt_of i d' = Some b \<and> same_permit a b"
  using assms(1)
proof (cases rule: acquire_cases)
  case (probe st j)
  have "\<exists>b. sel_by ca_id i (displaced st now (cd_attempts d)) = Some b \<and> same_permit a b"
    using assms(2) by (auto simp: displaced_def attempt_of_def sel_upd_key same_permit_def expired_probe_def split: option.splits)
  then show ?thesis using probe(7) by (auto simp: attempt_of_def sel_by_append)
qed (use assms(2) in \<open>auto simp: attempt_of_def sel_by_append\<close>)

lemma attempt_stays_settle:
  assumes "circuit_settle pm outcome cfg err now d = (res, d')" "attempt_of i d = Some a"
  shows "\<exists>b. attempt_of i d' = Some b \<and> same_permit a b"
proof -
  have "\<exists>b. sel_by ca_id i (upd_where (\<lambda>a. ca_id a = pm_id pm) (settled_attempt s now err) (cd_attempts d)) = Some b \<and> same_permit a b"
    if "attempt_of (pm_id pm) d = Some call" "ca_state call = ''pending''" for call s
    using that assms(2) by (auto simp: attempt_of_def sel_upd_key0 same_permit_def settled_attempt_def)
  note u = this
  show ?thesis using assms(1)
  proof (cases rule: settle_cases)
    case (stale call st)
    then show ?thesis using u [of call "''stale''"] by (simp add: attempt_of_def)
  next
    case (kept call st)
    then show ?thesis using u [of call outcome] by (simp add: attempt_of_def)
  next
    case (moved call st state until)
    then show ?thesis using u [of call outcome] by (simp add: attempt_of_def)
  qed (use assms(2) in simp)
qed

lemma generation_grows_upd:
  assumes "circuit_of q d = Some r" "\<And>r. cs_provider (f r) = cs_provider r"
    "\<And>r. circuit_of p d = Some r \<Longrightarrow> cs_generation r \<le> cs_generation (f r)"
  shows "\<exists>r'. sel_by cs_provider q (upd_where (\<lambda>r. cs_provider r = p) f (cd_states d)) = Some r' \<and>
    cs_generation r \<le> cs_generation r'"
  using assms(1,3) unfolding circuit_of_def sel_upd_key0 [of cs_provider, OF assms(2)] by auto

lemma generation_grows_acquire:
  assumes "circuit_acquire p cfg aid ex uuid now d = (res, d')" "circuit_of q d = Some r"
  shows "\<exists>r'. circuit_of q d' = Some r' \<and> cs_generation r \<le> cs_generation r'"
  using assms(1)
proof (cases rule: acquire_cases)
  case (closed st i)
  have "sel_by cs_provider q (ensured_states p now d) = Some r" using assms(2) by (auto simp: ensured_sel)
  then show ?thesis using closed(6) by (simp add: circuit_of_def)
next
  case (probe st i)
  show ?thesis
    using generation_grows_upd [OF assms(2), of "probing_row (cs_generation st + 1) i (now + positive_or (cc_probe_lease cfg) 120) now" p]
      probe(3,7) by (simp add: circuit_of_def probing_row_def)
qed (use assms(2) in simp_all)

lemma generation_grows_settle:
  assumes "circuit_settle pm outcome cfg err now d = (res, d')" "circuit_of q d = Some r"
  shows "\<exists>r'. circuit_of q d' = Some r' \<and> cs_generation r \<le> cs_generation r'"
  using assms(1)
proof (cases rule: settle_cases)
  case (moved call st state until)
  show ?thesis using generation_grows_upd [OF assms(2), of "moved_circuit state until now" "ca_provider call"] moved(9)
    by (simp add: circuit_of_def moved_circuit_def)
qed (use assms(2) in simp_all)

lemma circuit_step_cases:
  obtains (acq) p cfg aid ex uuid now res where "circuit_acquire p cfg aid ex uuid now d = (res, circuit_step x d)"
  | (settle) pm outcome cfg err now res where "circuit_settle pm outcome cfg err now d = (res, circuit_step x d)"
proof (cases x)
  case (CAcquire p cfg aid ex uuid now)
  then show thesis using acq [of p cfg aid ex uuid now] by (cases "circuit_acquire p cfg aid ex uuid now d") auto
next
  case (CFinish pm ok cfg err now)
  then show thesis using settle [of pm _ cfg err now "fst (circuit_finish pm ok cfg err now d)"]
    by (simp add: circuit_finish_def prod_eq_iff)
next
  case (CRelease pm reason now)
  then show thesis using settle [of pm "''released''" no_circuit_config "Some reason" now "fst (circuit_release pm reason now d)"]
    by (simp add: circuit_release_def prod_eq_iff)
qed

lemma attempt_stays:
  assumes "attempt_of i d = Some a"
  shows "\<exists>b. attempt_of i (circuit_run ops d) = Some b \<and> same_permit a b"
  using assms
proof (induction ops arbitrary: d a)
  case (Cons x ops)
  obtain b where b: "attempt_of i (circuit_step x d) = Some b" "same_permit a b"
    using Cons.prems attempt_stays_acquire attempt_stays_settle
    by (cases rule: circuit_step_cases [of d x]) meson+
  from Cons.IH [OF b(1)] b(2) show ?case by (auto simp: circuit_run_def intro: same_permit_trans)
qed (simp add: circuit_run_def)

lemma generation_grows:
  assumes "circuit_of q d = Some r"
  shows "\<exists>r'. circuit_of q (circuit_run ops d) = Some r' \<and> cs_generation r \<le> cs_generation r'"
  using assms
proof (induction ops arbitrary: d r)
  case (Cons x ops)
  obtain r1 where r1: "circuit_of q (circuit_step x d) = Some r1" "cs_generation r \<le> cs_generation r1"
    using Cons.prems generation_grows_acquire generation_grows_settle
    by (cases rule: circuit_step_cases [of d x]) meson+
  from Cons.IH [OF r1(1)] r1(2) show ?case by (fastforce simp: circuit_run_def)
qed (simp add: circuit_run_def)

text \<open>A permit is over once its attempt has been settled or its circuit has moved on.\<close>

definition permit_over :: "string \<Rightarrow> circuit_db \<Rightarrow> bool" where
  "permit_over i d \<longleftrightarrow> (\<exists>a. attempt_of i d = Some a \<and> (ca_state a \<noteq> ''pending'' \<or>
     (\<exists>r. circuit_of (ca_provider a) d = Some r \<and> ca_generation a < cs_generation r)))"

lemma permit_over_run: "permit_over i d \<Longrightarrow> permit_over i (circuit_run ops d)"
proof -
  assume "permit_over i d"
  then obtain a where a: "attempt_of i d = Some a" "ca_state a \<noteq> ''pending'' \<or>
     (\<exists>r. circuit_of (ca_provider a) d = Some r \<and> ca_generation a < cs_generation r)" unfolding permit_over_def by blast
  obtain b where b: "attempt_of i (circuit_run ops d) = Some b" "same_permit a b" using attempt_stays [OF a(1)] by blast
  from a(2) show ?thesis
  proof (elim disjE exE conjE)
    assume "ca_state a \<noteq> ''pending''"
    then show ?thesis using b by (auto simp: same_permit_def permit_over_def)
  next
    fix r assume "circuit_of (ca_provider a) d = Some r" "ca_generation a < cs_generation r"
    then show ?thesis using b generation_grows [of "ca_provider a" d r ops] by (auto simp: same_permit_def permit_over_def)
  qed
qed

lemma permit_over_settle:
  assumes "permit_over (pm_id pm) d" "circuit_settle pm outcome cfg err now d = (res, d')"
  shows "res \<noteq> Inr True \<and> cd_states d' = cd_states d"
  using assms(2)
proof (cases rule: settle_cases)
  case (kept call st)
  then show ?thesis using assms(1) by (auto simp: permit_over_def attempt_current_def)
next
  case (moved call st state until)
  then show ?thesis using assms(1) by (auto simp: permit_over_def attempt_current_def)
qed simp_all

lemma settled_over:
  assumes "circuit_settle pm outcome cfg err now d = (Inr b, d')" "outcome \<noteq> ''pending''"
  shows "permit_over (pm_id pm) d'"
proof -
  have u: "permit_over (pm_id pm) d'" if "attempt_of (pm_id pm) d = Some call" "s \<noteq> ''pending''"
    "cd_attempts d' = upd_where (\<lambda>a. ca_id a = pm_id pm) (settled_attempt s now err) (cd_attempts d)" for s call
    using that by (auto simp: permit_over_def attempt_of_def sel_upd_key0 settled_attempt_def)
  show ?thesis using assms(1)
  proof (cases rule: settle_cases)
    case unchanged
    then show ?thesis using assms(1) unfolding permit_over_def by blast
  next
    case (stale call st)
    then show ?thesis using u [of call "''stale''"] by simp
  next
    case (kept call st)
    then show ?thesis using u [of call outcome] assms(2) by simp
  next
    case (moved call st state until)
    then show ?thesis using u [of call outcome] assms(2) by simp
  qed
qed


subsection \<open>Properties\<close>

text \<open>A half-open circuit admits one probe at a time. Once a probe has been admitted, then
  whatever other invocations acquire, finish or release until its lease runs out: planning shows
  the probe in flight, nobody else gets a permit for that provider (not even by asking for an
  explicit probe) and asking changes nothing, and the probe's own success closes the circuit. The
  clock counts from 1970, so it is not negative.\<close>

theorem probe_is_exclusive:
  assumes "circuit_acquire p cfg aid ex uuid now (circuit_run hist no_circuits) = (Inr pm, d1)"
    and "pm_probe pm" and "0 \<le> now"
  shows "\<exists>e. now < e \<and>
     (attempt_of (pm_id pm) (circuit_run hist no_circuits) = None \<longrightarrow> e = now + positive_or (cc_probe_lease cfg) 120) \<and>
     (\<forall>ops t. (\<forall>x \<in> set ops. op_time x < e \<and> \<not> op_settles (pm_id pm) x) \<and> t < e \<longrightarrow>
        cv_probe_in_flight (circuit_snapshot p t (circuit_run ops d1)) \<and>
        (\<forall>cfg' aid' ex' uuid'. attempt_key aid' uuid' \<noteq> pm_id pm \<longrightarrow>
           (\<exists>err. circuit_acquire p cfg' aid' ex' uuid' t (circuit_run ops d1) = (Inl err, circuit_run ops d1))) \<and>
        (\<forall>cfg' err. \<exists>d2. circuit_finish pm True cfg' err t (circuit_run ops d1) = (Inr True, d2) \<and>
           cv_state (circuit_snapshot p t d2) = ''closed''))"
proof -
  let ?d = "circuit_run hist no_circuits"
  have inv: "circuit_inv ?d" by (rule circuit_run_inv) simp
  obtain e a where e: "probe_held p (pm_id pm) e d1" "now < e" "pm_provider pm = p"
    "attempt_of (pm_id pm) d1 = Some a" "ca_generation a = pm_generation pm"
    "attempt_of (pm_id pm) ?d = None \<longrightarrow> e = now + positive_or (cc_probe_lease cfg) 120"
    using acquired_probe_held [OF inv assms] by metis
  have inv1: "circuit_inv d1" using inv assms(1) by (rule acquire_inv)
  have "cv_probe_in_flight (circuit_snapshot p t (circuit_run ops d1)) \<and>
        (\<forall>cfg' aid' ex' uuid'. attempt_key aid' uuid' \<noteq> pm_id pm \<longrightarrow>
           (\<exists>err. circuit_acquire p cfg' aid' ex' uuid' t (circuit_run ops d1) = (Inl err, circuit_run ops d1))) \<and>
        (\<forall>cfg' err. \<exists>d2. circuit_finish pm True cfg' err t (circuit_run ops d1) = (Inr True, d2) \<and>
           cv_state (circuit_snapshot p t d2) = ''closed'')"
    if ops: "\<forall>x \<in> set ops. op_time x < e \<and> \<not> op_settles (pm_id pm) x" and t: "t < e" for ops t
  proof (intro conjI allI impI)
    let ?d2 = "circuit_run ops d1"
    have held: "probe_held p (pm_id pm) e ?d2" using held_run [OF inv1 e(1)] ops by blast
    have inv2: "circuit_inv ?d2" using inv1 by (rule circuit_run_inv)
    show "cv_probe_in_flight (circuit_snapshot p t ?d2)" using held t by (rule held_snapshot)
    show "\<exists>err. circuit_acquire p cfg' aid' ex' uuid' t ?d2 = (Inl err, ?d2)"
      if "attempt_key aid' uuid' \<noteq> pm_id pm" for cfg' aid' ex' uuid'
    proof (cases "circuit_acquire p cfg' aid' ex' uuid' t ?d2")
      case (Pair res d3)
      from held_acquire [OF inv2 held t this] that Pair show ?thesis by auto
    qed
    obtain b where "attempt_of (pm_id pm) ?d2 = Some b" "ca_generation b = pm_generation pm"
      using attempt_stays [OF e(4), of ops] e(5) by (auto simp: same_permit_def)
    from held_finish [OF held t e(3) this, where now = t]
    show "\<exists>d2. circuit_finish pm True cfg' err t ?d2 = (Inr True, d2) \<and> cv_state (circuit_snapshot p t d2) = ''closed''"
      for cfg' err by fastforce
  qed
  note core = this
  show ?thesis
  proof (intro exI [of _ e] conjI allI)
    show "now < e" by (rule e(2))
    show "attempt_of (pm_id pm) ?d = None \<longrightarrow> e = now + positive_or (cc_probe_lease cfg) 120" by (rule e(6))
  qed (rule impI, elim conjE, rule core, assumption+)
qed

definition trip_config :: circuit_config where
  "trip_config = no_circuit_config\<lparr>cc_failure_threshold := Some 1, cc_error_rate := Some (1/2)\<rparr>"

definition tripped :: "circuit_op list" where
  "tripped = [CAcquire ''p'' trip_config (Some ''a'') False ''u'' 10,
     CFinish \<lparr>pm_id = ''a'', pm_provider = ''p'', pm_generation = 0, pm_probe = False\<rparr> False trip_config None 20]"

theorem probe_is_exclusive_witness:
  "\<exists>d1 e. circuit_acquire ''p'' trip_config (Some ''b'') False ''u'' 90 (circuit_run tripped no_circuits) =
       (Inr \<lparr>pm_id = ''b'', pm_provider = ''p'', pm_generation = 2, pm_probe = True\<rparr>, d1) \<and> 90 < (e::rat) \<and>
     (\<exists>err. circuit_acquire ''p'' trip_config (Some ''c'') True ''u'' 95 d1 = (Inl err, d1))"
proof -
  let ?pm = "\<lparr>pm_id = ''b'', pm_provider = ''p'', pm_generation = 2, pm_probe = True\<rparr>"
  have "fst (circuit_acquire ''p'' trip_config (Some ''b'') False ''u'' 90 (circuit_run tripped no_circuits)) = Inr ?pm"
    by code_simp
  then obtain d1 where d1: "circuit_acquire ''p'' trip_config (Some ''b'') False ''u'' 90 (circuit_run tripped no_circuits) = (Inr ?pm, d1)"
    by (cases "circuit_acquire ''p'' trip_config (Some ''b'') False ''u'' 90 (circuit_run tripped no_circuits)") simp
  have c: "pm_probe ?pm" "(0::rat) \<le> 90" "attempt_of (pm_id ?pm) (circuit_run tripped no_circuits) = None"
    "attempt_key (Some ''c'') ''u'' \<noteq> pm_id ?pm" by (simp, simp, code_simp, code_simp)
  from probe_is_exclusive [OF d1 c(1,2)] show ?thesis
  proof (elim exE conjE, goal_cases)
    case (1 e)
    have "e = 90 + positive_or (cc_probe_lease trip_config) 120" using 1(2) c(3) by (rule mp)
    then have "95 < e" by (simp add: trip_config_def no_circuit_config_def positive_or_def)
    from 1(3) [THEN spec, of "[]", THEN spec, of 95] this c(4)
    have "\<exists>err. circuit_acquire ''p'' trip_config (Some ''c'') True ''u'' 95 (circuit_run [] d1) = (Inl err, circuit_run [] d1)"
      by (simp only: list.set ball_simps simp_thms)
    then show ?case using d1 1(1) by (auto simp: circuit_run_def)
  qed
qed

text \<open>Admission of an attempt not seen before, as a function of the snapshot.\<close>

lemma acquire_fresh:
  assumes "py_strip p \<noteq> []" "attempt_of (attempt_key aid uuid) d = None"
  shows "fst (circuit_acquire p cfg aid ex uuid now d) =
     (let v = circuit_snapshot p now d
      in if \<not> cv_allows v \<and> (\<not> ex \<or> cv_probe_in_flight v) then Inl (ProviderCircuitOpen (max 0 (cv_retry_after v)) (cv_reason v))
         else Inr \<lparr>pm_id = attempt_key aid uuid, pm_provider = p,
                pm_generation = cv_generation v + (if cv_state v = ''closed'' then 0 else 1),
                pm_probe = (cv_state v \<noteq> ''closed'')\<rparr>)"
proof (cases "circuit_of p d")
  case None
  then show ?thesis using assms
    by (simp add: circuit_acquire_def ensured_sel circuit_snapshot_def circuit_status_def Let_def)
next
  case (Some st)
  then show ?thesis using assms
    by (auto simp: circuit_acquire_def ensured_sel circuit_snapshot_def circuit_status_def Let_def)
qed

lemma acquire_refused_same: "circuit_acquire p cfg aid ex uuid now d = (Inl err, d') \<Longrightarrow> d' = d"
  by (erule acquire_cases) simp_all

lemma snapshot_refusal:
  assumes "\<not> cv_allows (circuit_snapshot p now d)"
  shows "0 < cv_retry_after (circuit_snapshot p now d)"
    and "cv_reason (circuit_snapshot p now d) \<in> {''open'', ''probe_in_flight''}"
    and "cv_probe_in_flight (circuit_snapshot p now d) \<longleftrightarrow> cv_reason (circuit_snapshot p now d) = ''probe_in_flight''"
    and "now \<le> t \<Longrightarrow> t < now + cv_retry_after (circuit_snapshot p now d) \<Longrightarrow>
      \<not> cv_allows (circuit_snapshot p t d) \<and> cv_reason (circuit_snapshot p t d) = cv_reason (circuit_snapshot p now d) \<and>
      cv_retry_after (circuit_snapshot p t d) = now + cv_retry_after (circuit_snapshot p now d) - t"
    and "cv_reason (circuit_snapshot p now d) = ''open'' \<Longrightarrow> now + cv_retry_after (circuit_snapshot p now d) \<le> t \<Longrightarrow>
      cv_allows (circuit_snapshot p t d)"
proof -
  obtain r where r: "circuit_of p d = Some r" "cs_state r \<noteq> ''closed''"
    using assms by (cases "circuit_of p d") (auto simp: circuit_snapshot_def circuit_status_def Let_def)
  let ?busy = "cs_state r = ''half_open'' \<and> secs_or_0 (cs_probe_expires r) > now"
  note defs = circuit_snapshot_def circuit_status_def Let_def
  consider (busy) "cs_state r = ''half_open''" "secs_or_0 (cs_probe_expires r) > now"
    | (cooling) "\<not> ?busy" "secs_or_0 (cs_open_until r) > now"
    using assms r by (fastforce simp: defs)
  then have "0 < cv_retry_after (circuit_snapshot p now d) \<and>
    cv_reason (circuit_snapshot p now d) \<in> {''open'', ''probe_in_flight''} \<and>
    (cv_probe_in_flight (circuit_snapshot p now d) \<longleftrightarrow> cv_reason (circuit_snapshot p now d) = ''probe_in_flight'') \<and>
    (now \<le> t \<and> t < now + cv_retry_after (circuit_snapshot p now d) \<longrightarrow>
      \<not> cv_allows (circuit_snapshot p t d) \<and> cv_reason (circuit_snapshot p t d) = cv_reason (circuit_snapshot p now d) \<and>
      cv_retry_after (circuit_snapshot p t d) = now + cv_retry_after (circuit_snapshot p now d) - t) \<and>
    (cv_reason (circuit_snapshot p now d) = ''open'' \<and> now + cv_retry_after (circuit_snapshot p now d) \<le> t \<longrightarrow>
      cv_allows (circuit_snapshot p t d))"
  proof cases
    case busy
    then show ?thesis using r by (simp add: defs)
  next
    case cooling
    then show ?thesis using r by (auto simp: defs)
  qed
  then show "0 < cv_retry_after (circuit_snapshot p now d)"
    "cv_reason (circuit_snapshot p now d) \<in> {''open'', ''probe_in_flight''}"
    "cv_probe_in_flight (circuit_snapshot p now d) \<longleftrightarrow> cv_reason (circuit_snapshot p now d) = ''probe_in_flight''"
    "now \<le> t \<Longrightarrow> t < now + cv_retry_after (circuit_snapshot p now d) \<Longrightarrow>
      \<not> cv_allows (circuit_snapshot p t d) \<and> cv_reason (circuit_snapshot p t d) = cv_reason (circuit_snapshot p now d) \<and>
      cv_retry_after (circuit_snapshot p t d) = now + cv_retry_after (circuit_snapshot p now d) - t"
    "cv_reason (circuit_snapshot p now d) = ''open'' \<Longrightarrow> now + cv_retry_after (circuit_snapshot p now d) \<le> t \<Longrightarrow>
      cv_allows (circuit_snapshot p t d)" by blast+
qed

text \<open>Planning and admission agree, and a refusal says when to come back. An attempt not seen
  before is admitted exactly when the snapshot allows it, or when it asks for an explicit probe
  and none is in flight. A refusal changes nothing and names a positive delay: until the delay
  has passed an ordinary attempt stays refused with the remaining delay, and when the circuit was
  open it is admitted from then on (after a probe in flight it may still be open).\<close>

theorem refusal_says_when:
  assumes "py_strip p \<noteq> []" and "attempt_of (attempt_key aid uuid) d = None"
  shows "((\<exists>pm. fst (circuit_acquire p cfg aid ex uuid now d) = Inr pm) \<longleftrightarrow>
           cv_allows (circuit_snapshot p now d) \<or> (ex \<and> \<not> cv_probe_in_flight (circuit_snapshot p now d))) \<and>
    (\<forall>err d'. circuit_acquire p cfg aid ex uuid now d = (Inl err, d') \<longrightarrow> d' = d \<and>
       (\<exists>r reason. err = ProviderCircuitOpen r reason \<and> 0 < r \<and> reason \<in> {''open'', ''probe_in_flight''} \<and>
          (\<forall>t. now \<le> t \<and> t < now + r \<longrightarrow>
             circuit_acquire p cfg aid False uuid t d = (Inl (ProviderCircuitOpen (now + r - t) reason), d)) \<and>
          (reason = ''open'' \<longrightarrow> (\<forall>t. now + r \<le> t \<longrightarrow> (\<exists>pm. fst (circuit_acquire p cfg aid False uuid t d) = Inr pm)))))"
proof (intro conjI allI impI)
  note fresh = acquire_fresh [OF assms, of cfg]
  show "(\<exists>pm. fst (circuit_acquire p cfg aid ex uuid now d) = Inr pm) \<longleftrightarrow>
           cv_allows (circuit_snapshot p now d) \<or> (ex \<and> \<not> cv_probe_in_flight (circuit_snapshot p now d))"
    unfolding fresh Let_def by auto
  fix err d' assume a: "circuit_acquire p cfg aid ex uuid now d = (Inl err, d')"
  let ?v = "circuit_snapshot p now d"
  show "d' = d" using a by (rule acquire_refused_same)
  have v: "\<not> cv_allows ?v" "err = ProviderCircuitOpen (max 0 (cv_retry_after ?v)) (cv_reason ?v)"
    using fresh [of ex now] a by (simp_all add: Let_def split: if_splits)
  note sr = snapshot_refusal [OF v(1)]
  show "\<exists>r reason. err = ProviderCircuitOpen r reason \<and> 0 < r \<and> reason \<in> {''open'', ''probe_in_flight''} \<and>
          (\<forall>t. now \<le> t \<and> t < now + r \<longrightarrow>
             circuit_acquire p cfg aid False uuid t d = (Inl (ProviderCircuitOpen (now + r - t) reason), d)) \<and>
          (reason = ''open'' \<longrightarrow> (\<forall>t. now + r \<le> t \<longrightarrow> (\<exists>pm. fst (circuit_acquire p cfg aid False uuid t d) = Inr pm)))"
  proof (intro exI [of _ "cv_retry_after ?v"] exI [of _ "cv_reason ?v"] conjI allI impI)
    show "err = ProviderCircuitOpen (cv_retry_after ?v) (cv_reason ?v)" using v(2) sr(1) by simp
    show "circuit_acquire p cfg aid False uuid t d = (Inl (ProviderCircuitOpen (now + cv_retry_after ?v - t) (cv_reason ?v)), d)"
      if t: "now \<le> t \<and> t < now + cv_retry_after ?v" for t
    proof -
      have "fst (circuit_acquire p cfg aid False uuid t d) = Inl (ProviderCircuitOpen (now + cv_retry_after ?v - t) (cv_reason ?v))"
        unfolding fresh Let_def using sr(4) [of t] t by simp
      then show ?thesis using acquire_refused_same by (metis prod.collapse)
    qed
    show "\<exists>pm. fst (circuit_acquire p cfg aid False uuid t d) = Inr pm"
      if "cv_reason ?v = ''open''" "now + cv_retry_after ?v \<le> t" for t
      unfolding fresh Let_def using sr(5) [of t] that by auto
  qed (use sr(1,2) in blast)+
qed

theorem refusal_says_when_witness:
  "\<exists>err. circuit_acquire ''p'' trip_config (Some ''b'') False ''u'' 30 (circuit_run tripped no_circuits) =
      (Inl err, circuit_run tripped no_circuits) \<and>
    (\<exists>r. err = ProviderCircuitOpen r ''open'' \<and> (\<exists>pm. fst (circuit_acquire ''p'' trip_config (Some ''b'') False ''u'' (30 + r) (circuit_run tripped no_circuits)) = Inr pm))"
proof -
  let ?d = "circuit_run tripped no_circuits"
  have c: "py_strip ''p'' \<noteq> []" "attempt_of (attempt_key (Some ''b'') ''u'') ?d = None"
    "fst (circuit_acquire ''p'' trip_config (Some ''b'') False ''u'' 30 ?d) = Inl (ProviderCircuitOpen 50 ''open'')"
    by (code_simp, code_simp, code_simp)
  then obtain d' where d': "circuit_acquire ''p'' trip_config (Some ''b'') False ''u'' 30 ?d = (Inl (ProviderCircuitOpen 50 ''open''), d')"
    by (cases "circuit_acquire ''p'' trip_config (Some ''b'') False ''u'' 30 ?d") simp
  from refusal_says_when [OF c(1,2), THEN conjunct2, rule_format, OF d'] d' show ?thesis by fastforce
qed

text \<open>C34: a permit acts at most once, and not at all after its circuit has moved on. Once a
  settlement of a permit has answered, whatever happens afterwards no settlement of it succeeds
  again or touches a circuit; the same holds from the moment the circuit's generation has passed
  the permit's, so a late answer of a superseded call cannot open or close the circuit.\<close>

theorem permit_acts_once:
  assumes "(\<exists>outcome cfg err now b d0. outcome \<noteq> ''pending'' \<and> circuit_settle pm outcome cfg err now d0 = (Inr b, d)) \<or>
     (\<exists>a r. attempt_of (pm_id pm) d = Some a \<and> circuit_of (ca_provider a) d = Some r \<and> ca_generation a < cs_generation r)"
  shows "fst (circuit_finish pm ok cfg err now (circuit_run ops d)) \<noteq> Inr True \<and>
    cd_states (snd (circuit_finish pm ok cfg err now (circuit_run ops d))) = cd_states (circuit_run ops d) \<and>
    fst (circuit_release pm reason now (circuit_run ops d)) \<noteq> Inr True \<and>
    cd_states (snd (circuit_release pm reason now (circuit_run ops d))) = cd_states (circuit_run ops d)"
proof -
  have "permit_over (pm_id pm) d" using assms settled_over by (fastforce simp: permit_over_def)
  then have "permit_over (pm_id pm) (circuit_run ops d)" by (rule permit_over_run)
  from permit_over_settle [OF this] show ?thesis
    by (simp add: circuit_finish_def circuit_release_def) (metis prod.collapse)
qed

theorem permit_acts_once_witness:
  "fst (circuit_finish \<lparr>pm_id = ''a'', pm_provider = ''p'', pm_generation = 0, pm_probe = False\<rparr> True trip_config None 40
     (circuit_run [CAcquire ''p'' trip_config (Some ''b'') True ''u'' 30] (circuit_run tripped no_circuits))) \<noteq> Inr True"
proof -
  let ?pm = "\<lparr>pm_id = ''a'', pm_provider = ''p'', pm_generation = 0, pm_probe = False\<rparr>"
  let ?a = "the (attempt_of ''a'' (circuit_run tripped no_circuits))"
  let ?r = "the (circuit_of ''p'' (circuit_run tripped no_circuits))"
  have "attempt_of (pm_id ?pm) (circuit_run tripped no_circuits) = Some ?a \<and>
     circuit_of (ca_provider ?a) (circuit_run tripped no_circuits) = Some ?r \<and> ca_generation ?a < cs_generation ?r"
    by (intro conjI; code_simp)
  then have h: "(\<exists>outcome cfg err now b d0. outcome \<noteq> ''pending'' \<and> circuit_settle ?pm outcome cfg err now d0 = (Inr b, circuit_run tripped no_circuits)) \<or>
     (\<exists>a r. attempt_of (pm_id ?pm) (circuit_run tripped no_circuits) = Some a \<and> circuit_of (ca_provider a) (circuit_run tripped no_circuits) = Some r \<and> ca_generation a < cs_generation r)"
    by blast
  from permit_acts_once [OF h] show ?thesis by blast
qed

end
