(* ===== verification/BudgetHistory.thy ===== *)
theory BudgetHistory
  imports ModelAdmission CircuitHistory
begin

text \<open>
  Histories of the model budget and the properties of core/model_budget_service.py together with
  the admission of core/model_telemetry.py: the limits bound what is spent and held, the ledger
  and the reservations tell the same story, and an admission leaves nothing behind when it fails.
\<close>

subsection \<open>Sums over a table\<close>

lemma sum_upd_key:
  fixes g :: "'r \<Rightarrow> rat"
  assumes "keyed key t"
  shows "sum_list (map g (upd_where (\<lambda>r. key r = k \<and> P r) f t)) = sum_list (map g t) +
    (case sel_by key k t of None \<Rightarrow> 0 | Some r \<Rightarrow> if P r then g (f r) - g r else 0)"
  using assms
proof (induction t)
  case (Cons x t)
  have k: "keyed key t" using Cons.prems by (simp add: keyed_def)
  show ?case
  proof (cases "key x = k")
    case True
    then have "sel_by key k t = None" using Cons.prems by (auto simp: keyed_def sel_by_None_iff)
    then show ?thesis using True Cons.IH [OF k] by simp
  next
    case False
    then show ?thesis using Cons.IH [OF k] by simp
  qed
qed simp

lemma sum_upd_key0:
  fixes g :: "'r \<Rightarrow> rat"
  assumes "keyed key t"
  shows "sum_list (map g (upd_where (\<lambda>r. key r = k) f t)) = sum_list (map g t) +
    (case sel_by key k t of None \<Rightarrow> 0 | Some r \<Rightarrow> g (f r) - g r)"
  using sum_upd_key [OF assms, of g k "\<lambda>_. True" f] by (cases "sel_by key k t") simp_all

lemma sum_upd_le:
  fixes g :: "'r \<Rightarrow> rat"
  assumes "\<And>r. r \<in> set t \<Longrightarrow> P r \<Longrightarrow> g (f r) \<le> g r"
  shows "sum_list (map g (upd_where P f t)) \<le> sum_list (map g t)"
  using assms by (induction t) (auto intro: add_mono)

lemma sum_list_of_int: "of_int (sum_list xs) = sum_list (map of_int xs)"
  by (induction xs) simp_all

subsection \<open>Spent, held and committed amounts\<close>

definition row_estimate :: "budget_unit \<Rightarrow> reservation \<Rightarrow> rat" where
  "row_estimate u r = (case u of UCost \<Rightarrow> br_est_cost r | UTokens \<Rightarrow> of_int (br_est_tokens r))"

definition row_charge :: "budget_unit \<Rightarrow> reservation \<Rightarrow> rat" where
  "row_charge u r = (case u of UCost \<Rightarrow> charged_cost r | UTokens \<Rightarrow> of_int (charged_tokens r))"

definition ledger_amount :: "budget_unit \<Rightarrow> ledger_row \<Rightarrow> rat" where
  "ledger_amount u l = (case u of UCost \<Rightarrow> ul_cost l | UTokens \<Rightarrow> of_int (ul_total l))"

definition used_amount :: "budget_unit \<Rightarrow> invocation \<Rightarrow> rat" where
  "used_amount u v = (case u of UCost \<Rightarrow> iv_cost v | UTokens \<Rightarrow> of_int (iv_total v))"

definition totals_unit :: "usage_totals \<Rightarrow> budget_unit \<Rightarrow> rat" where
  "totals_unit t u = (case u of UCost \<Rightarrow> us_cost t | UTokens \<Rightarrow> of_int (us_total t))"

definition committed :: "budget_unit \<Rightarrow> string \<Rightarrow> budget_db \<Rightarrow> rat" where
  "committed u today d = totals_unit (get_usage_ledger_totals (Some today) None None d) u +
     held_unit (budget_holds (Some today) None None d) u"

definition held_today :: "string \<Rightarrow> reservation \<Rightarrow> bool" where
  "held_today today r = held_row (Some today) None None r"

definition hold_of :: "budget_unit \<Rightarrow> string \<Rightarrow> reservation \<Rightarrow> rat" where
  "hold_of u today r = (if held_today today r then row_charge u r else 0)"

definition day_amount :: "budget_unit \<Rightarrow> string \<Rightarrow> ledger_row \<Rightarrow> rat" where
  "day_amount u today l = (if ul_bucket l = today then ledger_amount u l else 0)"

lemma sum_filter_rat:
  fixes f :: "'a \<Rightarrow> rat"
  shows "sum_list (map f (filter P t)) = sum_list (map (\<lambda>x. if P x then f x else 0) t)"
  by (induction t) auto

lemma committed_eq:
  assumes "today \<noteq> []"
  shows "committed u today d = sum_list (map (day_amount u today) (bd_ledger d)) +
    sum_list (map (hold_of u today) (bd_reservations d))"
proof -
  have g: "given (Some today)" "\<not> given None" using assms by (simp_all add: given_def)
  have "totals_unit (get_usage_ledger_totals (Some today) None None d) u =
      sum_list (map (ledger_amount u) (filter (\<lambda>l. ul_bucket l = today) (bd_ledger d)))"
    using g by (cases u) (simp_all add: totals_unit_def get_usage_ledger_totals_def Let_def sum_list_of_int ledger_amount_def [abs_def] comp_def)
  moreover have "held_unit (budget_holds (Some today) None None d) u =
      sum_list (map (row_charge u) (filter (held_today today) (bd_reservations d)))"
    by (cases u) (simp_all add: held_unit_def budget_holds_def Let_def sum_list_of_int row_charge_def [abs_def] comp_def
        held_today_def [abs_def])
  ultimately show ?thesis unfolding committed_def sum_filter_rat day_amount_def [abs_def] hold_of_def [abs_def] by simp
qed

subsection \<open>Histories\<close>

datatype budget_op =
    BReserve budget_config reserve_args string string string time
  | BDispatch "string option" time
  | BRelease "string option" string time
  | BWrite call_spec "string option" invocation "string option" string string write_fault time
  | BRecover string time

fun budget_step :: "budget_op \<Rightarrow> budget_db \<Rightarrow> budget_db" where
  "budget_step (BReserve cfg a uuid owner today now) d = snd (budget_reserve cfg a uuid owner today now d)"
| "budget_step (BDispatch rid now) d = snd (mark_dispatched rid now d)"
| "budget_step (BRelease rid reason now) d = budget_release rid reason now d"
| "budget_step (BWrite c cap v rid uuid bucket fault now) d = snd (write_invocation c cap v rid uuid bucket fault now d)"
| "budget_step (BRecover owner now) d = snd (recover_orphans owner now d)"

definition budget_run :: "budget_op list \<Rightarrow> budget_db \<Rightarrow> budget_db" where
  "budget_run ops d = fold budget_step ops d"

definition no_budget :: budget_db where
  "no_budget = \<lparr>bd_reservations = [], bd_ledger = [], bd_logs = []\<rparr>"

text \<open>A reservation as every operation leaves it.\<close>

definition reservation_ok :: "reservation \<Rightarrow> bool" where
  "reservation_ok r \<longleftrightarrow> 1 \<le> br_est_tokens r \<and> 0 \<le> br_est_cost r \<and>
     br_state r \<in> {''reserved'', ''in_flight'', ''settled'', ''released'', ''unknown''} \<and>
     (br_state r = ''settled'' \<longleftrightarrow> br_accounted r) \<and>
     (br_state r = ''settled'' \<longleftrightarrow> br_act_tokens r \<noteq> None) \<and> (br_state r = ''settled'' \<longleftrightarrow> br_act_cost r \<noteq> None)"

definition budget_inv :: "budget_db \<Rightarrow> bool" where
  "budget_inv d \<longleftrightarrow> keyed br_id (bd_reservations d) \<and> keyed ledger_key (bd_ledger d) \<and>
     (\<forall>r \<in> set (bd_reservations d). reservation_ok r)"

lemma no_budget_inv [simp]: "budget_inv no_budget"
  by (simp add: budget_inv_def no_budget_def)

lemma reserve_cases:
  assumes "budget_reserve cfg a uuid owner today now d = (res, d')"
  obtains (nothing) "d' = d" "\<And>key. res \<noteq> Inr (Some key)"
  | (granted) key where "res = Inr (Some key)" "key = or_text (case ra_id a of None \<Rightarrow> [] | Some i \<Rightarrow> i) uuid"
      "reservation_of key d = None" "\<not> (case ra_cost a of None \<Rightarrow> False | Some c \<Rightarrow> c < 0)"
      "run_checks (max 1 (ra_tokens a)) (ra_cost a) (held_for a today d) (budget_checks cfg (ra_run a) (ra_project a) today d) = None"
      "d' = d\<lparr>bd_reservations := bd_reservations d @ [new_reservation a key owner today now]\<rparr>"
proof -
  let ?key = "or_text (case ra_id a of None \<Rightarrow> [] | Some i \<Rightarrow> i) uuid"
  let ?checks = "run_checks (max 1 (ra_tokens a)) (ra_cost a) (held_for a today d) (budget_checks cfg (ra_run a) (ra_project a) today d)"
  show thesis
  proof (cases "\<not> bc_enabled cfg \<or> \<not> list_ex (\<lambda>c. ck_limit c > 0) (budget_checks cfg (ra_run a) (ra_project a) today d) \<or>
      (case ra_cost a of None \<Rightarrow> False | Some c \<Rightarrow> c < 0) \<or> reservation_of ?key d \<noteq> None \<or> ?checks \<noteq> None")
    case True
    have n: "d' = d \<and> (\<forall>key. res \<noteq> Inr (Some key))"
    proof (cases ?checks)
      case None
      then show ?thesis using True assms by (auto simp: budget_reserve_def Let_def split: if_splits)
    next
      case (Some e)
      then show ?thesis using assms by (auto simp: budget_reserve_def Let_def split: if_splits)
    qed
    show thesis by (rule nothing) (use n in simp_all)
  next
    case False
    then show thesis using assms granted [of ?key] by (simp add: budget_reserve_def Let_def)
  qed
qed

definition charged_row :: "int \<Rightarrow> rat \<Rightarrow> time \<Rightarrow> reservation \<Rightarrow> reservation" where
  "charged_row tokens cost now r = accounted_row now (settled_row True tokens cost now r)"

lemma mark_after_settle:
  "upd_where (\<lambda>r. br_id r = k \<and> br_state r = ''settled'') (accounted_row now)
     (upd_where (\<lambda>r. br_id r = k) (settled_row True tokens cost now) t) =
   upd_where (\<lambda>r. br_id r = k) (charged_row tokens cost now) t"
  by (induction t) (simp_all add: charged_row_def settled_row_def)

lemma write_cases:
  assumes "write_invocation c cap v rid uuid bucket fault now d = (res, d')"
  obtains (same) "bd_reservations d' = bd_reservations d" "bd_ledger d' = bd_ledger d"
      "given rid \<longrightarrow> iv_reported v \<longrightarrow> fault \<noteq> LedgerFault \<longrightarrow>
         (\<forall>r. reservation_of (the rid) d = Some r \<longrightarrow> br_state r \<in> {''settled'', ''released''})"
      "\<not> given rid \<longrightarrow> fault = LedgerFault"
  | (failed) "given rid" "fault = LedgerFault" "d' = budget_release rid ''settlement_failed'' now d"
  | (unreported) r where "given rid" "reservation_of (the rid) d = Some r" "br_state r \<notin> {''settled'', ''released''}"
      "\<not> iv_reported v" "bd_ledger d' = bd_ledger d"
      "bd_reservations d' = upd_where (\<lambda>r. br_id r = the rid) (settled_row False (iv_total v) (iv_cost v) now) (bd_reservations d)"
  | (charged) r where "given rid" "reservation_of (the rid) d = Some r" "br_state r \<notin> {''settled'', ''released''}"
      "iv_reported v" "fault \<noteq> LedgerFault"
      "bd_ledger d' = bd_ledger (upsert_usage_ledger (ledger_entry c cap v uuid bucket) d)"
      "bd_reservations d' = upd_where (\<lambda>r. br_id r = the rid) (charged_row (iv_total v) (iv_cost v) now) (bd_reservations d)"
  | (unreserved) "\<not> given rid" "fault \<noteq> LedgerFault" "bd_reservations d' = bd_reservations d"
      "bd_ledger d' = bd_ledger (upsert_usage_ledger (ledger_entry c cap v uuid bucket) d)"
proof (cases "given rid")
  case False
  then show thesis using assms same unreserved
    by (auto simp: write_invocation_def Let_def add_model_invocation_log_def upsert_usage_ledger_def split: if_splits)
next
  case rid: True
  let ?e = "ledger_entry c cap v uuid bucket"
  let ?log = "add_model_invocation_log (invocation_log_row rid v uuid)"
  have log: "bd_reservations (?log x) = bd_reservations x" "bd_ledger (?log x) = bd_ledger x" for x
    by (simp_all add: add_model_invocation_log_def)
  let ?s = "settlement rid (iv_reported v) (iv_total v) (iv_cost v) (ledger_body ?e rid (iv_reported v) fault now) now d"
  have w: "d' = snd ?s \<or> d' = ?log (snd ?s)"
    using assms rid by (auto simp: write_invocation_def Let_def split: option.splits prod.splits if_splits)
  then have d': "bd_reservations d' = bd_reservations (snd ?s)" "bd_ledger d' = bd_ledger (snd ?s)" using log by auto
  show thesis
  proof (cases "reservation_of (the rid) d = None \<or> br_state (the (reservation_of (the rid) d)) \<in> {''settled'', ''released''}")
    case True
    then have "snd ?s = d" using rid by (simp add: settlement_def Let_def ledger_body_def)
    moreover have "\<forall>r. reservation_of (the rid) d = Some r \<longrightarrow> br_state r \<in> {''settled'', ''released''}"
      using True by (cases "reservation_of (the rid) d") auto
    ultimately show thesis using same d' rid by simp
  next
    case False
    then obtain r where r: "reservation_of (the rid) d = Some r" "br_state r \<notin> {''settled'', ''released''}" by auto
    let ?d1 = "d\<lparr>bd_reservations := upd_where (\<lambda>r. br_id r = the rid) (settled_row (iv_reported v) (iv_total v) (iv_cost v) now) (bd_reservations d)\<rparr>"
    have s: "?s = (case ledger_body ?e rid (iv_reported v) fault now True ?d1 of
        Inr d' \<Rightarrow> (None, d') | Inl e \<Rightarrow> (Some e, budget_release rid ''settlement_failed'' now d))"
      using rid r by (simp add: settlement_def Let_def)
    show thesis
    proof (cases "iv_reported v")
      case False
      then show thesis using unreported [OF rid r] d' s by (simp add: ledger_body_def)
    next
      case rep: True
      show thesis
      proof (cases "fault = LedgerFault")
        case True
        then have f: "?s = (Some LedgerFault, budget_release rid ''settlement_failed'' now d)" using s rep by (simp add: ledger_body_def)
        then have "d' = budget_release rid ''settlement_failed'' now d"
          using assms rid by (simp add: write_invocation_def Let_def)
        then show thesis using failed rid True by blast
      next
        case False
        then have "snd ?s = mark_ledger_accounted rid now (upsert_usage_ledger ?e ?d1)" using s rep by (simp add: ledger_body_def)
        then show thesis using charged [OF rid r rep False] d' rid rep
          by (simp add: mark_ledger_accounted_def upsert_usage_ledger_def mark_after_settle)
      qed
    qed
  qed
qed


subsection \<open>The rows stay well formed\<close>

lemma upd_all_ok:
  assumes "\<forall>r \<in> set t. ok r" "\<And>r. r \<in> set t \<Longrightarrow> P r \<Longrightarrow> ok (f r)"
  shows "\<forall>r \<in> set (upd_where P f t). ok r"
  using assms by (auto simp: set_upd_where)

lemma row_ids [simp]:
  "br_id (dispatched_row now r) = br_id r" "br_id (accounted_row now r) = br_id r" "br_id (released_row reason now r) = br_id r"
  "br_id (settled_row b n c now r) = br_id r" "br_id (charged_row n c now r) = br_id r"
  "br_id (new_reservation a key owner today now) = key"
  by (simp_all add: dispatched_row_def accounted_row_def released_row_def settled_row_def charged_row_def new_reservation_def)

lemma ledger_key_plus [simp]: "ledger_key (ledger_plus e u) = ledger_key u"
  by (simp add: ledger_key_def ledger_plus_def)

lemma row_moves_ok:
  "reservation_ok r \<Longrightarrow> br_state r = ''reserved'' \<Longrightarrow> reservation_ok (dispatched_row now r)"
  "reservation_ok r \<Longrightarrow> br_state r \<in> {''reserved'', ''in_flight''} \<Longrightarrow> reservation_ok (released_row reason now r)"
  "reservation_ok r \<Longrightarrow> br_state r \<notin> {''settled'', ''released''} \<Longrightarrow> reservation_ok (settled_row False n c now r)"
  "reservation_ok r \<Longrightarrow> reservation_ok (charged_row n c now r)"
  by (auto simp: reservation_ok_def dispatched_row_def released_row_def settled_row_def charged_row_def accounted_row_def)

lemma reservations_inv:
  assumes "budget_inv d" "\<And>r. br_id (f r) = br_id r"
    "\<And>r. r \<in> set (bd_reservations d) \<Longrightarrow> P r \<Longrightarrow> reservation_ok (f r)"
  shows "budget_inv (d\<lparr>bd_reservations := upd_where P f (bd_reservations d)\<rparr>)"
  using assms upd_all_ok [of "bd_reservations d" reservation_ok P f] by (simp add: budget_inv_def keyed_upd_where)

lemma ledger_inv: "budget_inv d \<Longrightarrow> budget_inv (upsert_usage_ledger e d)"
  by (auto simp: budget_inv_def upsert_usage_ledger_def keyed_upd_where intro: keyed_snoc)

lemma budget_inv_cong:
  "bd_reservations d' = bd_reservations d \<Longrightarrow> bd_ledger d' = bd_ledger d \<Longrightarrow> budget_inv d' = budget_inv d"
  by (simp add: budget_inv_def)

lemma budget_inv_ok: "budget_inv d \<Longrightarrow> r \<in> set (bd_reservations d) \<Longrightarrow> reservation_ok r"
  by (simp add: budget_inv_def)

lemma released_inv: "budget_inv d \<Longrightarrow> budget_inv (budget_release rid reason now d)"
  unfolding budget_release_def
  by (cases "given rid") (auto intro!: reservations_inv row_moves_ok(2) elim: budget_inv_ok)

lemma reservation_in: "reservation_of i d = Some r \<Longrightarrow> r \<in> set (bd_reservations d) \<and> br_id r = i"
  unfolding reservation_of_def by (rule sel_by_SomeD)

lemma reservation_unique:
  "budget_inv d \<Longrightarrow> reservation_of i d = Some r \<Longrightarrow> q \<in> set (bd_reservations d) \<Longrightarrow> br_id q = i \<Longrightarrow> q = r"
  unfolding budget_inv_def by (metis keyed_inj reservation_in)

lemma budget_step_inv: "budget_inv d \<Longrightarrow> budget_inv (budget_step x d)"
proof (cases x)
  assume inv: "budget_inv d"
  {
    case (BReserve cfg a uuid owner today now)
    obtain res d' where e: "budget_reserve cfg a uuid owner today now d = (res, d')" by (meson surj_pair)
    then show ?thesis
    proof (cases rule: reserve_cases)
      case nothing
      then show ?thesis using BReserve e inv by simp
    next
      case (granted key)
      have "reservation_ok (new_reservation a key owner today now)"
        using granted(4) by (auto simp: reservation_ok_def new_reservation_def split: option.splits)
      then show ?thesis using BReserve e inv granted(3,6)
        by (auto simp: budget_inv_def reservation_of_def intro: keyed_snoc)
    qed
  next
    case (BDispatch rid now)
    have "budget_inv (d\<lparr>bd_reservations := upd_where (\<lambda>r. br_id r = the rid \<and> br_state r = ''reserved'') (dispatched_row now) (bd_reservations d)\<rparr>)"
      using inv by (auto intro!: reservations_inv row_moves_ok(1) elim: budget_inv_ok)
    then show ?thesis using inv BDispatch by (simp add: mark_dispatched_def update_row_def)
  next
    case (BRelease rid reason now)
    then show ?thesis using inv released_inv by simp
  next
    case (BRecover owner now)
    then show ?thesis using inv
      by (auto simp: recover_orphans_def Let_def intro!: reservations_inv row_moves_ok(2) elim: budget_inv_ok)
  next
    case (BWrite c cap v rid uuid bucket fault now)
    obtain res d' where e: "write_invocation c cap v rid uuid bucket fault now d = (res, d')" by (meson surj_pair)
    note ok = budget_inv_ok [OF inv]
    from e have "budget_inv d'"
    proof (cases rule: write_cases)
      case same
      then show ?thesis using inv budget_inv_cong by blast
    next
      case failed
      then show ?thesis using inv released_inv by simp
    next
      case (unreported r)
      have "budget_inv (d\<lparr>bd_reservations := upd_where (\<lambda>r. br_id r = the rid) (settled_row False (iv_total v) (iv_cost v) now) (bd_reservations d)\<rparr>)"
        using reservation_unique [OF inv unreported(2)] unreported(3) ok row_moves_ok(3)
        by (intro reservations_inv [OF inv]) auto
      then show ?thesis using unreported(5,6) by (simp add: budget_inv_def)
    next
      case (charged r)
      have "budget_inv (d\<lparr>bd_reservations := upd_where (\<lambda>r. br_id r = the rid) (charged_row (iv_total v) (iv_cost v) now) (bd_reservations d)\<rparr>)"
        using ok row_moves_ok(4) by (intro reservations_inv [OF inv]) auto
      moreover have "budget_inv (upsert_usage_ledger (ledger_entry c cap v uuid bucket) d)" using inv by (rule ledger_inv)
      ultimately show ?thesis using charged(6,7) by (simp add: budget_inv_def)
    next
      case unreserved
      have "budget_inv (upsert_usage_ledger (ledger_entry c cap v uuid bucket) d)" using inv by (rule ledger_inv)
      then show ?thesis using unreserved inv by (simp add: budget_inv_def)
    qed
    then show ?thesis using BWrite e by simp
  }
qed

lemma budget_run_inv: "budget_inv d \<Longrightarrow> budget_inv (budget_run ops d)"
  unfolding budget_run_def by (induction ops arbitrary: d) (simp_all add: budget_step_inv)


subsection \<open>What each operation does to the committed amount\<close>

lemma ledger_sum:
  fixes g :: "ledger_row \<Rightarrow> rat"
  assumes "keyed ledger_key (bd_ledger d)" "\<And>l. ledger_key l = ledger_key e \<Longrightarrow> g (ledger_plus e l) = g l + g e"
  shows "sum_list (map g (bd_ledger (upsert_usage_ledger e d))) = sum_list (map g (bd_ledger d)) + g e"
proof (cases "sel_by ledger_key (ledger_key e) (bd_ledger d)")
  case None
  then show ?thesis by (simp add: upsert_usage_ledger_def)
next
  case (Some l)
  then have "ledger_key l = ledger_key e" by (rule sel_by_key)
  then show ?thesis using Some sum_upd_key0 [OF assms(1), of g "ledger_key e" "ledger_plus e"] assms(2)
    by (simp add: upsert_usage_ledger_def)
qed

lemma amount_plus:
  "ledger_amount u (ledger_plus e l) = ledger_amount u l + ledger_amount u e"
  "ledger_key l = ledger_key e \<Longrightarrow> day_amount u today (ledger_plus e l) = day_amount u today l + day_amount u today e"
  by (cases u; simp add: ledger_amount_def ledger_plus_def day_amount_def ledger_key_def)+

lemma entry_amount [simp]:
  "ledger_amount u (ledger_entry c cap v uuid bucket) = used_amount u v"
  "day_amount u today (ledger_entry c cap v uuid bucket) = (if bucket = today then used_amount u v else 0)"
  by (cases u; simp add: ledger_entry_def ledger_amount_def used_amount_def day_amount_def split: prod.splits)+

lemma estimate_nonneg: "reservation_ok r \<Longrightarrow> 0 \<le> row_estimate u r"
  by (cases u) (simp_all add: reservation_ok_def row_estimate_def)

lemma hold_moves:
  assumes "reservation_ok r" "today \<noteq> []"
  shows "br_state r = ''reserved'' \<Longrightarrow> hold_of u today (dispatched_row now r) \<le> hold_of u today r"
    and "br_state r \<in> {''reserved'', ''in_flight''} \<Longrightarrow> hold_of u today (released_row reason now r) \<le> hold_of u today r"
    and "br_state r \<notin> {''settled'', ''released''} \<Longrightarrow> hold_of u today (settled_row False n c now r) \<le> hold_of u today r"
    and "hold_of u today (charged_row n c now r) = 0"
    and "br_state r \<noteq> ''settled'' \<Longrightarrow> hold_of u today r = (if held_today today r then row_estimate u r else 0)"
    and "0 \<le> hold_of u today r \<or> br_state r = ''settled''"
proof -
  note e = estimate_nonneg [OF assms(1), of u]
  show "br_state r = ''reserved'' \<Longrightarrow> hold_of u today (dispatched_row now r) \<le> hold_of u today r"
    by (cases u) (auto simp: hold_of_def held_today_def held_row_def dispatched_row_def row_charge_def charged_tokens_def charged_cost_def given_def)
  show "br_state r \<in> {''reserved'', ''in_flight''} \<Longrightarrow> hold_of u today (released_row reason now r) \<le> hold_of u today r"
    using e by (cases u) (auto simp: hold_of_def held_today_def held_row_def released_row_def row_charge_def row_estimate_def charged_tokens_def charged_cost_def given_def)
  show "br_state r \<notin> {''settled'', ''released''} \<Longrightarrow> hold_of u today (settled_row False n c now r) \<le> hold_of u today r"
    using e assms(1) by (cases u) (auto simp: hold_of_def held_today_def held_row_def settled_row_def row_charge_def row_estimate_def charged_tokens_def charged_cost_def given_def reservation_ok_def)
  show "hold_of u today (charged_row n c now r) = 0"
    by (simp add: hold_of_def held_today_def held_row_def charged_row_def accounted_row_def settled_row_def given_def)
  show est: "br_state r \<noteq> ''settled'' \<Longrightarrow> hold_of u today r = (if held_today today r then row_estimate u r else 0)"
    by (cases u) (simp_all add: hold_of_def row_charge_def row_estimate_def charged_tokens_def charged_cost_def)
  show "0 \<le> hold_of u today r \<or> br_state r = ''settled''" using est e by auto
qed

fun overrun :: "budget_unit \<Rightarrow> string \<Rightarrow> budget_op \<Rightarrow> budget_db \<Rightarrow> rat" where
  "overrun u today (BWrite c cap v rid uuid bucket fault now) d =
     (let used = (if bucket = today then used_amount u v else 0)
      in if \<not> given rid then max 0 used
         else case reservation_of (the rid) d of
                None \<Rightarrow> 0
              | Some r \<Rightarrow> (if br_state r \<in> {''settled'', ''released''} \<or> \<not> iv_reported v then 0
                          else max 0 (used - (if held_today today r then row_estimate u r else 0))))"
| "overrun u today x d = 0"

fun overruns :: "budget_unit \<Rightarrow> string \<Rightarrow> budget_op list \<Rightarrow> budget_db \<Rightarrow> rat" where
  "overruns u today [] d = 0"
| "overruns u today (x # ops) d = overrun u today x d + overruns u today ops (budget_step x d)"

lemma overrun_nonneg: "0 \<le> overrun u today x d"
  by (cases x) (auto simp: Let_def split: option.splits)

lemma committed_upd:
  assumes "today \<noteq> []" "\<And>r. r \<in> set (bd_reservations d) \<Longrightarrow> P r \<Longrightarrow> hold_of u today (f r) \<le> hold_of u today r"
  shows "committed u today (d\<lparr>bd_reservations := upd_where P f (bd_reservations d)\<rparr>) \<le> committed u today d"
  using sum_upd_le [of "bd_reservations d" P "hold_of u today" f] assms by (simp add: committed_eq)

lemma committed_release:
  assumes "budget_inv d" "today \<noteq> []"
  shows "committed u today (budget_release rid reason now d) \<le> committed u today d"
  using assms hold_moves(2) [OF budget_inv_ok [OF assms(1)] assms(2)]
  by (cases "given rid") (auto simp: budget_release_def intro!: committed_upd)

lemma committed_write:
  assumes "budget_inv d" "today \<noteq> []"
  shows "committed u today (budget_step (BWrite c cap v rid uuid bucket fault now) d) \<le>
    committed u today d + overrun u today (BWrite c cap v rid uuid bucket fault now) d"
proof -
  let ?x = "BWrite c cap v rid uuid bucket fault now"
  obtain res d' where e: "write_invocation c cap v rid uuid bucket fault now d = (res, d')" by (meson surj_pair)
  have ledger: "sum_list (map (day_amount u today) (bd_ledger (upsert_usage_ledger (ledger_entry c cap v uuid bucket) d))) =
      sum_list (map (day_amount u today) (bd_ledger d)) + (if bucket = today then used_amount u v else 0)"
    using assms(1) ledger_sum [of d _ "day_amount u today"] amount_plus(2) by (simp add: budget_inv_def)
  note ok = budget_inv_ok [OF assms(1)]
  from e have "committed u today d' \<le> committed u today d + overrun u today ?x d"
  proof (cases rule: write_cases)
    case same
    then show ?thesis using assms(2) overrun_nonneg [of u today ?x d] by (simp add: committed_eq)
  next
    case failed
    then show ?thesis using committed_release [OF assms, of u rid "''settlement_failed''" now] overrun_nonneg [of u today ?x d] by simp
  next
    case (unreported r)
    have "hold_of u today (settled_row False (iv_total v) (iv_cost v) now q) \<le> hold_of u today q"
      if "q \<in> set (bd_reservations d)" "br_id q = the rid" for q
      using reservation_unique [OF assms(1) unreported(2) that] unreported(3) hold_moves(3) [OF ok assms(2)] that by simp
    then have "committed u today (d\<lparr>bd_reservations := bd_reservations d'\<rparr>) \<le> committed u today d"
      unfolding unreported(6) by (intro committed_upd [OF assms(2)])
    moreover have "committed u today d' = committed u today (d\<lparr>bd_reservations := bd_reservations d'\<rparr>)"
      using assms(2) unreported(5) by (simp add: committed_eq)
    ultimately show ?thesis using overrun_nonneg [of u today ?x d] by linarith
  next
    case (charged r)
    have r: "r \<in> set (bd_reservations d)" using reservation_in charged(2) by blast
    have "sum_list (map (hold_of u today) (bd_reservations d')) =
        sum_list (map (hold_of u today) (bd_reservations d)) - (if held_today today r then row_estimate u r else 0)"
      using sum_upd_key0 [of br_id "bd_reservations d" "hold_of u today" "the rid"] assms charged(2,3,7) hold_moves(4,5) [OF ok [OF r] assms(2)]
      by (simp add: budget_inv_def reservation_of_def)
    then show ?thesis using charged(1-4,6) ledger assms(2) by (simp add: committed_eq)
  next
    case unreserved
    then show ?thesis using ledger assms(2) by (simp add: committed_eq)
  qed
  then show ?thesis using e by simp
qed


subsection \<open>Admission respects the limit\<close>

definition global_limit :: "budget_unit \<Rightarrow> budget_config \<Rightarrow> rat" where
  "global_limit u cfg = (case u of UCost \<Rightarrow> bc_global_cost cfg | UTokens \<Rightarrow> of_int (bc_global_tokens cfg))"

lemma run_checks_pass:
  "run_checks tokens cost held cs = None \<Longrightarrow> c \<in> set cs \<Longrightarrow> 0 < ck_limit c \<Longrightarrow>
     \<exists>req. (case ck_unit c of UCost \<Rightarrow> cost | UTokens \<Rightarrow> Some (of_int tokens)) = Some req \<and>
       ck_usage c + held_unit (held (ck_scope c)) (ck_unit c) + req \<le> ck_limit c"
  by (induction cs) (auto simp: Let_def split: if_splits option.splits)

lemma global_check:
  "\<exists>c \<in> set (budget_checks cfg run project today d). ck_limit c = global_limit u cfg \<and> ck_scope c = SGlobal \<and>
     ck_unit c = u \<and> ck_usage c = totals_unit (get_usage_ledger_totals (Some today) None None d) u"
  by (cases u) (simp_all add: budget_checks_def Let_def global_limit_def totals_unit_def)

lemma new_reservation_hold:
  "(case u of UCost \<Rightarrow> ra_cost a | UTokens \<Rightarrow> Some (of_int (max 1 (ra_tokens a)))) = Some req \<Longrightarrow>
     hold_of u today (new_reservation a key owner today' now) = req"
  by (cases u) (simp_all add: hold_of_def held_today_def held_row_def new_reservation_def row_charge_def charged_tokens_def charged_cost_def given_def)

lemma reserve_bound:
  assumes "budget_reserve cfg a uuid owner today now d = (Inr (Some key), d')" "0 < global_limit u cfg" "today \<noteq> []"
  shows "committed u today d' \<le> global_limit u cfg"
  using assms(1)
proof (cases rule: reserve_cases)
  case (granted k)
  obtain c where c: "c \<in> set (budget_checks cfg (ra_run a) (ra_project a) today d)" "ck_limit c = global_limit u cfg"
    "ck_scope c = SGlobal" "ck_unit c = u" "ck_usage c = totals_unit (get_usage_ledger_totals (Some today) None None d) u"
    using global_check by blast
  obtain req where req: "(case u of UCost \<Rightarrow> ra_cost a | UTokens \<Rightarrow> Some (of_int (max 1 (ra_tokens a)))) = Some req"
    "committed u today d + req \<le> global_limit u cfg"
    using run_checks_pass [OF granted(5) c(1)] c assms(2) by (auto simp: committed_def held_for_def)
  have "committed u today d' = committed u today d + hold_of u today (new_reservation a k owner today now)"
    using granted(6) assms(3) by (simp add: committed_eq)
  then show ?thesis using req new_reservation_hold [OF req(1)] by simp
next
  case nothing
  then show ?thesis by blast
qed

text \<open>The reservations of a history are all made on the same day under the same positive limit.\<close>

fun same_limit :: "budget_unit \<Rightarrow> string \<Rightarrow> rat \<Rightarrow> budget_op \<Rightarrow> bool" where
  "same_limit u today bound (BReserve cfg a uuid owner day now) \<longleftrightarrow> day = today \<and> global_limit u cfg = bound"
| "same_limit u today bound x \<longleftrightarrow> True"

lemma committed_step:
  assumes "budget_inv d" "today \<noteq> []" "0 < bound" "same_limit u today bound x"
  shows "committed u today (budget_step x d) \<le> max bound (committed u today d + overrun u today x d)"
proof (cases x)
  case (BReserve cfg a uuid owner day now)
  obtain res d' where e: "budget_reserve cfg a uuid owner day now d = (res, d')" by (meson surj_pair)
  then show ?thesis
  proof (cases rule: reserve_cases)
    case nothing
    then show ?thesis using BReserve e by simp
  next
    case (granted key)
    then show ?thesis using BReserve e assms(2-4) reserve_bound [of cfg a uuid owner today now d key d' u] by simp
  qed
next
  case (BDispatch rid now)
  have "committed u today (d\<lparr>bd_reservations := upd_where (\<lambda>r. br_id r = the rid \<and> br_state r = ''reserved'') (dispatched_row now) (bd_reservations d)\<rparr>) \<le> committed u today d"
    using hold_moves(1) [OF budget_inv_ok [OF assms(1)] assms(2)] by (intro committed_upd [OF assms(2)]) auto
  then show ?thesis using BDispatch by (simp add: mark_dispatched_def update_row_def max.coboundedI2)
next
  case (BRelease rid reason now)
  then show ?thesis using committed_release [OF assms(1,2)] by (simp add: max.coboundedI2)
next
  case (BRecover owner now)
  have "committed u today (d\<lparr>bd_reservations := upd_where (\<lambda>r. br_owner r \<noteq> owner \<and> br_state r \<in> {''reserved'', ''in_flight''})
      (released_row ''previous_engine_stopped'' now) (bd_reservations d)\<rparr>) \<le> committed u today d"
    using hold_moves(2) [OF budget_inv_ok [OF assms(1)] assms(2)] by (intro committed_upd [OF assms(2)]) auto
  then show ?thesis using BRecover by (simp add: recover_orphans_def Let_def max.coboundedI2)
next
  case (BWrite c cap v rid uuid bucket fault now)
  then show ?thesis using committed_write [OF assms(1,2), of u c cap v rid uuid bucket fault now] by (simp add: max.coboundedI2)
qed

text \<open>C35: the daily limit bounds what is spent. However calls reserve, are dispatched, released,
  settled, recovered and written, the day's ledger plus everything held never exceeds the global
  limit (of tokens or of cost) by more than what calls used beyond their estimates. When no
  reported usage exceeds its estimate, the limit is never exceeded at all.\<close>

theorem budget_limit_bounds_spending:
  assumes "today \<noteq> []" and "0 < bound" and "\<forall>x \<in> set ops. same_limit u today bound x"
  shows "committed u today (budget_run ops (budget_run hist no_budget)) \<le>
    max bound (committed u today (budget_run hist no_budget)) + overruns u today ops (budget_run hist no_budget)"
proof -
  have "committed u today (budget_run ops d) \<le> max bound (committed u today d) + overruns u today ops d" if "budget_inv d" for d
    using that assms(3)
  proof (induction ops arbitrary: d)
    case (Cons x ops)
    have "committed u today (budget_run ops (budget_step x d)) \<le>
        max bound (committed u today (budget_step x d)) + overruns u today ops (budget_step x d)"
      using Cons budget_step_inv by simp
    moreover have "committed u today (budget_step x d) \<le> max bound (committed u today d + overrun u today x d)"
      using Cons.prems committed_step [OF _ assms(1,2)] by simp
    ultimately show ?case using overrun_nonneg [of u today x d] by (simp add: budget_run_def)
  qed (simp add: budget_run_def)
  then show ?thesis using budget_run_inv [OF no_budget_inv] by blast
qed

definition small_budget :: budget_config where
  "small_budget = \<lparr>bc_enabled = True, bc_global_cost = 0, bc_global_tokens = 100, bc_run_cost = 0, bc_run_tokens = 0,
     bc_project_cost = 0, bc_project_tokens = 0, bc_overrides = []\<rparr>"

definition ask_tokens :: "string \<Rightarrow> int \<Rightarrow> reserve_args" where
  "ask_tokens i n = \<lparr>ra_run = Some i, ra_project = None, ra_provider = ''p'', ra_model = ''m'', ra_tokens = n, ra_cost = None, ra_id = Some i\<rparr>"

definition plain_call :: call_spec where
  "plain_call = \<lparr>ca_provider_id = ''p'', ca_model_id = ''m'', ca_role = [], ca_price_in = None, ca_price_out = None,
     ca_requested_max = 0, ca_estimated_output = None\<rparr>"

definition used_tokens :: "int \<Rightarrow> invocation" where
  "used_tokens n = \<lparr>iv_run = Some ''r'', iv_session = None, iv_project = None, iv_user = None, iv_completed = True, iv_input = n,
     iv_output = 0, iv_total = n, iv_cost = 0, iv_latency = 0, iv_reported = True, iv_error_code = None, iv_finish_reason = []\<rparr>"

definition budget_day :: "budget_op list" where
  "budget_day = [BReserve small_budget (ask_tokens ''a'' 60) ''u'' ''o'' ''d1'' 1, BDispatch (Some ''a'') 2,
     BReserve small_budget (ask_tokens ''b'' 60) ''u'' ''o'' ''d1'' 3,
     BWrite plain_call None (used_tokens 50) (Some ''a'') ''l1'' ''d1'' NoFault 4,
     BReserve small_budget (ask_tokens ''c'' 40) ''u'' ''o'' ''d1'' 5]"

theorem budget_limit_bounds_spending_witness:
  "committed UTokens ''d1'' (budget_run budget_day no_budget) = 90 \<and> committed UTokens ''d1'' (budget_run budget_day no_budget) \<le> 100"
proof -
  have c: "committed UTokens ''d1'' (budget_run budget_day no_budget) = 90" by code_simp
  have l: "\<forall>x \<in> set budget_day. same_limit UTokens ''d1'' 100 x"
    by (simp add: budget_day_def global_limit_def small_budget_def)
  have r: "max 100 (committed UTokens ''d1'' (budget_run [] no_budget)) + overruns UTokens ''d1'' budget_day (budget_run [] no_budget) = 100"
    by code_simp
  have "committed UTokens ''d1'' (budget_run budget_day (budget_run [] no_budget)) \<le> 100"
    using budget_limit_bounds_spending [OF _ _ l, of "[]"] unfolding r by simp
  with c show ?thesis by simp
qed

subsection \<open>The books balance\<close>

definition billed :: "budget_unit \<Rightarrow> reservation \<Rightarrow> rat" where
  "billed u r = (if br_accounted r then row_charge u r else 0)"

fun direct :: "budget_unit \<Rightarrow> budget_op \<Rightarrow> rat" where
  "direct u (BWrite c cap v rid uuid bucket fault now) = (if \<not> given rid \<and> fault \<noteq> LedgerFault then used_amount u v else 0)"
| "direct u x = 0"

definition balanced :: "budget_unit \<Rightarrow> rat \<Rightarrow> budget_db \<Rightarrow> bool" where
  "balanced u extra d \<longleftrightarrow> sum_list (map (ledger_amount u) (bd_ledger d)) = sum_list (map (billed u) (bd_reservations d)) + extra"

lemma sum_upd_eq:
  fixes g :: "'r \<Rightarrow> rat"
  assumes "\<And>r. r \<in> set t \<Longrightarrow> P r \<Longrightarrow> g (f r) = g r"
  shows "sum_list (map g (upd_where P f t)) = sum_list (map g t)"
  using assms by (induction t) auto

lemma billed_moves:
  assumes "reservation_ok r"
  shows "br_state r = ''reserved'' \<Longrightarrow> billed u (dispatched_row now r) = billed u r"
    and "br_state r \<in> {''reserved'', ''in_flight''} \<Longrightarrow> billed u (released_row reason now r) = billed u r"
    and "br_state r \<notin> {''settled'', ''released''} \<Longrightarrow> billed u (settled_row False n c now r) = billed u r"
    and "br_state r \<noteq> ''settled'' \<Longrightarrow> billed u r = 0"
  using assms by (auto simp: billed_def reservation_ok_def dispatched_row_def released_row_def settled_row_def)

lemma billed_new:
  "billed u (new_reservation a key owner today now) = 0"
  "billed u (charged_row (iv_total v) (iv_cost v) now r) = used_amount u v"
  by (cases u; simp add: billed_def new_reservation_def charged_row_def accounted_row_def settled_row_def row_charge_def
      charged_tokens_def charged_cost_def used_amount_def)+

lemma balanced_upd:
  assumes "balanced u extra d" "\<And>r. r \<in> set (bd_reservations d) \<Longrightarrow> P r \<Longrightarrow> billed u (f r) = billed u r"
  shows "balanced u extra (d\<lparr>bd_reservations := upd_where P f (bd_reservations d)\<rparr>)"
  using assms(1) sum_upd_eq [of "bd_reservations d" P "billed u" f] assms(2) by (simp add: balanced_def)

lemma balanced_release:
  "budget_inv d \<Longrightarrow> balanced u extra d \<Longrightarrow> balanced u extra (budget_release rid reason now d)"
  by (cases "given rid") (auto simp: budget_release_def intro!: balanced_upd billed_moves(2) elim: budget_inv_ok)

lemma balanced_step:
  assumes "budget_inv d" "balanced u extra d"
  shows "balanced u (extra + direct u x) (budget_step x d)"
proof (cases x)
  case (BReserve cfg a uuid owner day now)
  obtain res d' where e: "budget_reserve cfg a uuid owner day now d = (res, d')" by (meson surj_pair)
  then have "balanced u extra d'" using assms(2) by (cases rule: reserve_cases) (simp_all add: balanced_def billed_new)
  then show ?thesis using BReserve e by simp
next
  case (BDispatch rid now)
  have "balanced u extra (d\<lparr>bd_reservations := upd_where (\<lambda>r. br_id r = the rid \<and> br_state r = ''reserved'') (dispatched_row now) (bd_reservations d)\<rparr>)"
    using assms by (auto intro!: balanced_upd billed_moves(1) elim: budget_inv_ok)
  then show ?thesis using BDispatch assms(2) by (simp add: mark_dispatched_def update_row_def)
next
  case (BRelease rid reason now)
  then show ?thesis using balanced_release [OF assms] by simp
next
  case (BRecover owner now)
  then show ?thesis using assms
    by (auto simp: recover_orphans_def Let_def intro!: balanced_upd billed_moves(2) elim: budget_inv_ok)
next
  case (BWrite c cap v rid uuid bucket fault now)
  obtain res d' where e: "write_invocation c cap v rid uuid bucket fault now d = (res, d')" by (meson surj_pair)
  have ledger: "sum_list (map (ledger_amount u) (bd_ledger (upsert_usage_ledger (ledger_entry c cap v uuid bucket) d))) =
      sum_list (map (ledger_amount u) (bd_ledger d)) + used_amount u v"
    using assms(1) ledger_sum [of d _ "ledger_amount u"] amount_plus(1) by (simp add: budget_inv_def)
  note ok = budget_inv_ok [OF assms(1)]
  from e have "balanced u (extra + direct u x) d'"
  proof (cases rule: write_cases)
    case same
    then show ?thesis using assms(2) BWrite by (auto simp: balanced_def)
  next
    case failed
    then show ?thesis using balanced_release [OF assms] BWrite by simp
  next
    case (unreported r)
    have "billed u (settled_row False (iv_total v) (iv_cost v) now q) = billed u q"
      if "q \<in> set (bd_reservations d)" "br_id q = the rid" for q
      using reservation_unique [OF assms(1) unreported(2) that] unreported(3) billed_moves(3) [OF ok] that by simp
    from sum_upd_eq [of "bd_reservations d" "\<lambda>r. br_id r = the rid" "billed u", OF this] show ?thesis
      using unreported(1,5,6) assms(2) BWrite by (simp add: balanced_def)
  next
    case (charged r)
    have r: "r \<in> set (bd_reservations d)" using reservation_in charged(2) by blast
    have "billed u r = 0" using billed_moves(4) [OF ok [OF r]] charged(3) by simp
    then have "sum_list (map (billed u) (bd_reservations d')) = sum_list (map (billed u) (bd_reservations d)) + used_amount u v"
      using sum_upd_key0 [of br_id "bd_reservations d" "billed u" "the rid"] assms charged(2,7)
      by (simp add: budget_inv_def reservation_of_def billed_new)
    then show ?thesis using charged(1,6) ledger assms(2) BWrite by (simp add: balanced_def)
  next
    case unreserved
    then show ?thesis using ledger assms(2) BWrite by (simp add: balanced_def)
  qed
  then show ?thesis using e BWrite by simp
qed

text \<open>A settled reservation is final.\<close>

lemma settled_stays_step:
  assumes "reservation_of i d = Some r" "br_state r = ''settled''"
  shows "reservation_of i (budget_step x d) = Some r"
proof -
  have upd: "reservation_of i (d\<lparr>bd_reservations := upd_where P f (bd_reservations d)\<rparr>) = Some r"
    if "\<And>r. br_id (f r) = br_id r" "\<not> P r" for P f
    using assms(1) that by (simp add: reservation_of_def sel_by_upd_where)
  show ?thesis
  proof (cases x)
    case (BReserve cfg a uuid owner day now)
    obtain res d' where e: "budget_reserve cfg a uuid owner day now d = (res, d')" by (meson surj_pair)
    then have "reservation_of i d' = Some r"
      using assms(1) by (cases rule: reserve_cases) (auto simp: reservation_of_def sel_by_append)
    then show ?thesis using BReserve e by simp
  next
    case (BDispatch rid now)
    then show ?thesis using assms upd by (auto simp: mark_dispatched_def update_row_def)
  next
    case (BRelease rid reason now)
    then show ?thesis using assms upd by (auto simp: budget_release_def)
  next
    case (BRecover owner now)
    then show ?thesis using assms upd by (auto simp: recover_orphans_def Let_def)
  next
    case (BWrite c cap v rid uuid bucket fault now)
    obtain res d' where e: "write_invocation c cap v rid uuid bucket fault now d = (res, d')" by (meson surj_pair)
    have keep: "sel_by br_id i (upd_where (\<lambda>q. br_id q = the rid) f (bd_reservations d)) = Some r"
      if "reservation_of (the rid) d = Some q" "br_state q \<notin> {''settled'', ''released''}" "\<And>r. br_id (f r) = br_id r" for q f
    proof -
      have "br_id r = i" using assms(1) unfolding reservation_of_def by (rule sel_by_key)
      moreover have "the rid \<noteq> i" using that(1,2) assms by auto
      ultimately show ?thesis using that(3) assms(1) by (simp add: reservation_of_def sel_by_upd_where)
    qed
    from e have "reservation_of i d' = Some r"
    proof (cases rule: write_cases)
      case failed
      then show ?thesis using assms upd by (auto simp: budget_release_def)
    next
      case (unreported q)
      then show ?thesis using keep [OF unreported(2,3)] by (simp add: reservation_of_def)
    next
      case (charged q)
      then show ?thesis using keep [OF charged(2,3)] by (simp add: reservation_of_def)
    qed (use assms(1) in \<open>simp_all add: reservation_of_def\<close>)
    then show ?thesis using e BWrite by simp
  qed
qed

lemma settled_stays:
  "reservation_of i d = Some r \<Longrightarrow> br_state r = ''settled'' \<Longrightarrow> reservation_of i (budget_run ops d) = Some r"
  unfolding budget_run_def by (induction ops arbitrary: d) (simp_all add: settled_stays_step)

lemma settled_not_rewritten:
  assumes "reservation_of i d = Some r" "br_state r = ''settled''" "given (Some i)"
  shows "bd_ledger (snd (write_invocation c cap v (Some i) uuid bucket fault now d)) = bd_ledger d"
proof -
  obtain res d' where e: "write_invocation c cap v (Some i) uuid bucket fault now d = (res, d')" by (meson surj_pair)
  then have "bd_ledger d' = bd_ledger d"
    using assms by (cases rule: write_cases) (simp_all add: budget_release_def)
  with e show ?thesis by simp
qed

text \<open>C36: the ledger and the reservations tell the same story. After any history, what the ledger
  records is exactly what the settled reservations were charged plus the calls written without a
  reservation, also when writes failed midway. A settled reservation is accounted and its charge
  is final: no later operation changes the row, and writing the call again leaves the ledger
  alone.\<close>

theorem books_balance:
  "sum_list (map (ledger_amount u) (bd_ledger (budget_run ops no_budget))) =
     sum_list (map (billed u) (bd_reservations (budget_run ops no_budget))) + sum_list (map (direct u) ops) \<and>
   (\<forall>i r. reservation_of i (budget_run ops no_budget) = Some r \<and> br_state r = ''settled'' \<longrightarrow>
      br_accounted r \<and> br_act_tokens r \<noteq> None \<and>
      (\<forall>more. reservation_of i (budget_run more (budget_run ops no_budget)) = Some r \<and>
         (\<forall>c cap v uuid bucket fault now. i \<noteq> [] \<longrightarrow>
            bd_ledger (snd (write_invocation c cap v (Some i) uuid bucket fault now (budget_run more (budget_run ops no_budget)))) =
            bd_ledger (budget_run more (budget_run ops no_budget)))))"
proof (intro conjI allI impI)
  have "balanced u (extra + sum_list (map (direct u) ops)) (budget_run ops d)" if "budget_inv d" "balanced u extra d" for d extra
    using that
  proof (induction ops arbitrary: d extra)
    case (Cons x ops)
    from Cons.IH [OF budget_step_inv [OF Cons.prems(1)] balanced_step [OF Cons.prems, of x]]
    show ?case by (simp add: budget_run_def add.assoc)
  qed (simp add: budget_run_def)
  from this [OF no_budget_inv, of 0]
  show "sum_list (map (ledger_amount u) (bd_ledger (budget_run ops no_budget))) =
     sum_list (map (billed u) (bd_reservations (budget_run ops no_budget))) + sum_list (map (direct u) ops)"
    by (simp add: balanced_def no_budget_def)
next
  fix i r assume a: "reservation_of i (budget_run ops no_budget) = Some r \<and> br_state r = ''settled''"
  then have "reservation_ok r" using budget_inv_ok [OF budget_run_inv [OF no_budget_inv]] reservation_in by blast
  then show "br_accounted r" "br_act_tokens r \<noteq> None" using a by (simp_all add: reservation_ok_def)
  fix more
  show m: "reservation_of i (budget_run more (budget_run ops no_budget)) = Some r" using a settled_stays by blast
  fix c cap v uuid bucket fault now assume "i \<noteq> []"
  then show "bd_ledger (snd (write_invocation c cap v (Some i) uuid bucket fault now (budget_run more (budget_run ops no_budget)))) =
      bd_ledger (budget_run more (budget_run ops no_budget))"
    using settled_not_rewritten [OF m] a by (simp add: given_def)
qed

theorem books_balance_witness:
  "bd_ledger (snd (write_invocation plain_call None (used_tokens 70) (Some ''a'') ''l2'' ''d1'' NoFault 9 (budget_run budget_day no_budget))) =
     bd_ledger (budget_run budget_day no_budget) \<and>
   sum_list (map (ledger_amount UTokens) (bd_ledger (budget_run budget_day no_budget))) = 50"
proof -
  let ?r = "the (reservation_of ''a'' (budget_run budget_day no_budget))"
  have r: "reservation_of ''a'' (budget_run budget_day no_budget) = Some ?r \<and> br_state ?r = ''settled''"
    by (intro conjI; code_simp)
  have s: "sum_list (map (ledger_amount UTokens) (bd_ledger (budget_run budget_day no_budget))) = 50" by code_simp
  from books_balance [of UTokens budget_day, THEN conjunct2, THEN spec, THEN spec, THEN mp, OF r]
  have "bd_ledger (snd (write_invocation plain_call None (used_tokens 70) (Some ''a'') ''l2'' ''d1'' NoFault 9 (budget_run [] (budget_run budget_day no_budget)))) =
     bd_ledger (budget_run [] (budget_run budget_day no_budget))" by simp
  with s show ?thesis by (simp add: budget_run_def)
qed

subsection \<open>Admission as a whole\<close>

lemma budget_holds_cong:
  assumes "\<And>bucket run project. filter (held_row bucket run project) (bd_reservations d') = filter (held_row bucket run project) (bd_reservations d)"
  shows "budget_holds bucket run project d' = budget_holds bucket run project d"
  using assms by (simp add: budget_holds_def)

text \<open>Releasing a reservation that was just made leaves nothing held.\<close>

lemma reserve_release_holds:
  assumes "budget_reserve cfg a uuid owner today now d = (Inr rid, d')" "ra_id a = Some key" "key \<noteq> []"
  shows "budget_holds bucket run project (budget_release rid reason now' d') = budget_holds bucket run project d"
    and "bd_ledger (budget_release rid reason now' d') = bd_ledger d" "bd_logs (budget_release rid reason now' d') = bd_logs d"
proof -
  have "(\<forall>bucket run project. budget_holds bucket run project (budget_release rid reason now' d') = budget_holds bucket run project d) \<and>
      bd_ledger (budget_release rid reason now' d') = bd_ledger d \<and> bd_logs (budget_release rid reason now' d') = bd_logs d"
    using assms(1)
  proof (cases rule: reserve_cases)
    case nothing
    then show ?thesis by (cases rid) (auto simp: budget_release_def given_def)
  next
    case (granted k)
    then have k: "k = key" "given rid" "the rid = k" using assms(2,3) by (simp_all add: or_text_def given_def)
    let ?P = "\<lambda>r. br_id r = k \<and> br_state r \<in> {''reserved'', ''in_flight''}"
    have "k \<notin> br_id ` set (bd_reservations d)" using granted(3) by (simp add: reservation_of_def sel_by_None_iff)
    then have "upd_where ?P (released_row reason now') (bd_reservations d) = bd_reservations d" by (intro upd_where_id) auto
    then have r: "bd_reservations (budget_release rid reason now' d') =
        bd_reservations d @ [released_row reason now' (new_reservation a k owner today now)]"
      using granted(6) k by (simp add: budget_release_def new_reservation_def)
    have "\<not> held_row bucket run project (released_row reason now' (new_reservation a k owner today now))" for bucket run project
      by (simp add: held_row_def released_row_def new_reservation_def)
    then show ?thesis using granted(6) k(2) r
      by (intro conjI allI budget_holds_cong) (simp_all add: budget_release_def)
  qed
  then show "budget_holds bucket run project (budget_release rid reason now' d') = budget_holds bucket run project d"
    "bd_ledger (budget_release rid reason now' d') = bd_ledger d" "bd_logs (budget_release rid reason now' d') = bd_logs d" by blast+
qed

lemma reserve_dispatch:
  assumes "budget_inv d" "budget_reserve cfg a uuid owner today now d = (Inr rid, d')"
  shows "fst (mark_dispatched rid now' d') = Inr () \<and> bd_ledger (snd (mark_dispatched rid now' d')) = bd_ledger d \<and>
    (\<forall>key. rid = Some key \<and> key \<noteq> [] \<longrightarrow> (\<exists>r. reservation_of key (snd (mark_dispatched rid now' d')) = Some r \<and>
       br_state r = ''in_flight'' \<and> br_est_tokens r = max 1 (ra_tokens a)))"
  using assms(2)
proof (cases rule: reserve_cases)
  case nothing
  then show ?thesis by (cases rid) (auto simp: mark_dispatched_def given_def)
next
  case (granted key)
  show ?thesis
  proof (cases "key = []")
    case True
    then show ?thesis using granted by (simp add: mark_dispatched_def given_def)
  next
    case False
    have k: "keyed br_id (bd_reservations d')" using budget_step_inv [OF assms(1), of "BReserve cfg a uuid owner today now"] assms(2)
      by (simp add: budget_inv_def)
    have r: "sel_by br_id key (bd_reservations d') = Some (new_reservation a key owner today now)"
      using granted(3,6) by (simp add: reservation_of_def sel_by_append)
    then have h: "holds_at br_id key (\<lambda>r. br_state r = ''reserved'') (bd_reservations d')" by (simp add: new_reservation_def)
    obtain ok t where u: "update_row br_id key (\<lambda>r. br_state r = ''reserved'') (dispatched_row now') (bd_reservations d') = (ok, t)"
      by (meson surj_pair)
    have "ok" using update_row_fst [OF k, of key "\<lambda>r. br_state r = ''reserved''" "dispatched_row now'"] h u by simp
    moreover have "sel_by br_id key t = Some (dispatched_row now' (new_reservation a key owner today now))"
      using update_row_sel [OF k, of "dispatched_row now'" key key "\<lambda>r. br_state r = ''reserved''"] h r u by simp
    moreover have "bd_ledger d' = bd_ledger d" "given (Some key)" "rid = Some key"
      using granted(1,6) False by (simp_all add: given_def)
    ultimately show ?thesis
      using u by (simp add: mark_dispatched_def reservation_of_def) (simp add: dispatched_row_def new_reservation_def)
  qed
qed

text \<open>C37: admission is all or nothing. When a call is refused, by the budget, by the circuit or for
  any other reason, nothing stays held in any scope, the ledger and the log are as before and the
  circuit is untouched. When it is admitted, its reservation (if a limit applies) is in flight
  with the estimate, and its permit belongs to a pending attempt at its provider.\<close>

theorem admission_all_or_nothing:
  assumes "admit c g key context_run project input_tokens uuid owner today now clock s = (res, s')"
    and "key \<noteq> []" and "en_budget s = budget_run ops no_budget" and "en_circuit s = circuit_run cops no_circuits"
  shows "(case res of
      Inl e \<Rightarrow> (\<forall>bucket run project. budget_holds bucket run project (en_budget s') = budget_holds bucket run project (en_budget s)) \<and>
         bd_ledger (en_budget s') = bd_ledger (en_budget s) \<and> bd_logs (en_budget s') = bd_logs (en_budget s) \<and> en_circuit s' = en_circuit s
    | Inr ad \<Rightarrow> bd_ledger (en_budget s') = bd_ledger (en_budget s) \<and>
         (\<forall>rid. ad_reservation ad = Some rid \<longrightarrow> (\<exists>r. reservation_of rid (en_budget s') = Some r \<and> br_state r = ''in_flight'' \<and>
            br_est_tokens r = max 1 (input_tokens + output_estimate c g))) \<and>
         (\<exists>a. attempt_of (pm_id (ad_permit ad)) (en_circuit s') = Some a \<and> ca_state a = ''pending'' \<and>
            ca_provider a = ca_provider_id c \<and> ca_generation a = pm_generation (ad_permit ad)))"
proof -
  let ?a = "admission_args c g key context_run project input_tokens"
  let ?acq = "circuit_acquire (ca_provider_id c) (admission_circuit g) (Some key) (ca_role c \<in> set probe_roles) uuid clock (en_circuit s)"
  have inv: "budget_inv (en_budget s)" unfolding assms(3) by (rule budget_run_inv) simp
  have id: "ra_id ?a = Some key" by (simp add: admission_args_def)
  obtain r1 b where b: "budget_reserve (go_budget g) ?a uuid owner today now (en_budget s) = (r1, b)" by (meson surj_pair)
  show ?thesis
  proof (cases r1)
    case (Inl e)
    with b have "b = en_budget s" by (auto elim: reserve_cases)
    then show ?thesis using assms(1) b Inl by (auto simp: admit_def)
  next
    case rid: (Inr rid)
    note rel = reserve_release_holds [OF b [unfolded rid] id assms(2)]
    obtain r2 ci where q: "?acq = (r2, ci)" by (meson surj_pair)
    show ?thesis
    proof (cases r2)
      case (Inl e)
      then have "ci = en_circuit s" using acquire_refused_same q by blast
      then show ?thesis using assms(1) b rid q Inl rel by (auto simp: admit_def Let_def)
    next
      case pm: (Inr pm)
      note dis = reserve_dispatch [OF inv b [unfolded rid], of now]
      then have res: "res = Inr \<lparr>ad_reservation = rid, ad_permit = pm, ad_config = g\<lparr>go_circuit := admission_circuit g\<rparr>\<rparr>"
        "s' = s\<lparr>en_budget := snd (mark_dispatched rid now b), en_circuit := ci\<rparr>"
        using assms(1) b rid q pm by (auto simp: admit_def Let_def split: sum.splits prod.splits)
      have ne: "k \<noteq> []" if "rid = Some k" for k
        using b rid that id assms(2) by (auto elim!: reserve_cases simp: or_text_def)
      have "\<exists>a. attempt_of (pm_id pm) ci = Some a \<and> ca_state a = ''pending'' \<and> ca_provider a = ca_provider_id c \<and> ca_generation a = pm_generation pm"
        using q [unfolded pm]
      proof (cases rule: acquire_cases)
        case (again prior st)
        then have "attempt_of (ca_id prior) (en_circuit s) = Some prior" by (metis attempt_of_def sel_by_key)
        then show ?thesis using again by simp
      next
        case (closed st i)
        then show ?thesis by (simp add: attempt_of_def sel_by_append)
      next
        case (probe st i)
        have "i \<notin> ca_id ` set (cd_attempts (en_circuit s))" using probe(2) by (simp add: attempt_of_def sel_by_None_iff)
        then have "sel_by ca_id i (displaced st clock (cd_attempts (en_circuit s))) = None"
          using displaced_frame(1) [of st clock "cd_attempts (en_circuit s)"] by (simp add: sel_by_None_iff flip: set_map)
        then show ?thesis using probe(6,7) by (simp add: attempt_of_def sel_by_append)
      qed simp
      then show ?thesis using res dis ne by (auto simp: admission_args_def)
    qed
  qed
qed

definition tight_governance :: "int \<Rightarrow> governance" where
  "tight_governance n = \<lparr>go_budget = small_budget, go_circuit = no_circuit_config, go_output_tokens = n, go_max_failover = 0\<rparr>"

theorem admission_all_or_nothing_witness:
  "\<exists>e s'. admit plain_call (tight_governance 90) ''k'' None None 20 ''u'' ''o'' ''d1'' 1 5 \<lparr>en_budget = no_budget, en_circuit = no_circuits\<rparr> = (Inl e, s') \<and>
     en_circuit s' = no_circuits \<and> bd_ledger (en_budget s') = []"
proof -
  let ?s = "\<lparr>en_budget = no_budget, en_circuit = no_circuits\<rparr>"
  have f: "fst (admit plain_call (tight_governance 90) ''k'' None None 20 ''u'' ''o'' ''d1'' 1 5 ?s) =
    Inl (AdmissionBudget (BudgetExceeded ''global_daily_tokens'' 100 0 0 110))" by code_simp
  obtain s' where e: "admit plain_call (tight_governance 90) ''k'' None None 20 ''u'' ''o'' ''d1'' 1 5 ?s =
    (Inl (AdmissionBudget (BudgetExceeded ''global_daily_tokens'' 100 0 0 110)), s')"
    using f by (metis prod.collapse)
  from admission_all_or_nothing [OF e, of "[]" "[]"] show ?thesis
    using e by (simp add: budget_run_def circuit_run_def no_budget_def)
qed

end
