(* ===== verification/ModelRef.thy ===== *)
theory ModelRef
  imports PyText
begin

text \<open>
  core/model_ref.py: the reference \<^verbatim>\<open>provider::model\<close> of a model, with the
  library functions it uses, \<^verbatim>\<open>urllib.parse.quote\<close> with no safe characters and
  \<^verbatim>\<open>unquote\<close>, down to the bytes of UTF-8. Texts are lists of code points; a lone
  surrogate has no encoding and makes \<^verbatim>\<open>quote\<close> raise, here None. The decoder
  replaces each maximal malformed prefix by U+FFFD, as \<^verbatim>\<open>errors="replace"\<close> does.
\<close>

subsection \<open>UTF-8\<close>

definition utf8_char :: "nat \<Rightarrow> nat list option" where
  "utf8_char c =
     (if c < 128 then Some [c]
      else if c < 2048 then Some [192 + c div 64, 128 + c mod 64]
      else if c < 65536 then
        (if 0xD800 \<le> c \<and> c \<le> 0xDFFF then None
         else Some [224 + c div 4096, 128 + c div 64 mod 64, 128 + c mod 64])
      else Some [240 + c div 262144, 128 + c div 4096 mod 64, 128 + c div 64 mod 64, 128 + c mod 64])"

fun utf8_encode :: "ustr \<Rightarrow> nat list option" where
  "utf8_encode [] = Some []"
| "utf8_encode (c # cs) =
     (case utf8_char c of None \<Rightarrow> None
      | Some b \<Rightarrow> (case utf8_encode cs of None \<Rightarrow> None | Some bs \<Rightarrow> Some (b @ bs)))"

definition cont_byte :: "nat \<Rightarrow> bool" where
  "cont_byte b \<longleftrightarrow> 128 \<le> b \<and> b \<le> 191"

definition second_byte :: "nat \<Rightarrow> nat \<Rightarrow> bool" where
  "second_byte b c \<longleftrightarrow> cont_byte c \<and> (b = 224 \<longrightarrow> 160 \<le> c) \<and> (b = 237 \<longrightarrow> c \<le> 159) \<and>
     (b = 240 \<longrightarrow> 144 \<le> c) \<and> (b = 244 \<longrightarrow> c \<le> 143)"

fun utf8_decode :: "nat list \<Rightarrow> ustr" where
  "utf8_decode [] = []"
| "utf8_decode (b # bs) =
     (if b < 128 then b # utf8_decode bs
      else if b < 194 \<or> 244 < b then 65533 # utf8_decode bs
      else case bs of
        [] \<Rightarrow> [65533]
      | c # cs \<Rightarrow>
          if \<not> second_byte b c then 65533 # utf8_decode bs
          else if b < 224 then ((b - 192) * 64 + (c - 128)) # utf8_decode cs
          else (case cs of
            [] \<Rightarrow> [65533]
          | d # ds \<Rightarrow>
              if \<not> cont_byte d then 65533 # utf8_decode cs
              else if b < 240 then ((b - 224) * 4096 + (c - 128) * 64 + (d - 128)) # utf8_decode ds
              else (case ds of
                [] \<Rightarrow> [65533]
              | e # es \<Rightarrow>
                  if \<not> cont_byte e then 65533 # utf8_decode ds
                  else ((b - 240) * 262144 + (c - 128) * 4096 + (d - 128) * 64 + (e - 128)) # utf8_decode es)))"

declare utf8_decode.simps(2) [simp del]

subsection \<open>Percent encoding\<close>

definition unreserved_byte :: "nat \<Rightarrow> bool" where
  "unreserved_byte b \<longleftrightarrow> (48 \<le> b \<and> b \<le> 57) \<or> (65 \<le> b \<and> b \<le> 90) \<or> (97 \<le> b \<and> b \<le> 122) \<or>
     b = 95 \<or> b = 46 \<or> b = 45 \<or> b = 126"

definition hex_digit :: "nat \<Rightarrow> nat" where
  "hex_digit n = (if n < 10 then 48 + n else 55 + n)"

definition hex_value :: "nat \<Rightarrow> nat option" where
  "hex_value c = (if 48 \<le> c \<and> c \<le> 57 then Some (c - 48) else if 65 \<le> c \<and> c \<le> 70 then Some (c - 55)
     else if 97 \<le> c \<and> c \<le> 102 then Some (c - 87) else None)"

definition quote_byte :: "nat \<Rightarrow> ustr" where
  "quote_byte b = (if unreserved_byte b then [b] else [37, hex_digit (b div 16), hex_digit (b mod 16)])"

definition quote :: "ustr \<Rightarrow> ustr option" where
  "quote s = map_option (\<lambda>bs. concat (map quote_byte bs)) (utf8_encode s)"

fun unquote_to_bytes :: "ustr \<Rightarrow> nat list" where
  "unquote_to_bytes [] = []"
| "unquote_to_bytes (p # a # b # s) =
     (if p = 37 \<and> hex_value a \<noteq> None \<and> hex_value b \<noteq> None
      then (16 * the (hex_value a) + the (hex_value b)) # unquote_to_bytes s
      else p # unquote_to_bytes (a # b # s))"
| "unquote_to_bytes (p # s) = p # unquote_to_bytes s"

function unquote_chunks :: "ustr \<Rightarrow> ustr" where
  "unquote_chunks s =
     (if s = [] then []
      else if hd s < 128
      then utf8_decode (unquote_to_bytes (takeWhile (\<lambda>c. c < 128) s)) @ unquote_chunks (dropWhile (\<lambda>c. c < 128) s)
      else hd s # unquote_chunks (tl s))"
  by auto
termination
proof (relation "measure length")
  fix s :: ustr assume "s \<noteq> []" "hd s < 128"
  then show "(dropWhile (\<lambda>c. c < 128) s, s) \<in> measure length"
    by (cases s) (auto intro: le_imp_less_Suc length_dropWhile_le)
next
  fix s :: ustr assume "s \<noteq> []"
  then show "(tl s, s) \<in> measure length" by (cases s) auto
qed simp

declare unquote_chunks.simps [simp del]

definition unquote :: "ustr \<Rightarrow> ustr" where
  "unquote s = (if 37 \<in> set s then unquote_chunks s else s)"

subsection \<open>References\<close>

text \<open>\<^verbatim>\<open>raw.split("::", 1)\<close>, None when the separator is missing.\<close>

fun split_ref :: "ustr \<Rightarrow> (ustr \<times> ustr) option" where
  "split_ref (a # b # s) =
     (if a = 58 \<and> b = 58 then Some ([], s)
      else map_option (\<lambda>(p, m). (a # p, m)) (split_ref (b # s)))"
| "split_ref _ = None"

definition make_model_ref :: "ustr option \<Rightarrow> ustr option \<Rightarrow> ustr option" where
  "make_model_ref provider_id model_id =
     (let provider = u_strip (u_text provider_id); model = u_strip (u_text model_id)
      in if provider = [] \<or> model = [] then Some []
         else map_option (\<lambda>q. provider @ [58, 58] @ q) (quote model))"

definition parse_model_ref :: "ustr option \<Rightarrow> (ustr \<times> ustr) option" where
  "parse_model_ref value =
     (let raw = u_strip (u_text value)
      in case split_ref raw of
           None \<Rightarrow> None
         | Some (p, encoded) \<Rightarrow>
             (let provider = u_strip p; model = unquote (u_strip encoded)
              in if provider = [] \<or> model = [] then None else Some (provider, model)))"

definition is_model_ref :: "ustr option \<Rightarrow> bool" where
  "is_model_ref value \<longleftrightarrow> parse_model_ref value \<noteq> None"

subsection \<open>Decoding inverts encoding\<close>

definition code_point :: "nat \<Rightarrow> bool" where
  "code_point c \<longleftrightarrow> c \<le> 0x10FFFF"

lemma digits3: "(c::nat) = c div 4096 * 4096 + c div 64 mod 64 * 64 + c mod 64"
proof -
  have "c div 4096 = c div 64 div 64" by (simp flip: div_mult2_eq)
  then have "c div 64 = c div 4096 * 64 + c div 64 mod 64" by (simp add: mult.commute)
  moreover have "c = c div 64 * 64 + c mod 64" by simp
  ultimately show ?thesis by linarith
qed

lemma digits4: "(c::nat) = c div 262144 * 262144 + c div 4096 mod 64 * 4096 + c div 64 mod 64 * 64 + c mod 64"
proof -
  have "c div 262144 = c div 4096 div 64" by (simp flip: div_mult2_eq)
  then have "c div 4096 = c div 262144 * 64 + c div 4096 mod 64" by (simp add: mult.commute)
  with digits3 [of c] show ?thesis by linarith
qed

lemma utf8_decode2:
  assumes "2 \<le> h" "h < 32" "m < 64"
  shows "utf8_decode ((192 + h) # (128 + m) # rest) = (h * 64 + m) # utf8_decode rest"
  using assms by (simp add: utf8_decode.simps(2) second_byte_def cont_byte_def)

lemma utf8_decode3:
  assumes "h < 16" "m < 64" "l < 64" "h = 0 \<longrightarrow> 32 \<le> m" "h = 13 \<longrightarrow> m \<le> 31"
  shows "utf8_decode ((224 + h) # (128 + m) # (128 + l) # rest) = (h * 4096 + m * 64 + l) # utf8_decode rest"
  using assms by (simp add: utf8_decode.simps(2) second_byte_def cont_byte_def)

lemma utf8_decode4:
  assumes "h \<le> 4" "g < 64" "m < 64" "l < 64" "h = 0 \<longrightarrow> 16 \<le> g" "h = 4 \<longrightarrow> g \<le> 15"
  shows "utf8_decode ((240 + h) # (128 + g) # (128 + m) # (128 + l) # rest) =
    (h * 262144 + g * 4096 + m * 64 + l) # utf8_decode rest"
  using assms by (simp add: utf8_decode.simps(2) second_byte_def cont_byte_def)

lemma utf8_char_decode:
  assumes "utf8_char c = Some b" "code_point c"
  shows "utf8_decode (b @ rest) = c # utf8_decode rest"
proof -
  have top: "c \<le> 0x10FFFF" using assms(2) by (simp add: code_point_def)
  consider (one) "c < 128" "b = [c]" | (two) "128 \<le> c" "c < 2048" "b = [192 + c div 64, 128 + c mod 64]"
    | (three) "2048 \<le> c" "c < 65536" "c < 55296 \<or> 57343 < c" "b = [224 + c div 4096, 128 + c div 64 mod 64, 128 + c mod 64]"
    | (four) "65536 \<le> c" "b = [240 + c div 262144, 128 + c div 4096 mod 64, 128 + c div 64 mod 64, 128 + c mod 64]"
    using assms(1) unfolding utf8_char_def by (auto split: if_splits)
  then show ?thesis
  proof cases
    case one
    then show ?thesis by (simp add: utf8_decode.simps(2))
  next
    case two
    have e: "c div 64 * 64 + c mod 64 = c" by simp
    moreover have "c mod 64 < 64" by simp
    ultimately have "2 \<le> c div 64" "c div 64 < 32" using two(1,2) by linarith+
    then show ?thesis using two(3) utf8_decode2 [of "c div 64" "c mod 64" rest] e by simp
  next
    case three
    define h m l where d: "h = c div 4096" "m = c div 64 mod 64" "l = c mod 64"
    have e: "c = h * 4096 + m * 64 + l" using digits3 [of c] d by simp
    have b: "m < 64" "l < 64" by (simp_all add: d)
    have "h < 16" using e three(2) by linarith
    moreover have "h = 0 \<longrightarrow> 32 \<le> m" using e b three(1) by (intro impI) linarith
    moreover have "h = 13 \<longrightarrow> m \<le> 31" using e b three(3) by (intro impI, elim disjE) linarith+
    ultimately have "utf8_decode ((224 + h) # (128 + m) # (128 + l) # rest) = (h * 4096 + m * 64 + l) # utf8_decode rest"
      using b by (intro utf8_decode3)
    moreover have "b = [224 + h, 128 + m, 128 + l]" using three(4) by (simp only: d)
    ultimately show ?thesis unfolding e [symmetric] by simp
  next
    case four
    define h g m l where d: "h = c div 262144" "g = c div 4096 mod 64" "m = c div 64 mod 64" "l = c mod 64"
    have e: "c = h * 262144 + g * 4096 + m * 64 + l" using digits4 [of c] d by simp
    have b: "g < 64" "m < 64" "l < 64" by (simp_all add: d)
    have "h \<le> 4" using e top by linarith
    moreover have "h = 0 \<longrightarrow> 16 \<le> g" using e b four(1) by (intro impI) linarith
    moreover have "h = 4 \<longrightarrow> g \<le> 15" using e b top by (intro impI) linarith
    ultimately have "utf8_decode ((240 + h) # (128 + g) # (128 + m) # (128 + l) # rest) =
        (h * 262144 + g * 4096 + m * 64 + l) # utf8_decode rest" using b by (intro utf8_decode4)
    moreover have "b = [240 + h, 128 + g, 128 + m, 128 + l]" using four(2) by (simp only: d)
    ultimately show ?thesis unfolding e [symmetric] by simp
  qed
qed

lemma utf8_roundtrip:
  "utf8_encode s = Some bs \<Longrightarrow> \<forall>c \<in> set s. code_point c \<Longrightarrow> utf8_decode bs = s"
  by (induction s arbitrary: bs) (auto split: option.splits simp: utf8_char_decode)

lemma utf8_char_bytes: "utf8_char c = Some b \<Longrightarrow> code_point c \<Longrightarrow> x \<in> set b \<Longrightarrow> x < 256"
proof -
  assume a: "utf8_char c = Some b" "code_point c" "x \<in> set b"
  have "c div 262144 \<le> 4" using a(2) digits4 [of c] unfolding code_point_def by linarith
  moreover have "c < 65536 \<Longrightarrow> c div 4096 < 16" using digits3 [of c] by linarith
  moreover have "c < 2048 \<Longrightarrow> c div 64 < 32" using div_mult_mod_eq [of c 64] by linarith
  moreover have "c mod 64 < 64" "c div 64 mod 64 < 64" "c div 4096 mod 64 < 64" by simp_all
  ultimately show "x < 256" using a(1,3) unfolding utf8_char_def by (auto split: if_splits)
qed

lemma utf8_bytes: "utf8_encode s = Some bs \<Longrightarrow> \<forall>c \<in> set s. code_point c \<Longrightarrow> \<forall>x \<in> set bs. x < 256"
proof (induction s arbitrary: bs)
  case (Cons c s)
  then obtain b bs' where b: "utf8_char c = Some b" "utf8_encode s = Some bs'" "bs = b @ bs'"
    by (auto split: option.splits)
  then show ?case using Cons.IH [OF b(2)] Cons.prems(2) utf8_char_bytes [OF b(1)] by auto
qed simp

subsection \<open>Unquoting inverts quoting\<close>

lemma hex_roundtrip: "n < 16 \<Longrightarrow> hex_value (hex_digit n) = Some n"
  by (simp add: hex_value_def hex_digit_def)

lemma unquote_quote_byte:
  assumes "x < 256"
  shows "unquote_to_bytes (quote_byte x @ r) = x # unquote_to_bytes r"
proof (cases "unreserved_byte x")
  case True
  then have "x \<noteq> 37" by (auto simp: unreserved_byte_def)
  then show ?thesis using True by (cases r; cases "tl r") (auto simp: quote_byte_def)
next
  case False
  have "x div 16 < 16" "x mod 16 < 16" "16 * (x div 16) + x mod 16 = x" using assms by auto
  then show ?thesis using False by (simp add: quote_byte_def hex_roundtrip)
qed

lemma unquote_quote_bytes: "\<forall>x \<in> set bs. x < 256 \<Longrightarrow> unquote_to_bytes (concat (map quote_byte bs)) = bs"
  by (induction bs) (simp_all add: unquote_quote_byte)

lemma quote_byte_visible: "x < 256 \<Longrightarrow> c \<in> set (quote_byte x) \<Longrightarrow> c = 37 \<or> unreserved_byte c"
proof -
  assume a: "x < 256" "c \<in> set (quote_byte x)"
  have "n < 16 \<Longrightarrow> unreserved_byte (hex_digit n)" for n by (simp add: unreserved_byte_def hex_digit_def)
  moreover have "x div 16 < 16" "x mod 16 < 16" using a(1) by auto
  ultimately show ?thesis using a(2) by (auto simp: quote_byte_def split: if_splits)
qed

lemma unreserved_visible: "unreserved_byte c \<Longrightarrow> \<not> u_space c \<and> c < 128 \<and> c \<noteq> 58"
  by (auto simp: unreserved_byte_def u_space_def)

lemma utf8_decode_ascii: "\<forall>x \<in> set bs. x < 128 \<Longrightarrow> utf8_decode bs = bs"
  by (induction bs) (simp_all add: utf8_decode.simps(2))

lemma unquote_chunks_Nil [simp]: "unquote_chunks [] = []"
  by (subst unquote_chunks.simps) simp

lemma unquote_chunks_ascii:
  assumes "s \<noteq> []" "\<forall>c \<in> set s. c < 128"
  shows "unquote_chunks s = utf8_decode (unquote_to_bytes s)"
proof -
  have t: "takeWhile (\<lambda>c. c < 128) s = s" "dropWhile (\<lambda>c. c < 128) s = []" using assms(2) by (simp_all add: takeWhile_eq_all_conv)
  have "hd s < 128" using assms by (cases s) auto
  then show ?thesis using assms(1) by (subst unquote_chunks.simps) (simp only: t if_False if_True unquote_chunks_Nil append_Nil2)
qed

lemma quote_bytes_id: "\<forall>x \<in> set bs. unreserved_byte x \<Longrightarrow> concat (map quote_byte bs) = bs"
  by (induction bs) (simp_all add: quote_byte_def)

lemma unquote_quote:
  assumes "quote s = Some q" "\<forall>c \<in> set s. code_point c"
  shows "unquote q = s" and "\<forall>c \<in> set q. \<not> u_space c \<and> c < 128 \<and> c \<noteq> 58" and "s \<noteq> [] \<Longrightarrow> q \<noteq> []"
proof -
  obtain bs where bs: "utf8_encode s = Some bs" "q = concat (map quote_byte bs)" using assms(1) by (auto simp: quote_def)
  have small: "\<forall>x \<in> set bs. x < 256" using utf8_bytes bs(1) assms(2) by blast
  have visible: "c = 37 \<or> unreserved_byte c" if "c \<in> set q" for c
    using that quote_byte_visible small unfolding bs(2) by auto
  show v: "\<forall>c \<in> set q. \<not> u_space c \<and> c < 128 \<and> c \<noteq> 58"
  proof
    fix c assume "c \<in> set q"
    from visible [OF this] show "\<not> u_space c \<and> c < 128 \<and> c \<noteq> 58"
    proof
      assume "c = 37"
      then show ?thesis by (simp add: u_space_def)
    qed (rule unreserved_visible)
  qed
  have un: "unquote_to_bytes q = bs" unfolding bs(2) using small by (rule unquote_quote_bytes)
  show "s \<noteq> [] \<Longrightarrow> q \<noteq> []" using un utf8_roundtrip [OF bs(1) assms(2)] by auto
  have dec: "utf8_decode bs = s" using bs(1) assms(2) by (rule utf8_roundtrip)
  show "unquote q = s"
  proof (cases "37 \<in> set q")
    case True
    then have "q \<noteq> []" by auto
    then have "unquote_chunks q = utf8_decode (unquote_to_bytes q)" using v by (intro unquote_chunks_ascii) auto
    then show ?thesis using True un dec by (simp add: unquote_def)
  next
    case False
    have "unreserved_byte x" if "x \<in> set bs" for x
    proof (rule ccontr)
      assume "\<not> unreserved_byte x"
      then have "37 \<in> set (quote_byte x)" by (simp add: quote_byte_def)
      then show False using that False bs(2) by auto
    qed
    then have "q = bs" "\<forall>x \<in> set bs. x < 128" using quote_bytes_id [of bs] bs(2) unreserved_visible by simp_all
    then show ?thesis using False dec utf8_decode_ascii [of bs] by (simp add: unquote_def)
  qed
qed

subsection \<open>The separator\<close>

lemma split_ref_hit: "split_ref (p @ [58]) = None \<Longrightarrow> split_ref (p @ 58 # 58 # q) = Some (p, q)"
proof (induction p)
  case (Cons a p)
  then show ?case by (cases p) (auto split: if_splits)
qed simp

lemma split_ref_early:
  "split_ref (p @ [58]) = Some (p1, s1) \<Longrightarrow> \<exists>s2. split_ref (p @ 58 # q) = Some (p1, s2) \<and> length p1 < length p"
proof (induction p arbitrary: p1)
  case (Cons a p)
  show ?case
  proof (cases p)
    case Nil
    then show ?thesis using Cons.prems by (auto split: if_splits)
  next
    case (Cons b p')
    show ?thesis
    proof (cases "a = 58 \<and> b = 58")
      case True
      then show ?thesis using Cons.prems Cons by simp
    next
      case False
      then obtain p2 where "split_ref (p @ [58]) = Some (p2, s1)" "p1 = a # p2"
        using Cons.prems Cons by (auto split: if_splits)
      then show ?thesis using Cons.IH [of p2] False Cons by auto
    qed
  qed
qed simp

lemma length_u_strip: "length (u_strip s) \<le> length s"
  unfolding u_strip_def u_rstrip_def u_lstrip_def
  by (metis length_dropWhile_le length_rev order_trans)

lemma set_u_strip: "set (u_strip s) \<subseteq> set s"
  unfolding u_strip_def u_rstrip_def u_lstrip_def by (auto dest!: set_dropWhileD)

text \<open>The reference of a model can be read back. For a provider and a model that are not
  blank, parsing what \<^verbatim>\<open>make_model_ref\<close> built returns the trimmed provider and the
  trimmed model, whatever characters the model contains, through percent encoding and UTF-8;
  except for one kind of provider, and exactly that one: a provider with a double colon, or with
  a colon at its end, is not escaped and comes back wrong.\<close>

theorem model_ref_roundtrip:
  assumes "make_model_ref (Some p) (Some m) = Some r" and "\<forall>c \<in> set m. code_point c"
    and "u_strip p \<noteq> []" and "u_strip m \<noteq> []"
  shows "parse_model_ref (Some r) = Some (u_strip p, u_strip m) \<longleftrightarrow> split_ref (u_strip p @ [58]) = None"
proof -
  let ?p = "u_strip p" and ?m = "u_strip m"
  obtain q where q: "quote ?m = Some q" "r = ?p @ 58 # 58 # q"
    using assms(1,3,4) by (auto simp: make_model_ref_def Let_def)
  have m: "\<forall>c \<in> set ?m. code_point c" using assms(2) set_u_strip by blast
  note uq = unquote_quote [OF q(1) m]
  have ne: "q \<noteq> []" using uq(3) assms(4) by simp
  have sq: "u_strip q = q"
    by (rule u_strip_id) (use uq(2) ne in \<open>simp add: hd_in_set\<close>)
  have "hd r = hd ?p" "last r = last q" using q(2) assms(3) ne by simp_all
  then have sr: "u_strip r = r" using u_strip_ends [OF assms(3)] uq(2) ne
    by (intro u_strip_id) (simp add: last_in_set)
  show ?thesis
  proof (cases "split_ref (?p @ [58])")
    case None
    then have "split_ref r = Some (?p, q)" using split_ref_hit q(2) by simp
    then show ?thesis using sr sq uq(1) assms(3,4) None by (simp add: parse_model_ref_def)
  next
    case (Some x)
    then obtain p1 s1 where x: "split_ref (?p @ [58]) = Some (p1, s1)" by (cases x) auto
    obtain s2 where s2: "split_ref r = Some (p1, s2)" "length p1 < length ?p"
      using split_ref_early [OF x, of "58 # q"] q(2) by auto
    have "u_strip p1 \<noteq> ?p" using length_u_strip [of p1] s2(2) by auto
    then show ?thesis using sr s2(1) Some by (auto simp: parse_model_ref_def Let_def)
  qed
qed

theorem model_ref_roundtrip_witness:
  "parse_model_ref (make_model_ref (Some (lit ''openai '')) (Some [0x6A21, 47, 37, 0x1F600])) =
     Some (lit ''openai'', [0x6A21, 47, 37, 0x1F600]) \<and>
   parse_model_ref (make_model_ref (Some (lit ''local:'')) (Some (lit ''m''))) = Some (lit ''local'', lit '':m'')"
proof -
  note defs = lit_def u_strip_def u_lstrip_def u_rstrip_def u_space_def code_point_def
  let ?p = "lit ''openai ''" and ?m = "[0x6A21, 47, 37, 0x1F600] :: ustr"
  have s: "u_strip ?p = lit ''openai''" "u_strip ?m = ?m" by (simp_all add: defs)
  have "quote ?m \<noteq> None" by (simp add: quote_def utf8_char_def)
  then obtain r where r: "make_model_ref (Some ?p) (Some ?m) = Some r"
    using s by (cases "lit ''openai'' = []") (auto simp: make_model_ref_def Let_def)
  have h: "\<forall>c \<in> set ?m. code_point c" "u_strip ?p \<noteq> []" "u_strip ?m \<noteq> []" "split_ref (u_strip ?p @ [58]) = None"
    unfolding s by (simp_all add: defs)
  have "parse_model_ref (Some r) = Some (u_strip ?p, u_strip ?m)"
    using model_ref_roundtrip [OF r h(1-3)] h(4) by blast
  moreover have "parse_model_ref (make_model_ref (Some (lit ''local:'')) (Some (lit ''m''))) = Some (lit ''local'', lit '':m'')"
    by (simp add: parse_model_ref_def make_model_ref_def quote_def utf8_char_def quote_byte_def unreserved_byte_def
        unquote_def defs Let_def)
  ultimately show ?thesis using s r by simp
qed

end
