(* ===== verification/TokenPolicy.thy ===== *)
theory TokenPolicy
  imports PyValue
begin

text \<open>
  core/model_token_policy.py: which limit on output tokens a model call is sent with. The
  configured cap of the user, the limit the caller asks for under any of its aliases, and the
  documented facts about the model are resolved to one number with its source. Numbers are read
  as Python does, \<^verbatim>\<open>int\<close> of a decimal text included; a count a double cannot represent
  is refused, because the code compares \<^verbatim>\<open>float(value)\<close> with \<^verbatim>\<open>int(value)\<close>
  (a float value is a double already).
\<close>

subsection \<open>Numbers\<close>

definition digit_value :: "char \<Rightarrow> int option" where
  "digit_value c = (let n = (of_char c :: nat) in if 48 \<le> n \<and> n \<le> 57 then Some (int n - 48) else None)"

text \<open>Digits with single underscores between them, as \<^verbatim>\<open>int\<close> and
  \<^verbatim>\<open>float\<close> both read them.\<close>

fun read_digits :: "string \<Rightarrow> bool \<Rightarrow> int \<Rightarrow> int option" where
  "read_digits [] digit_before acc = (if digit_before then Some acc else None)"
| "read_digits (c # cs) digit_before acc =
     (case digit_value c of
        Some d \<Rightarrow> read_digits cs True (acc * 10 + d)
      | None \<Rightarrow> if c = CHR ''_'' \<and> digit_before then read_digits cs False acc else None)"

definition read_int :: "string \<Rightarrow> int option" where
  "read_int s = (case py_strip s of
       [] \<Rightarrow> None
     | c # cs \<Rightarrow>
         if length (filter (\<lambda>d. digit_value d \<noteq> None) (c # cs)) > 4300 then None
         else if c = CHR ''-'' then map_option uminus (read_digits cs False 0)
         else if c = CHR ''+'' then read_digits cs False 0
         else read_digits (c # cs) False 0)"

text \<open>The positive integers a double represents exactly: 53 significant bits, below
  \<open>2 ^ 1024\<close>.\<close>

function odd_part :: "int \<Rightarrow> int" where
  "odd_part n = (if 0 < n \<and> even n then odd_part (n div 2) else n)"
  by auto
termination by (relation "measure nat") auto

declare odd_part.simps [simp del]

definition float_exact :: "int \<Rightarrow> bool" where
  "float_exact n \<longleftrightarrow> n < 2 ^ 1024 \<and> odd_part n < 2 ^ 53"

lemma odd_part_le: "0 \<le> n \<Longrightarrow> odd_part n \<le> n"
proof (induction n rule: odd_part.induct)
  case (1 n)
  show ?case
  proof (cases "0 < n \<and> even n")
    case True
    then have "odd_part (n div 2) \<le> n div 2" using 1 by simp
    moreover have "n div 2 \<le> n" using True by linarith
    ultimately show ?thesis using True by (subst odd_part.simps) simp
  next
    case False
    then show ?thesis by (subst odd_part.simps) auto
  qed
qed

text \<open>Every integer below \<open>2 ^ 53\<close> is exact.\<close>

lemma float_exact_small: "0 < n \<Longrightarrow> n < 9007199254740992 \<Longrightarrow> float_exact n"
proof -
  assume n: "0 < n" "n < 9007199254740992"
  have "(2::int) ^ 53 \<le> 2 ^ 1024" by (rule power_increasing) simp_all
  moreover have "(2::int) ^ 53 = 9007199254740992" by simp
  ultimately have "n < 2 ^ 1024" using n(2) by linarith
  moreover have "odd_part n < 2 ^ 53" using odd_part_le [of n] n by simp
  ultimately show ?thesis by (simp add: float_exact_def)
qed

fun positive_token_count :: "json \<Rightarrow> int option" where
  "positive_token_count (JInt i) = (if 0 < i \<and> float_exact i then Some i else None)"
| "positive_token_count (JFloat q) = (if 0 < \<lfloor>q\<rfloor> \<and> of_int \<lfloor>q\<rfloor> = q \<and> float_exact \<lfloor>q\<rfloor> then Some \<lfloor>q\<rfloor> else None)"
| "positive_token_count (JStr s) =
     (case read_int s of None \<Rightarrow> None | Some i \<Rightarrow> if 0 < i \<and> float_exact i then Some i else None)"
| "positive_token_count _ = None"

subsection \<open>The mode of a model\<close>

definition ascii_upper :: "string \<Rightarrow> string" where
  "ascii_upper s = map (\<lambda>c. let n = (of_char c :: nat) in if 97 \<le> n \<and> n \<le> 122 then char_of (n - 32) else c) s"

definition max_tokens_facts :: "dict \<Rightarrow> dict" where
  "max_tokens_facts model = as_dict (dget (as_dict (dget model ''factProvenance'')) ''maxTokens'')"

definition output_token_mode :: "dict \<Rightarrow> string" where
  "output_token_mode model =
     (if dget model ''outputTokenMode'' \<in> {JStr ''auto'', JStr ''fixed''} then as_text (dget model ''outputTokenMode'')
      else if dget (max_tokens_facts model) ''source'' = JStr ''v8_conservative_2026_default'' \<and>
              dget (max_tokens_facts model) ''confidence'' = JStr ''estimated'' \<and>
              py_eq (dget model ''maxTokens'') (JInt 4096)
      then ''auto''
      else if positive_token_count (dget model ''maxTokens'') \<noteq> None then ''fixed'' else ''auto'')"

definition normalize_output_token_policy :: "dict \<Rightarrow> dict" where
  "normalize_output_token_policy model =
     (let kind = (if truthy (dget model ''type'') then as_text (dget model ''type'') else ''TEXT'') in
      if ascii_upper kind \<notin> {''TEXT'', ''MULTIMODAL'', ''VISION'', ''CHAT''} then model
      else if output_token_mode model = ''auto'' then dset ''outputTokenMode'' (JStr ''auto'') model
      else model)"

subsection \<open>The budget of a call\<close>

record token_budget =
  tb_mode :: string
  tb_max_tokens :: "int option"
  tb_source :: string

definition token_record :: "dict \<Rightarrow> dict" where
  "token_record meta =
     (let r = as_dict (dget meta ''model_record'') in
      if r \<noteq> [] then r
      else [(''maxTokens'', dget meta ''global_max_tokens'')] @
        (if truthy (dget meta ''output_token_mode'') then [(''outputTokenMode'', dget meta ''output_token_mode'')] else []))"

definition smaller_of :: "int option \<Rightarrow> int option \<Rightarrow> int option" where
  "smaller_of a b = (case a of None \<Rightarrow> b | Some x \<Rightarrow> (case b of None \<Rightarrow> a | Some y \<Rightarrow> Some (min x y)))"

definition verified_capacity :: "dict \<Rightarrow> bool" where
  "verified_capacity r \<longleftrightarrow>
     dget (max_tokens_facts r) ''source'' \<in> {JStr ''online_provider_metadata'', JStr ''official_docs''} \<and>
     dget (max_tokens_facts r) ''confidence'' = JStr ''authoritative''"

definition configured_cap :: "dict \<Rightarrow> int option" where
  "configured_cap r = (if output_token_mode r = ''fixed'' then positive_token_count (dget r ''maxTokens'') else None)"

definition resolve_output_token_budget :: "dict \<Rightarrow> json \<Rightarrow> bool \<Rightarrow> token_budget" where
  "resolve_output_token_budget meta requested requires_value =
     (let r = token_record meta;
          mode = output_token_mode r;
          configured = configured_cap r;
          requested_count = positive_token_count requested;
          value = smaller_of configured requested_count;
          source = (if configured \<noteq> None \<and> value = configured then ''user_or_legacy_fixed''
                    else if value \<noteq> None then ''request_budget'' else ''provider_default'')
      in if value = None \<and> requires_value
         then (case (if verified_capacity r then positive_token_count (dget r ''maxTokens'') else None) of
                 Some n \<Rightarrow> \<lparr>tb_mode = mode, tb_max_tokens = Some n, tb_source = ''protocol_required_verified_capacity''\<rparr>
               | None \<Rightarrow> \<lparr>tb_mode = mode, tb_max_tokens = Some 32768, tb_source = ''required_parameter_default''\<rparr>)
         else \<lparr>tb_mode = mode, tb_max_tokens = value, tb_source = source\<rparr>)"

subsection \<open>The arguments of a call\<close>

definition output_token_keys :: "string list" where
  "output_token_keys = [''max_tokens'', ''max_completion_tokens'', ''max_output_tokens'', ''max_tokens_to_sample'']"

text \<open>The aliases of one container are taken out one after the other; the first value that is no
  positive count stops with its alias.\<close>

fun pop_aliases :: "string list \<Rightarrow> dict \<Rightarrow> int list \<Rightarrow> string + int list \<times> dict" where
  "pop_aliases [] d acc = Inr (acc, d)"
| "pop_aliases (k # ks) d acc =
     (case map_of d k of
        None \<Rightarrow> pop_aliases ks d acc
      | Some v \<Rightarrow>
          (if v = JNull then pop_aliases ks (dpop k d) acc
           else case positive_token_count v of
                  None \<Rightarrow> Inl k
                | Some n \<Rightarrow> pop_aliases ks (dpop k d) (acc @ [n])))"

definition pop_nested :: "string \<Rightarrow> dict \<Rightarrow> int list \<Rightarrow> string + int list \<times> dict" where
  "pop_nested name d acc =
     (if is_dict (dget d name)
      then (case pop_aliases output_token_keys (as_dict (dget d name)) acc of
              Inl k \<Rightarrow> Inl k
            | Inr (acc', e) \<Rightarrow> Inr (acc', dset name (JObj e) d))
      else Inr (acc, d))"

definition prepare_output_token_kwargs ::
  "dict \<Rightarrow> dict \<Rightarrow> string \<Rightarrow> bool \<Rightarrow> string + dict \<times> token_budget" where
  "prepare_output_token_kwargs meta kwargs key requires_value =
     (case pop_aliases output_token_keys kwargs [] of
        Inl k \<Rightarrow> Inl k
      | Inr (r1, d1) \<Rightarrow>
          (case pop_nested ''model_kwargs'' d1 r1 of
             Inl k \<Rightarrow> Inl k
           | Inr (r2, d2) \<Rightarrow>
               (case pop_nested ''extra_body'' d2 r2 of
                  Inl k \<Rightarrow> Inl k
                | Inr (requested, d3) \<Rightarrow>
                    (let budget = resolve_output_token_budget meta
                           (if requested = [] then JNull else JInt (Min (set requested))) requires_value
                     in Inr (case tb_max_tokens budget of None \<Rightarrow> d3 | Some n \<Rightarrow> dset key (JInt n) d3, budget)))))"

subsection \<open>What is taken out of a container\<close>

text \<open>The counts a container asks for under its aliases, and whether one of them is unusable.\<close>

definition asked :: "string list \<Rightarrow> dict \<Rightarrow> int set" where
  "asked ks d = {n. \<exists>k \<in> set ks. \<exists>v. map_of d k = Some v \<and> v \<noteq> JNull \<and> positive_token_count v = Some n}"

definition unusable :: "string list \<Rightarrow> dict \<Rightarrow> bool" where
  "unusable ks d \<longleftrightarrow> (\<exists>k \<in> set ks. \<exists>v. map_of d k = Some v \<and> v \<noteq> JNull \<and> positive_token_count v = None)"

lemma asked_unusable_dpop:
  assumes "k \<notin> set ks"
  shows "asked ks (dpop k d) = asked ks d" "unusable ks (dpop k d) = unusable ks d"
proof -
  have "map_of (dpop k d) j = map_of d j" if "j \<in> set ks" for j using that assms by auto
  then show "asked ks (dpop k d) = asked ks d" "unusable ks (dpop k d) = unusable ks d"
    unfolding asked_def unusable_def by (simp_all cong: bex_cong)
qed

lemma asked_Cons:
  "asked (k # ks) d = {n. \<exists>v. map_of d k = Some v \<and> v \<noteq> JNull \<and> positive_token_count v = Some n} \<union> asked ks d"
  "unusable (k # ks) d \<longleftrightarrow> (\<exists>v. map_of d k = Some v \<and> v \<noteq> JNull \<and> positive_token_count v = None) \<or> unusable ks d"
  by (auto simp: asked_def unusable_def)

lemma pop_aliases_result:
  "distinct ks \<Longrightarrow> (case pop_aliases ks d acc of
     Inl k \<Rightarrow> unusable ks d
   | Inr (acc', d') \<Rightarrow> \<not> unusable ks d \<and> set acc' = set acc \<union> asked ks d \<and>
       (\<forall>k. map_of d' k = (if k \<in> set ks then None else map_of d k)))"
proof (induction ks arbitrary: d acc)
  case Nil
  then show ?case by (simp add: unusable_def asked_def)
next
  case (Cons k ks)
  then have k: "k \<notin> set ks" "distinct ks" by simp_all
  show ?case
  proof (cases "map_of d k")
    case None
    then show ?thesis using Cons.IH [OF k(2), of d acc] by (auto simp: asked_Cons split: sum.splits)
  next
    case (Some v)
    show ?thesis
    proof (cases "v = JNull")
      case True
      then show ?thesis using Some Cons.IH [OF k(2), of "dpop k d" acc] asked_unusable_dpop [OF k(1), of d]
        by (auto simp: asked_Cons split: sum.splits)
    next
      case nn: False
      show ?thesis
      proof (cases "positive_token_count v")
        case None
        then show ?thesis using Some nn by (auto simp: asked_Cons)
      next
        case n: (Some n)
        show ?thesis using Some nn n Cons.IH [OF k(2), of "dpop k d" "acc @ [n]"] asked_unusable_dpop [OF k(1), of d]
          by (auto simp: asked_Cons split: sum.splits)
      qed
    qed
  qed
qed

lemma distinct_keys [simp]: "distinct output_token_keys"
  by (simp add: output_token_keys_def)

text \<open>The part of a container that holds nested arguments.\<close>

definition nested :: "string \<Rightarrow> dict \<Rightarrow> dict" where
  "nested name d = (if is_dict (dget d name) then as_dict (dget d name) else [])"

lemma nested_Nil [simp]: "asked ks [] = {}" "\<not> unusable ks []"
  by (simp_all add: asked_def unusable_def)

lemma pop_nested_result:
  "case pop_nested name d acc of
     Inl k \<Rightarrow> unusable output_token_keys (nested name d)
   | Inr (acc', d') \<Rightarrow> \<not> unusable output_token_keys (nested name d) \<and> set acc' = set acc \<union> asked output_token_keys (nested name d) \<and>
       (\<forall>k. k \<noteq> name \<longrightarrow> map_of d' k = map_of d k) \<and> (\<forall>k \<in> set output_token_keys. map_of (nested name d') k = None) \<and>
       is_dict (dget d' name) = is_dict (dget d name)"
  using pop_aliases_result [OF distinct_keys, of "as_dict (dget d name)" acc]
  by (auto simp: pop_nested_def nested_def split: sum.splits)

lemma nested_cong: "map_of d name = map_of e name \<Longrightarrow> nested name d = nested name e"
  by (simp add: nested_def dget_def)

lemma keys_not_nested: "''model_kwargs'' \<notin> set output_token_keys" "''extra_body'' \<notin> set output_token_keys"
  by (simp_all add: output_token_keys_def)

definition token_containers :: "dict \<Rightarrow> dict list" where
  "token_containers kwargs = [kwargs, nested ''model_kwargs'' kwargs, nested ''extra_body'' kwargs]"

lemma prepare_result:
  "case prepare_output_token_kwargs meta kwargs key requires_value of
     Inl k \<Rightarrow> (\<exists>c \<in> set (token_containers kwargs). unusable output_token_keys c)
   | Inr (out, budget) \<Rightarrow>
       (\<forall>c \<in> set (token_containers kwargs). \<not> unusable output_token_keys c) \<and>
       (\<exists>req d. set req = (\<Union>c \<in> set (token_containers kwargs). asked output_token_keys c) \<and>
          budget = resolve_output_token_budget meta (if req = [] then JNull else JInt (Min (set req))) requires_value \<and>
          out = (case tb_max_tokens budget of None \<Rightarrow> d | Some n \<Rightarrow> dset key (JInt n) d) \<and>
          (\<forall>c \<in> set (token_containers d). \<forall>k \<in> set output_token_keys. map_of c k = None))"
proof (cases "pop_aliases output_token_keys kwargs []")
  case (Inl k)
  then show ?thesis using pop_aliases_result [OF distinct_keys, of kwargs "[]"]
    by (simp add: prepare_output_token_kwargs_def token_containers_def)
next
  case (Inr x)
  obtain r1 d1 where 1: "pop_aliases output_token_keys kwargs [] = Inr (r1, d1)" using Inr by (cases x) simp
  have m1: "\<not> unusable output_token_keys kwargs" "set r1 = asked output_token_keys kwargs"
    "\<And>k. map_of d1 k = (if k \<in> set output_token_keys then None else map_of kwargs k)"
    using pop_aliases_result [OF distinct_keys, of kwargs "[]"] unfolding 1 by auto
  have n1: "nested ''model_kwargs'' d1 = nested ''model_kwargs'' kwargs"
    by (rule nested_cong) (simp only: m1(3) keys_not_nested if_False)
  have n1': "nested ''extra_body'' d1 = nested ''extra_body'' kwargs"
    by (rule nested_cong) (simp only: m1(3) keys_not_nested if_False)
  show ?thesis
  proof (cases "pop_nested ''model_kwargs'' d1 r1")
    case (Inl k)
    then show ?thesis using pop_nested_result [of "''model_kwargs''" d1 r1] 1 n1 n1'
      by (simp add: prepare_output_token_kwargs_def token_containers_def)
  next
    case (Inr y)
    obtain r2 d2 where 2: "pop_nested ''model_kwargs'' d1 r1 = Inr (r2, d2)" using Inr by (cases y) simp
    have m2: "\<not> unusable output_token_keys (nested ''model_kwargs'' kwargs)"
      "set r2 = set r1 \<union> asked output_token_keys (nested ''model_kwargs'' kwargs)"
      "\<And>k. k \<noteq> ''model_kwargs'' \<Longrightarrow> map_of d2 k = map_of d1 k"
      "\<And>k. k \<in> set output_token_keys \<Longrightarrow> map_of (nested ''model_kwargs'' d2) k = None"
      using pop_nested_result [of "''model_kwargs''" d1 r1] n1 unfolding 2 by simp_all
    have n2: "nested ''extra_body'' d2 = nested ''extra_body'' kwargs"
      using m2(3) [of "''extra_body''"] n1' nested_cong [of d2 "''extra_body''" d1] by simp
    show ?thesis
    proof (cases "pop_nested ''extra_body'' d2 r2")
      case (Inl k)
      then show ?thesis using pop_nested_result [of "''extra_body''" d2 r2] 1 2 n2
        by (simp add: prepare_output_token_kwargs_def token_containers_def)
    next
      case (Inr z)
      obtain r3 d3 where 3: "pop_nested ''extra_body'' d2 r2 = Inr (r3, d3)" using Inr by (cases z) simp
      have m3: "\<not> unusable output_token_keys (nested ''extra_body'' kwargs)"
        "set r3 = set r2 \<union> asked output_token_keys (nested ''extra_body'' kwargs)"
        "\<And>k. k \<noteq> ''extra_body'' \<Longrightarrow> map_of d3 k = map_of d2 k"
        "\<And>k. k \<in> set output_token_keys \<Longrightarrow> map_of (nested ''extra_body'' d3) k = None"
        using pop_nested_result [of "''extra_body''" d2 r2] n2 unfolding 3 by simp_all
      have "nested ''model_kwargs'' d3 = nested ''model_kwargs'' d2"
        using m3(3) [of "''model_kwargs''"] by (intro nested_cong) simp
      moreover have "map_of d3 k = None" if "k \<in> set output_token_keys" for k
      proof -
        have "k \<noteq> ''model_kwargs''" "k \<noteq> ''extra_body''" using that keys_not_nested by blast+
        then show ?thesis using that m1(3) [of k] m2(3) [of k] m3(3) [of k] by simp
      qed
      ultimately have gone: "\<forall>c \<in> set (token_containers d3). \<forall>k \<in> set output_token_keys. map_of c k = None"
        using m2(4) m3(4) by (simp add: token_containers_def)
      have req: "set r3 = (\<Union>c \<in> set (token_containers kwargs). asked output_token_keys c)"
        using m1(2) m2(2) m3(2) by (auto simp: token_containers_def)
      let ?b = "resolve_output_token_budget meta (if r3 = [] then JNull else JInt (Min (set r3))) requires_value"
      have p: "prepare_output_token_kwargs meta kwargs key requires_value =
          Inr (case tb_max_tokens ?b of None \<Rightarrow> d3 | Some n \<Rightarrow> dset key (JInt n) d3, ?b)"
        using 1 2 3 by (simp add: prepare_output_token_kwargs_def Let_def)
      have ok: "\<forall>c \<in> set (token_containers kwargs). \<not> unusable output_token_keys c"
        using m1(1) m2(1) m3(1) by (simp add: token_containers_def)
      show ?thesis unfolding p sum.case prod.case
        by (intro conjI exI [of _ r3] exI [of _ d3] refl) (fact ok, fact req, fact gone)
    qed
  qed
qed

subsection \<open>The resolved budget\<close>

lemma positive_count_pos: "positive_token_count v = Some n \<Longrightarrow> 0 < n"
  by (cases v) (auto split: option.splits if_splits)

lemma positive_count_int: "positive_token_count v = Some n \<Longrightarrow> float_exact n"
  by (cases v) (auto split: option.splits if_splits)

lemma resolve_result:
  fixes meta requested requires_value
  defines "b \<equiv> resolve_output_token_budget meta requested requires_value"
    and "got \<equiv> smaller_of (configured_cap (token_record meta)) (positive_token_count requested)"
  shows "tb_mode b = output_token_mode (token_record meta)"
    and "got \<noteq> None \<Longrightarrow> tb_max_tokens b = got"
    and "got = None \<Longrightarrow> tb_max_tokens b \<noteq> None \<longleftrightarrow> requires_value"
    and "tb_max_tokens b = Some n \<Longrightarrow> 0 < n"
proof -
  show m: "tb_mode b = output_token_mode (token_record meta)"
    by (auto simp: b_def resolve_output_token_budget_def Let_def split: option.split)
  have p: "0 < n" if "got = Some n" for n
    using that positive_count_pos by (auto simp: got_def smaller_of_def configured_cap_def split: option.splits if_splits)
  show v: "got \<noteq> None \<Longrightarrow> tb_max_tokens b = got"
    by (auto simp: b_def got_def resolve_output_token_budget_def Let_def)
  show f: "got = None \<Longrightarrow> tb_max_tokens b \<noteq> None \<longleftrightarrow> requires_value"
    by (auto simp: b_def got_def resolve_output_token_budget_def Let_def split: option.split)
  show "tb_max_tokens b = Some n \<Longrightarrow> 0 < n"
  proof (cases got)
    case None
    then show "tb_max_tokens b = Some n \<Longrightarrow> 0 < n"
      using positive_count_pos by (auto simp: b_def got_def resolve_output_token_budget_def Let_def split: option.splits if_splits)
  next
    case (Some k)
    then show "tb_max_tokens b = Some n \<Longrightarrow> 0 < n" using v p by simp
  qed
qed

lemma smaller_of_le: "smaller_of a b = Some n \<Longrightarrow> (a = Some x \<longrightarrow> n \<le> x) \<and> (b = Some y \<longrightarrow> n \<le> y)"
  by (auto simp: smaller_of_def split: option.splits)

lemma asked_count: "n \<in> asked ks d \<Longrightarrow> 0 < n"
  by (auto simp: asked_def positive_count_pos)

lemma output_mode_cases: "output_token_mode m \<in> {''auto'', ''fixed''}"
  by (auto simp: output_token_mode_def)

lemma count_again: "positive_token_count v = Some n \<Longrightarrow> positive_token_count (JInt n) = Some n"
  using positive_count_pos positive_count_int by simp

lemma finite_asked: "finite (asked ks d)"
proof -
  have "asked ks d \<subseteq> (\<lambda>k. the (positive_token_count (the (map_of d k)))) ` set ks"
    by (force simp: asked_def)
  then show ?thesis by (rule finite_subset) simp
qed

text \<open>C40: a call never asks for more output than the caller or the user allows, under whatever name
  the limit is given. Preparing the arguments fails exactly when one of the aliases, at the top
  or nested in the provider's own arguments, has a value that is no positive count. Otherwise no
  alias is left in any of the three places, except the one the limit is finally written under;
  the limit written is a positive integer, at most every count asked for, and at most the cap
  the user fixed; and it is present when the protocol requires one.\<close>

theorem output_cap_never_bypassed:
  assumes "key \<in> set output_token_keys"
  shows "case prepare_output_token_kwargs meta kwargs key requires_value of
      Inl k \<Rightarrow> (\<exists>c \<in> set (token_containers kwargs). unusable output_token_keys c)
    | Inr (out, budget) \<Rightarrow>
        (\<forall>c \<in> set (token_containers kwargs). \<not> unusable output_token_keys c) \<and>
        (\<forall>k \<in> set output_token_keys. map_of out k = (if k = key then map_option JInt (tb_max_tokens budget) else None) \<and>
           map_of (nested ''model_kwargs'' out) k = None \<and> map_of (nested ''extra_body'' out) k = None) \<and>
        (\<forall>n. tb_max_tokens budget = Some n \<longrightarrow> 0 < n \<and>
           (\<forall>c \<in> set (token_containers kwargs). \<forall>m \<in> asked output_token_keys c. n \<le> m) \<and>
           (\<forall>m. configured_cap (token_record meta) = Some m \<longrightarrow> n \<le> m)) \<and>
        (requires_value \<longrightarrow> tb_max_tokens budget \<noteq> None) \<and> tb_mode budget \<in> {''auto'', ''fixed''}"
proof (cases "prepare_output_token_kwargs meta kwargs key requires_value")
  case (Inl k)
  then show ?thesis using prepare_result [where meta = meta and kwargs = kwargs and key = key and requires_value = requires_value] by simp
next
  case (Inr x)
  obtain out budget where r: "prepare_output_token_kwargs meta kwargs key requires_value = Inr (out, budget)"
    using Inr by (cases x) simp
  obtain req d where ok: "\<forall>c \<in> set (token_containers kwargs). \<not> unusable output_token_keys c"
    and req: "set req = (\<Union>c \<in> set (token_containers kwargs). asked output_token_keys c)"
    and b: "budget = resolve_output_token_budget meta (if req = [] then JNull else JInt (Min (set req))) requires_value"
    and out: "out = (case tb_max_tokens budget of None \<Rightarrow> d | Some n \<Rightarrow> dset key (JInt n) d)"
    and gone: "\<forall>c \<in> set (token_containers d). \<forall>k \<in> set output_token_keys. map_of c k = None"
    using prepare_result [where meta = meta and kwargs = kwargs and key = key and requires_value = requires_value] unfolding r sum.case prod.case by blast
  let ?want = "if req = [] then JNull else JInt (Min (set req))"
  let ?v = "smaller_of (configured_cap (token_record meta)) (positive_token_count ?want)"
  note res = resolve_result [where meta = meta and requested = ?want and requires_value = requires_value, folded b]
  have want: "positive_token_count ?want = Some (Min (set req))" if "req \<noteq> []"
  proof -
    have "Min (set req) \<in> set req" using that by (intro Min_in) simp_all
    then obtain v where "positive_token_count v = Some (Min (set req))" unfolding req by (auto simp: asked_def)
    from count_again [OF this] show ?thesis using that by simp
  qed
  have top: "map_of out k = (if k = key then map_option JInt (tb_max_tokens budget) else None)" if "k \<in> set output_token_keys" for k
    using gone that by (cases "tb_max_tokens budget") (simp_all add: out token_containers_def)
  have keys: "key \<noteq> ''model_kwargs''" "key \<noteq> ''extra_body''" using assms keys_not_nested by blast+
  have inner: "nested ''model_kwargs'' out = nested ''model_kwargs'' d" "nested ''extra_body'' out = nested ''extra_body'' d"
    using keys keys [symmetric] by (auto intro!: nested_cong simp: out split: option.split)
  have cap: "n \<le> m" if "tb_max_tokens budget = Some n" "configured_cap (token_record meta) = Some m" for n m
    using that res(2) smaller_of_le [of "configured_cap (token_record meta)" "positive_token_count ?want" n m]
    by (cases ?v) (auto simp: smaller_of_def split: option.splits)
  have least: "n \<le> m" if "tb_max_tokens budget = Some n" "c \<in> set (token_containers kwargs)" "m \<in> asked output_token_keys c" for n c m
  proof -
    have m: "m \<in> set req" using that req by auto
    then have "req \<noteq> []" by auto
    from want [OF this] have w: "positive_token_count ?want = Some (Min (set req))" .
    then have "?v \<noteq> None" by (auto simp: smaller_of_def split: option.splits)
    then have "?v = Some n" using res(2) that(1) by simp
    then have "n \<le> Min (set req)" using smaller_of_le w by blast
    then show ?thesis using m by (meson List.finite_set Min_le order_trans)
  qed
  have present: "requires_value \<longrightarrow> tb_max_tokens budget \<noteq> None" using res(2,3) by (cases ?v) auto
  show ?thesis unfolding r sum.case prod.case
    using ok top inner gone res(1,4) cap least present output_mode_cases by (simp add: token_containers_def)
qed

definition capped_model :: dict where
  "capped_model = [(''model_record'', JObj [(''outputTokenMode'', JStr ''fixed''), (''maxTokens'', JInt 500)])]"

definition nested_request :: dict where
  "nested_request = [(''max_tokens'', JInt 900), (''extra_body'', JObj [(''max_output_tokens'', JStr ''700'')])]"

theorem output_cap_never_bypassed_witness:
  "\<exists>out budget. prepare_output_token_kwargs capped_model nested_request ''max_tokens'' False = Inr (out, budget) \<and>
     map_of out ''max_tokens'' = Some (JInt 500) \<and> map_of (nested ''extra_body'' out) ''max_output_tokens'' = None"
proof -
  have k: "''max_tokens'' \<in> set output_token_keys" "''max_output_tokens'' \<in> set output_token_keys"
    by (simp_all add: output_token_keys_def)
  let ?r = "prepare_output_token_kwargs capped_model nested_request ''max_tokens'' False"
  have c: "case ?r of Inl _ \<Rightarrow> False | Inr (out, budget) \<Rightarrow> tb_max_tokens budget = Some 500"
    by (simp add: prepare_output_token_kwargs_def capped_model_def nested_request_def output_token_keys_def pop_nested_def
        dpop_def resolve_output_token_budget_def token_record_def configured_cap_def output_token_mode_def smaller_of_def
        read_int_def py_strip_def py_lstrip_def py_rstrip_def py_space_def digit_value_def float_exact_small
        max_tokens_facts_def Let_def)
  then obtain out budget where r: "?r = Inr (out, budget)" "tb_max_tokens budget = Some 500"
    by (cases ?r) auto
  note t = output_cap_never_bypassed [OF k(1), where meta = capped_model and kwargs = nested_request and requires_value = False,
      unfolded r(1) sum.case prod.case, THEN conjunct2, THEN conjunct1]
  have "map_of out ''max_tokens'' = Some (JInt 500)" using t [THEN bspec, OF k(1)] r(2) by simp
  moreover have "map_of (nested ''extra_body'' out) ''max_output_tokens'' = None" using t [THEN bspec, OF k(2)] by blast
  ultimately show ?thesis using r(1) by blast
qed

end
