(* ===== verification/RunControl.thy ===== *)
theory RunControl
  imports Episodes EventLog
begin

text \<open>
  The control plane over the run table (erc/run_service.py, erc/command_service.py,
  erc/runtime_control.py): control signals, status transitions and the clean-up that follows a
  terminal one, metadata updates, and the commands pause, resume, cancel, interrupt and retry.

  Several of these read the run in one transaction and write it in another; the state of the read
  is the argument \<open>d0\<close>. The run ledger of the observability database, a diary whose failures
  are swallowed, is left out. The text a cancelled episode is described by, the identifiers of the
  events and the session and run of the calling context are arguments.
\<close>

section \<open>Control signals\<close>

definition signal_value :: "string \<Rightarrow> string option \<Rightarrow> dict \<Rightarrow> dict" where
  "signal_value command reason payload =
     [(''command'', JStr command), (''reason'', case reason of None \<Rightarrow> JNull | Some r \<Rightarrow> JStr r),
      (''payload'', JObj payload)]"

definition updated_record :: "run_error + cas_result \<Rightarrow> run_rec option" where
  "updated_record res = (case res of Inr (Updated r _) \<Rightarrow> Some r | _ \<Rightarrow> None)"

definition set_control_signal ::
  "string \<Rightarrow> string \<Rightarrow> string option \<Rightarrow> dict \<Rightarrow> db \<Rightarrow> run_rec option \<times> db" where
  "set_control_signal run command reason payload d =
     (case update_run_metadata_key_if_state run ''control_signal'' [] (signal_value command reason payload)
             None None None d
      of (res, d') \<Rightarrow> (updated_record res, d'))"

definition get_control_signal :: "string \<Rightarrow> db \<Rightarrow> dict option" where
  "get_control_signal run d = (case run_of run d of None \<Rightarrow> None
     | Some r \<Rightarrow> (case dget (rn_metadata r) ''control_signal'' of JObj s \<Rightarrow> Some s | _ \<Rightarrow> None))"

definition consume_control_signal :: "string \<Rightarrow> db \<Rightarrow> db \<Rightarrow> json option \<times> db" where
  "consume_control_signal run d0 d = consume_run_control_signal run None d0 d"

text \<open>\<^verbatim>\<open>clear_control_signal\<close> removes the signal it was given or has just observed,
  not one that arrived since.\<close>

definition clear_control_signal :: "string \<Rightarrow> dict option \<Rightarrow> db \<Rightarrow> db \<Rightarrow> db" where
  "clear_control_signal run expected d0 d =
     (case (case expected of None \<Rightarrow> get_control_signal run d0 | Some e \<Rightarrow> Some e) of
        None \<Rightarrow> d
      | Some s \<Rightarrow> if s = [] then d else snd (consume_run_control_signal run (Some s) d0 d))"

definition stop_signal_commands :: "string list" where
  "stop_signal_commands = [''pause'', ''cancel'', ''interrupt'', ''approval_rejected'']"

definition consume_stop_signal :: "string \<Rightarrow> db \<Rightarrow> db \<Rightarrow> dict option \<times> db" where
  "consume_stop_signal run d0 d =
     (if run = [] then (None, d)
      else case consume_control_signal run d0 d of
        (Some (JObj s), d') \<Rightarrow>
          let command = py_lower (py_strip (as_text (dget s ''command'')))
          in (if command \<in> set stop_signal_commands then Some (dset ''command'' (JStr command) s) else None, d')
      | (_, d') \<Rightarrow> (None, d'))"

definition control_status :: "dict \<Rightarrow> string" where
  "control_status s =
     (let command = py_lower (py_strip (as_text (dget s ''command'')))
      in if command \<in> {''pause'', ''approval_rejected''} then ''paused''
         else if command = ''interrupt'' then ''interrupted'' else ''cancelled'')"

section \<open>Metadata\<close>

text \<open>\<^verbatim>\<open>update_metadata\<close> writes back the status it has read.\<close>

definition update_metadata :: "string \<Rightarrow> dict \<Rightarrow> time \<Rightarrow> db \<Rightarrow> db \<Rightarrow> run_rec option \<times> db" where
  "update_metadata run updates now d0 d =
     (case run_of run d0 of
        None \<Rightarrow> (None, d)
      | Some r \<Rightarrow>
          let d' = update_run_record run (rn_status r) None (dmerge (rn_metadata r) updates) now d
          in (run_of run d', d'))"

section \<open>Transitions\<close>

definition interruptible_statuses :: "string list" where
  "interruptible_statuses = [''queued'', ''running'', ''waiting_input'', ''waiting_approval'',
     ''waiting_external_tool'', ''paused'']"

definition persisted_metadata :: "string \<Rightarrow> dict option \<Rightarrow> db \<Rightarrow> dict" where
  "persisted_metadata run updates d0 =
     (case updates of None \<Rightarrow> []
      | Some u \<Rightarrow> dmerge (case run_of run d0 of None \<Rightarrow> [] | Some r \<Rightarrow> rn_metadata r) u)"

record emit_context =
  ec_session :: string
  ec_run :: string
  ec_event :: "string \<Rightarrow> string"
  ec_record :: "string \<Rightarrow> string"
  ec_describe :: "episode_rec \<Rightarrow> dict"

definition add_runtime_episode_event_record ::
  "string \<Rightarrow> string \<Rightarrow> string \<Rightarrow> dict \<Rightarrow> string option \<Rightarrow> string option \<Rightarrow> string option \<Rightarrow> time \<Rightarrow>
     db \<Rightarrow> bool \<times> db" where
  "add_runtime_episode_event_record event_id e topic payload session run state now d =
     (if sel_by ee_id event_id (db_ep_events d) \<noteq> None \<or> episode_of e d = None
         \<or> (case run of None \<Rightarrow> False | Some r \<Rightarrow> run_of r d = None)
      then (False, d)
      else (True, d\<lparr>db_ep_events := db_ep_events d @
        [\<lparr>ee_id = event_id, ee_episode = e, ee_session = session, ee_run = run, ee_topic = topic,
          ee_state = state, ee_payload = payload, ee_created = now\<rparr>]\<rparr>))"

text \<open>\<^verbatim>\<open>emit_runtime_episode_event\<close> for a cancelled episode: the binding is filled in,
  the episode's ledger and the session's log get an entry. Every failure ends the emission and is
  swallowed.\<close>

definition emit_cancelled_episode :: "emit_context \<Rightarrow> string \<Rightarrow> time \<Rightarrow> string \<Rightarrow> db \<Rightarrow> db" where
  "emit_cancelled_episode c why now e d =
     (case episode_of e d of
        None \<Rightarrow> d
      | Some ep \<Rightarrow>
          let text = (\<lambda>x. case x of None \<Rightarrow> [] | Some s \<Rightarrow> s);
              session = py_strip (or_text (ec_session c) (text (ep_session ep)));
              run = py_strip (or_text (ec_run c) (text (ep_run ep)));
              payload = [(''episode'', JObj (ec_describe c ep)),
                (''summary'', JStr ''The parent run ended before this runtime episode completed.''),
                (''reason'', JStr why)];
              d1 = snd (backfill_runtime_episode_binding e (or_none session) (or_none run) now d)
          in case add_runtime_episode_event_record (ec_record c e) e ''runtime.episode.cancelled'' payload
                    (or_none session) (or_none run) (or_none (py_strip (ep_state ep))) now d1 of
               (False, _) \<Rightarrow> d1
             | (True, d2) \<Rightarrow>
                 if session = [] then d2
                 else snd (add_runtime_event \<lparr>ea_id = ec_event c e, ea_session = session, ea_run = Some run,
                        ea_kind = ''runtime_event'', ea_topic = ''runtime.episode.cancelled'', ea_ts = Some now,
                        ea_source = [(''runtime'', JStr ''erc''), (''component'', JStr ''run_service'')],
                        ea_payload = payload\<rparr> now d2))"

definition cancel_orphaned_runtime_episodes ::
  "emit_context \<Rightarrow> string \<Rightarrow> string \<Rightarrow> string option \<Rightarrow> time \<Rightarrow> db \<Rightarrow> db" where
  "cancel_orphaned_runtime_episodes c run status reason now d =
     (if py_strip status \<notin> set terminal_statuses then d
      else
        let why = or_text (case reason of None \<Rightarrow> [] | Some r \<Rightarrow> r)
                    (''Parent run reached terminal status: '' @ status @ ''.'')
        in case cancel_active_runtime_episodes_for_run run (Some why) now d of
             (ids, d') \<Rightarrow> fold (emit_cancelled_episode c why now) ids d')"

definition transition_run ::
  "emit_context \<Rightarrow> string \<Rightarrow> string \<Rightarrow> string option \<Rightarrow> dict option \<Rightarrow> time \<Rightarrow> db \<Rightarrow> db \<Rightarrow> db" where
  "transition_run c run status error meta now d0 d =
     cancel_orphaned_runtime_episodes c run status error now
       (update_run_record run status error (persisted_metadata run meta d0) now d)"

definition transition_run_if_status ::
  "emit_context \<Rightarrow> string \<Rightarrow> string list \<Rightarrow> string \<Rightarrow> string option \<Rightarrow> dict option \<Rightarrow> time \<Rightarrow> db \<Rightarrow> db \<Rightarrow>
     cas_result \<times> db" where
  "transition_run_if_status c run expected status error meta now d0 d =
     (case update_run_record_if_status run expected status error (persisted_metadata run meta d0) now d of
        (Refused why, d') \<Rightarrow> (Refused why, d')
      | (Updated r prev, d') \<Rightarrow> (Updated r prev, cancel_orphaned_runtime_episodes c run status error now d'))"

section \<open>Commands\<close>

definition reason_metadata :: "string \<Rightarrow> string option \<Rightarrow> dict option" where
  "reason_metadata key reason = (case reason of None \<Rightarrow> None
     | Some r \<Rightarrow> if r = [] then None else Some [(key, JStr r)])"

definition issue_control_signal ::
  "string \<Rightarrow> string \<Rightarrow> string option \<Rightarrow> dict \<Rightarrow> db \<Rightarrow> json option \<times> db" where
  "issue_control_signal run command reason payload d =
     (case set_control_signal run command reason payload d of
        (None, d') \<Rightarrow> (None, d')
      | (Some r, d') \<Rightarrow> (Some (dget (rn_metadata r) ''control_signal''), d'))"

definition pause_run :: "emit_context \<Rightarrow> string \<Rightarrow> string option \<Rightarrow> time \<Rightarrow> db \<Rightarrow> db \<Rightarrow> db" where
  "pause_run c run reason now d0 d =
     snd (issue_control_signal run ''pause'' reason []
       (transition_run c run ''paused'' None (reason_metadata ''pause_reason'' reason) now d0 d))"

definition resume_run :: "emit_context \<Rightarrow> string \<Rightarrow> string option \<Rightarrow> time \<Rightarrow> db \<Rightarrow> db" where
  "resume_run c run reason now d =
     (let d' = clear_control_signal run None d d
      in transition_run c run ''running'' None (reason_metadata ''resume_reason'' reason) now d' d')"

definition cancel_run :: "emit_context \<Rightarrow> string \<Rightarrow> string option \<Rightarrow> time \<Rightarrow> db \<Rightarrow> db" where
  "cancel_run c run reason now d =
     snd (issue_control_signal run ''cancel'' reason [] (transition_run c run ''cancelled'' reason None now d d))"

definition interrupt_run ::
  "emit_context \<Rightarrow> string \<Rightarrow> string option \<Rightarrow> time \<Rightarrow> db \<Rightarrow> db \<Rightarrow> cas_result \<times> db" where
  "interrupt_run c run reason now d0 d =
     (case transition_run_if_status c run interruptible_statuses ''interrupted'' None
             (reason_metadata ''interrupt_reason'' reason) now d0 d of
        (Refused why, d') \<Rightarrow> (Refused why, d')
      | (Updated r prev, d') \<Rightarrow> (Updated r prev, snd (issue_control_signal run ''interrupt'' reason [] d')))"

definition retry_run :: "string \<Rightarrow> string option \<Rightarrow> db \<Rightarrow> db" where
  "retry_run run reason d = snd (issue_control_signal run ''retry'' reason [] d)"

section \<open>What a control signal changes\<close>

lemma signal_value_keys [simp]:
  "dget (signal_value c r p) ''command'' = JStr c" "dget (signal_value c r p) ''payload'' = JObj p"
  "dget (signal_value c r p) ''state'' = JNull" "signal_value c r p \<noteq> []"
  by (simp_all add: signal_value_def)

lemma control_signal_key [simp]: "py_strip ''control_signal'' = ''control_signal''"
  by code_simp

text \<open>A signal has no state of its own, so replacing it never meets the state guard.\<close>

definition stateless_signal :: "dict \<Rightarrow> bool" where
  "stateless_signal meta \<longleftrightarrow> marker_state meta ''control_signal'' = []"

lemma stateless_simps [simp]:
  "stateless_signal (dset ''control_signal'' (JObj (signal_value c r p)) meta)"
  "stateless_signal (dpop ''control_signal'' meta)"
  by (simp_all add: stateless_signal_def marker_state_def py_lower_def as_dict_def)

lemma set_control_signal_eq:
  assumes "run_of run d = Some r" and "stateless_signal (rn_metadata r)"
  shows "set_control_signal run c reason payload d =
    (Some (r\<lparr>rn_metadata := dset ''control_signal'' (JObj (signal_value c reason payload)) (rn_metadata r)\<rparr>),
     set_run_metadata run (dset ''control_signal'' (JObj (signal_value c reason payload)) (rn_metadata r)) d)"
  using assms
  by (simp add: set_control_signal_def update_run_metadata_key_if_state_def Let_def stateless_signal_def
      updated_record_def py_lower_def)

lemma set_control_signal_unknown: "run_of run d = None \<Longrightarrow> set_control_signal run c reason payload d = (None, d)"
  by (simp add: set_control_signal_def update_run_metadata_key_if_state_def Let_def updated_record_def)

section \<open>What the end of a run leaves\<close>

definition episode_view :: "db \<Rightarrow> (string \<times> string option \<times> string) list" where
  "episode_view d = map (\<lambda>e. (ep_id e, ep_run e, ep_state e)) (db_episodes d)"

definition active_episode_of :: "string \<Rightarrow> db \<Rightarrow> bool" where
  "active_episode_of run d \<longleftrightarrow>
     list_ex (\<lambda>e. ep_run e = Some run \<and> ep_state e \<in> set active_episode_states) (db_episodes d)"

lemma active_episode_view:
  "active_episode_of run d = list_ex (\<lambda>(e, r, s). r = Some run \<and> s \<in> set active_episode_states) (episode_view d)"
  by (simp add: active_episode_of_def episode_view_def list_ex_iff)

text \<open>The emission for an episode leaves runs and human actions alone and, of the episodes,
  fills in at most the missing binding of its own.\<close>

definition beside_episode :: "string \<Rightarrow> db \<Rightarrow> db \<Rightarrow> bool" where
  "beside_episode e d d' \<longleftrightarrow> db_runs d' = db_runs d \<and> db_approvals d' = db_approvals d \<and>
     db_asks d' = db_asks d \<and>
     (\<exists>f. db_episodes d' = upd_where (\<lambda>x. ep_id x = e) f (db_episodes d) \<and>
        (\<forall>x. ep_id (f x) = ep_id x \<and> ep_state (f x) = ep_state x \<and>
             (ep_run x \<noteq> None \<longrightarrow> ep_run (f x) = ep_run x)))"

lemma beside_frame:
  "db_runs d' = db_runs d \<Longrightarrow> db_approvals d' = db_approvals d \<Longrightarrow> db_asks d' = db_asks d \<Longrightarrow>
   db_episodes d' = db_episodes d \<Longrightarrow> beside_episode e d d'"
  unfolding beside_episode_def by (intro conjI exI [of _ "\<lambda>x. x"]) (simp_all add: upd_where_def)

lemma beside_trans: "beside_episode e d1 d2 \<Longrightarrow> beside_episode e d2 d3 \<Longrightarrow> beside_episode e d1 d3"
  unfolding beside_episode_def
proof (elim conjE exE, intro conjI)
  fix f g
  assume "db_episodes d2 = upd_where (\<lambda>x. ep_id x = e) f (db_episodes d1)"
    "db_episodes d3 = upd_where (\<lambda>x. ep_id x = e) g (db_episodes d2)"
    "\<forall>x. ep_id (f x) = ep_id x \<and> ep_state (f x) = ep_state x \<and> (ep_run x \<noteq> None \<longrightarrow> ep_run (f x) = ep_run x)"
    "\<forall>x. ep_id (g x) = ep_id x \<and> ep_state (g x) = ep_state x \<and> (ep_run x \<noteq> None \<longrightarrow> ep_run (g x) = ep_run x)"
  then show "\<exists>f. db_episodes d3 = upd_where (\<lambda>x. ep_id x = e) f (db_episodes d1) \<and>
      (\<forall>x. ep_id (f x) = ep_id x \<and> ep_state (f x) = ep_state x \<and> (ep_run x \<noteq> None \<longrightarrow> ep_run (f x) = ep_run x))"
    by (intro exI [of _ "\<lambda>x. g (f x)"]) (auto simp: upd_where_def)
qed simp_all

lemma beside_view:
  assumes "beside_episode e d d'" and "\<And>x. x \<in> set (db_episodes d) \<Longrightarrow> ep_id x = e \<Longrightarrow> ep_run x \<noteq> None"
  shows "episode_view d' = episode_view d"
proof -
  from assms(1) obtain f where f: "db_episodes d' = upd_where (\<lambda>x. ep_id x = e) f (db_episodes d)"
    "\<forall>x. ep_id (f x) = ep_id x \<and> ep_state (f x) = ep_state x \<and> (ep_run x \<noteq> None \<longrightarrow> ep_run (f x) = ep_run x)"
    unfolding beside_episode_def by blast
  have "ep_run (f x) = ep_run x" if "x \<in> set (db_episodes d)" "ep_id x = e" for x
    using f(2) assms(2) [OF that] by simp
  then show ?thesis using f by (simp add: episode_view_def upd_where_def)
qed

lemma beside_bind:
  "db_runs d' = db_runs d \<Longrightarrow> db_approvals d' = db_approvals d \<Longrightarrow> db_asks d' = db_asks d \<Longrightarrow>
   db_episodes d' = upd_where (\<lambda>x. ep_id x = e) (bound_episode s r now) (db_episodes d) \<Longrightarrow>
   beside_episode e d d'"
  unfolding beside_episode_def
  by (intro conjI exI [of _ "bound_episode s r now"]) (auto simp: bound_episode_def)

lemma beside_backfill: "beside_episode e d (snd (backfill_runtime_episode_binding e s r now d))"
  unfolding backfill_runtime_episode_binding_def Let_def
  by (auto intro: beside_frame beside_bind split: if_split)

lemma beside_record:
  "add_runtime_episode_event_record i e topic p s r st now d = (ok, d') \<Longrightarrow> beside_episode x d d'"
  by (auto simp: add_runtime_episode_event_record_def split: if_splits intro: beside_frame)

lemma beside_event: "beside_episode e d (snd (add_runtime_event a now d))"
proof (cases "add_runtime_event a now d")
  case (Pair res d')
  from add_event_cases [OF this] show ?thesis
    by (auto simp: Pair allocate_runtime_event_seq_def Let_def intro: beside_frame)
qed

lemma beside_emit: "beside_episode e d (emit_cancelled_episode c why now e d)"
proof (cases "episode_of e d")
  case None
  then show ?thesis by (simp add: emit_cancelled_episode_def beside_frame)
next
  case (Some ep)
  show ?thesis
    unfolding emit_cancelled_episode_def Let_def Some option.case
    by (auto split: prod.split bool.split
        intro: beside_backfill beside_trans [OF beside_backfill beside_record]
          beside_trans [OF beside_trans [OF beside_backfill beside_record] beside_event])
qed

definition bound_ids :: "string list \<Rightarrow> db \<Rightarrow> bool" where
  "bound_ids ids d \<longleftrightarrow> (\<forall>e \<in> set ids. \<forall>(x, r, s) \<in> set (episode_view d). x = e \<longrightarrow> r \<noteq> None)"

lemma emit_all:
  assumes "bound_ids ids d"
  shows "db_runs (fold (emit_cancelled_episode c why now) ids d) = db_runs d \<and>
    db_approvals (fold (emit_cancelled_episode c why now) ids d) = db_approvals d \<and>
    db_asks (fold (emit_cancelled_episode c why now) ids d) = db_asks d \<and>
    episode_view (fold (emit_cancelled_episode c why now) ids d) = episode_view d"
  using assms
proof (induction ids arbitrary: d)
  case (Cons e ids)
  let ?d = "emit_cancelled_episode c why now e d"
  have b: "beside_episode e d ?d" by (rule beside_emit)
  have v: "episode_view ?d = episode_view d"
    using Cons.prems by (intro beside_view [OF b]) (auto simp: bound_ids_def episode_view_def)
  then have "bound_ids ids ?d" using Cons.prems by (simp add: bound_ids_def)
  from Cons.IH [OF this] b v show ?case by (simp add: beside_episode_def)
qed simp

text \<open>After the cancellation no episode of the run is active, and the identifiers it returns
  are of episodes of that run.\<close>

lemma cancel_episodes_settles:
  assumes "keyed ep_id (db_episodes d)" and "run \<noteq> []" and "py_strip run = run"
    and "cancel_active_runtime_episodes_for_run run why now d = (ids, d')"
  shows "\<not> active_episode_of run d'" and "bound_ids ids d'"
    and "db_runs d' = db_runs d" and "db_approvals d' = db_approvals d" and "db_asks d' = db_asks d"
proof -
  let ?P = "\<lambda>e. ep_run e = Some run \<and> ep_state e \<in> set active_episode_states"
  have ids: "ids = map ep_id (filter ?P (db_episodes d))"
    and d': "d' = d \<and> ids = [] \<or> (\<exists>w. db_episodes d' = upd_where (\<lambda>e. ep_id e \<in> set ids \<and>
        ep_state e \<in> set active_episode_states) (parent_ended_episode w now) (db_episodes d))"
    using assms(2-4) by (auto simp: cancel_active_runtime_episodes_for_run_def Let_def split: if_splits)
  show "db_runs d' = db_runs d" "db_approvals d' = db_approvals d" "db_asks d' = db_asks d"
    using assms(4) by (auto simp: cancel_active_runtime_episodes_for_run_def Let_def split: if_splits)
  have mem: "ep_run e = Some run" if "e \<in> set (db_episodes d)" "ep_id e \<in> set ids" for e
    using that keyed_inj [OF assms(1) that(1)] by (auto simp: ids)
  have notact: "''cancelled'' \<notin> set active_episode_states" by code_simp
  show "\<not> active_episode_of run d'"
    using d'
  proof
    assume "d' = d \<and> ids = []"
    then show ?thesis by (auto simp: active_episode_of_def list_ex_iff ids filter_empty_conv)
  next
    assume "\<exists>w. db_episodes d' = upd_where (\<lambda>e. ep_id e \<in> set ids \<and>
        ep_state e \<in> set active_episode_states) (parent_ended_episode w now) (db_episodes d)"
    then obtain w where w: "db_episodes d' = upd_where (\<lambda>e. ep_id e \<in> set ids \<and>
        ep_state e \<in> set active_episode_states) (parent_ended_episode w now) (db_episodes d)" by blast
    then show ?thesis using notact
      by (auto simp: active_episode_of_def list_ex_iff set_upd_where ids split: if_splits)
  qed
  have "\<forall>x \<in> set (db_episodes d'). ep_id x \<in> set ids \<longrightarrow> ep_run x = Some run"
    using d' mem by (auto simp: set_upd_where)
  then show "bound_ids ids d'" by (auto simp: bound_ids_def episode_view_def)
qed

lemma orphans_settled:
  assumes "keyed ep_id (db_episodes d)" and "run \<noteq> []" and "py_strip run = run"
    and "py_strip status \<in> set terminal_statuses"
  shows "\<not> active_episode_of run (cancel_orphaned_runtime_episodes c run status reason now d)"
    and "db_runs (cancel_orphaned_runtime_episodes c run status reason now d) = db_runs d"
    and "db_approvals (cancel_orphaned_runtime_episodes c run status reason now d) = db_approvals d"
    and "db_asks (cancel_orphaned_runtime_episodes c run status reason now d) = db_asks d"
proof -
  define why where "why = or_text (case reason of None \<Rightarrow> [] | Some r \<Rightarrow> r) (''Parent run reached terminal status: '' @ status @ ''.'')"
  obtain ids d1 where c: "cancel_active_runtime_episodes_for_run run (Some why) now d = (ids, d1)"
    by (metis surj_pair)
  have eq: "cancel_orphaned_runtime_episodes c run status reason now d = fold (emit_cancelled_episode c why now) ids d1"
    using assms(4) c by (simp add: cancel_orphaned_runtime_episodes_def Let_def why_def)
  note s = cancel_episodes_settles [OF assms(1-3) c]
  show "\<not> active_episode_of run (cancel_orphaned_runtime_episodes c run status reason now d)"
    "db_runs (cancel_orphaned_runtime_episodes c run status reason now d) = db_runs d"
    "db_approvals (cancel_orphaned_runtime_episodes c run status reason now d) = db_approvals d"
    "db_asks (cancel_orphaned_runtime_episodes c run status reason now d) = db_asks d"
    using emit_all [OF s(2), of c why now] s(1,3-5) by (simp_all add: eq active_episode_view)
qed

section \<open>Properties\<close>

lemma update_run_episodes [simp]: "db_episodes (update_run_record run status error meta now d) = db_episodes d"
  by (simp add: update_run_record_def Let_def cancel_pending_human_actions_for_run_def)

lemma transition_run_sel:
  "run_of run d = Some r \<Longrightarrow> run \<noteq> [] \<Longrightarrow> py_strip run = run \<Longrightarrow> keyed ep_id (db_episodes d) \<Longrightarrow>
   run_of run (transition_run c run status error meta now d0 d) =
     Some (run_status_row status error (persisted_metadata run meta d0) now r)"
proof (cases "py_strip status \<in> set terminal_statuses")
  case True
  assume "run_of run d = Some r" "run \<noteq> []" "py_strip run = run" "keyed ep_id (db_episodes d)"
  then show ?thesis unfolding transition_run_def
    using orphans_settled(2) [OF _ \<open>run \<noteq> []\<close> \<open>py_strip run = run\<close> True,
      of "update_run_record run status error (persisted_metadata run meta d0) now d"]
    by (simp add: update_run_sel)
next
  case False
  assume "run_of run d = Some r"
  then show ?thesis using False
    by (simp add: transition_run_def cancel_orphaned_runtime_episodes_def update_run_sel)
qed

text \<open>C10: A run that fails, is cancelled or is interrupted leaves nothing behind that still asks or
  works for it: it has the new status, no episode of it is active, and none of its approvals and
  questions is pending, whatever is emitted on the way.\<close>

theorem aborted_run_is_settled:
  assumes "status \<in> set aborted_statuses" and "run_of run d = Some r" and "run \<noteq> []" and "py_strip run = run"
    and "keyed ep_id (db_episodes d)"
  shows "map_option rn_status (run_of run (transition_run c run status error meta now d0 d)) = Some status \<and>
    \<not> active_episode_of run (transition_run c run status error meta now d0 d) \<and>
    \<not> list_ex (\<lambda>a. ap_run a = run \<and> ap_status a = ''pending'')
        (db_approvals (transition_run c run status error meta now d0 d)) \<and>
    \<not> list_ex (\<lambda>a. ak_run a = run \<and> ak_status a = ''pending'')
        (db_asks (transition_run c run status error meta now d0 d))"
proof -
  let ?u = "update_run_record run status error (persisted_metadata run meta d0) now d"
  have st: "py_strip status \<in> set terminal_statuses"
    using assms(1) by (auto simp: aborted_statuses_def terminal_statuses_def) code_simp+
  have k: "keyed ep_id (db_episodes ?u)" using assms(5) by simp
  note o = orphans_settled [OF k assms(3,4) st, of c error now]
  have "\<not> list_ex (\<lambda>a. ap_run a = run \<and> ap_status a = ''pending'') (db_approvals ?u)"
    "\<not> list_ex (\<lambda>a. ak_run a = run \<and> ak_status a = ''pending'') (db_asks ?u)"
    unfolding abort_closes [OF assms(1) assms(4) assms(3)] list_ex_iff
    by (auto dest: closed_approvals(1) closed_asks(1))
  then show ?thesis
    using o assms(2) by (simp add: transition_run_def update_run_sel)
qed

definition demo_context :: emit_context where
  "demo_context = \<lparr>ec_session = [], ec_run = [], ec_event = (\<lambda>e. ''evt_'' @ e), ec_record = (\<lambda>e. ''rec_'' @ e),
     ec_describe = (\<lambda>e. [(''episodeId'', JStr (ep_id e))])\<rparr>"

theorem aborted_run_is_settled_witness:
  "map_option rn_status (run_of ''r1'' (transition_run demo_context ''r1'' ''cancelled'' None None 2000 demo_db demo_db))
     = Some ''cancelled''"
proof -
  obtain r where "run_of ''r1'' demo_db = Some r"
    by (simp add: demo_db_def create_run_record_def empty_db_def Let_def demo_run_def new_run_row_def)
  moreover have "''cancelled'' \<in> set aborted_statuses" and "py_strip ''r1'' = ''r1''" by code_simp+
  moreover have "keyed ep_id (db_episodes demo_db)"
    by (simp add: demo_db_def create_run_record_def empty_db_def Let_def demo_run_def)
  ultimately show ?thesis
    using aborted_run_is_settled [of "''cancelled''" "''r1''" demo_db r demo_context None None 2000 demo_db] by simp
qed

text \<open>C11: A control signal reaches its consumer: whatever signal was there before, once a signal is
  set the next consumption returns exactly it, the one after finds nothing, and neither changes the
  status of the run or any other metadata.\<close>

theorem signal_reaches_its_consumer:
  assumes "run_of run d = Some r" and "stateless_signal (rn_metadata r)"
    and "set_control_signal run command reason payload d = (record, d1)"
    and "consume_control_signal run d1 d1 = (first, d2)"
  shows "first = Some (JObj (signal_value command reason payload)) \<and>
    consume_control_signal run d2 d2 = (None, d2) \<and>
    (\<exists>r2. run_of run d2 = Some r2 \<and> rn_status r2 = rn_status r \<and>
       (\<forall>k. k \<noteq> ''control_signal'' \<longrightarrow> dget (rn_metadata r2) k = dget (rn_metadata r) k))"
proof -
  let ?s = "JObj (signal_value command reason payload)"
  have d1: "d1 = set_run_metadata run (dset ''control_signal'' ?s (rn_metadata r)) d"
    using assms(3) set_control_signal_eq [OF assms(1,2)] by simp
  have r1: "run_of run d1 = Some (r\<lparr>rn_metadata := dset ''control_signal'' ?s (rn_metadata r)\<rparr>)"
    using assms(1) by (simp add: d1 set_run_metadata_sel)
  have m: "matching_signal None (dset ''control_signal'' ?s (rn_metadata r)) = Some ?s"
    by (simp add: matching_signal_def)
  have "(first, d2) = (Some ?s, set_run_metadata run (dpop ''control_signal'' (dset ''control_signal'' ?s (rn_metadata r))) d1)"
    using assms(4) r1 m by (simp add: consume_control_signal_def consume_run_control_signal_def)
  then have first: "first = Some ?s"
    and d2: "d2 = set_run_metadata run (dpop ''control_signal'' (dset ''control_signal'' ?s (rn_metadata r))) d1" by simp_all
  have r2: "run_of run d2 = Some (r\<lparr>rn_metadata := dpop ''control_signal'' (dset ''control_signal'' ?s (rn_metadata r))\<rparr>)"
    using r1 by (simp add: d2 set_run_metadata_sel)
  moreover have "consume_control_signal run d2 d2 = (None, d2)"
    using r2 by (simp add: consume_control_signal_def consume_run_control_signal_def)
  ultimately show ?thesis using first by simp
qed

theorem signal_reaches_its_consumer_witness:
  "fst (consume_control_signal ''r1'' (snd (set_control_signal ''r1'' ''cancel'' None [] demo_db))
      (snd (set_control_signal ''r1'' ''cancel'' None [] demo_db))) = Some (JObj (signal_value ''cancel'' None []))"
proof -
  obtain r where r: "run_of ''r1'' demo_db = Some r" "stateless_signal (rn_metadata r)"
    by (simp add: demo_db_def create_run_record_def empty_db_def Let_def demo_run_def new_run_row_def
        stateless_signal_def marker_state_def py_lower_def)
  obtain x d1 where s: "set_control_signal ''r1'' ''cancel'' None [] demo_db = (x, d1)" by (metis surj_pair)
  obtain y d2 where c: "consume_control_signal ''r1'' d1 d1 = (y, d2)" by (metis surj_pair)
  from signal_reaches_its_consumer [OF r s c] s c show ?thesis by simp
qed

section \<open>Where the read and the write of a run are apart\<close>

text \<open>A transition that carries metadata writes back the metadata it has read: a control signal
  that arrives between its read and its write is gone.\<close>

lemma transition_forgets_newer_signal:
  assumes "run_of run d0 = Some r0" and "dget (rn_metadata r0) ''control_signal'' = JNull"
    and "run_of run d = Some r" and "run \<noteq> []" and "py_strip run = run" and "keyed ep_id (db_episodes d)"
    and "key \<noteq> ''control_signal''"
  shows "get_control_signal run (transition_run c run status error (Some [(key, v)]) now d0 d) = None"
proof -
  have ne: "dset key v (rn_metadata r0) \<noteq> []" by (cases "rn_metadata r0") (auto split: if_splits)
  show ?thesis
    using transition_run_sel [OF assms(3-6), of c status error "Some [(key, v)]" now d0] ne assms
    by (simp add: get_control_signal_def persisted_metadata_def run_status_row_def Let_def)
qed

text \<open>\<^verbatim>\<open>update_metadata\<close> brings back the status it has read, also over a
  cancellation that has happened since.\<close>

lemma metadata_write_restores_status:
  assumes "run_of run d0 = Some r0" and "run_of run d = Some r"
  shows "map_option rn_status (run_of run (snd (update_metadata run updates now d0 d))) = Some (rn_status r0)"
  using assms by (simp add: update_metadata_def Let_def update_run_sel)

text \<open>A poll for stop signals consumes any other signal and drops it.\<close>

lemma other_signals_are_dropped:
  assumes "run_of run d = Some r" and "run \<noteq> []"
    and "dget (rn_metadata r) ''control_signal'' = JObj (signal_value command reason payload)"
    and "py_lower (py_strip command) \<notin> set stop_signal_commands"
  shows "consume_stop_signal run d d = (None, set_run_metadata run (dpop ''control_signal'' (rn_metadata r)) d)"
  using assms
  by (simp add: consume_stop_signal_def consume_control_signal_def consume_run_control_signal_def
      matching_signal_def)

end
