(* ===== verification/TableViews.thy ===== *)
theory TableViews
  imports Tables
begin

text \<open>
  Views of a table: the rows a query selects, and what an update leaves of them.
\<close>

lemma filter_upd_remove:
  "(\<And>r. P r \<Longrightarrow> \<not> Q (f r)) \<Longrightarrow> filter Q (upd_where P f t) = filter (\<lambda>r. \<not> P r) (filter Q t)"
  by (induction t) auto

lemma filter_upd_keep:
  "(\<And>r. P r \<Longrightarrow> Q (f r) = Q r) \<Longrightarrow> filter Q (upd_where P f t) = upd_where P f (filter Q t)"
  by (induction t) auto

lemma map_view_keep:
  "(\<And>r. P r \<Longrightarrow> Q (f r) = Q r) \<Longrightarrow> (\<And>r. g (f r) = g r) \<Longrightarrow>
   map g (filter Q (upd_where P f t)) = map g (filter Q t)"
  by (simp add: filter_upd_keep map_key_upd_where)

text \<open>Taking the head of a view out of it.\<close>

lemma view_tail:
  assumes "keyed key t" and "filter Q t = r # rs" and "\<And>x. \<not> Q (f x)"
  shows "filter Q (upd_where (\<lambda>x. key x = key r) f t) = rs"
proof -
  have "distinct (map key (r # rs))" using distinct_map_filter [of key t Q] assms(1,2) by (simp add: keyed_def)
  then have "\<forall>x \<in> set rs. key x \<noteq> key r" by (metis distinct.simps(2) image_eqI list.simps(9) set_map)
  then have "filter (\<lambda>x. key x \<noteq> key r) (r # rs) = rs" by (simp add: filter_id_conv)
  then show ?thesis
    using filter_upd_remove [where P = "\<lambda>x. key x = key r" and Q = Q and f = f and t = t] assms(2,3) by simp
qed

text \<open>An update by key of a row that is read before it changes exactly that row.\<close>

lemma upd_by_key:
  assumes "keyed key t" and "r \<in> set t"
  shows "x \<in> set (upd_where (\<lambda>x. key x = key r) f t) \<longleftrightarrow> x = f r \<or> (x \<in> set t \<and> key x \<noteq> key r)"
proof -
  have "\<And>y. y \<in> set t \<Longrightarrow> key y = key r \<Longrightarrow> y = r" by (rule keyed_inj [OF assms(1) _ assms(2)])
  then show ?thesis using assms(2) by (auto simp: set_upd_where image_iff)
qed

text \<open>Two updates of the same rows.\<close>

lemma upd_where_twice:
  "(\<And>x. x \<in> set t \<Longrightarrow> Q (if P x then f x else x) = P x) \<Longrightarrow>
   upd_where Q g (upd_where P f t) = upd_where P (g \<circ> f) t"
  by (simp add: upd_where_def)

lemma set_view_upd: "x \<in> set (upd_where P f t) \<Longrightarrow> (x \<in> set t \<and> \<not> P x) \<or> (\<exists>y \<in> set t. P y \<and> x = f y)"
  by (auto simp: set_upd_where)

section \<open>How the rows of a table evolve\<close>

text \<open>Operations change rows in place and add rows at the end. \<open>R\<close> says what a row may become;
  what is found by a key that \<open>R\<close> keeps is found again.\<close>

definition table_evolves :: "('r \<Rightarrow> 'r \<Rightarrow> bool) \<Rightarrow> 'r list \<Rightarrow> 'r list \<Rightarrow> bool" where
  "table_evolves R t t' \<longleftrightarrow> (\<exists>g rows. t' = map g t @ rows \<and> (\<forall>r \<in> set t. R r (g r)))"

lemma sel_by_map:
  "(\<And>m. m \<in> set t \<Longrightarrow> key (g m) = key m) \<Longrightarrow> sel_by key k (map g t) = map_option g (sel_by key k t)"
  by (induction t) auto

lemma table_evolves_refl: "(\<And>r. R r r) \<Longrightarrow> table_evolves R t t"
  unfolding table_evolves_def by (intro exI [of _ "\<lambda>r. r"] exI [of _ "[]"]) simp

lemma table_evolves_trans:
  assumes "\<And>a b c. R a b \<Longrightarrow> R b c \<Longrightarrow> R a c" and "table_evolves R t u" and "table_evolves R u v"
  shows "table_evolves R t v"
proof -
  obtain g rows where g: "u = map g t @ rows" "\<forall>r \<in> set t. R r (g r)"
    using assms(2) unfolding table_evolves_def by blast
  obtain h more where h: "v = map h u @ more" "\<forall>r \<in> set u. R r (h r)"
    using assms(3) unfolding table_evolves_def by blast
  show ?thesis unfolding table_evolves_def
    using g h assms(1) by (intro exI [of _ "h \<circ> g"] exI [of _ "map h rows @ more"]) auto
qed

lemma table_evolves_upd:
  "(\<And>r. R r r) \<Longrightarrow> (\<And>r. r \<in> set t \<Longrightarrow> P r \<Longrightarrow> R r (f r)) \<Longrightarrow> table_evolves R t (upd_where P f t)"
  unfolding table_evolves_def upd_where_def
  by (intro exI [of _ "\<lambda>r. if P r then f r else r"] exI [of _ "[]"]) simp

lemma table_evolves_append: "(\<And>r. R r r) \<Longrightarrow> table_evolves R t (t @ rows)"
  unfolding table_evolves_def by (intro exI [of _ "\<lambda>r. r"] exI [of _ rows]) simp

lemma table_evolves_sel:
  assumes "table_evolves R t t'" and "sel_by key k t = Some m" and "\<And>a b. R a b \<Longrightarrow> key b = key a"
  shows "\<exists>m'. sel_by key k t' = Some m' \<and> R m m'"
proof -
  obtain g rows where g: "t' = map g t @ rows" "\<forall>r \<in> set t. R r (g r)"
    using assms(1) unfolding table_evolves_def by blast
  have "sel_by key k t' = Some (g m)"
    using assms(2,3) g by (simp add: sel_by_append sel_by_map)
  then show ?thesis using g(2) sel_by_SomeD [OF assms(2)] by blast
qed

end
