(* ===== verification/Approvals.thy ===== *)
theory Approvals
  imports RunControl TableViews
begin

text \<open>
  Approvals (core/database.py, table \<^verbatim>\<open>pending_approvals\<close>): asking, deciding once
  under the fence of the run, and delivering a decision to the run that waits for it, as a small
  job of its own kept in the approval (generation, attempt, state). Fresh generations and event
  identifiers are arguments.
\<close>

section \<open>Asking\<close>

record approval_args =
  pa_id :: string
  pa_session :: string
  pa_run :: string
  pa_kind :: string
  pa_status :: string
  pa_request :: dict
  pa_response :: "dict option"
  pa_expires :: expiry

definition new_approval :: "approval_args \<Rightarrow> time \<Rightarrow> approval_rec" where
  "new_approval a now =
     \<lparr>ap_id = pa_id a, ap_session = pa_session a, ap_run = pa_run a, ap_kind = pa_kind a,
      ap_status = pa_status a, ap_request = pa_request a,
      ap_response = (case pa_response a of None \<Rightarrow> None | Some r \<Rightarrow> if r = [] then None else Some (JObj r)),
      ap_resume = [], ap_expires = pa_expires a, ap_created = now, ap_updated = now\<rparr>"

text \<open>\<^verbatim>\<open>INSERT OR REPLACE\<close>; the run has to exist.\<close>

definition add_pending_approval :: "approval_args \<Rightarrow> time \<Rightarrow> db \<Rightarrow> bool \<times> db" where
  "add_pending_approval a now d =
     (if run_of (pa_run a) d = None then (False, d)
      else (True, d\<lparr>db_approvals := filter (\<lambda>x. ap_id x \<noteq> pa_id a) (db_approvals d) @ [new_approval a now]\<rparr>))"

abbreviation approval_of :: "string \<Rightarrow> db \<Rightarrow> approval_rec option" where
  "approval_of a d \<equiv> sel_by ap_id a (db_approvals d)"

definition get_pending_approval :: "string \<Rightarrow> db \<Rightarrow> approval_rec option" where
  "get_pending_approval a d = approval_of a d"

definition list_pending_approvals :: "string option \<Rightarrow> string option \<Rightarrow> string option \<Rightarrow> db \<Rightarrow> approval_rec list" where
  "list_pending_approvals session run status d =
     (let ok = (\<lambda>x v. case x of None \<Rightarrow> True | Some s \<Rightarrow> s = [] \<or> s = v)
      in sort_key (\<lambda>a. - ap_created a) (filter (\<lambda>a. ok session (ap_session a) \<and> ok run (ap_run a)
           \<and> ok status (ap_status a)) (db_approvals d)))"

definition update_pending_approval :: "string \<Rightarrow> string \<Rightarrow> dict option \<Rightarrow> time \<Rightarrow> db \<Rightarrow> db" where
  "update_pending_approval a status response now d =
     d\<lparr>db_approvals := upd_where (\<lambda>x. ap_id x = a)
        (\<lambda>x. x\<lparr>ap_status := status, ap_updated := now,
               ap_response := (case response of None \<Rightarrow> ap_response x
                 | Some r \<Rightarrow> if r = [] then ap_response x else Some (JObj r))\<rparr>) (db_approvals d)\<rparr>"

section \<open>Deciding\<close>

text \<open>\<^verbatim>\<open>d.get(a, d.get(b))\<close>: the second key counts only when the first is absent.\<close>

definition dget_or :: "dict \<Rightarrow> string \<Rightarrow> string \<Rightarrow> json" where
  "dget_or d a b = (case map_of d a of None \<Rightarrow> dget d b | Some v \<Rightarrow> v)"

definition scope_changed :: "dict \<Rightarrow> dict \<Rightarrow> bool" where
  "scope_changed request metadata =
     (let requested = dget_or request ''scopeRevision'' ''scope_revision'';
          current = dget_or metadata ''scopeRevision'' ''scope_revision''
      in requested \<noteq> JNull \<and> current \<noteq> JNull \<and> \<not> py_eq requested current)"

text \<open>\<^verbatim>\<open>str(identity)\<close> of a text or a whole number.\<close>

definition identity_text :: "json \<Rightarrow> string" where
  "identity_text v = (case v of JInt i \<Rightarrow> py_int i | _ \<Rightarrow> as_text v)"

definition refusal :: "string \<Rightarrow> string \<Rightarrow> dict option \<Rightarrow> dict option \<Rightarrow> approval_rec \<Rightarrow> run_rec option \<Rightarrow> time \<Rightarrow>
    string option" where
  "refusal approval_id status response expected a run now =
     (let meta = (case run of None \<Rightarrow> [] | Some r \<Rightarrow> rn_metadata r);
          answer = (case response of None \<Rightarrow> [] | Some r \<Rightarrow> r);
          identity = dget_or answer ''approvalId'' ''approval_id''
      in if ap_status a \<noteq> ''pending''
         then Some (if ap_status a = status then ''already_decided'' else ''approval_decision_conflict'')
         else if (case expected of None \<Rightarrow> False | Some e \<Rightarrow> \<not> py_eq (JObj (ap_request a)) (JObj e))
         then Some ''approval_request_changed''
         else if scope_changed (ap_request a) meta then Some ''approval_scope_changed''
         else if identity \<noteq> JNull \<and> identity_text identity \<noteq> approval_id then Some ''approval_identity_mismatch''
         else case run of
           None \<Rightarrow> Some ''run_not_found''
         | Some r \<Rightarrow>
             if rn_status r \<in> set terminal_statuses then Some ''owning_run_terminal''
             else if control_command meta \<in> {''cancel'', ''interrupt''} then Some ''owning_run_stopping''
             else case ap_expires a of
               NoExpiry \<Rightarrow> None
             | BadExpiry \<Rightarrow> Some ''approval_expiry_invalid''
             | Expires t \<Rightarrow> if t \<le> now then Some ''approval_expired'' else None)"

definition another_pending :: "string \<Rightarrow> db \<Rightarrow> bool" where
  "another_pending run d \<longleftrightarrow> list_ex (\<lambda>a. ap_run a = run \<and> ap_status a = ''pending'') (db_approvals d)"

text \<open>The status of the run after the decision, with the signal a rejection leaves.\<close>

definition rejection_signal :: "string \<Rightarrow> dict option \<Rightarrow> json" where
  "rejection_signal approval_id response =
     (let answer = (case response of None \<Rightarrow> [] | Some r \<Rightarrow> r)
      in JObj [(''command'', JStr ''approval_rejected''), (''reason'', dget answer ''reason''),
               (''payload'', JObj [(''approval_id'', JStr approval_id), (''response'', JObj answer)])])"

definition released_run ::
  "string \<Rightarrow> string \<Rightarrow> dict option \<Rightarrow> approval_rec \<Rightarrow> run_rec \<Rightarrow> bool \<Rightarrow> string \<times> dict" where
  "released_run approval_id status response a r pending =
     (let meta = rn_metadata r; previous = rn_status r
      in if ap_kind a = ''mcp_app_tool_call'' \<or> truthy (dget meta ''control_signal'') then (previous, meta)
         else if status = ''approved'' \<and> \<not> pending \<and> previous = ''waiting_approval'' then (''running'', meta)
         else if status = ''rejected'' \<and> previous \<in> {''running'', ''waiting_approval''}
         then (''waiting_input'', dset ''control_signal'' (rejection_signal approval_id response) meta)
         else (previous, meta))"

definition remembered_operation :: "string \<Rightarrow> dict option \<Rightarrow> dict \<Rightarrow> dict" where
  "remembered_operation status operation meta =
     (case operation of
        None \<Rightarrow> meta
      | Some x \<Rightarrow>
          if status \<noteq> ''approved'' \<or> x = [] then meta
          else
            let old = (case dget meta ''approvedSafetyOperations'' of JList xs \<Rightarrow> xs | _ \<Rightarrow> []);
                kept = filter (\<lambda>v. is_dict v \<and> \<not> py_eq (dget (as_dict v) ''fingerprint'') (dget x ''fingerprint'')) old;
                new = kept @ [JObj x]
            in dset ''approvedSafetyOperations'' (JList (drop (length new - 100) new)) meta)"

text \<open>Whether the decision has to be delivered to a graph that waits for it.\<close>

definition needs_delivery :: "string \<Rightarrow> approval_rec \<Rightarrow> run_rec \<Rightarrow> dict \<Rightarrow> string \<Rightarrow> bool \<Rightarrow> bool" where
  "needs_delivery status a r meta next pending \<longleftrightarrow>
     status = ''approved'' \<and> ap_kind a \<noteq> ''mcp_app_tool_call''
     \<and> \<not> truthy (dget (rn_metadata r) ''control_signal'') \<and> \<not> pending \<and> next = ''running''
     \<and> (rn_type r = ''chat'' \<or> (rn_type r = ''rpa'' \<and> truthy (dget meta ''resumeExecution'')))
     \<and> ap_kind a \<notin> {''checkpoint_replay'', ''checkpoint_fork''}
     \<and> ''runtimeContinuation'' \<notin> fst ` set (ap_request a)"

definition new_delivery :: "string \<Rightarrow> dict" where
  "new_delivery generation =
     [(''state'', JStr ''pending''), (''generation'', JStr generation), (''attempt'', JInt 0)]"

definition voted :: "string \<Rightarrow> dict option \<Rightarrow> time \<Rightarrow> approval_rec \<Rightarrow> approval_rec" where
  "voted status response now x =
     x\<lparr>ap_status := status, ap_response := map_option JObj response, ap_updated := now\<rparr>"

definition with_delivery :: "dict \<Rightarrow> approval_rec \<Rightarrow> approval_rec" where
  "with_delivery delivery x = x\<lparr>ap_resume := delivery\<rparr>"

definition decided_run :: "string \<Rightarrow> dict \<Rightarrow> bool \<Rightarrow> run_rec \<Rightarrow> run_rec" where
  "decided_run next meta changed x =
     x\<lparr>rn_status := next, rn_metadata := meta, rn_finished := (if changed then None else rn_finished x),
       rn_error := (if changed then None else rn_error x)\<rparr>"

datatype decision = Undecided string | Decided approval_rec string string bool

definition apply_decision ::
  "string \<Rightarrow> string \<Rightarrow> dict option \<Rightarrow> dict option \<Rightarrow> string \<Rightarrow> time \<Rightarrow> approval_rec \<Rightarrow> run_rec \<Rightarrow> db \<Rightarrow>
     decision \<times> db" where
  "apply_decision approval_id status response operation generation now a r d =
     (let t = upd_where (\<lambda>x. ap_id x = approval_id \<and> ap_status x = ''pending'') (voted status response now) (db_approvals d);
          pending = another_pending (ap_run a) (d\<lparr>db_approvals := t\<rparr>);
          (next, meta) = released_run approval_id status response a r pending;
          meta' = remembered_operation status operation meta;
          t' = (if needs_delivery status a r meta' next pending
                then upd_where (\<lambda>x. ap_id x = approval_id) (with_delivery (new_delivery generation)) t else t);
          d' = d\<lparr>db_approvals := t',
                 db_runs := upd_where (\<lambda>x. rn_id x = ap_run a) (decided_run next meta' (next \<noteq> rn_status r)) (db_runs d)\<rparr>
      in (Decided (the (approval_of approval_id d')) (rn_status r) next
            (ap_kind a \<noteq> ''mcp_app_tool_call'' \<and> \<not> truthy (dget (rn_metadata r) ''control_signal'')
             \<and> \<not> pending \<and> next \<in> {''running'', ''waiting_input''}), d'))"

definition resolve_pending_approval_if_pending ::
  "string \<Rightarrow> string \<Rightarrow> dict option \<Rightarrow> dict option \<Rightarrow> dict option \<Rightarrow> string \<Rightarrow> time \<Rightarrow> db \<Rightarrow> decision option \<times> db" where
  "resolve_pending_approval_if_pending approval_id status response operation expected generation now d =
     (if status \<notin> {''approved'', ''rejected''} then (None, d)
      else case approval_of approval_id d of
        None \<Rightarrow> (Some (Undecided ''approval_not_found''), d)
      | Some a \<Rightarrow>
          (case refusal approval_id status response expected a (run_of (ap_run a) d) now of
             Some why \<Rightarrow> (Some (Undecided why), d)
           | None \<Rightarrow>
               (case apply_decision approval_id status response operation generation now a
                       (the (run_of (ap_run a) d)) d of (x, d') \<Rightarrow> (Some x, d'))))"

section \<open>Delivering\<close>

definition delivery_state :: "approval_rec \<Rightarrow> string" where
  "delivery_state a = as_text (dget (ap_resume a) ''state'')"

definition reserved :: "approval_rec \<Rightarrow> bool" where
  "reserved a \<longleftrightarrow> delivery_state a \<in> {''scheduled'', ''executing''}"

definition set_delivery :: "string \<Rightarrow> dict \<Rightarrow> db \<Rightarrow> db" where
  "set_delivery a delivery d =
     d\<lparr>db_approvals := upd_where (\<lambda>x. ap_id x = a) (with_delivery delivery) (db_approvals d)\<rparr>"

text \<open>The run as it has to be for a delivery: running, not demo_asked to stop.\<close>

definition ready_run :: "string \<Rightarrow> string \<Rightarrow> db \<Rightarrow> run_rec option" where
  "ready_run run session d = (case run_of run d of None \<Rightarrow> None
     | Some r \<Rightarrow> if rn_session r = session \<and> rn_status r = ''running''
                    \<and> control_command (rn_metadata r) \<notin> set stop_commands then Some r else None)"

definition retry_later :: "dict \<Rightarrow> time \<Rightarrow> bool" where
  "retry_later delivery now = (case dget delivery ''retryAfter'' of JInt t \<Rightarrow> now < t | _ \<Rightarrow> False)"

definition int_value :: "json \<Rightarrow> int" where
  "int_value v = (case int_of_json v of None \<Rightarrow> 0 | Some n \<Rightarrow> n)"

datatype approval_claim = NotClaimed string | Claimed approval_rec dict

definition claim_approval_resume :: "string \<Rightarrow> bool \<Rightarrow> time \<Rightarrow> db \<Rightarrow> approval_claim \<times> db" where
  "claim_approval_resume approval_id restart now d =
     (case approval_of approval_id d of
        None \<Rightarrow> (NotClaimed ''approval_not_approved'', d)
      | Some a \<Rightarrow>
          if ap_status a \<noteq> ''approved'' then (NotClaimed ''approval_not_approved'', d)
          else if delivery_state a \<notin> (if restart then {''pending'', ''scheduled''} else {''pending''})
                  \<or> \<not> truthy (dget (ap_resume a) ''generation'')
          then (NotClaimed ''approval_resume_already_claimed'', d)
          else case ready_run (ap_run a) (ap_session a) d of
            None \<Rightarrow> (NotClaimed ''run_not_ready_after_approval'', d)
          | Some r \<Rightarrow>
              if scope_changed (ap_request a) (rn_metadata r) then (NotClaimed ''approval_scope_changed'', d)
              else if another_pending (ap_run a) d then (NotClaimed ''another_approval_pending'', d)
              else if list_ex (\<lambda>x. ap_run x = ap_run a \<and> ap_id x \<noteq> approval_id \<and> reserved x) (db_approvals d)
              then (NotClaimed ''approval_parent_writer_reserved'', d)
              else if \<not> restart \<and> retry_later (ap_resume a) now then (NotClaimed ''approval_resume_retry_pending'', d)
              else
                let delivery = dset ''scheduledAt'' (JInt now)
                      (dset ''attempt'' (JInt (int_value (dget (ap_resume a) ''attempt'') + 1))
                      (dset ''state'' (JStr ''scheduled'') (ap_resume a)))
                in (Claimed a delivery, set_delivery approval_id delivery d))"

definition transition_approval_resume ::
  "string \<Rightarrow> string \<Rightarrow> string \<Rightarrow> int \<Rightarrow> string \<Rightarrow> string \<Rightarrow> string \<Rightarrow> time \<Rightarrow> db \<Rightarrow> bool \<times> db" where
  "transition_approval_resume approval_id run generation attempt expected state error now d =
     (case approval_of approval_id d of
        None \<Rightarrow> (False, d)
      | Some a \<Rightarrow>
          let delivery = ap_resume a
          in if ap_run a \<noteq> run \<or> ap_status a \<noteq> ''approved'' \<or> dget delivery ''state'' \<noteq> JStr expected
                \<or> dget delivery ''generation'' \<noteq> JStr generation
                \<or> \<not> py_eq (dget delivery ''attempt'') (JInt attempt)
             then (False, d)
             else if state = ''executing'' \<and>
                     (case ready_run run (ap_session a) d of None \<Rightarrow> True
                      | Some r \<Rightarrow> scope_changed (ap_request a) (rn_metadata r))
             then (False, d)
             else
               let v1 = dset ''state'' (JStr state) delivery;
                   v2 = (if error = [] then v1 else dset ''lastError'' (JStr error) v1);
                   v3 = (if state = ''pending'' then dset ''retryAfter'' (JInt (now + 5000)) v2 else v2)
               in (True, set_delivery approval_id v3 d))"

definition approval_resume_state_for_run :: "string \<Rightarrow> db \<Rightarrow> bool \<times> bool" where
  "approval_resume_state_for_run run d =
     (let rows = filter (\<lambda>a. ap_run a = run \<and> ap_status a = ''approved''
                     \<and> as_text (dget (ap_resume a) ''generation'') \<noteq> []) (db_approvals d)
      in (rows \<noteq> [], list_ex (\<lambda>a. delivery_state a \<in> {''pending'', ''scheduled'', ''executing'', ''blocked''}) rows))"

text \<open>The same comparison in SQL, where a null first key falls through to the second.\<close>

definition scope_differs :: "dict \<Rightarrow> dict \<Rightarrow> bool" where
  "scope_differs request metadata =
     (let scope = (\<lambda>m. if dget m ''scopeRevision'' = JNull then dget m ''scope_revision'' else dget m ''scopeRevision'')
      in scope request \<noteq> JNull \<and> scope metadata \<noteq> JNull \<and> \<not> py_eq (scope request) (scope metadata))"

definition list_undelivered_approval_resumes :: "string option \<Rightarrow> db \<Rightarrow> approval_rec list" where
  "list_undelivered_approval_resumes run d =
     sort_key ap_created (filter (\<lambda>a. ap_status a = ''approved'' \<and> delivery_state a \<in> {''pending'', ''scheduled''}
        \<and> (case run of None \<Rightarrow> True | Some r \<Rightarrow> r = [] \<or> ap_run a = r)
        \<and> (case run_of (ap_run a) d of None \<Rightarrow> False
           | Some r \<Rightarrow> rn_status r = ''running'' \<and> control_command (rn_metadata r) \<notin> set stop_commands
               \<and> \<not> scope_differs (ap_request a) (rn_metadata r))) (db_approvals d))"

section \<open>Reviews of a Spec document\<close>

datatype spec_error = SpecIdentityConflict | SpecSuperseded | SpecRunNotAvailable | SpecScopeChanged
  | SpecDeliveryInProgress | SpecIdTaken

definition same_keys :: "string list \<Rightarrow> dict \<Rightarrow> dict \<Rightarrow> bool" where
  "same_keys ks a b = list_all (\<lambda>k. py_eq (dget a k) (dget b k)) ks"

definition spec_target :: "string list" where
  "spec_target = [''specId'', ''stage'', ''workspacePath'']"

text \<open>The other cards of the same document: a pending one is cancelled, an undelivered decision is
  retired, one that is being executed stops the review.\<close>

definition replaced_card :: "string \<Rightarrow> time \<Rightarrow> approval_rec \<Rightarrow> approval_rec" where
  "replaced_card selected now x =
     (if ap_status x = ''pending'' then x\<lparr>ap_status := ''cancelled'', ap_updated := now\<rparr>
      else if delivery_state x \<in> {''pending'', ''scheduled'', ''blocked''}
      then x\<lparr>ap_resume := dset ''replacedByApprovalId'' (JStr selected)
                 (dset ''state'' (JStr ''superseded'') (ap_resume x))\<rparr>
      else x)"

definition spec_card :: "string \<Rightarrow> string \<Rightarrow> dict \<Rightarrow> approval_rec \<Rightarrow> bool" where
  "spec_card run session request x \<longleftrightarrow> ap_run x = run \<and> ap_session x = session
     \<and> ap_kind x = ''spec_stage_approval'' \<and> ap_status x \<in> {''pending'', ''approved''}
     \<and> same_keys spec_target (ap_request x) request"

definition selected_card :: "string \<Rightarrow> dict \<Rightarrow> approval_rec list \<Rightarrow> string" where
  "selected_card approval_id request cards =
     (if truthy (dget request ''replacesApprovalId'') then approval_id
      else case find (\<lambda>x. ap_status x = ''pending''
                     \<and> py_eq (dget (ap_request x) ''documentSha256'') (dget request ''documentSha256'')) cards of
        None \<Rightarrow> approval_id | Some x \<Rightarrow> ap_id x)"

definition own_card :: "string \<Rightarrow> string \<Rightarrow> string \<Rightarrow> db \<Rightarrow> approval_rec option" where
  "own_card a session run d = (case approval_of a d of None \<Rightarrow> None
     | Some x \<Rightarrow> if ap_session x = session \<and> ap_run x = run then Some x else None)"

definition owned_run :: "string \<Rightarrow> string \<Rightarrow> db \<Rightarrow> run_rec option" where
  "owned_run session run d = (case run_of run d of None \<Rightarrow> None
     | Some r \<Rightarrow> if rn_session r = session then Some r else None)"

definition spec_review_args :: "string \<Rightarrow> string \<Rightarrow> string \<Rightarrow> dict \<Rightarrow> expiry \<Rightarrow> approval_args" where
  "spec_review_args approval_id session run request expires =
     \<lparr>pa_id = approval_id, pa_session = session, pa_run = run, pa_kind = ''spec_stage_approval'',
      pa_status = ''pending'', pa_request = request, pa_response = None, pa_expires = expires\<rparr>"

definition write_spec_review ::
  "string \<Rightarrow> string \<Rightarrow> string \<Rightarrow> dict \<Rightarrow> expiry \<Rightarrow> time \<Rightarrow> string \<Rightarrow> bool \<Rightarrow> db \<Rightarrow>
     (spec_error + approval_rec) \<times> db" where
  "write_spec_review approval_id session run request expires now selected fresh d =
     (let t = upd_where (\<lambda>x. spec_card run session request x \<and> ap_id x \<noteq> selected)
                (replaced_card selected now) (db_approvals d);
          t' = (if fresh then t @ [new_approval (spec_review_args approval_id session run request expires) now]
                else t);
          d' = d\<lparr>db_approvals := t',
                 db_runs := upd_where (\<lambda>x. rn_id x = run) (\<lambda>x. x\<lparr>rn_status := ''waiting_approval''\<rparr>)
                   (db_runs d)\<rparr>
      in (Inr (the (approval_of selected d')), d'))"

definition create_spec_review_approval ::
  "string \<Rightarrow> string \<Rightarrow> string \<Rightarrow> dict \<Rightarrow> expiry \<Rightarrow> time \<Rightarrow> db \<Rightarrow> (spec_error + approval_rec) \<times> db" where
  "create_spec_review_approval approval_id session run request expires now d =
     (let exact = own_card approval_id session run d
      in if (case exact of None \<Rightarrow> False
             | Some x \<Rightarrow> \<not> same_keys (spec_target @ [''documentSha256'']) (ap_request x) request)
         then (Inl SpecIdentityConflict, d)
         else if map_option ap_status exact = Some ''approved'' then (Inr (the exact), d)
         else if (case exact of None \<Rightarrow> False | Some x \<Rightarrow> ap_status x \<noteq> ''pending'') then (Inl SpecSuperseded, d)
         else case owned_run session run d of
           None \<Rightarrow> (Inl SpecRunNotAvailable, d)
         | Some r \<Rightarrow>
             if rn_status r \<notin> {''running'', ''waiting_input'', ''waiting_approval''}
                \<or> control_command (rn_metadata r) \<in> set stop_commands
             then (Inl SpecRunNotAvailable, d)
             else if scope_changed request (rn_metadata r) then (Inl SpecScopeChanged, d)
             else
               let cards = filter (spec_card run session request) (db_approvals d);
                   selected = selected_card approval_id request cards
               in if list_ex (\<lambda>x. ap_id x \<noteq> selected \<and> delivery_state x = ''executing'') cards
                  then (Inl SpecDeliveryInProgress, d)
                  else if selected = approval_id \<and> exact = None \<and> approval_of approval_id d \<noteq> None
                  then (Inl SpecIdTaken, d)
                  else write_spec_review approval_id session run request expires now selected
                         (selected = approval_id \<and> exact = None) d)"

section \<open>Recovery after a restart\<close>

definition rpa_lost :: "db \<Rightarrow> approval_rec \<Rightarrow> run_rec option" where
  "rpa_lost d a = (case run_of (ap_run a) d of None \<Rightarrow> None
     | Some r \<Rightarrow> if rn_session r = ap_session a \<and> ap_status a = ''approved'' \<and> rn_type r = ''rpa''
                    \<and> delivery_state a = ''executing'' \<and> is_dict (dget (rn_metadata r) ''resumeExecution'')
                 then Some r else None)"

definition rpa_message :: string where
  "rpa_message = ''RPA execution was interrupted by an Engine restart. Inspect external effects before retrying.''"

definition rpa_status :: "string \<Rightarrow> string" where
  "rpa_status s = (if s \<in> {''queued'', ''running'', ''waiting_approval'', ''waiting_input'', ''waiting_external_tool''}
     then ''failed'' else s)"

definition rpa_metadata :: "string \<Rightarrow> time \<Rightarrow> dict \<Rightarrow> dict" where
  "rpa_metadata approval_id now meta =
     dmerge meta [(''executionState'', JStr ''unknown''), (''reconciliationRequired'', JBool True),
       (''outcomeFamily'', JStr ''failed''), (''error'', JStr rpa_message),
       (''approvalResumeRecovery'', JObj [(''approvalId'', JStr approval_id),
          (''reason'', JStr ''rpa_approval_execution_interrupted''), (''at'', JInt now)])]"

definition append_plain_event ::
  "string \<Rightarrow> run_rec \<Rightarrow> string \<Rightarrow> dict \<Rightarrow> time \<Rightarrow> db \<Rightarrow> db" where
  "append_plain_event event_id r topic payload now d =
     (case allocate_runtime_event_seq (rn_session r) now d of
        (n, d') \<Rightarrow> d'\<lparr>db_events := db_events d' @
          [\<lparr>ev_id = event_id, ev_session = rn_session r, ev_run = Some (rn_id r), ev_seq = n, ev_kind = ''event'',
            ev_topic = topic, ev_ts = Some now,
            ev_source = [(''plane'', JStr ''engine''), (''component'', JStr ''erc''),
                         (''node'', JStr ''rpa_approval_recovery''), (''agent_id'', JNull)],
            ev_payload = payload\<rparr>]\<rparr>)"

definition recover_rpa_row :: "(string \<Rightarrow> string \<Rightarrow> string) \<Rightarrow> time \<Rightarrow> approval_rec \<times> run_rec \<Rightarrow> db \<Rightarrow> db" where
  "recover_rpa_row fresh now x d =
     (case x of (a, r) \<Rightarrow>
        let reason = ''rpa_approval_execution_interrupted'';
            status = rpa_status (rn_status r);
            d1 = set_delivery (ap_id a) (dmerge (ap_resume a) [(''state'', JStr ''blocked''),
                   (''lastError'', JStr reason), (''recoveredAt'', JInt now)]) d;
            d2 = d1\<lparr>db_runs := upd_where (\<lambda>y. rn_id y = rn_id r)
                   (\<lambda>y. y\<lparr>rn_status := status, rn_metadata := rpa_metadata (ap_id a) now (rn_metadata r),
                          rn_error := coalesce (rn_error y) (Some rpa_message),
                          rn_finished := coalesce (rn_finished y) (Some now)\<rparr>) (db_runs d1)\<rparr>;
            d3 = append_plain_event (fresh (ap_id a) ''run.state.changed'') r ''run.state.changed''
                   [(''from_status'', JStr (rn_status r)), (''to_status'', JStr status), (''reason'', JStr reason)] now d2
        in append_plain_event (fresh (ap_id a) ''rpa.execution.reconciliation_required'') r
             ''rpa.execution.reconciliation_required''
             [(''runId'', JStr (rn_id r)), (''approvalId'', JStr (ap_id a)), (''status'', JStr ''unknown''),
              (''reconciliationRequired'', JBool True), (''reason'', JStr reason), (''error'', JStr rpa_message)] now d3)"

definition lost_rpa_rows :: "db \<Rightarrow> (approval_rec \<times> run_rec) list" where
  "lost_rpa_rows d = concat (map (\<lambda>a. case rpa_lost d a of None \<Rightarrow> [] | Some r \<Rightarrow> [(a, r)]) (db_approvals d))"

definition recover_interrupted_rpa_approval_resumes ::
  "(string \<Rightarrow> string \<Rightarrow> string) \<Rightarrow> time \<Rightarrow> db \<Rightarrow> string list \<times> db" where
  "recover_interrupted_rpa_approval_resumes fresh now d =
     (let rows = lost_rpa_rows d in (map (ap_id \<circ> fst) rows, fold (recover_rpa_row fresh now) rows d))"

section \<open>Histories\<close>

datatype approval_op =
    AAsk approval_args
  | AResolve string string "dict option" "dict option" "dict option" string
  | AClaim string bool
  | AMove string string string int string string string
  | ASpec string string string dict expiry
  | ARecover
  | ARunStatus string string "string option" dict

text \<open>An approval is demo_asked for under a new identifier.\<close>

fun approval_step :: "(string \<Rightarrow> string \<Rightarrow> string) \<Rightarrow> approval_op \<Rightarrow> time \<Rightarrow> db \<Rightarrow> db" where
  "approval_step fresh (AAsk a) now d =
     (if approval_of (pa_id a) d \<noteq> None then d else snd (add_pending_approval a now d))"
| "approval_step fresh (AResolve a status response operation expected generation) now d =
     snd (resolve_pending_approval_if_pending a status response operation expected generation now d)"
| "approval_step fresh (AClaim a restart) now d = snd (claim_approval_resume a restart now d)"
| "approval_step fresh (AMove a run generation attempt expected state error) now d =
     snd (transition_approval_resume a run generation attempt expected state error now d)"
| "approval_step fresh (ASpec a session run request expires) now d =
     snd (create_spec_review_approval a session run request expires now d)"
| "approval_step fresh ARecover now d = snd (recover_interrupted_rpa_approval_resumes fresh now d)"
| "approval_step fresh (ARunStatus run status error meta) now d = update_run_record run status error meta now d"

fun approval_run :: "(string \<Rightarrow> string \<Rightarrow> string) \<Rightarrow> (approval_op \<times> time) list \<Rightarrow> db \<Rightarrow> db" where
  "approval_run fresh [] d = d"
| "approval_run fresh ((x, now) # xs) d = approval_run fresh xs (approval_step fresh x now d)"

lemma with_delivery_simps [simp]:
  "ap_id (with_delivery v x) = ap_id x" "ap_run (with_delivery v x) = ap_run x"
  "ap_session (with_delivery v x) = ap_session x" "ap_kind (with_delivery v x) = ap_kind x"
  "ap_request (with_delivery v x) = ap_request x" "ap_status (with_delivery v x) = ap_status x"
  "ap_response (with_delivery v x) = ap_response x" "ap_resume (with_delivery v x) = v"
  by (simp_all add: with_delivery_def)

lemma voted_simps [simp]:
  "ap_id (voted s r now x) = ap_id x" "ap_run (voted s r now x) = ap_run x"
  "ap_session (voted s r now x) = ap_session x" "ap_kind (voted s r now x) = ap_kind x"
  "ap_request (voted s r now x) = ap_request x" "ap_status (voted s r now x) = s"
  "ap_response (voted s r now x) = map_option JObj r" "ap_resume (voted s r now x) = ap_resume x"
  by (simp_all add: voted_def)

lemma decided_run_simps [simp]:
  "rn_id (decided_run s m c x) = rn_id x" "rn_status (decided_run s m c x) = s"
  by (simp_all add: decided_run_def)

text \<open>What a row may become: its question stays, a decision stays, and the delivery is scheduled
  again only under a higher attempt.\<close>

definition delivery_evolves :: "dict \<Rightarrow> dict \<Rightarrow> bool" where
  "delivery_evolves r q \<longleftrightarrow>
     (dget q ''attempt'' = dget r ''attempt'' \<and>
      (dget q ''state'' = JStr ''scheduled'' \<longrightarrow> dget r ''state'' = JStr ''scheduled'')) \<or>
     (\<exists>n. dget q ''attempt'' = JInt n \<and> int_value (dget r ''attempt'') < n)"

definition card_evolves :: "approval_rec \<Rightarrow> approval_rec \<Rightarrow> bool" where
  "card_evolves x y \<longleftrightarrow> ap_id y = ap_id x \<and> ap_run y = ap_run x \<and> ap_session y = ap_session x \<and>
     ap_kind y = ap_kind x \<and> ap_request y = ap_request x \<and>
     (ap_status x \<noteq> ''pending'' \<longrightarrow> ap_status y = ap_status x \<and> ap_response y = ap_response x \<and>
        delivery_evolves (ap_resume x) (ap_resume y))"

lemma int_value_JInt [simp]: "int_value (JInt n) = n"
  by (simp add: int_value_def int_of_json_def)

lemma delivery_evolves_refl [simp]: "delivery_evolves r r"
  by (simp add: delivery_evolves_def)

lemma delivery_evolves_same:
  "dget q ''attempt'' = dget r ''attempt'' \<Longrightarrow> dget q ''state'' \<noteq> JStr ''scheduled'' \<Longrightarrow> delivery_evolves r q"
  by (simp add: delivery_evolves_def)

lemma delivery_evolves_trans: "delivery_evolves a b \<Longrightarrow> delivery_evolves b c \<Longrightarrow> delivery_evolves a c"
  by (auto simp: delivery_evolves_def)

lemma card_evolves_refl [simp]: "card_evolves x x"
  by (simp add: card_evolves_def)

lemma card_evolves_trans: "card_evolves a b \<Longrightarrow> card_evolves b c \<Longrightarrow> card_evolves a c"
  by (auto simp: card_evolves_def intro: delivery_evolves_trans)

definition cards_evolve :: "db \<Rightarrow> db \<Rightarrow> bool" where
  "cards_evolve d d' \<longleftrightarrow> keyed ap_id (db_approvals d') \<and>
     table_evolves card_evolves (db_approvals d) (db_approvals d')"

lemma cards_refl: "keyed ap_id (db_approvals d) \<Longrightarrow> cards_evolve d d"
  by (simp add: cards_evolve_def table_evolves_refl)

lemma cards_same: "keyed ap_id (db_approvals d) \<Longrightarrow> db_approvals d' = db_approvals d \<Longrightarrow> cards_evolve d d'"
  by (simp add: cards_evolve_def table_evolves_refl)

lemma cards_trans: "cards_evolve a b \<Longrightarrow> cards_evolve b c \<Longrightarrow> cards_evolve a c"
  unfolding cards_evolve_def by (blast intro: table_evolves_trans [where R = card_evolves] card_evolves_trans)

lemma cards_upd:
  assumes "keyed ap_id (db_approvals d)" and "db_approvals d' = upd_where P f (db_approvals d)"
    and "\<And>x. ap_id (f x) = ap_id x"
    and "\<And>x. x \<in> set (db_approvals d) \<Longrightarrow> P x \<Longrightarrow> card_evolves x (f x)"
  shows "cards_evolve d d'"
  using assms by (simp add: cards_evolve_def keyed_upd_where table_evolves_upd)

lemma cards_add:
  "keyed ap_id (db_approvals d) \<Longrightarrow> approval_of (ap_id x) d = None \<Longrightarrow> db_approvals d' = db_approvals d @ [x] \<Longrightarrow>
   cards_evolve d d'"
  by (simp add: cards_evolve_def keyed_snoc table_evolves_append)

lemma cards_sel:
  assumes "cards_evolve d d'" and "approval_of a d = Some x"
  shows "\<exists>y. approval_of a d' = Some y \<and> card_evolves x y"
  using table_evolves_sel [of card_evolves "db_approvals d" "db_approvals d'" ap_id a x] assms
  by (auto simp: cards_evolve_def card_evolves_def)

text \<open>A delivery written over one row.\<close>

lemma set_delivery_evolves:
  assumes "keyed ap_id (db_approvals d)" and "approval_of a d = Some x" and "delivery_evolves (ap_resume x) v"
  shows "cards_evolve d (set_delivery a v d)"
proof (rule cards_upd [OF assms(1)])
  show "db_approvals (set_delivery a v d) = upd_where (\<lambda>x. ap_id x = a) (with_delivery v) (db_approvals d)"
    by (simp add: set_delivery_def)
  fix y assume "y \<in> set (db_approvals d)" "ap_id y = a"
  then have "y = x" using assms(1,2) keyed_sel_iff [of ap_id "db_approvals d" a y] by simp
  then show "card_evolves y (with_delivery v y)" using assms(3) by (simp add: card_evolves_def)
qed simp

subsection \<open>Every operation evolves the cards\<close>

text \<open>A vote either changes nothing or turns one pending card.\<close>

lemma resolve_cases:
  assumes "resolve_pending_approval_if_pending i status response operation expected generation now d = (res, d')"
  obtains (refused) "d' = d" "res = None \<or> (\<exists>why. res = Some (Undecided why))"
  | (decided) a r v where "approval_of i d = Some a" "ap_status a = ''pending''"
      "status \<in> {''approved'', ''rejected''}" "run_of (ap_run a) d = Some r" "rn_status r \<notin> set terminal_statuses"
      "apply_decision i status response operation generation now a r d = (v, d')" "res = Some v"
      "refusal i status response expected a (Some r) now = None"
proof (cases "status \<notin> {''approved'', ''rejected''} \<or> approval_of i d = None")
  case True
  then show ?thesis using assms
    by (intro refused) (auto simp: resolve_pending_approval_if_pending_def split: if_splits)
next
  case False
  then obtain a where a: "approval_of i d = Some a" and st: "status \<in> {''approved'', ''rejected''}"
    and nst: "\<not> status \<notin> {''approved'', ''rejected''}" by auto
  have eq: "(res, d') = (case refusal i status response expected a (run_of (ap_run a) d) now of
        Some why \<Rightarrow> (Some (Undecided why), d)
      | None \<Rightarrow> (case apply_decision i status response operation generation now a (the (run_of (ap_run a) d)) d of
           (x, d') \<Rightarrow> (Some x, d')))"
    using assms [symmetric] unfolding resolve_pending_approval_if_pending_def if_not_P [OF nst] a option.case .
  show ?thesis
  proof (cases "refusal i status response expected a (run_of (ap_run a) d) now")
    case (Some why)
    then show ?thesis using eq by (intro refused) simp_all
  next
    case None
    obtain r where r: "run_of (ap_run a) d = Some r"
      using None by (cases "run_of (ap_run a) d") (auto simp: refusal_def Let_def split: if_splits)
    have ok: "ap_status a = ''pending''" "rn_status r \<notin> set terminal_statuses"
      using None r by (auto simp: refusal_def Let_def split: if_splits)
    obtain v d1 where v: "apply_decision i status response operation generation now a r d = (v, d1)"
      by (metis surj_pair)
    then show ?thesis using decided [OF a ok(1) st r ok(2), of v] eq None r by simp
  qed
qed

lemma apply_decision_approvals:
  assumes "apply_decision i status response operation generation now a r d = (v, d')"
    and "t = upd_where (\<lambda>x. ap_id x = i \<and> ap_status x = ''pending'') (voted status response now) (db_approvals d)"
  shows "db_approvals d' = t \<or>
    db_approvals d' = upd_where (\<lambda>x. ap_id x = i) (with_delivery (new_delivery generation)) t"
  using assms unfolding apply_decision_def Let_def by (auto split: prod.splits if_splits)

lemma resolve_evolves:
  assumes "keyed ap_id (db_approvals d)"
  shows "cards_evolve d (snd (resolve_pending_approval_if_pending i status response operation expected generation now d))"
proof (cases "resolve_pending_approval_if_pending i status response operation expected generation now d")
  case (Pair res d')
  from Pair show ?thesis
  proof (cases rule: resolve_cases)
    case refused
    then show ?thesis using assms Pair by (simp add: cards_refl)
  next
    case (decided a r v)
    let ?f = "voted status response now" and ?g = "with_delivery (new_delivery generation)"
    have "db_approvals d' = upd_where (\<lambda>x. ap_id x = i \<and> ap_status x = ''pending'') ?f (db_approvals d) \<or>
        db_approvals d' = upd_where (\<lambda>x. ap_id x = i \<and> ap_status x = ''pending'') (?g \<circ> ?f) (db_approvals d)"
    proof -
      have "upd_where (\<lambda>x. ap_id x = i) ?g (upd_where (\<lambda>x. ap_id x = i \<and> ap_status x = ''pending'') ?f (db_approvals d)) =
          upd_where (\<lambda>x. ap_id x = i \<and> ap_status x = ''pending'') (?g \<circ> ?f) (db_approvals d)"
      proof (rule upd_where_twice)
        fix x assume "x \<in> set (db_approvals d)"
        then have "ap_id x = i \<Longrightarrow> x = a" using decided(1) keyed_sel_iff [OF assms, of i x] by simp
        then show "(ap_id (if ap_id x = i \<and> ap_status x = ''pending'' then ?f x else x) = i) =
            (ap_id x = i \<and> ap_status x = ''pending'')" using decided(2) by auto
      qed
      then show ?thesis using apply_decision_approvals [OF decided(6) refl] by auto
    qed
    then show ?thesis
    proof
      assume t: "db_approvals d' = upd_where (\<lambda>x. ap_id x = i \<and> ap_status x = ''pending'') ?f (db_approvals d)"
      show ?thesis unfolding Pair snd_conv by (rule cards_upd [OF assms t]) (simp_all add: card_evolves_def)
    next
      assume t: "db_approvals d' = upd_where (\<lambda>x. ap_id x = i \<and> ap_status x = ''pending'') (?g \<circ> ?f) (db_approvals d)"
      show ?thesis unfolding Pair snd_conv by (rule cards_upd [OF assms t]) (simp_all add: card_evolves_def)
    qed
  qed
qed

text \<open>A claim either changes nothing or schedules the next attempt, when no other card of the
  run is reserved.\<close>

definition next_attempt :: "approval_rec \<Rightarrow> time \<Rightarrow> dict" where
  "next_attempt a now = dset ''scheduledAt'' (JInt now)
     (dset ''attempt'' (JInt (int_value (dget (ap_resume a) ''attempt'') + 1))
       (dset ''state'' (JStr ''scheduled'') (ap_resume a)))"

definition other_reserved :: "approval_rec \<Rightarrow> string \<Rightarrow> db \<Rightarrow> bool" where
  "other_reserved a i d = list_ex (\<lambda>x. ap_run x = ap_run a \<and> ap_id x \<noteq> i \<and> reserved x) (db_approvals d)"

lemma claim_cases:
  assumes "claim_approval_resume i restart now d = (res, d')"
  obtains (unclaimed) why where "res = NotClaimed why" "d' = d"
  | (scheduled) a where "approval_of i d = Some a" "res = Claimed a (next_attempt a now)"
      "d' = set_delivery i (next_attempt a now) d" "\<not> other_reserved a i d"
proof -
  define Q where "Q p \<longleftrightarrow> (\<exists>why. p = (NotClaimed why, d)) \<or> (\<exists>a. approval_of i d = Some a \<and>
      p = (Claimed a (next_attempt a now), set_delivery i (next_attempt a now) d) \<and> \<not> other_reserved a i d)" for p
  have ifQ: "(c \<Longrightarrow> Q a) \<Longrightarrow> (\<not> c \<Longrightarrow> Q b) \<Longrightarrow> Q (if c then a else b)" for c a b by simp
  have no: "Q (NotClaimed why, d)" for why by (simp add: Q_def)
  have optQ: "Q a \<Longrightarrow> (\<And>x. z = Some x \<Longrightarrow> Q (f x)) \<Longrightarrow> Q (case z of None \<Rightarrow> a | Some x \<Rightarrow> f x)"
    for z :: "'b option" and f a by (simp split: option.split)
  have yes: "approval_of i d = Some a \<Longrightarrow> \<not> other_reserved a i d \<Longrightarrow>
      Q (Claimed a (next_attempt a now), set_delivery i (next_attempt a now) d)" for a
    unfolding Q_def by (intro disjI2 exI [of _ a] conjI refl)
  have "Q (claim_approval_resume i restart now d)"
    unfolding claim_approval_resume_def Let_def other_reserved_def [symmetric] next_attempt_def [symmetric]
    by (intro ifQ optQ no yes; assumption)
  then show ?thesis unfolding assms Q_def using unclaimed scheduled by auto
qed

lemma claim_evolves:
  assumes "keyed ap_id (db_approvals d)"
  shows "cards_evolve d (snd (claim_approval_resume i restart now d))"
proof (cases "claim_approval_resume i restart now d")
  case (Pair res d')
  from Pair show ?thesis
  proof (cases rule: claim_cases)
    case (scheduled a)
    have "delivery_evolves (ap_resume a) (next_attempt a now)" by (simp add: delivery_evolves_def next_attempt_def)
    then show ?thesis using set_delivery_evolves [OF assms scheduled(1)] by (simp add: Pair scheduled(3))
  qed (simp add: Pair assms cards_refl)
qed

lemma move_cases:
  assumes "transition_approval_resume i run generation attempt expected state error now d = (ok, d')"
  obtains (refused) "\<not> ok" "d' = d"
  | (moved) a v where "ok" "approval_of i d = Some a" "ap_run a = run" "ap_status a = ''approved''"
      "delivery_state a = expected" "dget (ap_resume a) ''generation'' = JStr generation"
      "py_eq (dget (ap_resume a) ''attempt'') (JInt attempt)" "d' = set_delivery i v d"
      "dget v ''attempt'' = dget (ap_resume a) ''attempt''" "dget v ''state'' = JStr state"
      "dget v ''generation'' = JStr generation"
proof (cases "approval_of i d")
  case None
  then show ?thesis using assms by (intro refused) (auto simp: transition_approval_resume_def)
next
  case (Some a)
  define v1 where "v1 = dset ''state'' (JStr state) (ap_resume a)"
  define v2 where "v2 = (if error = [] then v1 else dset ''lastError'' (JStr error) v1)"
  define v3 where "v3 = (if state = ''pending'' then dset ''retryAfter'' (JInt (now + 5000)) v2 else v2)"
  have v3: "dget v3 ''attempt'' = dget (ap_resume a) ''attempt''" "dget v3 ''state'' = JStr state"
    "dget v3 ''generation'' = dget (ap_resume a) ''generation''"
    by (simp_all add: v3_def v2_def v1_def)
  let ?no = "ap_run a \<noteq> run \<or> ap_status a \<noteq> ''approved'' \<or> dget (ap_resume a) ''state'' \<noteq> JStr expected
      \<or> dget (ap_resume a) ''generation'' \<noteq> JStr generation \<or> \<not> py_eq (dget (ap_resume a) ''attempt'') (JInt attempt)"
  let ?wait = "state = ''executing'' \<and> (case ready_run run (ap_session a) d of None \<Rightarrow> True
      | Some r \<Rightarrow> scope_changed (ap_request a) (rn_metadata r))"
  have eq: "transition_approval_resume i run generation attempt expected state error now d =
      (if ?no then (False, d) else if ?wait then (False, d) else (True, set_delivery i v3 d))"
    unfolding transition_approval_resume_def Some option.case Let_def v3_def v2_def v1_def by (rule refl)
  show ?thesis
  proof (cases "?no \<or> ?wait")
    case True
    then show ?thesis using assms eq by (intro refused) (auto split: if_splits)
  next
    case False
    then have no: "\<not> ?no" and wait: "\<not> ?wait" by blast+
    have "(ok, d') = (True, set_delivery i v3 d)"
      using assms [symmetric] unfolding eq if_not_P [OF no] if_not_P [OF wait] .
    then show ?thesis using False v3 Some by (intro moved [of a v3]) (simp_all add: delivery_state_def)
  qed
qed

lemma move_evolves:
  assumes "keyed ap_id (db_approvals d)" and "state \<noteq> ''scheduled''"
  shows "cards_evolve d (snd (transition_approval_resume i run generation attempt expected state error now d))"
proof (cases "transition_approval_resume i run generation attempt expected state error now d")
  case (Pair ok d')
  from Pair show ?thesis
  proof (cases rule: move_cases)
    case (moved a v)
    then show ?thesis
      using set_delivery_evolves [OF assms(1) moved(2)] Pair assms(2) by (simp add: delivery_evolves_same)
  qed (simp add: Pair cards_refl assms)
qed

lemma replaced_card_evolves: "card_evolves x (replaced_card i now x)"
  by (simp add: replaced_card_def card_evolves_def delivery_evolves_def)

lemma new_approval_simps [simp]:
  "ap_id (new_approval a now) = pa_id a" "ap_run (new_approval a now) = pa_run a"
  "ap_resume (new_approval a now) = []"
  by (simp_all add: new_approval_def)

lemma spec_cases:
  assumes "create_spec_review_approval i session run request expires now d = (res, d')"
  obtains (same_db) "d' = d"
  | (kept) P selected where "db_approvals d' = upd_where P (replaced_card selected now) (db_approvals d)"
  | (added) P x where "db_approvals d' = upd_where P (replaced_card i now) (db_approvals d) @ [x]"
      "approval_of i d = None" "ap_id x = i" "ap_resume x = []"
proof -
  define Q where "Q e \<longleftrightarrow> e = d \<or> (\<exists>selected fresh. (fresh \<longrightarrow> selected = i \<and> approval_of i d = None) \<and>
      e = snd (write_spec_review i session run request expires now selected fresh d))" for e
  have ifQ: "(c \<Longrightarrow> Q (snd a)) \<Longrightarrow> (\<not> c \<Longrightarrow> Q (snd b)) \<Longrightarrow> Q (snd (if c then a else b))"
    for c and a b :: "(spec_error + approval_rec) \<times> db" by simp
  have optQ: "Q (snd a) \<Longrightarrow> (\<And>x. Q (snd (f x))) \<Longrightarrow> Q (snd (case z of None \<Rightarrow> a | Some x \<Rightarrow> f x))"
    for z :: "run_rec option" and f :: "run_rec \<Rightarrow> (spec_error + approval_rec) \<times> db" and a
    by (simp split: option.split)
  have same: "Q (snd (x, d))" for x :: "spec_error + approval_rec" by (simp add: Q_def)
  have wrote: "\<not> (selected = i \<and> exact = None \<and> approval_of i d \<noteq> None) \<Longrightarrow>
      Q (snd (write_spec_review i session run request expires now selected (selected = i \<and> exact = None) d))"
    for selected and exact :: "approval_rec option" unfolding Q_def
    by (intro disjI2 exI [of _ selected] exI [of _ "selected = i \<and> exact = None"] conjI impI refl) auto
  have "Q (snd (create_spec_review_approval i session run request expires now d))"
    unfolding create_spec_review_approval_def Let_def by (intro ifQ optQ same wrote; assumption)
  then have "d' = d \<or> (\<exists>selected fresh. (fresh \<longrightarrow> selected = i \<and> approval_of i d = None) \<and>
      d' = snd (write_spec_review i session run request expires now selected fresh d))"
    unfolding assms Q_def by simp
  then show ?thesis
  proof (elim disjE exE conjE)
    fix selected fresh assume fresh: "fresh \<longrightarrow> selected = i \<and> approval_of i d = None"
      and d': "d' = snd (write_spec_review i session run request expires now selected fresh d)"
    show ?thesis
    proof (cases fresh)
      case True
      define x where "x = new_approval (spec_review_args i session run request expires) now"
      have "db_approvals d' = upd_where (\<lambda>x. spec_card run session request x \<and> ap_id x \<noteq> i)
          (replaced_card i now) (db_approvals d) @ [x]"
        using True fresh by (simp add: d' write_spec_review_def Let_def x_def)
      then show ?thesis by (rule added) (use True fresh in \<open>simp_all add: x_def spec_review_args_def\<close>)
    next
      case False
      then show ?thesis by (intro kept) (simp add: d' write_spec_review_def Let_def)
    qed
  qed (rule same_db)
qed

lemma spec_evolves:
  assumes "keyed ap_id (db_approvals d)"
  shows "cards_evolve d (snd (create_spec_review_approval i session run request expires now d))"
proof (cases "create_spec_review_approval i session run request expires now d")
  case (Pair res d')
  have id: "\<And>j x. ap_id (replaced_card j now x) = ap_id x" by (simp add: replaced_card_def)
  from Pair show ?thesis
  proof (cases rule: spec_cases)
    case same_db
    then show ?thesis using assms by (simp add: Pair cards_refl)
  next
    case (kept P selected)
    show ?thesis unfolding Pair snd_conv
      by (rule cards_upd [OF assms kept id]) (rule replaced_card_evolves)
  next
    case (added P x)
    define d1 where "d1 = d\<lparr>db_approvals := upd_where P (replaced_card i now) (db_approvals d)\<rparr>"
    have t: "db_approvals d1 = upd_where P (replaced_card i now) (db_approvals d)"
      and t': "db_approvals d' = db_approvals d1 @ [x]" by (simp_all add: d1_def added)
    have e: "cards_evolve d d1" by (rule cards_upd [OF assms t id]) (rule replaced_card_evolves)
    moreover have "approval_of (ap_id x) d1 = None"
      using added(2) by (simp add: t added(3) sel_by_upd_where [where key = ap_id, OF id])
    moreover have "keyed ap_id (db_approvals d1)" using e by (simp add: cards_evolve_def)
    ultimately show ?thesis unfolding Pair snd_conv by (blast intro: cards_trans cards_add t')
  qed
qed

lemma append_plain_event_frame [simp]:
  "db_approvals (append_plain_event e r topic p now d) = db_approvals d"
  by (simp add: append_plain_event_def allocate_runtime_event_seq_def Let_def split: prod.split)

lemma set_delivery_approvals [simp]:
  "db_approvals (set_delivery a v d) = upd_where (\<lambda>x. ap_id x = a) (with_delivery v) (db_approvals d)"
  by (simp add: set_delivery_def)

lemma recover_row_approvals:
  "db_approvals (recover_rpa_row fresh now (a, r) d) = upd_where (\<lambda>x. ap_id x = ap_id a)
     (with_delivery (dmerge (ap_resume a) [(''state'', JStr ''blocked''),
        (''lastError'', JStr ''rpa_approval_execution_interrupted''), (''recoveredAt'', JInt now)])) (db_approvals d)"
  by (simp add: recover_rpa_row_def Let_def)

text \<open>Every row a recovery writes is still as it was read: each is written once.\<close>

lemma recover_rows_evolve:
  assumes "keyed ap_id (db_approvals d)" and "distinct (map (ap_id \<circ> fst) rows)"
    and "\<forall>(a, r) \<in> set rows. approval_of (ap_id a) d = Some a"
  shows "cards_evolve d (fold (recover_rpa_row fresh now) rows d)"
  using assms
proof (induction rows arbitrary: d)
  case Nil
  then show ?case by (simp add: cards_refl)
next
  case (Cons x rows)
  obtain a r where x: "x = (a, r)" by (metis surj_pair)
  define d1 where "d1 = recover_rpa_row fresh now (a, r) d"
  have "cards_evolve d (set_delivery (ap_id a) (dmerge (ap_resume a) [(''state'', JStr ''blocked''),
      (''lastError'', JStr ''rpa_approval_execution_interrupted''), (''recoveredAt'', JInt now)]) d)"
    using Cons.prems x by (intro set_delivery_evolves [where x = a] delivery_evolves_same) auto
  then have e: "cards_evolve d d1" by (simp add: cards_evolve_def d1_def recover_row_approvals)
  have "approval_of (ap_id b) d1 = Some b" if "(b, q) \<in> set rows" for b q
  proof -
    have "ap_id b \<noteq> ap_id a" using Cons.prems(2) that x by (force simp: image_iff)
    then show ?thesis using Cons.prems(3) that
      by (auto simp: d1_def recover_row_approvals sel_upd_key0 [where key = ap_id])
  qed
  then have "cards_evolve d1 (fold (recover_rpa_row fresh now) rows d1)"
    using Cons.prems(2) e by (intro Cons.IH) (auto simp: cards_evolve_def)
  with e show ?case by (auto simp: x d1_def intro: cards_trans)
qed

lemma lost_rows:
  assumes "keyed ap_id (db_approvals d)"
  shows "distinct (map (ap_id \<circ> fst) (lost_rpa_rows d))" and
    "\<forall>(a, r) \<in> set (lost_rpa_rows d). approval_of (ap_id a) d = Some a"
proof -
  have "map fst (lost_rpa_rows d) = filter (\<lambda>a. rpa_lost d a \<noteq> None) (db_approvals d)"
  proof -
    have "map fst (concat (map (\<lambda>a. case rpa_lost d a of None \<Rightarrow> [] | Some r \<Rightarrow> [(a, r)]) t)) =
        filter (\<lambda>a. rpa_lost d a \<noteq> None) t" for t
      by (induction t) (auto split: option.splits)
    then show ?thesis by (simp add: lost_rpa_rows_def)
  qed
  then have m: "map (ap_id \<circ> fst) (lost_rpa_rows d) = map ap_id (filter (\<lambda>a. rpa_lost d a \<noteq> None) (db_approvals d))"
    by (metis map_map)
  show "distinct (map (ap_id \<circ> fst) (lost_rpa_rows d))"
    unfolding m using assms by (simp add: keyed_def distinct_map_filter)
  show "\<forall>(a, r) \<in> set (lost_rpa_rows d). approval_of (ap_id a) d = Some a"
    using assms by (auto simp: lost_rpa_rows_def keyed_sel_iff split: option.splits)
qed

lemma recover_evolves:
  "keyed ap_id (db_approvals d) \<Longrightarrow>
   cards_evolve d (snd (recover_interrupted_rpa_approval_resumes fresh now d))"
  using lost_rows by (simp add: recover_interrupted_rpa_approval_resumes_def Let_def recover_rows_evolve)

lemma run_status_approvals:
  "db_approvals (update_run_record run status error meta now d) = db_approvals d \<or>
   db_approvals (update_run_record run status error meta now d) =
     upd_where (\<lambda>x. ap_run x = py_strip run \<and> ap_status x = ''pending'') (closed_approval now) (db_approvals d)"
  by (simp add: update_run_record_def cancel_pending_human_actions_for_run_def Let_def)

lemma run_status_evolves:
  assumes "keyed ap_id (db_approvals d)"
  shows "cards_evolve d (update_run_record run status error meta now d)"
  using run_status_approvals [of run status error meta now d]
proof
  assume "db_approvals (update_run_record run status error meta now d) =
     upd_where (\<lambda>x. ap_run x = py_strip run \<and> ap_status x = ''pending'') (closed_approval now) (db_approvals d)"
  then show ?thesis by (rule cards_upd [OF assms]) (simp_all add: closed_approval_def card_evolves_def)
qed (simp add: assms cards_same)

lemma ask_evolves:
  assumes "keyed ap_id (db_approvals d)"
  shows "cards_evolve d (approval_step fresh (AAsk a) now d)"
proof (cases "approval_of (pa_id a) d = None \<and> run_of (pa_run a) d \<noteq> None")
  case True
  then have "filter (\<lambda>x. ap_id x \<noteq> pa_id a) (db_approvals d) = db_approvals d"
    by (force simp: filter_id_conv sel_by_None_iff)
  then show ?thesis using True
    by (intro cards_add [OF assms, where x = "new_approval a now"]) (simp_all add: add_pending_approval_def)
next
  case False
  then have "approval_step fresh (AAsk a) now d = d" by (auto simp: add_pending_approval_def)
  then show ?thesis using assms by (simp add: cards_refl)
qed

text \<open>The moves the workers make (erc/command_router.py, runtimes/chat/runtime.py,
  runtimes/rpa/runtime.py).\<close>

fun approval_legal :: "approval_op \<Rightarrow> bool" where
  "approval_legal (AMove a run generation attempt expected state error) =
     ((expected, state) \<in> {(''scheduled'', ''executing''), (''scheduled'', ''pending''), (''scheduled'', ''blocked''),
        (''executing'', ''completed''), (''executing'', ''delivered''), (''executing'', ''blocked'')})"
| "approval_legal _ = True"

lemma approval_step_evolves:
  assumes "keyed ap_id (db_approvals d)" and "approval_legal x"
  shows "cards_evolve d (approval_step fresh x now d)"
  using assms
proof (cases x)
  case (AMove a run generation attempt expected state error)
  then have "state \<noteq> ''scheduled''" using assms(2) by auto
  then show ?thesis using AMove assms(1) by (simp add: move_evolves)
qed (use assms ask_evolves [of d] in \<open>simp_all del: approval_step.simps(1)\<close>, simp_all only: approval_step.simps ask_evolves resolve_evolves claim_evolves spec_evolves recover_evolves
    run_status_evolves)

lemma approval_run_evolves:
  "keyed ap_id (db_approvals d) \<Longrightarrow> \<forall>(x, now) \<in> set xs. approval_legal x \<Longrightarrow> cards_evolve d (approval_run fresh xs d)"
proof (induction xs arbitrary: d)
  case (Cons p xs)
  obtain x now where p: "p = (x, now)" by (metis surj_pair)
  have e: "cards_evolve d (approval_step fresh x now d)"
    using Cons.prems p by (intro approval_step_evolves) auto
  then have "cards_evolve (approval_step fresh x now d) (approval_run fresh xs (approval_step fresh x now d))"
    using Cons.prems by (intro Cons.IH) (auto simp: cards_evolve_def)
  with e show ?case by (auto simp: p intro: cards_trans)
qed (simp add: cards_refl)

subsection \<open>One writer for a parent run\<close>

definition one_writer :: "approval_rec list \<Rightarrow> bool" where
  "one_writer t \<longleftrightarrow> (\<forall>x \<in> set t. \<forall>y \<in> set t. reserved x \<longrightarrow> reserved y \<longrightarrow> ap_run x = ap_run y \<longrightarrow> ap_id x = ap_id y)"

definition approvals_wf :: "db \<Rightarrow> bool" where
  "approvals_wf d \<longleftrightarrow> keyed ap_id (db_approvals d) \<and> one_writer (db_approvals d)"

text \<open>No row becomes reserved.\<close>

definition releases :: "approval_rec list \<Rightarrow> approval_rec list \<Rightarrow> bool" where
  "releases t u \<longleftrightarrow> (\<forall>y \<in> set u. reserved y \<longrightarrow> (\<exists>x \<in> set t. reserved x \<and> ap_run x = ap_run y \<and> ap_id x = ap_id y))"

lemma one_writer_releases: "one_writer t \<Longrightarrow> releases t u \<Longrightarrow> one_writer u"
  unfolding one_writer_def releases_def by metis

lemma releases_refl [simp]: "releases t t"
  by (auto simp: releases_def)

lemma releases_trans: "releases t u \<Longrightarrow> releases u v \<Longrightarrow> releases t v"
  unfolding releases_def by metis

lemma releases_upd:
  assumes "\<And>x. x \<in> set t \<Longrightarrow> P x \<Longrightarrow> ap_id (f x) = ap_id x \<and> ap_run (f x) = ap_run x \<and> (reserved (f x) \<longrightarrow> reserved x)"
  shows "releases t (upd_where P f t)"
  unfolding releases_def
proof (intro ballI impI)
  fix y assume "y \<in> set (upd_where P f t)" and y: "reserved y"
  then obtain x where x: "x \<in> set t" "y = (if P x then f x else x)" by (auto simp: set_upd_where)
  then have "reserved x \<and> ap_run x = ap_run y \<and> ap_id x = ap_id y" using y assms [OF x(1)] by (cases "P x") auto
  then show "\<exists>x \<in> set t. reserved x \<and> ap_run x = ap_run y \<and> ap_id x = ap_id y" using x(1) by blast
qed

lemma releases_snoc: "releases t u \<Longrightarrow> \<not> reserved x \<Longrightarrow> releases t (u @ [x])"
  by (auto simp: releases_def)

lemma reserved_state [simp]:
  "dget v ''state'' = JStr s \<Longrightarrow> reserved (with_delivery v x) = (s \<in> {''scheduled'', ''executing''})"
  by (simp add: reserved_def delivery_state_def)

lemma not_reserved_Nil [simp]: "ap_resume x = [] \<Longrightarrow> \<not> reserved x"
  by (simp add: reserved_def delivery_state_def)

lemma reserved_keeps [simp]:
  "reserved (voted s r now x) = reserved x" "reserved (closed_approval now x) = reserved x"
  by (simp_all add: reserved_def delivery_state_def voted_def closed_approval_def)

lemma replaced_keys [simp]:
  "ap_id (replaced_card i now x) = ap_id x" "ap_run (replaced_card i now x) = ap_run x"
  by (simp_all add: replaced_card_def)

lemma replaced_not_reserved: "reserved (replaced_card i now x) \<Longrightarrow> reserved x"
  by (auto simp: reserved_def delivery_state_def replaced_card_def split: if_splits)

lemma resolve_releases:
  "releases (db_approvals d) (db_approvals (snd (resolve_pending_approval_if_pending i status response operation
     expected generation now d)))"
proof (cases "resolve_pending_approval_if_pending i status response operation expected generation now d")
  case (Pair res d')
  from Pair show ?thesis
  proof (cases rule: resolve_cases)
    case (decided a r v)
    let ?t = "upd_where (\<lambda>x. ap_id x = i \<and> ap_status x = ''pending'') (voted status response now) (db_approvals d)"
    have t: "releases (db_approvals d) ?t" by (rule releases_upd) simp
    moreover have "releases ?t (upd_where (\<lambda>x. ap_id x = i) (with_delivery (new_delivery generation)) ?t)"
      by (rule releases_upd) (simp add: reserved_def delivery_state_def new_delivery_def)
    ultimately have "releases (db_approvals d) (upd_where (\<lambda>x. ap_id x = i) (with_delivery (new_delivery generation)) ?t)"
      by (rule releases_trans)
    with t show ?thesis using apply_decision_approvals [OF decided(6) refl] Pair by auto
  qed (simp add: Pair)
qed

lemma move_releases:
  assumes "keyed ap_id (db_approvals d)" and "state = ''executing'' \<Longrightarrow> expected \<in> {''scheduled'', ''executing''}"
    and "state \<noteq> ''scheduled''"
  shows "releases (db_approvals d)
    (db_approvals (snd (transition_approval_resume i run generation attempt expected state error now d)))"
proof (cases "transition_approval_resume i run generation attempt expected state error now d")
  case (Pair ok d')
  from Pair show ?thesis
  proof (cases rule: move_cases)
    case (moved a v)
    have "releases (db_approvals d) (upd_where (\<lambda>x. ap_id x = i) (with_delivery v) (db_approvals d))"
    proof (rule releases_upd)
      fix x assume "x \<in> set (db_approvals d)" "ap_id x = i"
      then have "x = a" using moved(2) keyed_sel_iff [OF assms(1), of i x] by simp
      then show "ap_id (with_delivery v x) = ap_id x \<and> ap_run (with_delivery v x) = ap_run x \<and>
          (reserved (with_delivery v x) \<longrightarrow> reserved x)"
        using reserved_state [OF moved(10), of a] moved(5) assms(2,3) by (auto simp: reserved_def [of a])
    qed
    then show ?thesis by (simp add: Pair moved(8))
  qed (simp add: Pair)
qed

lemma spec_releases:
  "releases (db_approvals d) (db_approvals (snd (create_spec_review_approval i session run request expires now d)))"
proof (cases "create_spec_review_approval i session run request expires now d")
  case (Pair res d')
  have r: "releases (db_approvals d) (upd_where P (replaced_card j now) (db_approvals d))" for P j
    by (rule releases_upd) (simp add: replaced_not_reserved)
  from Pair show ?thesis
  proof (cases rule: spec_cases)
    case (kept P selected)
    show ?thesis unfolding Pair snd_conv kept by (rule r)
  next
    case (added P x)
    show ?thesis unfolding Pair snd_conv added(1) by (rule releases_snoc [OF r not_reserved_Nil [OF added(4)]])
  qed (simp only: Pair snd_conv releases_refl)
qed

lemma recover_releases:
  "releases (db_approvals d) (db_approvals (snd (recover_interrupted_rpa_approval_resumes fresh now d)))"
proof -
  have "releases (db_approvals d) (db_approvals (fold (recover_rpa_row fresh now) rows d))" for rows
  proof (induction rows arbitrary: d)
    case (Cons x rows)
    obtain a r where x: "x = (a, r)" by (metis surj_pair)
    have "releases (db_approvals d) (db_approvals (recover_rpa_row fresh now x d))"
      unfolding x recover_row_approvals by (rule releases_upd) (simp add: reserved_def delivery_state_def)
    with Cons.IH show ?case by (auto intro: releases_trans)
  qed simp
  then show ?thesis by (simp add: recover_interrupted_rpa_approval_resumes_def Let_def)
qed

lemma run_status_releases:
  "releases (db_approvals d) (db_approvals (update_run_record run status error meta now d))"
  using run_status_approvals [of run status error meta now d]
proof
  assume t: "db_approvals (update_run_record run status error meta now d) =
     upd_where (\<lambda>x. ap_run x = py_strip run \<and> ap_status x = ''pending'') (closed_approval now) (db_approvals d)"
  show ?thesis unfolding t by (rule releases_upd) (simp add: closed_approval_def reserved_def delivery_state_def)
qed simp

lemma ask_releases: "releases (db_approvals d) (db_approvals (approval_step fresh (AAsk a) now d))"
  by (auto simp: add_pending_approval_def releases_def)

lemma claim_one_writer:
  assumes "keyed ap_id (db_approvals d)" and "one_writer (db_approvals d)"
  shows "one_writer (db_approvals (snd (claim_approval_resume i restart now d)))"
proof (cases "claim_approval_resume i restart now d")
  case (Pair res d')
  from Pair show ?thesis
  proof (cases rule: claim_cases)
    case (scheduled a)
    have only: "x = a" if "x \<in> set (db_approvals d)" "ap_id x = i" for x
      using that scheduled(1) keyed_sel_iff [OF assms(1), of i x] by simp
    have t: "db_approvals d' = upd_where (\<lambda>x. ap_id x = i) (with_delivery (next_attempt a now)) (db_approvals d)"
      by (simp add: scheduled(3))
    have i: "ap_id a = i" using sel_by_key [OF scheduled(1)] .
    have row: "ap_run y = ap_run a \<and> ap_id y = i \<or> y \<in> set (db_approvals d) \<and> ap_id y \<noteq> i"
      if "y \<in> set (db_approvals d')" for y
      using set_view_upd [OF that [unfolded t]]
    proof (elim disjE bexE conjE)
      fix x assume x: "x \<in> set (db_approvals d)" "ap_id x = i" "y = with_delivery (next_attempt a now) x"
      then show ?thesis using only [OF x(1,2)] by simp
    qed simp
    have "ap_id x = ap_id y" if "x \<in> set (db_approvals d')" "y \<in> set (db_approvals d')" "reserved x" "reserved y"
      "ap_run x = ap_run y" for x y
    proof -
      have other: "ap_run z \<noteq> ap_run a" if "z \<in> set (db_approvals d)" "ap_id z \<noteq> i" "reserved z" for z
        using that scheduled(4) by (auto simp: other_reserved_def list_ex_iff)
      show ?thesis
      proof (cases "ap_id x = i")
        case True
        then have "ap_run x = ap_run a" using row [OF that(1)] by blast
        then show ?thesis using True row [OF that(2)] other [of y] that(4,5) by metis
      next
        case False
        then have x: "x \<in> set (db_approvals d)" using row [OF that(1)] by blast
        then have "ap_run x \<noteq> ap_run a" using other False that(3) by blast
        then have "y \<in> set (db_approvals d)" using row [OF that(2)] that(5) by auto
        then show ?thesis using assms(2) x that(3-5) unfolding one_writer_def by blast
      qed
    qed
    then show ?thesis unfolding Pair snd_conv one_writer_def by blast
  qed (simp add: Pair assms)
qed

lemma approval_step_wf:
  assumes "approvals_wf d" and "approval_legal x"
  shows "approvals_wf (approval_step fresh x now d)"
proof -
  have k: "keyed ap_id (db_approvals d)" and w: "one_writer (db_approvals d)"
    using assms(1) by (simp_all add: approvals_wf_def)
  have "keyed ap_id (db_approvals (approval_step fresh x now d))"
    using approval_step_evolves [OF k assms(2)] by (simp add: cards_evolve_def)
  moreover have "one_writer (db_approvals (approval_step fresh x now d))"
  proof (cases "\<exists>i restart. x = AClaim i restart")
    case True
    then show ?thesis using claim_one_writer [OF k w] by auto
  next
    case False
    have "releases (db_approvals d) (db_approvals (approval_step fresh x now d))"
    proof (cases x)
      case (AMove a run generation attempt expected state error)
      then show ?thesis using assms(2) move_releases [OF k] by (auto simp: AMove)
    qed (use False ask_releases in \<open>simp_all only: approval_step.simps resolve_releases spec_releases
        recover_releases run_status_releases simp_thms\<close>, auto)
    then show ?thesis by (rule one_writer_releases [OF w])
  qed
  ultimately show ?thesis by (simp add: approvals_wf_def)
qed

lemma approval_run_wf:
  "approvals_wf d \<Longrightarrow> \<forall>(x, now) \<in> set xs. approval_legal x \<Longrightarrow> approvals_wf (approval_run fresh xs d)"
proof (induction xs arbitrary: d)
  case (Cons p xs)
  then show ?case by (cases p) (auto intro!: Cons.IH approval_step_wf)
qed simp

section \<open>Properties\<close>

lemma delivery_state_JStr: "delivery_state x = s \<Longrightarrow> s \<noteq> [] \<Longrightarrow> dget (ap_resume x) ''state'' = JStr s"
  by (cases "dget (ap_resume x) ''state''") (auto simp: delivery_state_def as_text_def)

lemma pending_with_delivery:
  "list_ex (\<lambda>a. ap_run a = run \<and> ap_status a = s) (upd_where P (with_delivery v) t) =
   list_ex (\<lambda>a. ap_run a = run \<and> ap_status a = s) t"
  by (induction t) auto

lemma approval_field: "db_approvals (d\<lparr>db_approvals := t\<rparr>) = t"
  by simp

lemma refusal_None:
  assumes "refusal i status response expected a (Some r) now = None"
  shows "control_command (rn_metadata r) \<notin> {''cancel'', ''interrupt''}"
    and "ap_expires a = NoExpiry \<or> (\<exists>t. ap_expires a = Expires t \<and> now < t)"
  using assms by (auto simp: refusal_def Let_def split: if_splits expiry.splits)

lemma released_run_status:
  assumes "released_run i status response a r pending = (next, meta)"
  shows "next \<in> {rn_status r, ''running'', ''waiting_input''}" and "next = ''running'' \<Longrightarrow> next = rn_status r \<or> \<not> pending"
  using assms by (auto simp: released_run_def Let_def split: if_splits)

lemma decided_row:
  assumes "resolve_pending_approval_if_pending i status response operation expected generation now d =
      (Some (Decided a previous next ready), d1)"
  shows "\<exists>x. approval_of i d1 = Some x \<and> ap_status x = status \<and> ap_response x = map_option JObj response \<and>
    status \<in> {''approved'', ''rejected''}"
  using assms
proof (cases rule: resolve_cases)
  case (decided a0 r v)
  let ?t = "upd_where (\<lambda>x. ap_id x = i \<and> ap_status x = ''pending'') (voted status response now) (db_approvals d)"
  have t: "sel_by ap_id i ?t = Some (voted status response now a0)"
    using decided(1,2) by (simp add: sel_upd_key)
  have "db_approvals d1 = ?t \<or> db_approvals d1 = upd_where (\<lambda>x. ap_id x = i) (with_delivery (new_delivery generation)) ?t"
    by (rule apply_decision_approvals [OF decided(6) refl])
  then show ?thesis
  proof
    assume "db_approvals d1 = ?t"
    then show ?thesis using t decided(3) by simp
  next
    assume "db_approvals d1 = upd_where (\<lambda>x. ap_id x = i) (with_delivery (new_delivery generation)) ?t"
    then have "approval_of i d1 = Some (with_delivery (new_delivery generation) (voted status response now a0))"
      using t by (simp add: sel_upd_key0)
    then show ?thesis using decided(3) by simp
  qed
qed simp


definition demo_asked :: db where
  "demo_asked = snd (add_pending_approval \<lparr>pa_id = ''a1'', pa_session = ''s1'', pa_run = ''r1'', pa_kind = ''tool'',
     pa_status = ''pending'', pa_request = [], pa_response = None, pa_expires = NoExpiry\<rparr> 1500
     (snd (create_run_record (demo_run ''r1'' ''s1'' []) 1000 empty_db)))"

definition demo_answered :: "decision option \<times> db" where
  "demo_answered = resolve_pending_approval_if_pending ''a1'' ''approved'' None None None ''g1'' 2000 demo_asked"

lemma demo_asked_wf: "approvals_wf demo_asked"
  by (simp add: approvals_wf_def one_writer_def demo_asked_def add_pending_approval_def create_run_record_def empty_db_def
      Let_def demo_run_def keyed_def)

lemma demo_asked_keyed: "keyed ap_id (db_approvals demo_asked)"
  using demo_asked_wf by (simp add: approvals_wf_def)

lemma demo_answered_decides:
  obtains a previous nx ready d1 where "demo_answered = (Some (Decided a previous nx ready), d1)"
proof -
  have "case fst demo_answered of Some (Decided a p n r) \<Rightarrow> True | _ \<Rightarrow> False" by code_simp
  then obtain a p n r where "fst demo_answered = Some (Decided a p n r)" by (auto split: option.splits decision.splits)
  then show ?thesis by (intro that [of a p n r "snd demo_answered"]) (metis prod.collapse)
qed


text \<open>C17: A run has at most one writer that delivers a decision to it: in every history from a state
  with that property (an empty table, say), two cards of a run whose delivery is scheduled or
  executing are the same card, across claims, re-claims, reviews and recoveries.\<close>

theorem one_parent_writer:
  assumes "approvals_wf d" and "\<forall>(x, t) \<in> set xs. approval_legal x"
    and "a \<in> set (db_approvals (approval_run fresh xs d))" and "b \<in> set (db_approvals (approval_run fresh xs d))"
    and "reserved a" and "reserved b" and "ap_run a = ap_run b"
  shows "a = b"
proof -
  have wf: "approvals_wf (approval_run fresh xs d)" by (rule approval_run_wf [OF assms(1,2)])
  then have k: "keyed ap_id (db_approvals (approval_run fresh xs d))"
    and w: "one_writer (db_approvals (approval_run fresh xs d))" by (simp_all add: approvals_wf_def)
  have "ap_id a = ap_id b" by (rule w [unfolded one_writer_def, rule_format, OF assms(3-7)])
  then show ?thesis by (rule keyed_inj [OF k assms(3,4)])
qed

theorem one_parent_writer_witness:
  "hd (filter reserved (db_approvals (approval_run (\<lambda>a t. a @ t) [(AClaim ''a1'' False, 2500)] (snd demo_answered)))) =
   last (filter reserved (db_approvals (approval_run (\<lambda>a t. a @ t) [(AClaim ''a1'' False, 2500)] (snd demo_answered))))"
proof -
  let ?xs = "[(AResolve ''a1'' ''approved'' None None None ''g1'', 2000), (AClaim ''a1'' False, 2500)]"
  let ?t = "db_approvals (approval_run (\<lambda>a t. a @ t) [(AClaim ''a1'' False, 2500)] (snd demo_answered))"
  have "filter reserved ?t \<noteq> []" and run: "\<forall>x \<in> set ?t. ap_run x = ''r1''" by code_simp+
  then have h: "hd (filter reserved ?t) \<in> set ?t" "reserved (hd (filter reserved ?t))"
    "last (filter reserved ?t) \<in> set ?t" "reserved (last (filter reserved ?t))"
    using hd_in_set last_in_set by fastforce+
  show ?thesis
    using one_parent_writer [OF demo_asked_wf, of ?xs "hd (filter reserved ?t)" "\<lambda>a t. a @ t" "last (filter reserved ?t)"]
      h run by (simp add: demo_answered_def)
qed

text \<open>A delivery attempt is executed at most once: after a worker has taken its scheduled
  attempt into execution, no later history lets that attempt be taken from the queue again, by the
  same worker or by a stale copy of it; another execution needs a claim, which numbers a new attempt.\<close>

theorem attempt_executed_once:
  assumes "keyed ap_id (db_approvals d)" and "approval_of i d = Some a" and "dget (ap_resume a) ''attempt'' = JInt n"
    and "transition_approval_resume i run generation n ''scheduled'' ''executing'' error now d = (True, d1)"
    and "\<forall>(x, t) \<in> set xs. approval_legal x"
  shows "transition_approval_resume i run generation n ''scheduled'' state error' now' (approval_run fresh xs d1) =
    (False, approval_run fresh xs d1)"
  using assms(4)
proof (cases rule: move_cases)
  case (moved a' v)
  let ?y = "with_delivery v a"
  have a: "a' = a" using moved(2) assms(2) by simp
  have d1: "approval_of i d1 = Some ?y" using assms(2) by (simp add: moved(8) sel_upd_key0)
  have "keyed ap_id (db_approvals d1)"
    using move_evolves [OF assms(1), of "''executing''" i run generation n "''scheduled''" error now] assms(4)
    by (simp add: cards_evolve_def)
  from cards_sel [OF approval_run_evolves [OF this assms(5)] d1] obtain z
    where z: "approval_of i (approval_run fresh xs d1) = Some z" "card_evolves ?y z" by blast
  have "delivery_evolves v (ap_resume z)" using z(2) moved(4) a by (simp add: card_evolves_def)
  then have "\<not> (dget (ap_resume z) ''state'' = JStr ''scheduled'' \<and> py_eq (dget (ap_resume z) ''attempt'') (JInt n))"
    using moved(9,10) assms(3) a by (auto simp: delivery_evolves_def)
  then have no: "\<not> (delivery_state z = ''scheduled'' \<and> py_eq (dget (ap_resume z) ''attempt'') (JInt n))"
    using delivery_state_JStr by auto
  show ?thesis
  proof (cases "transition_approval_resume i run generation n ''scheduled'' state error' now' (approval_run fresh xs d1)")
    case (Pair ok d2)
    from Pair show ?thesis
    proof (cases rule: move_cases)
      case (moved b w)
      then show ?thesis using z(1) no by simp
    qed (simp add: Pair)
  qed
qed simp

definition scheduled_once :: db where
  "scheduled_once = snd (claim_approval_resume ''a1'' False 2500 (snd demo_answered))"

theorem attempt_executed_once_witness:
  "fst (transition_approval_resume ''a1'' ''r1'' ''g1'' 1 ''scheduled'' ''executing'' [] 4000
     (snd (transition_approval_resume ''a1'' ''r1'' ''g1'' 1 ''scheduled'' ''executing'' [] 3000 scheduled_once))) = False"
proof -
  let ?x = "transition_approval_resume ''a1'' ''r1'' ''g1'' 1 ''scheduled'' ''executing'' [] 3000 scheduled_once"
  have "fst ?x" by code_simp
  then obtain d1 where m: "?x = (True, d1)" by (cases ?x) simp
  have "case approval_of ''a1'' scheduled_once of None \<Rightarrow> False | Some a \<Rightarrow> dget (ap_resume a) ''attempt'' = JInt 1"
    by code_simp
  then obtain a where a: "approval_of ''a1'' scheduled_once = Some a" "dget (ap_resume a) ''attempt'' = JInt 1"
    by (auto split: option.splits)
  have k: "keyed ap_id (db_approvals scheduled_once)"
    using approval_run_wf [OF demo_asked_wf, of "[(AResolve ''a1'' ''approved'' None None None ''g1'', 2000), (AClaim ''a1'' False, 2500)]"]
    by (simp add: scheduled_once_def demo_answered_def approvals_wf_def)
  show ?thesis using attempt_executed_once [OF k a m, of "[]"] m by simp
qed

text \<open>A decision never revives a finished run: it is taken only on a pending card that has not
  expired, of a run that is neither terminal nor demo_asked to stop, the run goes on running or waits for
  input, and it leaves waiting for approval only when no card of it is pending any more.\<close>

theorem decision_respects_the_run:
  assumes "resolve_pending_approval_if_pending i status response operation expected generation now d =
      (Some (Decided a previous next ready), d1)"
  shows "\<exists>x r. approval_of i d = Some x \<and> ap_status x = ''pending'' \<and> run_of (ap_run x) d = Some r \<and>
    rn_status r = previous \<and> previous \<notin> set terminal_statuses \<and>
    control_command (rn_metadata r) \<notin> {''cancel'', ''interrupt''} \<and>
    (ap_expires x = NoExpiry \<or> (\<exists>t. ap_expires x = Expires t \<and> now < t)) \<and>
    map_option rn_status (run_of (ap_run x) d1) = Some next \<and> next \<in> {previous, ''running'', ''waiting_input''} \<and>
    (previous = ''waiting_approval'' \<and> next = ''running'' \<longrightarrow> \<not> another_pending (ap_run x) d1)"
  using assms
proof (cases rule: resolve_cases)
  case (decided x r v)
  let ?t = "upd_where (\<lambda>x. ap_id x = i \<and> ap_status x = ''pending'') (voted status response now) (db_approvals d)"
  define pending where "pending = another_pending (ap_run x) (d\<lparr>db_approvals := ?t\<rparr>)"
  obtain nx meta where rel: "released_run i status response x r pending = (nx, meta)" by (metis surj_pair)
  have eq: "previous = rn_status r" "next = nx"
    and runs: "db_runs d1 = upd_where (\<lambda>y. rn_id y = ap_run x) (decided_run nx (remembered_operation status operation meta)
        (nx \<noteq> rn_status r)) (db_runs d)"
    using decided(6,7) rel by (auto simp: apply_decision_def Let_def pending_def [symmetric])
  have cards: "another_pending (ap_run x) d1 = pending"
    using apply_decision_approvals [OF decided(6) refl]
    by (elim disjE) (simp_all only: pending_def another_pending_def pending_with_delivery approval_field)
  have "map_option rn_status (run_of (ap_run x) d1) = Some next"
    using decided(4) eq(2) by (simp add: runs sel_upd_key0)
  moreover have "previous = ''waiting_approval'' \<and> next = ''running'' \<longrightarrow> \<not> another_pending (ap_run x) d1"
    using released_run_status(2) [OF rel] eq cards by auto
  moreover have "next \<in> {previous, ''running'', ''waiting_input''}"
    using released_run_status(1) [OF rel] eq by simp
  moreover have "previous \<notin> set terminal_statuses" using decided(5) eq(1) by simp
  ultimately show ?thesis
    using decided(1,2,4) eq(1) [symmetric] refusal_None [OF decided(8)]
    by (intro exI [of _ x] exI [of _ r] conjI) assumption+
qed simp

theorem decision_respects_the_run_witness:
  "rn_status (the (run_of ''r1'' demo_asked)) \<notin> set terminal_statuses"
proof -
  obtain a p n r d1 where r: "demo_answered = (Some (Decided a p n r), d1)" by (rule demo_answered_decides)
  have "map_option ap_run (approval_of ''a1'' demo_asked) = Some ''r1''" by code_simp
  then show ?thesis using decision_respects_the_run [OF r [unfolded demo_answered_def]] by auto
qed

end
