(* ===== verification/ChatQueue.thy ===== *)
theory ChatQueue
  imports EventLog TableViews Streams "HOL-Library.Product_Lexorder"
begin

text \<open>
  The queue of user messages that arrive while a chat run is active (core/database.py, table
  \<^verbatim>\<open>chat_user_message_queue\<close>): de-duplicated insertion, lookups, the general
  update, the claim of the oldest pending message and the return of promoted messages that the
  run never took in. The state is the core database, the sessions and the queue.

  \<open>update_chat_user_message_queue_item\<close> reads the row in a connection of its own before it
  writes: the state of that read is the argument \<open>d0\<close>. The other writes hold the write lock of
  the process from their read to their commit.
\<close>

section \<open>Tables\<close>

record chat_item =
  ci_id :: string
  ci_session :: string
  ci_run :: "string option"
  ci_client :: "string option"
  ci_content :: string
  ci_attachments :: "json list"
  ci_file_urls :: "json list"
  ci_request :: dict
  ci_state :: string
  ci_ordinal :: int
  ci_promoted :: "time option"
  ci_injected :: "time option"
  ci_consumed :: "time option"
  ci_consumed_run :: "string option"
  ci_cancelled :: "time option"
  ci_metadata :: dict
  ci_created :: time
  ci_updated :: time

record session_rec =
  se_id :: string
  se_updated :: time

record chat_db =
  cd_core :: db
  cd_sessions :: "session_rec list"
  cd_items :: "chat_item list"

abbreviation item_of :: "string \<Rightarrow> chat_db \<Rightarrow> chat_item option" where
  "item_of q d \<equiv> sel_by ci_id q (cd_items d)"

datatype chat_error = ChatIntegrity

text \<open>A reference to a run that is not in the table violates the foreign key.\<close>

definition unknown_run :: "string option \<Rightarrow> chat_db \<Rightarrow> bool" where
  "unknown_run x d = (case x of None \<Rightarrow> False | Some r \<Rightarrow> run_of r (cd_core d) = None)"

section \<open>Insertion\<close>

record chat_args =
  cx_id :: string
  cx_session :: string
  cx_run :: "string option"
  cx_client :: "string option"
  cx_content :: string
  cx_attachments :: "json list"
  cx_file_urls :: "json list"
  cx_request :: dict
  cx_metadata :: dict

definition live_copies :: "string \<Rightarrow> string \<Rightarrow> chat_item list \<Rightarrow> chat_item list" where
  "live_copies s c t =
     filter (\<lambda>i. ci_session i = s \<and> ci_client i = Some c \<and> ci_state i \<noteq> ''cancelled'') t"

definition next_chat_user_message_queue_ordinal :: "string \<Rightarrow> chat_item list \<Rightarrow> int" where
  "next_chat_user_message_queue_ordinal s t =
     table_max (map ci_ordinal (filter (\<lambda>i. ci_session i = s) t)) + 1"

definition new_item :: "chat_args \<Rightarrow> string option \<Rightarrow> int \<Rightarrow> time \<Rightarrow> chat_item" where
  "new_item a client n now =
     \<lparr>ci_id = cx_id a, ci_session = cx_session a, ci_run = cx_run a, ci_client = client,
      ci_content = cx_content a, ci_attachments = cx_attachments a, ci_file_urls = cx_file_urls a,
      ci_request = cx_request a, ci_state = ''pending'', ci_ordinal = n, ci_promoted = None,
      ci_injected = None, ci_consumed = None, ci_consumed_run = None, ci_cancelled = None,
      ci_metadata = cx_metadata a, ci_created = now, ci_updated = now\<rparr>"

definition existing_copy :: "chat_args \<Rightarrow> chat_db \<Rightarrow> chat_item option" where
  "existing_copy a d = (case or_none (norm_text (cx_client a)) of None \<Rightarrow> None
     | Some c \<Rightarrow> first_by ci_created (live_copies (cx_session a) c (cd_items d)))"

definition add_chat_user_message_queue_item ::
  "chat_args \<Rightarrow> time \<Rightarrow> chat_db \<Rightarrow> (chat_error + chat_item) \<times> chat_db" where
  "add_chat_user_message_queue_item a now d =
     (case existing_copy a d of
        Some i \<Rightarrow> (Inr i, d)
      | None \<Rightarrow>
          if item_of (cx_id a) d \<noteq> None \<or> sel_by se_id (cx_session a) (cd_sessions d) = None
             \<or> unknown_run (cx_run a) d
          then (Inl ChatIntegrity, d)
          else
            let row = new_item a (or_none (norm_text (cx_client a)))
                        (next_chat_user_message_queue_ordinal (cx_session a) (cd_items d)) now
            in (Inr row, d\<lparr>cd_items := cd_items d @ [row],
                  cd_sessions := upd_where (\<lambda>s. se_id s = cx_session a) (\<lambda>s. s\<lparr>se_updated := now\<rparr>)
                    (cd_sessions d)\<rparr>))"

section \<open>Lookups\<close>

definition get_chat_user_message_queue_item :: "string \<Rightarrow> chat_db \<Rightarrow> chat_item option" where
  "get_chat_user_message_queue_item q d = (if py_strip q = [] then None else item_of (py_strip q) d)"

definition get_chat_user_message_queue_item_by_client_message_id ::
  "string \<Rightarrow> string \<Rightarrow> chat_db \<Rightarrow> chat_item option" where
  "get_chat_user_message_queue_item_by_client_message_id s c d =
     (if py_strip s = [] \<or> py_strip c = [] then None
      else first_by ci_created (live_copies (py_strip s) (py_strip c) (cd_items d)))"

abbreviation queue_order :: "chat_item \<Rightarrow> int \<times> time" where
  "queue_order i \<equiv> (ci_ordinal i, ci_created i)"

definition list_chat_user_message_queue ::
  "string \<Rightarrow> string list \<Rightarrow> int \<Rightarrow> int option \<Rightarrow> chat_db \<Rightarrow> chat_item list" where
  "list_chat_user_message_queue s states limit after d =
     (let wanted = filter (\<lambda>x. x \<noteq> []) (map py_strip states)
      in sql_limit limit (sort_key queue_order
           (filter (\<lambda>i. ci_session i = s \<and> (wanted = [] \<or> ci_state i \<in> set wanted)
                      \<and> (case after of None \<Rightarrow> True | Some n \<Rightarrow> n < ci_ordinal i)) (cd_items d))))"

section \<open>Update\<close>

record chat_update =
  cu_content :: "string option"
  cu_state :: "string option"
  cu_run :: "string option"
  cu_consumed_run :: "string option"
  cu_metadata :: dict
  cu_stamp :: "string option"

definition no_update :: chat_update where
  "no_update = \<lparr>cu_content = None, cu_state = None, cu_run = None, cu_consumed_run = None,
     cu_metadata = [], cu_stamp = None\<rparr>"

definition stamped :: "string option \<Rightarrow> string \<Rightarrow> time \<Rightarrow> time option \<Rightarrow> time option" where
  "stamped field name now old = (if field = Some name then Some now else old)"

definition updated_item :: "chat_update \<Rightarrow> dict \<Rightarrow> time \<Rightarrow> chat_item \<Rightarrow> chat_item" where
  "updated_item u meta now i =
     i\<lparr>ci_updated := now, ci_metadata := meta,
       ci_content := (case cu_content u of None \<Rightarrow> ci_content i | Some x \<Rightarrow> x),
       ci_state := (case cu_state u of None \<Rightarrow> ci_state i | Some x \<Rightarrow> x),
       ci_run := coalesce (cu_run u) (ci_run i),
       ci_consumed_run := coalesce (cu_consumed_run u) (ci_consumed_run i),
       ci_promoted := stamped (cu_stamp u) ''promoted_at'' now (ci_promoted i),
       ci_injected := stamped (cu_stamp u) ''injected_at'' now (ci_injected i),
       ci_consumed := stamped (cu_stamp u) ''consumed_at'' now (ci_consumed i),
       ci_cancelled := stamped (cu_stamp u) ''cancelled_at'' now (ci_cancelled i)\<rparr>"

definition update_chat_user_message_queue_item ::
  "string \<Rightarrow> chat_update \<Rightarrow> time \<Rightarrow> chat_db \<Rightarrow> chat_db \<Rightarrow> (chat_error + chat_item option) \<times> chat_db" where
  "update_chat_user_message_queue_item q u now d0 d =
     (case get_chat_user_message_queue_item q d0 of
        None \<Rightarrow> (Inr None, d)
      | Some e \<Rightarrow>
          if item_of q d \<noteq> None \<and> (unknown_run (cu_run u) d \<or> unknown_run (cu_consumed_run u) d)
          then (Inl ChatIntegrity, d)
          else
            let d' = d\<lparr>cd_items := upd_where (\<lambda>i. ci_id i = q)
                        (updated_item u (dmerge (ci_metadata e) (cu_metadata u)) now) (cd_items d)\<rparr>
            in (Inr (get_chat_user_message_queue_item q d'), d'))"

section \<open>Consumption and return\<close>

definition pending_items :: "string \<Rightarrow> chat_db \<Rightarrow> chat_item list" where
  "pending_items s d = filter (\<lambda>i. ci_session i = s \<and> ci_state i = ''pending'') (cd_items d)"

definition consumed_item :: "string \<Rightarrow> time \<Rightarrow> chat_item \<Rightarrow> chat_item" where
  "consumed_item run now i =
     i\<lparr>ci_state := ''consumed'', ci_consumed := Some now, ci_consumed_run := Some run, ci_updated := now\<rparr>"

definition claim_next_pending_chat_user_message ::
  "string \<Rightarrow> string \<Rightarrow> time \<Rightarrow> chat_db \<Rightarrow> (chat_error + chat_item option) \<times> chat_db" where
  "claim_next_pending_chat_user_message s run now d =
     (case first_by queue_order (pending_items s d) of
        None \<Rightarrow> (Inr None, d)
      | Some row \<Rightarrow>
          if unknown_run (Some run) d then (Inl ChatIntegrity, d)
          else (Inr (Some (consumed_item run now row)),
                d\<lparr>cd_items := upd_where (\<lambda>i. ci_id i = ci_id row) (consumed_item run now) (cd_items d)\<rparr>))"

definition requeued_item :: "string \<Rightarrow> time \<Rightarrow> chat_item \<Rightarrow> chat_item" where
  "requeued_item reason now i =
     i\<lparr>ci_state := ''pending'', ci_updated := now,
       ci_metadata := dset ''requeuedAt'' (JInt now) (dset ''requeuedReason'' (JStr reason) (ci_metadata i))\<rparr>"

fun requeue_rows :: "string \<Rightarrow> time \<Rightarrow> chat_item list \<Rightarrow> chat_item list \<Rightarrow> chat_item list" where
  "requeue_rows reason now [] t = t"
| "requeue_rows reason now (row # rows) t = requeue_rows reason now rows
     (upd_where (\<lambda>i. ci_id i = ci_id row)
        (\<lambda>i. i\<lparr>ci_state := ''pending'', ci_updated := now,
               ci_metadata := ci_metadata (requeued_item reason now row)\<rparr>) t)"

definition missed_guidance :: "string \<Rightarrow> string \<Rightarrow> chat_item \<Rightarrow> bool" where
  "missed_guidance s run i \<longleftrightarrow> ci_session i = s \<and> ci_run i = Some run \<and> ci_state i = ''promoted''
     \<and> ci_injected i = None"

definition requeue_promoted_chat_user_messages_for_run ::
  "string \<Rightarrow> string \<Rightarrow> string \<Rightarrow> time \<Rightarrow> chat_db \<Rightarrow> chat_item list \<times> chat_db" where
  "requeue_promoted_chat_user_messages_for_run s run reason now d =
     (if py_strip s = [] \<or> py_strip run = [] then ([], d)
      else
        let rows = sort_key queue_order (filter (missed_guidance (py_strip s) (py_strip run)) (cd_items d))
        in (map (requeued_item reason now) rows,
            d\<lparr>cd_items := requeue_rows reason now rows (cd_items d)\<rparr>))"

section \<open>Ordinals\<close>

definition session_ordinals :: "chat_db \<Rightarrow> string \<Rightarrow> int list" where
  "session_ordinals d s = map ci_ordinal (filter (\<lambda>i. ci_session i = s) (cd_items d))"

definition append_chat :: "chat_args \<times> time \<Rightarrow> chat_db \<Rightarrow> int option \<times> chat_db" where
  "append_chat x d = (case add_chat_user_message_queue_item (fst x) (snd x) d of
     (Inl _, d') \<Rightarrow> (None, d')
   | (Inr i, d') \<Rightarrow> (if existing_copy (fst x) d = None then Some (ci_ordinal i) else None, d'))"

definition queue_wf :: "chat_db \<Rightarrow> bool" where
  "queue_wf d \<longleftrightarrow> keyed ci_id (cd_items d) \<and> (\<forall>s. sorted_wrt (<) (session_ordinals d s))"

lemma new_item_simps [simp]:
  "ci_id (new_item a c n now) = cx_id a" "ci_session (new_item a c n now) = cx_session a"
  "ci_client (new_item a c n now) = c" "ci_state (new_item a c n now) = ''pending''"
  "ci_ordinal (new_item a c n now) = n" "ci_created (new_item a c n now) = now"
  "ci_content (new_item a c n now) = cx_content a" "ci_run (new_item a c n now) = cx_run a"
  by (simp_all add: new_item_def)

text \<open>The three outcomes of an insertion.\<close>

lemma add_item_cases:
  assumes "add_chat_user_message_queue_item a now d = (res, d')"
  obtains (copy) i where "existing_copy a d = Some i" "res = Inr i" "d' = d"
  | (refused) "existing_copy a d = None" "res = Inl ChatIntegrity" "d' = d"
  | (inserted) row where "existing_copy a d = None" "item_of (cx_id a) d = None"
      "row = new_item a (or_none (norm_text (cx_client a)))
         (next_chat_user_message_queue_ordinal (cx_session a) (cd_items d)) now"
      "res = Inr row" "cd_items d' = cd_items d @ [row]" "cd_core d' = cd_core d"
proof (cases "existing_copy a d")
  case (Some i)
  then show ?thesis using assms by (intro copy) (auto simp: add_chat_user_message_queue_item_def)
next
  case None
  show ?thesis
  proof (cases "item_of (cx_id a) d \<noteq> None \<or> sel_by se_id (cx_session a) (cd_sessions d) = None
      \<or> unknown_run (cx_run a) d")
    case True
    then show ?thesis using assms None by (intro refused) (simp_all add: add_chat_user_message_queue_item_def)
  next
    case False
    then show ?thesis using assms None
      by (intro inserted) (auto simp: add_chat_user_message_queue_item_def Let_def simp del: not_None_eq)
  qed
qed

lemma append_chat_cases:
  assumes "append_chat x d = (r, d')"
  shows "r = None \<and> d' = d \<or>
    (\<exists>row. r = Some (ci_ordinal row) \<and> ci_session row = cx_session (fst x) \<and> ci_id row = cx_id (fst x) \<and>
       item_of (cx_id (fst x)) d = None \<and>
       ci_ordinal row = next_chat_user_message_queue_ordinal (cx_session (fst x)) (cd_items d) \<and>
       cd_items d' = cd_items d @ [row])"
proof (cases "add_chat_user_message_queue_item (fst x) (snd x) d")
  case (Pair res d1)
  from Pair show ?thesis
  proof (cases rule: add_item_cases)
    case (inserted row)
    then show ?thesis using assms Pair by (auto simp: append_chat_def)
  qed (use assms Pair in \<open>auto simp: append_chat_def\<close>)
qed

lemma ordinal_below_next:
  "n \<in> set (session_ordinals d s) \<Longrightarrow> n < next_chat_user_message_queue_ordinal s (cd_items d)"
  using table_max_ge [of n "session_ordinals d s"]
  by (simp add: session_ordinals_def next_chat_user_message_queue_ordinal_def)

interpretation chat_ordinals: numbered_stream append_chat "\<lambda>x. cx_session (fst x)" session_ordinals
proof
  fix x d n d'
  assume "append_chat x d = (Some n, d')"
  then have "n = next_chat_user_message_queue_ordinal (cx_session (fst x)) (cd_items d)"
    "session_ordinals d' (cx_session (fst x)) = session_ordinals d (cx_session (fst x)) @ [n]"
    using append_chat_cases [of x d "Some n" d'] by (auto simp: session_ordinals_def)
  then show "(\<forall>m \<in> set (session_ordinals d (cx_session (fst x))). m < n) \<and>
      session_ordinals d' (cx_session (fst x)) = session_ordinals d (cx_session (fst x)) @ [n]"
    using ordinal_below_next by simp
next
  fix x d d'
  assume "append_chat x d = (None, d')"
  then show "d' = d" using append_chat_cases by blast
next
  fix x d r d' s
  assume "append_chat x d = (r, d')" "s \<noteq> cx_session (fst x)"
  then show "session_ordinals d' s = session_ordinals d s"
    using append_chat_cases [of x d r d'] by (auto simp: session_ordinals_def)
qed

text \<open>In a well-formed queue the rows of a session stand in the order of their ordinals, so
  \<^verbatim>\<open>ORDER BY ordinal, created_at\<close> leaves them as they are.\<close>

lemma session_order:
  assumes "sorted_wrt (<) (map ci_ordinal t)"
  shows "sort_key queue_order t = t"
proof (rule sort_key_id_if_sorted)
  have "sorted_wrt (\<lambda>i j. queue_order i \<le> queue_order j) t"
    using assms by (auto simp: sorted_wrt_map less_eq_prod_def elim: sorted_wrt_mono_rel [rotated])
  then show "sorted (map queue_order t)" by (simp add: sorted_wrt_map)
qed

lemma filter_ordered:
  assumes "queue_wf d" and "\<And>i. P i \<Longrightarrow> ci_session i = s"
  shows "sort_key queue_order (filter P (cd_items d)) = filter P (cd_items d)"
proof (rule session_order)
  have eq: "filter P (cd_items d) = filter P (filter (\<lambda>i. ci_session i = s) (cd_items d))"
    using assms(2) by (auto intro!: filter_cong)
  show "sorted_wrt (<) (map ci_ordinal (filter P (cd_items d)))"
    unfolding eq sorted_wrt_map
    by (rule sorted_wrt_filter) (use assms(1) in \<open>simp add: queue_wf_def session_ordinals_def sorted_wrt_map\<close>)
qed

lemma pending_head:
  "queue_wf d \<Longrightarrow> first_by queue_order (pending_items s d) =
     (case pending_items s d of [] \<Rightarrow> None | i # _ \<Rightarrow> Some i)"
  using filter_ordered [of d "\<lambda>i. ci_session i = s \<and> ci_state i = ''pending''" s]
  by (simp add: first_by_def pending_items_def)

section \<open>Every operation keeps the queue well-formed\<close>

lemma wf_add: "queue_wf d \<Longrightarrow> queue_wf (snd (add_chat_user_message_queue_item a now d))"
proof -
  assume wf: "queue_wf d"
  obtain res d' where add: "add_chat_user_message_queue_item a now d = (res, d')" by (metis surj_pair)
  then have app: "appends append_chat [(a, now)] d = d'"
    by (auto simp: append_chat_def split: sum.splits)
  have "sorted_wrt (<) (session_ordinals d' s)" for s
    using chat_ordinals.stream_increasing [of d s "[(a, now)]"] wf app by (simp add: queue_wf_def)
  moreover from add have "keyed ci_id (cd_items d')"
  proof (cases rule: add_item_cases)
    case (inserted row)
    then show ?thesis using wf keyed_snoc [where key = ci_id and t = "cd_items d" and r = row]
      by (simp add: queue_wf_def)
  qed (use wf in \<open>simp_all add: queue_wf_def\<close>)
  ultimately show ?thesis using add by (simp add: queue_wf_def)
qed

lemma wf_upd:
  assumes "queue_wf d" and "\<And>i. ci_id (f i) = ci_id i \<and> ci_session (f i) = ci_session i \<and> ci_ordinal (f i) = ci_ordinal i"
  shows "queue_wf (d\<lparr>cd_items := upd_where P f (cd_items d)\<rparr>)"
proof -
  have "session_ordinals (d\<lparr>cd_items := upd_where P f (cd_items d)\<rparr>) s = session_ordinals d s" for s
    unfolding session_ordinals_def using assms(2)
    by (simp add: map_view_keep [where Q = "\<lambda>i. ci_session i = s" and g = ci_ordinal])
  then show ?thesis using assms by (simp add: queue_wf_def keyed_upd_where)
qed

lemma updated_item_simps [simp]:
  "ci_id (updated_item u m now i) = ci_id i" "ci_session (updated_item u m now i) = ci_session i"
  "ci_ordinal (updated_item u m now i) = ci_ordinal i" "ci_client (updated_item u m now i) = ci_client i"
  "ci_state (updated_item u m now i) = (case cu_state u of None \<Rightarrow> ci_state i | Some x \<Rightarrow> x)"
  by (simp_all add: updated_item_def)

lemma consumed_item_simps [simp]:
  "ci_id (consumed_item run now i) = ci_id i" "ci_session (consumed_item run now i) = ci_session i"
  "ci_ordinal (consumed_item run now i) = ci_ordinal i" "ci_client (consumed_item run now i) = ci_client i"
  "ci_state (consumed_item run now i) = ''consumed''"
  by (simp_all add: consumed_item_def)

lemma requeued_item_simps [simp]:
  "ci_id (requeued_item reason now i) = ci_id i" "ci_session (requeued_item reason now i) = ci_session i"
  "ci_ordinal (requeued_item reason now i) = ci_ordinal i" "ci_state (requeued_item reason now i) = ''pending''"
  "ci_client (requeued_item reason now i) = ci_client i"
  by (simp_all add: requeued_item_def)

lemma wf_update: "queue_wf d \<Longrightarrow> queue_wf (snd (update_chat_user_message_queue_item q u now d0 d))"
  by (simp add: update_chat_user_message_queue_item_def Let_def wf_upd split: option.split)

lemma wf_claim: "queue_wf d \<Longrightarrow> queue_wf (snd (claim_next_pending_chat_user_message s run now d))"
  by (simp add: claim_next_pending_chat_user_message_def wf_upd split: option.split)

text \<open>Returning the promoted messages one by one is one update of them all.\<close>

lemma requeue_rows_ids:
  "map ci_id (requeue_rows reason now rows t) = map ci_id t"
  by (induction reason now rows t rule: requeue_rows.induct) (simp_all add: map_key_upd_where)

lemma requeue_rows_wf:
  "queue_wf d \<Longrightarrow> queue_wf (d\<lparr>cd_items := requeue_rows reason now rows (cd_items d)\<rparr>)"
proof (induction rows arbitrary: d)
  case (Cons row rows)
  then show ?case
    using Cons.IH [OF wf_upd [OF Cons.prems, of
      "\<lambda>i. i\<lparr>ci_state := ''pending'', ci_updated := now,
               ci_metadata := ci_metadata (requeued_item reason now row)\<rparr>" "\<lambda>i. ci_id i = ci_id row"]]
    by simp
qed simp

lemma wf_requeue: "queue_wf d \<Longrightarrow> queue_wf (snd (requeue_promoted_chat_user_messages_for_run s run reason now d))"
  by (simp add: requeue_promoted_chat_user_messages_for_run_def Let_def requeue_rows_wf)

lemma requeue_rows_map:
  "keyed ci_id rows \<Longrightarrow> requeue_rows reason now rows t =
     map (\<lambda>i. case sel_by ci_id (ci_id i) rows of None \<Rightarrow> i
        | Some row \<Rightarrow> i\<lparr>ci_state := ''pending'', ci_updated := now,
            ci_metadata := ci_metadata (requeued_item reason now row)\<rparr>) t"
proof (induction rows arbitrary: t)
  case (Cons row rows)
  then have "keyed ci_id rows" and new: "sel_by ci_id (ci_id row) rows = None"
    by (auto simp: keyed_def sel_by_None_iff)
  from Cons.IH [OF this(1)] new show ?case by (auto simp: upd_where_def split: option.split)
qed simp

lemma requeue_is_update:
  assumes "queue_wf d"
  shows "requeue_rows reason now (sort_key queue_order (filter P (cd_items d))) (cd_items d) =
    upd_where P (requeued_item reason now) (cd_items d)"
proof -
  let ?t = "cd_items d" and ?rows = "sort_key queue_order (filter P (cd_items d))"
  have t: "keyed ci_id ?t" using assms by (simp add: queue_wf_def)
  then have rows: "keyed ci_id ?rows"
    by (simp add: keyed_def distinct_map distinct_map_filter inj_on_def)
  have sel: "sel_by ci_id (ci_id i) ?rows = (if P i then Some i else None)" if "i \<in> set ?t" for i
  proof (cases "P i")
    case True
    then show ?thesis using keyed_sel_iff [OF rows, of "ci_id i" i] that by simp
  next
    case False
    then have "ci_id i \<notin> ci_id ` set ?rows" using keyed_inj [OF t _ that] by fastforce
    then show ?thesis using False by (simp add: sel_by_None_iff)
  qed
  show ?thesis unfolding requeue_rows_map [OF rows]
    by (simp add: upd_where_def sel requeued_item_def cong: map_cong)
qed

section \<open>The queue of a session is a lossless channel\<close>

text \<open>Messages arrive, are edited while they wait and are taken by new runs, in any order and for
  any sessions.\<close>

datatype chat_flow = Arrive chat_args time | Revise string string time | Take string string time

fun flow_step :: "chat_flow \<Rightarrow> chat_db \<Rightarrow> chat_db" where
  "flow_step (Arrive a now) d = snd (add_chat_user_message_queue_item a now d)"
| "flow_step (Revise q content now) d =
     snd (update_chat_user_message_queue_item q (no_update\<lparr>cu_content := Some content\<rparr>) now d d)"
| "flow_step (Take s run now) d = snd (claim_next_pending_chat_user_message s run now d)"

fun accepted :: "string \<Rightarrow> chat_flow \<Rightarrow> chat_db \<Rightarrow> string list" where
  "accepted g (Arrive a now) d =
     (if cx_session a = g \<and> fst (append_chat (a, now) d) \<noteq> None then [cx_id a] else [])"
| "accepted g _ d = []"

fun taken :: "string \<Rightarrow> chat_flow \<Rightarrow> chat_db \<Rightarrow> string list" where
  "taken g (Take s run now) d =
     (case fst (claim_next_pending_chat_user_message s run now d) of
        Inr (Some i) \<Rightarrow> if s = g then [ci_id i] else [] | _ \<Rightarrow> [])"
| "taken g _ d = []"

definition waiting_ids :: "string \<Rightarrow> chat_db \<Rightarrow> string list" where
  "waiting_ids g d = map ci_id (pending_items g d)"

lemma claim_head:
  assumes "queue_wf d" and "pending_items s d = i # rest" and "\<not> unknown_run (Some run) d"
  shows "claim_next_pending_chat_user_message s run now d = (Inr (Some (consumed_item run now i)),
      d\<lparr>cd_items := upd_where (\<lambda>x. ci_id x = ci_id i) (consumed_item run now) (cd_items d)\<rparr>)"
  using pending_head [OF assms(1), of s] assms(2,3) by (simp add: claim_next_pending_chat_user_message_def)

lemma claim_rest:
  assumes "queue_wf d" and "pending_items s d = i # rest" and "\<not> unknown_run (Some run) d"
  shows "pending_items s (snd (claim_next_pending_chat_user_message s run now d)) = rest"
proof -
  have k: "keyed ci_id (cd_items d)" using assms(1) by (simp add: queue_wf_def)
  show ?thesis
    unfolding claim_head [OF assms] snd_conv pending_items_def
    using view_tail [OF k assms(2) [unfolded pending_items_def], of "consumed_item run now"] by simp
qed

lemma claim_frame:
  assumes "queue_wf d" and "pending_items s d = i # rest" and "\<not> unknown_run (Some run) d" and "g \<noteq> s"
  shows "waiting_ids g (snd (claim_next_pending_chat_user_message s run now d)) = waiting_ids g d"
proof -
  let ?Q = "\<lambda>x. ci_session x = g \<and> ci_state x = ''pending''"
  have k: "keyed ci_id (cd_items d)" using assms(1) by (simp add: queue_wf_def)
  have i: "i \<in> set (cd_items d)" "ci_session i = s"
    using arg_cong [OF assms(2), of set] by (auto simp: pending_items_def)
  have "filter ?Q (upd_where (\<lambda>x. ci_id x = ci_id i) (consumed_item run now) (cd_items d)) =
      filter (\<lambda>x. ci_id x \<noteq> ci_id i) (filter ?Q (cd_items d))"
    by (rule filter_upd_remove) simp
  also have "\<dots> = filter ?Q (cd_items d)"
    unfolding filter_filter using keyed_inj [OF k _ i(1)] i(2) assms(4) by (auto intro!: filter_cong)
  finally show ?thesis by (simp add: claim_head [OF assms(1-3)] waiting_ids_def pending_items_def)
qed

lemma claim_nothing:
  assumes "queue_wf d" and "pending_items s d = [] \<or> unknown_run (Some run) d"
  shows "snd (claim_next_pending_chat_user_message s run now d) = d \<and>
    (\<forall>i. fst (claim_next_pending_chat_user_message s run now d) \<noteq> Inr (Some i))"
  using assms
  by (auto simp: claim_next_pending_chat_user_message_def pending_head split: list.split)

lemma waiting_revise:
  "waiting_ids g (snd (update_chat_user_message_queue_item q (no_update\<lparr>cu_content := x\<rparr>) now d0 d)) = waiting_ids g d"
  by (simp add: update_chat_user_message_queue_item_def Let_def waiting_ids_def pending_items_def
      map_view_keep no_update_def split: option.split)

lemma waiting_add:
  "waiting_ids g (snd (add_chat_user_message_queue_item a now d)) = waiting_ids g d @ accepted g (Arrive a now) d"
proof (cases "add_chat_user_message_queue_item a now d")
  case (Pair res d')
  from Pair show ?thesis
    by (cases rule: add_item_cases)
      (simp_all add: Pair waiting_ids_def pending_items_def append_chat_def)
qed

interpretation chat_fifo: lossless_channel flow_step "accepted g" "taken g" "waiting_ids g" queue_wf for g
proof
  fix d x assume wf: "queue_wf d"
  show "taken g x d @ waiting_ids g (flow_step x d) = waiting_ids g d @ accepted g x d"
  proof (cases x)
    case (Arrive a now)
    then show ?thesis by (simp only: flow_step.simps waiting_add taken.simps append_Nil)
  next
    case (Revise q content now)
    then show ?thesis by (simp add: waiting_revise)
  next
    case (Take s run now)
    show ?thesis
    proof (cases "pending_items s d = [] \<or> unknown_run (Some run) d")
      case True
      then show ?thesis using claim_nothing [OF wf True, where now = now] Take
        by (auto split: sum.split option.split)
    next
      case False
      then obtain i rest where p: "pending_items s d = i # rest" by (cases "pending_items s d") auto
      with False have run: "\<not> unknown_run (Some run) d" by simp
      have "waiting_ids g (flow_step x d) = (if s = g then map ci_id rest else waiting_ids g d)"
        using claim_rest [OF wf p run, of now] claim_frame [OF wf p run, of g now] Take
        by (auto simp: waiting_ids_def)
      then show ?thesis using p Take by (auto simp: waiting_ids_def claim_head [OF wf p run])
    qed
  qed
  show "queue_wf (flow_step x d)"
    by (cases x) (simp_all add: wf wf_add wf_update wf_claim)
qed


definition demo_chat_item :: "string \<Rightarrow> string \<Rightarrow> chat_args" where
  "demo_chat_item q s = \<lparr>cx_id = q, cx_session = s, cx_run = None, cx_client = None, cx_content = ''text'',
     cx_attachments = [], cx_file_urls = [], cx_request = [], cx_metadata = []\<rparr>"

definition demo_chat_queue :: chat_db where
  "demo_chat_queue = \<lparr>cd_core = empty_db\<lparr>db_runs := [new_run_row (demo_run ''r1'' ''s1'' []) 1 0, new_run_row (demo_run ''r2'' ''s1'' []) 2 0]\<rparr>,
     cd_sessions = [\<lparr>se_id = ''s1'', se_updated = 0\<rparr>, \<lparr>se_id = ''s2'', se_updated = 0\<rparr>], cd_items = []\<rparr>"

definition demo_flow :: "chat_flow list" where
  "demo_flow = [Arrive (demo_chat_item ''q1'' ''s1'') 10, Arrive (demo_chat_item ''q2'' ''s2'') 11, Arrive (demo_chat_item ''q3'' ''s1'') 12,
     Revise ''q1'' ''other'' 13, Take ''s1'' ''r1'' 14, Arrive (demo_chat_item ''q1'' ''s1'') 15, Take ''s1'' ''r2'' 16,
     Take ''s1'' ''r2'' 17]"

lemma demo_flow_order:
  "along flow_step (taken ''s1'') demo_flow demo_chat_queue = [''q1'', ''q3'']"
  "along flow_step (accepted ''s1'') demo_flow demo_chat_queue = [''q1'', ''q3'']"
  by code_simp+


end
