(* ===== verification/Coordination.thy ===== *)
theory Coordination
  imports SessionWaits EventLog Streams TableViews "HOL-Library.Product_Lexorder"
begin

text \<open>
  Messages between the supervisors of sessions (core/database.py, table
  \<^verbatim>\<open>session_coordination_messages\<close>): insertion under an idempotency key, the
  general update with its guard against stale project results, the versioned results of an
  assignment with the cursor of their root session, and the acknowledgement and the replay of a
  result. The digest of a result and the identifier of its row are arguments; the general update
  reads its row in an earlier transaction (\<open>d0\<close>).
\<close>

section \<open>Insertion and lookups\<close>

record coordination_args =
  ma_id :: string
  ma_thread :: string
  ma_type :: string
  ma_source_session :: string
  ma_target_session :: string
  ma_source_run :: "string option"
  ma_target_run :: "string option"
  ma_source_user :: "string option"
  ma_intent :: string
  ma_authority :: string
  ma_content :: string
  ma_summary :: string
  ma_context :: dict
  ma_evidence :: "json list"
  ma_reply_to :: "string option"
  ma_reply_status :: "string option"
  ma_hops :: int
  ma_max_hops :: int
  ma_state :: string
  ma_key :: string
  ma_interaction :: "string option"
  ma_error :: "string option"
  ma_metadata :: dict
  ma_expires :: "time option"
  ma_authorized :: "time option"

definition new_message :: "coordination_args \<Rightarrow> time \<Rightarrow> coordination_rec" where
  "new_message a now =
     \<lparr>cm_id = ma_id a, cm_thread = ma_thread a, cm_type = ma_type a,
      cm_source_session = ma_source_session a, cm_target_session = ma_target_session a,
      cm_source_run = ma_source_run a, cm_target_run = ma_target_run a,
      cm_source_user = ma_source_user a, cm_intent = ma_intent a, cm_authority = ma_authority a,
      cm_interaction = ma_interaction a, cm_content = ma_content a, cm_summary = Some (ma_summary a),
      cm_context = ma_context a, cm_evidence = ma_evidence a, cm_reply_to = ma_reply_to a,
      cm_reply_status = ma_reply_status a, cm_hops = ma_hops a, cm_max_hops = ma_max_hops a,
      cm_state = ma_state a, cm_key = ma_key a, cm_error = ma_error a, cm_metadata = ma_metadata a,
      cm_expires = ma_expires a, cm_authorized = ma_authorized a, cm_promoted = None,
      cm_injected = None, cm_replied = None, cm_cancelled = None, cm_created = now, cm_updated = now\<rparr>"

definition get_session_coordination_message :: "string \<Rightarrow> db \<Rightarrow> coordination_rec option" where
  "get_session_coordination_message m d =
     (if py_strip m = [] then None else sel_by cm_id (py_strip m) (db_coordination d))"

definition get_session_coordination_message_by_idempotency :: "string \<Rightarrow> db \<Rightarrow> coordination_rec option" where
  "get_session_coordination_message_by_idempotency k d =
     (if py_strip k = [] then None else sel_by cm_key (py_strip k) (db_coordination d))"

text \<open>\<^verbatim>\<open>INSERT OR IGNORE\<close> under three unique keys: the identifier, the idempotency
  key and, where present, the authorising interaction.\<close>

definition message_clash :: "coordination_args \<Rightarrow> db \<Rightarrow> bool" where
  "message_clash a d \<longleftrightarrow> list_ex (\<lambda>m. cm_id m = ma_id a \<or> cm_key m = ma_key a
     \<or> (ma_interaction a \<noteq> None \<and> cm_interaction m = ma_interaction a)) (db_coordination d)"

definition add_session_coordination_message ::
  "coordination_args \<Rightarrow> time \<Rightarrow> db \<Rightarrow> coordination_rec option \<times> db" where
  "add_session_coordination_message a now d =
     (let d' = (if message_clash a d then d
                else d\<lparr>db_coordination := db_coordination d @ [new_message a now]\<rparr>)
      in (case get_session_coordination_message (ma_id a) d' of
            Some m \<Rightarrow> Some m
          | None \<Rightarrow> get_session_coordination_message_by_idempotency (ma_key a) d', d'))"

definition list_session_coordination_messages ::
  "string option \<Rightarrow> string option \<Rightarrow> string option \<Rightarrow> string option \<Rightarrow> string list \<Rightarrow> bool \<Rightarrow> int \<Rightarrow> db \<Rightarrow>
     coordination_rec list" where
  "list_session_coordination_messages session target thread run states newest limit d =
     (let given = (\<lambda>x. case x of None \<Rightarrow> False | Some s \<Rightarrow> s \<noteq> []);
          wanted = normalized_set states;
          rows = filter (\<lambda>m. (given session \<longrightarrow> Some (cm_source_session m) = session
                                     \<or> Some (cm_target_session m) = session)
                     \<and> (given target \<longrightarrow> Some (cm_target_session m) = target)
                     \<and> (given thread \<longrightarrow> Some (cm_thread m) = thread)
                     \<and> (given run \<longrightarrow> cm_target_run m = run)
                     \<and> (wanted = [] \<or> cm_state m \<in> set wanted)) (db_coordination d)
      in take (nat (max 1 (min limit 500)))
           (sort_key (\<lambda>m. if newest then (- cm_created m, - cm_hops m) else (cm_created m, cm_hops m)) rows))"

definition count_pending_session_coordination_messages :: "string \<Rightarrow> db \<Rightarrow> nat" where
  "count_pending_session_coordination_messages target d =
     count_where (\<lambda>m. cm_target_session m = target
        \<and> cm_state m \<in> {''awaiting_authorization'', ''queued'', ''promoted'', ''injected''}) (db_coordination d)"

section \<open>The general update\<close>

record message_update =
  mu_state :: "string option"
  mu_run :: "string option"
  mu_clear_run :: bool
  mu_authority :: "string option"
  mu_interaction :: "string option"
  mu_reply_status :: "string option"
  mu_summary :: "string option"
  mu_context :: "dict option"
  mu_evidence :: "json list option"
  mu_error :: "string option"
  mu_metadata :: dict
  mu_stamp :: "string option"

definition no_message_update :: message_update where
  "no_message_update = \<lparr>mu_state = None, mu_run = None, mu_clear_run = False, mu_authority = None,
     mu_interaction = None, mu_reply_status = None, mu_summary = None, mu_context = None,
     mu_evidence = None, mu_error = None, mu_metadata = [], mu_stamp = None\<rparr>"

definition stamp_at :: "string option \<Rightarrow> string \<Rightarrow> time \<Rightarrow> time option \<Rightarrow> time option" where
  "stamp_at field name now old = (if field = Some name then Some now else old)"

text \<open>With both a run and the clearing of the run, the last assignment of the statement wins.\<close>

definition updated_message :: "message_update \<Rightarrow> dict \<Rightarrow> time \<Rightarrow> coordination_rec \<Rightarrow> coordination_rec" where
  "updated_message u meta now m =
     (let set = (\<lambda>x old. case x of None \<Rightarrow> old | Some y \<Rightarrow> y)
      in m\<lparr>cm_updated := now, cm_metadata := meta, cm_state := set (mu_state u) (cm_state m),
           cm_target_run := (if mu_clear_run u then None else coalesce (mu_run u) (cm_target_run m)),
           cm_authority := set (mu_authority u) (cm_authority m),
           cm_interaction := coalesce (mu_interaction u) (cm_interaction m),
           cm_reply_status := coalesce (mu_reply_status u) (cm_reply_status m),
           cm_summary := coalesce (mu_summary u) (cm_summary m),
           cm_error := coalesce (mu_error u) (cm_error m),
           cm_context := (case mu_context u of None \<Rightarrow> cm_context m | Some x \<Rightarrow> x),
           cm_evidence := (case mu_evidence u of None \<Rightarrow> cm_evidence m | Some x \<Rightarrow> x),
           cm_authorized := stamp_at (mu_stamp u) ''authorized_at'' now (cm_authorized m),
           cm_promoted := stamp_at (mu_stamp u) ''promoted_at'' now (cm_promoted m),
           cm_injected := stamp_at (mu_stamp u) ''injected_at'' now (cm_injected m),
           cm_replied := stamp_at (mu_stamp u) ''replied_at'' now (cm_replied m),
           cm_cancelled := stamp_at (mu_stamp u) ''cancelled_at'' now (cm_cancelled m)\<rparr>)"

datatype coordination_error = InteractionTaken | RequestScopeMismatch | AssignmentChanged
  | VersionConflict | RunScopeMismatch | RequestInactive | AlreadyTerminal | CheckpointMismatch
  | ResultIdTaken

definition interaction_taken :: "string \<Rightarrow> string option \<Rightarrow> db \<Rightarrow> bool" where
  "interaction_taken message x d \<longleftrightarrow> x \<noteq> None \<and>
     list_ex (\<lambda>m. cm_id m \<noteq> message \<and> cm_interaction m = x) (db_coordination d)"

definition update_session_coordination_message ::
  "string \<Rightarrow> message_update \<Rightarrow> time \<Rightarrow> db \<Rightarrow> db \<Rightarrow> (coordination_error + coordination_rec option) \<times> db" where
  "update_session_coordination_message message u now d0 d =
     (case get_session_coordination_message message d0 of
        None \<Rightarrow> (Inr None, d)
      | Some e \<Rightarrow>
          let blocked = (if mu_state u \<in> {Some ''promoted'', Some ''injected''}
                         then session_project_result_delivery_error d message else [])
          in if blocked = ''project_result_source_paused''
             then (Inr (get_session_coordination_message message d), d)
             else if blocked \<noteq> []
             then let d' = d\<lparr>db_coordination := upd_where (\<lambda>m. cm_id m = message)
                             (\<lambda>m. m\<lparr>cm_state := ''blocked'', cm_error := Some blocked, cm_updated := now\<rparr>)
                             (db_coordination d)\<rparr>
                  in (Inr (get_session_coordination_message message d'), d')
             else if sel_by cm_id message (db_coordination d) \<noteq> None
                     \<and> interaction_taken message (mu_interaction u) d
             then (Inl InteractionTaken, d)
             else let d' = d\<lparr>db_coordination := upd_where (\<lambda>m. cm_id m = message)
                             (updated_message u (dmerge (cm_metadata e) (mu_metadata u)) now)
                             (db_coordination d)\<rparr>
                  in (Inr (get_session_coordination_message message d'), d'))"

section \<open>Results of an assignment\<close>

definition int_or_0 :: "json \<Rightarrow> int" where
  "int_or_0 v = (case int_of_json v of None \<Rightarrow> 0 | Some n \<Rightarrow> n)"

definition result_terminal_statuses :: "string list" where
  "result_terminal_statuses = [''completed'', ''blocked'', ''conflict'', ''failed'', ''cancelled'']"

record project_result_args =
  ga_request :: string
  ga_session :: string
  ga_run :: string
  ga_user :: string
  ga_version :: int
  ga_status :: string
  ga_content :: string
  ga_evidence :: "string list"
  ga_id :: string

definition result_identity :: "project_result_args \<Rightarrow> string" where
  "result_identity a = ''project-result:'' @ ga_request a @ '':'' @ py_int (ga_version a)"

definition result_digest :: "(json \<Rightarrow> string) \<Rightarrow> project_result_args \<Rightarrow> string" where
  "result_digest digest a = digest (JObj [(''status'', JStr (ga_status a)), (''content'', JStr (ga_content a)),
     (''evidenceRefs'', JList (map JStr (ga_evidence a)))])"

definition result_assignment :: "project_result_args \<Rightarrow> coordination_rec \<Rightarrow> db \<Rightarrow> assignment_rec option" where
  "result_assignment a parent d =
     find (\<lambda>s. JStr (sa_id s) = dget (cm_metadata parent) ''assignmentId'' \<and> sa_child s = ga_session a
        \<and> sa_root s = cm_source_session parent \<and> sa_user s = ga_user a
        \<and> py_eq (JInt (sa_revision s)) (dget (cm_metadata parent) ''assignmentRevision'')
        \<and> sa_status s = ''active'') (db_assignments d)"

definition reporting_run :: "project_result_args \<Rightarrow> coordination_rec \<Rightarrow> db \<Rightarrow> bool" where
  "reporting_run a parent d = (case run_of (ga_run a) d of None \<Rightarrow> False
     | Some r \<Rightarrow> rn_session r = ga_session a \<and> rn_user r = Some (ga_user a)
         \<and> cm_target_run parent = Some (ga_run a) \<and> rn_status r \<in> {''running'', ''queued''})"

definition project_results :: "string \<Rightarrow> db \<Rightarrow> coordination_rec list" where
  "project_results rs d =
     filter (\<lambda>m. cm_target_session m = rs \<and> cm_authority m = ''project_result'') (db_coordination d)"

definition cursor_of :: "coordination_rec \<Rightarrow> int" where
  "cursor_of m = int_or_0 (dget (cm_metadata m) ''resultCursor'')"

definition next_result_cursor :: "string \<Rightarrow> db \<Rightarrow> int" where
  "next_result_cursor rs d = table_max (map cursor_of (project_results rs d)) + 1"

definition result_row ::
  "(json \<Rightarrow> string) \<Rightarrow> project_result_args \<Rightarrow> coordination_rec \<Rightarrow> int \<Rightarrow> bool \<Rightarrow> time \<Rightarrow> coordination_rec" where
  "result_row digest a parent cursor current now =
     \<lparr>cm_id = ga_id a, cm_thread = cm_thread parent, cm_type = ''reply'', cm_source_session = ga_session a,
      cm_target_session = cm_source_session parent, cm_source_run = Some (ga_run a), cm_target_run = None,
      cm_source_user = Some (ga_user a), cm_intent = ''inform'', cm_authority = ''project_result'',
      cm_interaction = None, cm_content = ga_content a, cm_summary = Some (ga_content a), cm_context = [],
      cm_evidence = map JStr (ga_evidence a), cm_reply_to = Some (ga_request a),
      cm_reply_status = Some (ga_status a), cm_hops = 2, cm_max_hops = 2,
      cm_state = (if current then ''queued'' else ''replied''), cm_key = result_identity a, cm_error = None,
      cm_metadata = [(''assignmentId'', dget (cm_metadata parent) ''assignmentId''),
        (''assignmentRevision'', dget (cm_metadata parent) ''assignmentRevision''),
        (''resultVersion'', JInt (ga_version a)), (''resultCursor'', JInt cursor),
        (''resultDigest'', JStr (result_digest digest a)),
        (''resultFinal'', JBool (ga_status a \<in> set result_terminal_statuses)),
        (''superseded'', JBool (\<not> current))],
      cm_expires = None, cm_authorized = Some now, cm_promoted = None, cm_injected = None,
      cm_replied = None, cm_cancelled = None, cm_created = now, cm_updated = now\<rparr>"

definition advanced_request :: "project_result_args \<Rightarrow> dict \<Rightarrow> time \<Rightarrow> coordination_rec \<Rightarrow> coordination_rec" where
  "advanced_request a meta now m =
     (let terminal = ga_status a \<in> set result_terminal_statuses
      in m\<lparr>cm_metadata := dset ''executionResultStatus'' (JStr (ga_status a))
             (dset ''resultFinal'' (JBool terminal)
             (dset ''latestResultId'' (JStr (ga_id a))
             (dset ''latestResultVersion'' (JInt (ga_version a)) meta))),
           cm_reply_status := Some (ga_status a),
           cm_state := (if terminal then ''replied'' else ''injected''), cm_updated := now\<rparr>)"

definition superseded_result :: "coordination_rec \<Rightarrow> coordination_rec" where
  "superseded_result m = m\<lparr>cm_metadata := dset ''superseded'' (JBool True) (cm_metadata m),
     cm_state := (if cm_state m = ''queued'' then ''replied'' else cm_state m)\<rparr>"

definition older_result :: "project_result_args \<Rightarrow> coordination_rec \<Rightarrow> bool" where
  "older_result a m \<longleftrightarrow> cm_reply_to m = Some (ga_request a) \<and> cm_authority m = ''project_result''
     \<and> cm_id m \<noteq> ga_id a
     \<and> (case int_of_json (dget (cm_metadata m) ''resultVersion'') of None \<Rightarrow> False | Some n \<Rightarrow> n < ga_version a)"

definition append_session_project_result ::
  "(json \<Rightarrow> string) \<Rightarrow> project_result_args \<Rightarrow> time \<Rightarrow> db \<Rightarrow> (coordination_error + coordination_rec) \<times> db" where
  "append_session_project_result digest a now d =
     (case sel_by cm_id (ga_request a) (db_coordination d) of
        None \<Rightarrow> (Inl RequestScopeMismatch, d)
      | Some parent \<Rightarrow>
          if cm_authority parent \<noteq> ''project_assignment'' \<or> cm_target_session parent \<noteq> ga_session a
          then (Inl RequestScopeMismatch, d)
          else if result_assignment a parent d = None then (Inl AssignmentChanged, d)
          else case sel_by cm_key (result_identity a) (db_coordination d) of
            Some m \<Rightarrow>
              if dget (cm_metadata m) ''resultDigest'' \<noteq> JStr (result_digest digest a)
              then (Inl VersionConflict, d) else (Inr m, d)
          | None \<Rightarrow>
              if \<not> reporting_run a parent d then (Inl RunScopeMismatch, d)
              else if cm_state parent \<notin> {''injected'', ''replied''} then (Inl RequestInactive, d)
              else
                let meta = cm_metadata parent;
                    latest = int_or_0 (dget meta ''latestResultVersion'');
                    current = (latest < ga_version a)
                in if truthy (dget meta ''resultFinal'') \<and> current then (Inl AlreadyTerminal, d)
                   else if sel_by cm_id (ga_id a) (db_coordination d) \<noteq> None then (Inl ResultIdTaken, d)
                   else
                     let row = result_row digest a parent (next_result_cursor (cm_source_session parent) d) current now;
                         t = db_coordination d @ [row];
                         t' = (if current
                               then upd_where (older_result a) superseded_result
                                      (upd_where (\<lambda>m. cm_id m = ga_request a) (advanced_request a meta now) t)
                               else t)
                     in (Inr row, d\<lparr>db_coordination := t'\<rparr>))"

definition list_session_project_results :: "string \<Rightarrow> int \<Rightarrow> int \<Rightarrow> db \<Rightarrow> coordination_rec list" where
  "list_session_project_results rs after limit d =
     take (nat (max 1 (min limit 200)))
       (sort_key cursor_of (filter (\<lambda>m. case result_cursor m of None \<Rightarrow> False | Some n \<Rightarrow> max 0 after < n)
          (project_results rs d)))"

section \<open>Acknowledgement and replay\<close>

record ack_args =
  aa_message :: string
  aa_session :: string
  aa_run :: string
  aa_version :: int
  aa_cursor :: int
  aa_content :: string

definition consumed_wait :: "ack_args \<Rightarrow> dict \<Rightarrow> db \<Rightarrow> db" where
  "consumed_wait a meta d =
     (case run_of (aa_run a) d of
        None \<Rightarrow> d
      | Some r \<Rightarrow>
          let wait = as_dict (dget (rn_metadata r) ''sessionResultWait'')
          in if dget wait ''state'' = JStr ''executing'' \<and> dget wait ''messageId'' = JStr (aa_message a)
                \<and> py_eq (dget wait ''generation'') (dget meta ''waitGeneration'')
                \<and> py_eq (dget wait ''targetCursor'') (JInt (aa_cursor a))
             then set_run_metadata (aa_run a)
                    (dset ''sessionResultWait'' (JObj (dset ''state'' (JStr ''consumed'') wait)) (rn_metadata r)) d
             else d)"

definition acknowledge_session_project_result ::
  "ack_args \<Rightarrow> time \<Rightarrow> db \<Rightarrow> (coordination_error + bool) \<times> db" where
  "acknowledge_session_project_result a now d =
     (case sel_by cm_id (aa_message a) (db_coordination d) of
        None \<Rightarrow> (Inr False, d)
      | Some m \<Rightarrow>
          if cm_authority m \<noteq> ''project_result'' \<or> cm_target_session m \<noteq> aa_session a
             \<or> cm_target_run m \<noteq> Some (aa_run a) \<or> cm_state m \<notin> {''promoted'', ''injected''}
          then (Inr False, d)
          else
            let meta = cm_metadata m
            in if \<not> py_eq (dget meta ''resultVersion'') (JInt (aa_version a))
                  \<or> \<not> py_eq (dget meta ''resultCursor'') (JInt (aa_cursor a)) \<or> cm_content m \<noteq> aa_content a
               then (Inl CheckpointMismatch, d)
               else if truthy (dget meta ''checkpointConsumed'') \<and> dget meta ''checkpointRunId'' = JStr (aa_run a)
               then (Inr False, d)
               else
                 let meta' = dset ''checkpointRunId'' (JStr (aa_run a)) (dset ''checkpointConsumed'' (JBool True) meta)
                 in (Inr True, consumed_wait a meta' (d\<lparr>db_coordination :=
                       upd_where (\<lambda>x. cm_id x = aa_message a) (\<lambda>x. x\<lparr>cm_metadata := meta', cm_updated := now\<rparr>)
                         (db_coordination d)\<rparr>)))"

definition claim_session_project_result_replay :: "string \<Rightarrow> string \<Rightarrow> time \<Rightarrow> db \<Rightarrow> bool \<times> db" where
  "claim_session_project_result_replay message owner now d =
     (if session_project_result_delivery_error d message \<noteq> [] then (False, d)
      else case sel_by cm_id message (db_coordination d) of
        None \<Rightarrow> (False, d)
      | Some m \<Rightarrow>
          if cm_authority m \<noteq> ''project_result'' \<or> dget (cm_metadata m) ''deliveryOwner'' = JStr owner
          then (False, d)
          else (True, d\<lparr>db_coordination := upd_where (\<lambda>x. cm_id x = message)
                 (\<lambda>x. x\<lparr>cm_state := ''queued'', cm_target_run := None,
                        cm_metadata := dset ''deliveryReplayRequired'' (JBool False)
                          (dset ''checkpointConsumed'' (JBool False)
                          (dset ''deliveryOwner'' (JStr owner) (cm_metadata m))), cm_updated := now\<rparr>)
                 (db_coordination d)\<rparr>))"

section \<open>How the rows evolve\<close>

definition coord_wf :: "db \<Rightarrow> bool" where
  "coord_wf d \<longleftrightarrow> keyed cm_id (db_coordination d) \<and> keyed cm_key (db_coordination d)"

definition final_at :: "int \<Rightarrow> coordination_rec \<Rightarrow> bool" where
  "final_at v m \<longleftrightarrow> truthy (dget (cm_metadata m) ''resultFinal'') \<and>
     int_or_0 (dget (cm_metadata m) ''latestResultVersion'') = v"

definition row_evolves :: "coordination_rec \<Rightarrow> coordination_rec \<Rightarrow> bool" where
  "row_evolves m m' \<longleftrightarrow> cm_id m' = cm_id m \<and> cm_key m' = cm_key m \<and> cm_content m' = cm_content m \<and>
     cm_source_session m' = cm_source_session m \<and> cm_target_session m' = cm_target_session m \<and>
     dget (cm_metadata m') ''resultDigest'' = dget (cm_metadata m) ''resultDigest'' \<and>
     (\<forall>v. final_at v m \<longrightarrow> final_at v m')"

definition coord_evolves :: "db \<Rightarrow> db \<Rightarrow> bool" where
  "coord_evolves d d' \<longleftrightarrow> coord_wf d' \<and> table_evolves row_evolves (db_coordination d) (db_coordination d')"

lemma row_evolves_refl [simp]: "row_evolves m m"
  by (simp add: row_evolves_def)

lemma row_evolves_trans: "row_evolves a b \<Longrightarrow> row_evolves b c \<Longrightarrow> row_evolves a c"
  by (auto simp: row_evolves_def)

lemma coord_evolves_refl: "coord_wf d \<Longrightarrow> coord_evolves d d"
  by (simp add: coord_evolves_def table_evolves_refl)

lemma coord_evolves_trans: "coord_evolves a b \<Longrightarrow> coord_evolves b c \<Longrightarrow> coord_evolves a c"
  unfolding coord_evolves_def by (blast intro: table_evolves_trans [where R = row_evolves] row_evolves_trans)

lemma evolve_upd:
  assumes "coord_wf d" and "\<And>m. cm_id (f m) = cm_id m \<and> cm_key (f m) = cm_key m"
    and "\<And>m. m \<in> set (db_coordination d) \<Longrightarrow> P m \<Longrightarrow> row_evolves m (f m)"
    and "db_coordination d' = upd_where P f (db_coordination d)"
  shows "coord_evolves d d'"
  using assms(1-3) unfolding coord_evolves_def assms(4)
  by (simp add: coord_wf_def assms(4) keyed_upd_where table_evolves_upd)

lemma evolve_snoc:
  assumes "coord_wf d" and "sel_by cm_id (cm_id m) (db_coordination d) = None"
    and "sel_by cm_key (cm_key m) (db_coordination d) = None"
    and "db_coordination d' = db_coordination d @ [m]"
  shows "coord_evolves d d'"
  using assms unfolding coord_evolves_def assms(4)
  by (simp add: coord_wf_def assms(4) keyed_snoc table_evolves_append)

text \<open>What is found by identifier or key is found again.\<close>

lemma evolves_sel:
  assumes "coord_evolves d d'" and "sel_by key k (db_coordination d) = Some m" and "key = cm_id \<or> key = cm_key"
  shows "\<exists>m'. sel_by key k (db_coordination d') = Some m' \<and> row_evolves m m'"
proof (rule table_evolves_sel [OF _ assms(2)])
  show "table_evolves row_evolves (db_coordination d) (db_coordination d')"
    using assms(1) by (simp add: coord_evolves_def)
  show "\<And>a b. row_evolves a b \<Longrightarrow> key b = key a" using assms(3) by (auto simp: row_evolves_def)
qed

section \<open>Histories\<close>

datatype coord_op =
    OAdd coordination_args
  | OUpdate string message_update
  | OAppend project_result_args
  | OAcknowledge ack_args
  | OReplay string string

fun coord_step :: "(json \<Rightarrow> string) \<Rightarrow> coord_op \<Rightarrow> time \<Rightarrow> db \<Rightarrow> db" where
  "coord_step digest (OAdd a) now d = snd (add_session_coordination_message a now d)"
| "coord_step digest (OUpdate m u) now d = snd (update_session_coordination_message m u now d d)"
| "coord_step digest (OAppend a) now d = snd (append_session_project_result digest a now d)"
| "coord_step digest (OAcknowledge a) now d = snd (acknowledge_session_project_result a now d)"
| "coord_step digest (OReplay m owner) now d = snd (claim_session_project_result_replay m owner now d)"

fun coord_run :: "(json \<Rightarrow> string) \<Rightarrow> (coord_op \<times> time) list \<Rightarrow> db \<Rightarrow> db" where
  "coord_run digest [] d = d"
| "coord_run digest ((x, now) # xs) d = coord_run digest xs (coord_step digest x now d)"

text \<open>The general update names a message by its stored identifier and does not write the keys
  that belong to the results.\<close>

fun coord_legal :: "coord_op \<Rightarrow> bool" where
  "coord_legal (OUpdate m u) \<longleftrightarrow> py_strip m = m \<and>
     fst ` set (mu_metadata u) \<inter> {''resultDigest'', ''resultFinal'', ''latestResultVersion''} = {}"
| "coord_legal _ \<longleftrightarrow> True"

subsection \<open>The outcomes of an append\<close>

definition grown_table ::
  "(json \<Rightarrow> string) \<Rightarrow> project_result_args \<Rightarrow> coordination_rec \<Rightarrow> bool \<Rightarrow> time \<Rightarrow> db \<Rightarrow> coordination_rec list" where
  "grown_table digest a parent current now d =
     (let t = db_coordination d @ [result_row digest a parent (next_result_cursor (cm_source_session parent) d) current now]
      in if current
         then upd_where (older_result a) superseded_result
                (upd_where (\<lambda>m. cm_id m = ga_request a) (advanced_request a (cm_metadata parent) now) t)
         else t)"

definition is_newer :: "project_result_args \<Rightarrow> coordination_rec \<Rightarrow> bool" where
  "is_newer a parent \<longleftrightarrow> int_or_0 (dget (cm_metadata parent) ''latestResultVersion'') < ga_version a"

lemma append_result_cases:
  assumes "append_session_project_result digest a now d = (res, d')"
  obtains (refused) err where "res = Inl err" "d' = d"
  | (again) m where "sel_by cm_key (result_identity a) (db_coordination d) = Some m"
      "dget (cm_metadata m) ''resultDigest'' = JStr (result_digest digest a)" "res = Inr m" "d' = d"
  | (appended) parent where "sel_by cm_id (ga_request a) (db_coordination d) = Some parent"
      "cm_authority parent = ''project_assignment''"
      "sel_by cm_key (result_identity a) (db_coordination d) = None"
      "sel_by cm_id (ga_id a) (db_coordination d) = None"
      "is_newer a parent \<longrightarrow> \<not> truthy (dget (cm_metadata parent) ''resultFinal'')"
      "res = Inr (result_row digest a parent (next_result_cursor (cm_source_session parent) d) (is_newer a parent) now)"
      "d' = d\<lparr>db_coordination := grown_table digest a parent (is_newer a parent) now d\<rparr>"
proof (cases "sel_by cm_id (ga_request a) (db_coordination d)")
  case None
  then show ?thesis using assms by (intro refused) (auto simp: append_session_project_result_def)
next
  case (Some parent)
  show ?thesis
  proof (cases "cm_authority parent \<noteq> ''project_assignment'' \<or> cm_target_session parent \<noteq> ga_session a
      \<or> result_assignment a parent d = None")
    case True
    then have "\<exists>err. res = Inl err \<and> d' = d"
      using assms Some by (auto simp: append_session_project_result_def simp del: not_None_eq split: if_splits)
    then show ?thesis using refused by blast
  next
    case False
    show ?thesis
    proof (cases "sel_by cm_key (result_identity a) (db_coordination d)")
      case (Some m)
      with \<open>sel_by cm_id (ga_request a) (db_coordination d) = Some parent\<close> False assms
      have "res = Inl VersionConflict \<and> d' = d \<or>
          dget (cm_metadata m) ''resultDigest'' = JStr (result_digest digest a) \<and> res = Inr m \<and> d' = d"
        by (auto simp: append_session_project_result_def split: if_splits)
      then show ?thesis using refused again Some by blast
    next
      case None
      show ?thesis
      proof (cases "\<not> reporting_run a parent d \<or> cm_state parent \<notin> {''injected'', ''replied''} \<or>
          truthy (dget (cm_metadata parent) ''resultFinal'') \<and> is_newer a parent \<or>
          sel_by cm_id (ga_id a) (db_coordination d) \<noteq> None")
        case True
        then have "\<exists>err. res = Inl err \<and> d' = d"
          using assms Some False None
          by (auto simp: append_session_project_result_def Let_def is_newer_def simp del: not_None_eq split: if_splits)
        then show ?thesis using refused by blast
      next
        case ok: False
        have "(res, d') = (Inr (result_row digest a parent (next_result_cursor (cm_source_session parent) d) (is_newer a parent) now),
            d\<lparr>db_coordination := grown_table digest a parent (is_newer a parent) now d\<rparr>)"
          using assms Some False None ok
          unfolding append_session_project_result_def grown_table_def is_newer_def Let_def
          by (auto simp del: not_None_eq split: if_splits)
        moreover have "is_newer a parent \<longrightarrow> \<not> truthy (dget (cm_metadata parent) ''resultFinal'')"
          using ok by blast
        ultimately show ?thesis using appended [OF Some] False None ok by blast
      qed
    qed
  qed
qed

subsection \<open>Every operation evolves the rows\<close>

lemma result_row_simps [simp]:
  "cm_id (result_row digest a p n c now) = ga_id a" "cm_key (result_row digest a p n c now) = result_identity a"
  "cm_content (result_row digest a p n c now) = ga_content a"
  "cm_authority (result_row digest a p n c now) = ''project_result''"
  "cm_target_session (result_row digest a p n c now) = cm_source_session p"
  "cursor_of (result_row digest a p n c now) = n"
  "dget (cm_metadata (result_row digest a p n c now)) ''resultDigest'' = JStr (result_digest digest a)"
  "cm_state (result_row digest a p n c now) = (if c then ''queued'' else ''replied'')"
  by (simp_all add: result_row_def cursor_of_def int_or_0_def int_of_json_def)

lemma evolve_older: "row_evolves m (superseded_result m)"
  by (simp add: row_evolves_def superseded_result_def final_at_def)

lemma evolve_advanced:
  assumes "is_newer a m \<longrightarrow> \<not> truthy (dget (cm_metadata m) ''resultFinal'')" and "is_newer a m"
  shows "row_evolves m (advanced_request a (cm_metadata m) now m)"
  using assms by (simp add: row_evolves_def advanced_request_def Let_def final_at_def)

text \<open>After the insertion the request advances and the older results step back.\<close>

lemma evolve_grown:
  assumes "coord_wf d" and "sel_by cm_id (ga_request a) (db_coordination d) = Some parent"
    and "sel_by cm_key (result_identity a) (db_coordination d) = None"
    and "sel_by cm_id (ga_id a) (db_coordination d) = None"
    and "is_newer a parent \<longrightarrow> \<not> truthy (dget (cm_metadata parent) ''resultFinal'')"
    and "d' = d\<lparr>db_coordination := grown_table digest a parent (is_newer a parent) now d\<rparr>"
    and "d1 = d\<lparr>db_coordination := db_coordination d @
      [result_row digest a parent (next_result_cursor (cm_source_session parent) d) (is_newer a parent) now]\<rparr>"
  shows "coord_evolves d d1" and "coord_evolves d1 d'"
proof -
  show e1: "coord_evolves d d1" by (rule evolve_snoc [OF assms(1)]) (simp_all add: assms)
  then have wf1: "coord_wf d1" by (simp add: coord_evolves_def)
  show "coord_evolves d1 d'"
  proof (cases "is_newer a parent")
    case False
    then have "d' = d1" using assms(6,7) by (simp add: grown_table_def)
    then show ?thesis using wf1 by (simp add: coord_evolves_refl)
  next
    case True
    let ?d2 = "d1\<lparr>db_coordination := upd_where (\<lambda>m. cm_id m = ga_request a)
        (advanced_request a (cm_metadata parent) now) (db_coordination d1)\<rparr>"
    have req: "ga_request a \<noteq> ga_id a" using assms(2,4) by auto
    have only: "m = parent" if "m \<in> set (db_coordination d1)" "cm_id m = ga_request a" for m
      using that req assms(1,2,7) keyed_sel_iff [of cm_id "db_coordination d" "ga_request a" m]
      by (auto simp: coord_wf_def)
    have e2: "coord_evolves d1 ?d2"
    proof (rule evolve_upd [OF wf1])
      show "db_coordination ?d2 = upd_where (\<lambda>m. cm_id m = ga_request a)
        (advanced_request a (cm_metadata parent) now) (db_coordination d1)" by simp
      show "row_evolves m (advanced_request a (cm_metadata parent) now m)"
        if "m \<in> set (db_coordination d1)" "cm_id m = ga_request a" for m
        using only [OF that] evolve_advanced [of a parent now] assms(5) True by simp
    qed (simp add: advanced_request_def Let_def)
    then have wf2: "coord_wf ?d2" by (simp add: coord_evolves_def)
    have "coord_evolves ?d2 d'"
    proof (rule evolve_upd [OF wf2])
      show "db_coordination d' = upd_where (older_result a) superseded_result (db_coordination ?d2)"
        using assms(6,7) True by (simp add: grown_table_def)
    qed (simp_all add: superseded_result_def evolve_older [unfolded superseded_result_def])
    with e2 show ?thesis by (rule coord_evolves_trans)
  qed
qed

lemma evolve_append:
  assumes "coord_wf d"
  shows "coord_evolves d (snd (append_session_project_result digest a now d))"
proof (cases "append_session_project_result digest a now d")
  case (Pair res d')
  from Pair show ?thesis
  proof (cases rule: append_result_cases)
    case (appended parent)
    from evolve_grown [OF assms appended(1,3-5,7) refl] show ?thesis
      by (metis Pair coord_evolves_trans snd_conv)
  qed (use assms Pair in \<open>simp_all add: coord_evolves_refl\<close>)
qed

lemma consumed_wait_coordination [simp]: "db_coordination (consumed_wait a meta d) = db_coordination d"
  by (simp add: consumed_wait_def set_run_metadata_def Let_def split: option.split)

lemma evolve_ack:
  assumes "coord_wf d"
  shows "coord_evolves d (snd (acknowledge_session_project_result a now d))"
proof -
  let ?d = "snd (acknowledge_session_project_result a now d)"
  have "?d = d \<or> (\<exists>m. sel_by cm_id (aa_message a) (db_coordination d) = Some m \<and>
      db_coordination ?d = upd_where (\<lambda>x. cm_id x = aa_message a)
        (\<lambda>x. x\<lparr>cm_metadata := dset ''checkpointRunId'' (JStr (aa_run a)) (dset ''checkpointConsumed'' (JBool True) (cm_metadata m)),
               cm_updated := now\<rparr>) (db_coordination d))"
    by (simp add: acknowledge_session_project_result_def Let_def split: option.split)
  then show ?thesis
  proof (elim disjE exE conjE)
    fix m assume m: "sel_by cm_id (aa_message a) (db_coordination d) = Some m"
      and t: "db_coordination ?d = upd_where (\<lambda>x. cm_id x = aa_message a)
        (\<lambda>x. x\<lparr>cm_metadata := dset ''checkpointRunId'' (JStr (aa_run a)) (dset ''checkpointConsumed'' (JBool True) (cm_metadata m)),
               cm_updated := now\<rparr>) (db_coordination d)"
    have only: "x = m" if "x \<in> set (db_coordination d)" "cm_id x = aa_message a" for x
      using that m assms keyed_sel_iff [of cm_id "db_coordination d" "aa_message a" x] by (auto simp: coord_wf_def)
    show ?thesis
      by (rule evolve_upd [OF assms _ _ t]) (auto dest!: only simp: row_evolves_def final_at_def)
  qed (simp add: assms coord_evolves_refl)
qed

lemma evolve_replay:
  assumes "coord_wf d"
  shows "coord_evolves d (snd (claim_session_project_result_replay message owner now d))"
proof -
  let ?d = "snd (claim_session_project_result_replay message owner now d)"
  let ?f = "\<lambda>m x. x\<lparr>cm_state := ''queued'', cm_target_run := None,
      cm_metadata := dset ''deliveryReplayRequired'' (JBool False) (dset ''checkpointConsumed'' (JBool False)
        (dset ''deliveryOwner'' (JStr owner) (cm_metadata m))), cm_updated := now\<rparr>"
  have "?d = d \<or> (\<exists>m. sel_by cm_id message (db_coordination d) = Some m \<and>
      db_coordination ?d = upd_where (\<lambda>x. cm_id x = message) (?f m) (db_coordination d))"
    by (simp add: claim_session_project_result_replay_def split: option.split)
  then show ?thesis
  proof (elim disjE exE conjE)
    fix m assume m: "sel_by cm_id message (db_coordination d) = Some m"
      and t: "db_coordination ?d = upd_where (\<lambda>x. cm_id x = message) (?f m) (db_coordination d)"
    have only: "x = m" if "x \<in> set (db_coordination d)" "cm_id x = message" for x
      using that m assms keyed_sel_iff [of cm_id "db_coordination d" message x] by (auto simp: coord_wf_def)
    show ?thesis
      by (rule evolve_upd [OF assms _ _ t]) (auto dest!: only simp: row_evolves_def final_at_def)
  qed (simp add: assms coord_evolves_refl)
qed

lemma evolve_add:
  assumes "coord_wf d"
  shows "coord_evolves d (snd (add_session_coordination_message a now d))"
proof (cases "message_clash a d")
  case True
  then show ?thesis using assms by (simp add: add_session_coordination_message_def Let_def coord_evolves_refl)
next
  case False
  then have "sel_by cm_id (ma_id a) (db_coordination d) = None" "sel_by cm_key (ma_key a) (db_coordination d) = None"
    by (auto simp: message_clash_def list_ex_iff sel_by_None_iff)
  then show ?thesis using False
    by (intro evolve_snoc [OF assms, of "new_message a now"])
      (simp_all add: new_message_def add_session_coordination_message_def Let_def)
qed

lemma updated_message_evolves:
  assumes "dget meta ''resultDigest'' = dget (cm_metadata m) ''resultDigest''"
    and "dget meta ''resultFinal'' = dget (cm_metadata m) ''resultFinal''"
    and "dget meta ''latestResultVersion'' = dget (cm_metadata m) ''latestResultVersion''"
  shows "row_evolves m (updated_message u meta now m)"
  using assms by (simp add: row_evolves_def updated_message_def Let_def final_at_def)

lemma evolve_update:
  assumes "coord_wf d" and "coord_legal (OUpdate message u)"
  shows "coord_evolves d (snd (update_session_coordination_message message u now d d))"
proof -
  let ?d = "snd (update_session_coordination_message message u now d d)"
  have strip: "py_strip message = message"
    and keys: "''resultDigest'' \<notin> fst ` set (mu_metadata u)" "''resultFinal'' \<notin> fst ` set (mu_metadata u)"
      "''latestResultVersion'' \<notin> fst ` set (mu_metadata u)"
    using assms(2) by auto
  have "?d = d \<or>
      (\<exists>b. db_coordination ?d = upd_where (\<lambda>m. cm_id m = message)
         (\<lambda>m. m\<lparr>cm_state := ''blocked'', cm_error := Some b, cm_updated := now\<rparr>) (db_coordination d)) \<or>
      (\<exists>e. sel_by cm_id message (db_coordination d) = Some e \<and>
         db_coordination ?d = upd_where (\<lambda>m. cm_id m = message)
           (updated_message u (dmerge (cm_metadata e) (mu_metadata u)) now) (db_coordination d))"
  proof (cases "get_session_coordination_message message d")
    case (Some e)
    then have "sel_by cm_id message (db_coordination d) = Some e"
      using strip by (simp add: get_session_coordination_message_def split: if_splits)
    define b where "b = (if mu_state u \<in> {Some ''promoted'', Some ''injected''}
        then session_project_result_delivery_error d message else [])"
    consider "b = ''project_result_source_paused''" | "b \<noteq> ''project_result_source_paused''" "b \<noteq> []"
      | "b = []" "sel_by cm_id message (db_coordination d) \<noteq> None \<and> interaction_taken message (mu_interaction u) d"
      | "b = []" "\<not> (sel_by cm_id message (db_coordination d) \<noteq> None \<and> interaction_taken message (mu_interaction u) d)"
      by blast
    then show ?thesis
    proof cases
      case 1
      then have "?d = d"
        unfolding update_session_coordination_message_def Let_def Some option.case b_def [symmetric] by simp
      then show ?thesis by blast
    next
      case 2
      then have "db_coordination ?d = upd_where (\<lambda>m. cm_id m = message)
         (\<lambda>m. m\<lparr>cm_state := ''blocked'', cm_error := Some b, cm_updated := now\<rparr>) (db_coordination d)"
        unfolding update_session_coordination_message_def Let_def Some option.case b_def [symmetric] by simp
      then show ?thesis by blast
    next
      case 3
      then have "?d = d"
        unfolding update_session_coordination_message_def Let_def Some option.case b_def [symmetric] by simp
      then show ?thesis by blast
    next
      case 4
      then have "db_coordination ?d = upd_where (\<lambda>m. cm_id m = message)
           (updated_message u (dmerge (cm_metadata e) (mu_metadata u)) now) (db_coordination d)"
        unfolding update_session_coordination_message_def Let_def Some option.case b_def [symmetric]
        by (subst if_not_P, simp)+ simp
      then show ?thesis using \<open>sel_by cm_id message (db_coordination d) = Some e\<close> by blast
    qed
  qed (simp add: update_session_coordination_message_def)
  then show ?thesis
  proof (elim disjE exE conjE)
    fix b assume "db_coordination ?d = upd_where (\<lambda>m. cm_id m = message)
         (\<lambda>m. m\<lparr>cm_state := ''blocked'', cm_error := Some b, cm_updated := now\<rparr>) (db_coordination d)"
    then show ?thesis by (intro evolve_upd [OF assms(1)]) (auto simp: row_evolves_def final_at_def)
  next
    fix e assume e: "sel_by cm_id message (db_coordination d) = Some e"
      and t: "db_coordination ?d = upd_where (\<lambda>m. cm_id m = message)
           (updated_message u (dmerge (cm_metadata e) (mu_metadata u)) now) (db_coordination d)"
    show ?thesis
    proof (rule evolve_upd [OF assms(1) _ _ t])
      fix m assume "m \<in> set (db_coordination d)" "cm_id m = message"
      then have "m = e" using e assms(1) keyed_sel_iff [of cm_id "db_coordination d" message m]
        by (simp add: coord_wf_def)
      then show "row_evolves m (updated_message u (dmerge (cm_metadata e) (mu_metadata u)) now m)"
        using keys by (intro updated_message_evolves) (simp_all add: dget_dmerge_other)
    qed (simp add: updated_message_def Let_def)
  qed (simp add: assms coord_evolves_refl)
qed

lemma step_evolves: "coord_wf d \<Longrightarrow> coord_legal x \<Longrightarrow> coord_evolves d (coord_step digest x now d)"
  by (cases x) (simp_all add: evolve_add evolve_append evolve_ack evolve_replay evolve_update del: coord_legal.simps)

lemma run_evolves:
  "coord_wf d \<Longrightarrow> list_all (coord_legal \<circ> fst) xs \<Longrightarrow> coord_evolves d (coord_run digest xs d)"
proof (induction digest xs d rule: coord_run.induct)
  case (2 digest x now xs d)
  have s: "coord_evolves d (coord_step digest x now d)" using 2(2,3) by (intro step_evolves) simp_all
  then have "coord_wf (coord_step digest x now d)" by (simp add: coord_evolves_def)
  from 2(1) [OF this] 2(3) s show ?case by (auto intro: coord_evolves_trans)
qed (simp add: coord_evolves_refl)

section \<open>The cursors of a root session\<close>

definition append_result :: "(json \<Rightarrow> string) \<Rightarrow> string \<times> project_result_args \<times> time \<Rightarrow> db \<Rightarrow> int option \<times> db" where
  "append_result digest x d = (case x of (rs, a, now) \<Rightarrow>
     if map_option cm_source_session (sel_by cm_id (ga_request a) (db_coordination d)) \<noteq> Some rs
        \<or> sel_by cm_key (result_identity a) (db_coordination d) \<noteq> None then (None, d)
     else case append_session_project_result digest a now d of
       (Inl _, d') \<Rightarrow> (None, d')
     | (Inr m, d') \<Rightarrow> (Some (cursor_of m), d'))"

definition result_cursors :: "db \<Rightarrow> string \<Rightarrow> int list" where
  "result_cursors d rs = map cursor_of (project_results rs d)"

lemma cursor_below_next: "n \<in> set (result_cursors d rs) \<Longrightarrow> n < next_result_cursor rs d"
  using table_max_ge [of n "result_cursors d rs"] by (simp add: result_cursors_def next_result_cursor_def)

lemma append_result_effect:
  assumes "coord_wf d" and "append_result digest (rs, a, now) d = (r, d')"
  shows "r = None \<and> d' = d \<or>
    r = Some (next_result_cursor rs d) \<and>
    (\<forall>g. result_cursors d' g = result_cursors d g @ (if g = rs then [next_result_cursor rs d] else []))"
proof (cases "map_option cm_source_session (sel_by cm_id (ga_request a) (db_coordination d)) \<noteq> Some rs
    \<or> sel_by cm_key (result_identity a) (db_coordination d) \<noteq> None")
  case True
  then show ?thesis using assms(2) by (auto simp: append_result_def simp del: not_None_eq)
next
  case False
  then obtain parent where p: "sel_by cm_id (ga_request a) (db_coordination d) = Some parent"
    "cm_source_session parent = rs" by auto
  obtain res d1 where app: "append_session_project_result digest a now d = (res, d1)" by (metis surj_pair)
  have res: "r = (case res of Inl _ \<Rightarrow> None | Inr m \<Rightarrow> Some (cursor_of m))" "d' = d1"
    using assms(2) False app by (auto simp: append_result_def simp del: not_None_eq split: sum.splits)
  from app show ?thesis
  proof (cases rule: append_result_cases)
    case (appended q)
    have q: "q = parent" using appended(1) p(1) by simp
    let ?row = "result_row digest a parent (next_result_cursor rs d) (is_newer a parent) now"
    let ?t = "db_coordination d @ [?row]"
    have req: "ga_request a \<noteq> ga_id a" using appended(1,4) by auto
    have only: "m = parent" if "m \<in> set ?t" "cm_id m = ga_request a" for m
      using that req p assms(1) keyed_sel_iff [of cm_id "db_coordination d" "ga_request a" m]
      by (auto simp: coord_wf_def)
    have upd: "upd_where (\<lambda>m. cm_id m = ga_request a) (advanced_request a (cm_metadata parent) now) ?t =
        upd_where (\<lambda>m. cm_id m = ga_request a \<and> cm_authority m = ''project_assignment'')
          (advanced_request a (cm_metadata parent) now) ?t"
      by (rule upd_where_cong) (use only appended(2) q in blast)
    have kept: "map cursor_of (filter (\<lambda>m. cm_target_session m = g \<and> cm_authority m = ''project_result'')
        (grown_table digest a parent (is_newer a parent) now d)) =
        map cursor_of (filter (\<lambda>m. cm_target_session m = g \<and> cm_authority m = ''project_result'') ?t)" for g
    proof (cases "is_newer a parent")
      case True
      have grown: "grown_table digest a parent (is_newer a parent) now d =
          upd_where (older_result a) superseded_result
            (upd_where (\<lambda>m. cm_id m = ga_request a \<and> cm_authority m = ''project_assignment'')
              (advanced_request a (cm_metadata parent) now) ?t)"
        unfolding grown_table_def Let_def p(2) upd [symmetric] using True by (rule if_P)
      have view: "map cursor_of (filter (\<lambda>m. cm_target_session m = g \<and> cm_authority m = ''project_result'')
          (upd_where (older_result a) superseded_result u)) =
          map cursor_of (filter (\<lambda>m. cm_target_session m = g \<and> cm_authority m = ''project_result'') u)" for u
        by (rule map_view_keep) (simp_all add: superseded_result_def cursor_of_def)
      have frame: "filter (\<lambda>m. cm_target_session m = g \<and> cm_authority m = ''project_result'')
          (upd_where (\<lambda>m. cm_id m = ga_request a \<and> cm_authority m = ''project_assignment'')
            (advanced_request a (cm_metadata parent) now) ?t) =
          filter (\<lambda>m. cm_target_session m = g \<and> cm_authority m = ''project_result'') ?t"
        by (rule filter_upd_where_frame) (auto simp: advanced_request_def Let_def)
      show ?thesis unfolding grown view frame ..
    qed (simp add: grown_table_def p(2))
    then have "result_cursors d' g = result_cursors d g @ (if g = rs then [next_result_cursor rs d] else [])" for g
      using appended(7) res(2) q by (simp add: result_cursors_def project_results_def p(2))
    moreover have "r = Some (next_result_cursor rs d)" using res(1) appended(6) q p(2) by simp
    ultimately show ?thesis by blast
  next
    case (again m)
    then show ?thesis using False by simp
  qed (use res in simp)
qed

interpretation cursors: guarded_stream "append_result digest" fst result_cursors coord_wf for digest
proof
  fix d x n d'
  assume wf: "coord_wf d" and app: "append_result digest x d = (Some n, d')"
  obtain rs a now where x: "x = (rs, a, now)" by (cases x) auto
  show "(\<forall>m \<in> set (result_cursors d (fst x)). m < n) \<and>
      result_cursors d' (fst x) = result_cursors d (fst x) @ [n]"
    using append_result_effect [OF wf app [unfolded x]] cursor_below_next by (auto simp: x)
next
  fix d x d'
  assume wf: "coord_wf d" and app: "append_result digest x d = (None, d')"
  obtain rs a now where x: "x = (rs, a, now)" by (cases x) auto
  show "d' = d" using append_result_effect [OF wf app [unfolded x]] by simp
next
  fix d x r d' g
  assume wf: "coord_wf d" and app: "append_result digest x d = (r, d')" and "g \<noteq> fst x"
  obtain rs a now where x: "x = (rs, a, now)" by (cases x) auto
  show "result_cursors d' g = result_cursors d g"
    using append_result_effect [OF wf app [unfolded x]] \<open>g \<noteq> fst x\<close> by (auto simp: x)
next
  fix d and x :: "string \<times> project_result_args \<times> time" assume wf: "coord_wf d"
  obtain rs a now where x: "x = (rs, a, now)" by (cases x) auto
  have "snd (append_result digest x d) \<in> {d, snd (append_session_project_result digest a now d)}"
    by (auto simp: x append_result_def split: prod.splits sum.splits)
  then show "coord_wf (snd (append_result digest x d))"
    using wf evolve_append [OF wf, of digest a now] by (auto simp: coord_evolves_def)
qed

section \<open>Properties\<close>

text \<open>C12: A version of a project result is stored once. After it has been accepted, whatever
  messages are added, updated, acknowledged, replayed or appended, a second append of the same
  version changes nothing; if it is not refused it returns the stored text, and with another digest
  it is refused.\<close>

theorem result_version_stored_once:
  assumes "coord_wf d" and "append_session_project_result digest a now d = (Inr m, d1)"
    and "list_all (coord_legal \<circ> fst) xs"
    and "ga_request b = ga_request a" and "ga_version b = ga_version a"
    and "append_session_project_result digest b later (coord_run digest xs d1) = (res, d2)"
  shows "d2 = coord_run digest xs d1 \<and>
    (\<forall>m'. res = Inr m' \<longrightarrow> cm_id m' = cm_id m \<and> cm_content m' = cm_content m \<and>
       result_digest digest b = result_digest digest a)"
proof -
  have key: "result_identity b = result_identity a" using assms(4,5) by (simp add: result_identity_def)
  have e1: "coord_evolves d d1" using evolve_append [OF assms(1), of digest a now] assms(2) by simp
  then have wf1: "coord_wf d1" by (simp add: coord_evolves_def)
  have stored: "\<exists>r. sel_by cm_key (result_identity a) (db_coordination d1) = Some r \<and> cm_id r = cm_id m \<and>
      cm_content r = cm_content m \<and> dget (cm_metadata r) ''resultDigest'' = JStr (result_digest digest a)"
    using assms(2)
  proof (cases rule: append_result_cases)
    case (appended parent)
    let ?row = "result_row digest a parent (next_result_cursor (cm_source_session parent) d) (is_newer a parent) now"
    note e = evolve_grown(2) [OF assms(1) appended(1,3-5,7) refl]
    have "sel_by cm_key (result_identity a) (db_coordination d @ [?row]) = Some ?row"
      using appended(3) by (simp add: sel_by_append)
    then show ?thesis using evolves_sel [OF e, of cm_key "result_identity a" ?row] appended(6)
      by (auto simp: row_evolves_def)
  qed (use assms(2) in \<open>auto\<close>)
  then obtain r where r: "sel_by cm_key (result_identity a) (db_coordination d1) = Some r" "cm_id r = cm_id m"
      "cm_content r = cm_content m" "dget (cm_metadata r) ''resultDigest'' = JStr (result_digest digest a)" by blast
  obtain r' where r': "sel_by cm_key (result_identity a) (db_coordination (coord_run digest xs d1)) = Some r'"
      "row_evolves r r'"
    using evolves_sel [OF run_evolves [OF wf1 assms(3)] r(1), of digest] by blast
  from assms(6) show ?thesis
  proof (cases rule: append_result_cases)
    case (again m')
    then show ?thesis using r r' key by (auto simp: row_evolves_def)
  qed (use r' key in auto)
qed


section \<open>Examples\<close>

definition demo_coord :: db where
  "demo_coord = empty_db\<lparr>
     db_runs := [(new_run_row (demo_run ''r2'' ''s2'' []) 1000 0)\<lparr>rn_user := Some ''u''\<rparr>],
     db_assignments := [\<lparr>sa_id = ''a1'', sa_root = ''s1'', sa_child = ''s2'', sa_user = ''u'', sa_revision = 1,
        sa_status = ''active'', sa_updated = 0, sa_revoked = None\<rparr>],
     db_coordination := [blank_message\<lparr>cm_id := ''q1'', cm_source_session := ''s1'', cm_target_session := ''s2'',
        cm_target_run := Some ''r2'', cm_authority := ''project_assignment'', cm_state := ''injected'', cm_key := ''k1'',
        cm_metadata := [(''assignmentId'', JStr ''a1''), (''assignmentRevision'', JInt 1)]\<rparr>]\<rparr>"

definition demo_project_result :: project_result_args where
  "demo_project_result = \<lparr>ga_request = ''q1'', ga_session = ''s2'', ga_run = ''r2'', ga_user = ''u'', ga_version = 1,
     ga_status = ''completed'', ga_content = ''done'', ga_evidence = [], ga_id = ''m1''\<rparr>"

lemma demo_accepted:
  "\<exists>m d1. append_session_project_result (\<lambda>_. ''d'') demo_project_result 2000 demo_coord = (Inr m, d1) \<and> cm_state m = ''queued''"
proof -
  have "case fst (append_session_project_result (\<lambda>_. ''d'') demo_project_result 2000 demo_coord) of
      Inl _ \<Rightarrow> False | Inr m \<Rightarrow> cm_state m = ''queued''" by code_simp
  then show ?thesis
    by (cases "append_session_project_result (\<lambda>_. ''d'') demo_project_result 2000 demo_coord") (auto split: sum.splits)
qed

lemma demo_coord_wf: "coord_wf demo_coord"
  by (simp add: coord_wf_def keyed_def demo_coord_def)

lemma demo_new: "sel_by cm_key (result_identity demo_project_result) (db_coordination demo_coord) = None"
  by code_simp

theorem result_version_stored_once_witness:
  "snd (append_session_project_result (\<lambda>_. ''d'') demo_project_result 3000
      (snd (append_session_project_result (\<lambda>_. ''d'') demo_project_result 2000 demo_coord))) =
   snd (append_session_project_result (\<lambda>_. ''d'') demo_project_result 2000 demo_coord)"
proof -
  obtain m d1 where a: "append_session_project_result (\<lambda>_. ''d'') demo_project_result 2000 demo_coord = (Inr m, d1)"
    using demo_accepted by blast
  obtain res d2 where b: "append_session_project_result (\<lambda>_. ''d'') demo_project_result 3000
      (coord_run (\<lambda>_. ''d'') [] d1) = (res, d2)" by (metis surj_pair)
  from result_version_stored_once [OF demo_coord_wf a _ refl refl b] a b show ?thesis by simp
qed


text \<open>The cursors a root session is given never repeat.\<close>

lemma result_cursors_never_repeat:
  assumes "coord_wf d" and "sorted_wrt (<) (result_cursors d rs)"
  shows "distinct (result_cursors d rs @ handed_out (append_result digest) fst rs as d)"
  by (rule cursors.handed_out_distinct [OF assms])

end
