(* ===== verification/CoordinationService.thy ===== *)
theory CoordinationService
  imports Coordination RunControl
begin

text \<open>
  Delivering coordination messages between sessions (erc/session_coordination_service.py over the
  operations of Coordination, RunControl and SessionWaits): dispatch to a running supervisor by a
  control signal or to an idle one by a new run, the marks a delivery leaves, cancellation, the end
  of a run, recovery after a restart and the deletion of a session.

  The mirror of a transition into the two conversations (\<^verbatim>\<open>_emit_transition\<close>) is
  recorded as the list of transitions it is called with. The owners of sessions, the check of a
  project assignment, the scheduler's answer and the identifiers of fresh runs are arguments. A
  dispatch holds the dispatch lock; each of its transactions sees the state the previous one left.
  Messages are named by identifiers without surrounding blanks.
\<close>

section \<open>State and environment\<close>

record coord_state =
  cs_db :: db
  cs_emitted :: "(coordination_rec \<times> string) list"

datatype scheduling = Scheduled | Unavailable | Failed string string

record bound_assignment =
  ba_id :: string
  ba_revision :: int
  ba_child :: string

text \<open>\<open>de_owner_of\<close>: the user of a session, none if it is deleted; \<open>de_assignment\<close>: the error
  of the check, or the assignment a message carries.\<close>

record dispatch_env =
  de_owner_of :: "string \<Rightarrow> string option"
  de_assignment :: "coordination_rec \<Rightarrow> string + bound_assignment option"
  de_schedule :: "coordination_rec \<Rightarrow> scheduling"
  de_run :: "string \<Rightarrow> string"
  de_process :: string
  de_digest :: "json \<Rightarrow> string"

definition pending_states :: "string list" where
  "pending_states = [''awaiting_authorization'', ''queued'', ''promoted'', ''injected'']"

definition terminal_states :: "string list" where
  "terminal_states = [''replied'', ''cancelled'', ''blocked'', ''failed'', ''expired'']"

definition waiting_run_states :: "string list" where
  "waiting_run_states = [''queued'', ''waiting_input'', ''waiting_approval'', ''waiting_external_tool'', ''paused'']"

definition local_owner_ids :: "string list" where
  "local_owner_ids = [[], ''anonymous'', ''local'', ''local_trusted'', ''admin_ui'']"

definition owner_error :: "string \<Rightarrow> string \<Rightarrow> string" where
  "owner_error source target =
     (if source \<noteq> [] \<and> target \<noteq> [] \<and> source \<noteq> target then ''session_coordination_unauthorized''
      else if target \<noteq> [] \<and> source = [] \<and> target \<notin> set local_owner_ids
      then ''session_coordination_owner_unknown''
      else if source \<noteq> [] \<and> target = [] \<and> source \<notin> set local_owner_ids
      then ''session_coordination_target_owner_unknown''
      else [])"

definition is_expired :: "coordination_rec \<Rightarrow> time \<Rightarrow> bool" where
  "is_expired m now = (case cm_expires m of None \<Rightarrow> False | Some t \<Rightarrow> t \<le> now)"

definition active_lane_run :: "string \<Rightarrow> db \<Rightarrow> string" where
  "active_lane_run s d = (case sel_by ln_session s (db_lanes d) of None \<Rightarrow> []
     | Some l \<Rightarrow> norm_text (ln_active l))"

section \<open>Updates and their mirror\<close>

text \<open>\<^verbatim>\<open>db.update_session_coordination_message(...) or row\<close>\<close>

definition row_or_old :: "coordination_rec \<Rightarrow> message_update \<Rightarrow> time \<Rightarrow> db \<Rightarrow> coordination_rec \<times> db" where
  "row_or_old row u now d =
     (case update_session_coordination_message (cm_id row) u now d d of
        (Inr (Some m), d') \<Rightarrow> (m, d') | (_, d') \<Rightarrow> (row, d'))"

definition write_row :: "coordination_rec \<Rightarrow> message_update \<Rightarrow> time \<Rightarrow> coord_state \<Rightarrow> coordination_rec \<times> coord_state" where
  "write_row row u now s = (case row_or_old row u now (cs_db s) of (m, d') \<Rightarrow> (m, s\<lparr>cs_db := d'\<rparr>))"

definition emit_transition :: "coordination_rec \<Rightarrow> string \<Rightarrow> coord_state \<Rightarrow> coord_state" where
  "emit_transition m topic s = s\<lparr>cs_emitted := cs_emitted s @ [(m, topic)]\<rparr>"

definition announce ::
  "coordination_rec \<Rightarrow> message_update \<Rightarrow> string \<Rightarrow> time \<Rightarrow> coord_state \<Rightarrow> coordination_rec \<times> coord_state" where
  "announce row u topic now s = (case write_row row u now s of (m, s') \<Rightarrow> (m, emit_transition m topic s'))"

definition to_state :: "string \<Rightarrow> message_update" where
  "to_state st = no_message_update\<lparr>mu_state := Some st\<rparr>"

definition to_error :: "string \<Rightarrow> string \<Rightarrow> message_update" where
  "to_error st err = (to_state st)\<lparr>mu_error := Some err\<rparr>"

definition to_queue :: message_update where
  "to_queue = (to_state ''queued'')\<lparr>mu_clear_run := True\<rparr>"

definition hold_stopped_project_result ::
  "coordination_rec \<Rightarrow> time \<Rightarrow> coord_state \<Rightarrow> coordination_rec option \<times> coord_state" where
  "hold_stopped_project_result row now s =
     (if cm_authority row \<noteq> ''project_result'' then (None, s)
      else
        let err = session_project_result_delivery_error (cs_db s) (cm_id row)
        in if err = [] then (None, s)
           else if err = ''project_result_source_paused'' then (Some row, s)
           else case announce row ((to_error ''blocked'' err)\<lparr>mu_metadata := [(''deliveryReplayRequired'', JBool False)]\<rparr>)
                       ''session_coordination.blocked'' now s of (m, s') \<Rightarrow> (Some m, s'))"

section \<open>Binding a run to an assignment\<close>

definition bind_run :: "dispatch_env \<Rightarrow> coordination_rec \<Rightarrow> string \<Rightarrow> db \<Rightarrow> (string + unit) \<times> db" where
  "bind_run v m run d =
     (case de_assignment v m of
        Inl err \<Rightarrow> (Inl err, d)
      | Inr None \<Rightarrow> (Inr (), d)
      | Inr (Some a) \<Rightarrow>
          (case run_of run d of
             None \<Rightarrow> (Inl ''assignment_run_scope_mismatch'', d)
           | Some r \<Rightarrow>
               let previous = as_dict (dget (rn_metadata r) ''sessionAssignment'')
               in if rn_session r \<noteq> ba_child a \<or> rn_user r \<noteq> cm_source_user m
                  then (Inl ''assignment_run_scope_mismatch'', d)
                  else if rn_status r \<notin> {''running'', ''queued''} \<or> cm_target_run m \<noteq> Some run
                  then (Inl ''assignment_run_not_active'', d)
                  else if truthy (dget previous ''cancelRequested'')
                  then (Inl ''assignment_cancellation_requested'', d)
                  else case update_run_metadata_key_if_state run ''sessionAssignment''
                              (as_text (dget previous ''state''))
                              [(''state'', JStr ''active''), (''assignmentId'', JStr (ba_id a)),
                               (''revision'', JInt (ba_revision a)), (''messageId'', JStr (cm_id m))]
                              (Some (rn_status r)) None (Some previous) d of
                    (Inr (Updated r' st), d') \<Rightarrow> (Inr (), d')
                  | (_, d') \<Rightarrow> (Inl ''assignment_run_binding_conflict'', d')))"

section \<open>Waking an idle session\<close>

datatype wake_plan = KeepWaiting db | WakeParked string json coordination_rec db | WakeNew string db

definition coordination_run :: "coordination_rec \<Rightarrow> string \<Rightarrow> string \<Rightarrow> run_args" where
  "coordination_run row run user =
     \<lparr>ra_id = run, ra_session = cm_target_session row, ra_conversation = Some (cm_target_session row),
      ra_thread = None, ra_user = Some (or_text user ''anonymous''), ra_type = ''chat'', ra_status = ''queued'',
      ra_trigger = Some ''session_coordination'', ra_agent = None, ra_workflow = None, ra_channel = None,
      ra_metadata = [(''source'', JStr ''session_coordination_messages''),
        (''coordinationMessageId'', JStr (cm_id row)), (''coordinationThreadId'', JStr (cm_thread row))]\<rparr>"

definition run_wait :: "run_rec \<Rightarrow> dict" where
  "run_wait r = as_dict (dget (rn_metadata r) ''sessionResultWait'')"

definition parked_wait :: "dict \<Rightarrow> bool" where
  "parked_wait w \<longleftrightarrow> as_text (dget w ''state'') \<in> {''waiting'', ''scheduled''}"

definition plan_wake :: "dispatch_env \<Rightarrow> coordination_rec \<Rightarrow> string \<Rightarrow> time \<Rightarrow> db \<Rightarrow> wake_plan" where
  "plan_wake v row user now d =
     (let new = WakeNew (de_run v (cm_id row))
            (snd (create_run_record (coordination_run row (de_run v (cm_id row)) user) now d))
      in if cm_authority row \<noteq> ''project_result'' then new
         else case latest_run d (cm_target_session row) of
           None \<Rightarrow> new
         | Some r \<Rightarrow>
             if \<not> parked_wait (run_wait r) then new
             else case claim_session_result_wait (de_digest v) (rn_id r) (de_process v) d of
               (None, d') \<Rightarrow> KeepWaiting d'
             | (Some (generation, m), d') \<Rightarrow> WakeParked (rn_id r) generation m d')"

text \<open>The generation of the claimed wait, none for a new run.\<close>

definition delivery_mark :: "dispatch_env \<Rightarrow> coordination_rec \<Rightarrow> string \<Rightarrow> json option \<Rightarrow> message_update" where
  "delivery_mark v row run generation =
     (to_state ''promoted'')\<lparr>mu_run := Some run, mu_stamp := Some ''promoted_at'',
       mu_metadata := (if cm_authority row = ''project_result''
         then (''deliveryOwner'', JStr (de_process v)) #
              (case generation of None \<Rightarrow> [] | Some g \<Rightarrow> [(''waitGeneration'', g)])
         else [])\<rparr>"

definition start_delivery :: "dispatch_env \<Rightarrow> coordination_rec \<Rightarrow> coordination_rec \<Rightarrow> string \<Rightarrow> db \<Rightarrow> scheduling \<times> db" where
  "start_delivery v row m run d =
     (if cm_authority row \<noteq> ''project_assignment'' then (de_schedule v m, d)
      else case bind_run v m run d of
        (Inl err, d') \<Rightarrow> (Failed ''ValueError'' err, d')
      | (Inr _, d') \<Rightarrow> (de_schedule v m, d'))"

definition not_scheduled ::
  "coordination_rec \<Rightarrow> string \<Rightarrow> json option \<Rightarrow> time \<Rightarrow> coord_state \<Rightarrow> coordination_rec \<times> coord_state" where
  "not_scheduled m run generation now s =
     (let back = announce m (to_queue\<lparr>mu_error := Some ''wake_schedule_unavailable''\<rparr>) ''session_coordination.queued'' now
      in case generation of
        None \<Rightarrow> back s
      | Some g \<Rightarrow>
          (case restore_session_result_wait run (as_text g) (cm_id m) (cs_db s) of
             (False, d') \<Rightarrow> ((case get_session_coordination_message (cm_id m) d' of None \<Rightarrow> m | Some x \<Rightarrow> x), s\<lparr>cs_db := d'\<rparr>)
           | (True, d') \<Rightarrow> back (s\<lparr>cs_db := d'\<rparr>)))"

definition fail_new_run :: "string \<Rightarrow> json option \<Rightarrow> string \<Rightarrow> string \<Rightarrow> time \<Rightarrow> coord_state \<Rightarrow> coord_state" where
  "fail_new_run run generation status err now s =
     (if generation = None then s\<lparr>cs_db := update_run_record run status (Some err) [] now (cs_db s)\<rparr> else s)"

definition deliver_to_run ::
  "dispatch_env \<Rightarrow> coordination_rec \<Rightarrow> string \<Rightarrow> json option \<Rightarrow> time \<Rightarrow> coord_state \<Rightarrow> coordination_rec \<times> coord_state" where
  "deliver_to_run v row run generation now s =
     (case write_row row (delivery_mark v row run generation) now s of
        (m, s1) \<Rightarrow>
          if cm_state m \<noteq> ''promoted''
          then let s2 = fail_new_run run generation ''cancelled'' ''project_result_delivery_stopped_before_schedule'' now s1
               in (m, if cm_state m = ''blocked'' then emit_transition m ''session_coordination.blocked'' s2 else s2)
          else case start_delivery v row m run (cs_db s1) of
            (Scheduled, d2) \<Rightarrow> (m, emit_transition m ''session_coordination.promoted'' (s1\<lparr>cs_db := d2\<rparr>))
          | (Unavailable, d2) \<Rightarrow> not_scheduled m run generation now (s1\<lparr>cs_db := d2\<rparr>)
          | (Failed kind why, d2) \<Rightarrow>
              let s3 = fail_new_run run generation ''failed''
                    (''session_coordination_schedule_failed: '' @ kind @ '': '' @ why) now (s1\<lparr>cs_db := d2\<rparr>)
              in if kind = ''ValueError'' \<and> starts_with ''assignment_'' why
                 then announce m (to_error ''blocked'' why) ''session_coordination.blocked'' now s3
                 else not_scheduled m run generation now s3)"

definition wake_idle_target ::
  "dispatch_env \<Rightarrow> coordination_rec \<Rightarrow> string \<Rightarrow> time \<Rightarrow> coord_state \<Rightarrow> coordination_rec \<times> coord_state" where
  "wake_idle_target v row user now s =
     (case hold_stopped_project_result row now s of
        (Some m, s') \<Rightarrow> (m, s')
      | (None, s') \<Rightarrow>
          (case plan_wake v row user now (cs_db s') of
             KeepWaiting d' \<Rightarrow> (row, s'\<lparr>cs_db := d'\<rparr>)
           | WakeParked run generation m d' \<Rightarrow> deliver_to_run v m run (Some generation) now (s'\<lparr>cs_db := d'\<rparr>)
           | WakeNew run d' \<Rightarrow> deliver_to_run v row run None now (s'\<lparr>cs_db := d'\<rparr>)))"

section \<open>Dispatch\<close>

text \<open>What stands against a delivery before the lane of the target is looked at.\<close>

definition delivery_refusal :: "dispatch_env \<Rightarrow> coordination_rec \<Rightarrow> time \<Rightarrow> (string \<times> string \<times> string) option" where
  "delivery_refusal v row now =
     (if is_expired row now then Some (''expired'', ''delivery_expired'', ''session_coordination.expired'')
      else case de_owner_of v (cm_target_session row) of
        None \<Rightarrow> Some (''blocked'', ''target_session_deleted'', ''session_coordination.blocked'')
      | Some user \<Rightarrow>
          if owner_error (norm_text (cm_source_user row)) (py_strip user) \<noteq> []
          then Some (''blocked'', ''delivery_owner_changed'', ''session_coordination.blocked'')
          else case de_assignment v row of
            Inl err \<Rightarrow> Some (''blocked'', err, ''session_coordination.blocked'')
          | Inr _ \<Rightarrow> None)"

datatype route = StayQueued | Wake | Signal string | BackToQueue

definition same_signal :: "dict \<Rightarrow> string \<Rightarrow> bool" where
  "same_signal sig message \<longleftrightarrow> dget sig ''command'' = JStr ''session_coordination''
     \<and> dget (as_dict (dget sig ''payload'')) ''messageId'' = JStr message"

text \<open>Where a message goes that may be delivered.\<close>

definition cancel_requested :: "dict \<Rightarrow> bool" where
  "cancel_requested meta = truthy (dget (as_dict (dget meta ''sessionAssignment'')) ''cancelRequested'')"

definition route_on_lane :: "coordination_rec \<Rightarrow> string \<Rightarrow> string \<Rightarrow> db \<Rightarrow> route" where
  "route_on_lane row active latest_status d =
     (let status = (case run_of active d of None \<Rightarrow> [] | Some r \<Rightarrow> py_lower (py_strip (rn_status r)))
      in if active = [] \<and> latest_status \<in> set waiting_run_states then StayQueued
         else if active \<noteq> [] \<and> status = ''running''
         then (case get_control_signal active d of
                 None \<Rightarrow> Signal active
               | Some sig \<Rightarrow>
                   if sig = [] then Signal active
                   else if same_signal sig (cm_id row) then StayQueued
                   else if cm_state row = ''promoted'' then BackToQueue else StayQueued)
         else if active \<noteq> [] \<and> status \<in> set waiting_run_states
         then (if cm_state row = ''promoted'' then BackToQueue else StayQueued)
         else Wake)"

definition route_of :: "coordination_rec \<Rightarrow> db \<Rightarrow> route" where
  "route_of row d =
     (let active = active_lane_run (cm_target_session row) d;
          last_run = latest_run d (cm_target_session row);
          status = (case last_run of None \<Rightarrow> [] | Some r \<Rightarrow> rn_status r);
          meta = (case last_run of None \<Rightarrow> [] | Some r \<Rightarrow> rn_metadata r)
      in if cancel_requested meta \<and> status \<in> insert ''running'' (set waiting_run_states)
         then StayQueued
         else if cm_authority row = ''project_result'' \<and> parked_wait (as_dict (dget meta ''sessionResultWait''))
                 \<and> \<not> truthy (dget meta ''resume_reason'') \<and> (active \<noteq> [] \<or> status = ''running'')
         then StayQueued
         else if cm_authority row = ''project_result'' \<and> parked_wait (as_dict (dget meta ''sessionResultWait''))
                 \<and> \<not> truthy (dget meta ''resume_reason'') \<and> status = ''paused''
         then Wake
         else route_on_lane row active status d)"

definition signal_run :: "coordination_rec \<Rightarrow> string \<Rightarrow> time \<Rightarrow> coord_state \<Rightarrow> coordination_rec \<times> coord_state" where
  "signal_run row run now s =
     (case write_row row ((to_state ''promoted'')\<lparr>mu_run := Some run, mu_stamp := Some ''promoted_at''\<rparr>) now s of
        (m, s1) \<Rightarrow>
          if cm_state m \<noteq> ''promoted''
          then (m, if cm_state m = ''blocked'' then emit_transition m ''session_coordination.blocked'' s1 else s1)
          else (m, emit_transition m ''session_coordination.promoted''
                 (s1\<lparr>cs_db := snd (issue_control_signal run ''session_coordination''
                        (Some ''cross_session_supervisor_message'') [(''messageId'', JStr (cm_id row))] (cs_db s1))\<rparr>)))"

definition follow_route ::
  "dispatch_env \<Rightarrow> coordination_rec \<Rightarrow> route \<Rightarrow> time \<Rightarrow> coord_state \<Rightarrow> coordination_rec \<times> coord_state" where
  "follow_route v row rt now s =
     (case rt of
        StayQueued \<Rightarrow> (row, s)
      | BackToQueue \<Rightarrow> write_row row to_queue now s
      | Signal run \<Rightarrow> signal_run row run now s
      | Wake \<Rightarrow> wake_idle_target v row (case de_owner_of v (cm_target_session row) of None \<Rightarrow> [] | Some u \<Rightarrow> u) now s)"

definition dispatch_message ::
  "dispatch_env \<Rightarrow> string \<Rightarrow> time \<Rightarrow> coord_state \<Rightarrow> coordination_rec option \<times> coord_state" where
  "dispatch_message v message now s =
     (case get_session_coordination_message message (cs_db s) of
        None \<Rightarrow> (None, s)
      | Some row \<Rightarrow>
          if cm_state row \<notin> {''queued'', ''promoted''} then (Some row, s)
          else case hold_stopped_project_result row now s of
            (Some m, s') \<Rightarrow> (Some m, s')
          | (None, s') \<Rightarrow>
              if cm_authority row = ''project_result'' \<and> truthy (dget (cm_metadata row) ''superseded'')
              then (case write_row row (to_state ''replied'') now s' of (m, s2) \<Rightarrow> (Some m, s2))
              else case delivery_refusal v row now of
                Some (st, err, topic) \<Rightarrow> (case announce row (to_error st err) topic now s' of (m, s2) \<Rightarrow> (Some m, s2))
              | None \<Rightarrow> (case follow_route v row (route_of row (cs_db s')) now s' of (m, s2) \<Rightarrow> (Some m, s2)))"

definition dispatch_for_session ::
  "dispatch_env \<Rightarrow> string \<Rightarrow> time \<Rightarrow> coord_state \<Rightarrow> coordination_rec option \<times> coord_state" where
  "dispatch_for_session v session now s =
     (let rows = list_session_coordination_messages None (Some session) None None [''promoted'', ''queued''] False 20 (cs_db s)
      in case rows of
           [] \<Rightarrow> (None, s)
         | row # _ \<Rightarrow> dispatch_message v
             (cm_id (case find (\<lambda>m. cm_state m = ''promoted'') rows of None \<Rightarrow> row | Some m \<Rightarrow> m)) now s)"

section \<open>Marks, cancellation, expiry\<close>

definition mark_injected ::
  "dispatch_env \<Rightarrow> string \<Rightarrow> string \<Rightarrow> time \<Rightarrow> coord_state \<Rightarrow> (string + coordination_rec option) \<times> coord_state" where
  "mark_injected v message run now s =
     (case get_session_coordination_message message (cs_db s) of
        None \<Rightarrow> (Inr None, s)
      | Some row \<Rightarrow>
          if cm_state row \<in> set terminal_states then (Inr (Some row), s)
          else case (if cm_authority row = ''project_assignment'' then bind_run v row run (cs_db s) else (Inr (), cs_db s)) of
            (Inl err, d) \<Rightarrow> (Inl err, s\<lparr>cs_db := d\<rparr>)
          | (Inr _, d) \<Rightarrow>
              (case write_row row ((to_error ''injected'' [])\<lparr>mu_run := Some run, mu_stamp := Some ''injected_at''\<rparr>)
                      now (s\<lparr>cs_db := d\<rparr>) of
                 (m, s') \<Rightarrow> (Inr (Some m),
                    if cm_state m = ''injected'' then emit_transition m ''session_coordination.injected'' s'
                    else if cm_state m = ''blocked'' then emit_transition m ''session_coordination.blocked'' s'
                    else s')))"

text \<open>Error codes are short texts without carriage returns; longer ones are cut.\<close>

definition compact_code :: "string \<Rightarrow> string" where
  "compact_code t = (let u = py_strip t in if 160 < length u then py_rstrip (take 157 u) @ ''...'' else u)"

definition mark_failed ::
  "string \<Rightarrow> string \<Rightarrow> dict \<Rightarrow> time \<Rightarrow> coord_state \<Rightarrow> coordination_rec option \<times> coord_state" where
  "mark_failed message err meta now s =
     (case get_session_coordination_message message (cs_db s) of
        None \<Rightarrow> (None, s)
      | Some row \<Rightarrow>
          if cm_state row \<in> set terminal_states then (Some row, s)
          else case announce row ((to_error ''failed'' (or_text (compact_code err) ''session_coordination_failed''))
                       \<lparr>mu_metadata := meta\<rparr>) ''session_coordination.failed'' now s of
                 (m, s') \<Rightarrow> (Some m, s'))"

datatype cancel_answer = CancelNotFound | CancelNotAllowed | CancelDone coordination_rec

definition cancel_message ::
  "dispatch_env \<Rightarrow> string \<Rightarrow> string \<Rightarrow> string \<Rightarrow> time \<Rightarrow> coord_state \<Rightarrow> cancel_answer \<times> coord_state" where
  "cancel_message v session user message now s =
     (case get_session_coordination_message message (cs_db s) of
        None \<Rightarrow> (CancelNotFound, s)
      | Some row \<Rightarrow>
          if cm_source_session row \<noteq> session
             \<or> cm_state row \<notin> {''awaiting_authorization'', ''queued'', ''promoted''}
             \<or> (case de_owner_of v session of None \<Rightarrow> False | Some o' \<Rightarrow> owner_error user o' \<noteq> [])
          then (CancelNotAllowed, s)
          else
            let run = (case cm_target_run row of None \<Rightarrow> [] | Some r \<Rightarrow> r);
                d = (case get_control_signal run (cs_db s) of None \<Rightarrow> cs_db s
                     | Some sig \<Rightarrow> if run \<noteq> [] \<and> dget (as_dict (dget sig ''payload'')) ''messageId'' = JStr message
                                   then clear_control_signal run (Some sig) (cs_db s) (cs_db s) else cs_db s)
            in (case announce row ((to_error ''cancelled'' ''cancelled_by_source'')\<lparr>mu_stamp := Some ''cancelled_at''\<rparr>)
                       ''session_coordination.cancelled'' now (s\<lparr>cs_db := d\<rparr>) of
                  (m, s') \<Rightarrow> (CancelDone m, s')))"

definition expire_row :: "string \<Rightarrow> coordination_rec \<Rightarrow> time \<Rightarrow> coord_state \<Rightarrow> coordination_rec \<times> coord_state" where
  "expire_row err row now s = announce row (to_error ''expired'' err) ''session_coordination.expired'' now s"

definition expire_undelivered_for_target :: "string \<Rightarrow> time \<Rightarrow> coord_state \<Rightarrow> coord_state" where
  "expire_undelivered_for_target target now s =
     fold (\<lambda>row s. snd (expire_row ''delivery_expired'' row now s))
       (filter (\<lambda>m. is_expired m now)
          (list_session_coordination_messages None (Some target) None None
             [''awaiting_authorization'', ''queued'', ''promoted''] False 500 (cs_db s))) s"

definition yield_to_human_guidance :: "string \<Rightarrow> time \<Rightarrow> coord_state \<Rightarrow> coord_state" where
  "yield_to_human_guidance run now s =
     fold (\<lambda>row s. snd (announce row (to_queue\<lparr>mu_metadata := [(''yieldedToHumanGuidance'', JBool True)]\<rparr>)
             ''session_coordination.queued'' now s))
       (list_session_coordination_messages None None None (Some run) [''promoted''] False 4 (cs_db s)) s"

section \<open>The end of a run\<close>

definition status_mark :: "string \<Rightarrow> json" where
  "status_mark status = (if status = [] then JBool True else JStr status)"

definition requeue_promoted ::
  "string \<Rightarrow> time \<Rightarrow> coordination_rec \<Rightarrow> coord_state \<Rightarrow> coord_state" where
  "requeue_promoted status now row s =
     (case hold_stopped_project_result row now s of
        (Some _, s') \<Rightarrow> s'
      | (None, s') \<Rightarrow> snd (announce row (to_queue\<lparr>mu_metadata := [(''requeuedAfterRunTerminal'', status_mark status)]\<rparr>)
                          ''session_coordination.queued'' now s'))"

definition checkpoint_taken :: "string \<Rightarrow> coordination_rec \<Rightarrow> bool" where
  "checkpoint_taken run m \<longleftrightarrow> truthy (dget (cm_metadata m) ''checkpointConsumed'')
     \<and> dget (cm_metadata m) ''checkpointRunId'' = JStr run"

definition terminal_mark :: "string \<Rightarrow> dict" where
  "terminal_mark status = [(''terminalRunStatus'', JStr status)]"

definition settle_injected ::
  "string \<Rightarrow> string \<Rightarrow> time \<Rightarrow> coordination_rec \<Rightarrow> coord_state \<Rightarrow> coord_state" where
  "settle_injected run status now row s =
     (case hold_stopped_project_result row now s of
        (Some _, s') \<Rightarrow> s'
      | (None, s') \<Rightarrow>
          let completed = py_lower status = ''completed''
          in if cm_type row = ''reply''
             then
               if cm_authority row = ''project_result'' \<and> \<not> (completed \<and> checkpoint_taken run row)
               then snd (announce row ((to_error ''failed'' ''project_result_delivery_incomplete'')
                      \<lparr>mu_metadata := (''deliveryReplayRequired'', JBool True) # terminal_mark status\<rparr>)
                      ''session_coordination.failed'' now s')
               else if completed
               then snd (announce row ((to_state ''replied'')\<lparr>mu_stamp := Some ''replied_at'',
                      mu_metadata := terminal_mark status @ [(''replyDelivered'', JBool True)]\<rparr>)
                      ''session_coordination.replied'' now s')
               else snd (mark_failed (cm_id row) (''reply_delivery_run_'' @ py_lower (or_text status ''failed''))
                      (terminal_mark status) now s')
             else if cm_type row \<noteq> ''request'' then s'
             else if get_session_coordination_message_by_idempotency (''coord-reply:'' @ cm_id row) (cs_db s') \<noteq> None
             then s'
             else snd (announce row ((to_error ''failed'' ''reply_contract_not_satisfied'')
                    \<lparr>mu_metadata := terminal_mark status\<rparr>) ''session_coordination.failed'' now s'))"

definition settle_run_end :: "string \<Rightarrow> string \<Rightarrow> time \<Rightarrow> coord_state \<Rightarrow> coord_state" where
  "settle_run_end run status now s =
     (let s1 = fold (requeue_promoted status now)
                 (list_session_coordination_messages None None None (Some run) [''promoted''] False 20 (cs_db s)) s
      in fold (settle_injected run status now)
           (list_session_coordination_messages None None None (Some run) [''injected''] False 20 (cs_db s1)) s1)"

definition on_run_terminal ::
  "dispatch_env \<Rightarrow> string \<Rightarrow> string \<Rightarrow> string \<Rightarrow> time \<Rightarrow> coord_state \<Rightarrow> coord_state" where
  "on_run_terminal v session run status now s =
     snd (dispatch_for_session v session now (settle_run_end run status now s))"

section \<open>Recovery and deletion\<close>

definition orphan_mark :: "string \<Rightarrow> dict" where
  "orphan_mark status = [(''recoveredAfterEngineRestart'', JBool True),
     (''orphanedRunStatus'', JStr (or_text status ''missing''))]"

definition recover_result ::
  "dispatch_env \<Rightarrow> time \<Rightarrow> coordination_rec \<Rightarrow> coord_state \<Rightarrow> coord_state" where
  "recover_result v now row s =
     (case hold_stopped_project_result row now s of
        (Some _, s') \<Rightarrow> s'
      | (None, s') \<Rightarrow>
          if truthy (dget (cm_metadata row) ''superseded'') then snd (write_row row (to_state ''replied'') now s')
          else
            let run = (case cm_target_run row of None \<Rightarrow> [] | Some r \<Rightarrow> r);
                record = (if run = [] then None else run_of run (cs_db s'));
                status = (case record of None \<Rightarrow> [] | Some r \<Rightarrow> rn_status r);
                waits = (status = ''paused'' \<and> (case record of None \<Rightarrow> False
                  | Some r \<Rightarrow> dget (rn_metadata r) ''pause_reason'' = JStr ''session_results_wait''))
            in if status \<in> {''waiting_input'', ''waiting_approval'', ''waiting_external_tool'', ''paused''} \<and> \<not> waits
               then s'
               else if status = ''completed'' \<and> checkpoint_taken run row
               then snd (write_row row ((to_state ''replied'')\<lparr>mu_metadata := [(''replyDelivered'', JBool True)]\<rparr>) now s')
               else case claim_session_project_result_replay (cm_id row) (de_process v) now (cs_db s') of
                 (False, d) \<Rightarrow> s'\<lparr>cs_db := d\<rparr>
               | (True, d) \<Rightarrow> snd (dispatch_message v (cm_id row) now (s'\<lparr>cs_db := d\<rparr>)))"

definition recover_row :: "dispatch_env \<Rightarrow> time \<Rightarrow> coordination_rec \<Rightarrow> coord_state \<Rightarrow> coord_state" where
  "recover_row v now row s =
     (if cm_authority row = ''project_result'' then recover_result v now row s
      else if cm_state row = ''failed'' then s
      else if is_expired row now then snd (expire_row ''delivery_expired'' row now s)
      else if cm_state row = ''awaiting_authorization'' then s
      else if cm_state row = ''injected''
      then
        let run = norm_text (cm_target_run row);
            status = (case run_of run (cs_db s) of None \<Rightarrow> [] | Some r \<Rightarrow> py_lower (py_strip (rn_status r)))
        in if run \<noteq> [] \<and> status \<in> set terminal_statuses
           then on_run_terminal v (py_strip (cm_target_session row)) run status now s
           else snd (mark_failed (cm_id row) ''engine_restart_after_coordination_injection'' (orphan_mark status) now s)
      else snd (dispatch_message v (cm_id row) now s))"

definition recover_pending :: "dispatch_env \<Rightarrow> time \<Rightarrow> coord_state \<Rightarrow> coord_state" where
  "recover_pending v now s =
     fold (recover_row v now) (list_session_coordination_messages None None None None
       [''awaiting_authorization'', ''queued'', ''promoted'', ''injected'', ''failed''] False 500 (cs_db s)) s"

definition delete_row :: "string \<Rightarrow> time \<Rightarrow> coordination_rec \<Rightarrow> coord_state \<Rightarrow> coord_state" where
  "delete_row session now row s =
     (let mark = [(if cm_source_session row = session then ''sourceSessionDeleted'' else ''targetSessionDeleted'', JBool True)]
      in if cm_state row \<in> {''awaiting_authorization'', ''queued'', ''promoted''}
         then snd (announce row ((to_error ''cancelled'' ''session_deleted_before_delivery'')
                \<lparr>mu_metadata := mark, mu_stamp := Some ''cancelled_at''\<rparr>) ''session_coordination.cancelled'' now s)
         else snd (write_row row (no_message_update\<lparr>mu_metadata := mark\<rparr>) now s))"

definition prepare_session_deletion :: "string \<Rightarrow> time \<Rightarrow> coord_state \<Rightarrow> coord_state" where
  "prepare_session_deletion session now s =
     fold (delete_row session now)
       (list_session_coordination_messages (Some session) None None None [] False 500 (cs_db s)) s"

section \<open>Authorisation by the user\<close>

text \<open>\<open>approved\<close>, \<open>rejected\<close>: whether the answer of the user contains a word of approval or of
  rejection; the interaction names the session and the run it was asked in, the draft and its digest.\<close>

record authorization =
  au_interaction :: string
  au_session :: string
  au_run :: string
  au_message :: string
  au_digest :: string
  au_approved :: bool
  au_rejected :: bool

datatype authorization_answer = NotWaiting | DraftExpired | ScopeMismatch | DigestMismatch | NotDecisive
  | Rejected | Approved coordination_rec | AuthorizationFailed coordination_error

definition announce_checked ::
  "coordination_rec \<Rightarrow> message_update \<Rightarrow> string \<Rightarrow> time \<Rightarrow> coord_state \<Rightarrow>
     (coordination_error + coordination_rec) \<times> coord_state" where
  "announce_checked row u topic now s =
     (case update_session_coordination_message (cm_id row) u now (cs_db s) (cs_db s) of
        (Inl err, d) \<Rightarrow> (Inl err, s\<lparr>cs_db := d\<rparr>)
      | (Inr res, d) \<Rightarrow>
          let m = (case res of None \<Rightarrow> row | Some m \<Rightarrow> m) in (Inr m, emit_transition m topic (s\<lparr>cs_db := d\<rparr>)))"

definition handle_ask_user_resolution ::
  "dispatch_env \<Rightarrow> authorization \<Rightarrow> time \<Rightarrow> coord_state \<Rightarrow> authorization_answer \<times> coord_state" where
  "handle_ask_user_resolution v a now s =
     (case get_session_coordination_message (au_message a) (cs_db s) of
        None \<Rightarrow> (NotWaiting, s)
      | Some row \<Rightarrow>
          if cm_state row \<noteq> ''awaiting_authorization'' then (NotWaiting, s)
          else if is_expired row now then (DraftExpired, snd (expire_row ''authorization_expired'' row now s))
          else if py_strip (au_session a) \<noteq> cm_source_session row
                  \<or> py_strip (au_run a) \<noteq> (case cm_source_run row of None \<Rightarrow> [] | Some r \<Rightarrow> r)
          then (ScopeMismatch, snd (announce row (to_error ''blocked'' ''authorization_scope_mismatch'')
                  ''session_coordination.blocked'' now s))
          else if as_text (dget (cm_metadata row) ''messageDigest'') \<noteq> []
                  \<and> as_text (dget (cm_metadata row) ''messageDigest'') \<noteq> au_digest a
          then (DigestMismatch, snd (announce row (to_error ''blocked'' ''authorization_digest_mismatch'')
                  ''session_coordination.blocked'' now s))
          else if \<not> au_approved a \<and> \<not> au_rejected a then (NotDecisive, s)
          else if au_rejected a
          then (case announce_checked row ((to_error ''cancelled'' ''authorization_rejected'')
                       \<lparr>mu_interaction := or_none (au_interaction a), mu_stamp := Some ''cancelled_at''\<rparr>)
                       ''session_coordination.cancelled'' now s of
                  (Inl err, s') \<Rightarrow> (AuthorizationFailed err, s') | (Inr m, s') \<Rightarrow> (Rejected, s'))
          else (case announce_checked row ((to_error ''queued'' [])
                       \<lparr>mu_authority := Some ''ask_user_approved'', mu_interaction := or_none (au_interaction a),
                        mu_stamp := Some ''authorized_at''\<rparr>) ''session_coordination.queued'' now s of
                  (Inl err, s') \<Rightarrow> (AuthorizationFailed err, s')
                | (Inr m, s') \<Rightarrow>
                    (case dispatch_message v (au_message a) now s' of
                       (None, s2) \<Rightarrow> (Approved m, s2) | (Some m', s2) \<Rightarrow> (Approved m', s2))))"

section \<open>A dispatch displaces no control signal\<close>

definition signals_kept :: "db \<Rightarrow> db \<Rightarrow> bool" where
  "signals_kept d d' \<longleftrightarrow> (\<forall>run sig. get_control_signal run d = Some sig \<and> sig \<noteq> [] \<longrightarrow> get_control_signal run d' = Some sig)"

lemma signals_refl [simp]: "signals_kept d d"
  by (simp add: signals_kept_def)

lemma signals_trans: "signals_kept a b \<Longrightarrow> signals_kept b c \<Longrightarrow> signals_kept a c"
  by (simp add: signals_kept_def)

lemma signals_same_runs: "db_runs d' = db_runs d \<Longrightarrow> signals_kept d d'"
  by (simp add: signals_kept_def get_control_signal_def)

lemma signals_metadata:
  assumes "run_of run d = Some r" and "k \<noteq> ''control_signal''"
  shows "signals_kept d (set_run_metadata run (dset k v (rn_metadata r)) d)"
    and "signals_kept d (set_run_state run st (dset k v (rn_metadata r)) d)"
  using assms by (auto simp: signals_kept_def get_control_signal_def set_run_metadata_def set_run_state_def
      sel_upd_key0 split: option.splits if_splits)

lemma signals_new_run: "run_of (ra_id a) d = None \<Longrightarrow> signals_kept d (snd (create_run_record a now d))"
  by (auto simp: signals_kept_def get_control_signal_def create_run_record_def sel_by_append split: option.splits)

lemma signals_status: "signals_kept d (update_run_record run st err [] now d)"
  by (auto simp: signals_kept_def get_control_signal_def update_run_sel run_status_row_def Let_def
      split: option.splits if_splits)

lemma signals_issue:
  assumes "get_control_signal run d = None \<or> get_control_signal run d = Some []"
  shows "signals_kept d (snd (issue_control_signal run c reason p d))"
proof -
  have "snd (issue_control_signal run c reason p d) = snd (set_control_signal run c reason p d)"
    by (simp add: issue_control_signal_def split: prod.split option.split)
  moreover have "snd (set_control_signal run c reason p d) = d \<or>
      (\<exists>meta. snd (set_control_signal run c reason p d) = set_run_metadata run meta d)"
    by (auto simp: set_control_signal_def update_run_metadata_key_if_state_def Let_def split: option.split)
  moreover have "signals_kept d (set_run_metadata run meta d)" for meta
    using assms by (auto simp: signals_kept_def get_control_signal_def set_run_metadata_sel split: if_splits)
  ultimately show ?thesis by auto
qed

lemma row_or_old_runs: "db_runs (snd (row_or_old row u now d)) = db_runs d"
  by (auto simp: row_or_old_def update_session_coordination_message_def Let_def split: option.splits sum.splits prod.splits)

lemma write_row_runs [simp]: "db_runs (cs_db (snd (write_row row u now s))) = db_runs (cs_db s)"
  using row_or_old_runs [of row u now "cs_db s"] by (auto simp: write_row_def split: prod.splits)

lemma announce_runs [simp]: "db_runs (cs_db (snd (announce row u topic now s))) = db_runs (cs_db s)"
  by (simp add: announce_def emit_transition_def split_def)

lemma emit_transition_db [simp]: "cs_db (emit_transition m topic s) = cs_db s"
  by (simp add: emit_transition_def)

lemma hold_runs [simp]: "db_runs (cs_db (snd (hold_stopped_project_result row now s))) = db_runs (cs_db s)"
  using announce_runs by (auto simp: hold_stopped_project_result_def Let_def split_def)

lemma marker_update_signals:
  assumes "key \<noteq> ''control_signal''" and "py_strip key = key"
  shows "signals_kept d (snd (update_run_metadata_key_if_state run key st next status g value d))"
proof (cases "run_of run d")
  case None
  then show ?thesis by (simp add: update_run_metadata_key_if_state_def Let_def)
next
  case (Some r)
  have "snd (update_run_metadata_key_if_state run key st next status g value d) = d \<or>
      snd (update_run_metadata_key_if_state run key st next status g value d) =
        set_run_metadata run (dset key (JObj next) (rn_metadata r)) d"
    using assms(2) Some by (simp add: update_run_metadata_key_if_state_def Let_def)
  then show ?thesis using signals_metadata(1) [OF Some assms(1)] by auto
qed

lemma assignment_key: "''sessionAssignment'' \<noteq> ''control_signal''" "py_strip ''sessionAssignment'' = ''sessionAssignment''"
  by code_simp+

lemma bind_signals: "signals_kept d (snd (bind_run v m run d))"
  using marker_update_signals [OF assignment_key]
  by (simp add: bind_run_def Let_def split_def split: sum.split option.split cas_result.split)

lemma claim_wait_signals: "signals_kept d (snd (claim_session_result_wait digest run owner d))"
proof (cases "run_of run d")
  case None
  then show ?thesis by (simp add: claim_session_result_wait_def)
next
  case (Some r)
  have "snd (claim_session_result_wait digest run owner d) = d \<or>
      (\<exists>x. snd (claim_session_result_wait digest run owner d) = set_run_metadata run (dset ''sessionResultWait'' x (rn_metadata r)) d) \<or>
      (\<exists>st x. snd (claim_session_result_wait digest run owner d) = set_run_state run st (dset ''sessionResultWait'' x (rn_metadata r)) d)"
    unfolding claim_session_result_wait_def Some option.case Let_def by (simp; blast)
  then show ?thesis using signals_metadata [OF Some, of "''sessionResultWait''"] by auto
qed

lemma restore_wait_signals: "signals_kept d (snd (restore_session_result_wait run generation m d))"
proof (cases "run_of run d")
  case None
  then show ?thesis by (simp add: restore_session_result_wait_def)
next
  case (Some r)
  then show ?thesis using signals_metadata(1) [OF Some, of "''sessionResultWait''"]
    by (simp add: restore_session_result_wait_def Let_def)
qed

lemma start_delivery_signals: "signals_kept d (snd (start_delivery v row m run d))"
  using bind_signals [of d v m run] by (simp add: start_delivery_def split_def split: sum.split)

lemma fail_new_run_signals: "signals_kept (cs_db s) (cs_db (fail_new_run run g st err now s))"
  by (simp add: fail_new_run_def signals_status)

lemma signals_write: "signals_kept d (cs_db s) \<Longrightarrow> signals_kept d (cs_db (snd (write_row row u now s)))"
  by (rule signals_trans [OF _ signals_same_runs]) simp_all

lemma signals_announce: "signals_kept d (cs_db s) \<Longrightarrow> signals_kept d (cs_db (snd (announce row u topic now s)))"
  by (rule signals_trans [OF _ signals_same_runs]) simp_all

lemma not_scheduled_signals:
  assumes "signals_kept d (cs_db s)"
  shows "signals_kept d (cs_db (snd (not_scheduled m run g now s)))"
proof (cases g)
  case None
  then show ?thesis using assms by (simp add: not_scheduled_def Let_def signals_announce)
next
  case (Some x)
  obtain ok d' where r: "restore_session_result_wait run (as_text x) (cm_id m) (cs_db s) = (ok, d')" by (metis surj_pair)
  have "signals_kept d d'" using signals_trans [OF assms restore_wait_signals, of run "as_text x" "cm_id m"] r by simp
  then show ?thesis by (cases ok) (simp_all add: not_scheduled_def Let_def Some r signals_announce)
qed

lemma deliver_signals:
  assumes "signals_kept d (cs_db s)"
  shows "signals_kept d (cs_db (snd (deliver_to_run v row run g now s)))"
proof -
  obtain m s1 where w: "write_row row (delivery_mark v row run g) now s = (m, s1)" by (metis surj_pair)
  have s1: "signals_kept d (cs_db s1)" using signals_write [OF assms] w by (metis snd_conv)
  obtain x d2 where st: "start_delivery v row m run (cs_db s1) = (x, d2)" by (metis surj_pair)
  have d2: "signals_kept d d2" using signals_trans [OF s1 start_delivery_signals] st by (metis snd_conv)
  have fail: "signals_kept d (cs_db (fail_new_run run g a b now t))" if "signals_kept d (cs_db t)" for a b t
    by (rule signals_trans [OF that fail_new_run_signals])
  show ?thesis
  proof (cases "cm_state m = ''promoted''")
    case False
    then show ?thesis using fail [OF s1] by (simp add: deliver_to_run_def w Let_def)
  next
    case True
    have s2: "signals_kept d (cs_db (s1\<lparr>cs_db := d2\<rparr>))" using d2 by simp
    show ?thesis
    proof (cases x)
      case Scheduled
      then show ?thesis using True d2 by (simp add: deliver_to_run_def w st)
    next
      case Unavailable
      then show ?thesis using True not_scheduled_signals [OF s2] by (simp add: deliver_to_run_def w st)
    next
      case (Failed kind why)
      then show ?thesis using True not_scheduled_signals [OF fail [OF s2]] signals_announce [OF fail [OF s2]]
        by (simp add: deliver_to_run_def w st Let_def)
    qed
  qed
qed

lemma wake_signals:
  assumes "run_of (de_run v (cm_id row)) (cs_db s) = None"
  shows "signals_kept (cs_db s) (cs_db (snd (wake_idle_target v row user now s)))"
proof (cases "hold_stopped_project_result row now s")
  case (Pair held s')
  have runs: "db_runs (cs_db s') = db_runs (cs_db s)" using hold_runs [of row now s] Pair by simp
  then have s': "signals_kept (cs_db s) (cs_db s')" by (rule signals_same_runs)
  have new: "signals_kept (cs_db s) (snd (create_run_record (coordination_run row (de_run v (cm_id row)) user) now (cs_db s')))"
    using assms runs by (intro signals_trans [OF s' signals_new_run]) (simp add: coordination_run_def)
  have claim: "signals_kept (cs_db s) d" if "claim_session_result_wait (de_digest v) r (de_process v) (cs_db s') = (x, d)" for r x d
    using signals_trans [OF s' claim_wait_signals] that by (metis snd_conv)
  have plan: "signals_kept (cs_db s) (case plan_wake v row user now (cs_db s') of
      KeepWaiting d \<Rightarrow> d | WakeParked r g m d \<Rightarrow> d | WakeNew r d \<Rightarrow> d)"
    using new claim by (auto simp: plan_wake_def Let_def split: option.split prod.split)
  show ?thesis
  proof (cases held)
    case None
    then show ?thesis using plan
      by (auto simp: wake_idle_target_def Pair intro: deliver_signals split: wake_plan.splits)
  next
    case (Some m)
    then show ?thesis using s' by (simp add: wake_idle_target_def Pair)
  qed
qed

lemma signal_run_signals:
  assumes "get_control_signal run (cs_db s) = None \<or> get_control_signal run (cs_db s) = Some []"
  shows "signals_kept (cs_db s) (cs_db (snd (signal_run row run now s)))"
proof -
  let ?u = "(to_state ''promoted'')\<lparr>mu_run := Some run, mu_stamp := Some ''promoted_at''\<rparr>"
  obtain m s1 where w: "write_row row ?u now s = (m, s1)" by (metis surj_pair)
  have runs: "db_runs (cs_db s1) = db_runs (cs_db s)" using write_row_runs [of row ?u now s] w by simp
  then have s1: "signals_kept (cs_db s) (cs_db s1)" by (rule signals_same_runs)
  have "get_control_signal run (cs_db s1) = None \<or> get_control_signal run (cs_db s1) = Some []"
    using assms runs by (simp add: get_control_signal_def)
  from signals_trans [OF s1 signals_issue [OF this]] s1 show ?thesis by (simp add: signal_run_def w)
qed

lemma route_signal:
  assumes "route_of row d = Signal run"
  shows "get_control_signal run d = None \<or> get_control_signal run d = Some []"
  using assms by (auto simp: route_of_def route_on_lane_def Let_def split: if_splits option.splits)

lemma follow_signals:
  assumes "run_of (de_run v (cm_id row)) (cs_db s) = None"
  shows "signals_kept (cs_db s) (cs_db (snd (follow_route v row (route_of row (cs_db s)) now s)))"
proof (cases "route_of row (cs_db s)")
  case (Signal run)
  then show ?thesis using signal_run_signals [OF route_signal] by (simp add: follow_route_def)
qed (use wake_signals [of v row s] assms signals_write [OF signals_refl] in \<open>simp_all add: follow_route_def\<close>)

text \<open>C14: A dispatch displaces no control signal: a signal that waits for a run (a pause, a
  cancellation, the guidance of a user, an earlier message) is still there, unchanged, after any
  message has been dispatched, whatever the check of the assignment and the scheduler answer.\<close>

theorem dispatch_displaces_no_signal:
  assumes "\<forall>m. run_of (de_run v m) (cs_db s) = None" and "get_control_signal run (cs_db s) = Some sig" and "sig \<noteq> []"
  shows "get_control_signal run (cs_db (snd (dispatch_message v message now s))) = Some sig"
proof -
  have "signals_kept (cs_db s) (cs_db (snd (dispatch_message v message now s)))"
  proof (cases "get_session_coordination_message message (cs_db s)")
    case None
    then show ?thesis by (simp add: dispatch_message_def)
  next
    case (Some row)
    obtain held s' where h: "hold_stopped_project_result row now s = (held, s')" by (metis surj_pair)
    have s': "signals_kept (cs_db s) (cs_db s')" and runs: "db_runs (cs_db s') = db_runs (cs_db s)"
      using hold_runs [of row now s] h by (simp_all add: signals_same_runs)
    have fresh: "run_of (de_run v (cm_id row)) (cs_db s') = None" using assms(1) runs by simp
    show ?thesis
      unfolding dispatch_message_def Some option.case h prod.case
      using s' signals_write [OF s'] signals_announce [OF s'] signals_trans [OF s' follow_signals [OF fresh]]
      by (simp add: split_def split: option.split)
  qed
  then show ?thesis using assms(2,3) by (simp add: signals_kept_def)
qed

section \<open>A settled message stays settled\<close>

definition settled :: "coordination_rec \<Rightarrow> bool" where
  "settled m \<longleftrightarrow> cm_authority m \<noteq> ''project_result'' \<and> cm_state m \<in> set terminal_states"

text \<open>Rows outside \<open>I\<close> get at most new metadata.\<close>

definition kept :: "coordination_rec \<Rightarrow> coordination_rec \<Rightarrow> bool" where
  "kept m m' \<longleftrightarrow> m' = m\<lparr>cm_metadata := cm_metadata m', cm_updated := cm_updated m'\<rparr>"

lemma kept_refl [simp]: "kept m m"
  by (simp add: kept_def)

lemma kept_fields:
  assumes "kept m m'"
  shows "cm_id m' = cm_id m" and "cm_state m' = cm_state m" and "cm_authority m' = cm_authority m"
    and "cm_target_run m' = cm_target_run m" and "cm_content m' = cm_content m"
proof -
  note e = assms [unfolded kept_def]
  show "cm_id m' = cm_id m" "cm_state m' = cm_state m" "cm_authority m' = cm_authority m"
    "cm_target_run m' = cm_target_run m" "cm_content m' = cm_content m"
    using arg_cong [OF e, of cm_id] arg_cong [OF e, of cm_state] arg_cong [OF e, of cm_authority]
      arg_cong [OF e, of cm_target_run] arg_cong [OF e, of cm_content] by simp_all
qed

lemma kept_trans: "kept a b \<Longrightarrow> kept b c \<Longrightarrow> kept a c"
  unfolding kept_def by (metis (no_types, lifting) coordination_rec.surjective coordination_rec.update_convs(23,31))

definition changes :: "string set \<Rightarrow> db \<Rightarrow> db \<Rightarrow> bool" where
  "changes I d d' \<longleftrightarrow> (\<exists>f. db_coordination d' = map f (db_coordination d) \<and>
     (\<forall>m. cm_id (f m) = cm_id m \<and> (cm_id m \<notin> I \<longrightarrow> kept m (f m))))"

lemma changes_same: "db_coordination d' = db_coordination d \<Longrightarrow> changes I d d'"
  unfolding changes_def by (intro exI [of _ "\<lambda>m. m"]) simp

lemma changes_refl [simp]: "changes I d d"
  by (simp add: changes_same)

lemma changes_trans:
  assumes "changes I a b" and "changes I b c"
  shows "changes I a c"
proof -
  obtain f where f: "db_coordination b = map f (db_coordination a)"
    "\<forall>m. cm_id (f m) = cm_id m \<and> (cm_id m \<notin> I \<longrightarrow> kept m (f m))" using assms(1) unfolding changes_def by blast
  obtain g where g: "db_coordination c = map g (db_coordination b)"
    "\<forall>m. cm_id (g m) = cm_id m \<and> (cm_id m \<notin> I \<longrightarrow> kept m (g m))" using assms(2) unfolding changes_def by blast
  have "cm_id (g (f m)) = cm_id m \<and> (cm_id m \<notin> I \<longrightarrow> kept m (g (f m)))" for m
    using f(2) g(2) kept_trans [of m "f m" "g (f m)"] by simp
  then show ?thesis unfolding changes_def using f(1) g(1) by (intro exI [of _ "g \<circ> f"]) simp
qed

lemma changes_mono: "changes I d d' \<Longrightarrow> I \<subseteq> J \<Longrightarrow> changes J d d'"
  unfolding changes_def by blast

lemma changes_upd: "(\<And>m. cm_id (f m) = cm_id m) \<Longrightarrow>
   db_coordination d' = upd_where (\<lambda>m. cm_id m = i) f (db_coordination d) \<Longrightarrow> changes {i} d d'"
  unfolding changes_def upd_where_def by (intro exI [of _ "\<lambda>m. if cm_id m = i then f m else m"]) simp

lemma changes_ids: "changes I d d' \<Longrightarrow> map cm_id (db_coordination d') = map cm_id (db_coordination d)"
  unfolding changes_def by auto

lemma changes_sel:
  assumes "changes I d d'" and "sel_by cm_id i (db_coordination d) = Some m" and "i \<notin> I"
  shows "\<exists>m'. sel_by cm_id i (db_coordination d') = Some m' \<and> kept m m'"
proof -
  obtain f where f: "db_coordination d' = map f (db_coordination d)"
    "\<forall>m. cm_id (f m) = cm_id m \<and> (cm_id m \<notin> I \<longrightarrow> kept m (f m))" using assms(1) unfolding changes_def by blast
  have "cm_id m = i" by (rule sel_by_key [OF assms(2)])
  then show ?thesis using f assms(2,3) by (simp add: sel_by_map)
qed

lemma updated_message_id: "cm_id (updated_message u meta now m) = cm_id m"
  by (simp add: updated_message_def Let_def)

lemma changes_if: "changes I d (snd a) \<Longrightarrow> changes I d (snd b) \<Longrightarrow> changes I d (snd (if c then a else b))"
  by simp

lemma update_changes: "changes {i} d (snd (update_session_coordination_message i u now d0 d))"
proof (cases "get_session_coordination_message i d0")
  case None
  then show ?thesis by (simp add: update_session_coordination_message_def)
next
  case (Some e)
  have b: "changes {i} d (d\<lparr>db_coordination := upd_where (\<lambda>m. cm_id m = i)
      (\<lambda>m. m\<lparr>cm_state := ''blocked'', cm_error := Some x, cm_updated := now\<rparr>) (db_coordination d)\<rparr>)" for x
    by (rule changes_upd [where f = "\<lambda>m. m\<lparr>cm_state := ''blocked'', cm_error := Some x, cm_updated := now\<rparr>"]) simp_all
  have c: "changes {i} d (d\<lparr>db_coordination := upd_where (\<lambda>m. cm_id m = i) (updated_message u meta now) (db_coordination d)\<rparr>)"
    for meta by (rule changes_upd [OF updated_message_id]) simp
  show ?thesis
    unfolding update_session_coordination_message_def Some option.case Let_def
    by (intro changes_if) (simp_all only: snd_conv changes_refl b c)
qed

lemma row_or_old_changes: "changes {cm_id row} d (snd (row_or_old row u now d))"
  using update_changes [of "cm_id row" d u now d] by (auto simp: row_or_old_def split: sum.split option.split prod.split)

lemma write_row_changes: "changes {cm_id row} (cs_db s) (cs_db (snd (write_row row u now s)))"
  using row_or_old_changes [of row "cs_db s" u now] by (simp add: write_row_def split_def)

lemma announce_changes: "changes {cm_id row} (cs_db s) (cs_db (snd (announce row u topic now s)))"
  using write_row_changes [of row s u now] by (simp add: announce_def split_def)

lemma hold_changes: "changes {cm_id row} (cs_db s) (cs_db (snd (hold_stopped_project_result row now s)))"
  using announce_changes [of row s] by (simp add: hold_stopped_project_result_def Let_def split_def)

text \<open>The row an update returns has the identifier it was asked for.\<close>

lemma row_or_old_id:
  assumes "py_strip (cm_id row) = cm_id row"
  shows "cm_id (fst (row_or_old row u now d)) = cm_id row"
proof -
  define ok where "ok p \<longleftrightarrow> (\<forall>m. fst p = Inr (Some m) \<longrightarrow> cm_id m = cm_id row)"
    for p :: "(coordination_error + coordination_rec option) \<times> db"
  have found: "ok (Inr (get_session_coordination_message (cm_id row) e), e')" for e e'
    using assms by (auto simp: ok_def get_session_coordination_message_def dest: sel_by_key split: if_splits)
  have other: "ok (Inr None, e)" "ok (Inl x, e)" for x e by (simp_all add: ok_def)
  have ifI: "ok a \<Longrightarrow> ok b \<Longrightarrow> ok (if c then a else b)" for a b c by simp
  have "ok (update_session_coordination_message (cm_id row) u now d d)"
  proof (cases "get_session_coordination_message (cm_id row) d")
    case None
    then show ?thesis by (simp add: update_session_coordination_message_def other)
  next
    case (Some a)
    have fa: "ok (Inr (Some a), d)" using found [of d d] by (simp only: Some)
    show ?thesis unfolding update_session_coordination_message_def Let_def Some option.case
      by (intro ifI fa found other)
  qed
  moreover obtain x d' where u: "update_session_coordination_message (cm_id row) u now d d = (x, d')" by (metis surj_pair)
  ultimately have x: "\<forall>m. x = Inr (Some m) \<longrightarrow> cm_id m = cm_id row" by (simp only: ok_def fst_conv)
  have up: "row_or_old row u now d = (case (x, d') of (Inr (Some m), d') \<Rightarrow> (m, d') | (_, d') \<Rightarrow> (row, d'))"
    unfolding row_or_old_def u by (rule refl)
  show ?thesis
  proof (cases "\<exists>m. x = Inr (Some m)")
    case True
    then obtain m where m: "x = Inr (Some m)" by blast
    then have "cm_id m = cm_id row" using x by blast
    then show ?thesis unfolding up m by simp
  next
    case False
    then show ?thesis unfolding up by (simp split: sum.split option.split)
  qed
qed

text \<open>The writes to runs leave the messages alone.\<close>

lemma coordination_frames [simp]:
  "db_coordination (set_run_metadata run meta d) = db_coordination d"
  "db_coordination (set_run_state run st meta d) = db_coordination d"
  "db_coordination (update_run_record run st err meta now d) = db_coordination d"
  "db_coordination (snd (create_run_record a now d)) = db_coordination d"
  by (simp_all add: set_run_metadata_def set_run_state_def update_run_record_def Let_def
      cancel_pending_human_actions_for_run_def create_run_record_def forget_run_def split: option.split)

lemma marker_update_coordination [simp]:
  "db_coordination (snd (update_run_metadata_key_if_state run key st next status g v d)) = db_coordination d"
  by (simp add: update_run_metadata_key_if_state_def Let_def split: option.split)

lemma bind_coordination [simp]: "db_coordination (snd (bind_run v m run d)) = db_coordination d"
  by (simp add: bind_run_def Let_def split_def split: sum.split option.split cas_result.split)

lemma claim_wait_coordination [simp]:
  "db_coordination (snd (claim_session_result_wait digest run owner d)) = db_coordination d"
  by (simp add: claim_session_result_wait_def Let_def split: option.split)

lemma restore_wait_coordination [simp]:
  "db_coordination (snd (restore_session_result_wait run generation m d)) = db_coordination d"
  by (simp add: restore_session_result_wait_def Let_def split: option.split)

lemma issue_coordination [simp]:
  "db_coordination (snd (issue_control_signal run c reason p d)) = db_coordination d"
  by (simp add: issue_control_signal_def set_control_signal_def split_def split: option.split)

lemma clear_coordination [simp]:
  "db_coordination (clear_control_signal run expected d0 d) = db_coordination d"
  by (simp add: clear_control_signal_def consume_run_control_signal_def split: option.split)

lemma changes_write: "changes I d (cs_db s) \<Longrightarrow> cm_id row \<in> I \<Longrightarrow> changes I d (cs_db (snd (write_row row u now s)))"
  using write_row_changes [of row s u now] by (auto intro: changes_trans changes_mono)

lemma changes_announce: "changes I d (cs_db s) \<Longrightarrow> cm_id row \<in> I \<Longrightarrow> changes I d (cs_db (snd (announce row u topic now s)))"
  using announce_changes [of row s u topic now] by (auto intro: changes_trans changes_mono)

lemma changes_frame: "changes I d e \<Longrightarrow> db_coordination e' = db_coordination e \<Longrightarrow> changes I d e'"
  by (simp add: changes_def)

lemma not_scheduled_changes:
  assumes "changes I d (cs_db s)" and "cm_id m \<in> I"
  shows "changes I d (cs_db (snd (not_scheduled m run g now s)))"
proof (cases g)
  case None
  then show ?thesis using assms by (simp add: not_scheduled_def Let_def changes_announce)
next
  case (Some x)
  obtain ok d' where r: "restore_session_result_wait run (as_text x) (cm_id m) (cs_db s) = (ok, d')" by (metis surj_pair)
  have "changes I d d'"
    using changes_frame [OF assms(1) restore_wait_coordination, of run "as_text x" "cm_id m"] r by simp
  then show ?thesis using assms(2) by (cases ok) (simp_all add: not_scheduled_def Let_def Some r changes_announce)
qed

lemma deliver_changes:
  assumes "changes I d (cs_db s)" and "cm_id row \<in> I" and "py_strip (cm_id row) = cm_id row"
  shows "changes I d (cs_db (snd (deliver_to_run v row run g now s)))"
proof -
  obtain m s1 where w: "write_row row (delivery_mark v row run g) now s = (m, s1)" by (metis surj_pair)
  have s1: "changes I d (cs_db s1)" using changes_write [OF assms(1,2)] w by (metis snd_conv)
  have m: "cm_id m \<in> I"
    using row_or_old_id [OF assms(3), of "delivery_mark v row run g" now "cs_db s"] w assms(2)
    by (simp add: write_row_def split_def)
  obtain x d2 where st: "start_delivery v row m run (cs_db s1) = (x, d2)" by (metis surj_pair)
  have "db_coordination (snd (start_delivery v row m run (cs_db s1))) = db_coordination (cs_db s1)"
    by (simp add: start_delivery_def split_def split: sum.split)
  then have d2: "changes I d d2" using changes_frame [OF s1] st by simp
  have fail: "changes I d (cs_db (fail_new_run run g a b now t))" if "changes I d (cs_db t)" for a b t
    by (rule changes_frame [OF that]) (simp add: fail_new_run_def)
  show ?thesis
  proof (cases "cm_state m = ''promoted''")
    case False
    then show ?thesis using fail [OF s1] by (simp add: deliver_to_run_def w Let_def)
  next
    case True
    have s2: "changes I d (cs_db (s1\<lparr>cs_db := d2\<rparr>))" using d2 by simp
    show ?thesis
    proof (cases x)
      case Scheduled
      then show ?thesis using True d2 by (simp add: deliver_to_run_def w st)
    next
      case Unavailable
      then show ?thesis using True not_scheduled_changes [OF s2 m] by (simp add: deliver_to_run_def w st)
    next
      case (Failed kind why)
      then show ?thesis using True not_scheduled_changes [OF fail [OF s2] m] changes_announce [OF fail [OF s2] m]
        by (simp add: deliver_to_run_def w st Let_def)
    qed
  qed
qed

text \<open>Besides the message it is about a dispatch touches results of projects only.\<close>

definition result_ids :: "db \<Rightarrow> string set" where
  "result_ids d = {cm_id m |m. m \<in> set (db_coordination d) \<and> cm_authority m = ''project_result''}"

definition clean_ids :: "db \<Rightarrow> bool" where
  "clean_ids d \<longleftrightarrow> (\<forall>m \<in> set (db_coordination d). py_strip (cm_id m) = cm_id m)"

lemma session_wait_results_in: "m \<in> set (session_wait_results d s marker) \<Longrightarrow>
    m \<in> set (db_coordination d) \<and> cm_authority m = ''project_result''"
  by (auto simp: session_wait_results_def Let_def split: if_splits)

lemma claimed_result:
  assumes "claim_session_result_wait digest run owner d = (Some (g, m), d')"
  shows "m \<in> set (db_coordination d) \<and> cm_authority m = ''project_result''"
proof (cases "run_of run d")
  case None
  then show ?thesis using assms by (simp add: claim_session_result_wait_def)
next
  case (Some r)
  let ?rs = "session_wait_results d (rn_session r) (as_dict (dget (rn_metadata r) ''sessionResultWait''))"
  have "?rs \<noteq> [] \<and> m = last ?rs"
    using assms unfolding claim_session_result_wait_def Some option.case Let_def by (simp split: if_splits)
  then show ?thesis using session_wait_results_in by (metis last_in_set)
qed

lemma plan_keeps:
  "plan_wake v row user now d = KeepWaiting d' \<Longrightarrow> db_coordination d' = db_coordination d"
  "plan_wake v row user now d = WakeNew run d' \<Longrightarrow> db_coordination d' = db_coordination d"
  "plan_wake v row user now d = WakeParked run g m d' \<Longrightarrow>
     claim_session_result_wait (de_digest v) run (de_process v) d = (Some (g, m), d')"
proof -
  have c: "claim_session_result_wait (de_digest v) r (de_process v) d = (x, e) \<Longrightarrow> db_coordination e = db_coordination d"
    for r x e using claim_wait_coordination [of "de_digest v" r "de_process v" d] by simp
  show "plan_wake v row user now d = KeepWaiting d' \<Longrightarrow> db_coordination d' = db_coordination d"
    "plan_wake v row user now d = WakeNew run d' \<Longrightarrow> db_coordination d' = db_coordination d"
    "plan_wake v row user now d = WakeParked run g m d' \<Longrightarrow>
     claim_session_result_wait (de_digest v) run (de_process v) d = (Some (g, m), d')"
    unfolding plan_wake_def Let_def by (auto split: if_splits option.splits prod.splits dest: c)
qed

lemma wake_changes:
  assumes "clean_ids (cs_db s)" and "row \<in> set (db_coordination (cs_db s))" and "insert (cm_id row) (result_ids (cs_db s)) \<subseteq> I"
  shows "changes I (cs_db s) (cs_db (snd (wake_idle_target v row user now s)))"
proof (cases "hold_stopped_project_result row now s")
  case (Pair held s')
  show ?thesis
  proof (cases held)
    case (Some m)
    then show ?thesis using hold_changes [of row s now] Pair assms(3)
      by (auto simp: wake_idle_target_def intro: changes_mono)
  next
    case None
    then have s': "s' = s" using Pair by (auto simp: hold_stopped_project_result_def Let_def split_def split: if_splits)
    have row: "cm_id row \<in> I" "py_strip (cm_id row) = cm_id row" using assms by (auto simp: clean_ids_def)
    show ?thesis
    proof (cases "plan_wake v row user now (cs_db s)")
      case (KeepWaiting d')
      then have "db_coordination d' = db_coordination (cs_db s)"
        by (rule plan_keeps(1))
      then show ?thesis by (simp add: wake_idle_target_def Pair None s' KeepWaiting changes_same)
    next
      case (WakeNew run d')
      then have "db_coordination d' = db_coordination (cs_db s)" by (rule plan_keeps(2))
      then have "changes I (cs_db s) (cs_db (s\<lparr>cs_db := d'\<rparr>))" by (simp add: changes_same)
      from deliver_changes [OF this row] show ?thesis by (simp add: wake_idle_target_def Pair None s' WakeNew)
    next
      case (WakeParked run g m d')
      then have c: "claim_session_result_wait (de_digest v) run (de_process v) (cs_db s) = (Some (g, m), d')"
        by (rule plan_keeps(3))
      then have m: "m \<in> set (db_coordination (cs_db s)) \<and> cm_authority m = ''project_result''" by (rule claimed_result)
      have "db_coordination d' = db_coordination (cs_db s)" using claim_wait_coordination c by (metis snd_conv)
      then have "changes I (cs_db s) (cs_db (s\<lparr>cs_db := d'\<rparr>))" by (simp add: changes_same)
      moreover have "cm_id m \<in> I" "py_strip (cm_id m) = cm_id m"
        using m assms(1,3) by (auto simp: result_ids_def clean_ids_def)
      ultimately show ?thesis by (simp add: wake_idle_target_def Pair None s' WakeParked deliver_changes)
    qed
  qed
qed

lemma signal_run_changes:
  "cm_id row \<in> I \<Longrightarrow> changes I (cs_db s) (cs_db (snd (signal_run row run now s)))"
  using changes_write [OF changes_refl, of row I s] changes_frame [OF changes_write [OF changes_refl, of row I s]
      issue_coordination]
  by (simp add: signal_run_def split_def)

lemma follow_changes:
  assumes "clean_ids (cs_db s)" and "row \<in> set (db_coordination (cs_db s))" and "insert (cm_id row) (result_ids (cs_db s)) \<subseteq> I"
  shows "changes I (cs_db s) (cs_db (snd (follow_route v row rt now s)))"
  using assms(3) wake_changes [OF assms] signal_run_changes [of row I s] changes_write [OF changes_refl, of row I]
  by (cases rt) (simp_all add: follow_route_def)

definition open_ids :: "db \<Rightarrow> string set" where
  "open_ids d = {cm_id m |m. m \<in> set (db_coordination d) \<and> \<not> settled m}"

lemma result_ids_open: "result_ids d \<subseteq> open_ids d"
  by (auto simp: result_ids_def open_ids_def settled_def)

lemma found_message:
  "get_session_coordination_message i d = Some m \<Longrightarrow> m \<in> set (db_coordination d) \<and> cm_id m = py_strip i"
  by (auto simp: get_session_coordination_message_def dest: sel_by_SomeD split: if_splits)

lemma open_state: "m \<in> set (db_coordination d) \<Longrightarrow> cm_state m \<notin> set terminal_states \<Longrightarrow> cm_id m \<in> open_ids d"
  by (auto simp: open_ids_def settled_def)

lemma live_states [simp]:
  "''queued'' \<notin> set terminal_states" "''promoted'' \<notin> set terminal_states" "''injected'' \<notin> set terminal_states"
  "''awaiting_authorization'' \<notin> set terminal_states"
  by code_simp+

lemma hold_none: "hold_stopped_project_result row now s = (None, s') \<Longrightarrow> s' = s"
  by (auto simp: hold_stopped_project_result_def Let_def split_def split: if_splits)

lemma dispatch_changes:
  assumes "clean_ids (cs_db s)"
  shows "changes (open_ids (cs_db s)) (cs_db s) (cs_db (snd (dispatch_message v message now s)))"
proof (cases "get_session_coordination_message message (cs_db s)")
  case None
  then show ?thesis by (simp add: dispatch_message_def)
next
  case (Some row)
  let ?I = "open_ids (cs_db s)"
  show ?thesis
  proof (cases "cm_state row \<in> {''queued'', ''promoted''}")
    case False
    then show ?thesis by (simp add: dispatch_message_def Some)
  next
    case True
    then have row: "row \<in> set (db_coordination (cs_db s))" "cm_id row \<in> ?I"
      using found_message [OF Some] open_state [of row "cs_db s"] by auto
    have I: "insert (cm_id row) (result_ids (cs_db s)) \<subseteq> ?I" using row(2) result_ids_open by blast
    obtain held s' where h: "hold_stopped_project_result row now s = (held, s')" by (metis surj_pair)
    show ?thesis
    proof (cases held)
      case (Some m)
      then show ?thesis using hold_changes [of row s now] h True row(2)
        by (auto simp: dispatch_message_def \<open>get_session_coordination_message message (cs_db s) = Some row\<close> intro: changes_mono)
    next
      case None
      then have "s' = s" using hold_none h by blast
      then show ?thesis
        using True None h changes_write [OF changes_refl row(2)] changes_announce [OF changes_refl row(2)]
          follow_changes [OF assms row(1) I]
        by (simp add: dispatch_message_def Some split_def split: option.split)
    qed
  qed
qed

text \<open>Whatever an operation touches was open before it, and it leaves the identifiers alone.\<close>

definition spares :: "db \<Rightarrow> db \<Rightarrow> bool" where
  "spares d d' \<longleftrightarrow> changes (open_ids d) d d'"

lemma spares_refl [simp]: "spares d d"
  by (simp add: spares_def)

lemma clean_ids_changes: "changes I d d' \<Longrightarrow> clean_ids d' = clean_ids d"
proof -
  have "clean_ids e \<longleftrightarrow> (\<forall>i \<in> set (map cm_id (db_coordination e)). py_strip i = i)" for e by (auto simp: clean_ids_def)
  then show "changes I d d' \<Longrightarrow> clean_ids d' = clean_ids d" using changes_ids [of I d d'] by (simp only:)
qed

lemma keyed_changes: "changes I d d' \<Longrightarrow> keyed cm_id (db_coordination d') = keyed cm_id (db_coordination d)"
  using changes_ids [of I d d'] by (simp add: keyed_def)

text \<open>With unique identifiers what is settled stays settled, so open rows come from open rows.\<close>

lemma open_ids_changes:
  assumes "spares d d'" and "keyed cm_id (db_coordination d)"
  shows "open_ids d' \<subseteq> open_ids d"
proof
  fix i assume "i \<in> open_ids d'"
  then obtain m' where m': "m' \<in> set (db_coordination d')" "\<not> settled m'" "cm_id m' = i" by (auto simp: open_ids_def)
  show "i \<in> open_ids d"
  proof (rule ccontr)
    assume no: "i \<notin> open_ids d"
    have "i \<in> set (map cm_id (db_coordination d))"
      using m'(1,3) changes_ids [OF assms(1) [unfolded spares_def]] by (metis image_eqI image_set)
    then obtain m where m: "m \<in> set (db_coordination d)" "cm_id m = i" by auto
    have sel: "sel_by cm_id i (db_coordination d) = Some m" using m keyed_sel_iff [OF assms(2)] by blast
    obtain m2 where m2: "sel_by cm_id i (db_coordination d') = Some m2" "kept m m2"
      using changes_sel [OF assms(1) [unfolded spares_def] sel no] by blast
    have "m2 = m'" using m2(1) m'(1,3) assms keyed_changes keyed_sel_iff
      by (metis option.inject spares_def)
    moreover have "settled m" using m no by (auto simp: open_ids_def)
    then have "settled m2" using kept_fields [OF m2(2)] by (simp add: settled_def)
    ultimately show False using m'(2) by simp
  qed
qed

lemma spares_trans:
  assumes "spares a b" and "spares b c" and "keyed cm_id (db_coordination a)"
  shows "spares a c"
  using assms(1,2) open_ids_changes [OF assms(1,3)] unfolding spares_def
  by (blast intro: changes_trans changes_mono)

subsection \<open>Operations over lists of messages\<close>

lemma fold_changes:
  assumes "\<And>row s. row \<in> set rows \<Longrightarrow> changes I (cs_db s) (cs_db (step row s))"
  shows "changes I (cs_db s) (cs_db (fold step rows s))"
  using assms
proof (induction rows arbitrary: s)
  case (Cons row rows)
  have "changes I (cs_db (step row s)) (cs_db (fold step rows (step row s)))" using Cons.prems by (intro Cons.IH) auto
  moreover have "changes I (cs_db s) (cs_db (step row s))" using Cons.prems by simp
  ultimately show ?case by (simp add: changes_trans [of I "cs_db s" "cs_db (step row s)"])
qed simp

lemma listed:
  assumes "m \<in> set (list_session_coordination_messages session target thread run states newest n d)"
  shows "m \<in> set (db_coordination d)" and "normalized_set states \<noteq> [] \<Longrightarrow> cm_state m \<in> set (normalized_set states)"
  using in_set_takeD [OF assms [unfolded list_session_coordination_messages_def Let_def]] by auto

lemma normalized_states [simp]:
  "normalized_set [''promoted''] = [''promoted'']" "normalized_set [''injected''] = [''injected'']"
  "set (normalized_set [''awaiting_authorization'', ''queued'', ''promoted'']) = {''awaiting_authorization'', ''queued'', ''promoted''}"
  "normalized_set [''awaiting_authorization'', ''queued'', ''promoted''] \<noteq> []"
  by code_simp+

lemma listed_open:
  assumes "m \<in> set (list_session_coordination_messages session target thread run states newest n d)"
    and "normalized_set states \<noteq> []" and "set (normalized_set states) \<inter> set terminal_states = {}"
  shows "cm_id m \<in> open_ids d"
  using listed [OF assms(1)] assms(2,3) by (blast intro: open_state)

lemma row_changes:
  assumes "cm_id row \<in> I"
  shows "changes I (cs_db s) (cs_db (snd (announce row u topic now s)))"
    and "changes I (cs_db s) (cs_db (snd (write_row row u now s)))"
    and "changes I (cs_db s) (cs_db (snd (hold_stopped_project_result row now s)))"
  using announce_changes [of row s u topic now] write_row_changes [of row s u now] hold_changes [of row s now] assms
  by (auto intro: changes_mono)

lemma requeue_changes: "cm_id row \<in> I \<Longrightarrow> changes I (cs_db s) (cs_db (requeue_promoted status now row s))"
  using row_changes(3) [of row I s now] row_changes(1) [of row I]
  by (auto simp: requeue_promoted_def split: option.split prod.split intro: changes_trans)

lemma mark_failed_changes:
  assumes "cm_id row \<in> I" and "py_strip (cm_id row) = cm_id row"
  shows "changes I (cs_db s) (cs_db (snd (mark_failed (cm_id row) err meta now s)))"
proof (cases "get_session_coordination_message (cm_id row) (cs_db s)")
  case None
  then show ?thesis by (simp add: mark_failed_def)
next
  case (Some m)
  then have "cm_id m \<in> I" using found_message [OF Some] assms by simp
  then show ?thesis using row_changes(1) [of m I s] by (simp add: mark_failed_def Some split_def)
qed

lemma settle_changes:
  assumes "cm_id row \<in> I" and "py_strip (cm_id row) = cm_id row"
  shows "changes I (cs_db s) (cs_db (settle_injected run status now row s))"
proof (cases "hold_stopped_project_result row now s")
  case (Pair held s')
  have s': "changes I (cs_db s) (cs_db s')" using row_changes(3) [OF assms(1), of s now] Pair by simp
  show ?thesis
  proof (cases held)
    case None
    then show ?thesis
      using changes_announce [OF s' assms(1)] changes_trans [OF s' mark_failed_changes [OF assms, of s']] s'
      by (simp add: settle_injected_def Pair Let_def)
  qed (simp add: settle_injected_def Pair s')
qed

lemma live_lists [simp]:
  "set (normalized_set [''promoted'']) \<inter> set terminal_states = {}"
  "set (normalized_set [''injected'']) \<inter> set terminal_states = {}"
  "set (normalized_set [''awaiting_authorization'', ''queued'', ''promoted'']) \<inter> set terminal_states = {}"
  by (simp_all add: terminal_states_def)

lemma settle_run_end_spares:
  assumes "clean_ids (cs_db s)" and "keyed cm_id (db_coordination (cs_db s))"
  shows "spares (cs_db s) (cs_db (settle_run_end run status now s))"
proof -
  let ?s1 = "fold (requeue_promoted status now)
      (list_session_coordination_messages None None None (Some run) [''promoted''] False 20 (cs_db s)) s"
  have s1: "spares (cs_db s) (cs_db ?s1)"
    unfolding spares_def by (rule fold_changes) (auto intro!: requeue_changes listed_open)
  have c: "clean_ids (cs_db ?s1)" using s1 assms(1) clean_ids_changes unfolding spares_def by blast
  have "spares (cs_db ?s1) (cs_db (settle_run_end run status now s))"
    unfolding spares_def settle_run_end_def Let_def
    by (rule fold_changes, rule settle_changes)
      (use c listed(1) in \<open>auto intro!: listed_open simp: clean_ids_def\<close>)
  then show ?thesis by (rule spares_trans [OF s1 _ assms(2)])
qed

lemma run_end_spares:
  assumes "clean_ids (cs_db s)" and "keyed cm_id (db_coordination (cs_db s))"
  shows "spares (cs_db s) (cs_db (on_run_terminal v session run status now s))"
proof -
  let ?s = "settle_run_end run status now s"
  have s: "spares (cs_db s) (cs_db ?s)" by (rule settle_run_end_spares [OF assms])
  have c: "clean_ids (cs_db ?s)" using s assms(1) clean_ids_changes unfolding spares_def by blast
  have "spares (cs_db ?s) (cs_db (on_run_terminal v session run status now s))"
    using dispatch_changes [OF c] by (simp add: on_run_terminal_def dispatch_for_session_def Let_def spares_def split: list.split)
  then show ?thesis by (rule spares_trans [OF s _ assms(2)])
qed

lemma metadata_only: "kept m (updated_message (no_message_update\<lparr>mu_metadata := x\<rparr>) meta now m)"
  by (simp add: kept_def updated_message_def no_message_update_def stamp_at_def)

lemma metadata_write_changes:
  "changes I (cs_db s) (cs_db (snd (write_row row (no_message_update\<lparr>mu_metadata := x\<rparr>) now s)))"
proof -
  let ?u = "no_message_update\<lparr>mu_metadata := x\<rparr>"
  have u: "mu_state ?u = None" "mu_interaction ?u = None" by (simp_all add: no_message_update_def)
  have k: "changes I d (d\<lparr>db_coordination := upd_where (\<lambda>m. cm_id m = i) (updated_message ?u meta now) (db_coordination d)\<rparr>)"
    for d i meta
    unfolding changes_def upd_where_def
    by (intro exI [of _ "\<lambda>m. if cm_id m = i then updated_message ?u meta now m else m"]) (simp add: metadata_only updated_message_id)
  have "changes I d (snd (update_session_coordination_message i ?u now d d))" for d i
    using k by (auto simp: update_session_coordination_message_def Let_def u interaction_taken_def split: option.split)
  then show ?thesis by (simp add: write_row_def row_or_old_def split_def split: sum.split option.split)
qed

lemma delete_spares: "spares (cs_db s) (cs_db (prepare_session_deletion session now s))"
  unfolding spares_def prepare_session_deletion_def
proof (rule fold_changes)
  fix row t assume "row \<in> set (list_session_coordination_messages (Some session) None None None [] False 500 (cs_db s))"
  then have row: "row \<in> set (db_coordination (cs_db s))" by (rule listed(1))
  show "changes (open_ids (cs_db s)) (cs_db t) (cs_db (delete_row session now row t))"
  proof (cases "cm_state row \<in> {''awaiting_authorization'', ''queued'', ''promoted''}")
    case True
    then have "cm_id row \<in> open_ids (cs_db s)" using open_state [OF row] by auto
    then show ?thesis using True row_changes(1) by (simp add: delete_row_def Let_def)
  next
    case False
    then show ?thesis using metadata_write_changes by (simp add: delete_row_def Let_def)
  qed
qed

lemma yield_spares: "spares (cs_db s) (cs_db (yield_to_human_guidance run now s))"
  unfolding spares_def yield_to_human_guidance_def
  by (rule fold_changes) (auto intro!: row_changes(1) listed_open)

lemma expire_spares: "spares (cs_db s) (cs_db (expire_undelivered_for_target target now s))"
  unfolding spares_def expire_undelivered_for_target_def expire_row_def
  by (rule fold_changes) (auto intro!: row_changes(1) listed_open)

lemma injected_spares: "spares (cs_db s) (cs_db (snd (mark_injected v message run now s)))"
proof (cases "get_session_coordination_message message (cs_db s)")
  case None
  then show ?thesis by (simp add: mark_injected_def)
next
  case (Some row)
  show ?thesis
  proof (cases "cm_state row \<in> set terminal_states")
    case True
    then show ?thesis by (simp add: mark_injected_def Some)
  next
    case False
    then have i: "cm_id row \<in> open_ids (cs_db s)" using found_message [OF Some] open_state by blast
    have b: "changes (open_ids (cs_db s)) (cs_db s) (cs_db (s\<lparr>cs_db := snd (bind_run v row run (cs_db s))\<rparr>))"
      by (simp add: changes_same)
    then show ?thesis
      using False changes_write [OF b i] changes_write [OF changes_refl i, of s]
      by (simp add: mark_injected_def Some spares_def split_def split: sum.split)
  qed
qed

lemma failed_spares: "spares (cs_db s) (cs_db (snd (mark_failed message err meta now s)))"
proof (cases "get_session_coordination_message message (cs_db s)")
  case None
  then show ?thesis by (simp add: mark_failed_def)
next
  case (Some row)
  then show ?thesis
    using found_message [OF Some] open_state [of row "cs_db s"] row_changes(1) [of row "open_ids (cs_db s)" s]
    by (simp add: mark_failed_def split_def spares_def)
qed

lemma cancel_spares: "spares (cs_db s) (cs_db (snd (cancel_message v session user message now s)))"
proof (cases "get_session_coordination_message message (cs_db s)")
  case None
  then show ?thesis by (simp add: cancel_message_def)
next
  case (Some row)
  show ?thesis
  proof (cases "cm_state row \<in> {''awaiting_authorization'', ''queued'', ''promoted''}")
    case False
    then show ?thesis by (simp add: cancel_message_def Some)
  next
    case True
    then have i: "cm_id row \<in> open_ids (cs_db s)" using found_message [OF Some] open_state [of row "cs_db s"] by auto
    have c: "changes (open_ids (cs_db s)) (cs_db s) (cs_db (s\<lparr>cs_db := d\<rparr>))" if "db_coordination d = db_coordination (cs_db s)" for d
      using that by (simp add: changes_same)
    show ?thesis
      using changes_announce [OF c i] unfolding cancel_message_def Some option.case Let_def spares_def
      by (simp add: split_def split: option.split)
  qed
qed

lemma announce_checked_changes:
  "changes {cm_id row} (cs_db s) (cs_db (snd (announce_checked row u topic now s)))"
  using update_changes [of "cm_id row" "cs_db s" u now "cs_db s"]
  by (simp add: announce_checked_def split_def Let_def split: sum.split)

lemma authorization_spares:
  assumes "clean_ids (cs_db s)" and "keyed cm_id (db_coordination (cs_db s))"
  shows "spares (cs_db s) (cs_db (snd (handle_ask_user_resolution v a now s)))"
proof (cases "get_session_coordination_message (au_message a) (cs_db s)")
  case None
  then show ?thesis by (simp add: handle_ask_user_resolution_def)
next
  case (Some row)
  show ?thesis
  proof (cases "cm_state row = ''awaiting_authorization''")
    case False
    then show ?thesis by (simp add: handle_ask_user_resolution_def Some)
  next
    case True
    then have i: "cm_id row \<in> open_ids (cs_db s)" using found_message [OF Some] open_state [of row "cs_db s"] by simp
    have an: "spares (cs_db s) (cs_db (snd (announce row u topic now s)))" for u topic
      unfolding spares_def by (rule row_changes(1) [OF i])
    have ck: "spares (cs_db s) (cs_db (snd (announce_checked row u topic now s)))" for u topic
      unfolding spares_def using announce_checked_changes [of row s] i by (auto intro: changes_mono)
    have disp: "spares (cs_db s) (cs_db (snd (dispatch_message v m now t)))" if "spares (cs_db s) (cs_db t)" for m t
    proof (rule spares_trans [OF that _ assms(2)])
      have "clean_ids (cs_db t)" using that assms(1) clean_ids_changes unfolding spares_def by blast
      then show "spares (cs_db t) (cs_db (snd (dispatch_message v m now t)))"
        unfolding spares_def by (rule dispatch_changes)
    qed
    show ?thesis
      unfolding handle_ask_user_resolution_def Some option.case expire_row_def
      using an ck disp [OF ck] by (simp add: split_def split: sum.split option.split)
  qed
qed

subsection \<open>Histories of the service\<close>

datatype service_op =
    VDispatch string
  | VDispatchSession string
  | VInjected string string
  | VFailed string string dict
  | VCancel string string string
  | VYield string
  | VRunEnd string string string
  | VExpire string
  | VDelete string
  | VAuthorize authorization

fun service_step :: "dispatch_env \<Rightarrow> service_op \<Rightarrow> time \<Rightarrow> coord_state \<Rightarrow> coord_state" where
  "service_step v (VDispatch m) now s = snd (dispatch_message v m now s)"
| "service_step v (VDispatchSession x) now s = snd (dispatch_for_session v x now s)"
| "service_step v (VInjected m run) now s = snd (mark_injected v m run now s)"
| "service_step v (VFailed m err meta) now s = snd (mark_failed m err meta now s)"
| "service_step v (VCancel x user m) now s = snd (cancel_message v x user m now s)"
| "service_step v (VYield run) now s = yield_to_human_guidance run now s"
| "service_step v (VRunEnd x run status) now s = on_run_terminal v x run status now s"
| "service_step v (VExpire target) now s = expire_undelivered_for_target target now s"
| "service_step v (VDelete x) now s = prepare_session_deletion x now s"
| "service_step v (VAuthorize a) now s = snd (handle_ask_user_resolution v a now s)"

fun service_run :: "(dispatch_env \<times> service_op \<times> time) list \<Rightarrow> coord_state \<Rightarrow> coord_state" where
  "service_run [] s = s"
| "service_run ((v, x, now) # xs) s = service_run xs (service_step v x now s)"

lemma service_step_spares:
  assumes "clean_ids (cs_db s)" and "keyed cm_id (db_coordination (cs_db s))"
  shows "spares (cs_db s) (cs_db (service_step v x now s))"
  using assms dispatch_changes [OF assms(1)]
  by (cases x) (simp_all add: injected_spares failed_spares cancel_spares yield_spares run_end_spares expire_spares
      delete_spares authorization_spares dispatch_for_session_def Let_def spares_def [of "cs_db s" "cs_db (snd (dispatch_message v m now s))" for m]
      split: list.split)

lemma service_run_spares:
  "clean_ids (cs_db s) \<Longrightarrow> keyed cm_id (db_coordination (cs_db s)) \<Longrightarrow> spares (cs_db s) (cs_db (service_run xs s))"
proof (induction xs arbitrary: s)
  case (Cons p xs)
  obtain v x now where p: "p = (v, x, now)" by (metis surj_pair)
  have st: "spares (cs_db s) (cs_db (service_step v x now s))" by (rule service_step_spares [OF Cons.prems])
  have "spares (cs_db (service_step v x now s)) (cs_db (service_run xs (service_step v x now s)))"
    using st Cons.prems clean_ids_changes keyed_changes unfolding spares_def by (intro Cons.IH [unfolded spares_def]) auto
  then show ?case using spares_trans [OF st _ Cons.prems(2)] p by simp
qed simp


section \<open>Examples\<close>

definition demo_env :: dispatch_env where
  "demo_env = \<lparr>de_owner_of = (\<lambda>s. Some ''u''), de_assignment = (\<lambda>m. Inr None), de_schedule = (\<lambda>m. Scheduled),
     de_run = (\<lambda>m. ''run_'' @ m), de_process = ''p1'', de_digest = (\<lambda>j. ''d'')\<rparr>"

definition demo_lane :: coord_state where
  "demo_lane = \<lparr>cs_db = empty_db\<lparr>
     db_runs := [new_run_row (demo_run ''r1'' ''s1'' [(''control_signal'', JObj (signal_value ''pause'' None []))]) 1000 0],
     db_lanes := [blank_lane\<lparr>ln_session := ''s1'', ln_active := Some ''r1''\<rparr>],
     db_coordination := [blank_message\<lparr>cm_id := ''q1'', cm_source_session := ''s0'', cm_target_session := ''s1'',
        cm_source_user := Some ''u'', cm_state := ''promoted'', cm_key := ''k1''\<rparr>,
       blank_message\<lparr>cm_id := ''q2'', cm_source_session := ''s0'', cm_target_session := ''s1'',
        cm_state := ''cancelled'', cm_key := ''k2''\<rparr>]\<rparr>, cs_emitted = []\<rparr>"

text \<open>The paused run keeps its signal; the message goes back to the queue.\<close>

lemma demo_requeued:
  "map (\<lambda>m. (cm_id m, cm_state m)) (db_coordination (cs_db (snd (dispatch_message demo_env ''q1'' 2000 demo_lane)))) =
   [(''q1'', ''queued''), (''q2'', ''cancelled'')]"
  by code_simp

theorem dispatch_displaces_no_signal_witness:
  "get_control_signal ''r1'' (cs_db (snd (dispatch_message demo_env ''q1'' 2000 demo_lane))) =
     Some (signal_value ''pause'' None [])"
proof -
  have "\<forall>m. run_of (de_run demo_env m) (cs_db demo_lane) = None"
    by (simp add: demo_env_def demo_lane_def new_run_row_def demo_run_def)
  moreover have "get_control_signal ''r1'' (cs_db demo_lane) = Some (signal_value ''pause'' None [])" by code_simp
  ultimately show ?thesis by (rule dispatch_displaces_no_signal) simp
qed


end
