(* ===== verification/ChatRoutes.thy ===== *)
theory ChatRoutes
  imports ChatQueue CoordinationService
begin

text \<open>
  Messages that arrive while a chat run works (api/chat_realtime_routes.py and the guidance branch
  of runtimes/chat/runtime.py): a message is queued when a run is active, edited, cancelled or
  promoted to guidance by the user, injected into the run, put back when the run ends first, and
  started as a run of its own when the session is free.

  A handler that checks a message reads it before it writes it: the state of that read is the
  argument \<open>d0\<close>. Event identifiers, fresh run identifiers, display texts and the answer to
  "could the guidance be prepared" are arguments. A handler stops at the first failing event; what
  it has committed before stays.
\<close>

section \<open>Statuses and events\<close>

record route_env =
  re_event :: "string \<Rightarrow> string \<Rightarrow> string"
  re_text :: "string \<Rightarrow> string"
  re_run :: string
  re_delivery :: dispatch_env

record chat_state =
  ct_db :: chat_db
  ct_emitted :: "(coordination_rec \<times> string) list"

definition active_chat_statuses :: "string list" where
  "active_chat_statuses = [''queued'', ''pending'', ''starting'', ''attached'', ''observing'', ''streaming'', ''running'',
     ''waiting'', ''waiting_approval'', ''waiting_input'', ''waiting_external_tool'', ''waiting_external'', ''paused'']"

definition terminal_chat_statuses :: "string list" where
  "terminal_chat_statuses = [''completed'', ''finished'', ''failed'', ''cancelled'', ''canceled'', ''interrupted'',
     ''blocked'', ''error'']"

definition fallback_active_chat_statuses :: "string list" where
  "fallback_active_chat_statuses = filter (\<lambda>s. s \<noteq> ''paused'') active_chat_statuses"

definition text_of :: "string option \<Rightarrow> string" where
  "text_of x = (case x of None \<Rightarrow> [] | Some s \<Rightarrow> s)"

definition on_core :: "(db \<Rightarrow> 'x \<times> db) \<Rightarrow> chat_db \<Rightarrow> 'x \<times> chat_db" where
  "on_core f d = (case f (cd_core d) of (x, e) \<Rightarrow> (x, d\<lparr>cd_core := e\<rparr>))"

definition null_time :: "time option \<Rightarrow> json" where
  "null_time t = (case t of None \<Rightarrow> JNull | Some n \<Rightarrow> JInt n)"

definition null_text :: "string option \<Rightarrow> json" where
  "null_text t = (case t of None \<Rightarrow> JNull | Some s \<Rightarrow> JStr s)"

definition queue_item_payload :: "chat_item \<Rightarrow> dict" where
  "queue_item_payload i =
     [(''id'', JStr (ci_id i)), (''sessionId'', JStr (ci_session i)), (''runId'', null_text (ci_run i)),
      (''clientMessageId'', null_text (ci_client i)), (''content'', JStr (ci_content i)),
      (''state'', JStr (or_text (ci_state i) ''pending'')), (''ordinal'', JInt (ci_ordinal i)),
      (''createdAt'', JInt (ci_created i)), (''updatedAt'', JInt (ci_updated i)),
      (''promotedAt'', null_time (ci_promoted i)), (''injectedAt'', null_time (ci_injected i)),
      (''consumedAt'', null_time (ci_consumed i)), (''cancelledAt'', null_time (ci_cancelled i))]"

definition guidance_source :: dict where
  "guidance_source = [(''plane'', JStr ''engine''), (''component'', JStr ''chat_runtime''),
     (''node'', JStr ''human_guidance_queue''), (''agent_id'', JNull)]"

definition emit_human_guidance_event ::
  "route_env \<Rightarrow> string \<Rightarrow> string \<Rightarrow> string option \<Rightarrow> chat_item \<Rightarrow> string \<Rightarrow> time \<Rightarrow> chat_db \<Rightarrow> bool \<times> chat_db" where
  "emit_human_guidance_event v topic session run i st now d =
     (case on_core (add_runtime_event \<lparr>ea_id = re_event v topic (ci_id i), ea_session = session, ea_run = run,
             ea_kind = ''event'', ea_topic = topic, ea_ts = Some now, ea_source = guidance_source,
             ea_payload = [(''queueMessage'', JObj (queue_item_payload i)), (''state'', JStr st),
                           (''summary'', JStr (re_text v topic))]\<rparr> now) d of
        (Inl _, d') \<Rightarrow> (False, d') | (Inr _, d') \<Rightarrow> (True, d'))"

section \<open>Queueing while a run is active\<close>

text \<open>The identifier and status of the active run; the record may be missing.\<close>

definition latest_active_run :: "string \<Rightarrow> db \<Rightarrow> (string \<times> string) option" where
  "latest_active_run session d =
     map_option (\<lambda>r. (rn_id r, rn_status r))
       (find (\<lambda>r. py_lower (py_strip (rn_status r)) \<in> set fallback_active_chat_statuses)
         (take 20 (sort_key (\<lambda>r. - rn_started r)
           (filter (\<lambda>r. rn_session r = session \<and> rn_type r = ''chat'') (db_runs d)))))"

definition find_active_chat_run :: "string \<Rightarrow> db \<Rightarrow> (string \<times> string) option" where
  "find_active_chat_run session d =
     (if session = [] then None
      else
        let lane = sel_by ln_session session (db_lanes d);
            run = (case lane of None \<Rightarrow> [] | Some l \<Rightarrow> norm_text (ln_active l));
            record = (if run = [] then None else run_of run d);
            st = (case lane of None \<Rightarrow> [] | Some l \<Rightarrow> py_lower (py_strip (ln_state l)));
            busy = (run \<noteq> [] \<and> st \<noteq> [] \<and> st \<notin> {''idle'', ''released''} \<union> set terminal_chat_statuses);
            others = (if busy then Some (run, st) else latest_active_run session d)
        in case record of
             None \<Rightarrow> others
           | Some r \<Rightarrow> if py_lower (py_strip (rn_status r)) \<in> set active_chat_statuses then Some (rn_id r, rn_status r)
                       else others)"

record chat_request =
  rq_resume :: "string option"
  rq_content :: string
  rq_has_files :: bool
  rq_client :: "string option"
  rq_args :: chat_args

datatype route_answer = RunNow | BadRequest nat | Failed500 | Accepted chat_item

definition existing_queue_item :: "string \<Rightarrow> string option \<Rightarrow> chat_db \<Rightarrow> chat_item option" where
  "existing_queue_item session client d =
     (if norm_text client = [] then None
      else get_chat_user_message_queue_item_by_client_message_id session (norm_text client) d)"

definition queued_args :: "route_env \<Rightarrow> chat_request \<Rightarrow> string \<Rightarrow> string \<times> string \<Rightarrow> string \<Rightarrow> chat_args" where
  "queued_args v q session active source =
     (rq_args q)\<lparr>cx_session := session, cx_run := Some (fst active), cx_client := rq_client q,
       cx_content := (if rq_content q = [] then re_text v ''attachments'' else rq_content q),
       cx_metadata := [(''source'', JStr source), (''activeRunStatus'', JStr (snd active))]\<rparr>"

definition queue_chat_request_while_run_active ::
  "route_env \<Rightarrow> chat_request \<Rightarrow> string \<Rightarrow> string \<Rightarrow> time \<Rightarrow> chat_db \<Rightarrow> route_answer \<times> chat_db" where
  "queue_chat_request_while_run_active v q session source now d =
     (if text_of (rq_resume q) \<noteq> [] then (RunNow, d)
      else case find_active_chat_run session (cd_core d) of
        None \<Rightarrow> (RunNow, d)
      | Some active \<Rightarrow>
          if rq_content q = [] \<and> \<not> rq_has_files q then (BadRequest 400, d)
          else case (case existing_queue_item session (rq_client q) d of
                 Some i \<Rightarrow> (Inr i, d)
               | None \<Rightarrow> add_chat_user_message_queue_item (queued_args v q session active source) now d) of
            (Inl _, d') \<Rightarrow> (Failed500, d')
          | (Inr i, d') \<Rightarrow>
              (case emit_human_guidance_event v ''human_guidance.queued'' session (Some (fst active)) i
                      (or_text (ci_state i) ''pending'') now d' of
                 (False, d2) \<Rightarrow> (Failed500, d2) | (True, d2) \<Rightarrow> (Accepted i, d2)))"

section \<open>Editing, cancelling, promoting\<close>

definition update_queued_message ::
  "route_env \<Rightarrow> string \<Rightarrow> string \<Rightarrow> time \<Rightarrow> chat_db \<Rightarrow> chat_db \<Rightarrow> route_answer \<times> chat_db" where
  "update_queued_message v q text now d0 d =
     (if py_strip text = [] then (BadRequest 400, d)
      else case get_chat_user_message_queue_item q d0 of
        None \<Rightarrow> (BadRequest 404, d)
      | Some i \<Rightarrow>
          if ci_state i \<noteq> ''pending'' then (BadRequest 409, d)
          else case update_chat_user_message_queue_item q (no_update\<lparr>cu_content := Some (py_strip text)\<rparr>) now d d of
            (Inr (Some u), d') \<Rightarrow>
              (case emit_human_guidance_event v ''human_guidance.queued'' (ci_session u) (ci_run u) u ''pending'' now d' of
                 (False, d2) \<Rightarrow> (Failed500, d2) | (True, d2) \<Rightarrow> (Accepted u, d2))
          | (Inr None, d') \<Rightarrow> (BadRequest 404, d')
          | (Inl _, d') \<Rightarrow> (Failed500, d'))"

definition mark_item :: "string \<Rightarrow> string \<Rightarrow> chat_update" where
  "mark_item st stamp = no_update\<lparr>cu_state := Some st, cu_stamp := Some stamp\<rparr>"

definition cancel_queued_message ::
  "route_env \<Rightarrow> string \<Rightarrow> time \<Rightarrow> chat_db \<Rightarrow> chat_db \<Rightarrow> route_answer \<times> chat_db" where
  "cancel_queued_message v q now d0 d =
     (case get_chat_user_message_queue_item q d0 of
        None \<Rightarrow> (BadRequest 404, d)
      | Some i \<Rightarrow>
          if ci_state i \<notin> {''pending'', ''promoted''} then (BadRequest 409, d)
          else case update_chat_user_message_queue_item q (mark_item ''cancelled'' ''cancelled_at'') now d d of
            (Inl _, d') \<Rightarrow> (Failed500, d')
          | (Inr res, d') \<Rightarrow>
              let u = (case res of None \<Rightarrow> i | Some u \<Rightarrow> u)
              in (case emit_human_guidance_event v ''human_guidance.cancelled'' (ci_session i) (ci_run i) u ''cancelled'' now d' of
                    (False, d2) \<Rightarrow> (Failed500, d2) | (True, d2) \<Rightarrow> (Accepted u, d2)))"

definition with_coordination :: "(coord_state \<Rightarrow> coord_state) \<Rightarrow> chat_state \<Rightarrow> chat_state" where
  "with_coordination f s =
     (let c = f \<lparr>cs_db = cd_core (ct_db s), cs_emitted = ct_emitted s\<rparr>
      in \<lparr>ct_db = (ct_db s)\<lparr>cd_core := cs_db c\<rparr>, ct_emitted = cs_emitted c\<rparr>)"

definition promotable_run :: "chat_item \<Rightarrow> chat_db \<Rightarrow> string option" where
  "promotable_run i d =
     (let run = norm_text (ci_run i)
      in case (if run = [] then None else run_of run (cd_core d)) of
        None \<Rightarrow> None
      | Some r \<Rightarrow> if py_lower (py_strip (rn_status r)) \<in> set active_chat_statuses then Some run else None)"

definition promote_queued_message ::
  "route_env \<Rightarrow> string \<Rightarrow> time \<Rightarrow> chat_db \<Rightarrow> chat_state \<Rightarrow> route_answer \<times> chat_state" where
  "promote_queued_message v q now d0 s =
     (case get_chat_user_message_queue_item q d0 of
        None \<Rightarrow> (BadRequest 404, s)
      | Some i \<Rightarrow>
          if ci_state i \<noteq> ''pending'' then (BadRequest 409, s)
          else case promotable_run i d0 of
            None \<Rightarrow> (BadRequest 409, s)
          | Some run \<Rightarrow>
              (case update_chat_user_message_queue_item q (mark_item ''promoted'' ''promoted_at'') now (ct_db s) (ct_db s) of
                 (Inl _, d') \<Rightarrow> (Failed500, s\<lparr>ct_db := d'\<rparr>)
               | (Inr res, d') \<Rightarrow>
                   let u = (case res of None \<Rightarrow> i | Some u \<Rightarrow> u);
                       s1 = with_coordination (yield_to_human_guidance run now) (s\<lparr>ct_db := d'\<rparr>);
                       d2 = snd (on_core (issue_control_signal run ''guidance'' (Some ''human_guidance_promoted'')
                              [(''queueMessageId'', JStr q)]) (ct_db s1))
                   in (case emit_human_guidance_event v ''human_guidance.promoted'' (ci_session i) (Some run) u ''promoted''
                              now d2 of
                         (False, d3) \<Rightarrow> (Failed500, s1\<lparr>ct_db := d3\<rparr>)
                       | (True, d3) \<Rightarrow> (Accepted u, s1\<lparr>ct_db := d3\<rparr>))))"

section \<open>Starting the next message\<close>

definition queued_run :: "string \<Rightarrow> string \<Rightarrow> string \<Rightarrow> run_args" where
  "queued_run run session q =
     \<lparr>ra_id = run, ra_session = session, ra_conversation = None, ra_thread = None, ra_user = None, ra_type = ''chat'',
      ra_status = ''queued'', ra_trigger = Some ''queued_user_message'', ra_agent = None, ra_workflow = None,
      ra_channel = None, ra_metadata = [(''source'', JStr ''chat_user_message_queue''), (''queueItemId'', JStr q)]\<rparr>"

definition claim_lost :: dict where
  "claim_lost = [(''source'', JStr ''chat_user_message_queue''), (''cancelReason'', JStr ''claim_lost'')]"

text \<open>The queued item and the run that is started for it. \<open>d0\<close> is the state of the look at the queue.\<close>

definition schedule_next_queued_user_message ::
  "route_env \<Rightarrow> string \<Rightarrow> time \<Rightarrow> chat_db \<Rightarrow> chat_db \<Rightarrow> (string \<times> string) option \<times> chat_db" where
  "schedule_next_queued_user_message v session now d0 d =
     (case list_chat_user_message_queue session [''pending''] 1 None d0 of
        [] \<Rightarrow> (None, d)
      | p # _ \<Rightarrow>
          (case on_core (create_run_record (queued_run (re_run v) session (ci_id p)) now) d of
             (Some _, d1) \<Rightarrow> (None, d1)
           | (None, d1) \<Rightarrow>
               (case claim_next_pending_chat_user_message session (re_run v) now d1 of
                  (Inl _, d2) \<Rightarrow> (None, d2)
                | (Inr None, d2) \<Rightarrow>
                    (None, d2\<lparr>cd_core := update_run_record (re_run v) ''cancelled''
                       (Some ''Queued user message was claimed by another drain before scheduling.'') claim_lost now (cd_core d2)\<rparr>)
                | (Inr (Some i), d2) \<Rightarrow>
                    (case emit_human_guidance_event v ''human_guidance.consumed'' session (Some (re_run v)) i ''consumed'' now d2 of
                       (False, d3) \<Rightarrow> (None, d3)
                     | (True, d3) \<Rightarrow> (Some (ci_id i, re_run v), d3)))))"

section \<open>The end of a chat run\<close>

fun emit_requeued :: "route_env \<Rightarrow> string \<Rightarrow> string \<Rightarrow> time \<Rightarrow> chat_item list \<Rightarrow> chat_db \<Rightarrow> bool \<times> chat_db" where
  "emit_requeued v session run now [] d = (True, d)"
| "emit_requeued v session run now (i # is) d =
     (case emit_human_guidance_event v ''human_guidance.queued'' session (Some run) i ''pending'' now d of
        (False, d') \<Rightarrow> (False, d') | (True, d') \<Rightarrow> emit_requeued v session run now is d')"

definition fire_on_chat_end :: "route_env \<Rightarrow> string \<Rightarrow> string \<Rightarrow> time \<Rightarrow> chat_state \<Rightarrow> (string \<times> string) option \<times> chat_state" where
  "fire_on_chat_end v session run now s =
     (if run = [] then (None, s)
      else
        let st = (case run_of run (cd_core (ct_db s)) of None \<Rightarrow> [] | Some r \<Rightarrow> py_lower (py_strip (rn_status r)));
            s1 = (if st \<in> set terminal_statuses
                  then with_coordination (on_run_terminal (re_delivery v) session run st now) s else s)
        in if st \<noteq> ''completed'' then (None, s1)
           else (case requeue_promoted_chat_user_messages_for_run session run ''run_completed_before_guidance_injection''
                        now (ct_db s1) of
             (rows, d2) \<Rightarrow>
               (case emit_requeued v session run now rows d2 of
                  (False, d3) \<Rightarrow> (None, s1\<lparr>ct_db := d3\<rparr>)
                | (True, d3) \<Rightarrow>
                    (case schedule_next_queued_user_message v session now d3 d3 of
                       (x, d4) \<Rightarrow> (x, s1\<lparr>ct_db := d4\<rparr>)))))"

section \<open>Guidance of a running supervisor\<close>

datatype guidance = NoGuidance | Missed string | NotPrepared string | Injected chat_item

text \<open>What becomes of the preparation of the continuation: ready, failed with an error, or none.\<close>

datatype preparation = GuidanceReady | GuidanceFailed string | NoContinuation

text \<open>The run consumes its control signal; a guidance signal names the message. It is read in
  whatever state it is in.\<close>

definition guided_message :: "json option \<Rightarrow> string option" where
  "guided_message sig = (case sig of
       Some (JObj g) \<Rightarrow> if dget g ''command'' = JStr ''guidance''
          then Some (py_strip (as_text (dget (as_dict (dget g ''payload'')) ''queueMessageId''))) else None
     | _ \<Rightarrow> None)"

definition inject_guidance ::
  "(chat_item \<Rightarrow> preparation) \<Rightarrow> string \<Rightarrow> time \<Rightarrow> chat_db \<Rightarrow> guidance \<times> chat_db" where
  "inject_guidance preparation run now d =
     (case on_core (\<lambda>e. consume_control_signal run e e) d of
        (sig, d1) \<Rightarrow>
          (case guided_message sig of
             None \<Rightarrow> (NoGuidance, d1)
           | Some q \<Rightarrow>
               (case get_chat_user_message_queue_item q d1 of
                  None \<Rightarrow> (Missed q, d1)
                | Some i \<Rightarrow>
                    (case preparation i of
                       NoContinuation \<Rightarrow> (NotPrepared q, d1)
                     | GuidanceFailed failure \<Rightarrow> (NotPrepared q, snd (update_chat_user_message_queue_item q (no_update\<lparr>cu_metadata :=
                         [(''guidanceInjectionFailure'', JStr failure), (''guidanceInjectionRunId'', JStr run)]\<rparr>) now d1 d1))
                     | GuidanceReady \<Rightarrow> (Injected i, snd (update_chat_user_message_queue_item (ci_id i)
                         (mark_item ''injected'' ''injected_at'') now d1 d1))))))"

section \<open>Histories\<close>

datatype chat_op =
    QSubmit chat_request string string
  | QEdit string string
  | QCancel string
  | QPromote string
  | QInject "chat_item \<Rightarrow> preparation" string
  | QEnd string string
  | QOther "db \<Rightarrow> db"

text \<open>The handlers one after the other; other components change the rest of the database at will.\<close>

fun chat_step :: "route_env \<Rightarrow> chat_op \<Rightarrow> time \<Rightarrow> chat_state \<Rightarrow> (string \<times> string) option \<times> chat_state" where
  "chat_step v (QSubmit q session source) now s =
     (None, s\<lparr>ct_db := snd (queue_chat_request_while_run_active v q session source now (ct_db s))\<rparr>)"
| "chat_step v (QEdit q text) now s = (None, s\<lparr>ct_db := snd (update_queued_message v q text now (ct_db s) (ct_db s))\<rparr>)"
| "chat_step v (QCancel q) now s = (None, s\<lparr>ct_db := snd (cancel_queued_message v q now (ct_db s) (ct_db s))\<rparr>)"
| "chat_step v (QPromote q) now s = (None, snd (promote_queued_message v q now (ct_db s) s))"
| "chat_step v (QInject prep run) now s = (None, s\<lparr>ct_db := snd (inject_guidance prep run now (ct_db s))\<rparr>)"
| "chat_step v (QEnd session run) now s = fire_on_chat_end v session run now s"
| "chat_step v (QOther f) now s = (None, s\<lparr>ct_db := (ct_db s)\<lparr>cd_core := f (cd_core (ct_db s))\<rparr>\<rparr>)"

fun chat_run :: "(route_env \<times> chat_op \<times> time) list \<Rightarrow> chat_state \<Rightarrow> (string \<times> string) list \<times> chat_state" where
  "chat_run [] s = ([], s)"
| "chat_run ((v, x, now) # xs) s =
     (case chat_step v x now s of (started, s') \<Rightarrow>
        (case chat_run xs s' of (later, s2) \<Rightarrow> ((case started of None \<Rightarrow> [] | Some p \<Rightarrow> [p]) @ later, s2)))"

text \<open>Messages are named by their identifiers as they are stored.\<close>

fun chat_legal :: "chat_op \<Rightarrow> bool" where
  "chat_legal (QEdit q text) \<longleftrightarrow> py_strip q = q"
| "chat_legal (QCancel q) \<longleftrightarrow> py_strip q = q"
| "chat_legal (QPromote q) \<longleftrightarrow> py_strip q = q"
| "chat_legal _ \<longleftrightarrow> True"

section \<open>Spent messages\<close>

definition spent_states :: "string set" where
  "spent_states = {''consumed'', ''injected'', ''cancelled''}"

definition item_keeps :: "chat_item \<Rightarrow> chat_item \<Rightarrow> bool" where
  "item_keeps x y \<longleftrightarrow> ci_id y = ci_id x \<and> (ci_state x \<in> spent_states \<longrightarrow> ci_state y \<in> spent_states)"

lemma item_keeps_refl [simp]: "item_keeps x x"
  by (simp add: item_keeps_def)

lemma item_keeps_trans: "item_keeps a b \<Longrightarrow> item_keeps b c \<Longrightarrow> item_keeps a c"
  by (simp add: item_keeps_def)

definition items_evolve :: "chat_db \<Rightarrow> chat_db \<Rightarrow> bool" where
  "items_evolve d d' \<longleftrightarrow> queue_wf d' \<and> table_evolves item_keeps (cd_items d) (cd_items d')"

lemma items_refl: "queue_wf d \<Longrightarrow> items_evolve d d"
  by (simp add: items_evolve_def table_evolves_refl)

lemma items_trans: "items_evolve a b \<Longrightarrow> items_evolve b c \<Longrightarrow> items_evolve a c"
  unfolding items_evolve_def by (blast intro: table_evolves_trans [where R = item_keeps] item_keeps_trans)

lemma items_wf: "items_evolve d d' \<Longrightarrow> queue_wf d'"
  by (simp add: items_evolve_def)

lemma items_same: "queue_wf d \<Longrightarrow> cd_items d' = cd_items d \<Longrightarrow> items_evolve d d'"
  by (simp add: items_evolve_def queue_wf_def session_ordinals_def table_evolves_refl)

lemma items_upd:
  assumes "queue_wf d'" and "cd_items d' = upd_where P f (cd_items d)"
    and "\<And>x. x \<in> set (cd_items d) \<Longrightarrow> P x \<Longrightarrow> item_keeps x (f x)"
  shows "items_evolve d d'"
  using assms by (simp add: items_evolve_def table_evolves_upd)

definition spent :: "string \<Rightarrow> chat_db \<Rightarrow> bool" where
  "spent q d \<longleftrightarrow> (\<exists>x. item_of q d = Some x \<and> ci_state x \<in> spent_states)"

lemma spent_stays: "items_evolve d d' \<Longrightarrow> spent q d \<Longrightarrow> spent q d'"
  unfolding items_evolve_def spent_def
  using table_evolves_sel [of item_keeps "cd_items d" "cd_items d'" ci_id q] by (fastforce simp: item_keeps_def)

lemma add_items: "queue_wf d \<Longrightarrow> items_evolve d (snd (add_chat_user_message_queue_item a now d))"
proof (cases "add_chat_user_message_queue_item a now d")
  case (Pair res d')
  assume wf: "queue_wf d"
  have wf': "queue_wf d'" using wf_add [OF wf, of a now] Pair by simp
  from Pair show ?thesis
  proof (cases rule: add_item_cases)
    case (inserted row)
    then show ?thesis using wf' Pair by (simp add: items_evolve_def table_evolves_append)
  qed (use wf Pair in \<open>simp_all add: items_refl\<close>)
qed

text \<open>An update is harmless unless it gives a spent message another state.\<close>

lemma update_items:
  assumes wf: "queue_wf d" and "\<And>x m. item_of q d = Some x \<Longrightarrow> item_keeps x (updated_item u m now x)"
  shows "items_evolve d (snd (update_chat_user_message_queue_item q u now d0 d))"
proof -
  have k: "keyed ci_id (cd_items d)" using wf by (simp add: queue_wf_def)
  have keeps: "item_keeps x (updated_item u m now x)" if "x \<in> set (cd_items d)" "ci_id x = q" for x m
    using assms(2) keyed_sel_iff [OF k, of q x] that by blast
  have "items_evolve d (d\<lparr>cd_items := upd_where (\<lambda>i. ci_id i = q) (updated_item u m now) (cd_items d)\<rparr>)" for m
    by (rule items_upd [where P = "\<lambda>i. ci_id i = q" and f = "updated_item u m now"])
      (simp_all add: keeps wf_upd [OF wf])
  then show ?thesis using items_refl [OF wf]
    by (simp add: update_chat_user_message_queue_item_def Let_def split: option.split)
qed

lemma emit_items:
  assumes "queue_wf d"
  shows "items_evolve d (snd (emit_human_guidance_event v topic session run i st now d))"
  by (rule items_same [OF assms])
    (simp add: emit_human_guidance_event_def on_core_def split_def split: sum.split)

lemma claim_items:
  assumes "queue_wf d"
  shows "items_evolve d (snd (claim_next_pending_chat_user_message s run now d))"
proof (cases "pending_items s d = [] \<or> unknown_run (Some run) d")
  case True
  then show ?thesis using claim_nothing [OF assms True] assms by (simp add: items_refl)
next
  case False
  then obtain i rest where p: "pending_items s d = i # rest" by (cases "pending_items s d") auto
  with False have run: "\<not> unknown_run (Some run) d" by simp
  show ?thesis
    by (rule items_upd [where P = "\<lambda>x. ci_id x = ci_id i" and f = "consumed_item run now"])
      (simp_all add: claim_head [OF assms p run] wf_claim [OF assms, of s run now, unfolded claim_head [OF assms p run] snd_conv]
        item_keeps_def spent_states_def consumed_item_def)
qed

lemma requeue_items:
  assumes "queue_wf d"
  shows "items_evolve d (snd (requeue_promoted_chat_user_messages_for_run s run reason now d))"
proof (cases "py_strip s = [] \<or> py_strip run = []")
  case True
  then show ?thesis using assms by (simp add: requeue_promoted_chat_user_messages_for_run_def items_refl)
next
  case False
  then have t: "cd_items (snd (requeue_promoted_chat_user_messages_for_run s run reason now d)) =
      upd_where (missed_guidance (py_strip s) (py_strip run)) (requeued_item reason now) (cd_items d)"
    by (simp add: requeue_promoted_chat_user_messages_for_run_def Let_def requeue_is_update [OF assms])
  show ?thesis
    by (rule items_upd [OF wf_requeue [OF assms] t])
      (simp add: item_keeps_def spent_states_def missed_guidance_def requeued_item_def)
qed

section \<open>No message is started twice\<close>

lemma then_emit:
  "items_evolve d d' \<Longrightarrow> items_evolve d (snd (emit_human_guidance_event v topic session run i st now d'))"
  by (rule items_trans [OF _ emit_items [OF items_wf]])

text \<open>A handler that answers after the event.\<close>

lemma answer_items:
  assumes "items_evolve d d'"
  shows "items_evolve d (snd (case emit_human_guidance_event v topic session run i st now d' of
      (False, d2) \<Rightarrow> (x, d2) | (True, d2) \<Rightarrow> (y, d2)))"
  using then_emit [OF assms, of v topic session run i st now]
  by (cases "emit_human_guidance_event v topic session run i st now d'") (simp split: bool.split)

lemma update_cases:
  assumes "items_evolve d (snd r)"
    and "\<And>e d'. r = (Inl e, d') \<Longrightarrow> items_evolve d d' \<Longrightarrow> items_evolve d (snd (f e d'))"
    and "\<And>x d'. r = (Inr x, d') \<Longrightarrow> items_evolve d d' \<Longrightarrow> items_evolve d (snd (g x d'))"
  shows "items_evolve d (snd (case r of (Inl e, d') \<Rightarrow> f e d' | (Inr x, d') \<Rightarrow> g x d'))"
proof (cases r)
  case (Pair y d')
  then show ?thesis using assms by (cases y) simp_all
qed

lemma submit_items:
  assumes wf: "queue_wf d"
  shows "items_evolve d (snd (queue_chat_request_while_run_active v q session source now d))"
proof (cases "text_of (rq_resume q) \<noteq> [] \<or> find_active_chat_run session (cd_core d) = None")
  case True
  then show ?thesis by (auto simp: queue_chat_request_while_run_active_def items_refl [OF wf])
next
  case False
  then obtain active where active: "find_active_chat_run session (cd_core d) = Some active"
    and fresh: "text_of (rq_resume q) = []" by auto
  let ?r = "case existing_queue_item session (rq_client q) d of
      Some i \<Rightarrow> (Inr i, d)
    | None \<Rightarrow> add_chat_user_message_queue_item (queued_args v q session active source) now d"
  have r: "items_evolve d (snd ?r)"
    by (simp add: items_refl [OF wf] add_items [OF wf] split: option.split)
  show ?thesis
    unfolding queue_chat_request_while_run_active_def active option.case
    by (simp only: fresh if_True if_False simp_thms snd_conv items_refl [OF wf] if_distrib [of snd])
      (auto simp: items_refl [OF wf] intro!: update_cases [OF r] answer_items split: if_splits)
qed

lemma edit_items:
  assumes wf: "queue_wf d"
  shows "items_evolve d (snd (update_queued_message v q text now d0 d))"
proof (cases "py_strip text = []")
  case False
  have r: "items_evolve d (snd (update_chat_user_message_queue_item q (no_update\<lparr>cu_content := x\<rparr>) now d d))" for x
    by (rule update_items [OF wf]) (simp add: item_keeps_def no_update_def)
  have step: "items_evolve d (snd (case update_chat_user_message_queue_item q (no_update\<lparr>cu_content := x\<rparr>) now d d of
            (Inr (Some u), d') \<Rightarrow>
              (case emit_human_guidance_event v ''human_guidance.queued'' (ci_session u) (ci_run u) u ''pending'' now d' of
                 (False, d2) \<Rightarrow> (Failed500, d2) | (True, d2) \<Rightarrow> (Accepted u, d2))
          | (Inr None, d') \<Rightarrow> (BadRequest 404, d')
          | (Inl _, d') \<Rightarrow> (Failed500, d')))" for x
    using r [of x] answer_items
    by (cases "update_chat_user_message_queue_item q (no_update\<lparr>cu_content := x\<rparr>) now d d")
      (auto split: sum.split option.split)
  show ?thesis unfolding update_queued_message_def using step items_refl [OF wf]
    by (simp split: option.split)
qed (simp add: update_queued_message_def items_refl [OF wf])

lemma cancel_items:
  assumes wf: "queue_wf d"
  shows "items_evolve d (snd (cancel_queued_message v q now d0 d))"
proof -
  have r: "items_evolve d (snd (update_chat_user_message_queue_item q (mark_item ''cancelled'' ''cancelled_at'') now d d))"
    by (rule update_items [OF wf]) (simp add: item_keeps_def mark_item_def spent_states_def no_update_def)
  show ?thesis unfolding cancel_queued_message_def Let_def
    by (auto simp: items_refl [OF wf] intro!: update_cases [OF r] answer_items split: option.split)
qed

lemma coordination_items [simp]: "cd_items (ct_db (with_coordination f s)) = cd_items (ct_db s)"
  by (simp add: with_coordination_def Let_def)

lemma core_items [simp]: "cd_items (snd (on_core f d)) = cd_items d"
  by (simp add: on_core_def split: prod.split)

lemma promote_items:
  assumes wf: "queue_wf (ct_db s)" and q: "py_strip q = q"
  shows "items_evolve (ct_db s) (ct_db (snd (promote_queued_message v q now (ct_db s) s)))"
proof -
  note refl = items_refl [OF wf]
  show ?thesis
  proof (cases "get_chat_user_message_queue_item q (ct_db s)")
    case None
    then show ?thesis by (simp add: promote_queued_message_def refl)
  next
    case (Some i)
    show ?thesis
    proof (cases "ci_state i = ''pending''")
      case False
      then show ?thesis by (simp add: promote_queued_message_def refl Some)
    next
      case True
      let ?upd = "update_chat_user_message_queue_item q (mark_item ''promoted'' ''promoted_at'') now (ct_db s) (ct_db s)"
      have "item_keeps x (updated_item (mark_item ''promoted'' ''promoted_at'') m now x)"
        if "item_of q (ct_db s) = Some x" for x m
        using that Some True q
        by (simp add: get_chat_user_message_queue_item_def item_keeps_def spent_states_def split: if_splits)
      then have upd: "items_evolve (ct_db s) (snd ?upd)" by (rule update_items [OF wf])
      obtain res d' where r: "?upd = (res, d')" by (cases ?upd)
      have base: "items_evolve (ct_db s) d'" using upd r by simp
      have later: "items_evolve (ct_db s) d2" if "cd_items d2 = cd_items d'" for d2
        using items_trans [OF base items_same [OF items_wf [OF base] that]] .
      show ?thesis
      proof (cases "promotable_run i (ct_db s)")
        case None
        then show ?thesis by (simp add: promote_queued_message_def refl Some True)
      next
        case run: (Some run)
        show ?thesis
        proof (cases res)
          case (Inl e)
          then show ?thesis using base by (simp add: promote_queued_message_def Some True run r)
        next
          case (Inr x)
          let ?s1 = "with_coordination (yield_to_human_guidance run now) (s\<lparr>ct_db := d'\<rparr>)"
          let ?d2 = "snd (on_core (issue_control_signal run ''guidance'' (Some ''human_guidance_promoted'')
                              [(''queueMessageId'', JStr q)]) (ct_db ?s1))"
          let ?u = "case x of None \<Rightarrow> i | Some u \<Rightarrow> u"
          have d2: "items_evolve (ct_db s) ?d2" by (rule later) simp
          obtain b d3 where e: "emit_human_guidance_event v ''human_guidance.promoted'' (ci_session i) (Some run) ?u
              ''promoted'' now ?d2 = (b, d3)" by (meson surj_pair)
          have "items_evolve (ct_db s) d3" using then_emit [OF d2] e by (metis snd_conv)
          then show ?thesis
            by (cases b) (simp_all add: promote_queued_message_def Let_def Some True run r Inr e)
        qed
      qed
    qed
  qed
qed

lemma inject_items:
  assumes wf: "queue_wf d"
  shows "items_evolve d (snd (inject_guidance prep run now d))"
proof -
  obtain sig d1 where c: "on_core (\<lambda>e. consume_control_signal run e e) d = (sig, d1)" by (meson surj_pair)
  have "cd_items d1 = cd_items d" using core_items [of "\<lambda>e. consume_control_signal run e e" d] c by simp
  then have d1: "items_evolve d d1" by (rule items_same [OF wf])
  have upd: "items_evolve d (snd (update_chat_user_message_queue_item q u now d1 d1))"
    if "cu_state u \<in> {None, Some ''injected''}" for q u
    by (rule items_trans [OF d1 update_items [OF items_wf [OF d1]]])
      (use that in \<open>auto simp: item_keeps_def spent_states_def\<close>)
  show ?thesis unfolding inject_guidance_def c
    by (auto simp: d1 mark_item_def no_update_def intro!: upd split: option.split preparation.split)
qed

lemma emit_requeued_items:
  "queue_wf d \<Longrightarrow> items_evolve d (snd (emit_requeued v session run now rows d))"
proof (induction rows arbitrary: d)
  case (Cons i rows)
  obtain b d' where e: "emit_human_guidance_event v ''human_guidance.queued'' session (Some run) i ''pending'' now d = (b, d')"
    by (meson surj_pair)
  have d': "items_evolve d d'" using emit_items [OF Cons.prems] e by (metis snd_conv)
  show ?case using d' items_trans [OF d' Cons.IH [OF items_wf [OF d']]] by (cases b) (simp_all add: e)
qed (simp add: items_refl)

text \<open>A drain starts a message that was waiting, and leaves it spent.\<close>

lemma claimed_spent:
  assumes wf: "queue_wf d" and c: "claim_next_pending_chat_user_message s run now d = (Inr (Some i), d')"
  shows "\<not> spent (ci_id i) d" and "spent (ci_id i) d'"
proof -
  have "\<not> (pending_items s d = [] \<or> unknown_run (Some run) d)"
    using claim_nothing [OF wf, of s run now] c by auto
  then obtain x rest where p: "pending_items s d = x # rest" and run: "\<not> unknown_run (Some run) d"
    by (cases "pending_items s d") auto
  have k: "keyed ci_id (cd_items d)" using wf by (simp add: queue_wf_def)
  have i: "i = consumed_item run now x"
    and d': "cd_items d' = upd_where (\<lambda>y. ci_id y = ci_id x) (consumed_item run now) (cd_items d)"
    using claim_head [OF wf p run, of now] c by auto
  have "x \<in> set (pending_items s d)" using p by simp
  then have x: "x \<in> set (cd_items d)" "ci_state x = ''pending''" by (simp_all add: pending_items_def)
  then have sel: "item_of (ci_id x) d = Some x" using keyed_sel_iff [OF k, of "ci_id x" x] by simp
  then show "\<not> spent (ci_id i) d" by (simp add: spent_def i x(2) spent_states_def)
  have "item_of (ci_id x) d' = Some (consumed_item run now x)"
    using sel by (simp add: d' sel_by_upd_where)
  then show "spent (ci_id i) d'" by (simp add: spent_def i spent_states_def)
qed

definition starts :: "chat_db \<Rightarrow> (string \<times> string) option \<Rightarrow> chat_db \<Rightarrow> bool" where
  "starts d started d' \<longleftrightarrow> items_evolve d d' \<and>
     (case started of None \<Rightarrow> True | Some (q, run) \<Rightarrow> \<not> spent q d \<and> spent q d')"

lemma starts_none [simp]: "starts d None d' = items_evolve d d'"
  by (simp add: starts_def)

lemma starts_after: "items_evolve d d1 \<Longrightarrow> starts d1 x d2 \<Longrightarrow> starts d x d2"
  unfolding starts_def using items_trans [of d d1 d2] spent_stays [of d d1]
  by (auto split: option.split)

lemma starts_before: "starts d x d1 \<Longrightarrow> items_evolve d1 d2 \<Longrightarrow> starts d x d2"
  unfolding starts_def using items_trans [of d d1 d2] spent_stays [of d1 d2]
  by (auto split: option.split)

lemma schedule_starts:
  assumes wf: "queue_wf d"
  shows "starts d (fst (schedule_next_queued_user_message v session now d0 d))
    (snd (schedule_next_queued_user_message v session now d0 d))"
proof (cases "list_chat_user_message_queue session [''pending''] 1 None d0")
  case Nil
  then show ?thesis by (simp add: schedule_next_queued_user_message_def items_refl [OF wf])
next
  case (Cons p ps)
  obtain err d1 where c: "on_core (create_run_record (queued_run (re_run v) session (ci_id p)) now) d = (err, d1)"
    by (meson surj_pair)
  have "cd_items d1 = cd_items d"
    using core_items [of "create_run_record (queued_run (re_run v) session (ci_id p)) now" d] c by simp
  then have d1: "items_evolve d d1" by (rule items_same [OF wf])
  show ?thesis
  proof (cases err)
    case (Some e)
    then show ?thesis by (simp add: schedule_next_queued_user_message_def Cons c d1)
  next
    case None
    obtain res d2 where cl: "claim_next_pending_chat_user_message session (re_run v) now d1 = (res, d2)"
      by (meson surj_pair)
    have d2: "items_evolve d d2"
      using items_trans [OF d1 claim_items [OF items_wf [OF d1]]] cl by (metis snd_conv)
    consider (bad) e where "res = Inl e" | (lost) "res = Inr None" | (got) i where "res = Inr (Some i)"
      by (metis not_None_eq sum.exhaust)
    then show ?thesis
    proof cases
      case bad
      then show ?thesis by (simp add: schedule_next_queued_user_message_def Cons c None cl d2)
    next
      case lost
      have "items_evolve d (d2\<lparr>cd_core := x\<rparr>)" for x
        by (rule items_trans [OF d2 items_same [OF items_wf [OF d2]]]) simp
      then show ?thesis by (simp add: schedule_next_queued_user_message_def Cons c None cl lost)
    next
      case got
      obtain b d3 where e: "emit_human_guidance_event v ''human_guidance.consumed'' session (Some (re_run v)) i
          ''consumed'' now d2 = (b, d3)" by (meson surj_pair)
      have d3: "items_evolve d2 d3" using emit_items [OF items_wf [OF d2]] e by (metis snd_conv)
      note sp = claimed_spent [OF items_wf [OF d1] cl [unfolded got]]
      have "starts d (Some (ci_id i, re_run v)) d3"
        unfolding starts_def using items_trans [OF d2 d3] sp(1) spent_stays [OF d1] spent_stays [OF d3 sp(2)] by auto
      then show ?thesis
        by (cases b) (simp_all add: schedule_next_queued_user_message_def Cons c None cl got e items_trans [OF d2 d3])
    qed
  qed
qed

lemma chat_end_starts:
  assumes wf: "queue_wf (ct_db s)"
  shows "starts (ct_db s) (fst (fire_on_chat_end v session run now s)) (ct_db (snd (fire_on_chat_end v session run now s)))"
proof (cases "run = []")
  case True
  then show ?thesis by (simp add: fire_on_chat_end_def items_refl [OF wf])
next
  case False
  let ?st = "case run_of run (cd_core (ct_db s)) of None \<Rightarrow> [] | Some r \<Rightarrow> py_lower (py_strip (rn_status r))"
  let ?s1 = "if ?st \<in> set terminal_statuses
      then with_coordination (on_run_terminal (re_delivery v) session run ?st now) s else s"
  have s1: "items_evolve (ct_db s) (ct_db ?s1)" by (rule items_same [OF wf]) simp
  show ?thesis
  proof (cases "?st = ''completed''")
    case False
    then show ?thesis using s1 \<open>run \<noteq> []\<close> by (simp add: fire_on_chat_end_def Let_def)
  next
    case True
    obtain rows d2 where r: "requeue_promoted_chat_user_messages_for_run session run
        ''run_completed_before_guidance_injection'' now (ct_db ?s1) = (rows, d2)" by (meson surj_pair)
    have d2: "items_evolve (ct_db s) d2"
      using items_trans [OF s1 requeue_items [OF items_wf [OF s1]]] r by (metis snd_conv)
    obtain b d3 where e: "emit_requeued v session run now rows d2 = (b, d3)" by (meson surj_pair)
    have d3: "items_evolve (ct_db s) d3"
      using items_trans [OF d2 emit_requeued_items [OF items_wf [OF d2]]] e by (metis snd_conv)
    obtain x d4 where x: "schedule_next_queued_user_message v session now d3 d3 = (x, d4)" by (meson surj_pair)
    have "starts (ct_db s) x d4"
      using starts_after [OF d3 schedule_starts [OF items_wf [OF d3], of v session now d3]] x by simp
    moreover have "fire_on_chat_end v session run now s =
        (if b then (x, ?s1\<lparr>ct_db := d4\<rparr>) else (None, ?s1\<lparr>ct_db := d3\<rparr>))"
      unfolding fire_on_chat_end_def Let_def
      by (cases b) (simp_all only: False True r [unfolded True] e x if_True if_False prod.case simp_thms bool.case)
    ultimately show ?thesis using d3 by simp
  qed
qed

lemma chat_step_starts:
  assumes wf: "queue_wf (ct_db s)" and "chat_legal x"
  shows "starts (ct_db s) (fst (chat_step v x now s)) (ct_db (snd (chat_step v x now s)))"
proof (cases x)
  case (QPromote q)
  then show ?thesis using promote_items [OF wf] assms(2) by simp
next
  case (QOther f)
  then show ?thesis by (simp add: items_same [OF wf])
qed (use wf in \<open>simp_all add: submit_items edit_items cancel_items inject_items chat_end_starts\<close>)


section \<open>Examples\<close>

definition demo_route :: "string \<Rightarrow> route_env" where
  "demo_route run = \<lparr>re_event = (\<lambda>topic q. topic @ run), re_text = (\<lambda>x. x), re_run = run, re_delivery = demo_env\<rparr>"

definition demo_request :: "string \<Rightarrow> string \<Rightarrow> chat_request" where
  "demo_request q text = \<lparr>rq_resume = None, rq_content = text, rq_has_files = False, rq_client = Some (''c'' @ q),
     rq_args = \<lparr>cx_id = q, cx_session = [], cx_run = None, cx_client = None, cx_content = [], cx_attachments = [],
                cx_file_urls = [], cx_request = [], cx_metadata = []\<rparr>\<rparr>"

definition demo_chat :: chat_state where
  "demo_chat = \<lparr>ct_db = \<lparr>cd_core = empty_db\<lparr>db_runs := [(new_run_row (demo_run ''r1'' ''s1'' []) 10 0)\<lparr>rn_type := ''chat''\<rparr>]\<rparr>,
     cd_sessions = [\<lparr>se_id = ''s1'', se_updated = 0\<rparr>], cd_items = []\<rparr>, ct_emitted = []\<rparr>"

definition run_done :: "string \<Rightarrow> db \<Rightarrow> db" where
  "run_done run d = update_run_record run ''completed'' None [] 50 d"

definition demo_chat_ops :: "(route_env \<times> chat_op \<times> time) list" where
  "demo_chat_ops = [(demo_route ''r2'', QSubmit (demo_request ''q1'' ''hello'') ''s1'' ''api'', 20),
     (demo_route ''r2'', QOther (run_done ''r1''), 50), (demo_route ''r2'', QEnd ''s1'' ''r1'', 60)]"

lemma demo_chat_started: "fst (chat_run demo_chat_ops demo_chat) = [(''q1'', ''r2'')]"
  by code_simp


section \<open>What guidance does not respect\<close>

definition demo_waiting :: "string \<Rightarrow> dict \<Rightarrow> chat_state" where
  "demo_waiting status meta = \<lparr>ct_db = \<lparr>cd_core = empty_db\<lparr>db_runs :=
       [(new_run_row (demo_run ''r1'' ''s1'' meta) 10 0)\<lparr>rn_type := ''chat'', rn_status := status\<rparr>]\<rparr>,
     cd_sessions = [\<lparr>se_id = ''s1'', se_updated = 0\<rparr>],
     cd_items = [new_item \<lparr>cx_id = ''q1'', cx_session = ''s1'', cx_run = Some ''r1'', cx_client = None, cx_content = ''stop'',
       cx_attachments = [], cx_file_urls = [], cx_request = [], cx_metadata = []\<rparr> None 1 20]\<rparr>, ct_emitted = []\<rparr>"

text \<open>A message that the user promotes and then cancels is injected all the same: the cancellation
  leaves the control signal, and the injection does not look at the state of the message.\<close>

lemma cancelled_message_is_injected:
  "map (\<lambda>i. (ci_state i, ci_cancelled i, ci_injected i)) (cd_items (ct_db (snd (chat_run
     [(demo_route ''r2'', QPromote ''q1'', 30), (demo_route ''r3'', QCancel ''q1'', 31),
      (demo_route ''r4'', QInject (\<lambda>i. GuidanceReady) ''r1'', 32)] (demo_waiting ''running'' []))))) =
   [(''injected'', Some 31, Some 32)]"
  by code_simp

text \<open>A promotion replaces the pause that waits for the run.\<close>

lemma promotion_displaces_a_pause:
  "map_option (\<lambda>g. dget g ''command'') (get_control_signal ''r1'' (cd_core (ct_db (snd (promote_queued_message (demo_route ''r2'')
     ''q1'' 30 (ct_db (demo_waiting ''paused'' [(''control_signal'', JObj (signal_value ''pause'' None []))]))
     (demo_waiting ''paused'' [(''control_signal'', JObj (signal_value ''pause'' None []))])))))) = Some (JStr ''guidance'')"
  by code_simp

text \<open>A lane record that names a run which is gone keeps the session busy: messages are queued and
  nothing drains the queue.\<close>

lemma stale_lane_keeps_the_session_busy:
  "find_active_chat_run ''s1'' (empty_db\<lparr>db_runs := [(new_run_row (demo_run ''r1'' ''s1'' []) 10 0)\<lparr>rn_status := ''completed''\<rparr>],
     db_lanes := [blank_lane\<lparr>ln_session := ''s1'', ln_active := Some ''r1'', ln_state := ''active''\<rparr>]\<rparr>) =
   Some (''r1'', ''active'')"
  by code_simp

end
