(* ===== verification/SessionLane.thy ===== *)
theory SessionLane
  imports Prelude
begin

text \<open>
  erc/session_lane_scheduler.py: at most one run of a session is active; others are rejected, or
  wait on a condition variable until the lane is free. The lock makes each method, and each pass
  of the waiting loop, one step; the steps of the threads are interleaved by an unknown scheduler,
  so the machine is a relation. Interrupting the active run is a command to the run
  (core/command_service), recorded in the decision.
\<close>

subsection \<open>The methods\<close>

record lane_decision =
  ln_acquired :: bool
  ln_policy :: string
  ln_waited :: bool
  ln_active_run :: "string option"
  ln_rejected_by :: "string option"
  ln_interrupted :: "string option"

type_synonym lane_map = "string \<Rightarrow> string option"

definition lane_policy :: "string option \<Rightarrow> string" where
  "lane_policy policy = or_text (py_lower (py_strip (or_text (case policy of None \<Rightarrow> [] | Some p \<Rightarrow> p) ''queue''))) ''queue''"

definition lane_taken :: "string \<Rightarrow> lane_decision" where
  "lane_taken policy = \<lparr>ln_acquired = True, ln_policy = policy, ln_waited = False, ln_active_run = None,
     ln_rejected_by = None, ln_interrupted = None\<rparr>"

definition lane_rejected :: "string \<Rightarrow> string \<Rightarrow> lane_decision" where
  "lane_rejected policy current = \<lparr>ln_acquired = False, ln_policy = policy, ln_waited = False, ln_active_run = Some current,
     ln_rejected_by = Some current, ln_interrupted = None\<rparr>"

text \<open>The run that the policy interrupts, if any.\<close>

definition lane_interrupts :: "string \<Rightarrow> string \<Rightarrow> string \<Rightarrow> string option" where
  "lane_interrupts policy current run =
     (if policy = ''interrupt_then_replace'' \<and> current \<noteq> run then Some current else None)"

definition try_acquire :: "string \<Rightarrow> string \<Rightarrow> string option \<Rightarrow> lane_map \<Rightarrow> lane_decision \<times> lane_map" where
  "try_acquire session run policy active =
     (let p = lane_policy policy in
      case active session of
        None \<Rightarrow> (lane_taken p, active(session \<mapsto> run))
      | Some current \<Rightarrow>
          (if p = ''reject'' then (lane_rejected p current, active)
           else (\<lparr>ln_acquired = False, ln_policy = p, ln_waited = True, ln_active_run = Some current,
                  ln_rejected_by = None, ln_interrupted = lane_interrupts p current run\<rparr>, active)))"

text \<open>The part of \<^verbatim>\<open>acquire\<close> before its loop: a decision, or a request that waits.\<close>

record lane_request =
  lr_session :: string
  lr_run :: string
  lr_policy :: string
  lr_active :: string
  lr_interrupted :: "string option"

definition acquire_entry ::
  "string \<Rightarrow> string \<Rightarrow> string option \<Rightarrow> lane_map \<Rightarrow> (lane_decision + lane_request) \<times> lane_map" where
  "acquire_entry session run policy active =
     (let p = lane_policy policy in
      case active session of
        None \<Rightarrow> (Inl (lane_taken p), active(session \<mapsto> run))
      | Some current \<Rightarrow>
          (if p = ''reject'' then (Inl (lane_rejected p current), active)
           else (Inr \<lparr>lr_session = session, lr_run = run, lr_policy = p, lr_active = current,
                      lr_interrupted = lane_interrupts p current run\<rparr>, active)))"

text \<open>One pass of the loop: the lane is taken if it is free, otherwise the thread waits.\<close>

definition acquire_pass :: "lane_request \<Rightarrow> lane_map \<Rightarrow> lane_decision option \<times> lane_map" where
  "acquire_pass rq active =
     (case active (lr_session rq) of
        None \<Rightarrow> (Some \<lparr>ln_acquired = True, ln_policy = lr_policy rq, ln_waited = True, ln_active_run = Some (lr_active rq),
                      ln_rejected_by = None, ln_interrupted = lr_interrupted rq\<rparr>, active(lr_session rq \<mapsto> lr_run rq))
      | Some _ \<Rightarrow> (None, active))"

definition lane_release :: "string \<Rightarrow> string \<Rightarrow> lane_map \<Rightarrow> bool \<times> lane_map" where
  "lane_release session run active =
     (if active session = Some run then (True, active(session := None)) else (False, active))"

definition get_active_run :: "string \<Rightarrow> lane_map \<Rightarrow> string option" where
  "get_active_run session active = active session"

text \<open>\<^verbatim>\<open>idle_mutation\<close> refuses while a run is active; its block runs under the lock,
  so no step of the machine happens during it.\<close>

definition idle_mutation :: "string \<Rightarrow> lane_map \<Rightarrow> bool" where
  "idle_mutation session active = (case active session of None \<Rightarrow> True | Some r \<Rightarrow> r = [])"

subsection \<open>The machine\<close>

datatype waiter = Sleeping lane_request | Runnable lane_request

record lanes =
  la_active :: lane_map
  la_threads :: "nat \<Rightarrow> waiter option"

definition lanes0 :: lanes where
  "lanes0 = \<lparr>la_active = (\<lambda>_. None), la_threads = (\<lambda>_. None)\<rparr>"

fun notified :: "waiter \<Rightarrow> waiter" where
  "notified (Sleeping rq) = Runnable rq"
| "notified (Runnable rq) = Runnable rq"

datatype lane_label =
    LAcquired string string
  | LReleased string string
  | LOther

definition decision_label :: "string \<Rightarrow> string \<Rightarrow> lane_decision \<Rightarrow> lane_label" where
  "decision_label session run d = (if ln_acquired d then LAcquired session run else LOther)"

inductive lane_step :: "lanes \<Rightarrow> lane_label \<Rightarrow> lanes \<Rightarrow> bool" where
  try_step: "try_acquire session run policy (la_active s) = (d, active) \<Longrightarrow>
     lane_step s (decision_label session run d) (s\<lparr>la_active := active\<rparr>)"
| entered: "la_threads s t = None \<Longrightarrow> acquire_entry session run policy (la_active s) = (Inl d, active) \<Longrightarrow>
     lane_step s (decision_label session run d) (s\<lparr>la_active := active\<rparr>)"
| waits: "la_threads s t = None \<Longrightarrow> acquire_entry session run policy (la_active s) = (Inr rq, active) \<Longrightarrow>
     lane_step s LOther (s\<lparr>la_active := active, la_threads := (la_threads s)(t \<mapsto> Sleeping rq)\<rparr>)"
| woken: "la_threads s t = Some (Runnable rq) \<Longrightarrow> acquire_pass rq (la_active s) = (Some d, active) \<Longrightarrow>
     lane_step s (LAcquired (lr_session rq) (lr_run rq)) (s\<lparr>la_active := active, la_threads := (la_threads s)(t := None)\<rparr>)"
| waits_again: "la_threads s t = Some (Runnable rq) \<Longrightarrow> acquire_pass rq (la_active s) = (None, active) \<Longrightarrow>
     lane_step s LOther (s\<lparr>la_active := active, la_threads := (la_threads s)(t \<mapsto> Sleeping rq)\<rparr>)"
| release_step: "lane_release session run (la_active s) = (True, active) \<Longrightarrow>
     lane_step s (LReleased session run) (s\<lparr>la_active := active, la_threads := map_option notified \<circ> la_threads s\<rparr>)"
| stale_release: "lane_release session run (la_active s) = (False, active) \<Longrightarrow>
     lane_step s LOther (s\<lparr>la_active := active\<rparr>)"

inductive lane_steps :: "lanes \<Rightarrow> lane_label list \<Rightarrow> lanes \<Rightarrow> bool" where
  no_step: "lane_steps s [] s"
| more_steps: "lane_steps s ls s' \<Longrightarrow> lane_step s' l s'' \<Longrightarrow> lane_steps s (ls @ [l]) s''"

subsection \<open>One run per session\<close>

text \<open>The owners a sequence of labels describes, and the sequences in which a lane is only taken
  when it is free and only given back by its owner.\<close>

fun owner_after :: "lane_map \<Rightarrow> lane_label \<Rightarrow> lane_map" where
  "owner_after m (LAcquired s r) = m(s \<mapsto> r)"
| "owner_after m (LReleased s r) = m(s := None)"
| "owner_after m LOther = m"

definition owners :: "lane_label list \<Rightarrow> lane_map" where
  "owners ls = foldl owner_after (\<lambda>_. None) ls"

fun label_fits :: "lane_map \<Rightarrow> lane_label \<Rightarrow> bool" where
  "label_fits m (LAcquired s r) \<longleftrightarrow> m s = None"
| "label_fits m (LReleased s r) \<longleftrightarrow> m s = Some r"
| "label_fits m LOther \<longleftrightarrow> True"

lemma owners_simps [simp]: "owners [] = (\<lambda>_. None)" "owners (ls @ [l]) = owner_after (owners ls) l"
  by (simp_all add: owners_def)

lemma lane_step_owner: "lane_step s l s' \<Longrightarrow> label_fits (la_active s) l \<and> la_active s' = owner_after (la_active s) l"
  by (induction rule: lane_step.induct)
    (auto simp: try_acquire_def acquire_entry_def acquire_pass_def lane_release_def decision_label_def lane_taken_def
      lane_rejected_def Let_def split: option.splits if_splits)

lemma lane_steps_owner: "lane_steps s ls s' \<Longrightarrow> s = lanes0 \<Longrightarrow> la_active s' = owners ls"
  by (induction rule: lane_steps.induct) (simp_all add: lanes0_def lane_step_owner)

lemma lane_steps_fits: "lane_steps s ls s' \<Longrightarrow> s = lanes0 \<Longrightarrow> k < length ls \<Longrightarrow> label_fits (owners (take k ls)) (ls ! k)"
proof (induction arbitrary: k rule: lane_steps.induct)
  case (more_steps s ls s' l s'')
  then show ?case using lane_step_owner [OF more_steps.hyps(2)] lane_steps_owner [OF more_steps.hyps(1)]
    by (cases "k < length ls") (simp_all add: nth_append not_less_eq)
qed simp

subsection \<open>No wakeup is lost\<close>

definition lanes_ok :: "lanes \<Rightarrow> bool" where
  "lanes_ok s \<longleftrightarrow> (\<forall>t rq. la_threads s t = Some (Sleeping rq) \<longrightarrow> la_active s (lr_session rq) \<noteq> None)"

lemma notified_runnable: "notified w \<noteq> Sleeping rq"
  by (cases w) simp_all

lemma lane_step_ok:
  assumes "lane_step s l s'" "lanes_ok s"
  shows "lanes_ok s'"
  using assms
proof (induction rule: lane_step.induct)
  case (release_step session run s active)
  then show ?case using notified_runnable by (auto simp: lanes_ok_def)
qed (auto simp: lanes_ok_def try_acquire_def acquire_entry_def acquire_pass_def lane_release_def Let_def
    split: option.splits if_splits)

lemma lane_steps_ok: "lane_steps s ls s' \<Longrightarrow> s = lanes0 \<Longrightarrow> lanes_ok s'"
  by (induction rule: lane_steps.induct) (simp_all add: lanes0_def lanes_ok_def lane_step_ok [unfolded lanes_ok_def])

lemma owner_kept:
  assumes "lane_steps lanes0 ls s" "ls ! i = LAcquired session run" "i < n" "n \<le> length ls"
    and "\<And>k. i < k \<Longrightarrow> k < n \<Longrightarrow> ls ! k \<noteq> LReleased session run"
  shows "owners (take n ls) session = Some run"
  using assms(3-)
proof (induction n)
  case (Suc n)
  have step: "take (Suc n) ls = take n ls @ [ls ! n]" using Suc.prems(2) by (simp add: take_Suc_conv_app_nth)
  show ?case
  proof (cases "i = n")
    case True
    then show ?thesis using step assms(2) by simp
  next
    case False
    then have o: "owners (take n ls) session = Some run" using Suc by simp
    have "ls ! n \<noteq> LReleased session run" using Suc.prems(1,3) False by simp
    moreover have "label_fits (owners (take n ls)) (ls ! n)" using lane_steps_fits [OF assms(1) refl] Suc.prems(2) by simp
    ultimately show ?thesis using o step by (cases "ls ! n") auto
  qed
qed simp

subsection \<open>Properties\<close>

text \<open>C38: a session has one active run. In every interleaving of the threads, once a run has been
  given the lane of a session, another run, or the same run again, is given it only after the
  first has released it; a release by anybody else does nothing.\<close>

theorem one_active_run_per_session:
  assumes "lane_steps lanes0 ls s" and "ls ! i = LAcquired session run" and "i < j" and "j < length ls"
    and "ls ! j = LAcquired session run'"
  shows "\<exists>k. i < k \<and> k < j \<and> ls ! k = LReleased session run"
proof (rule ccontr)
  assume "\<not> ?thesis"
  then have "owners (take j ls) session = Some run" using owner_kept [OF assms(1,2,3)] assms(4) by auto
  moreover have "label_fits (owners (take j ls)) (ls ! j)" using lane_steps_fits [OF assms(1) refl assms(4)] .
  ultimately show False using assms(5) by simp
qed

definition waiting_request :: lane_request where
  "waiting_request = \<lparr>lr_session = ''s'', lr_run = ''b'', lr_policy = ''queue'', lr_active = ''a'', lr_interrupted = None\<rparr>"

definition lane_trace :: "lane_label list" where
  "lane_trace = [LAcquired ''s'' ''a'', LOther, LReleased ''s'' ''a'']"

definition lane_free :: lanes where
  "lane_free = \<lparr>la_active = (\<lambda>_. None), la_threads = (\<lambda>_. None)(0 \<mapsto> Runnable waiting_request)\<rparr>"

lemma lane_policy_queue: "lane_policy None = ''queue''"
  by code_simp

lemma lane_trace_steps: "lane_steps lanes0 lane_trace lane_free"
proof -
  let ?a = "\<lparr>la_active = (\<lambda>_. None)(''s'' \<mapsto> ''a''), la_threads = (\<lambda>_. None)\<rparr>"
  let ?b = "\<lparr>la_active = (\<lambda>_. None)(''s'' \<mapsto> ''a''), la_threads = (\<lambda>_. None)(0 \<mapsto> Sleeping waiting_request)\<rparr>"
  have "lane_step lanes0 (LAcquired ''s'' ''a'') ?a"
    using try_step [of "''s''" "''a''" None lanes0 "lane_taken ''queue''" "(\<lambda>_. None)(''s'' \<mapsto> ''a'')"]
    by (simp add: try_acquire_def lanes0_def lane_policy_queue decision_label_def lane_taken_def)
  moreover have "lane_step ?a LOther ?b"
    using waits [of ?a 0 "''s''" "''b''" None waiting_request "(\<lambda>_. None)(''s'' \<mapsto> ''a'')"]
    by (simp add: acquire_entry_def lane_policy_queue waiting_request_def lane_interrupts_def)
  moreover have "lane_step ?b (LReleased ''s'' ''a'') lane_free"
    using release_step [of "''s''" "''a''" ?b "\<lambda>_. None"] by (simp add: lane_release_def lane_free_def fun_eq_iff)
  ultimately have "lane_steps lanes0 ((([] @ [LAcquired ''s'' ''a'']) @ [LOther]) @ [LReleased ''s'' ''a'']) lane_free"
    by (rule more_steps [OF more_steps [OF more_steps [OF no_step]]])
  then show ?thesis by (simp add: lane_trace_def)
qed

lemma lane_free_woken: "\<exists>s'. lane_step lane_free (LAcquired ''s'' ''b'') s'"
  using woken [of lane_free 0 waiting_request] by (auto simp: lane_free_def waiting_request_def acquire_pass_def)

theorem one_active_run_per_session_witness:
  "\<exists>s k. lane_steps lanes0 (lane_trace @ [LAcquired ''s'' ''b'']) s \<and> 0 < k \<and> k < 3 \<and>
     (lane_trace @ [LAcquired ''s'' ''b'']) ! k = LReleased ''s'' ''a''"
proof -
  obtain s where s: "lane_steps lanes0 (lane_trace @ [LAcquired ''s'' ''b'']) s"
    using lane_free_woken lane_trace_steps more_steps by blast
  have t: "(lane_trace @ [LAcquired ''s'' ''b'']) ! 0 = LAcquired ''s'' ''a''" "(0::nat) < 3"
    "3 < length (lane_trace @ [LAcquired ''s'' ''b''])" "(lane_trace @ [LAcquired ''s'' ''b'']) ! 3 = LAcquired ''s'' ''b''"
    by (simp_all add: lane_trace_def nth_append)
  from one_active_run_per_session [OF s t] s show ?thesis by blast
qed

text \<open>C39: no wakeup is lost. A thread that waits for a lane while the lane is free is never asleep:
  the release that freed the lane has made it runnable, and its next step gives it the lane.\<close>

theorem no_lost_wakeup:
  assumes "lane_steps lanes0 ls s" and "la_threads s t \<in> {Some (Sleeping rq), Some (Runnable rq)}"
    and "get_active_run (lr_session rq) (la_active s) = None"
  shows "la_threads s t = Some (Runnable rq) \<and>
    (\<exists>s'. lane_step s (LAcquired (lr_session rq) (lr_run rq)) s' \<and> la_threads s' t = None \<and>
       get_active_run (lr_session rq) (la_active s') = Some (lr_run rq))"
proof -
  have "lanes_ok s" using assms(1) by (rule lane_steps_ok) simp
  then have "la_threads s t \<noteq> Some (Sleeping rq)" using assms(3) unfolding lanes_ok_def get_active_run_def by blast
  then have r: "la_threads s t = Some (Runnable rq)" using assms(2) by simp
  obtain d where "acquire_pass rq (la_active s) = (Some d, (la_active s)(lr_session rq \<mapsto> lr_run rq))"
    using assms(3) by (simp add: acquire_pass_def get_active_run_def)
  from woken [OF r this] r show ?thesis by (fastforce simp: get_active_run_def)
qed

theorem no_lost_wakeup_witness:
  "\<exists>s'. lane_step lane_free (LAcquired ''s'' ''b'') s' \<and> get_active_run ''s'' (la_active s') = Some ''b''"
proof -
  have "la_threads lane_free 0 \<in> {Some (Sleeping waiting_request), Some (Runnable waiting_request)}"
    "get_active_run (lr_session waiting_request) (la_active lane_free) = None"
    by (simp_all add: lane_free_def get_active_run_def)
  from no_lost_wakeup [OF lane_trace_steps this] show ?thesis by (auto simp: waiting_request_def)
qed

end
