(* ===== verification/SessionAdmission.thy ===== *)
theory SessionAdmission
  imports SessionLane Runs
begin

text \<open>
  The durable side of session lanes: the tables \<^verbatim>\<open>session_lane_records\<close> and
  \<^verbatim>\<open>session_lane_queue_entries\<close> (core/database.py) and the service that writes a
  record for every decision of the scheduler (erc/session_admission_service.py), with the repair
  after a restart. The sessions and runs named are in their tables. Identifiers of history entries
  are an argument; the events of the repair are recorded as a list.
\<close>

section \<open>Tables\<close>

record lane_entry =
  le_id :: string
  le_session :: string
  le_run :: string
  le_action :: string
  le_policy :: string
  le_active :: "string option"
  le_interrupted :: "string option"
  le_metadata :: dict
  le_created :: time

record lane_service =
  am_lanes :: lane_map
  am_db :: db
  am_history :: "lane_entry list"
  am_events :: "(string \<times> string \<times> string) list"

abbreviation lane_record :: "string \<Rightarrow> db \<Rightarrow> lane_rec option" where
  "lane_record s d \<equiv> sel_by ln_session s (db_lanes d)"

record lane_write =
  lw_session :: string
  lw_active :: "string option"
  lw_queued :: "string option"
  lw_blocked :: "string option"
  lw_policy :: string
  lw_state :: string
  lw_transition :: "string option"
  lw_metadata :: dict

definition written_lane :: "lane_write \<Rightarrow> time \<Rightarrow> lane_rec \<Rightarrow> lane_rec" where
  "written_lane w now l =
     l\<lparr>ln_active := lw_active w, ln_queued := lw_queued w, ln_blocked := lw_blocked w, ln_mode := lw_policy w,
       ln_state := lw_state w, ln_transition := lw_transition w, ln_transition_ts := Some now,
       ln_metadata := lw_metadata w, ln_updated := now\<rparr>"

definition new_lane :: "lane_write \<Rightarrow> time \<Rightarrow> lane_rec" where
  "new_lane w now = \<lparr>ln_session = lw_session w, ln_active = lw_active w, ln_queued = lw_queued w,
     ln_blocked = lw_blocked w, ln_mode = lw_policy w, ln_state = lw_state w, ln_transition = lw_transition w,
     ln_transition_ts = Some now, ln_metadata = lw_metadata w, ln_updated = now\<rparr>"

definition upsert_session_lane_record :: "lane_write \<Rightarrow> time \<Rightarrow> db \<Rightarrow> db" where
  "upsert_session_lane_record w now d =
     d\<lparr>db_lanes := (if lane_record (lw_session w) d = None then db_lanes d @ [new_lane w now]
                    else upd_where (\<lambda>l. ln_session l = lw_session w) (written_lane w now) (db_lanes d))\<rparr>"

definition get_session_lane_record :: "string \<Rightarrow> db \<Rightarrow> lane_rec option" where
  "get_session_lane_record s d = lane_record s d"

definition list_session_lane_records :: "int \<Rightarrow> db \<Rightarrow> lane_rec list" where
  "list_session_lane_records n d = sql_limit n (sort_key (\<lambda>l. - ln_updated l) (db_lanes d))"

definition add_session_lane_queue_entry :: "lane_entry \<Rightarrow> lane_service \<Rightarrow> lane_service" where
  "add_session_lane_queue_entry e a = a\<lparr>am_history := am_history a @ [e]\<rparr>"

definition list_session_lane_queue_entries :: "string option \<Rightarrow> string option \<Rightarrow> int \<Rightarrow> lane_service \<Rightarrow> lane_entry list" where
  "list_session_lane_queue_entries session run n a =
     (let ok = (\<lambda>x v. case x of None \<Rightarrow> True | Some t \<Rightarrow> t = [] \<or> t = v)
      in sql_limit n (sort_key (\<lambda>e. - le_created e)
           (filter (\<lambda>e. ok session (le_session e) \<and> ok run (le_run e)) (am_history a))))"

section \<open>The service\<close>

record lane_view =
  lv_state :: string
  lv_policy :: string
  lv_active :: "string option"
  lv_queued :: "string option"
  lv_blocked :: "string option"
  lv_metadata :: dict

definition view_of :: "lane_rec \<Rightarrow> lane_view" where
  "view_of l = \<lparr>lv_state = or_text (ln_state l) ''idle'', lv_policy = or_text (ln_mode l) ''queue'',
     lv_active = ln_active l, lv_queued = ln_queued l, lv_blocked = ln_blocked l, lv_metadata = ln_metadata l\<rparr>"

definition current_view :: "string \<Rightarrow> db \<Rightarrow> lane_view" where
  "current_view s d = (case get_session_lane_record s d of
     None \<Rightarrow> \<lparr>lv_state = ''idle'', lv_policy = ''queue'', lv_active = None, lv_queued = None, lv_blocked = None,
              lv_metadata = []\<rparr>
   | Some l \<Rightarrow> view_of l)"

text \<open>A nullable identifier as a truth value.\<close>

definition named :: "string option \<Rightarrow> bool" where
  "named x = (case x of None \<Rightarrow> False | Some s \<Rightarrow> s \<noteq> [])"

definition state_to_transition :: "string \<Rightarrow> lane_view \<Rightarrow> string \<Rightarrow> string option \<Rightarrow> string" where
  "state_to_transition state current policy interrupted =
     (let st = or_text (py_lower (py_strip (or_text state ''idle''))) ''idle''
      in if st = ''active''
         then (if named interrupted \<and> py_lower (py_strip policy) = ''interrupt_then_replace'' then ''replaced''
               else ''acquired'')
         else if st = ''idle'' \<and> (named (lv_active current) \<or> named (lv_queued current) \<or> named (lv_blocked current))
         then ''released''
         else st)"

record lane_persist =
  lp_session :: string
  lp_run :: string
  lp_kind :: string
  lp_policy :: string
  lp_action :: string
  lp_active :: "string option"
  lp_queued :: "string option"
  lp_blocked :: "string option"
  lp_interrupted :: "string option"
  lp_metadata :: dict

definition persist_decision :: "lane_persist \<Rightarrow> string \<Rightarrow> time \<Rightarrow> lane_service \<Rightarrow> lane_service" where
  "persist_decision p entry now a =
     (let current = current_view (lp_session p) (am_db a);
          transition = state_to_transition (lp_action p) current (lp_policy p) (lp_interrupted p);
          meta = dset ''runtimeKind'' (JStr (lp_kind p)) (dmerge (lv_metadata current) (lp_metadata p));
          changed = (lv_state current \<noteq> lp_action p \<or> lv_policy current \<noteq> lp_policy p
                     \<or> lv_active current \<noteq> lp_active p \<or> lv_queued current \<noteq> lp_queued p
                     \<or> lv_blocked current \<noteq> lp_blocked p);
          a' = a\<lparr>am_db := upsert_session_lane_record
                 \<lparr>lw_session = lp_session p, lw_active = lp_active p, lw_queued = lp_queued p, lw_blocked = lp_blocked p,
                  lw_policy = lp_policy p, lw_state = lp_action p, lw_transition = Some transition, lw_metadata = meta\<rparr>
                 now (am_db a)\<rparr>
      in if changed
         then add_session_lane_queue_entry
                \<lparr>le_id = entry, le_session = lp_session p, le_run = lp_run p, le_action = transition, le_policy = lp_policy p,
                 le_active = (if named (lp_active p) then lp_active p else lp_blocked p),
                 le_interrupted = lp_interrupted p, le_metadata = meta, le_created = now\<rparr> a'
         else a')"

record lane_call =
  lc_session :: string
  lc_run :: string
  lc_policy :: "string option"
  lc_kind :: string
  lc_metadata :: dict
  lc_entries :: "string list"

definition entry_id :: "lane_call \<Rightarrow> nat \<Rightarrow> string" where
  "entry_id c n = (if n < length (lc_entries c) then lc_entries c ! n else [])"

definition normalized_policy :: "lane_call \<Rightarrow> lane_decision \<Rightarrow> string" where
  "normalized_policy c x = or_text (or_text (ln_policy x) (case lc_policy c of None \<Rightarrow> [] | Some p \<Rightarrow> p)) ''queue''"

text \<open>What a decision of the scheduler leaves in the record. It is written after the decision, in
  a step of its own.\<close>

definition lane_record_of ::
  "lane_call \<Rightarrow> lane_decision \<Rightarrow> string \<Rightarrow> string option \<Rightarrow> string option \<Rightarrow> string option \<Rightarrow> dict \<Rightarrow> lane_persist" where
  "lane_record_of c x action active queued blocked meta =
     \<lparr>lp_session = lc_session c, lp_run = lc_run c, lp_kind = lc_kind c, lp_policy = normalized_policy c x,
      lp_action = action, lp_active = active, lp_queued = queued, lp_blocked = blocked,
      lp_interrupted = ln_interrupted x, lp_metadata = meta\<rparr>"

definition rejecting :: "lane_decision \<Rightarrow> string option" where
  "rejecting x = (if named (ln_rejected_by x) then ln_rejected_by x else ln_active_run x)"

definition persist_try :: "lane_call \<Rightarrow> lane_decision \<Rightarrow> time \<Rightarrow> lane_service \<Rightarrow> lane_service" where
  "persist_try c x now a =
     persist_decision
       (if ln_acquired x then lane_record_of c x ''active'' (Some (lc_run c)) None None (lc_metadata c)
        else if ln_waited x
        then lane_record_of c x ''queued'' (ln_active_run x) (Some (lc_run c)) (ln_active_run x) (lc_metadata c)
        else lane_record_of c x ''rejected'' (ln_active_run x) None (rejecting x) (lc_metadata c))
       (entry_id c 0) now a"

definition admission_try_acquire :: "lane_call \<Rightarrow> time \<Rightarrow> lane_service \<Rightarrow> lane_decision \<times> lane_service" where
  "admission_try_acquire c now a =
     (case try_acquire (lc_session c) (lc_run c) (lc_policy c) (am_lanes a) of
        (x, lanes) \<Rightarrow> (x, persist_try c x now (a\<lparr>am_lanes := lanes\<rparr>)))"

text \<open>\<^verbatim>\<open>acquire\<close> and \<^verbatim>\<open>acquire_async\<close> after the scheduler has decided
  (after a wait of any length): the wait is recorded first, then the outcome.\<close>

definition persist_acquire :: "lane_call \<Rightarrow> lane_decision \<Rightarrow> time \<Rightarrow> lane_service \<Rightarrow> lane_service" where
  "persist_acquire c x now a =
     (let a' = (if ln_acquired x \<and> ln_waited x
                then persist_decision (lane_record_of c x ''queued'' (ln_active_run x) (Some (lc_run c))
                       (ln_active_run x) (lc_metadata c)) (entry_id c 1) now a
                else a);
          meta = dset ''waited'' (JBool (ln_waited x)) (lc_metadata c)
      in persist_decision
           (if ln_acquired x then lane_record_of c x ''active'' (Some (lc_run c)) None None meta
            else lane_record_of c x ''rejected'' (ln_active_run x) (Some (lc_run c)) (rejecting x) meta)
           (entry_id c 0) now a')"

definition admission_release :: "lane_call \<Rightarrow> time \<Rightarrow> lane_service \<Rightarrow> lane_service" where
  "admission_release c now a =
     (let a' = a\<lparr>am_lanes := snd (lane_release (lc_session c) (lc_run c) (am_lanes a))\<rparr>;
          current = current_view (lc_session c) (am_db a)
      in if lv_active current \<noteq> Some (lc_run c) \<and> lv_queued current \<noteq> Some (lc_run c) then a'
         else persist_decision
           \<lparr>lp_session = lc_session c, lp_run = lc_run c,
            lp_kind = or_text (lc_kind c) (or_text (as_text (dget (lv_metadata current) ''runtimeKind'')) ''unknown''),
            lp_policy = or_text (case lc_policy c of None \<Rightarrow> [] | Some p \<Rightarrow> p) (or_text (lv_policy current) ''queue''),
            lp_action = ''idle'', lp_active = None, lp_queued = None, lp_blocked = None, lp_interrupted = None,
            lp_metadata = lc_metadata c\<rparr> (entry_id c 0) now a')"

section \<open>Repair after a restart\<close>

definition nullable :: "string option \<Rightarrow> json" where
  "nullable x = (case x of None \<Rightarrow> JNull | Some s \<Rightarrow> JStr s)"

definition repair_metadata :: "lane_view \<Rightarrow> time \<Rightarrow> dict" where
  "repair_metadata v now =
     dmerge (lv_metadata v) [(''reconciledAt'', JInt now), (''reconciledReason'', JStr ''engine_restart''),
       (''previousState'', JStr (lv_state v)), (''previousActiveRunId'', nullable (lv_active v)),
       (''previousQueuedRunId'', nullable (lv_queued v)), (''previousBlockedByRunId'', nullable (lv_blocked v))]"

definition settled_lane :: "lane_view \<Rightarrow> bool" where
  "settled_lane v \<longleftrightarrow> lv_state v = ''idle'' \<and> \<not> named (lv_active v) \<and> \<not> named (lv_queued v) \<and> \<not> named (lv_blocked v)"

definition repair_entry ::
  "string \<Rightarrow> string \<Rightarrow> string option \<Rightarrow> string option \<Rightarrow> string \<Rightarrow> lane_view \<Rightarrow> time \<Rightarrow> lane_entry" where
  "repair_entry entry s run active action v now =
     \<lparr>le_id = entry, le_session = s, le_run = (case run of None \<Rightarrow> [] | Some r \<Rightarrow> r), le_action = action,
      le_policy = lv_policy v, le_active = active, le_interrupted = None,
      le_metadata = dset ''repairOutcome'' (JStr action) (repair_metadata v now), le_created = now\<rparr>"

definition repair_lane :: "(string \<Rightarrow> string \<Rightarrow> string) \<Rightarrow> time \<Rightarrow> lane_rec \<Rightarrow> lane_service \<Rightarrow> lane_service" where
  "repair_lane entry now l a =
     (let v = view_of l; s = ln_session l
      in if settled_lane v then a
         else
           let released = named (lv_active v);
               rejected = (named (lv_queued v) \<and> lv_queued v \<noteq> lv_active v);
               a1 = (if released
                     then (add_session_lane_queue_entry (repair_entry (entry s ''released'') s (lv_active v) (lv_active v)
                            ''released'' v now) a)\<lparr>am_events := am_events a @ [(s, the (lv_active v), ''run.lane.released'')]\<rparr>
                     else a);
               a2 = (if rejected
                     then (add_session_lane_queue_entry (repair_entry (entry s ''rejected'') s (lv_queued v)
                            (if named (lv_active v) then lv_active v else lv_blocked v) ''rejected'' v now) a1)
                            \<lparr>am_events := am_events a1 @ [(s, the (lv_queued v), ''run.lane.rejected'')]\<rparr>
                     else a1)
           in a2\<lparr>am_db := upsert_session_lane_record
                  \<lparr>lw_session = s, lw_active = None, lw_queued = None, lw_blocked = None, lw_policy = lv_policy v,
                   lw_state = ''idle'',
                   lw_transition = Some (if released then ''released'' else if rejected then ''rejected'' else ''idle''),
                   lw_metadata = repair_metadata v now\<rparr> now (am_db a2)\<rparr>)"

definition reconcile_after_restart :: "(string \<Rightarrow> string \<Rightarrow> string) \<Rightarrow> time \<Rightarrow> lane_service \<Rightarrow> lane_service" where
  "reconcile_after_restart entry now a = fold (repair_lane entry now) (list_session_lane_records 5000 (am_db a)) a"

section \<open>The record follows the scheduler\<close>

text \<open>The calls as atomic steps: a blocking call enters, and is granted when the lane is free.\<close>

datatype lane_op =
    LTry lane_call
  | LEnter lane_call
  | LGrant lane_call lane_request
  | LRelease lane_call
  | LRestart

fun lane_op_step :: "(string \<Rightarrow> string \<Rightarrow> string) \<Rightarrow> lane_op \<Rightarrow> time \<Rightarrow> lane_service \<Rightarrow> lane_service" where
  "lane_op_step entry (LTry c) now a = snd (admission_try_acquire c now a)"
| "lane_op_step entry (LEnter c) now a =
     (case acquire_entry (lc_session c) (lc_run c) (lc_policy c) (am_lanes a) of
        (Inl x, lanes) \<Rightarrow> persist_acquire c x now (a\<lparr>am_lanes := lanes\<rparr>) | (Inr _, _) \<Rightarrow> a)"
| "lane_op_step entry (LGrant c rq) now a =
     (case acquire_pass rq (am_lanes a) of
        (Some x, lanes) \<Rightarrow> persist_acquire c x now (a\<lparr>am_lanes := lanes\<rparr>) | (None, _) \<Rightarrow> a)"
| "lane_op_step entry (LRelease c) now a = admission_release c now a"
| "lane_op_step entry LRestart now a = reconcile_after_restart entry now (a\<lparr>am_lanes := Map.empty\<rparr>)"

fun lane_op_run :: "(string \<Rightarrow> string \<Rightarrow> string) \<Rightarrow> (lane_op \<times> time) list \<Rightarrow> lane_service \<Rightarrow> lane_service" where
  "lane_op_run entry [] a = a"
| "lane_op_run entry ((x, now) # xs) a = lane_op_run entry xs (lane_op_step entry x now a)"

text \<open>A run that waits behind another does not release; a repair sees all lanes.\<close>

fun lane_op_legal :: "lane_op \<Rightarrow> lane_service \<Rightarrow> bool" where
  "lane_op_legal (LGrant c rq) a \<longleftrightarrow> lr_session rq = lc_session c \<and> lr_run rq = lc_run c"
| "lane_op_legal (LRelease c) a \<longleftrightarrow> am_lanes a (lc_session c) \<in> {None, Some (lc_run c)}
     \<or> lv_queued (current_view (lc_session c) (am_db a)) \<noteq> Some (lc_run c)"
| "lane_op_legal LRestart a \<longleftrightarrow> length (db_lanes (am_db a)) \<le> 5000"
| "lane_op_legal _ a \<longleftrightarrow> True"

fun lane_ops_legal :: "(string \<Rightarrow> string \<Rightarrow> string) \<Rightarrow> (lane_op \<times> time) list \<Rightarrow> lane_service \<Rightarrow> bool" where
  "lane_ops_legal entry [] a \<longleftrightarrow> True"
| "lane_ops_legal entry ((x, now) # xs) a \<longleftrightarrow> lane_op_legal x a \<and> lane_ops_legal entry xs (lane_op_step entry x now a)"

definition recorded_run :: "string \<Rightarrow> db \<Rightarrow> string option" where
  "recorded_run s d = (case lane_record s d of None \<Rightarrow> None
     | Some l \<Rightarrow> if named (ln_active l) then ln_active l else None)"

definition lanes_agree :: "lane_service \<Rightarrow> bool" where
  "lanes_agree a \<longleftrightarrow> keyed ln_session (db_lanes (am_db a)) \<and> (\<forall>s. am_lanes a s \<noteq> Some []) \<and>
     (\<forall>s. recorded_run s (am_db a) = am_lanes a s)"

lemma named_simps [simp]: "named (Some s) = (s \<noteq> [])" "\<not> named None"
  by (simp_all add: named_def)

lemma written_lane_simps [simp]:
  "ln_session (written_lane w now l) = ln_session l" "ln_active (written_lane w now l) = lw_active w"
  "ln_session (new_lane w now) = lw_session w" "ln_active (new_lane w now) = lw_active w"
  by (simp_all add: written_lane_def new_lane_def)

lemma upsert_lane_record:
  "map_option ln_active (lane_record s (upsert_session_lane_record w now d)) =
     (if s = lw_session w then Some (lw_active w) else map_option ln_active (lane_record s d))"
proof (cases "lane_record (lw_session w) d")
  case None
  then have "lane_record s (upsert_session_lane_record w now d) =
      (if s = lw_session w then Some (new_lane w now) else lane_record s d)"
    using sel_snoc [of ln_session "new_lane w now" "db_lanes d" s] by (simp add: upsert_session_lane_record_def)
  then show ?thesis by simp
next
  case (Some l)
  then show ?thesis by (simp add: upsert_session_lane_record_def sel_upd_key0 [where key = ln_session])
qed

lemma upsert_recorded:
  "recorded_run s (upsert_session_lane_record w now d) =
     (if s = lw_session w then (if named (lw_active w) then lw_active w else None) else recorded_run s d)"
proof -
  have r: "recorded_run s e = (case map_option ln_active (lane_record s e) of None \<Rightarrow> None
      | Some x \<Rightarrow> if named x then x else None)" for s e
    by (simp add: recorded_run_def split: option.split)
  show ?thesis unfolding r upsert_lane_record by simp
qed

lemma upsert_keyed: "keyed ln_session (db_lanes d) \<Longrightarrow> keyed ln_session (db_lanes (upsert_session_lane_record w now d))"
  by (simp add: upsert_session_lane_record_def keyed_snoc keyed_upd_where)

lemma persist_effect:
  "am_lanes (persist_decision p e now a) = am_lanes a"
  "recorded_run s (am_db (persist_decision p e now a)) =
     (if s = lp_session p then (if named (lp_active p) then lp_active p else None) else recorded_run s (am_db a))"
  "keyed ln_session (db_lanes (am_db a)) \<Longrightarrow> keyed ln_session (db_lanes (am_db (persist_decision p e now a)))"
  by (simp_all add: persist_decision_def Let_def add_session_lane_queue_entry_def upsert_recorded upsert_keyed)

lemma agree_after_persist:
  assumes "lanes_agree a" and "lp_session p = s" and "lp_active p = x" and "x \<noteq> Some []"
  shows "lanes_agree (persist_decision p e now (a\<lparr>am_lanes := (am_lanes a)(s := x)\<rparr>))"
  using assms by (auto simp: lanes_agree_def persist_effect named_def split: option.split)

lemma agree_same: "lanes_agree a \<Longrightarrow> am_lanes a s = x \<Longrightarrow> a\<lparr>am_lanes := (am_lanes a)(s := x)\<rparr> = a"
  by (simp add: fun_upd_idem)

lemma agree_try:
  assumes "lanes_agree a" and "lc_run c \<noteq> []"
  shows "lanes_agree (lane_op_step entry (LTry c) now a)"
proof (cases "am_lanes a (lc_session c)")
  case None
  then have "lane_op_step entry (LTry c) now a = persist_decision
      (lane_record_of c (lane_taken (lane_policy (lc_policy c))) ''active'' (Some (lc_run c)) None None (lc_metadata c))
      (entry_id c 0) now (a\<lparr>am_lanes := (am_lanes a)(lc_session c := Some (lc_run c))\<rparr>)"
    by (simp add: admission_try_acquire_def try_acquire_def Let_def persist_try_def lane_taken_def)
  then show ?thesis using agree_after_persist [OF assms(1)] assms(2) by (simp add: lane_record_of_def)
next
  case (Some current)
  obtain x where x: "try_acquire (lc_session c) (lc_run c) (lc_policy c) (am_lanes a) = (x, am_lanes a)"
    "\<not> ln_acquired x" "ln_active_run x = Some current"
    using Some by (cases "lane_policy (lc_policy c) = ''reject''") (auto simp: try_acquire_def Let_def lane_rejected_def)
  have "current \<noteq> []" using assms(1) Some by (auto simp: lanes_agree_def)
  moreover have "a\<lparr>am_lanes := (am_lanes a)(lc_session c := Some current)\<rparr> = a" by (rule agree_same [OF assms(1) Some])
  ultimately show ?thesis
    using agree_after_persist [OF assms(1), of _ "lc_session c" "Some current" "entry_id c 0" now] x
    by (simp add: admission_try_acquire_def persist_try_def lane_record_of_def)
qed

lemma agree_persist_acquire:
  assumes "lanes_agree a" and "x = Some (lc_run c) \<and> ln_acquired y \<or> \<not> ln_acquired y \<and> ln_active_run y = x" and "x \<noteq> Some []"
  shows "lanes_agree (persist_acquire c y now (a\<lparr>am_lanes := (am_lanes a)(lc_session c := x)\<rparr>))"
proof -
  let ?a = "a\<lparr>am_lanes := (am_lanes a)(lc_session c := x)\<rparr>"
  define q where "q = lane_record_of c y ''queued'' (ln_active_run y) (Some (lc_run c)) (ln_active_run y) (lc_metadata c)"
  define b where "b = (if ln_acquired y \<and> ln_waited y then persist_decision q (entry_id c 1) now ?a else ?a)"
  define p where "p = (if ln_acquired y
      then lane_record_of c y ''active'' (Some (lc_run c)) None None (dset ''waited'' (JBool (ln_waited y)) (lc_metadata c))
      else lane_record_of c y ''rejected'' (ln_active_run y) (Some (lc_run c)) (rejecting y)
             (dset ''waited'' (JBool (ln_waited y)) (lc_metadata c)))"
  have q: "lp_session q = lc_session c" by (simp add: q_def lane_record_of_def)
  have p: "lp_session p = lc_session c" "lp_active p = x" using assms(2) by (auto simp: p_def lane_record_of_def)
  have "persist_acquire c y now ?a = persist_decision p (entry_id c 0) now b"
    by (simp add: persist_acquire_def Let_def b_def q_def p_def)
  moreover have "lanes_agree (persist_decision p (entry_id c 0) now b)"
    using assms(1,3) p q by (auto simp: lanes_agree_def b_def persist_effect named_def split: option.split)
  ultimately show ?thesis by simp
qed

lemma agree_enter:
  assumes "lanes_agree a" and "lc_run c \<noteq> []"
  shows "lanes_agree (lane_op_step entry (LEnter c) now a)"
proof (cases "am_lanes a (lc_session c)")
  case None
  then show ?thesis
    using agree_persist_acquire [OF assms(1), of "Some (lc_run c)" c "lane_taken (lane_policy (lc_policy c))" now] assms(2)
    by (simp add: acquire_entry_def Let_def lane_taken_def)
next
  case (Some current)
  have ne: "current \<noteq> []" using assms(1) Some by (auto simp: lanes_agree_def)
  have same: "a\<lparr>am_lanes := (am_lanes a)(lc_session c := Some current)\<rparr> = a" by (rule agree_same [OF assms(1) Some])
  have "lanes_agree (persist_acquire c (lane_rejected p current) now a)" for p
    using agree_persist_acquire [OF assms(1), of "Some current" c "lane_rejected p current" now] ne
    by (simp add: lane_rejected_def same)
  then show ?thesis using Some assms(1) by (simp add: acquire_entry_def Let_def)
qed

lemma agree_grant:
  assumes "lanes_agree a" and "lc_run c \<noteq> []" and "lr_session rq = lc_session c" and "lr_run rq = lc_run c"
  shows "lanes_agree (lane_op_step entry (LGrant c rq) now a)"
proof (cases "am_lanes a (lc_session c)")
  case None
  then show ?thesis
    using agree_persist_acquire [OF assms(1), of "Some (lc_run c)" c
        "\<lparr>ln_acquired = True, ln_policy = lr_policy rq, ln_waited = True, ln_active_run = Some (lr_active rq),
          ln_rejected_by = None, ln_interrupted = lr_interrupted rq\<rparr>" now] assms(2-4)
    by (simp add: acquire_pass_def)
next
  case (Some current)
  then show ?thesis using assms by (simp add: acquire_pass_def)
qed

lemma view_active: "lv_active (current_view s d) = (case lane_record s d of None \<Rightarrow> None | Some l \<Rightarrow> ln_active l)"
  by (simp add: current_view_def get_session_lane_record_def view_of_def split: option.split)

lemma agree_release:
  assumes "lanes_agree a" and "lc_run c \<noteq> []" and "lane_op_legal (LRelease c) a"
  shows "lanes_agree (lane_op_step entry (LRelease c) now a)"
proof -
  have act: "lv_active (current_view (lc_session c) (am_db a)) = Some (lc_run c) \<longleftrightarrow> am_lanes a (lc_session c) = Some (lc_run c)"
  proof -
    have r: "am_lanes a (lc_session c) = recorded_run (lc_session c) (am_db a)"
      using assms(1) by (simp add: lanes_agree_def)
    show ?thesis unfolding r view_active recorded_run_def using assms(2)
      by (cases "lane_record (lc_session c) (am_db a)") (auto simp: named_def split: option.split)
  qed
  have lanes: "snd (lane_release (lc_session c) (lc_run c) (am_lanes a)) =
      (am_lanes a)(lc_session c := if am_lanes a (lc_session c) = Some (lc_run c) then None else am_lanes a (lc_session c))"
    by (simp add: lane_release_def fun_upd_idem)
  let ?x = "if am_lanes a (lc_session c) = Some (lc_run c) then None else am_lanes a (lc_session c)"
  show ?thesis
  proof (cases "lv_active (current_view (lc_session c) (am_db a)) \<noteq> Some (lc_run c)
      \<and> lv_queued (current_view (lc_session c) (am_db a)) \<noteq> Some (lc_run c)")
    case True
    then show ?thesis using act assms(1) lanes by (simp add: admission_release_def Let_def fun_upd_idem)
  next
    case False
    then have "?x = None" using assms(3) act by auto
    then have l: "snd (lane_release (lc_session c) (lc_run c) (am_lanes a)) = (am_lanes a)(lc_session c := None)"
      using lanes by simp
    show ?thesis
      unfolding lane_op_step.simps admission_release_def Let_def if_not_P [OF False] l
      by (rule agree_after_persist [OF assms(1)]) simp_all
  qed
qed

text \<open>A repair frees every lane it reviews.\<close>

lemma repair_effect:
  "am_lanes (repair_lane entry now l a) = am_lanes a"
  "recorded_run s (am_db (repair_lane entry now l a)) =
     (if s = ln_session l \<and> \<not> settled_lane (view_of l) then None else recorded_run s (am_db a))"
  "keyed ln_session (db_lanes (am_db a)) \<Longrightarrow> keyed ln_session (db_lanes (am_db (repair_lane entry now l a)))"
  by (simp_all add: repair_lane_def Let_def add_session_lane_queue_entry_def upsert_recorded upsert_keyed)

lemma repair_all:
  "am_lanes (fold (repair_lane entry now) rows a) = am_lanes a"
  "recorded_run s (am_db (fold (repair_lane entry now) rows a)) =
     (if \<exists>l \<in> set rows. ln_session l = s \<and> \<not> settled_lane (view_of l) then None else recorded_run s (am_db a))"
  "keyed ln_session (db_lanes (am_db a)) \<Longrightarrow> keyed ln_session (db_lanes (am_db (fold (repair_lane entry now) rows a)))"
  by (induction rows arbitrary: a) (auto simp: repair_effect)

lemma restart_frees:
  assumes "length (db_lanes (am_db a)) \<le> 5000"
  shows "recorded_run s (am_db (reconcile_after_restart entry now a)) = None"
proof -
  have rows: "set (list_session_lane_records 5000 (am_db a)) = set (db_lanes (am_db a))"
    using assms by (simp add: list_session_lane_records_def sql_limit_def)
  have "recorded_run s (am_db a) = None" if "\<forall>l \<in> set (db_lanes (am_db a)). ln_session l = s \<longrightarrow> settled_lane (view_of l)"
  proof (cases "lane_record s (am_db a)")
    case (Some l)
    then have "settled_lane (view_of l)" using that sel_by_SomeD [OF Some] by blast
    then show ?thesis by (simp add: recorded_run_def Some settled_lane_def view_of_def)
  qed (simp add: recorded_run_def)
  then show ?thesis unfolding reconcile_after_restart_def repair_all(2) rows by auto
qed

fun lane_run_of :: "lane_op \<Rightarrow> string" where
  "lane_run_of (LTry c) = lc_run c"
| "lane_run_of (LEnter c) = lc_run c"
| "lane_run_of (LGrant c rq) = lc_run c"
| "lane_run_of (LRelease c) = lc_run c"
| "lane_run_of LRestart = ''-''"

lemma agree_step:
  assumes "lanes_agree a" and "lane_op_legal x a" and "lane_run_of x \<noteq> []"
  shows "lanes_agree (lane_op_step entry x now a)"
proof (cases x)
  case LRestart
  have k: "keyed ln_session (db_lanes (am_db a))" using assms(1) by (simp add: lanes_agree_def)
  show ?thesis
    using restart_frees [of "a\<lparr>am_lanes := Map.empty\<rparr>" _ entry now] repair_all(1,3) k assms(2) LRestart
    by (simp add: lanes_agree_def reconcile_after_restart_def)
next
  case (LTry c)
  then show ?thesis using agree_try [OF assms(1)] assms(3) by (simp del: lane_op_step.simps)
next
  case (LEnter c)
  then show ?thesis using agree_enter [OF assms(1)] assms(3) by (simp del: lane_op_step.simps)
next
  case (LGrant c rq)
  then show ?thesis using agree_grant [OF assms(1)] assms(2,3) by (simp del: lane_op_step.simps)
next
  case (LRelease c)
  then show ?thesis using agree_release [OF assms(1)] assms(2,3) by (simp del: lane_op_step.simps)
qed

text \<open>C20: The durable lane record follows the scheduler: over any history of admissions, waits, grants,
  releases and restarts whose calls are not interleaved, the record of every session names exactly
  the run that holds its lane, and no run when the lane is free, also after an engine restart.\<close>

theorem lane_record_follows_scheduler:
  assumes "lanes_agree a" and "lane_ops_legal entry xs a" and "\<forall>(x, now) \<in> set xs. lane_run_of x \<noteq> []"
  shows "recorded_run s (am_db (lane_op_run entry xs a)) = get_active_run s (am_lanes (lane_op_run entry xs a))"
proof -
  have "lanes_agree (lane_op_run entry xs a)"
    using assms
  proof (induction xs arbitrary: a)
    case (Cons p xs)
    then show ?case by (cases p) (auto intro!: Cons.IH agree_step)
  qed simp
  then show ?thesis by (simp add: lanes_agree_def get_active_run_def)
qed

definition free_lanes :: lane_service where
  "free_lanes = \<lparr>am_lanes = Map.empty, am_db = empty_db, am_history = [], am_events = []\<rparr>"

definition chat_call :: "string \<Rightarrow> lane_call" where
  "chat_call run = \<lparr>lc_session = ''s1'', lc_run = run, lc_policy = Some ''queue'', lc_kind = ''chat'', lc_metadata = [],
     lc_entries = [''e0'', ''e1'']\<rparr>"

theorem lane_record_follows_scheduler_witness:
  "recorded_run ''s1'' (am_db (lane_op_run (\<lambda>s t. s @ t)
      [(LTry (chat_call ''r1''), 1), (LTry (chat_call ''r2''), 2), (LRelease (chat_call ''r1''), 3), (LTry (chat_call ''r2''), 4)]
      free_lanes)) = Some ''r2''"
proof -
  let ?xs = "[(LTry (chat_call ''r1''), 1), (LTry (chat_call ''r2''), 2), (LRelease (chat_call ''r1''), 3), (LTry (chat_call ''r2''), 4)]"
  have "lanes_agree free_lanes" by (simp add: lanes_agree_def free_lanes_def empty_db_def keyed_def recorded_run_def)
  moreover have "lane_ops_legal (\<lambda>s t. s @ t) ?xs free_lanes" by code_simp
  moreover have "\<forall>(x, now) \<in> set ?xs. lane_run_of x \<noteq> []" by (simp add: chat_call_def)
  ultimately have "recorded_run ''s1'' (am_db (lane_op_run (\<lambda>s t. s @ t) ?xs free_lanes)) =
      get_active_run ''s1'' (am_lanes (lane_op_run (\<lambda>s t. s @ t) ?xs free_lanes))"
    by (rule lane_record_follows_scheduler)
  also have "\<dots> = Some ''r2''" by code_simp
  finally show ?thesis .
qed

section \<open>A late record\<close>

text \<open>The decision and its record are two steps: a run that is turned away while another one
  releases the lane writes its record last, and the record names the run that is gone.\<close>

lemma late_record_names_a_released_run:
  assumes "lanes_agree a" and "am_lanes a (lc_session c) = Some holder" and "lc_session r = lc_session c" and "lc_run r = holder"
    and "try_acquire (lc_session c) (lc_run c) (lc_policy c) (am_lanes a) = (x, lanes)"
  shows "am_lanes (persist_try c x later (admission_release r now a)) (lc_session c) = None \<and>
    recorded_run (lc_session c) (am_db (persist_try c x later (admission_release r now a))) = Some holder"
proof -
  have ne: "holder \<noteq> []" using assms(1,2) by (auto simp: lanes_agree_def)
  have x: "\<not> ln_acquired x" "ln_active_run x = Some holder"
    using assms(2,5) by (auto simp: try_acquire_def Let_def lane_rejected_def split: if_splits)
  have "am_lanes (admission_release r now a) (lc_session c) = None"
    using assms(2-4) by (simp add: admission_release_def Let_def lane_release_def persist_effect)
  then show ?thesis using x ne by (simp add: persist_try_def persist_effect lane_record_of_def)
qed

end
