(* ===== verification/CanvasRuns.thy ===== *)
theory CanvasRuns
  imports EventLog TableViews
begin

text \<open>
  Canvas graph runs (core/creative_canvas_graph.py) and the intents by which they are announced
  (core/database.py). A run is a row of \<^verbatim>\<open>creative_canvas_graph_runs\<close>; every change of
  its public status is written together with a row of the event outbox, in one transaction. This
  theory holds the transactions that create and change runs; CanvasOutbox projects their intents.
  \<^item> The rows an event is made of (\<open>canvas_row\<close>) are the twelve columns the outbox keeps a
    copy of; a run has three columns more.
  \<^item> The workspace authority is resolved by a service that is a parameter (\<open>auth\<close>), as are the
    SHA-256 digest of a terminal proof and the identifiers \<^verbatim>\<open>uuid4\<close> draws.
\<close>

section \<open>Tables\<close>

record canvas_row =
  cr_id :: string
  cr_graph :: string
  cr_session :: string
  cr_chat :: "string option"
  cr_operation :: string
  cr_nodes :: dict
  cr_status :: string
  cr_current :: "string option"
  cr_error :: "string option"
  cr_created :: time
  cr_updated :: time
  cr_completed :: "time option"

record canvas_run = canvas_row +
  cr_revision :: int
  cr_targets :: json
  cr_plan :: dict

record canvas_graph =
  cg_id :: string
  cg_session :: string
  cg_workspace :: string
  cg_revision :: int

record canvas_intent =
  co_seq :: int
  co_id :: string
  co_event :: string
  co_run :: string
  co_session :: string
  co_status :: string
  co_expected :: time
  co_transition :: string
  co_retry :: "string option"
  co_row :: canvas_row
  co_attempts :: int
  co_error :: "string option"
  co_next :: "time option"
  co_runtime_event :: "string option"
  co_created :: time
  co_projected :: "time option"

record terminal_receipt =
  tr_job :: string
  tr_digest :: string
  tr_session :: string
  tr_run :: string
  tr_node :: string
  tr_provider_status :: string
  tr_observed :: string
  tr_applied :: time

record canvas_db =
  cv_core :: db
  cv_sessions :: "string list"
  cv_graphs :: "canvas_graph list"
  cv_runs :: "canvas_run list"
  cv_outbox :: "canvas_intent list"
  cv_last_intent :: int
  cv_receipts :: "terminal_receipt list"

datatype canvas_error =
    StatusUnsupported string
  | StateUnsupported string
  | TransitionUnsupported string
  | RetryRunMissing
  | IntentIncomplete
  | IntentUncommitted
  | IntentCollision
  | IntentMismatch
  | EventIdTaken
  | ProjectionRefused
  | SessionUnavailable
  | AuthorityFailed string
  | NoWorkspace
  | WritesRefused
  | NoWorkspaceIdentity
  | NoWorkspaceId
  | GraphNotBound
  | WorkspaceChanged
  | GraphChanged
  | RunNotBound
  | RunVanished
  | CancelRefused string
  | CancelLost
  | RetryRefused string
  | RevisionChanged
  | RetryBlocked
  | RetryLost
  | RetryForeign
  | RetryCancelled
  | RetryInactive string
  | RevisionDiffers
  | AnotherRunActive
  | CancelledBeforeStart
  | ProofUnverified
  | InvalidId string
  | ProofForeign
  | ProofUndated
  | NotAwaiting
  | ReceiptForeign
  | JobDiffers
  | NodeNotAwaiting
  | ReconcileLost
  | ForeignKeyFailed
  | UniqueFailed

section \<open>Statuses\<close>

definition active_graph_states :: "string list" where
  "active_graph_states = [''queued'', ''running'', ''cancelling'']"

definition retryable_graph_states :: "string list" where
  "retryable_graph_states = [''failed'', ''interrupted'']"

definition graph_run_public_statuses :: "(string \<times> string) list" where
  "graph_run_public_statuses =
     [(''queued'', ''queued''), (''running'', ''running''), (''cancelling'', ''cancelling''),
      (''cancelled'', ''cancelled''), (''failed'', ''failed''), (''interrupted'', ''interrupted''),
      (''succeeded'', ''completed'')]"

definition public_graph_run_status :: "string \<Rightarrow> string" where
  "public_graph_run_status s =
     (case map_of graph_run_public_statuses (py_lower (py_strip s)) of None \<Rightarrow> [] | Some p \<Rightarrow> p)"

definition run_transitions :: "string list" where
  "run_transitions = [[], ''retry_failed_branch'', ''remote_terminal_reconciled'']"

definition canvas_topic :: string where
  "canvas_topic = ''canvas.graph.run.state''"

definition or_unknown :: "string \<Rightarrow> string" where
  "or_unknown s = or_text s ''unknown''"

definition opt_text :: "string option \<Rightarrow> string" where
  "opt_text x = (case x of None \<Rightarrow> [] | Some s \<Rightarrow> s)"

section \<open>Authority\<close>

record workspace_authority =
  wa_workspace :: string
  wa_root :: string
  wa_key :: string
  wa_writes :: bool

type_synonym authority_service = "string \<Rightarrow> string + workspace_authority"

definition canvas_authority ::
  "authority_service \<Rightarrow> string \<Rightarrow> bool \<Rightarrow> canvas_db \<Rightarrow> canvas_error + workspace_authority" where
  "canvas_authority auth s require_write d =
     (let n = py_strip s
      in if n = [] \<or> n \<notin> set (cv_sessions d) then Inl SessionUnavailable
         else case auth n of
           Inl err \<Rightarrow> Inl (AuthorityFailed err)
         | Inr a \<Rightarrow> if wa_root a = [] then Inl NoWorkspace
                    else if require_write \<and> \<not> wa_writes a then Inl WritesRefused
                    else Inr a)"

definition canvas_workspace_key :: "workspace_authority \<Rightarrow> canvas_error + string" where
  "canvas_workspace_key a = (if wa_key a = [] then Inl NoWorkspaceIdentity else Inr (wa_key a))"

definition assert_graph_workspace_authority ::
  "string \<Rightarrow> string \<Rightarrow> workspace_authority \<Rightarrow> canvas_db \<Rightarrow> canvas_error option" where
  "assert_graph_workspace_authority s graph a d =
     (case sel_by cg_session s (cv_graphs d) of
        None \<Rightarrow> Some GraphNotBound
      | Some g \<Rightarrow>
          if cg_id g \<noteq> graph then Some GraphNotBound
          else case canvas_workspace_key a of
            Inl err \<Rightarrow> Some err
          | Inr k \<Rightarrow> if cg_workspace g \<noteq> k then Some WorkspaceChanged else None)"

section \<open>What a run looks like from outside\<close>

fun first_retry_state :: "dict \<Rightarrow> dict" where
  "first_retry_state [] = []"
| "first_retry_state ((k, v) # rest) =
     (let s = as_dict v
      in if truthy (dget s ''providerCancellationRemoteTaskMayContinue'') then s
         else if py_lower (py_strip (as_text (dget s ''state''))) \<in> {''failed'', ''interrupted''} then s
         else first_retry_state rest)"

definition retry_state :: "dict \<Rightarrow> string \<Rightarrow> dict" where
  "retry_state nodes current =
     (let c = (if current = [] then [] else as_dict (dget nodes current))
      in if c \<noteq> [] then c else first_retry_state nodes)"

definition remote_may_continue :: "dict \<Rightarrow> bool" where
  "remote_may_continue s \<longleftrightarrow> truthy (dget s ''providerCancellationRemoteTaskMayContinue'')"

definition unrecoverable :: "dict \<Rightarrow> bool" where
  "unrecoverable s \<longleftrightarrow> dget s ''recoverable'' = JBool False"

record canvas_view =
  vw_run :: canvas_run
  vw_status :: string
  vw_current :: "string option"
  vw_error :: "(string \<times> string) option"
  vw_can_retry :: bool
  vw_mode :: "string option"
  vw_reason :: "string option"

definition default_error_code :: "string \<Rightarrow> string" where
  "default_error_code status =
     (if status = ''cancelled'' then ''user_cancelled''
      else if status = ''interrupted'' then ''engine_restart_interrupted''
      else if status = ''failed'' then ''canvas_graph_failed'' else [])"

definition project_run :: "canvas_run \<Rightarrow> canvas_view" where
  "project_run r =
     (let status = or_text (cr_status r) ''idle'';
          current = opt_text (cr_current r);
          current_state = as_dict (dget (cr_nodes r) current);
          retry = retry_state (cr_nodes r) current;
          message = py_strip (or_text (opt_text (cr_error r)) (as_text (dget current_state ''error'')));
          code = py_strip (or_text (as_text (dget current_state ''errorCode''))
                   (or_text (as_text (dget retry ''errorCode'')) (default_error_code status)));
          can = (status \<in> set retryable_graph_states \<and> \<not> unrecoverable retry \<and> \<not> remote_may_continue retry)
      in \<lparr>vw_run = r, vw_status = status, vw_current = or_none current,
          vw_error = (if code \<noteq> [] \<or> message \<noteq> [] then Some (code, message) else None),
          vw_can_retry = can, vw_mode = (if can then Some ''failed_branch'' else None),
          vw_reason = or_none code\<rparr>)"

definition get_run ::
  "authority_service \<Rightarrow> string \<Rightarrow> string \<Rightarrow> canvas_db \<Rightarrow> canvas_error + canvas_view" where
  "get_run auth s g d =
     (case canvas_authority auth s False d of
        Inl err \<Rightarrow> Inl err
      | Inr _ \<Rightarrow> case find (\<lambda>r. cr_id r = g \<and> cr_session r = s) (cv_runs d) of
          None \<Rightarrow> Inl RunNotBound
        | Some r \<Rightarrow> Inr (project_run r))"

definition active_run :: "string \<Rightarrow> canvas_db \<Rightarrow> canvas_run option" where
  "active_run s d =
     first_by (\<lambda>r. - cr_updated r)
       (filter (\<lambda>r. cr_session r = s \<and> cr_status r \<in> set active_graph_states) (cv_runs d))"

definition canvas_run_row :: "string \<Rightarrow> string \<Rightarrow> canvas_db \<Rightarrow> canvas_run option" where
  "canvas_run_row s op d = find (\<lambda>r. cr_session r = s \<and> cr_operation r = op) (cv_runs d)"

definition canvas_run_status :: "string \<Rightarrow> canvas_db \<Rightarrow> string" where
  "canvas_run_status g d = (case sel_by cr_id g (cv_runs d) of None \<Rightarrow> [] | Some r \<Rightarrow> cr_status r)"

text \<open>The event of a state. Its checks are those of the intent.\<close>

definition announcement_error :: "string \<Rightarrow> string \<Rightarrow> string \<Rightarrow> canvas_error option" where
  "announcement_error status transition retry =
     (if public_graph_run_status status = [] then Some (StatusUnsupported (or_unknown status))
      else if py_strip transition \<notin> set run_transitions then Some (TransitionUnsupported (py_strip transition))
      else if py_strip transition = ''retry_failed_branch'' \<and> py_strip retry = [] then Some RetryRunMissing
      else None)"

definition recovery_part :: "canvas_row \<Rightarrow> string \<Rightarrow> dict" where
  "recovery_part row public =
     (if public \<in> {''failed'', ''interrupted''}
      then let s = retry_state (cr_nodes row) (opt_text (cr_current row));
               can = (\<not> unrecoverable s \<and> \<not> remote_may_continue s)
           in [(''recovery'', JObj [(''canRetry'', JBool can),
                 (''mode'', if can then JStr ''failed_branch'' else JNull)])]
      else [])"

definition graph_run_state_event_payload ::
  "authority_service \<Rightarrow> canvas_row \<Rightarrow> string \<Rightarrow> string \<Rightarrow> string \<Rightarrow> canvas_db \<Rightarrow> canvas_error + dict" where
  "graph_run_state_event_payload auth row status transition retry d =
     (case announcement_error status transition retry of
        Some err \<Rightarrow> Inl err
      | None \<Rightarrow>
          let s = py_strip (cr_session row); graph = py_strip (cr_graph row);
              public = public_graph_run_status status;
              chat = py_strip (opt_text (cr_chat row))
          in case canvas_authority auth s False d of
               Inl err \<Rightarrow> Inl err
             | Inr a \<Rightarrow>
                 case assert_graph_workspace_authority s graph a d of
                   Some err \<Rightarrow> Inl err
                 | None \<Rightarrow>
                     if py_strip (wa_workspace a) = [] then Inl NoWorkspaceId
                     else Inr ([(''schema'', JStr ''v8.creative_canvas_graph_run_state.v1''),
                       (''sessionId'', JStr s), (''workspaceId'', JStr (py_strip (wa_workspace a))),
                       (''graphId'', JStr graph), (''graphRunId'', JStr (py_strip (cr_id row))),
                       (''canvasOperationId'', JStr (py_strip (cr_operation row))),
                       (''runId'', if chat = [] then JNull else JStr chat), (''status'', JStr public)]
                       @ recovery_part row public
                       @ (if py_strip transition = [] then [] else [(''transition'', JStr (py_strip transition))])
                       @ (if py_strip retry = [] then [] else [(''retryOfGraphRunId'', JStr (py_strip retry))])))"

section \<open>Intents\<close>

text \<open>The identifiers of an intent: the outbox row's and the event's.\<close>

type_synonym intent_ids = "string \<times> string"

definition new_intent ::
  "intent_ids \<Rightarrow> canvas_row \<Rightarrow> string \<Rightarrow> string \<Rightarrow> string \<Rightarrow> time \<Rightarrow> int \<Rightarrow> canvas_intent" where
  "new_intent ids row status transition retry now n =
     \<lparr>co_seq = n, co_id = fst ids, co_event = snd ids, co_run = py_strip (cr_id row),
      co_session = py_strip (cr_session row), co_status = status, co_expected = cr_updated row,
      co_transition = transition, co_retry = or_none retry, co_row = row, co_attempts = 0, co_error = None,
      co_next = None, co_runtime_event = None, co_created = now, co_projected = None\<rparr>"

definition enqueue_canvas_graph_run_event_outbox ::
  "intent_ids \<Rightarrow> canvas_row \<Rightarrow> string \<Rightarrow> string \<Rightarrow> string \<Rightarrow> time \<Rightarrow> canvas_db \<Rightarrow>
     (canvas_error + canvas_intent) \<times> canvas_db" where
  "enqueue_canvas_graph_run_event_outbox ids row expected_status transition retry now d =
     (let run = py_strip (cr_id row); s = py_strip (cr_session row);
          status = py_lower (py_strip expected_status); tr = py_strip transition; rt = py_strip retry
      in if run = [] \<or> s = [] \<or> status = [] then (Inl IntentIncomplete, d)
         else if \<not> (case sel_by cr_id run (cv_runs d) of
                     None \<Rightarrow> False
                   | Some r \<Rightarrow> cr_session r = s \<and> cr_status r = status \<and> cr_updated r = cr_updated row)
         then (Inl IntentUncommitted, d)
         else case find (\<lambda>i. co_run i = run \<and> co_status i = status \<and> co_expected i = cr_updated row \<and>
                            co_transition i = tr) (cv_outbox d) of
           Some i \<Rightarrow> if co_row i \<noteq> row \<or> opt_text (co_retry i) \<noteq> rt then (Inl IntentCollision, d) else (Inr i, d)
         | None \<Rightarrow>
             if fst ids \<in> co_id ` set (cv_outbox d) \<or> snd ids \<in> co_event ` set (cv_outbox d)
             then (Inl UniqueFailed, d)
             else let i = new_intent ids row status tr rt now (cv_last_intent d + 1)
                  in (Inr i, d\<lparr>cv_outbox := cv_outbox d @ [i], cv_last_intent := cv_last_intent d + 1\<rparr>))"

definition enqueue_graph_run_state_event ::
  "intent_ids \<Rightarrow> canvas_row \<Rightarrow> string \<Rightarrow> string \<Rightarrow> string \<Rightarrow> time \<Rightarrow> canvas_db \<Rightarrow>
     canvas_error option \<times> canvas_db" where
  "enqueue_graph_run_state_event ids row status transition retry now d =
     (case announcement_error status transition retry of
        Some err \<Rightarrow> (Some err, d)
      | None \<Rightarrow>
          (case enqueue_canvas_graph_run_event_outbox ids row (py_lower (py_strip status)) (py_strip transition)
                  (py_strip retry) now d of
             (Inl err, d') \<Rightarrow> (Some err, d')
           | (Inr _, d') \<Rightarrow> (None, d')))"

text \<open>The tail of every writer: the rows are written, the intent joins the transaction, and an error
  rolls everything back.\<close>

definition commit_announced ::
  "intent_ids \<Rightarrow> canvas_row \<Rightarrow> string \<Rightarrow> string \<Rightarrow> string \<Rightarrow> time \<Rightarrow> canvas_db \<Rightarrow> canvas_db \<Rightarrow>
     canvas_error option \<times> canvas_db" where
  "commit_announced ids row status transition retry now written d =
     (case enqueue_graph_run_state_event ids row status transition retry now written of
        (Some err, _) \<Rightarrow> (Some err, d)
      | (None, d') \<Rightarrow> (None, d'))"

section \<open>Writing a state\<close>

record write_args =
  wr_run :: string
  wr_status :: string
  wr_nodes :: dict
  wr_current :: string
  wr_error :: string
  wr_completed :: bool
  wr_transition :: string
  wr_retry :: string
  wr_expected :: "string list option"

definition written_run :: "write_args \<Rightarrow> time \<Rightarrow> canvas_run \<Rightarrow> canvas_run" where
  "written_run a now r =
     r\<lparr>cr_status := wr_status a, cr_nodes := wr_nodes a, cr_current := or_none (wr_current a),
       cr_error := or_none (wr_error a), cr_updated := now,
       cr_completed := (if wr_completed a then Some now
         else if wr_status a \<in> set active_graph_states then None else cr_completed r)\<rparr>"

definition write_run_state_tx ::
  "intent_ids \<Rightarrow> write_args \<Rightarrow> time \<Rightarrow> canvas_db \<Rightarrow> (canvas_error + bool \<times> bool) \<times> canvas_db" where
  "write_run_state_tx ids a now d =
     (if public_graph_run_status (wr_status a) = [] then (Inl (StateUnsupported (or_unknown (wr_status a))), d)
      else case sel_by cr_id (wr_run a) (cv_runs d) of
        None \<Rightarrow> (Inr (False, False), d)
      | Some r \<Rightarrow>
          if (case wr_expected a of None \<Rightarrow> False | Some xs \<Rightarrow> cr_status r \<notin> set xs)
          then (Inr (False, False), d)
          else let d1 = d\<lparr>cv_runs := upd_where (\<lambda>x. cr_id x = wr_run a) (written_run a now) (cv_runs d)\<rparr>
               in if public_graph_run_status (cr_status r) \<noteq> public_graph_run_status (wr_status a)
                     \<or> py_strip (wr_transition a) \<noteq> []
                  then (case commit_announced ids (canvas_row.truncate (written_run a now r)) (wr_status a)
                          (wr_transition a) (wr_retry a) now d1 d of
                          (Some err, d') \<Rightarrow> (Inl err, d')
                        | (None, d') \<Rightarrow> (Inr (True, True), d'))
                  else (Inr (True, False), d1))"

section \<open>Starting a run\<close>

record start_args =
  st_session :: string
  st_graph :: string
  st_revision :: int
  st_operation :: string
  st_requested :: string
  st_chat :: string
  st_plan :: dict

definition queued_node :: "dict \<Rightarrow> json" where
  "queued_node entry = JObj [(''state'', JStr ''queued''), (''attempt'', JInt 0),
     (''configurationRevision'',
       if truthy (dget entry ''configurationRevision'') then dget entry ''configurationRevision'' else JInt 1)]"

fun queued_nodes :: "json list \<Rightarrow> dict \<Rightarrow> dict" where
  "queued_nodes [] nodes = nodes"
| "queued_nodes (e # es) nodes =
     queued_nodes es (dset (as_text (dget (as_dict e) ''actionNodeId'')) (queued_node (as_dict e)) nodes)"

definition plan_actions :: "dict \<Rightarrow> json list" where
  "plan_actions plan = (case dget plan ''actions'' of JList xs \<Rightarrow> xs | _ \<Rightarrow> [])"

definition new_canvas_run :: "start_args \<Rightarrow> string \<Rightarrow> time \<Rightarrow> canvas_run" where
  "new_canvas_run a g now =
     \<lparr>cr_id = g, cr_graph = st_graph a, cr_session = st_session a, cr_chat = or_none (st_chat a),
      cr_operation = st_operation a, cr_nodes = queued_nodes (plan_actions (st_plan a)) [],
      cr_status = ''queued'', cr_current = None, cr_error = None, cr_created = now, cr_updated = now,
      cr_completed = None, cr_revision = st_revision a, cr_targets = dget (st_plan a) ''targetNodeIds'',
      cr_plan = st_plan a\<rparr>"

definition retry_claim_error :: "string \<Rightarrow> canvas_run option \<Rightarrow> canvas_error option" where
  "retry_claim_error retry existing =
     (if retry = [] then None
      else case existing of
        None \<Rightarrow> Some RetryForeign
      | Some r \<Rightarrow>
          if cr_id r \<noteq> retry then Some RetryForeign
          else if cr_status r \<in> {''cancelling'', ''cancelled''} then Some RetryCancelled
          else if cr_status r \<noteq> ''running'' then Some (RetryInactive (or_unknown (cr_status r)))
          else None)"

definition active_in :: "string \<Rightarrow> canvas_db \<Rightarrow> canvas_run list" where
  "active_in s d = filter (\<lambda>r. cr_session r = s \<and> cr_status r \<in> set active_graph_states) (cv_runs d)"

text \<open>The result is the run's id and whether it was created here. \<open>drawn\<close> is the id
  \<^verbatim>\<open>uuid4\<close> draws when the request names none.\<close>

definition start_graph_run_tx ::
  "intent_ids \<Rightarrow> string \<Rightarrow> start_args \<Rightarrow> string \<Rightarrow> time \<Rightarrow> canvas_db \<Rightarrow>
     (canvas_error + string \<times> bool) \<times> canvas_db" where
  "start_graph_run_tx ids drawn a retry now d =
     (case find (\<lambda>g. cg_id g = st_graph a \<and> cg_session g = st_session a) (cv_graphs d) of
        None \<Rightarrow> (Inl GraphChanged, d)
      | Some g \<Rightarrow>
          if cg_revision g \<noteq> st_revision a then (Inl GraphChanged, d)
          else let existing = canvas_run_row (st_session a) (st_operation a) d
          in case retry_claim_error retry existing of
               Some err \<Rightarrow> (Inl err, d)
             | None \<Rightarrow>
                 (case existing of
                    Some r \<Rightarrow> if cr_revision r \<noteq> st_revision a then (Inl RevisionDiffers, d) else (Inr (cr_id r, False), d)
                  | None \<Rightarrow>
                      if active_in (st_session a) d \<noteq> [] then (Inl AnotherRunActive, d)
                      else let i = or_text (st_requested a) drawn; row = new_canvas_run a i now
                      in if sel_by cr_id i (cv_runs d) \<noteq> None then (Inl UniqueFailed, d)
                         else if st_chat a \<noteq> [] \<and> run_of (st_chat a) (cv_core d) = None then (Inl ForeignKeyFailed, d)
                         else (case commit_announced ids (canvas_row.truncate row) ''queued'' [] [] now
                                 (d\<lparr>cv_runs := cv_runs d @ [row]\<rparr>) d of
                                 (Some err, d') \<Rightarrow> (Inl err, d')
                               | (None, d') \<Rightarrow> (Inr (i, True), d'))))"

section \<open>Cancelling a run\<close>

definition cancel_requested_text :: string where
  "cancel_requested_text = ''Canvas graph run cancellation was requested''"

definition cancelling_node :: "string \<Rightarrow> time \<Rightarrow> dict \<Rightarrow> dict" where
  "cancelling_node reason now s =
     dmerge s [(''state'', JStr ''cancelling''), (''errorCode'', JStr (or_text reason ''user_cancelled'')),
       (''error'', JStr cancel_requested_text), (''cancelRequestedAt'', JInt now), (''recoverable'', JBool False)]"

definition cancelling_run :: "string \<Rightarrow> time \<Rightarrow> canvas_run \<Rightarrow> canvas_run" where
  "cancelling_run reason now r =
     (let current = opt_text (cr_current r);
          nodes = (if current = [] then cr_nodes r
            else dset current (JObj (cancelling_node reason now (as_dict (dget (cr_nodes r) current)))) (cr_nodes r))
      in r\<lparr>cr_status := ''cancelling'', cr_nodes := nodes, cr_current := or_none current,
           cr_error := Some cancel_requested_text, cr_updated := now, cr_completed := None\<rparr>)"

text \<open>\<open>claimed\<close>, with the run as it then is.\<close>

definition claim_run_cancellation_tx ::
  "intent_ids \<Rightarrow> string \<Rightarrow> string \<Rightarrow> string \<Rightarrow> time \<Rightarrow> canvas_db \<Rightarrow>
     (canvas_error + bool \<times> canvas_run) \<times> canvas_db" where
  "claim_run_cancellation_tx ids s g reason now d =
     (case find (\<lambda>r. cr_id r = g \<and> cr_session r = s) (cv_runs d) of
        None \<Rightarrow> (Inl RunNotBound, d)
      | Some r \<Rightarrow>
          if cr_status r \<in> {''cancelling'', ''cancelled''} then (Inr (False, r), d)
          else if cr_status r \<notin> {''queued'', ''running''} then (Inl (CancelRefused (or_unknown (cr_status r))), d)
          else let P = (\<lambda>x. cr_id x = g \<and> cr_session x = s \<and> cr_status x \<in> {''queued'', ''running''})
          in if count_where P (cv_runs d) \<noteq> 1 then (Inl CancelLost, d)
             else (case commit_announced ids (canvas_row.truncate (cancelling_run reason now r)) ''cancelling'' [] [] now
                     (d\<lparr>cv_runs := upd_where P (cancelling_run reason now) (cv_runs d)\<rparr>) d of
                     (Some err, d') \<Rightarrow> (Inl err, d')
                   | (None, d') \<Rightarrow> (Inr (True, cancelling_run reason now r), d')))"

definition cancelled_text :: string where
  "cancelled_text = ''Canvas graph run was cancelled''"

definition cancelled_node :: "string \<Rightarrow> dict \<Rightarrow> time \<Rightarrow> dict \<Rightarrow> dict" where
  "cancelled_node reason lifecycle now s =
     dmerge (dmerge s lifecycle)
       [(''state'', JStr ''cancelled''),
        (''errorCode'', JStr (or_text reason (or_text (as_text (dget s ''errorCode'')) ''user_cancelled''))),
        (''error'', JStr cancelled_text), (''recoverable'', JBool False), (''completedAt'', JInt now)]"

definition cancelled_canvas_run :: "string \<Rightarrow> dict \<Rightarrow> time \<Rightarrow> canvas_run \<Rightarrow> canvas_run" where
  "cancelled_canvas_run reason lifecycle now r =
     (let current = opt_text (cr_current r);
          nodes = (if current = [] then cr_nodes r
            else dset current (JObj (cancelled_node reason lifecycle now (as_dict (dget (cr_nodes r) current)))) (cr_nodes r))
      in r\<lparr>cr_status := ''cancelled'', cr_nodes := nodes, cr_current := or_none current,
           cr_error := Some cancelled_text, cr_updated := now, cr_completed := Some now\<rparr>)"

text \<open>Whether the run is cancelled now, and whether that was announced.\<close>

definition finish_run_cancellation_tx ::
  "intent_ids \<Rightarrow> string \<Rightarrow> string \<Rightarrow> string \<Rightarrow> dict \<Rightarrow> time \<Rightarrow> canvas_db \<Rightarrow>
     (canvas_error + bool \<times> bool) \<times> canvas_db" where
  "finish_run_cancellation_tx ids s g reason lifecycle now d =
     (case find (\<lambda>r. cr_id r = g \<and> cr_session r = s) (cv_runs d) of
        None \<Rightarrow> (Inr (False, False), d)
      | Some r \<Rightarrow>
          if cr_status r \<notin> {''cancelling'', ''cancelled''} then (Inr (False, False), d)
          else let P = (\<lambda>x. cr_id x = g \<and> cr_session x = s \<and> cr_status x \<in> {''cancelling'', ''cancelled''});
                   d1 = d\<lparr>cv_runs := upd_where P (cancelled_canvas_run reason lifecycle now) (cv_runs d)\<rparr>
          in if count_where P (cv_runs d) \<noteq> 1 then (Inr (False, False), d)
             else if public_graph_run_status (cr_status r) \<noteq> ''cancelled''
             then (case commit_announced ids (canvas_row.truncate (cancelled_canvas_run reason lifecycle now r))
                       ''cancelled'' [] [] now d1 d of
                     (Some err, d') \<Rightarrow> (Inl err, d')
                   | (None, d') \<Rightarrow> (Inr (True, True), d'))
             else (Inr (True, False), d1))"

section \<open>Retrying a failed branch\<close>

definition retried_run :: "time \<Rightarrow> canvas_run \<Rightarrow> canvas_run" where
  "retried_run now r =
     r\<lparr>cr_status := ''running'', cr_error := None, cr_completed := None, cr_updated := now\<rparr>"

definition retry_blocked :: "canvas_run \<Rightarrow> bool" where
  "retry_blocked r =
     (let s = retry_state (cr_nodes r) (opt_text (cr_current r))
      in unrecoverable s \<or> remote_may_continue s)"

definition claim_failed_retry_tx ::
  "intent_ids \<Rightarrow> authority_service \<Rightarrow> string \<Rightarrow> string \<Rightarrow> time \<Rightarrow> canvas_db \<Rightarrow>
     (canvas_error + canvas_run) \<times> canvas_db" where
  "claim_failed_retry_tx ids auth s g now d =
     (case canvas_authority auth s True d of
        Inl err \<Rightarrow> (Inl err, d)
      | Inr a \<Rightarrow>
     case canvas_workspace_key a of
        Inl err \<Rightarrow> (Inl err, d)
      | Inr key \<Rightarrow>
     case find (\<lambda>r. cr_id r = g \<and> cr_session r = s) (cv_runs d) of
        None \<Rightarrow> (Inl RunNotBound, d)
      | Some r \<Rightarrow>
     case find (\<lambda>x. cg_id x = cr_graph r \<and> cg_session x = s) (cv_graphs d) of
        None \<Rightarrow> (Inl GraphNotBound, d)
      | Some graph \<Rightarrow>
          if cg_workspace graph \<noteq> key then (Inl WorkspaceChanged, d)
          else if cr_status r \<notin> set retryable_graph_states
          then (Inl (RetryRefused (or_unknown (cr_status r))), d)
          else if cg_revision graph \<noteq> cr_revision r then (Inl RevisionChanged, d)
          else if retry_blocked r then (Inl RetryBlocked, d)
          else let P = (\<lambda>x. cr_id x = g \<and> cr_session x = s \<and> cr_status x \<in> {''failed'', ''interrupted''})
          in if count_where P (cv_runs d) \<noteq> 1 then (Inl RetryLost, d)
             else (case commit_announced ids (canvas_row.truncate (retried_run now r)) ''running''
                       ''retry_failed_branch'' g now (d\<lparr>cv_runs := upd_where P (retried_run now) (cv_runs d)\<rparr>) d of
                     (Some err, d') \<Rightarrow> (Inl err, d')
                   | (None, d') \<Rightarrow> (Inr (retried_run now r), d')))"

section \<open>After a restart\<close>

definition prior_state :: "dict \<Rightarrow> string" where
  "prior_state s = or_text (as_text (dget s ''state'')) ''queued''"

definition node_active :: "dict \<Rightarrow> bool" where
  "node_active s \<longleftrightarrow> prior_state s \<in> set active_graph_states"

definition node_job :: "dict \<Rightarrow> string" where
  "node_job s = py_strip (as_text (dget s ''jobId''))"

definition has_provider_handle :: "dict \<Rightarrow> bool" where
  "has_provider_handle s \<longleftrightarrow> node_job s \<noteq> [] \<or> py_strip (as_text (dget s ''providerTaskId'')) \<noteq> [] \<or>
     as_dict (dget s ''providerHandle'') \<noteq> []"

definition interrupted_node :: "time \<Rightarrow> dict \<Rightarrow> dict" where
  "interrupted_node now s =
     (let h = has_provider_handle s
      in dmerge s ([(''state'', JStr ''interrupted''), (''priorState'', JStr (prior_state s)),
           (''recoverable'', JBool (\<not> h)),
           (''errorCode'', JStr (if h then ''engine_restart_provider_task_unknown'' else ''engine_restart_interrupted'')),
           (''error'', JStr (if h
             then ''Engine restarted with an unverified Provider task handle; reconcile it before retry''
             else ''Engine restarted before the Canvas action reached a terminal state'')),
           (''interruptedAt'', JInt now)]
         @ (if h then [(''providerCancellationRemoteTaskMayContinue'', JBool True)] else [])))"

definition interrupted_nodes :: "time \<Rightarrow> dict \<Rightarrow> dict" where
  "interrupted_nodes now nodes =
     map (\<lambda>(k, v). if node_active (as_dict v) then (k, JObj (interrupted_node now (as_dict v))) else (k, v)) nodes"

definition active_nodes :: "dict \<Rightarrow> (string \<times> dict) list" where
  "active_nodes nodes = filter (\<lambda>(k, s). node_active s) (map (\<lambda>(k, v). (k, as_dict v)) nodes)"

definition remote_uncertain :: "dict \<Rightarrow> bool" where
  "remote_uncertain nodes \<longleftrightarrow> (\<exists>p \<in> set (active_nodes nodes). has_provider_handle (snd p))"

record reconcile_candidate =
  rk_session :: string
  rk_run :: string
  rk_node :: string
  rk_job :: string

definition reconcile_candidates :: "canvas_run \<Rightarrow> reconcile_candidate list" where
  "reconcile_candidates r =
     map (\<lambda>(k, s). \<lparr>rk_session = py_strip (cr_session r), rk_run = py_strip (cr_id r), rk_node = k,
                     rk_job = node_job s\<rparr>)
       (filter (\<lambda>(k, s). node_job s \<noteq> []) (active_nodes (cr_nodes r)))"

definition interrupted_run :: "time \<Rightarrow> canvas_run \<Rightarrow> canvas_run" where
  "interrupted_run now r =
     r\<lparr>cr_status := ''interrupted'', cr_nodes := interrupted_nodes now (cr_nodes r), cr_current := None,
       cr_error := Some (if remote_uncertain (cr_nodes r)
         then ''Engine restarted with an unverified Provider task; retry is blocked until lifecycle reconciliation''
         else ''Engine restarted before the Canvas graph run reached a terminal state''),
       cr_updated := now, cr_completed := Some now\<rparr>"

record restart_report =
  rs_runs :: int
  rs_nodes :: int
  rs_candidates :: "reconcile_candidate list"

definition reported_run :: "bool \<Rightarrow> canvas_run \<Rightarrow> restart_report \<Rightarrow> restart_report" where
  "reported_run written r p =
     \<lparr>rs_runs = rs_runs p + (if written then 1 else 0), rs_nodes = rs_nodes p + int (length (active_nodes (cr_nodes r))),
      rs_candidates = rs_candidates p @ reconcile_candidates r\<rparr>"

text \<open>The rows are read once; each is interrupted if it is still active. Any error rolls the whole
  restart back to \<open>d0\<close>. The identifiers are drawn per run.\<close>

fun interrupt_runs ::
  "(string \<Rightarrow> intent_ids) \<Rightarrow> time \<Rightarrow> canvas_run list \<Rightarrow> restart_report \<Rightarrow> canvas_db \<Rightarrow> canvas_db \<Rightarrow>
     (canvas_error + restart_report) \<times> canvas_db" where
  "interrupt_runs ids now [] p d0 d = (Inr p, d)"
| "interrupt_runs ids now (r # rs) p d0 d =
     (let P = (\<lambda>x. cr_id x = cr_id r \<and> cr_status x \<in> set active_graph_states)
      in if count_where P (cv_runs d) \<noteq> 1 then interrupt_runs ids now rs (reported_run False r p) d0 d
         else (case enqueue_graph_run_state_event (ids (cr_id r)) (canvas_row.truncate (interrupted_run now r))
                   ''interrupted'' [] [] now
                   (d\<lparr>cv_runs := upd_where P (interrupted_run now) (cv_runs d)\<rparr>) of
                 (Some err, _) \<Rightarrow> (Inl err, d0)
               | (None, d') \<Rightarrow> interrupt_runs ids now rs (reported_run True r p) d0 d'))"

definition reconcile_startup_tx ::
  "(string \<Rightarrow> intent_ids) \<Rightarrow> time \<Rightarrow> canvas_db \<Rightarrow> (canvas_error + restart_report) \<times> canvas_db" where
  "reconcile_startup_tx ids now d =
     interrupt_runs ids now (filter (\<lambda>r. cr_status r \<in> set active_graph_states) (cv_runs d))
       \<lparr>rs_runs = 0, rs_nodes = 0, rs_candidates = []\<rparr> d d"

section \<open>A terminal proof for a remote task\<close>

definition proof_schema :: string where
  "proof_schema = ''v8.creative_media_remote_terminal_proof.v1''"

definition id_char :: "char \<Rightarrow> bool" where
  "id_char c = (let n = (of_char c :: nat) in
     (65 \<le> n \<and> n \<le> 90) \<or> (97 \<le> n \<and> n \<le> 122) \<or> (48 \<le> n \<and> n \<le> 57) \<or> c \<in> {CHR ''_'', CHR ''.'', CHR '':'', CHR ''-''})"

definition clean_id :: "json \<Rightarrow> string \<Rightarrow> canvas_error + string" where
  "clean_id v label =
     (let n = py_strip (as_text v)
      in if n = [] \<or> \<not> list_all id_char n \<or> length n > 160 then Inl (InvalidId label) else Inr n)"

definition clean_text :: "json \<Rightarrow> nat \<Rightarrow> string" where
  "clean_text v limit = take limit (py_strip (filter (\<lambda>c. of_char c \<noteq> (0 :: nat)) (as_text v)))"

record remote_report =
  rp_session :: string
  rp_run :: string
  rp_node :: string
  rp_job :: string
  rp_provider_status :: string
  rp_observed :: string
  rp_canonical :: dict
  rp_projected :: dict

text \<open>The report is checked and read before any row is touched.\<close>

definition read_remote_report ::
  "authority_service \<Rightarrow> dict \<Rightarrow> canvas_db \<Rightarrow> canvas_error + remote_report \<times> workspace_authority" where
  "read_remote_report auth report d =
     (let prf = as_dict (dget report ''terminalProof'');
          status = py_lower (py_strip (as_text (dget prf ''providerStatus'')))
      in if py_lower (py_strip (as_text (dget report ''status''))) \<noteq> ''resolved''
            \<or> dget report ''remoteTaskMayContinue'' \<noteq> JBool False
            \<or> py_strip (as_text (dget prf ''schema'')) \<noteq> proof_schema
            \<or> status \<notin> {''cancelled'', ''failed'', ''succeeded''}
         then Inl ProofUnverified
         else case clean_id (dget report ''sessionId'') ''Remote reconciliation session id'' of
           Inl err \<Rightarrow> Inl err
         | Inr s \<Rightarrow>
         case clean_id (dget report ''canvasGraphRunId'') ''Remote reconciliation graph run id'' of
           Inl err \<Rightarrow> Inl err
         | Inr g \<Rightarrow>
         case clean_id (dget report ''canvasGraphNodeId'') ''Remote reconciliation node id'' of
           Inl err \<Rightarrow> Inl err
         | Inr node \<Rightarrow>
         case clean_id (dget report ''jobId'') ''Remote reconciliation job id'' of
           Inl err \<Rightarrow> Inl err
         | Inr job \<Rightarrow>
         case canvas_authority auth s True d of
           Inl err \<Rightarrow> Inl err
         | Inr a \<Rightarrow>
             let w = py_strip (as_text (dget report ''workspaceId''));
                 observed = clean_text (dget prf ''observedAt'') 64;
                 source = clean_text (dget prf ''source'') 80
             in if w \<noteq> [] \<and> w \<noteq> py_strip (wa_workspace a) then Inl ProofForeign
                else if observed = [] then Inl ProofUndated
                else Inr (\<lparr>rp_session = s, rp_run = g, rp_node = node, rp_job = job,
                   rp_provider_status = status, rp_observed = observed,
                   rp_canonical = [(''schema'', JStr proof_schema), (''source'', JStr source),
                     (''providerHandle'', JObj (as_dict (dget prf ''providerHandle''))),
                     (''providerStatus'', JStr status),
                     (''providerStatusRaw'', JStr (clean_text (dget prf ''providerStatusRaw'') 120)),
                     (''observedAt'', JStr observed)],
                   rp_projected = [(''schema'', JStr proof_schema), (''source'', JStr source),
                     (''providerStatus'', JStr status), (''observedAt'', JStr observed)]\<rparr>, a))"

definition cleanup_failed :: "dict \<Rightarrow> bool" where
  "cleanup_failed s \<longleftrightarrow> py_lower (py_strip (as_text (dget s ''providerCleanup''))) = ''failed''"

definition reconciled_node :: "remote_report \<Rightarrow> string \<Rightarrow> string \<Rightarrow> time \<Rightarrow> dict \<Rightarrow> dict" where
  "reconciled_node p proof_digest status now s =
     dmerge s [(''providerCancellationRemoteTaskMayContinue'', JBool False),
       (''remoteTerminalProof'', JObj (rp_projected p)), (''remoteTerminalProofDigest'', JStr proof_digest),
       (''remoteReconciledAt'', JInt now), (''remoteProviderStatus'', JStr (rp_provider_status p)),
       (''recoverable'', JBool (status \<in> set retryable_graph_states \<and> \<not> cleanup_failed s))]"

definition reconciled_run :: "remote_report \<Rightarrow> string \<Rightarrow> string \<Rightarrow> time \<Rightarrow> canvas_run \<Rightarrow> canvas_run" where
  "reconciled_run p proof_digest status now r =
     (let s = as_dict (dget (cr_nodes r) (rp_node p));
          message = (if status = ''interrupted'' \<and> \<not> cleanup_failed s
            then ''The interrupted media task reached a verified terminal state and can be retried''
            else opt_text (cr_error r))
      in r\<lparr>cr_nodes := dset (rp_node p) (JObj (reconciled_node p proof_digest status now s)) (cr_nodes r),
           cr_error := or_none message, cr_updated := now\<rparr>)"

definition new_terminal_receipt :: "remote_report \<Rightarrow> string \<Rightarrow> time \<Rightarrow> terminal_receipt" where
  "new_terminal_receipt p proof_digest now =
     \<lparr>tr_job = rp_job p, tr_digest = proof_digest, tr_session = rp_session p, tr_run = rp_run p,
      tr_node = rp_node p, tr_provider_status = rp_provider_status p, tr_observed = rp_observed p,
      tr_applied = now\<rparr>"

datatype reconciliation = ProofApplied | ProofAlreadyApplied

definition apply_remote_terminal_reconciliation_tx ::
  "intent_ids \<Rightarrow> authority_service \<Rightarrow> (json \<Rightarrow> string) \<Rightarrow> dict \<Rightarrow> time \<Rightarrow> canvas_db \<Rightarrow>
     (canvas_error + reconciliation) \<times> canvas_db" where
  "apply_remote_terminal_reconciliation_tx ids auth digest report now d =
     (case read_remote_report auth report d of
        Inl err \<Rightarrow> (Inl err, d)
      | Inr (p, a) \<Rightarrow>
     let dig = digest (JObj (rp_canonical p)) in
     case find (\<lambda>r. cr_id r = rp_run p \<and> cr_session r = rp_session p) (cv_runs d) of
        None \<Rightarrow> (Inl ProofForeign, d)
      | Some r \<Rightarrow>
     let status = py_lower (py_strip (cr_status r)); s = as_dict (dget (cr_nodes r) (rp_node p)) in
     case find (\<lambda>x. cg_id x = cr_graph r \<and> cg_session x = rp_session p) (cv_graphs d) of
        None \<Rightarrow> (Inl WorkspaceChanged, d)
      | Some graph \<Rightarrow>
     case canvas_workspace_key a of
        Inl err \<Rightarrow> (Inl err, d)
      | Inr key \<Rightarrow>
          if cg_workspace graph \<noteq> key then (Inl WorkspaceChanged, d)
          else (case find (\<lambda>x. tr_job x = rp_job p \<and> tr_digest x = dig) (cv_receipts d) of
             Some x \<Rightarrow>
               if (tr_session x, tr_run x, tr_node x) \<noteq> (rp_session p, rp_run p, rp_node p)
               then (Inl ReceiptForeign, d) else (Inr ProofAlreadyApplied, d)
           | None \<Rightarrow>
               if status \<notin> {''failed'', ''interrupted'', ''cancelled''} then (Inl NotAwaiting, d)
               else if node_job s \<noteq> rp_job p then (Inl JobDiffers, d)
               else if dget s ''providerCancellationRemoteTaskMayContinue'' = JBool False
                       \<and> as_text (dget s ''remoteTerminalProofDigest'') = dig
               then (Inr ProofAlreadyApplied, d)
               else if dget s ''providerCancellationRemoteTaskMayContinue'' \<noteq> JBool True
               then (Inl NodeNotAwaiting, d)
               else let P = (\<lambda>x. cr_id x = rp_run p \<and> cr_session x = rp_session p \<and> cr_status x = status \<and>
                                 cr_updated x = cr_updated r)
               in if count_where P (cv_runs d) \<noteq> 1 then (Inl ReconcileLost, d)
                  else (case commit_announced ids (canvas_row.truncate (reconciled_run p dig status now r)) status
                            ''remote_terminal_reconciled'' [] now
                            (d\<lparr>cv_runs := upd_where P (reconciled_run p dig status now) (cv_runs d),
                               cv_receipts := cv_receipts d @ [new_terminal_receipt p dig now]\<rparr>) d of
                          (Some err, d') \<Rightarrow> (Inl err, d')
                        | (None, d') \<Rightarrow> (Inr ProofApplied, d')))
     )"

end
