(* ===== verification/CanvasOutbox.thy ===== *)
theory CanvasOutbox
  imports CanvasRuns
begin

text \<open>
  The event outbox of the canvas (core/database.py, core/creative_canvas_graph.py, erc/event_bus.py
  and core/storage_retention.py): an intent is projected into the runtime event log once, after every
  earlier intent of its session; a failed projection waits; the handlers write a run's state and then
  project what is pending. The theorems say that the log shows every change of a run's public status,
  in order and once.
\<close>

section \<open>Projecting an intent\<close>

definition shown_status :: "string \<Rightarrow> string" where
  "shown_status s = (if s = ''succeeded'' then ''completed'' else s)"

definition intent_matches :: "event_args \<Rightarrow> canvas_intent \<Rightarrow> bool" where
  "intent_matches ev i \<longleftrightarrow>
     ea_id ev = co_event i \<and> ea_session ev = co_session i \<and> ea_topic ev = canvas_topic \<and>
     as_text (dget (ea_payload ev) ''graphRunId'') = co_run i \<and>
     as_text (dget (ea_payload ev) ''status'') = shown_status (co_status i) \<and>
     as_text (dget (ea_payload ev) ''transition'') = co_transition i \<and>
     as_text (dget (ea_payload ev) ''retryOfGraphRunId'') = opt_text (co_retry i) \<and>
     ea_ts ev = Some (co_expected i) \<and>
     cr_id (co_row i) = co_run i \<and> cr_session (co_row i) = co_session i \<and>
     cr_status (co_row i) = co_status i \<and> cr_updated (co_row i) = co_expected i"

definition earlier_pending :: "canvas_intent \<Rightarrow> canvas_db \<Rightarrow> bool" where
  "earlier_pending i d \<longleftrightarrow>
     (\<exists>j \<in> set (cv_outbox d). co_session j = co_session i \<and> co_projected j = None \<and> co_seq j < co_seq i)"

definition same_event :: "event_args \<Rightarrow> event_rec \<Rightarrow> bool" where
  "same_event ev e \<longleftrightarrow>
     ev_session e = ea_session ev \<and> opt_text (ev_run e) = opt_text (ea_run ev) \<and>
     ev_kind e = or_text (ea_kind ev) ''event'' \<and> ev_topic e = ea_topic ev \<and> ev_ts e = ea_ts ev \<and>
     py_eq (JObj (ev_source e)) (JObj (ea_source ev)) \<and> py_eq (JObj (ev_payload e)) (JObj (ea_payload ev))"

definition projected_intent :: "time \<Rightarrow> canvas_intent \<Rightarrow> canvas_intent" where
  "projected_intent now i =
     i\<lparr>co_runtime_event := Some (co_event i), co_projected := coalesce (co_projected i) (Some now),
       co_error := None, co_next := None\<rparr>"

definition project_canvas_graph_run_event_outbox ::
  "event_args \<Rightarrow> string \<Rightarrow> time \<Rightarrow> canvas_db \<Rightarrow> (canvas_error + int option) \<times> canvas_db" where
  "project_canvas_graph_run_event_outbox ev oid now d =
     (case sel_by co_id (py_strip oid) (cv_outbox d) of
        None \<Rightarrow> (Inr None, d)
      | Some i \<Rightarrow>
          if \<not> intent_matches ev i then (Inl IntentMismatch, d)
          else if co_projected i = None \<and> earlier_pending i d then (Inr None, d)
          else (case sel_by ev_id (co_event i) (db_events (cv_core d)) of
             Some e \<Rightarrow>
               if \<not> same_event ev e then (Inl EventIdTaken, d)
               else (Inr (Some (ev_seq e)),
                     d\<lparr>cv_outbox := upd_where (\<lambda>j. co_id j = co_id i) (projected_intent now) (cv_outbox d)\<rparr>)
           | None \<Rightarrow>
               if (case ea_run ev of None \<Rightarrow> False | Some r \<Rightarrow> run_of r (cv_core d) = None)
               then (Inl ForeignKeyFailed, d)
               else let (n, c) = allocate_runtime_event_seq (co_session i) now (cv_core d)
                    in (Inr (Some n),
                        d\<lparr>cv_core := c\<lparr>db_events := db_events c @ [new_event_row ev n (ea_payload ev)]\<rparr>,
                          cv_outbox := upd_where (\<lambda>j. co_id j = co_id i \<and> co_projected j = None)
                            (projected_intent now) (cv_outbox d)\<rparr>)))"

text \<open>The emitter's branch for the outbox: nothing is retried here, and a number that is not there
  (or 0) is no event.\<close>

definition emit_canvas_event ::
  "emitter \<Rightarrow> dict \<Rightarrow> string \<Rightarrow> string \<Rightarrow> time \<Rightarrow> time \<Rightarrow> canvas_db \<Rightarrow>
     (canvas_error + int option) \<times> canvas_db" where
  "emit_canvas_event em payload oid event_id ts now d =
     (case project_canvas_graph_run_event_outbox
             (emitted_event em canvas_topic payload ''event'' event_id (Some ts)) oid now d of
        (Inl err, d') \<Rightarrow> (Inl err, d')
      | (Inr None, d') \<Rightarrow> (Inr None, d')
      | (Inr (Some n), d') \<Rightarrow> (Inr (if n = 0 then None else Some n), d'))"

section \<open>Failures\<close>

definition canvas_error_text :: "canvas_error \<Rightarrow> string" where
  "canvas_error_text e = (case e of
       StatusUnsupported s \<Rightarrow> ''Canvas graph run realtime status is unsupported: '' @ s
     | TransitionUnsupported t \<Rightarrow> ''Canvas graph run realtime transition is unsupported: '' @ t
     | RetryRunMissing \<Rightarrow> ''Canvas failed-branch retry realtime event requires its original graph run id''
     | IntentMismatch \<Rightarrow> ''Canvas graph outbox projection does not match its durable intent''
     | EventIdTaken \<Rightarrow> ''Canvas graph outbox event id is already bound to a different event''
     | ProjectionRefused \<Rightarrow> ''Canvas graph outbox projection was not accepted''
     | SessionUnavailable \<Rightarrow> ''Current session is unavailable''
     | AuthorityFailed s \<Rightarrow> s
     | NoWorkspace \<Rightarrow> ''Current session has no bound workspace''
     | NoWorkspaceIdentity \<Rightarrow> ''Current session workspace identity is unavailable''
     | NoWorkspaceId \<Rightarrow> ''Current session workspace id is unavailable for Canvas realtime state''
     | GraphNotBound \<Rightarrow> ''Canvas graph is not bound to the current session''
     | WorkspaceChanged \<Rightarrow> ''Canvas graph workspace binding changed before execution''
     | ForeignKeyFailed \<Rightarrow> ''FOREIGN KEY constraint failed''
     | _ \<Rightarrow> [])"

text \<open>The delay doubles from five seconds and stops at 300.\<close>

definition projection_delay :: "int \<Rightarrow> time" where
  "projection_delay n = 1000 * min 300 (5 * 2 ^ nat (min (n - 1) 6))"

definition failed_intent :: "string \<Rightarrow> time \<Rightarrow> canvas_intent \<Rightarrow> canvas_intent" where
  "failed_intent err now i =
     i\<lparr>co_attempts := co_attempts i + 1, co_error := Some (take 2000 (or_text err ''unknown_projection_failure'')),
       co_next := Some (now + projection_delay (co_attempts i + 1))\<rparr>"

definition record_canvas_graph_run_event_outbox_failure ::
  "string \<Rightarrow> string \<Rightarrow> time \<Rightarrow> canvas_db \<Rightarrow> bool \<times> canvas_db" where
  "record_canvas_graph_run_event_outbox_failure oid err now d =
     (let k = py_strip oid; P = (\<lambda>i. co_id i = k \<and> co_projected i = None)
      in if k = [] \<or> find P (cv_outbox d) = None then (False, d)
         else (count_where P (cv_outbox d) = 1,
               d\<lparr>cv_outbox := upd_where P (failed_intent err now) (cv_outbox d)\<rparr>))"

definition list_pending_canvas_graph_run_event_outbox :: "int \<Rightarrow> canvas_db \<Rightarrow> canvas_intent list" where
  "list_pending_canvas_graph_run_event_outbox limit d =
     take (nat (max 1 (min (if limit = 0 then 256 else limit) 2048)))
       (sort_key co_seq (filter (\<lambda>i. co_projected i = None) (cv_outbox d)))"

definition count_pending_canvas_graph_run_event_outbox :: "canvas_db \<Rightarrow> int" where
  "count_pending_canvas_graph_run_event_outbox d = int (count_where (\<lambda>i. co_projected i = None) (cv_outbox d))"

section \<open>Repairing\<close>

definition canvas_source :: dict where
  "canvas_source = [(''plane'', JStr ''engine''), (''component'', JStr ''creative_canvas_graph''),
     (''node'', JStr ''graph_run_state''), (''agent_id'', JNull)]"

definition project_intent ::
  "authority_service \<Rightarrow> canvas_intent \<Rightarrow> time \<Rightarrow> canvas_db \<Rightarrow> (canvas_error + int) \<times> canvas_db" where
  "project_intent auth i now d =
     (case graph_run_state_event_payload auth (co_row i) (py_lower (py_strip (co_status i)))
             (py_strip (co_transition i)) (py_strip (opt_text (co_retry i))) d of
        Inl err \<Rightarrow> (Inl err, d)
      | Inr payload \<Rightarrow>
          let run = or_none (as_text (dget payload ''runId''));
              em = create_emitter (py_strip (co_session i)) run canvas_source (cv_core d)
          in case emit_canvas_event em payload (py_strip (co_id i)) (py_strip (co_event i)) (co_expected i) now d of
               (Inl err, d') \<Rightarrow> (Inl err, d')
             | (Inr None, d') \<Rightarrow> (Inl ProjectionRefused, d')
             | (Inr (Some n), d') \<Rightarrow> (Inr n, d'))"

record repair_state =
  rr_blocked :: "string list"
  rr_projected :: int
  rr_failed :: int

definition repair_intent ::
  "authority_service \<Rightarrow> time \<Rightarrow> canvas_intent \<Rightarrow> repair_state \<times> canvas_db \<Rightarrow> repair_state \<times> canvas_db" where
  "repair_intent auth now i st =
     (let (p, d) = st; s = py_strip (co_session i)
      in if s \<in> set (rr_blocked p) then st
         else if (case co_next i of None \<Rightarrow> False | Some t \<Rightarrow> now < t)
         then (p\<lparr>rr_blocked := s # rr_blocked p\<rparr>, d)
         else case project_intent auth i now d of
             (Inr n, d') \<Rightarrow> (p\<lparr>rr_projected := rr_projected p + 1\<rparr>, d')
           | (Inl err, d') \<Rightarrow>
               (p\<lparr>rr_failed := rr_failed p + 1, rr_blocked := s # rr_blocked p\<rparr>,
                snd (record_canvas_graph_run_event_outbox_failure (py_strip (co_id i)) (canvas_error_text err) now d')))"

definition repair_graph_run_state_outbox ::
  "authority_service \<Rightarrow> int \<Rightarrow> time \<Rightarrow> canvas_db \<Rightarrow> (int \<times> int \<times> int) \<times> canvas_db" where
  "repair_graph_run_state_outbox auth limit now d =
     (let (p, d') = fold (repair_intent auth now) (list_pending_canvas_graph_run_event_outbox limit d)
                      (\<lparr>rr_blocked = [], rr_projected = 0, rr_failed = 0\<rparr>, d)
      in ((rr_projected p, rr_failed p, count_pending_canvas_graph_run_event_outbox d'), d'))"

definition prune_projected_canvas_outbox :: "bool \<Rightarrow> canvas_db \<Rightarrow> int \<times> canvas_db" where
  "prune_projected_canvas_outbox dry_run d =
     (let gone = take 1000 (sort_key co_seq (filter (\<lambda>i. co_projected i \<noteq> None \<and>
                   (case co_runtime_event i of None \<Rightarrow> False
                    | Some e \<Rightarrow> e \<notin> ev_id ` set (db_events (cv_core d)))) (cv_outbox d)))
      in (int (length gone),
          if dry_run then d
          else d\<lparr>cv_outbox := filter (\<lambda>i. co_id i \<notin> co_id ` set gone) (cv_outbox d)\<rparr>))"

section \<open>The handlers\<close>

definition default_repair_limit :: int where
  "default_repair_limit = 256"

text \<open>A writer that announced something projects what is pending.\<close>

definition then_repair :: "authority_service \<Rightarrow> bool \<Rightarrow> time \<Rightarrow> canvas_db \<Rightarrow> canvas_db" where
  "then_repair auth announced now d =
     (if announced then snd (repair_graph_run_state_outbox auth default_repair_limit now d) else d)"

definition write_run_state ::
  "authority_service \<Rightarrow> intent_ids \<Rightarrow> write_args \<Rightarrow> time \<Rightarrow> canvas_db \<Rightarrow> (canvas_error + bool) \<times> canvas_db" where
  "write_run_state auth ids a now d =
     (case write_run_state_tx ids a now d of
        (Inl err, d') \<Rightarrow> (Inl err, d')
      | (Inr (written, announced), d') \<Rightarrow> (Inr written, then_repair auth announced now d'))"

definition claim_run_cancellation ::
  "authority_service \<Rightarrow> intent_ids \<Rightarrow> string \<Rightarrow> string \<Rightarrow> string \<Rightarrow> time \<Rightarrow> canvas_db \<Rightarrow>
     (canvas_error + bool \<times> canvas_run) \<times> canvas_db" where
  "claim_run_cancellation auth ids s g reason now d =
     (case claim_run_cancellation_tx ids s g reason now d of
        (Inl err, d') \<Rightarrow> (Inl err, d')
      | (Inr (claimed, r), d') \<Rightarrow> (Inr (claimed, r), then_repair auth claimed now d'))"

definition finish_run_cancellation ::
  "authority_service \<Rightarrow> intent_ids \<Rightarrow> string \<Rightarrow> string \<Rightarrow> string \<Rightarrow> dict \<Rightarrow> time \<Rightarrow> canvas_db \<Rightarrow>
     (canvas_error + bool) \<times> canvas_db" where
  "finish_run_cancellation auth ids s g reason lifecycle now d =
     (case finish_run_cancellation_tx ids s g reason lifecycle now d of
        (Inl err, d') \<Rightarrow> (Inl err, d')
      | (Inr (finished, announced), d') \<Rightarrow> (Inr finished, then_repair auth announced now d'))"

text \<open>Between the claim and the end the provider is asked to stop the job of the current node, and
  other operations may run (\<open>meanwhile\<close>). \<open>lifecycle\<close> is the provider's answer for a job id.\<close>

definition current_job :: "canvas_run \<Rightarrow> string" where
  "current_job r = as_text (dget (as_dict (dget (cr_nodes r) (opt_text (cr_current r)))) ''jobId'')"

definition cancel_canvas_run ::
  "authority_service \<Rightarrow> intent_ids \<Rightarrow> intent_ids \<Rightarrow> string \<Rightarrow> string \<Rightarrow> string \<Rightarrow> (string \<Rightarrow> dict) \<Rightarrow>
     (canvas_db \<Rightarrow> canvas_db) \<Rightarrow> time \<Rightarrow> time \<Rightarrow> canvas_db \<Rightarrow> (canvas_error + canvas_view) \<times> canvas_db" where
  "cancel_canvas_run auth ids ids' s g reason lifecycle meanwhile now later d =
     (case canvas_authority auth s True d of
        Inl err \<Rightarrow> (Inl err, d)
      | Inr _ \<Rightarrow>
     case claim_run_cancellation auth ids s g (or_text reason ''user_cancelled'') now d of
        (Inl err, d1) \<Rightarrow> (Inl err, d1)
      | (Inr (False, r), d1) \<Rightarrow> (Inr (project_run r), d1)
      | (Inr (True, r), d1) \<Rightarrow>
     case finish_run_cancellation auth ids' s g (or_text reason ''user_cancelled'') (lifecycle (current_job r)) later
            (meanwhile d1) of
        (Inl err, d2) \<Rightarrow> (Inl err, d2)
      | (Inr _, d2) \<Rightarrow> (get_run auth s g d2, d2))"

definition claim_failed_retry ::
  "intent_ids \<Rightarrow> authority_service \<Rightarrow> string \<Rightarrow> string \<Rightarrow> time \<Rightarrow> canvas_db \<Rightarrow>
     (canvas_error + canvas_run) \<times> canvas_db" where
  "claim_failed_retry ids auth s g now d =
     (case claim_failed_retry_tx ids auth s g now d of
        (Inl err, d') \<Rightarrow> (Inl err, d')
      | (Inr r, d') \<Rightarrow> (Inr r, then_repair auth True now d'))"

definition reconcile_startup ::
  "(string \<Rightarrow> intent_ids) \<Rightarrow> authority_service \<Rightarrow> time \<Rightarrow> canvas_db \<Rightarrow>
     (canvas_error + restart_report) \<times> canvas_db" where
  "reconcile_startup ids auth now d =
     (case reconcile_startup_tx ids now (snd (repair_graph_run_state_outbox auth 2048 now d)) of
        (Inl err, d') \<Rightarrow> (Inl err, d')
      | (Inr p, d') \<Rightarrow> (Inr p, snd (repair_graph_run_state_outbox auth 2048 now d')))"

definition apply_remote_terminal_reconciliation ::
  "intent_ids \<Rightarrow> authority_service \<Rightarrow> (json \<Rightarrow> string) \<Rightarrow> dict \<Rightarrow> time \<Rightarrow> canvas_db \<Rightarrow>
     (canvas_error + reconciliation) \<times> canvas_db" where
  "apply_remote_terminal_reconciliation ids auth digest report now d =
     (case apply_remote_terminal_reconciliation_tx ids auth digest report now d of
        (Inl err, d') \<Rightarrow> (Inl err, d')
      | (Inr out, d') \<Rightarrow> (Inr out, then_repair auth (out = ProofApplied) now d'))"

text \<open>The beginning of an execution, up to the first provider call.\<close>

definition hex_char :: "char \<Rightarrow> bool" where
  "hex_char c = (let n = (of_char c :: nat) in (48 \<le> n \<and> n \<le> 57) \<or> (97 \<le> n \<and> n \<le> 102))"

definition graph_run_id_ok :: "string \<Rightarrow> bool" where
  "graph_run_id_ok i \<longleftrightarrow> starts_with ''canvas-run-'' i \<and> length i = 43 \<and> list_all hex_char (drop 11 i)"

definition read_start :: "start_args \<Rightarrow> canvas_error + start_args" where
  "read_start a =
     (let b = a\<lparr>st_session := py_strip (st_session a), st_graph := py_strip (st_graph a),
           st_operation := py_strip (st_operation a), st_requested := py_strip (st_requested a),
           st_chat := py_strip (st_chat a)\<rparr>
      in if st_session b = [] \<or> st_graph b = [] \<or> st_revision b = 0 \<or> st_operation b = [] then Inl (InvalidId ''execution'')
         else if st_requested b \<noteq> [] \<and> \<not> graph_run_id_ok (st_requested b) then Inl (InvalidId ''run'')
         else Inr b)"

definition running_write :: "string \<Rightarrow> dict \<Rightarrow> write_args" where
  "running_write g nodes = \<lparr>wr_run = g, wr_status = ''running'', wr_nodes = nodes, wr_current = [], wr_error = [],
     wr_completed = False, wr_transition = [], wr_retry = [], wr_expected = Some [''queued'']\<rparr>"

definition begin_graph_execution ::
  "authority_service \<Rightarrow> intent_ids \<Rightarrow> intent_ids \<Rightarrow> string \<Rightarrow> start_args \<Rightarrow> string \<Rightarrow> time \<Rightarrow> time \<Rightarrow>
     canvas_db \<Rightarrow> (canvas_error + string) \<times> canvas_db" where
  "begin_graph_execution auth ids ids' drawn request retry now later d =
     (case read_start request of
        Inl err \<Rightarrow> (Inl err, d)
      | Inr a \<Rightarrow>
     case canvas_authority auth (st_session a) True d of
        Inl err \<Rightarrow> (Inl err, d)
      | Inr w \<Rightarrow>
     case assert_graph_workspace_authority (st_session a) (st_graph a) w d of
        Some err \<Rightarrow> (Inl err, d)
      | None \<Rightarrow>
     case start_graph_run_tx ids drawn a (py_strip retry) now d of
        (Inl err, d1) \<Rightarrow> (Inl err, d1)
      | (Inr (g, True), d1) \<Rightarrow>
          let d2 = then_repair auth True now d1
          in if canvas_run_row (st_session a) (st_operation a) d2 = None then (Inl RunVanished, d2)
             else (case write_run_state auth ids' (running_write g (queued_nodes (plan_actions (st_plan a)) [])) later d2 of
                 (Inl err, d3) \<Rightarrow> (Inl err, d3)
               | (Inr False, d3) \<Rightarrow> (Inl CancelledBeforeStart, d3)
               | (Inr True, d3) \<Rightarrow> (Inr g, d3))
      | (Inr (g, False), d1) \<Rightarrow>
          if canvas_run_status g d1 \<noteq> ''running'' then (Inl CancelledBeforeStart, d1) else (Inr g, d1))"

end
