(* ===== verification/CanvasHistory.thy ===== *)
theory CanvasHistory
  imports CanvasOutbox
begin

text \<open>
  Canvas runs and their events over time: the operations of CanvasRuns and CanvasOutbox as steps that
  any number of clients, executors and repair loops interleave. The outbox is a lossless channel from
  the table of runs to the event log.
\<close>

section \<open>Steps\<close>

text \<open>What the environment guarantees: \<^verbatim>\<open>uuid4\<close> draws identifiers that are not in use, and
  the clock (microseconds) has moved since the last write.\<close>

definition fresh_ids :: "intent_ids \<Rightarrow> canvas_db \<Rightarrow> bool" where
  "fresh_ids ids d \<longleftrightarrow> fst ids \<notin> co_id ` set (cv_outbox d) \<and> snd ids \<notin> co_event ` set (cv_outbox d) \<and>
     snd ids \<notin> ev_id ` set (db_events (cv_core d))"

definition clock_moved :: "time \<Rightarrow> canvas_db \<Rightarrow> bool" where
  "clock_moved now d \<longleftrightarrow> (\<forall>i \<in> set (cv_outbox d). co_expected i < now)"

definition restart_ids_ok :: "(string \<Rightarrow> intent_ids) \<Rightarrow> canvas_db \<Rightarrow> bool" where
  "restart_ids_ok ids d \<longleftrightarrow> (\<forall>r \<in> set (cv_runs d). fresh_ids (ids (cr_id r)) d) \<and>
     distinct (map (fst \<circ> ids \<circ> cr_id) (cv_runs d)) \<and> distinct (map (snd \<circ> ids \<circ> cr_id) (cv_runs d))"

datatype canvas_op =
    StartRun intent_ids string start_args string time
  | WriteRun intent_ids write_args time
  | ClaimCancel intent_ids string string string time
  | FinishCancel intent_ids string string string dict time
  | ClaimRetry intent_ids authority_service string string time
  | Restart "string \<Rightarrow> intent_ids" time
  | Reconcile intent_ids authority_service "json \<Rightarrow> string" dict time
  | Project event_args string time
  | ProjectionFailed string string time
  | Prune bool
  | OtherEvent event_args time

definition admissible :: "canvas_op \<Rightarrow> canvas_db \<Rightarrow> bool" where
  "admissible x d = (case x of
       StartRun ids drawn a retry now \<Rightarrow> fresh_ids ids d \<and> clock_moved now d \<and> graph_run_id_ok drawn
     | WriteRun ids a now \<Rightarrow> fresh_ids ids d \<and> clock_moved now d \<and> wr_transition a = []
     | ClaimCancel ids s g reason now \<Rightarrow> fresh_ids ids d \<and> clock_moved now d
     | FinishCancel ids s g reason lifecycle now \<Rightarrow> fresh_ids ids d \<and> clock_moved now d
     | ClaimRetry ids auth s g now \<Rightarrow> fresh_ids ids d \<and> clock_moved now d
     | Restart ids now \<Rightarrow> restart_ids_ok ids d \<and> clock_moved now d
     | Reconcile ids auth digest report now \<Rightarrow> fresh_ids ids d \<and> clock_moved now d
     | Project ev oid now \<Rightarrow> True
     | ProjectionFailed oid err now \<Rightarrow> True
     | Prune dry \<Rightarrow> True
     | OtherEvent a now \<Rightarrow> ea_topic a \<noteq> canvas_topic \<and> ea_id a \<notin> co_event ` set (cv_outbox d))"

definition op_effect :: "canvas_op \<Rightarrow> canvas_db \<Rightarrow> canvas_db" where
  "op_effect x d = (case x of
       StartRun ids drawn a retry now \<Rightarrow>
         (case read_start a of Inl _ \<Rightarrow> d | Inr b \<Rightarrow> snd (start_graph_run_tx ids drawn b retry now d))
     | WriteRun ids a now \<Rightarrow> snd (write_run_state_tx ids a now d)
     | ClaimCancel ids s g reason now \<Rightarrow> snd (claim_run_cancellation_tx ids s g reason now d)
     | FinishCancel ids s g reason lifecycle now \<Rightarrow> snd (finish_run_cancellation_tx ids s g reason lifecycle now d)
     | ClaimRetry ids auth s g now \<Rightarrow> snd (claim_failed_retry_tx ids auth s g now d)
     | Restart ids now \<Rightarrow> snd (reconcile_startup_tx ids now d)
     | Reconcile ids auth digest report now \<Rightarrow> snd (apply_remote_terminal_reconciliation_tx ids auth digest report now d)
     | Project ev oid now \<Rightarrow> snd (project_canvas_graph_run_event_outbox ev oid now d)
     | ProjectionFailed oid err now \<Rightarrow> snd (record_canvas_graph_run_event_outbox_failure oid err now d)
     | Prune dry \<Rightarrow> snd (prune_projected_canvas_outbox dry d)
     | OtherEvent a now \<Rightarrow> d\<lparr>cv_core := snd (add_runtime_event a now (cv_core d))\<rparr>)"

definition canvas_step :: "canvas_op \<Rightarrow> canvas_db \<Rightarrow> canvas_db" where
  "canvas_step x d = (if admissible x d then op_effect x d else d)"

section \<open>What is shown\<close>

type_synonym mark = "string \<times> string"

definition intent_mark :: "canvas_intent \<Rightarrow> mark" where
  "intent_mark i = (co_run i, shown_status (co_status i))"

definition event_mark :: "event_rec \<Rightarrow> mark" where
  "event_mark e = (as_text (dget (ev_payload e) ''graphRunId''), as_text (dget (ev_payload e) ''status''))"

text \<open>The canvas events of a session, and the intents that are still to become events.\<close>

definition canvas_log :: "string \<Rightarrow> canvas_db \<Rightarrow> mark list" where
  "canvas_log s d = map event_mark (filter (\<lambda>e. ev_session e = s \<and> ev_topic e = canvas_topic) (db_events (cv_core d)))"

definition pending_intents :: "string \<Rightarrow> canvas_db \<Rightarrow> canvas_intent list" where
  "pending_intents s d = filter (\<lambda>i. co_session i = s \<and> co_projected i = None) (cv_outbox d)"

definition pending_marks :: "string \<Rightarrow> canvas_db \<Rightarrow> mark list" where
  "pending_marks s d = map intent_mark (pending_intents s d)"

text \<open>What happened to the runs of a session: the public statuses that changed, and the proofs that
  were applied without changing one.\<close>

definition run_mark :: "canvas_run \<Rightarrow> mark" where
  "run_mark r = (cr_id r, public_graph_run_status (cr_status r))"

definition public_before :: "string \<Rightarrow> canvas_run list \<Rightarrow> string" where
  "public_before g t = (case sel_by cr_id g t of None \<Rightarrow> [] | Some r \<Rightarrow> public_graph_run_status (cr_status r))"

definition status_changes :: "string \<Rightarrow> canvas_run list \<Rightarrow> canvas_run list \<Rightarrow> mark list" where
  "status_changes s t t' =
     map run_mark (filter (\<lambda>r. cr_session r = s \<and> public_graph_run_status (cr_status r) \<noteq> public_before (cr_id r) t) t')"

definition reconciled_marks :: "string \<Rightarrow> canvas_op \<Rightarrow> canvas_db \<Rightarrow> mark list" where
  "reconciled_marks s x d = (case x of
       Reconcile ids auth digest report now \<Rightarrow>
         (case (fst (apply_remote_terminal_reconciliation_tx ids auth digest report now d), read_remote_report auth report d) of
            (Inr ProofApplied, Inr (p, _)) \<Rightarrow>
              (if admissible x d \<and> rp_session p = s
               then map run_mark (filter (\<lambda>r. cr_id r = rp_run p) (cv_runs d)) else [])
          | _ \<Rightarrow> [])
     | _ \<Rightarrow> [])"

definition happened :: "string \<Rightarrow> canvas_op \<Rightarrow> canvas_db \<Rightarrow> mark list" where
  "happened s x d = status_changes s (cv_runs d) (cv_runs (canvas_step x d)) @ reconciled_marks s x d"

text \<open>What a step puts into the log.\<close>

definition logged :: "string \<Rightarrow> canvas_op \<Rightarrow> canvas_db \<Rightarrow> mark list" where
  "logged s x d = drop (length (canvas_log s d)) (canvas_log s (canvas_step x d))"

section \<open>The invariant\<close>

definition runs_ok :: "canvas_run list \<Rightarrow> bool" where
  "runs_ok t \<longleftrightarrow> keyed cr_id t \<and> (\<forall>r \<in> set t. py_strip (cr_id r) = cr_id r \<and> py_strip (cr_session r) = cr_session r)"

definition outbox_ok :: "canvas_db \<Rightarrow> bool" where
  "outbox_ok d \<longleftrightarrow> keyed co_id (cv_outbox d) \<and> keyed co_event (cv_outbox d) \<and>
     sorted_wrt (<) (map co_seq (cv_outbox d)) \<and> (\<forall>i \<in> set (cv_outbox d). co_seq i \<le> cv_last_intent d) \<and>
     (\<forall>i \<in> set (cv_outbox d). co_projected i = None \<longleftrightarrow> co_event i \<notin> ev_id ` set (db_events (cv_core d)))"

definition canvas_wf :: "canvas_db \<Rightarrow> bool" where
  "canvas_wf d \<longleftrightarrow> runs_ok (cv_runs d) \<and> outbox_ok d"

section \<open>Enqueueing\<close>

lemma public_known:
  assumes "public_graph_run_status s \<noteq> []"
  shows "shown_status (py_lower (py_strip s)) = public_graph_run_status s"
    "py_lower (py_strip (py_lower (py_strip s))) = py_lower (py_strip s)"
    "py_lower (py_strip s) \<noteq> []"
proof -
  let ?k = "py_lower (py_strip s)"
  have "?k \<in> fst ` set graph_run_public_statuses"
    using assms by (force simp: public_graph_run_status_def dest: map_of_SomeD split: option.splits)
  moreover have "list_all (\<lambda>k. shown_status k = (case map_of graph_run_public_statuses k of None \<Rightarrow> [] | Some p \<Rightarrow> p) \<and>
      py_lower (py_strip k) = k \<and> k \<noteq> []) (map fst graph_run_public_statuses)"
    by code_simp
  ultimately have "shown_status ?k = (case map_of graph_run_public_statuses ?k of None \<Rightarrow> [] | Some p \<Rightarrow> p) \<and>
      py_lower (py_strip ?k) = ?k \<and> ?k \<noteq> []"
    by (auto simp: list_all_iff)
  then show "shown_status ?k = public_graph_run_status s" "py_lower (py_strip ?k) = ?k" "?k \<noteq> []"
    by (auto simp: public_graph_run_status_def)
qed

definition run_clock :: "string \<Rightarrow> time \<Rightarrow> canvas_db \<Rightarrow> bool" where
  "run_clock g now d \<longleftrightarrow> (\<forall>i \<in> set (cv_outbox d). co_run i = g \<longrightarrow> co_expected i < now)"

lemma run_clock_moved: "clock_moved now d \<Longrightarrow> run_clock g now d"
  by (simp add: clock_moved_def run_clock_def)

lemma intent_exists_not:
  "run_clock g now d \<Longrightarrow> find (\<lambda>i. co_run i = g \<and> co_status i = st \<and> co_expected i = now \<and> co_transition i = tr) (cv_outbox d) = None"
  by (force simp: find_None_iff run_clock_def)

lemma enqueue_fresh:
  assumes "enqueue_graph_run_state_event ids row status tr rt now d = (err, d')"
    and "fresh_ids ids d" and "run_clock (py_strip (cr_id row)) now d" and "cr_updated row = now"
  shows "(err \<noteq> None \<and> d' = d) \<or>
    (err = None \<and> public_graph_run_status status \<noteq> [] \<and>
     (\<exists>r. sel_by cr_id (py_strip (cr_id row)) (cv_runs d) = Some r \<and> cr_session r = py_strip (cr_session row)) \<and>
     d' = d\<lparr>cv_outbox := cv_outbox d @ [new_intent ids row (py_lower (py_strip status)) (py_strip tr) (py_strip rt) now
              (cv_last_intent d + 1)], cv_last_intent := cv_last_intent d + 1\<rparr>)"
proof (cases "announcement_error status tr rt")
  case None
  then have pub: "public_graph_run_status status \<noteq> []"
    by (auto simp: announcement_error_def split: if_splits)
  have "find (\<lambda>i. co_run i = py_strip (cr_id row) \<and> co_status i = py_lower (py_strip status) \<and>
      co_expected i = cr_updated row \<and> co_transition i = py_strip tr) (cv_outbox d) = None"
    using intent_exists_not [OF assms(3)] assms(4) by simp
  then show ?thesis using assms(1,2) pub None
    by (auto simp: enqueue_graph_run_state_event_def enqueue_canvas_graph_run_event_outbox_def public_known(2) [OF pub]
        fresh_ids_def Let_def split: if_splits option.splits)
qed (use assms(1) in \<open>auto simp: enqueue_graph_run_state_event_def\<close>)

text \<open>A commit that writes runs and one intent.\<close>

definition tells :: "string \<Rightarrow> canvas_db \<Rightarrow> canvas_db \<Rightarrow> mark list \<Rightarrow> bool" where
  "tells s d d' ms \<longleftrightarrow> pending_marks s d' = pending_marks s d @ ms \<and> cv_core d' = cv_core d \<and> canvas_wf d'"

lemma tells_same: "canvas_wf d \<Longrightarrow> tells s d d []"
  by (simp add: tells_def)

lemma pending_marks_runs [simp]:
  "pending_marks s (d\<lparr>cv_runs := t\<rparr>) = pending_marks s d" "pending_marks s (d\<lparr>cv_receipts := rs\<rparr>) = pending_marks s d"
  "outbox_ok (d\<lparr>cv_runs := t\<rparr>) = outbox_ok d" "outbox_ok (d\<lparr>cv_receipts := rs\<rparr>) = outbox_ok d"
  "fresh_ids ids (d\<lparr>cv_runs := t\<rparr>) = fresh_ids ids d" "fresh_ids ids (d\<lparr>cv_receipts := rs\<rparr>) = fresh_ids ids d"
  "clock_moved now (d\<lparr>cv_runs := t\<rparr>) = clock_moved now d" "clock_moved now (d\<lparr>cv_receipts := rs\<rparr>) = clock_moved now d"
  by (simp_all add: pending_marks_def pending_intents_def outbox_ok_def fresh_ids_def clock_moved_def)

lemma new_intent_simps [simp]:
  "co_id (new_intent ids row st tr rt now n) = fst ids" "co_event (new_intent ids row st tr rt now n) = snd ids"
  "co_seq (new_intent ids row st tr rt now n) = n" "co_projected (new_intent ids row st tr rt now n) = None"
  "co_session (new_intent ids row st tr rt now n) = py_strip (cr_session row)"
  "co_run (new_intent ids row st tr rt now n) = py_strip (cr_id row)"
  "co_status (new_intent ids row st tr rt now n) = st" "co_expected (new_intent ids row st tr rt now n) = cr_updated row"
  by (simp_all add: new_intent_def)

lemma outbox_ok_enqueued:
  assumes "outbox_ok d" and "fresh_ids ids d" and "i = new_intent ids row st tr rt now (cv_last_intent d + 1)"
  shows "outbox_ok (d\<lparr>cv_outbox := cv_outbox d @ [i], cv_last_intent := cv_last_intent d + 1\<rparr>)"
  using assms by (auto simp: outbox_ok_def fresh_ids_def keyed_def sorted_wrt_append)

lemma enqueue_tells:
  assumes wf: "canvas_wf d" and en: "enqueue_graph_run_state_event ids row status tr rt now d1 = (None, d')"
    and d1: "cv_core d1 = cv_core d" "cv_outbox d1 = cv_outbox d" "cv_last_intent d1 = cv_last_intent d" "runs_ok (cv_runs d1)"
    and env: "fresh_ids ids d" "run_clock (cr_id row) now d"
    and row: "cr_updated row = now" "py_strip (cr_id row) = cr_id row" "py_strip (cr_session row) = cr_session row"
  shows "tells s d d' (if cr_session row = s then [(cr_id row, public_graph_run_status status)] else []) \<and>
    cv_runs d' = cv_runs d1"
proof -
  have env1: "fresh_ids ids d1" "run_clock (py_strip (cr_id row)) now d1" "outbox_ok d1"
    using env wf d1 row(2) by (simp_all add: fresh_ids_def run_clock_def canvas_wf_def outbox_ok_def)
  let ?i = "new_intent ids row (py_lower (py_strip status)) (py_strip tr) (py_strip rt) now (cv_last_intent d1 + 1)"
  have pub: "public_graph_run_status status \<noteq> []"
    and d': "d' = d1\<lparr>cv_outbox := cv_outbox d1 @ [?i], cv_last_intent := cv_last_intent d1 + 1\<rparr>"
    using enqueue_fresh [OF en env1(1,2) row(1)] by auto
  have "outbox_ok d'" unfolding d' by (rule outbox_ok_enqueued [OF env1(3,1)]) simp
  moreover have "pending_marks s d' = pending_marks s d @
      (if cr_session row = s then [(cr_id row, public_graph_run_status status)] else [])"
    using row by (simp add: d' pending_marks_def pending_intents_def d1 intent_mark_def public_known(1) [OF pub])
  ultimately show ?thesis by (simp add: tells_def d' d1 canvas_wf_def)
qed

section \<open>Runs\<close>

lemma map_filter_one:
  assumes "keyed key t" and "r \<in> set t" and "\<And>x. x \<in> set t \<Longrightarrow> key x \<noteq> key r \<Longrightarrow> \<not> Q x"
  shows "map g (filter Q (upd_where (\<lambda>x. key x = key r) f t)) = (if Q (f r) then [g (f r)] else [])"
  using assms
proof (induction t)
  case (Cons y t)
  show ?case
  proof (cases "key y = key r")
    case True
    with Cons.prems have y: "y = r" using keyed_inj [OF Cons.prems(1), of y r] by simp
    have t: "\<And>x. x \<in> set t \<Longrightarrow> key x \<noteq> key r" using Cons.prems(1) y by (force simp: keyed_def image_iff)
    have "upd_where (\<lambda>x. key x = key r) f t = t" using t by (intro upd_where_id) auto
    moreover have "filter Q t = []" using Cons.prems(3) t by (auto simp: filter_empty_conv)
    ultimately show ?thesis using y by simp
  next
    case False
    then show ?thesis using Cons by (auto simp: keyed_def)
  qed
qed simp

lemma public_before_at: "keyed cr_id t \<Longrightarrow> x \<in> set t \<Longrightarrow> public_before (cr_id x) t = public_graph_run_status (cr_status x)"
proof -
  assume "keyed cr_id t" "x \<in> set t"
  then have "sel_by cr_id (cr_id x) t = Some x" by (simp add: keyed_sel_iff)
  then show ?thesis by (simp add: public_before_def)
qed

lemma changes_written:
  assumes t: "runs_ok t" and r: "r \<in> set t" and P: "\<And>x. x \<in> set t \<Longrightarrow> P x = (cr_id x = cr_id r)"
    and f: "\<And>x. cr_id (f x) = cr_id x \<and> cr_session (f x) = cr_session x"
  shows "status_changes s t (upd_where P f t) =
      (if cr_session r = s \<and> public_graph_run_status (cr_status (f r)) \<noteq> public_graph_run_status (cr_status r)
       then [run_mark (f r)] else [])"
    and "runs_ok (upd_where P f t)"
proof -
  have k: "keyed cr_id t" using t by (simp add: runs_ok_def)
  have "status_changes s t (upd_where P f t) = status_changes s t (upd_where (\<lambda>x. cr_id x = cr_id r) f t)"
    by (simp only: upd_where_cong [OF P])
  also have "\<dots> = (if cr_session r = s \<and> public_graph_run_status (cr_status (f r)) \<noteq> public_graph_run_status (cr_status r)
       then [run_mark (f r)] else [])"
    unfolding status_changes_def using f
    by (subst map_filter_one [OF k r]) (auto simp: public_before_at [OF k] public_before_at [OF k r])
  finally show "status_changes s t (upd_where P f t) = \<dots>" .
  show "runs_ok (upd_where P f t)"
    using t f by (auto simp: runs_ok_def keyed_upd_where set_upd_where)
qed

lemma changes_none: "runs_ok t \<Longrightarrow> status_changes s t t = []"
  by (auto simp: status_changes_def filter_empty_conv runs_ok_def public_before_at)

lemma changes_added:
  assumes "runs_ok t" and "sel_by cr_id (cr_id r) t = None" and "py_strip (cr_id r) = cr_id r" and "py_strip (cr_session r) = cr_session r"
    and "public_graph_run_status (cr_status r) \<noteq> []"
  shows "status_changes s t (t @ [r]) = (if cr_session r = s then [run_mark r] else [])" and "runs_ok (t @ [r])"
proof -
  have "filter (\<lambda>r. cr_session r = s \<and> public_graph_run_status (cr_status r) \<noteq> public_before (cr_id r) t) t = []"
    using changes_none [OF assms(1), of s] by (simp add: status_changes_def)
  then show "status_changes s t (t @ [r]) = (if cr_session r = s then [run_mark r] else [])"
    using assms(2,5) by (simp add: status_changes_def public_before_def)
  show "runs_ok (t @ [r])" using assms by (auto simp: runs_ok_def keyed_snoc)
qed

section \<open>The writers tell what they do\<close>

lemma truncate_simps [simp]:
  "cr_id (canvas_row.truncate r) = cr_id r" "cr_session (canvas_row.truncate r) = cr_session r"
  "cr_updated (canvas_row.truncate r) = cr_updated r"
  by (simp_all add: canvas_row.truncate_def)

definition keeps_key :: "(canvas_run \<Rightarrow> canvas_run) \<Rightarrow> bool" where
  "keeps_key f \<longleftrightarrow> (\<forall>x. cr_id (f x) = cr_id x \<and> cr_session (f x) = cr_session x)"

lemma keeps_key_writes [simp]:
  "keeps_key (written_run a now)" "keeps_key (cancelling_run reason now)"
  "keeps_key (cancelled_canvas_run reason lifecycle now)" "keeps_key (retried_run now)"
  "keeps_key (interrupted_run now)" "keeps_key (reconciled_run p dig st now)"
  by (simp_all add: keeps_key_def written_run_def cancelling_run_def cancelled_canvas_run_def retried_run_def
      interrupted_run_def reconciled_run_def Let_def)

lemma written_fields [simp]:
  "cr_updated (written_run a now r) = now" "cr_status (written_run a now r) = wr_status a"
  "cr_updated (cancelling_run reason now r) = now" "cr_status (cancelling_run reason now r) = ''cancelling''"
  "cr_updated (cancelled_canvas_run reason lifecycle now r) = now"
  "cr_status (cancelled_canvas_run reason lifecycle now r) = ''cancelled''"
  "cr_updated (retried_run now r) = now" "cr_status (retried_run now r) = ''running''"
  "cr_updated (interrupted_run now r) = now" "cr_status (interrupted_run now r) = ''interrupted''"
  "cr_updated (reconciled_run p dig st now r) = now" "cr_status (reconciled_run p dig st now r) = cr_status r"
  by (simp_all add: written_run_def cancelling_run_def cancelled_canvas_run_def retried_run_def
      interrupted_run_def reconciled_run_def Let_def)

lemma commit_tells:
  assumes wf: "canvas_wf d" and env: "fresh_ids ids d" "clock_moved now d"
    and co: "commit_announced ids (canvas_row.truncate r) status tr rt now d1 d = (err, d')"
    and d1: "cv_core d1 = cv_core d" "cv_outbox d1 = cv_outbox d" "cv_last_intent d1 = cv_last_intent d" "runs_ok (cv_runs d1)"
    and r: "r \<in> set (cv_runs d1)" "cr_updated r = now" "public_graph_run_status status = public_graph_run_status (cr_status r)"
  shows "(err \<noteq> None \<and> d' = d) \<or>
    (err = None \<and> tells s d d' (if cr_session r = s then [run_mark r] else []) \<and> cv_runs d' = cv_runs d1)"
proof (cases err)
  case None
  then have "enqueue_graph_run_state_event ids (canvas_row.truncate r) status tr rt now d1 = (None, d')"
    using co by (auto simp: commit_announced_def split: prod.splits option.splits)
  moreover have "py_strip (cr_id r) = cr_id r" "py_strip (cr_session r) = cr_session r"
    using d1(4) r(1) by (simp_all add: runs_ok_def)
  ultimately show ?thesis
    using enqueue_tells [OF wf, of ids "canvas_row.truncate r" status tr rt now d1 d' s] d1 env run_clock_moved [OF env(2)] r(2,3) None
    by (cases "cr_session r = s") (simp_all add: run_mark_def)
qed (use co in \<open>auto simp: commit_announced_def split: prod.splits option.splits\<close>)

lemma update_tells:
  assumes wf: "canvas_wf d" and env: "fresh_ids ids d" "clock_moved now d"
    and r: "r \<in> set (cv_runs d)" and P: "\<And>x. x \<in> set (cv_runs d) \<Longrightarrow> P x = (cr_id x = cr_id r)" and f: "keeps_key f"
    and co: "commit_announced ids (canvas_row.truncate (f r)) status tr rt now d1 d = (err, d')"
    and d1: "cv_core d1 = cv_core d" "cv_outbox d1 = cv_outbox d" "cv_last_intent d1 = cv_last_intent d"
      "cv_runs d1 = upd_where P f (cv_runs d)"
    and fr: "cr_updated (f r) = now" "public_graph_run_status status = public_graph_run_status (cr_status (f r))"
  shows "(err \<noteq> None \<and> d' = d) \<or>
    (err = None \<and> tells s d d' (if cr_session r = s then [run_mark (f r)] else []) \<and>
     cv_runs d' = upd_where P f (cv_runs d))"
proof -
  have ok: "runs_ok (cv_runs d)" using wf by (simp add: canvas_wf_def)
  have "f r \<in> set (cv_runs d1)" using r P [OF r] d1(4) by (auto simp: set_upd_where)
  moreover have "runs_ok (cv_runs d1)"
    unfolding d1(4) by (rule changes_written(2) [OF ok r P]) (use f in \<open>auto simp: keeps_key_def\<close>)
  moreover have "cr_session (f r) = cr_session r" using f by (simp add: keeps_key_def)
  ultimately show ?thesis
    using commit_tells [OF wf env co d1(1-3), of s] fr d1(4) by simp
qed

definition told :: "string \<Rightarrow> canvas_db \<Rightarrow> canvas_db \<Rightarrow> bool" where
  "told s d d' \<longleftrightarrow> tells s d d' (status_changes s (cv_runs d) (cv_runs d'))"

lemma told_same: "canvas_wf d \<Longrightarrow> told s d d"
  by (simp add: told_def canvas_wf_def changes_none tells_def pending_marks_def)

lemma update_told:
  assumes wf: "canvas_wf d" and env: "fresh_ids ids d" "clock_moved now d"
    and r: "r \<in> set (cv_runs d)" and P: "\<And>x. x \<in> set (cv_runs d) \<Longrightarrow> P x = (cr_id x = cr_id r)" and f: "keeps_key f"
    and co: "commit_announced ids (canvas_row.truncate (f r)) status tr rt now (d\<lparr>cv_runs := upd_where P f (cv_runs d)\<rparr>) d = (err, d')"
    and fr: "cr_updated (f r) = now" "public_graph_run_status status = public_graph_run_status (cr_status (f r))"
      "public_graph_run_status (cr_status (f r)) \<noteq> public_graph_run_status (cr_status r)"
  shows "told s d d'"
proof -
  have ok: "runs_ok (cv_runs d)" using wf by (simp add: canvas_wf_def)
  have ch: "status_changes s (cv_runs d) (upd_where P f (cv_runs d)) = (if cr_session r = s then [run_mark (f r)] else [])"
    using changes_written(1) [OF ok r P, of f s] f fr(3) by (auto simp: keeps_key_def)
  show ?thesis
    using update_tells [OF wf env r P f co _ _ _ _ fr(1,2), of s] ch told_same [OF wf, of s] by (auto simp: told_def)
qed

lemma write_told:
  assumes wf: "canvas_wf d" and env: "fresh_ids ids d" "clock_moved now d" and tr: "wr_transition a = []"
  shows "told s d (snd (write_run_state_tx ids a now d))"
proof -
  let ?P = "\<lambda>x. cr_id x = wr_run a"
  let ?d1 = "d\<lparr>cv_runs := upd_where ?P (written_run a now) (cv_runs d)\<rparr>"
  have ok: "runs_ok (cv_runs d)" using wf by (simp add: canvas_wf_def)
  let ?res = "write_run_state_tx ids a now d"
  let ?skip = "\<lambda>r. (case wr_expected a of None \<Rightarrow> False | Some xs \<Rightarrow> cr_status r \<notin> set xs)"
  show ?thesis
  proof (cases "sel_by cr_id (wr_run a) (cv_runs d)")
    case None
    then have "snd ?res = d" by (simp add: write_run_state_tx_def)
    then show ?thesis using told_same [OF wf] by simp
  next
    case (Some r)
    have r: "r \<in> set (cv_runs d)" "cr_id r = wr_run a" using sel_by_SomeD [OF Some] by simp_all
    have P: "\<And>x. x \<in> set (cv_runs d) \<Longrightarrow> ?P x = (cr_id x = cr_id r)" using r(2) by simp
    have k: "cr_id (written_run a now x) = cr_id x \<and> cr_session (written_run a now x) = cr_session x" for x
      by (simp add: written_run_def)
    show ?thesis
    proof (cases "public_graph_run_status (wr_status a) = [] \<or> ?skip r")
      case True
      then have "snd ?res = d" using Some by (auto simp: write_run_state_tx_def)
      then show ?thesis using told_same [OF wf] by simp
    next
      case False
      show ?thesis
      proof (cases "public_graph_run_status (cr_status r) = public_graph_run_status (wr_status a)")
        case True
        then have "snd ?res = ?d1" using Some False tr by (simp add: write_run_state_tx_def Let_def)
        then show ?thesis using changes_written(1) [OF ok r(1) P k, of s] changes_written(2) [OF ok r(1) P k] True wf
          by (simp add: told_def tells_def canvas_wf_def)
      next
        case changed: False
        obtain err d' where co: "commit_announced ids (canvas_row.truncate (written_run a now r)) (wr_status a)
            (wr_transition a) (wr_retry a) now ?d1 d = (err, d')" by force
        then have "snd ?res = d'" using Some False changed
          by (cases err) (simp_all add: write_run_state_tx_def Let_def)
        then show ?thesis using update_told [OF wf env r(1) P _ co, of s] changed by simp
      qed
    qed
  qed
qed

lemma guarded_key:
  assumes "runs_ok t" and "r \<in> set t" and "cr_id r = g" and "G r" and "x \<in> set t"
  shows "(cr_id x = g \<and> G x) = (cr_id x = cr_id r)"
  using assms keyed_inj [of cr_id t x r] by (auto simp: runs_ok_def)

lemma find_run:
  "find (\<lambda>r. cr_id r = g \<and> cr_session r = s) t = Some r \<Longrightarrow> r \<in> set t \<and> cr_id r = g \<and> cr_session r = s"
  by (auto simp: find_Some_iff)

lemma public_literals [simp]:
  "public_graph_run_status ''queued'' = ''queued''" "public_graph_run_status ''running'' = ''running''"
  "public_graph_run_status ''cancelling'' = ''cancelling''" "public_graph_run_status ''cancelled'' = ''cancelled''"
  "public_graph_run_status ''failed'' = ''failed''" "public_graph_run_status ''interrupted'' = ''interrupted''"
  "public_graph_run_status ''succeeded'' = ''completed''"
  by code_simp+

lemma no_space_strip: "(\<And>c. c \<in> set i \<Longrightarrow> \<not> py_space c) \<Longrightarrow> py_strip i = i"
  by (metis dropWhile_eq_self_iff hd_in_set py_lstrip_def py_rstrip_def py_strip_def rev_rev_ident set_rev)

lemma hex_no_space: "hex_char c \<Longrightarrow> \<not> py_space c"
  by (auto simp: hex_char_def py_space_def Let_def)

lemma run_id_stripped:
  assumes "graph_run_id_ok i"
  shows "py_strip i = i \<and> i \<noteq> []"
proof
  have "starts_with ''canvas-run-'' i" and len: "length i = 43" and hex: "\<forall>c \<in> set (drop 11 i). hex_char c"
    using assms unfolding graph_run_id_ok_def list_all_iff by blast+
  then have "take 11 i = ''canvas-run-''" by (simp add: starts_with_def numeral_eq_Suc)
  moreover have "\<forall>c \<in> set ''canvas-run-''. \<not> py_space c" by code_simp
  moreover have "set i = set (take 11 i) \<union> set (drop 11 i)" by (metis append_take_drop_id set_append)
  ultimately show "py_strip i = i" using hex hex_no_space by (intro no_space_strip) (metis Un_iff)
  show "i \<noteq> []" using len by force
qed

lemma new_run_fields [simp]:
  "cr_id (new_canvas_run a g now) = g" "cr_session (new_canvas_run a g now) = st_session a"
  "cr_updated (new_canvas_run a g now) = now" "cr_status (new_canvas_run a g now) = ''queued''"
  by (simp_all add: new_canvas_run_def)

lemma start_cases:
  assumes "start_graph_run_tx ids drawn a retry now d = (res, d')"
  shows "d' = d \<or> (\<exists>err. sel_by cr_id (or_text (st_requested a) drawn) (cv_runs d) = None \<and>
    active_in (st_session a) d = [] \<and> retry = [] \<and>
    commit_announced ids (canvas_row.truncate (new_canvas_run a (or_text (st_requested a) drawn) now)) ''queued'' [] [] now
      (d\<lparr>cv_runs := cv_runs d @ [new_canvas_run a (or_text (st_requested a) drawn) now]\<rparr>) d = (err, d'))"
  using assms
  by (auto simp: start_graph_run_tx_def Let_def retry_claim_error_def split: option.splits if_splits prod.splits)

lemma start_told:
  assumes wf: "canvas_wf d" and env: "fresh_ids ids d" "clock_moved now d" "graph_run_id_ok drawn" and a: "read_start a = Inr b"
  shows "told s d (snd (start_graph_run_tx ids drawn b retry now d))"
proof -
  let ?i = "or_text (st_requested b) drawn"
  let ?r = "new_canvas_run b ?i now"
  have ok: "runs_ok (cv_runs d)" using wf by (simp add: canvas_wf_def)
  have b: "py_strip (st_session b) = st_session b" "py_strip ?i = ?i"
    using a run_id_stripped [OF env(3)] run_id_stripped [of "py_strip (st_requested a)"]
    by (auto simp: read_start_def Let_def or_text_def split: if_splits)
  obtain res d' where st: "start_graph_run_tx ids drawn b retry now d = (res, d')" by force
  from start_cases [OF st] show ?thesis
  proof (elim disjE exE conjE)
    assume "d' = d" then show ?thesis using st told_same [OF wf] by simp
  next
    fix err
    assume new: "sel_by cr_id ?i (cv_runs d) = None" and "active_in (st_session b) d = []"
      and co: "commit_announced ids (canvas_row.truncate ?r) ''queued'' [] [] now (d\<lparr>cv_runs := cv_runs d @ [?r]\<rparr>) d = (err, d')"
    have ch: "status_changes s (cv_runs d) (cv_runs d @ [?r]) = (if cr_session ?r = s then [run_mark ?r] else [])"
      and ok': "runs_ok (cv_runs d @ [?r])"
      using changes_added(1) [OF ok, of ?r s] changes_added(2) [OF ok, of ?r] new b by simp_all
    show ?thesis
      using commit_tells [OF wf env(1,2) co, of s] ch ok' told_same [OF wf, of s] st by (auto simp: told_def)
  qed
qed

lemma guarded_told:
  assumes wf: "canvas_wf d" and env: "fresh_ids ids d" "clock_moved now d"
    and r: "find (\<lambda>r. cr_id r = g \<and> cr_session r = g0) (cv_runs d) = Some r" "G r" and f: "keeps_key f"
    and co: "commit_announced ids (canvas_row.truncate (f r)) status tr rt now
      (d\<lparr>cv_runs := upd_where (\<lambda>x. cr_id x = g \<and> cr_session x = g0 \<and> G x) f (cv_runs d)\<rparr>) d = (err, d')"
    and fr: "cr_updated (f r) = now" "public_graph_run_status status = public_graph_run_status (cr_status (f r))"
      "public_graph_run_status (cr_status (f r)) \<noteq> public_graph_run_status (cr_status r)"
  shows "told s d d'"
proof (rule update_told [OF wf env _ _ f co fr])
  show "r \<in> set (cv_runs d)" using find_run [OF r(1)] by simp
  fix x assume "x \<in> set (cv_runs d)"
  then show "(cr_id x = g \<and> cr_session x = g0 \<and> G x) = (cr_id x = cr_id r)"
    using guarded_key [of "cv_runs d" r g "\<lambda>x. cr_session x = g0 \<and> G x" x] wf find_run [OF r(1)] r(2)
    by (simp add: canvas_wf_def)
qed

lemma claim_cancel_told:
  assumes wf: "canvas_wf d" and env: "fresh_ids ids d" "clock_moved now d"
  shows "told s d (snd (claim_run_cancellation_tx ids g0 g reason now d))"
proof -
  obtain res d' where res: "claim_run_cancellation_tx ids g0 g reason now d = (res, d')" by force
  then consider "d' = d"
    | r err where "find (\<lambda>r. cr_id r = g \<and> cr_session r = g0) (cv_runs d) = Some r" "cr_status r \<in> {''queued'', ''running''}"
      "commit_announced ids (canvas_row.truncate (cancelling_run reason now r)) ''cancelling'' [] [] now
         (d\<lparr>cv_runs := upd_where (\<lambda>x. cr_id x = g \<and> cr_session x = g0 \<and> cr_status x \<in> {''queued'', ''running''})
            (cancelling_run reason now) (cv_runs d)\<rparr>) d = (err, d')"
    by (auto simp: claim_run_cancellation_tx_def Let_def split: option.splits if_splits prod.splits)
  then show ?thesis
  proof cases
    case 1 then show ?thesis using res told_same [OF wf] by simp
  next
    case 2
    have "told s d d'" by (rule guarded_told [OF wf env 2(1) _ _ 2(3)]) (use 2(2) in auto)
    then show ?thesis by (simp add: res)
  qed
qed

lemma finish_cancel_told:
  assumes wf: "canvas_wf d" and env: "fresh_ids ids d" "clock_moved now d"
  shows "told s d (snd (finish_run_cancellation_tx ids g0 g reason lifecycle now d))"
proof -
  let ?f = "cancelled_canvas_run reason lifecycle now"
  let ?d1 = "d\<lparr>cv_runs := upd_where (\<lambda>x. cr_id x = g \<and> cr_session x = g0 \<and> cr_status x \<in> {''cancelling'', ''cancelled''})
      ?f (cv_runs d)\<rparr>"
  have ok: "runs_ok (cv_runs d)" using wf by (simp add: canvas_wf_def)
  obtain res d' where res: "finish_run_cancellation_tx ids g0 g reason lifecycle now d = (res, d')" by force
  then consider "d' = d"
    | (quiet) r where "find (\<lambda>r. cr_id r = g \<and> cr_session r = g0) (cv_runs d) = Some r" "cr_status r \<in> {''cancelling'', ''cancelled''}"
      "public_graph_run_status (cr_status r) = ''cancelled''" "d' = ?d1"
    | (announced) r err where "find (\<lambda>r. cr_id r = g \<and> cr_session r = g0) (cv_runs d) = Some r" "cr_status r \<in> {''cancelling'', ''cancelled''}"
      "public_graph_run_status (cr_status r) \<noteq> ''cancelled''"
      "commit_announced ids (canvas_row.truncate (?f r)) ''cancelled'' [] [] now ?d1 d = (err, d')"
    by (auto simp: finish_run_cancellation_tx_def Let_def split: option.splits if_splits prod.splits)
  then have "told s d d'"
  proof cases
    case 1 then show ?thesis using told_same [OF wf] by simp
  next
    case quiet
    note r = find_run [OF quiet(1)]
    have P: "(cr_id x = g \<and> cr_session x = g0 \<and> cr_status x \<in> {''cancelling'', ''cancelled''}) = (cr_id x = cr_id r)"
      if "x \<in> set (cv_runs d)" for x
      using guarded_key [of "cv_runs d" r g "\<lambda>x. cr_session x = g0 \<and> cr_status x \<in> {''cancelling'', ''cancelled''}" x] ok r quiet(2) that
      by simp
    have k: "cr_id (?f x) = cr_id x \<and> cr_session (?f x) = cr_session x" for x
      using keeps_key_writes(3) [of reason lifecycle now] unfolding keeps_key_def by blast
    show ?thesis
      using changes_written(1) [OF ok _ P k, of s] changes_written(2) [OF ok _ P k] r quiet(3,4) wf
      by (simp add: told_def tells_def canvas_wf_def)
  next
    case announced
    show ?thesis by (rule guarded_told [OF wf env announced(1) _ _ announced(4)]) (use announced(2,3) in auto)
  qed
  then show ?thesis by (simp add: res)
qed

lemma retry_told:
  assumes wf: "canvas_wf d" and env: "fresh_ids ids d" "clock_moved now d"
  shows "told s d (snd (claim_failed_retry_tx ids auth g0 g now d))"
proof -
  obtain res d' where res: "claim_failed_retry_tx ids auth g0 g now d = (res, d')" by force
  then consider "d' = d"
    | r err where "find (\<lambda>r. cr_id r = g \<and> cr_session r = g0) (cv_runs d) = Some r" "cr_status r \<in> set retryable_graph_states"
      "commit_announced ids (canvas_row.truncate (retried_run now r)) ''running'' ''retry_failed_branch'' g now
         (d\<lparr>cv_runs := upd_where (\<lambda>x. cr_id x = g \<and> cr_session x = g0 \<and> cr_status x \<in> {''failed'', ''interrupted''})
            (retried_run now) (cv_runs d)\<rparr>) d = (err, d')"
    by (auto simp: claim_failed_retry_tx_def Let_def split: option.splits if_splits prod.splits sum.splits)
  then have "told s d d'"
  proof cases
    case 1 then show ?thesis using told_same [OF wf] by simp
  next
    case 2
    show ?thesis by (rule guarded_told [OF wf env 2(1) _ _ 2(3)]) (use 2(2) in \<open>auto simp: retryable_graph_states_def\<close>)
  qed
  then show ?thesis by (simp add: res)
qed

lemma interrupt_runs_refused: "interrupt_runs ids now rs p d0 d = (Inl err, d') \<Longrightarrow> d' = d0"
  by (induction rs arbitrary: p d) (auto simp: Let_def split: if_splits prod.splits option.splits)

lemma changes_by_id:
  assumes "\<forall>x \<in> set t. cr_id (f x) = cr_id x" and "cr_id r \<notin> G"
  shows "map (\<lambda>x. if cr_id x \<in> G then f x else x) (upd_where (\<lambda>x. cr_id x = cr_id r) f t) =
    map (\<lambda>x. if cr_id x \<in> insert (cr_id r) G then f x else x) t"
  using assms by (simp add: upd_where_def)

lemma tells_trans: "tells s d d1 ms \<Longrightarrow> tells s d1 d2 ns \<Longrightarrow> tells s d d2 (ms @ ns)"
  by (simp add: tells_def)

lemma interrupt_runs_tells:
  assumes "canvas_wf d" and "set rs \<subseteq> set (cv_runs d)" and "keyed cr_id rs"
    and "\<forall>r \<in> set rs. cr_status r \<in> set active_graph_states"
    and "\<forall>r \<in> set rs. fresh_ids (ids (cr_id r)) d" and "\<forall>r \<in> set rs. run_clock (cr_id r) now d"
    and "distinct (map (fst \<circ> ids \<circ> cr_id) rs)" and "distinct (map (snd \<circ> ids \<circ> cr_id) rs)"
    and "interrupt_runs ids now rs p d0 d = (Inr p', d')"
  shows "tells s d d' (map run_mark (filter (\<lambda>r. cr_session r = s) (map (interrupted_run now) rs))) \<and>
    cv_runs d' = map (\<lambda>x. if cr_id x \<in> cr_id ` set rs then interrupted_run now x else x) (cv_runs d)"
  using assms
proof (induction rs arbitrary: p d)
  case Nil
  then show ?case by (simp add: tells_same)
next
  case (Cons r rs)
  let ?P = "\<lambda>x. cr_id x = cr_id r \<and> cr_status x \<in> set active_graph_states"
  let ?f = "interrupted_run now"
  let ?d1 = "d\<lparr>cv_runs := upd_where ?P ?f (cv_runs d)\<rparr>"
  have ok: "runs_ok (cv_runs d)" and k: "keyed cr_id (cv_runs d)" using Cons.prems(1) by (simp_all add: canvas_wf_def runs_ok_def)
  have r: "r \<in> set (cv_runs d)" "cr_status r \<in> set active_graph_states" using Cons.prems(2,4) by simp_all
  have P: "?P x = (cr_id x = cr_id r)" if "x \<in> set (cv_runs d)" for x
    using keyed_inj [OF k that r(1)] r(2) by auto
  have f: "cr_id (?f x) = cr_id x \<and> cr_session (?f x) = cr_session x" for x
    using keeps_key_writes(5) [of now] unfolding keeps_key_def by blast
  have one: "count_where ?P (cv_runs d) = 1"
    using count_where_key_1 [OF k, of "cr_id r" "\<lambda>x. cr_status x \<in> set active_graph_states"] r k by (auto simp: keyed_sel_iff)
  have okf: "runs_ok (upd_where ?P ?f (cv_runs d))" by (rule changes_written(2) [OF ok r(1) P f])
  have strip: "py_strip (cr_id r) = cr_id r" "py_strip (cr_session r) = cr_session r" using ok r(1) by (simp_all add: runs_ok_def)
  obtain d2 where en: "enqueue_graph_run_state_event (ids (cr_id r)) (canvas_row.truncate (?f r)) ''interrupted'' [] [] now ?d1 = (None, d2)"
    and rest: "interrupt_runs ids now rs (reported_run True r p) d0 d2 = (Inr p', d')"
    using Cons.prems(9) one by (auto simp: Let_def split: prod.splits option.splits)
  have t2: "tells s d d2 (if cr_session r = s then [run_mark (?f r)] else [])" and runs2: "cv_runs d2 = upd_where ?P ?f (cv_runs d)"
    using enqueue_tells [OF Cons.prems(1) en, of s] okf Cons.prems(5,6) f strip
    by (cases "cr_session r = s", simp_all add: run_mark_def)
  let ?i = "new_intent (ids (cr_id r)) (canvas_row.truncate (?f r)) ''interrupted'' [] [] now (cv_last_intent d + 1)"
  have "run_clock (py_strip (cr_id (canvas_row.truncate (?f r)))) now ?d1"
    using Cons.prems(6) f strip by (simp add: run_clock_def)
  moreover have "py_lower (py_strip ''interrupted'') = ''interrupted''" by code_simp
  ultimately have d2: "cv_outbox d2 = cv_outbox d @ [?i]"
    using enqueue_fresh [OF en] Cons.prems(5) by simp
  have runs2': "cv_runs d2 = upd_where (\<lambda>x. cr_id x = cr_id r) ?f (cv_runs d)"
    unfolding runs2 by (rule upd_where_cong) (rule P)
  have ne: "cr_id x \<noteq> cr_id r" if "x \<in> set rs" for x using Cons.prems(3) that by (force simp: keyed_def image_iff)
  have "tells s d2 d' (map run_mark (filter (\<lambda>r. cr_session r = s) (map ?f rs))) \<and>
      cv_runs d' = map (\<lambda>x. if cr_id x \<in> cr_id ` set rs then ?f x else x) (cv_runs d2)"
  proof (rule Cons.IH [OF _ _ _ _ _ _ _ _ rest])
    show "canvas_wf d2" using t2 by (simp add: tells_def)
    show "set rs \<subseteq> set (cv_runs d2)"
    proof
      fix x assume x: "x \<in> set rs"
      then have "x \<in> set (cv_runs d)" using Cons.prems(2) by auto
      then show "x \<in> set (cv_runs d2)" using ne [OF x] by (force simp: runs2' set_upd_where)
    qed
    show "keyed cr_id rs" using Cons.prems(3) by (simp add: keyed_def)
    show "\<forall>r \<in> set rs. cr_status r \<in> set active_graph_states" using Cons.prems(4) by simp
    show "\<forall>x \<in> set rs. fresh_ids (ids (cr_id x)) d2"
    proof
      fix x assume x: "x \<in> set rs"
      then have "fst (ids (cr_id r)) \<noteq> fst (ids (cr_id x))" "snd (ids (cr_id r)) \<noteq> snd (ids (cr_id x))"
        using Cons.prems(7,8) by (auto simp: image_iff)
      moreover have "fresh_ids (ids (cr_id x)) d" "cv_core d2 = cv_core d" using Cons.prems(5) x t2 by (simp_all add: tells_def)
      ultimately show "fresh_ids (ids (cr_id x)) d2" by (auto simp: fresh_ids_def d2)
    qed
    show "\<forall>x \<in> set rs. run_clock (cr_id x) now d2"
    proof
      fix x assume x: "x \<in> set rs"
      then have "co_run ?i \<noteq> cr_id x" "run_clock (cr_id x) now d"
        using ne [OF x] f strip Cons.prems(6) by simp_all
      then show "run_clock (cr_id x) now d2" by (auto simp: run_clock_def d2)
    qed
    show "distinct (map (fst \<circ> ids \<circ> cr_id) rs)" "distinct (map (snd \<circ> ids \<circ> cr_id) rs)" using Cons.prems(7,8) by (simp_all add: o_def)
  qed
  moreover have "cr_id r \<notin> cr_id ` set rs" using ne by force
  ultimately have runs': "cv_runs d' = map (\<lambda>x. if cr_id x \<in> cr_id ` set (r # rs) then ?f x else x) (cv_runs d)"
    and "tells s d2 d' (map run_mark (filter (\<lambda>r. cr_session r = s) (map ?f rs)))"
    using changes_by_id [of "cv_runs d" ?f r "cr_id ` set rs"] f by (simp_all add: runs2')
  then have "tells s d d' ((if cr_session r = s then [run_mark (?f r)] else []) @
      map run_mark (filter (\<lambda>r. cr_session r = s) (map ?f rs)))"
    using tells_trans [OF t2] by blast
  moreover have "(if cr_session r = s then [run_mark (?f r)] else []) @ map run_mark (filter (\<lambda>r. cr_session r = s) (map ?f rs)) =
      map run_mark (filter (\<lambda>r. cr_session r = s) (map ?f (r # rs)))"
    using f by simp
  ultimately show ?case using runs' by simp
qed

lemma public_active: "cr_status r \<in> set active_graph_states \<Longrightarrow> public_graph_run_status (cr_status r) \<noteq> ''interrupted''"
  by (auto simp: active_graph_states_def)

lemma restart_told:
  assumes wf: "canvas_wf d" and env: "restart_ids_ok ids d" "clock_moved now d"
  shows "told s d (snd (reconcile_startup_tx ids now d))"
proof -
  let ?A = "\<lambda>r. cr_status r \<in> set active_graph_states"
  let ?rs = "filter ?A (cv_runs d)"
  let ?f = "interrupted_run now"
  have ok: "runs_ok (cv_runs d)" and k: "keyed cr_id (cv_runs d)" using wf by (simp_all add: canvas_wf_def runs_ok_def)
  obtain res d' where res: "reconcile_startup_tx ids now d = (res, d')" by force
  show ?thesis
  proof (cases res)
    case (Inl err)
    then have "d' = d" using res interrupt_runs_refused by (auto simp: reconcile_startup_tx_def)
    then show ?thesis using res told_same [OF wf] by simp
  next
    case (Inr p)
    have krs: "keyed cr_id ?rs" using k by (simp add: keyed_def distinct_map_filter)
    have dist: "distinct (map (fst \<circ> ids \<circ> cr_id) ?rs)" "distinct (map (snd \<circ> ids \<circ> cr_id) ?rs)"
      using env(1) by (simp_all add: restart_ids_ok_def distinct_map_filter)
    have run: "interrupt_runs ids now ?rs \<lparr>rs_runs = 0, rs_nodes = 0, rs_candidates = []\<rparr> d d = (Inr p, d')"
      using res Inr by (simp add: reconcile_startup_tx_def)
    have act: "\<forall>r \<in> set ?rs. ?A r" "set ?rs \<subseteq> set (cv_runs d)" by auto
    have env': "\<forall>r \<in> set ?rs. fresh_ids (ids (cr_id r)) d" "\<forall>r \<in> set ?rs. run_clock (cr_id r) now d"
      using env(1) run_clock_moved [OF env(2)] unfolding restart_ids_ok_def by auto
    note tr = interrupt_runs_tells [OF wf act(2) krs act(1) env' dist run, of s]
    have told: "tells s d d' (map run_mark (filter (\<lambda>r. cr_session r = s) (map ?f ?rs)))"
      and runs: "cv_runs d' = map (\<lambda>x. if cr_id x \<in> cr_id ` set ?rs then ?f x else x) (cv_runs d)"
      using tr by blast+
    have in_rs: "cr_id x \<in> cr_id ` set ?rs \<longleftrightarrow> ?A x" if "x \<in> set (cv_runs d)" for x
      using keyed_inj [OF k that] that by force
    have f: "cr_id (?f x) = cr_id x \<and> cr_session (?f x) = cr_session x" for x
      using keeps_key_writes(5) [of now] unfolding keeps_key_def by blast
    have runs': "cv_runs d' = map (\<lambda>x. if ?A x then ?f x else x) (cv_runs d)"
      unfolding runs using in_rs by (intro map_cong) auto
    let ?Q = "\<lambda>r. cr_session r = s \<and> public_graph_run_status (cr_status r) \<noteq> public_before (cr_id r) (cv_runs d)"
    have Q: "?Q (if ?A x then ?f x else x) = (cr_session x = s \<and> ?A x)" if "x \<in> set (cv_runs d)" for x
    proof (cases "?A x")
      case True
      then have "public_graph_run_status (cr_status (?f x)) \<noteq> public_before (cr_id x) (cv_runs d)"
        using public_before_at [OF k that] public_active [OF True] by simp
      then show ?thesis using True f [of x] by auto
    qed (simp add: public_before_at [OF k that])
    have "filter (?Q \<circ> (\<lambda>x. if ?A x then ?f x else x)) (cv_runs d) = filter (\<lambda>x. cr_session x = s \<and> ?A x) (cv_runs d)"
      by (intro filter_cong refl) (use Q in \<open>simp add: o_def\<close>)
    then have "status_changes s (cv_runs d) (cv_runs d') =
        map run_mark (map (\<lambda>x. if ?A x then ?f x else x) (filter (\<lambda>x. cr_session x = s \<and> ?A x) (cv_runs d)))"
      by (simp only: status_changes_def runs' filter_map)
    also have "map (\<lambda>x. if ?A x then ?f x else x) (filter (\<lambda>x. cr_session x = s \<and> ?A x) (cv_runs d)) =
        map ?f (filter (\<lambda>x. cr_session x = s \<and> ?A x) (cv_runs d))"
      by (rule map_cong) auto
    also have "\<dots> = filter (\<lambda>r. cr_session r = s) (map ?f ?rs)"
      using f by (simp add: filter_map o_def conj_commute)
    finally show ?thesis using told by (simp add: told_def res)
  qed
qed

section \<open>Reconciliation\<close>

lemma reconcile_cases:
  assumes wf: "canvas_wf d" and app: "apply_remote_terminal_reconciliation_tx ids auth digest report now d = (res, d')"
  obtains (same) "d' = d" "res \<noteq> Inr ProofApplied"
  | (written) p a r err where "read_remote_report auth report d = Inr (p, a)"
      "find (\<lambda>r. cr_id r = rp_run p \<and> cr_session r = rp_session p) (cv_runs d) = Some r"
      "cr_status r = py_lower (py_strip (cr_status r))" "cr_status r \<in> {''failed'', ''interrupted'', ''cancelled''}"
      "commit_announced ids (canvas_row.truncate (reconciled_run p (digest (JObj (rp_canonical p))) (cr_status r) now r))
         (cr_status r) ''remote_terminal_reconciled'' [] now
         (d\<lparr>cv_runs := upd_where (\<lambda>x. cr_id x = rp_run p \<and> cr_session x = rp_session p \<and> cr_status x = cr_status r \<and>
                cr_updated x = cr_updated r) (reconciled_run p (digest (JObj (rp_canonical p))) (cr_status r) now) (cv_runs d),
            cv_receipts := cv_receipts d @ [new_terminal_receipt p (digest (JObj (rp_canonical p))) now]\<rparr>) d = (err, d')"
      "err = None \<longleftrightarrow> res = Inr ProofApplied"
proof -
  let ?out = "apply_remote_terminal_reconciliation_tx ids auth digest report now d"
  show ?thesis
  proof (cases "read_remote_report auth report d")
    case (Inl err)
    then show ?thesis using app same by (auto simp: apply_remote_terminal_reconciliation_tx_def)
  next
    case rd: (Inr pa)
    obtain p a where pa: "pa = (p, a)" by force
    let ?dig = "digest (JObj (rp_canonical p))"
    show ?thesis
    proof (cases "find (\<lambda>r. cr_id r = rp_run p \<and> cr_session r = rp_session p) (cv_runs d)")
      case None
      then show ?thesis using app same rd pa by (auto simp: apply_remote_terminal_reconciliation_tx_def Let_def)
    next
      case (Some r)
      let ?st = "py_lower (py_strip (cr_status r))"
      let ?P = "\<lambda>x. cr_id x = rp_run p \<and> cr_session x = rp_session p \<and> cr_status x = ?st \<and> cr_updated x = cr_updated r"
      let ?d1 = "d\<lparr>cv_runs := upd_where ?P (reconciled_run p ?dig ?st now) (cv_runs d),
          cv_receipts := cv_receipts d @ [new_terminal_receipt p ?dig now]\<rparr>"
      obtain err e where co: "commit_announced ids (canvas_row.truncate (reconciled_run p ?dig ?st now r)) ?st
          ''remote_terminal_reconciled'' [] now ?d1 d = (err, e)" by force
      have "(d' = d \<and> res \<noteq> Inr ProofApplied) \<or> (count_where ?P (cv_runs d) = 1 \<and>
          ?st \<in> {''failed'', ''interrupted'', ''cancelled''} \<and> d' = e \<and> (err = None \<longleftrightarrow> res = Inr ProofApplied))"
        using app rd pa Some co
        by (cases err) (auto simp: apply_remote_terminal_reconciliation_tx_def Let_def split: option.splits sum.splits if_splits)
      then show ?thesis
      proof
        assume "d' = d \<and> res \<noteq> Inr ProofApplied" then show ?thesis using same by blast
      next
        assume w: "count_where ?P (cv_runs d) = 1 \<and> ?st \<in> {''failed'', ''interrupted'', ''cancelled''} \<and>
            d' = e \<and> (err = None \<longleftrightarrow> res = Inr ProofApplied)"
        have k: "keyed cr_id (cv_runs d)" using wf by (simp add: canvas_wf_def runs_ok_def)
        obtain x where x: "x \<in> set (cv_runs d)" "?P x"
          using w count_where_eq_0 [of ?P "cv_runs d"] by force
        then have "x = r" using keyed_inj [OF k x(1), of r] find_run [OF Some] by simp
        then have st: "?st = cr_status r" using x(2) by simp
        show ?thesis by (rule written [of p a r err]) (use rd pa Some co w st in simp_all)
      qed
    qed
  qed
qed

lemma reconcile_tells:
  assumes wf: "canvas_wf d" and env: "fresh_ids ids d" "clock_moved now d"
  shows "tells s d (snd (apply_remote_terminal_reconciliation_tx ids auth digest report now d))
    (status_changes s (cv_runs d) (cv_runs (snd (apply_remote_terminal_reconciliation_tx ids auth digest report now d))) @
     reconciled_marks s (Reconcile ids auth digest report now) d)"
proof -
  have ok: "runs_ok (cv_runs d)" and k: "keyed cr_id (cv_runs d)" using wf by (simp_all add: canvas_wf_def runs_ok_def)
  have adm: "admissible (Reconcile ids auth digest report now) d" using env by (simp add: admissible_def)
  obtain res d' where res: "apply_remote_terminal_reconciliation_tx ids auth digest report now d = (res, d')" by force
  from wf res show ?thesis
  proof (cases rule: reconcile_cases)
    case same
    have "reconciled_marks s (Reconcile ids auth digest report now) d = []"
      using same(2) by (auto simp: reconciled_marks_def res split: sum.splits reconciliation.splits)
    then show ?thesis using told_same [OF wf, of s] by (simp add: told_def res same)
  next
    case (written p a r err)
    let ?f = "reconciled_run p (digest (JObj (rp_canonical p))) (cr_status r) now"
    let ?P = "\<lambda>x. cr_id x = rp_run p \<and> cr_session x = rp_session p \<and> cr_status x = cr_status r \<and> cr_updated x = cr_updated r"
    note r = find_run [OF written(2)]
    have P: "?P x = (cr_id x = cr_id r)" if "x \<in> set (cv_runs d)" for x
      using guarded_key [of "cv_runs d" r "rp_run p" "\<lambda>x. cr_session x = rp_session p \<and> cr_status x = cr_status r \<and> cr_updated x = cr_updated r" x]
        ok r that by simp
    have f: "cr_id (?f x) = cr_id x \<and> cr_session (?f x) = cr_session x" for x
      using keeps_key_writes(6) [of p _ "cr_status r" now] unfolding keeps_key_def by blast
    have ch: "status_changes s (cv_runs d) (upd_where ?P ?f (cv_runs d)) = []"
      using changes_written(1) [OF ok _ P f, of s] r by simp
    have only: "filter (\<lambda>x. cr_id x = rp_run p) (cv_runs d) = [r]"
    proof -
      have "sel_by cr_id (rp_run p) (cv_runs d) = Some r" using k r by (simp add: keyed_sel_iff)
      then show ?thesis using map_filter_one [OF k, of r "\<lambda>x. cr_id x = cr_id r" "\<lambda>x. x" "\<lambda>x. x"] r by (simp add: upd_where_def)
    qed
    have "(err \<noteq> None \<and> d' = d) \<or> (err = None \<and> tells s d d' (if cr_session r = s then [run_mark (?f r)] else []) \<and>
        cv_runs d' = upd_where ?P ?f (cv_runs d))"
      by (rule update_tells [where P = ?P and f = ?f and r = r, OF wf env _ P _ written(5)]) (use r in simp_all)
    then show ?thesis
    proof (elim disjE conjE)
      assume e: "err \<noteq> None" "d' = d"
      then have "reconciled_marks s (Reconcile ids auth digest report now) d = []"
        using written(6) by (auto simp: reconciled_marks_def res split: sum.splits reconciliation.splits)
      then show ?thesis using told_same [OF wf, of s] e by (simp add: told_def res)
    next
      assume e: "err = None" "tells s d d' (if cr_session r = s then [run_mark (?f r)] else [])"
        "cv_runs d' = upd_where ?P ?f (cv_runs d)"
      have "reconciled_marks s (Reconcile ids auth digest report now) d = (if cr_session r = s then [run_mark r] else [])"
        using written(1,6) e(1) r only adm by (simp add: reconciled_marks_def res)
      moreover have "run_mark (?f r) = run_mark r" using f [of r] by (simp add: run_mark_def)
      ultimately show ?thesis using e ch by (simp add: res split: if_splits)
    qed
  qed
qed

section \<open>Projection\<close>

lemma project_cases:
  assumes "project_canvas_graph_run_event_outbox ev oid now d = (res, d')"
  obtains (same) "d' = d"
  | (again) i e where "i \<in> set (cv_outbox d)" "sel_by ev_id (co_event i) (db_events (cv_core d)) = Some e"
      "d' = d\<lparr>cv_outbox := upd_where (\<lambda>j. co_id j = co_id i) (projected_intent now) (cv_outbox d)\<rparr>"
      "co_projected i \<noteq> None \<or> \<not> earlier_pending i d"
  | (fresh) i where "i \<in> set (cv_outbox d)" "intent_matches ev i" "co_event i \<notin> ev_id ` set (db_events (cv_core d))"
      "co_projected i \<noteq> None \<or> \<not> earlier_pending i d"
      "db_events (cv_core d') = db_events (cv_core d) @
         [new_event_row ev (runtime_event_sequence_floor (cv_core d) (co_session i) + 1) (ea_payload ev)]"
      "cv_outbox d' = upd_where (\<lambda>j. co_id j = co_id i \<and> co_projected j = None) (projected_intent now) (cv_outbox d)"
      "cv_runs d' = cv_runs d" "cv_last_intent d' = cv_last_intent d"
      "res = Inr (Some (runtime_event_sequence_floor (cv_core d) (co_session i) + 1))"
proof (cases "sel_by co_id (py_strip oid) (cv_outbox d)")
  case None
  then have "d' = d" using assms by (simp add: project_canvas_graph_run_event_outbox_def)
  then show ?thesis by (rule same)
next
  case sel: (Some i)
  have i: "i \<in> set (cv_outbox d)" using sel_by_SomeD [OF sel] by simp
  show ?thesis
  proof (cases "\<not> intent_matches ev i \<or> co_projected i = None \<and> earlier_pending i d")
    case True
    then have "d' = d" using assms sel by (auto simp: project_canvas_graph_run_event_outbox_def split: if_splits)
    then show ?thesis by (rule same)
  next
    case ok: False
    have m1: "intent_matches ev i" and m2: "(co_projected i = None \<and> earlier_pending i d) = False"
      and m: "co_projected i \<noteq> None \<or> \<not> earlier_pending i d" using ok by simp_all
    note go = project_canvas_graph_run_event_outbox_def m1 m2 sel
    show ?thesis
    proof (cases "sel_by ev_id (co_event i) (db_events (cv_core d))")
      case (Some e)
      note e = Some
      let ?u = "d\<lparr>cv_outbox := upd_where (\<lambda>j. co_id j = co_id i) (projected_intent now) (cv_outbox d)\<rparr>"
      have "project_canvas_graph_run_event_outbox ev oid now d =
          (if \<not> same_event ev e then (Inl EventIdTaken, d) else (Inr (Some (ev_seq e)), ?u))"
        using e by (simp add: go)
      then have two: "d' = d \<or> d' = ?u" using assms by (auto split: if_splits)
      show ?thesis using two by (rule disjE) (rule same, assumption, rule again [OF i e _ m], assumption)
    next
      case None
      then have new: "co_event i \<notin> ev_id ` set (db_events (cv_core d))" by (simp add: sel_by_None_iff)
      show ?thesis
      proof (cases "case ea_run ev of None \<Rightarrow> False | Some r \<Rightarrow> run_of r (cv_core d) = None")
        case True
        then have "d' = d" using assms None by (simp add: go)
        then show ?thesis by (rule same)
      next
        case False
        obtain n c where al: "allocate_runtime_event_seq (co_session i) now (cv_core d) = (n, c)" by force
        have n: "n = runtime_event_sequence_floor (cv_core d) (co_session i) + 1" "db_events c = db_events (cv_core d)"
          using arg_cong [OF al, of fst] arg_cong [OF al, of "\<lambda>x. db_events (snd x)"]
          by (simp_all add: allocate_runtime_event_seq_def Let_def)
        have eq: "project_canvas_graph_run_event_outbox ev oid now d = (Inr (Some n),
            d\<lparr>cv_core := c\<lparr>db_events := db_events c @ [new_event_row ev n (ea_payload ev)]\<rparr>,
              cv_outbox := upd_where (\<lambda>j. co_id j = co_id i \<and> co_projected j = None) (projected_intent now) (cv_outbox d)\<rparr>)"
          using None False al by (simp add: go)
        show ?thesis by (rule fresh [OF i m1 new m]) (use eq assms in \<open>simp_all add: n\<close>)
      qed
    qed
  qed
qed

text \<open>A step that moves intents into the log.\<close>

definition moves :: "string \<Rightarrow> canvas_db \<Rightarrow> canvas_db \<Rightarrow> bool" where
  "moves s d d' \<longleftrightarrow> (\<exists>ms. canvas_log s d' = canvas_log s d @ ms \<and> pending_marks s d = ms @ pending_marks s d') \<and>
     canvas_wf d' \<and> cv_runs d' = cv_runs d"

lemma moves_same: "canvas_wf d \<Longrightarrow> moves s d d"
  by (simp add: moves_def)

lemma projected_simps [simp]:
  "co_id (projected_intent now i) = co_id i" "co_event (projected_intent now i) = co_event i"
  "co_seq (projected_intent now i) = co_seq i" "co_session (projected_intent now i) = co_session i"
  "co_run (projected_intent now i) = co_run i" "co_status (projected_intent now i) = co_status i"
  "co_projected (projected_intent now i) \<noteq> None"
  "co_id (failed_intent err now i) = co_id i" "co_event (failed_intent err now i) = co_event i"
  "co_seq (failed_intent err now i) = co_seq i" "co_session (failed_intent err now i) = co_session i"
  "co_run (failed_intent err now i) = co_run i" "co_status (failed_intent err now i) = co_status i"
  "co_projected (failed_intent err now i) = co_projected i"
  "intent_mark (projected_intent now i) = intent_mark i" "intent_mark (failed_intent err now i) = intent_mark i"
  by (simp_all add: projected_intent_def failed_intent_def intent_mark_def coalesce_def split: option.split)

lemma pending_first:
  assumes "sorted_wrt (<) (map co_seq t)" and "i \<in> set t" and "Q i"
    and "\<And>j. j \<in> set t \<Longrightarrow> Q j \<Longrightarrow> \<not> co_seq j < co_seq (i :: canvas_intent)"
  shows "\<exists>rest. filter Q t = i # rest"
  using assms
proof (induction t)
  case (Cons y t)
  show ?case
  proof (cases "Q y")
    case True
    have "y = i" using Cons.prems True by (cases "y = i") force+
    then show ?thesis using True by simp
  next
    case False
    then show ?thesis using Cons by auto
  qed
qed simp

lemma outbox_ok_updated:
  assumes "outbox_ok d" and "\<And>i. co_id (f i) = co_id i \<and> co_event (f i) = co_event i \<and> co_seq (f i) = co_seq i"
    and "cv_outbox d' = upd_where P f (cv_outbox d)" and "cv_last_intent d' = cv_last_intent d"
    and "\<forall>i \<in> set (cv_outbox d'). co_projected i = None \<longleftrightarrow> co_event i \<notin> ev_id ` set (db_events (cv_core d'))"
  shows "outbox_ok d'"
proof -
  have "map co_id (upd_where P f t) = map co_id t" "map co_event (upd_where P f t) = map co_event t"
    "map co_seq (upd_where P f t) = map co_seq t" for t
    using assms(2) by (simp_all add: map_key_upd_where)
  moreover have "\<forall>i \<in> set (cv_outbox d'). co_seq i \<le> cv_last_intent d'"
    using assms(1-4) by (auto simp: outbox_ok_def set_upd_where)
  ultimately show ?thesis using assms(1,3,5) by (simp add: outbox_ok_def keyed_def)
qed

lemma canvas_log_events: "db_events (cv_core d') = db_events (cv_core d) \<Longrightarrow> canvas_log s d' = canvas_log s d"
  by (simp add: canvas_log_def)

lemma new_row_topic: "ev_topic (new_event_row a n p) = ea_topic a"
  by (simp add: new_event_row_def)

lemma project_moves:
  assumes wf: "canvas_wf d" and pr: "project_canvas_graph_run_event_outbox ev oid now d = (res, d')"
  shows "moves s d d'"
proof -
  have ob: "outbox_ok d" using wf by (simp add: canvas_wf_def)
  then have k: "keyed co_id (cv_outbox d)" and ke: "keyed co_event (cv_outbox d)" by (simp_all add: outbox_ok_def)
  from pr show ?thesis
  proof (cases rule: project_cases)
    case same then show ?thesis using moves_same [OF wf] by simp
  next
    case (again i e)
    have "co_event i \<in> ev_id ` set (db_events (cv_core d))"
      using again(2) sel_by_None_iff [of ev_id "co_event i" "db_events (cv_core d)"] by simp
    then have p: "co_projected i \<noteq> None" using ob again(1) by (simp add: outbox_ok_def)
    have P: "(co_id j = co_id i) = (j = i)" if "j \<in> set (cv_outbox d)" for j using keyed_inj [OF k that again(1)] by auto
    have "outbox_ok d'"
      by (rule outbox_ok_updated [OF ob, where f = "projected_intent now" and P = "\<lambda>j. co_id j = co_id i"])
        (use again(3) ob P p in \<open>auto simp: set_upd_where outbox_ok_def\<close>)
    moreover have "filter (\<lambda>i. co_session i = s \<and> co_projected i = None) (cv_outbox d') =
        filter (\<lambda>i. co_session i = s \<and> co_projected i = None) (cv_outbox d)"
    proof -
      have "cv_outbox d' = upd_where (\<lambda>j. co_id j = co_id i \<and> co_projected j \<noteq> None) (projected_intent now) (cv_outbox d)"
        unfolding again(3) using P p by (auto intro!: upd_where_cong)
      then show ?thesis by (simp only:) (rule filter_upd_where_frame, auto)
    qed
    ultimately show ?thesis using wf again(3)
      by (simp add: moves_def canvas_wf_def pending_marks_def pending_intents_def canvas_log_def)
  next
    case (fresh i)
    have p: "co_projected i = None" using ob fresh(1,3) by (simp add: outbox_ok_def)
    have ne: "\<not> earlier_pending i d" using fresh(4) p by simp
    have P: "(co_id j = co_id i \<and> co_projected j = None) = (co_id j = co_id i)" if "j \<in> set (cv_outbox d)" for j
      using keyed_inj [OF k that fresh(1)] p by auto
    have box: "cv_outbox d' = upd_where (\<lambda>j. co_id j = co_id i) (projected_intent now) (cv_outbox d)"
      unfolding fresh(6) by (rule upd_where_cong) (rule P)
    have ev: "ea_id ev = co_event i" "ea_session ev = co_session i" "ea_topic ev = canvas_topic"
      "event_mark (new_event_row ev n (ea_payload ev)) = intent_mark i" for n
      using fresh(2) by (simp_all add: intent_matches_def event_mark_def intent_mark_def new_event_row_def)
    have log: "canvas_log s d' = canvas_log s d @ (if co_session i = s then [intent_mark i] else [])"
      using ev by (simp add: canvas_log_def fresh(5) new_row_topic)
    let ?Q = "\<lambda>i. co_session i = s \<and> co_projected i = None"
    have pend: "pending_marks s d = (if co_session i = s then [intent_mark i] else []) @ pending_marks s d'"
    proof (cases "co_session i = s")
      case True
      have "\<exists>rest. filter ?Q (cv_outbox d) = i # rest"
        by (rule pending_first) (use ob fresh(1) p True ne in \<open>auto simp: outbox_ok_def earlier_pending_def\<close>)
      then obtain rest where rest: "filter ?Q (cv_outbox d) = i # rest" by blast
      have "filter ?Q (cv_outbox d') = rest" unfolding box by (rule view_tail [OF k rest]) simp
      then show ?thesis using rest True by (simp add: pending_marks_def pending_intents_def)
    next
      case False
      have "filter ?Q (upd_where (\<lambda>j. co_id j = co_id i \<and> co_session j \<noteq> s) (projected_intent now) (cv_outbox d)) = filter ?Q (cv_outbox d)"
        by (rule filter_upd_where_frame) auto
      moreover have "cv_outbox d' = upd_where (\<lambda>j. co_id j = co_id i \<and> co_session j \<noteq> s) (projected_intent now) (cv_outbox d)"
        unfolding box using keyed_inj [OF k _ fresh(1)] False by (auto intro!: upd_where_cong)
      ultimately show ?thesis using False by (simp add: pending_marks_def pending_intents_def)
    qed
    have "outbox_ok d'"
    proof (rule outbox_ok_updated [OF ob, where f = "projected_intent now" and P = "\<lambda>j. co_id j = co_id i"])
      show "\<forall>j \<in> set (cv_outbox d'). co_projected j = None \<longleftrightarrow> co_event j \<notin> ev_id ` set (db_events (cv_core d'))"
      proof
        fix j assume "j \<in> set (cv_outbox d')"
        then consider x where "x \<in> set (cv_outbox d)" "co_id x = co_id i" "j = projected_intent now x"
          | "j \<in> set (cv_outbox d)" "co_id j \<noteq> co_id i"
          by (auto simp: box set_upd_where split: if_splits)
        then show "co_projected j = None \<longleftrightarrow> co_event j \<notin> ev_id ` set (db_events (cv_core d'))"
        proof cases
          case 1
          then have "x = i" using keyed_inj [OF k _ fresh(1)] by blast
          then show ?thesis using 1 ev(1) by (simp add: fresh(5))
        next
          case 2
          then have "co_event j \<noteq> co_event i" using keyed_inj [OF ke _ fresh(1)] by auto
          then show ?thesis using 2 ob ev(1) by (auto simp: fresh(5) outbox_ok_def)
        qed
      qed
    qed (simp_all add: box fresh(8))
    then show ?thesis using log pend wf fresh(7) by (auto simp: moves_def canvas_wf_def)
  qed
qed

lemma quiet_moves:
  assumes wf: "canvas_wf d" and ok: "outbox_ok d'" and same: "cv_runs d' = cv_runs d"
    and "canvas_log s d' = canvas_log s d" and "pending_marks s d' = pending_marks s d"
  shows "moves s d d'"
  using assms by (simp add: moves_def canvas_wf_def)

lemma failure_moves:
  assumes wf: "canvas_wf d"
  shows "moves s d (snd (record_canvas_graph_run_event_outbox_failure oid err now d))"
proof -
  let ?P = "\<lambda>i. co_id i = py_strip oid \<and> co_projected i = None"
  let ?d' = "d\<lparr>cv_outbox := upd_where ?P (failed_intent err now) (cv_outbox d)\<rparr>"
  have ob: "outbox_ok d" using wf by (simp add: canvas_wf_def)
  have "outbox_ok ?d'"
    by (rule outbox_ok_updated [OF ob, where f = "failed_intent err now" and P = ?P])
      (use ob in \<open>auto simp: outbox_ok_def set_upd_where\<close>)
  then have "moves s d ?d'"
    by (intro quiet_moves [OF wf]) (simp_all add: canvas_log_def pending_marks_def pending_intents_def map_view_keep)
  then show ?thesis
    using moves_same [OF wf] by (simp add: record_canvas_graph_run_event_outbox_failure_def Let_def)
qed

lemma outbox_ok_filter: "outbox_ok d \<Longrightarrow> outbox_ok (d\<lparr>cv_outbox := filter Q (cv_outbox d)\<rparr>)"
  by (simp add: outbox_ok_def keyed_def distinct_map_filter sorted_wrt_map sorted_wrt_filter)

lemma prune_moves:
  assumes wf: "canvas_wf d"
  shows "moves s d (snd (prune_projected_canvas_outbox dry d))"
proof (cases dry)
  case False
  define gone where "gone = take 1000 (sort_key co_seq (filter (\<lambda>i. co_projected i \<noteq> None \<and>
      (case co_runtime_event i of None \<Rightarrow> False | Some e \<Rightarrow> e \<notin> ev_id ` set (db_events (cv_core d)))) (cv_outbox d)))"
  have k: "keyed co_id (cv_outbox d)" using wf by (simp add: canvas_wf_def outbox_ok_def)
  have g: "i \<in> set (cv_outbox d) \<and> co_projected i \<noteq> None" if "i \<in> set gone" for i
    using in_set_takeD [OF that [unfolded gone_def]] by auto
  have keep: "co_id i \<notin> co_id ` set gone" if "i \<in> set (cv_outbox d)" "co_projected i = None" for i
    using g keyed_inj [OF k _ that(1)] that by (metis imageE)
  have "filter (\<lambda>i. co_session i = s \<and> co_projected i = None) (filter (\<lambda>i. co_id i \<notin> co_id ` set gone) (cv_outbox d)) =
      filter (\<lambda>i. co_session i = s \<and> co_projected i = None) (cv_outbox d)"
    unfolding filter_filter using keep by (intro filter_cong) auto
  then have "moves s d (d\<lparr>cv_outbox := filter (\<lambda>i. co_id i \<notin> co_id ` set gone) (cv_outbox d)\<rparr>)"
    using wf by (intro quiet_moves [OF wf] outbox_ok_filter) (simp_all add: canvas_log_def pending_marks_def pending_intents_def canvas_wf_def)
  then show ?thesis using False by (simp add: prune_projected_canvas_outbox_def Let_def gone_def)
qed (simp add: prune_projected_canvas_outbox_def Let_def moves_same [OF wf])

lemma other_moves:
  assumes wf: "canvas_wf d" and other: "ea_topic a \<noteq> canvas_topic" "ea_id a \<notin> co_event ` set (cv_outbox d)"
  shows "moves s d (d\<lparr>cv_core := snd (add_runtime_event a now (cv_core d))\<rparr>)"
proof -
  obtain res c where add: "add_runtime_event a now (cv_core d) = (res, c)" by force
  then obtain es where es: "db_events c = db_events (cv_core d) @ es" "\<forall>e \<in> set es. ev_topic e = ea_topic a \<and> ev_id e = ea_id a"
    using add_event_cases [OF add] by (auto simp: new_row_topic)
  have "co_event i \<noteq> ea_id a" if "i \<in> set (cv_outbox d)" for i using other(2) that by (metis image_eqI)
  then have "outbox_ok (d\<lparr>cv_core := c\<rparr>)" using wf es by (fastforce simp: canvas_wf_def outbox_ok_def)
  then have "moves s d (d\<lparr>cv_core := c\<rparr>)"
    using es other(1) by (intro quiet_moves [OF wf]) (simp_all add: canvas_log_def pending_marks_def pending_intents_def filter_empty_conv)
  then show ?thesis by (simp add: add)
qed

section \<open>The channel\<close>

lemma step_told:
  assumes wf: "canvas_wf d" and adm: "admissible x d"
  shows "tells s d (canvas_step x d) (happened s x d) \<or>
    (moves s d (canvas_step x d) \<and> happened s x d = [])"
proof -
  have ok: "runs_ok (cv_runs d)" using wf by (simp add: canvas_wf_def)
  have step: "canvas_step x d = op_effect x d" using adm by (simp add: canvas_step_def)
  have told: "told s d (op_effect x d) \<Longrightarrow> reconciled_marks s x d = [] \<Longrightarrow> ?thesis"
    by (simp add: told_def happened_def step)
  have moved: "moves s d (op_effect x d) \<Longrightarrow> reconciled_marks s x d = [] \<Longrightarrow> ?thesis"
    using changes_none [OF ok] by (simp add: moves_def happened_def step)
  show ?thesis
  proof (cases x)
    case (StartRun ids drawn a retry now)
    show ?thesis
    proof (rule told)
      show "told s d (op_effect x d)"
        using adm told_same [OF wf] start_told [OF wf, of ids now drawn a] StartRun
        by (cases "read_start a") (simp_all add: op_effect_def admissible_def)
    qed (simp add: StartRun reconciled_marks_def)
  next
    case (Reconcile ids auth digest report now)
    then show ?thesis using reconcile_tells [OF wf, of ids now s auth digest report] adm step
      by (simp add: happened_def op_effect_def admissible_def)
  next
    case (WriteRun ids a now)
    then show ?thesis using adm
      by (intro told) (simp_all add: op_effect_def admissible_def reconciled_marks_def write_told [OF wf])
  next
    case (ClaimCancel ids g0 g reason now)
    then show ?thesis using adm
      by (intro told) (simp_all add: op_effect_def admissible_def reconciled_marks_def claim_cancel_told [OF wf])
  next
    case (FinishCancel ids g0 g reason lifecycle now)
    then show ?thesis using adm
      by (intro told) (simp_all add: op_effect_def admissible_def reconciled_marks_def finish_cancel_told [OF wf])
  next
    case (ClaimRetry ids auth g0 g now)
    then show ?thesis using adm
      by (intro told) (simp_all add: op_effect_def admissible_def reconciled_marks_def retry_told [OF wf])
  next
    case (Restart ids now)
    then show ?thesis using adm
      by (intro told) (simp_all add: op_effect_def admissible_def reconciled_marks_def restart_told [OF wf])
  next
    case (Project ev oid now)
    obtain res d' where "project_canvas_graph_run_event_outbox ev oid now d = (res, d')" by force
    then show ?thesis using project_moves [OF wf, of ev oid now res d' s] Project
      by (intro moved) (simp_all add: op_effect_def reconciled_marks_def)
  next
    case (ProjectionFailed oid err now)
    then show ?thesis by (intro moved) (simp_all add: op_effect_def reconciled_marks_def failure_moves [OF wf])
  next
    case (Prune dry)
    then show ?thesis by (intro moved) (simp_all add: op_effect_def reconciled_marks_def prune_moves [OF wf])
  next
    case (OtherEvent a now)
    then show ?thesis using adm
      by (intro moved) (simp_all add: op_effect_def admissible_def reconciled_marks_def other_moves [OF wf])
  qed
qed

lemma step_refused: "canvas_wf d \<Longrightarrow> \<not> admissible x d \<Longrightarrow> canvas_step x d = d \<and> happened s x d = []"
  by (auto simp: canvas_step_def happened_def canvas_wf_def changes_none reconciled_marks_def
      split: canvas_op.split sum.split reconciliation.split)

lemma step_log:
  assumes "canvas_wf d"
  shows "canvas_log s (canvas_step x d) = canvas_log s d @ logged s x d"
    and "logged s x d @ pending_marks s (canvas_step x d) = pending_marks s d @ happened s x d"
    and "canvas_wf (canvas_step x d)"
proof -
  consider "\<not> admissible x d" | "tells s d (canvas_step x d) (happened s x d)"
    | "moves s d (canvas_step x d)" "happened s x d = []"
    using step_told [OF assms, of x s] by blast
  then have "canvas_log s (canvas_step x d) = canvas_log s d @ logged s x d \<and>
    logged s x d @ pending_marks s (canvas_step x d) = pending_marks s d @ happened s x d \<and> canvas_wf (canvas_step x d)"
  proof cases
    case 1
    then show ?thesis using step_refused [OF assms 1, of s] assms by (simp add: logged_def)
  next
    case 2
    then show ?thesis by (simp add: tells_def logged_def canvas_log_def)
  next
    case 3
    then show ?thesis by (auto simp: moves_def logged_def)
  qed
  then show "canvas_log s (canvas_step x d) = canvas_log s d @ logged s x d"
    "logged s x d @ pending_marks s (canvas_step x d) = pending_marks s d @ happened s x d" "canvas_wf (canvas_step x d)"
    by blast+
qed

interpretation canvas_outbox: lossless_channel canvas_step "happened s" "logged s" "pending_marks s" canvas_wf for s
  by unfold_locales (rule step_log(2,3), assumption)+

lemma run_log:
  "canvas_wf d \<Longrightarrow> canvas_log s (run_steps canvas_step xs d) = canvas_log s d @ along canvas_step (logged s) xs d"
proof (induction xs arbitrary: d)
  case (Cons x xs)
  then show ?case using step_log(1) [OF Cons.prems, of s x] Cons.IH [OF step_log(3) [OF Cons.prems, of x]] by simp
qed simp

section \<open>The life of a run\<close>

definition next_statuses :: "string \<Rightarrow> string list" where
  "next_statuses p =
     (if p = ''queued'' then [''running'', ''cancelling'', ''cancelled'', ''interrupted'']
      else if p = ''running'' then [''succeeded'', ''failed'', ''cancelling'', ''cancelled'', ''interrupted'']
      else if p = ''cancelling'' then [''cancelled'', ''interrupted'']
      else if p = ''failed'' \<or> p = ''interrupted'' then [''running'']
      else [])"

text \<open>The status an executor writes, with the statuses it expects: the call sites of
  \<^verbatim>\<open>_write_run_state\<close>.\<close>

definition executor_writes :: "(string \<times> string list) list" where
  "executor_writes = [(''running'', [''queued'']), (''running'', [''running'']), (''succeeded'', [''running'']),
     (''cancelled'', [''queued'', ''running'', ''cancelling'']), (''failed'', [''running''])]"

definition call_site :: "canvas_op \<Rightarrow> bool" where
  "call_site x = (case x of
     WriteRun ids a now \<Rightarrow> (\<exists>w \<in> set executor_writes. wr_status a = fst w \<and> wr_expected a = Some (snd w)) | _ \<Rightarrow> True)"

definition same_run :: "canvas_run \<Rightarrow> canvas_run \<Rightarrow> bool" where
  "same_run r q \<longleftrightarrow> cr_id q = cr_id r \<and> cr_session q = cr_session r \<and> cr_graph q = cr_graph r \<and>
     cr_operation q = cr_operation r \<and> cr_revision q = cr_revision r \<and> cr_created q = cr_created r"

text \<open>How a row may change: anyhow, along the life cycle, or without becoming active.\<close>

datatype strictness = Loose | Cycle | Calm

definition moves_on :: "strictness \<Rightarrow> canvas_run \<Rightarrow> canvas_run \<Rightarrow> bool" where
  "moves_on m r q \<longleftrightarrow> same_run r q \<and>
     (m = Cycle \<longrightarrow> cr_status q = cr_status r \<or> cr_status q \<in> set (next_statuses (cr_status r))) \<and>
     (m = Calm \<longrightarrow> cr_status q \<in> set active_graph_states \<longrightarrow> cr_status r \<in> set active_graph_states)"

lemma moves_on_refl: "moves_on m r r"
  by (simp add: moves_on_def same_run_def)

lemma same_run_trans: "same_run a b \<Longrightarrow> same_run b c \<Longrightarrow> same_run a c"
  by (simp add: same_run_def)

lemma same_run_writes [simp]:
  "same_run r (written_run a now r)" "same_run r (cancelling_run reason now r)"
  "same_run r (cancelled_canvas_run reason lifecycle now r)" "same_run r (retried_run now r)"
  "same_run r (interrupted_run now r)" "same_run r (reconciled_run p dig st now r)"
  by (simp_all add: same_run_def written_run_def cancelling_run_def cancelled_canvas_run_def retried_run_def
      interrupted_run_def reconciled_run_def Let_def)

definition runs_grow :: "strictness \<Rightarrow> canvas_db \<Rightarrow> canvas_db \<Rightarrow> bool" where
  "runs_grow m d d' \<longleftrightarrow> table_evolves (moves_on m) (cv_runs d) (cv_runs d') \<and>
     (let rows = drop (length (cv_runs d)) (cv_runs d')
      in rows = [] \<or> (\<exists>q. rows = [q] \<and> cr_status q = ''queued'' \<and> active_in (cr_session q) d = []))"

lemma grow_same: "cv_runs d' = cv_runs d \<Longrightarrow> runs_grow m d d'"
  by (simp add: runs_grow_def table_evolves_refl moves_on_refl)

lemma grow_update:
  assumes "cv_runs d' = upd_where P f (cv_runs d)" and "\<And>r. r \<in> set (cv_runs d) \<Longrightarrow> P r \<Longrightarrow> moves_on m r (f r)"
  shows "runs_grow m d d'"
  unfolding runs_grow_def assms(1) using assms(2) by (simp add: table_evolves_upd moves_on_refl)

lemma commit_runs:
  assumes "commit_announced ids row status tr rt now d1 d = (err, d')"
  shows "cv_runs d' = cv_runs d \<or> cv_runs d' = cv_runs d1"
  using assms
  by (auto simp: commit_announced_def enqueue_graph_run_state_event_def enqueue_canvas_graph_run_event_outbox_def Let_def
      split: prod.splits option.splits sum.splits if_splits)

lemma grow_commit:
  assumes "commit_announced ids row status tr rt now d1 d = (err, d')" and "runs_grow m d d1"
  shows "runs_grow m d d'"
  using commit_runs [OF assms(1)] assms(2) grow_same by (auto simp: runs_grow_def)

lemma grow_trans_update:
  assumes "runs_grow m d d1" and "cv_runs d2 = cv_runs d1"
  shows "runs_grow m d d2"
  using assms by (simp add: runs_grow_def)

lemma start_grow: "runs_grow m d (snd (start_graph_run_tx ids drawn a retry now d))"
proof -
  obtain res d' where st: "start_graph_run_tx ids drawn a retry now d = (res, d')" by force
  let ?r = "new_canvas_run a (or_text (st_requested a) drawn) now"
  have g: "runs_grow m d (d\<lparr>cv_runs := cv_runs d @ [?r]\<rparr>)" if "active_in (st_session a) d = []"
    using that by (simp add: runs_grow_def table_evolves_append moves_on_refl)
  have "runs_grow m d d'" using start_cases [OF st] grow_same [of d d m] g
    by (elim disjE exE conjE) (simp, rule grow_commit)
  then show ?thesis by (simp add: st)
qed

lemma claim_cancel_grow: "runs_grow m d (snd (claim_run_cancellation_tx ids s g reason now d))"
proof -
  let ?d1 = "d\<lparr>cv_runs := upd_where (\<lambda>x. cr_id x = g \<and> cr_session x = s \<and> cr_status x \<in> {''queued'', ''running''})
      (cancelling_run reason now) (cv_runs d)\<rparr>"
  have "runs_grow m d ?d1"
    by (rule grow_update [where P = "\<lambda>x. cr_id x = g \<and> cr_session x = s \<and> cr_status x \<in> {''queued'', ''running''}"
          and f = "cancelling_run reason now"]) (auto simp: moves_on_def next_statuses_def active_graph_states_def)
  then show ?thesis using grow_same [of d d m]
    by (auto simp: claim_run_cancellation_tx_def Let_def split: option.split prod.split dest: grow_commit)
qed

lemma finish_cancel_grow: "runs_grow m d (snd (finish_run_cancellation_tx ids s g reason lifecycle now d))"
proof -
  let ?d1 = "d\<lparr>cv_runs := upd_where (\<lambda>x. cr_id x = g \<and> cr_session x = s \<and> cr_status x \<in> {''cancelling'', ''cancelled''})
      (cancelled_canvas_run reason lifecycle now) (cv_runs d)\<rparr>"
  have "runs_grow m d ?d1"
    by (rule grow_update [where P = "\<lambda>x. cr_id x = g \<and> cr_session x = s \<and> cr_status x \<in> {''cancelling'', ''cancelled''}"
          and f = "cancelled_canvas_run reason lifecycle now"]) (auto simp: moves_on_def next_statuses_def active_graph_states_def)
  then show ?thesis using grow_same [of d d m]
    by (auto simp: finish_run_cancellation_tx_def Let_def split: option.split prod.split dest: grow_commit)
qed

lemma retry_grow:
  assumes "m \<noteq> Calm"
  shows "runs_grow m d (snd (claim_failed_retry_tx ids auth s g now d))"
proof -
  let ?d1 = "d\<lparr>cv_runs := upd_where (\<lambda>x. cr_id x = g \<and> cr_session x = s \<and> cr_status x \<in> {''failed'', ''interrupted''})
      (retried_run now) (cv_runs d)\<rparr>"
  have "runs_grow m d ?d1"
    by (rule grow_update [where P = "\<lambda>x. cr_id x = g \<and> cr_session x = s \<and> cr_status x \<in> {''failed'', ''interrupted''}"
          and f = "retried_run now"]) (use assms in \<open>auto simp: moves_on_def next_statuses_def\<close>)
  then show ?thesis using grow_same [of d d m]
    by (auto simp: claim_failed_retry_tx_def Let_def split: option.split prod.split sum.split dest: grow_commit)
qed

lemma write_grow:
  assumes wf: "canvas_wf d" and site: "m \<noteq> Loose \<longrightarrow> call_site (WriteRun ids a now)"
  shows "runs_grow m d (snd (write_run_state_tx ids a now d))"
proof -
  let ?d1 = "d\<lparr>cv_runs := upd_where (\<lambda>x. cr_id x = wr_run a) (written_run a now) (cv_runs d)\<rparr>"
  show ?thesis
  proof (cases "sel_by cr_id (wr_run a) (cv_runs d)")
    case None
    then show ?thesis by (simp add: write_run_state_tx_def grow_same)
  next
    case (Some r)
    let ?skip = "case wr_expected a of None \<Rightarrow> False | Some xs \<Rightarrow> cr_status r \<notin> set xs"
    show ?thesis
    proof (cases "public_graph_run_status (wr_status a) = [] \<or> ?skip")
      case True
      then have "snd (write_run_state_tx ids a now d) = d" using Some by (auto simp: write_run_state_tx_def)
      then show ?thesis by (simp add: grow_same)
    next
      case False
      have "moves_on m r (written_run a now r)"
      proof (cases "m \<noteq> Loose")
        case True
        then obtain w where w: "w \<in> set executor_writes" "wr_status a = fst w" "wr_expected a = Some (snd w)"
          using site by (auto simp: call_site_def)
        moreover have "cr_status r \<in> set (snd w)" using False w(3) by simp
        ultimately show ?thesis by (auto simp: moves_on_def executor_writes_def next_statuses_def active_graph_states_def)
      qed (simp add: moves_on_def)
      moreover have "x = r" if "x \<in> set (cv_runs d)" "cr_id x = wr_run a" for x
        using wf sel_by_SomeD [OF Some] that keyed_inj [of cr_id "cv_runs d" x r] by (simp add: canvas_wf_def runs_ok_def)
      ultimately have g: "runs_grow m d ?d1"
        by (intro grow_update [where P = "\<lambda>x. cr_id x = wr_run a" and f = "written_run a now"]) auto
      obtain err d' where co: "commit_announced ids (canvas_row.truncate (written_run a now r)) (wr_status a)
          (wr_transition a) (wr_retry a) now ?d1 d = (err, d')" by force
      then have "snd (write_run_state_tx ids a now d) = d' \<or> snd (write_run_state_tx ids a now d) = ?d1"
        using Some False by (cases err) (simp_all add: write_run_state_tx_def Let_def)
      then show ?thesis using g grow_commit [OF co g] by auto
    qed
  qed
qed

definition interrupts :: "canvas_run \<Rightarrow> canvas_run \<Rightarrow> bool" where
  "interrupts r q \<longleftrightarrow> same_run r q \<and>
     (cr_status q = cr_status r \<or> cr_status r \<in> set active_graph_states \<and> cr_status q = ''interrupted'')"

lemma enqueue_runs: "enqueue_graph_run_state_event ids row status tr rt now d = (err, d') \<Longrightarrow> cv_runs d' = cv_runs d"
  by (auto simp: enqueue_graph_run_state_event_def enqueue_canvas_graph_run_event_outbox_def Let_def
      split: prod.splits option.splits sum.splits if_splits)

lemma interrupt_runs_evolves:
  "table_evolves interrupts (cv_runs d0) (cv_runs d) \<and> length (cv_runs d) = length (cv_runs d0) \<Longrightarrow>
   interrupt_runs ids now rs p d0 d = (res, d') \<Longrightarrow>
   table_evolves interrupts (cv_runs d0) (cv_runs d') \<and> length (cv_runs d') = length (cv_runs d0)"
proof (induction rs arbitrary: p d)
  case (Cons r rs)
  let ?P = "\<lambda>x. cr_id x = cr_id r \<and> cr_status x \<in> set active_graph_states"
  let ?d1 = "d\<lparr>cv_runs := upd_where ?P (interrupted_run now) (cv_runs d)\<rparr>"
  have refl: "\<And>r. interrupts r r" by (simp add: interrupts_def same_run_def)
  have trans: "\<And>a b c. interrupts a b \<Longrightarrow> interrupts b c \<Longrightarrow> interrupts a c"
    by (auto simp: interrupts_def active_graph_states_def dest: same_run_trans)
  have "table_evolves interrupts (cv_runs d) (cv_runs ?d1)"
    using table_evolves_upd [of interrupts "cv_runs d" ?P "interrupted_run now"] refl by (simp add: interrupts_def)
  then have d1: "table_evolves interrupts (cv_runs d0) (cv_runs ?d1) \<and> length (cv_runs ?d1) = length (cv_runs d0)"
    using table_evolves_trans [of interrupts, OF trans] Cons.prems(1) by auto
  obtain err e where en: "enqueue_graph_run_state_event (ids (cr_id r)) (canvas_row.truncate (interrupted_run now r))
      ''interrupted'' [] [] now ?d1 = (err, e)" by force
  have e: "table_evolves interrupts (cv_runs d0) (cv_runs e) \<and> length (cv_runs e) = length (cv_runs d0)"
    using d1 enqueue_runs [OF en] by simp
  have zero: "table_evolves interrupts (cv_runs d0) (cv_runs d0)" using table_evolves_refl [of interrupts] refl by blast
  show ?case
  proof (cases "count_where ?P (cv_runs d) \<noteq> 1")
    case True
    then show ?thesis using Cons by (simp add: Let_def)
  next
    case False
    then show ?thesis using Cons.prems(2) Cons.IH [OF e] en zero by (cases err) (auto simp: Let_def)
  qed
qed simp

lemma restart_grow: "runs_grow m d (snd (reconcile_startup_tx ids now d))"
proof -
  obtain res d' where res: "reconcile_startup_tx ids now d = (res, d')" by force
  have "table_evolves interrupts (cv_runs d) (cv_runs d)" by (rule table_evolves_refl) (simp add: interrupts_def same_run_def)
  then have "table_evolves interrupts (cv_runs d) (cv_runs d') \<and> length (cv_runs d') = length (cv_runs d)"
    using interrupt_runs_evolves [of d d ids now _ _ res d'] res by (simp add: reconcile_startup_tx_def)
  moreover have "interrupts r q \<Longrightarrow> moves_on m r q" for r q
    by (auto simp: interrupts_def moves_on_def active_graph_states_def next_statuses_def)
  ultimately show ?thesis by (auto simp: res runs_grow_def table_evolves_def Let_def)
qed

lemma reconcile_grow: "canvas_wf d \<Longrightarrow> runs_grow m d (snd (apply_remote_terminal_reconciliation_tx ids auth digest report now d))"
proof -
  assume wf: "canvas_wf d"
  obtain res d' where res: "apply_remote_terminal_reconciliation_tx ids auth digest report now d = (res, d')" by force
  from wf res have "runs_grow m d d'"
  proof (cases rule: reconcile_cases)
    case same then show ?thesis by (simp add: grow_same)
  next
    case (written p a r err)
    show ?thesis
      by (rule grow_commit [OF written(5)], rule grow_update
          [where P = "\<lambda>x. cr_id x = rp_run p \<and> cr_session x = rp_session p \<and> cr_status x = cr_status r \<and> cr_updated x = cr_updated r"
           and f = "reconciled_run p (digest (JObj (rp_canonical p))) (cr_status r) now"]) (simp_all add: moves_on_def)
  qed
  then show ?thesis by (simp add: res)
qed

definition is_retry :: "canvas_op \<Rightarrow> bool" where
  "is_retry x = (case x of ClaimRetry ids auth s g now \<Rightarrow> True | _ \<Rightarrow> False)"

lemma step_grow:
  assumes wf: "canvas_wf d" and site: "m \<noteq> Loose \<longrightarrow> call_site x" and calm: "m = Calm \<longrightarrow> \<not> is_retry x"
  shows "runs_grow m d (canvas_step x d)"
proof (cases "admissible x d")
  case True
  then have step: "canvas_step x d = op_effect x d" by (simp add: canvas_step_def)
  consider (told) "\<not> (\<exists>ev oid now. x = Project ev oid now) \<and> \<not> (\<exists>oid err now. x = ProjectionFailed oid err now) \<and>
      \<not> (\<exists>dry. x = Prune dry) \<and> \<not> (\<exists>a now. x = OtherEvent a now)" | (moved) "cv_runs (op_effect x d) = cv_runs d"
    by (cases x) (auto simp: op_effect_def project_canvas_graph_run_event_outbox_def Let_def
        record_canvas_graph_run_event_outbox_failure_def prune_projected_canvas_outbox_def
        split: option.splits prod.splits)
  then show ?thesis
  proof cases
    case moved
    then show ?thesis using grow_same step by simp
  next
    case told
    then show ?thesis using site wf calm unfolding step
      by (cases x) (simp_all add: op_effect_def write_grow claim_cancel_grow finish_cancel_grow retry_grow restart_grow
          reconcile_grow start_grow grow_same is_retry_def split: sum.split)
  qed
qed (simp add: canvas_step_def grow_same)

definition may_become :: "string \<Rightarrow> string \<Rightarrow> bool" where
  "may_become p q \<longleftrightarrow> q \<in> set (next_statuses p)"

lemma step_run:
  assumes "canvas_wf d" and "m \<noteq> Loose \<longrightarrow> call_site x" and "m \<noteq> Calm" and "sel_by cr_id g (cv_runs d) = Some r"
  shows "\<exists>q. sel_by cr_id g (cv_runs (canvas_step x d)) = Some q \<and> moves_on m r q"
  using step_grow [OF assms(1,2)] assms(3,4) table_evolves_sel [of "moves_on m" "cv_runs d" _ cr_id g r]
  by (auto simp: runs_grow_def moves_on_def same_run_def)

lemma run_wf_canvas: "canvas_wf d \<Longrightarrow> canvas_wf (run_steps canvas_step xs d)"
  by (rule canvas_outbox.run_wf)

lemma life_cycle:
  assumes "canvas_wf d" and "list_all call_site xs" and "sel_by cr_id g (cv_runs d) = Some r"
  shows "\<exists>q. sel_by cr_id g (cv_runs (run_steps canvas_step xs d)) = Some q \<and> same_run r q \<and>
    may_become\<^sup>*\<^sup>* (cr_status r) (cr_status q)"
  using assms
proof (induction xs arbitrary: d r)
  case Nil
  then show ?case by (simp add: same_run_def)
next
  case (Cons x xs)
  obtain q where q: "sel_by cr_id g (cv_runs (canvas_step x d)) = Some q" "moves_on Cycle r q"
    using step_run [OF Cons.prems(1) _ _ Cons.prems(3), of Cycle x] Cons.prems(2) by auto
  obtain q' where q': "sel_by cr_id g (cv_runs (run_steps canvas_step xs (canvas_step x d))) = Some q'" "same_run q q'"
    "may_become\<^sup>*\<^sup>* (cr_status q) (cr_status q')"
    using Cons.IH [OF step_log(3) [OF Cons.prems(1)] _ q(1)] Cons.prems(2) by auto
  have "may_become\<^sup>*\<^sup>* (cr_status r) (cr_status q)" using q(2) by (auto simp: moves_on_def may_become_def)
  then have "may_become\<^sup>*\<^sup>* (cr_status r) (cr_status q')" using q'(3) by simp
  moreover have "same_run r q'" using same_run_trans q(2) q'(2) unfolding moves_on_def by blast
  ultimately show ?case using q'(1) by auto
qed

lemma final_status: "may_become\<^sup>*\<^sup>* p q \<Longrightarrow> p \<in> {''succeeded'', ''cancelled''} \<Longrightarrow> q = p"
  by (induction rule: converse_rtranclp_induct) (auto simp: may_become_def next_statuses_def)

section \<open>The events agree with the runs\<close>

text \<open>The status the events of a run, followed by its pending intents, end with.\<close>

definition last_shown :: "string \<Rightarrow> mark list \<Rightarrow> string" where
  "last_shown g ms = (case rev (filter (\<lambda>m. fst m = g) ms) of [] \<Rightarrow> [] | m # _ \<Rightarrow> snd m)"

definition events_agree :: "canvas_db \<Rightarrow> bool" where
  "events_agree d \<longleftrightarrow> (\<forall>r \<in> set (cv_runs d).
     last_shown (cr_id r) (canvas_log (cr_session r) d @ pending_marks (cr_session r) d) =
       public_graph_run_status (cr_status r))"

lemma last_shown_append:
  "last_shown g (ms @ ns) = (if \<exists>m \<in> set ns. fst m = g then last_shown g ns else last_shown g ms)"
proof (cases "filter (\<lambda>m. fst m = g) ns = []")
  case True
  then show ?thesis by (auto simp: last_shown_def filter_empty_conv)
next
  case False
  then obtain m k where "rev (filter (\<lambda>m. fst m = g) ns) = m # k" by (cases "rev (filter (\<lambda>m. fst m = g) ns)") auto
  moreover have "\<exists>m \<in> set ns. fst m = g" using False by (auto simp: filter_empty_conv)
  ultimately show ?thesis by (simp add: last_shown_def)
qed

lemma last_shown_all: "\<exists>m \<in> set ns. fst m = g \<Longrightarrow> \<forall>m \<in> set ns. fst m = g \<longrightarrow> snd m = p \<Longrightarrow> last_shown g ns = p"
proof -
  assume ex: "\<exists>m \<in> set ns. fst m = g" and all: "\<forall>m \<in> set ns. fst m = g \<longrightarrow> snd m = p"
  then obtain m k where k: "rev (filter (\<lambda>m. fst m = g) ns) = m # k"
    by (cases "rev (filter (\<lambda>m. fst m = g) ns)") (auto simp: filter_empty_conv)
  then have "m \<in> set (filter (\<lambda>m. fst m = g) ns)" using arg_cong [OF k, of set] by auto
  then show ?thesis using all k by (auto simp: last_shown_def)
qed

lemma status_change_marks:
  "m \<in> set (status_changes s t t') \<longleftrightarrow> (\<exists>r \<in> set t'. m = run_mark r \<and> cr_session r = s \<and>
     public_graph_run_status (cr_status r) \<noteq> public_before (cr_id r) t)"
  by (auto simp: status_changes_def)

lemma reconciled_mark_in:
  assumes "m \<in> set (reconciled_marks s x d)" and wf: "canvas_wf d"
  shows "\<exists>r \<in> set (cv_runs d). m = run_mark r" and "cv_runs (canvas_step x d) \<noteq> cv_runs d \<longrightarrow>
    (\<forall>q \<in> set (cv_runs (canvas_step x d)). public_before (cr_id q) (cv_runs d) = public_graph_run_status (cr_status q))"
proof -
  obtain ids auth digest report now where x: "x = Reconcile ids auth digest report now"
    using assms(1) by (cases x) (auto simp: reconciled_marks_def)
  then show "\<exists>r \<in> set (cv_runs d). m = run_mark r"
    using assms(1) by (auto simp: reconciled_marks_def split: sum.splits reconciliation.splits if_splits)
  have k: "keyed cr_id (cv_runs d)" using wf by (simp add: canvas_wf_def runs_ok_def)
  obtain res d' where res: "apply_remote_terminal_reconciliation_tx ids auth digest report now d = (res, d')" by force
  have step: "cv_runs (canvas_step x d) = cv_runs d \<or> cv_runs (canvas_step x d) = cv_runs d'"
    by (simp add: canvas_step_def op_effect_def x res)
  from wf res have "cv_runs d' = cv_runs d \<or> (\<exists>P f. cv_runs d' = upd_where P f (cv_runs d) \<and> keeps_key f \<and> (\<forall>r. cr_status (f r) = cr_status r))"
  proof (cases rule: reconcile_cases)
    case (written p a r err)
    let ?f = "reconciled_run p (digest (JObj (rp_canonical p))) (cr_status r) now"
    show ?thesis using commit_runs [OF written(5)] by (auto intro!: exI [of _ ?f])
  qed simp
  then have "public_before (cr_id q) (cv_runs d) = public_graph_run_status (cr_status q)" if "q \<in> set (cv_runs d')" for q
    using that public_before_at [OF k] by (auto simp: set_upd_where keeps_key_def)
  then show "cv_runs (canvas_step x d) \<noteq> cv_runs d \<longrightarrow>
    (\<forall>q \<in> set (cv_runs (canvas_step x d)). public_before (cr_id q) (cv_runs d) = public_graph_run_status (cr_status q))"
    using step by auto
qed

lemma step_agrees:
  assumes wf: "canvas_wf d" and agree: "events_agree d"
  shows "events_agree (canvas_step x d)"
  unfolding events_agree_def
proof
  let ?d' = "canvas_step x d"
  fix q assume q: "q \<in> set (cv_runs ?d')"
  let ?s = "cr_session q" and ?g = "cr_id q"
  have wf': "canvas_wf ?d'" by (rule step_log(3) [OF wf])
  then have k': "keyed cr_id (cv_runs ?d')" and k: "keyed cr_id (cv_runs d)" using wf by (simp_all add: canvas_wf_def runs_ok_def)
  have marks: "canvas_log ?s ?d' @ pending_marks ?s ?d' = (canvas_log ?s d @ pending_marks ?s d) @ happened ?s x d"
    using step_log(1,2) [OF wf, of ?s x] by simp
  have mine: "snd m = public_graph_run_status (cr_status q)" if hm: "m \<in> set (happened ?s x d)" and gm: "fst m = ?g" for m
  proof -
    consider "m \<in> set (status_changes ?s (cv_runs d) (cv_runs ?d'))" | "m \<in> set (reconciled_marks ?s x d)"
      using hm by (auto simp: happened_def)
    then show ?thesis
    proof cases
      case 1
      then obtain r where "r \<in> set (cv_runs ?d')" "m = run_mark r" by (auto simp: status_change_marks)
      moreover then have "r = q" using keyed_inj [OF k' _ q] gm by (simp add: run_mark_def)
      ultimately show ?thesis by (simp add: run_mark_def)
    next
      case 2
      obtain r where r: "r \<in> set (cv_runs d)" "m = run_mark r" using reconciled_mark_in(1) [OF 2 wf] by blast
      have pb: "public_before ?g (cv_runs d) = public_graph_run_status (cr_status r)"
        using public_before_at [OF k r(1)] r(2) gm by (simp add: run_mark_def)
      have "public_before ?g (cv_runs d) = public_graph_run_status (cr_status q)"
        using reconciled_mark_in(2) [OF 2 wf] q public_before_at [OF k] by (cases "cv_runs ?d' = cv_runs d") auto
      then show ?thesis using pb r(2) by (simp add: run_mark_def)
    qed
  qed
  show "last_shown ?g (canvas_log ?s ?d' @ pending_marks ?s ?d') = public_graph_run_status (cr_status q)"
  proof (cases "\<exists>m \<in> set (happened ?s x d). fst m = ?g")
    case True
    then show ?thesis unfolding marks last_shown_append using mine last_shown_all [OF True] by auto
  next
    case False
    have same: "public_graph_run_status (cr_status q) = public_before ?g (cv_runs d)"
    proof (rule ccontr)
      assume "public_graph_run_status (cr_status q) \<noteq> public_before ?g (cv_runs d)"
      then have "run_mark q \<in> set (happened ?s x d)" using q by (auto simp: happened_def status_change_marks)
      then show False using False by (auto simp: run_mark_def)
    qed
    show ?thesis
    proof (cases "sel_by cr_id ?g (cv_runs d)")
      case (Some r)
      obtain q' where "sel_by cr_id ?g (cv_runs ?d') = Some q'" "moves_on Loose r q'"
        using step_run [OF wf _ _ Some, of Loose x] by auto
      then have "cr_session q = cr_session r" using q k' by (auto simp: keyed_sel_iff moves_on_def same_run_def dest: keyed_inj)
      moreover have "r \<in> set (cv_runs d)" "cr_id r = ?g" using sel_by_SomeD [OF Some] by simp_all
      ultimately have "last_shown ?g (canvas_log ?s d @ pending_marks ?s d) = public_graph_run_status (cr_status r)"
        using agree by (auto simp: events_agree_def)
      then show ?thesis unfolding marks last_shown_append using False same Some by (simp add: public_before_def)
    next
      case None
      have "table_evolves (moves_on Loose) (cv_runs d) (cv_runs ?d')"
        and new: "\<forall>r \<in> set (drop (length (cv_runs d)) (cv_runs ?d')). cr_status r = ''queued''"
        using step_grow [OF wf, of Loose x] by (auto simp: runs_grow_def Let_def)
      then obtain g rows where t: "cv_runs ?d' = map g (cv_runs d) @ rows" "\<forall>r \<in> set (cv_runs d). moves_on Loose r (g r)"
        by (auto simp: table_evolves_def)
      have "q \<notin> g ` set (cv_runs d)" using None t(2) by (auto simp: sel_by_None_iff moves_on_def same_run_def)
      then have "q \<in> set rows" using q t(1) by auto
      then have "cr_status q = ''queued''" using new t(1) by simp
      then show ?thesis using same None by (simp add: public_before_def)
    qed
  qed
qed

lemma run_agrees: "canvas_wf d \<Longrightarrow> events_agree d \<Longrightarrow> events_agree (run_steps canvas_step xs d)"
  by (induction xs arbitrary: d) (auto simp: step_agrees step_log(3))

end
