(* ===== verification/CanvasDelivery.thy ===== *)
theory CanvasDelivery
  imports CanvasHistory
begin

text \<open>
  What clients of the canvas can rely on: the events follow the runs, a repair whose workspaces are in
  order drains the outbox, a run offers a retry exactly when a retry is accepted, and runs of a session
  do not run side by side unless one is retried.
\<close>

section \<open>One active run\<close>

definition one_active :: "canvas_db \<Rightarrow> bool" where
  "one_active d \<longleftrightarrow> (\<forall>r \<in> set (cv_runs d). \<forall>q \<in> set (cv_runs d). cr_session r = cr_session q \<longrightarrow>
     cr_status r \<in> set active_graph_states \<longrightarrow> cr_status q \<in> set active_graph_states \<longrightarrow> r = q)"

lemma calm_one_active:
  assumes "runs_grow Calm d d'" and "one_active d"
  shows "one_active d'"
proof -
  obtain f rows where t: "cv_runs d' = map f (cv_runs d) @ rows" and m: "\<forall>r \<in> set (cv_runs d). moves_on Calm r (f r)"
    using assms(1) unfolding runs_grow_def table_evolves_def by blast
  have rows: "rows = [] \<or> (\<exists>q. rows = [q] \<and> active_in (cr_session q) d = [])"
    using assms(1) t by (auto simp: runs_grow_def Let_def)
  have f: "cr_session (f r) = cr_session r \<and> (cr_status (f r) \<in> set active_graph_states \<longrightarrow> cr_status r \<in> set active_graph_states)"
    if "r \<in> set (cv_runs d)" for r
    using m that by (auto simp: moves_on_def same_run_def)
  have none: "cr_session r \<noteq> cr_session q \<or> cr_status (f r) \<notin> set active_graph_states"
    if "r \<in> set (cv_runs d)" "q \<in> set rows" for r q
    using rows f [OF that(1)] that by (auto simp: active_in_def filter_empty_conv)
  show ?thesis unfolding one_active_def
  proof (intro ballI impI)
    fix x y assume x: "x \<in> set (cv_runs d')" and y: "y \<in> set (cv_runs d')" and s: "cr_session x = cr_session y"
      and ax: "cr_status x \<in> set active_graph_states" and ay: "cr_status y \<in> set active_graph_states"
    consider (old) r q where "r \<in> set (cv_runs d)" "x = f r" "q \<in> set (cv_runs d)" "y = f q"
      | (left) r where "r \<in> set (cv_runs d)" "x = f r" "y \<in> set rows"
      | (right) q where "x \<in> set rows" "q \<in> set (cv_runs d)" "y = f q"
      | (new) "x \<in> set rows" "y \<in> set rows"
      using x y t by auto
    then show "x = y"
    proof cases
      case old
      then have "cr_session r = cr_session q" "cr_status r \<in> set active_graph_states" "cr_status q \<in> set active_graph_states"
        using f s ax ay by simp_all
      then show ?thesis using assms(2) old unfolding one_active_def by blast
    next
      case left
      then show ?thesis using none [of r y] f [of r] s ax by simp
    next
      case right
      then show ?thesis using none [of q x] f [of q] s ay by simp
    next
      case new
      then show ?thesis using rows by auto
    qed
  qed
qed

lemma run_one_active:
  "canvas_wf d \<Longrightarrow> one_active d \<Longrightarrow> list_all (\<lambda>x. call_site x \<and> \<not> is_retry x) xs \<Longrightarrow>
   one_active (run_steps canvas_step xs d)"
proof (induction xs arbitrary: d)
  case (Cons x xs)
  then have "one_active (canvas_step x d)" using step_grow [of d Calm x] calm_one_active by auto
  then show ?case using Cons step_log(3) by simp
qed simp

section \<open>Retrying\<close>

lemma can_retry_iff: "vw_can_retry (project_run r) \<longleftrightarrow> cr_status r \<in> set retryable_graph_states \<and> \<not> retry_blocked r"
  by (auto simp: project_run_def retry_blocked_def Let_def or_text_def retryable_graph_states_def)

lemma retry_commits:
  assumes wf: "canvas_wf d" and env: "fresh_ids ids d" "clock_moved now d"
    and r: "find (\<lambda>r. cr_id r = g \<and> cr_session r = s) (cv_runs d) = Some r" and ne: "g \<noteq> []" "s \<noteq> []"
    and st: "cr_status r \<in> set retryable_graph_states"
  shows "count_where (\<lambda>x. cr_id x = g \<and> cr_session x = s \<and> cr_status x \<in> {''failed'', ''interrupted''}) (cv_runs d) = 1"
    and "\<exists>d'. commit_announced ids (canvas_row.truncate (retried_run now r)) ''running'' ''retry_failed_branch'' g now
    (d\<lparr>cv_runs := upd_where (\<lambda>x. cr_id x = g \<and> cr_session x = s \<and> cr_status x \<in> {''failed'', ''interrupted''})
       (retried_run now) (cv_runs d)\<rparr>) d = (None, d')"
proof -
  let ?P = "\<lambda>x. cr_id x = g \<and> cr_session x = s \<and> cr_status x \<in> {''failed'', ''interrupted''}"
  let ?d1 = "d\<lparr>cv_runs := upd_where ?P (retried_run now) (cv_runs d)\<rparr>"
  have ok: "runs_ok (cv_runs d)" and k: "keyed cr_id (cv_runs d)" using wf by (simp_all add: canvas_wf_def runs_ok_def)
  note R = find_run [OF r]
  have st': "cr_status r \<in> {''failed'', ''interrupted''}" using st by (auto simp: retryable_graph_states_def)
  have sel: "sel_by cr_id g (cv_runs d) = Some r" using k R by (simp add: keyed_sel_iff)
  then show "count_where ?P (cv_runs d) = 1"
    using count_where_key_1 [OF k, of g "\<lambda>x. cr_session x = s \<and> cr_status x \<in> {''failed'', ''interrupted''}"] R st' by auto
  have f: "cr_id (retried_run now x) = cr_id x \<and> cr_session (retried_run now x) = cr_session x" for x
    by (simp add: retried_run_def)
  have new: "sel_by cr_id g (cv_runs ?d1) = Some (retried_run now r)"
    using sel_by_upd_where [of cr_id "retried_run now" g ?P "cv_runs d"] f sel R st' by simp
  have strip: "py_strip g = g" "py_strip s = s" using ok R by (auto simp: runs_ok_def)
  have lits: "py_strip ''running'' = ''running''" "py_lower ''running'' = ''running''"
    "py_strip ''retry_failed_branch'' = ''retry_failed_branch''" by code_simp+
  have an: "announcement_error ''running'' ''retry_failed_branch'' g = None"
    using ne strip by (simp add: announcement_error_def lits run_transitions_def)
  have nofind: "find (\<lambda>i. co_run i = g \<and> co_status i = ''running'' \<and> co_expected i = now \<and>
      co_transition i = ''retry_failed_branch'') (cv_outbox d) = None"
    by (rule intent_exists_not [OF run_clock_moved [OF env(2)]])
  have row: "cr_id (retried_run now r) = g" "cr_session (retried_run now r) = s" using f R by simp_all
  have "fst (enqueue_graph_run_state_event ids (canvas_row.truncate (retried_run now r)) ''running'' ''retry_failed_branch'' g now ?d1) = None"
    using new nofind env(1) ne strip row
    by (simp add: enqueue_graph_run_state_event_def an enqueue_canvas_graph_run_event_outbox_def lits fresh_ids_def Let_def)
  then show "\<exists>d'. commit_announced ids (canvas_row.truncate (retried_run now r)) ''running'' ''retry_failed_branch'' g now ?d1 d = (None, d')"
    by (cases "enqueue_graph_run_state_event ids (canvas_row.truncate (retried_run now r)) ''running'' ''retry_failed_branch'' g now ?d1")
      (simp add: commit_announced_def)
qed

definition payload_head :: "canvas_row \<Rightarrow> string \<Rightarrow> workspace_authority \<Rightarrow> dict" where
  "payload_head row status a =
     [(''schema'', JStr ''v8.creative_canvas_graph_run_state.v1''), (''sessionId'', JStr (py_strip (cr_session row))),
      (''workspaceId'', JStr (py_strip (wa_workspace a))), (''graphId'', JStr (py_strip (cr_graph row))),
      (''graphRunId'', JStr (py_strip (cr_id row))), (''canvasOperationId'', JStr (py_strip (cr_operation row))),
      (''runId'', if py_strip (opt_text (cr_chat row)) = [] then JNull else JStr (py_strip (opt_text (cr_chat row)))),
      (''status'', JStr (public_graph_run_status status))]"

definition payload_tail :: "string \<Rightarrow> string \<Rightarrow> dict" where
  "payload_tail t rt = (if py_strip t = [] then [] else [(''transition'', JStr (py_strip t))])
     @ (if py_strip rt = [] then [] else [(''retryOfGraphRunId'', JStr (py_strip rt))])"

lemma payload_parts:
  assumes "graph_run_state_event_payload auth row status t rt d = Inr p"
  shows "\<exists>a. p = payload_head row status a @ recovery_part row (public_graph_run_status status) @ payload_tail t rt"
proof (cases "announcement_error status t rt")
  case None
  show ?thesis
  proof (cases "canvas_authority auth (py_strip (cr_session row)) False d")
    case (Inl err)
    then show ?thesis using assms None by (simp add: graph_run_state_event_payload_def Let_def)
  next
    case (Inr a)
    then show ?thesis using assms None
      unfolding graph_run_state_event_payload_def Let_def payload_head_def payload_tail_def
      by (intro exI [of _ a])
        (cases "assert_graph_workspace_authority (py_strip (cr_session row)) (py_strip (cr_graph row)) a d";
         cases "py_strip (wa_workspace a) = []"; simp only: option.case sum.case simp_thms if_True if_False append_assoc sum.simps)
  qed
qed (use assms in \<open>simp add: graph_run_state_event_payload_def\<close>)

lemma recovery_keys: "fst ` set (recovery_part row st) \<subseteq> {''recovery''}"
  by (auto simp: recovery_part_def Let_def)

lemma head_no_recovery: "map_of (payload_head row st a) ''recovery'' = None"
  by (simp add: payload_head_def)

lemma event_offer:
  assumes "graph_run_state_event_payload auth (canvas_row.truncate r) (cr_status r) t rt d = Inr p"
    and "cr_status r \<in> set retryable_graph_states"
  shows "dget (as_dict (dget p ''recovery'')) ''canRetry'' = JBool (\<not> retry_blocked r)"
proof -
  have tr: "cr_nodes (canvas_row.truncate r) = cr_nodes r" "cr_current (canvas_row.truncate r) = cr_current r"
    by (simp_all add: canvas_row.truncate_def)
  obtain a where p: "p = payload_head (canvas_row.truncate r) (cr_status r) a @
      recovery_part (canvas_row.truncate r) (public_graph_run_status (cr_status r)) @ payload_tail t rt"
    using payload_parts [OF assms(1)] by blast
  have "public_graph_run_status (cr_status r) \<in> {''failed'', ''interrupted''}"
    using assms(2) by (auto simp: retryable_graph_states_def)
  then have rec: "recovery_part (canvas_row.truncate r) (public_graph_run_status (cr_status r)) =
      [(''recovery'', JObj [(''canRetry'', JBool (\<not> retry_blocked r)),
         (''mode'', if \<not> retry_blocked r then JStr ''failed_branch'' else JNull)])]"
    by (simp add: recovery_part_def tr retry_blocked_def Let_def)
  have "map_of (h @ q) k = map_of q k" if "map_of h k = None" for h q :: dict and k
    using that by (simp add: map_add_def split: option.split)
  then have "map_of p ''recovery'' = map_of (recovery_part (canvas_row.truncate r) (public_graph_run_status (cr_status r)) @ payload_tail t rt) ''recovery''"
    using head_no_recovery p by blast
  then show ?thesis by (simp add: dget_def rec as_dict_def)
qed

section \<open>A repair\<close>

text \<open>The event an intent is projected with.\<close>

definition intent_event :: "authority_service \<Rightarrow> canvas_intent \<Rightarrow> canvas_db \<Rightarrow> canvas_error + event_args" where
  "intent_event auth i d =
     (case graph_run_state_event_payload auth (co_row i) (py_lower (py_strip (co_status i)))
             (py_strip (co_transition i)) (py_strip (opt_text (co_retry i))) d of
        Inl err \<Rightarrow> Inl err
      | Inr payload \<Rightarrow> Inr (emitted_event (create_emitter (py_strip (co_session i)) (or_none (as_text (dget payload ''runId'')))
          canvas_source (cv_core d)) canvas_topic payload ''event'' (py_strip (co_event i)) (Some (co_expected i))))"

text \<open>An intent as the writers leave it.\<close>

definition intent_ok :: "canvas_intent \<Rightarrow> bool" where
  "intent_ok i \<longleftrightarrow> py_strip (co_id i) = co_id i \<and> py_strip (co_event i) = co_event i \<and>
     py_strip (co_session i) = co_session i \<and> py_lower (py_strip (co_status i)) = co_status i \<and>
     public_graph_run_status (co_status i) = shown_status (co_status i) \<and>
     py_strip (co_transition i) = co_transition i \<and> py_strip (opt_text (co_retry i)) = opt_text (co_retry i) \<and>
     cr_id (co_row i) = co_run i \<and> py_strip (co_run i) = co_run i \<and> cr_session (co_row i) = co_session i \<and>
     cr_status (co_row i) = co_status i \<and> cr_updated (co_row i) = co_expected i"

text \<open>An intent whose workspace is in order and that is not waiting after a failure.\<close>

definition ready :: "authority_service \<Rightarrow> time \<Rightarrow> canvas_db \<Rightarrow> canvas_intent \<Rightarrow> bool" where
  "ready auth now d i \<longleftrightarrow> intent_ok i \<and> \<not> (case co_next i of None \<Rightarrow> False | Some t \<Rightarrow> now < t) \<and>
     (\<exists>p. graph_run_state_event_payload auth (co_row i) (co_status i) (co_transition i) (opt_text (co_retry i)) d = Inr p) \<and>
     (py_strip (opt_text (cr_chat (co_row i))) = [] \<or> run_of (py_strip (opt_text (cr_chat (co_row i)))) (cv_core d) \<noteq> None)"

lemma payload_texts:
  assumes "graph_run_state_event_payload auth row status t rt d = Inr p"
  shows "as_text (dget p ''graphRunId'') = py_strip (cr_id row)" "as_text (dget p ''status'') = public_graph_run_status status"
    "as_text (dget p ''transition'') = py_strip t" "as_text (dget p ''retryOfGraphRunId'') = py_strip rt"
    "as_text (dget p ''runId'') = py_strip (opt_text (cr_chat row))"
proof -
  obtain a where p: "p = payload_head row status a @ recovery_part row (public_graph_run_status status) @ payload_tail t rt"
    using payload_parts [OF assms] by blast
  have head: "map_of (payload_head row status a) ''graphRunId'' = Some (JStr (py_strip (cr_id row)))"
    "map_of (payload_head row status a) ''status'' = Some (JStr (public_graph_run_status status))"
    "map_of (payload_head row status a) ''runId'' = Some (if py_strip (opt_text (cr_chat row)) = [] then JNull else JStr (py_strip (opt_text (cr_chat row))))"
    "map_of (payload_head row status a) ''transition'' = None" "map_of (payload_head row status a) ''retryOfGraphRunId'' = None"
    by (simp_all add: payload_head_def)
  have rec: "map_of (recovery_part row st) ''transition'' = None" "map_of (recovery_part row st) ''retryOfGraphRunId'' = None" for st
    by (simp_all add: recovery_part_def Let_def)
  have tl: "map_of (payload_tail t rt) ''transition'' = (if py_strip t = [] then None else Some (JStr (py_strip t)))"
    "map_of (payload_tail t rt) ''retryOfGraphRunId'' = (if py_strip rt = [] then None else Some (JStr (py_strip rt)))"
    by (simp_all add: payload_tail_def)
  show "as_text (dget p ''graphRunId'') = py_strip (cr_id row)" "as_text (dget p ''status'') = public_graph_run_status status"
    "as_text (dget p ''runId'') = py_strip (opt_text (cr_chat row))"
    using head by (simp_all add: dget_def p as_text_def)
  show "as_text (dget p ''transition'') = py_strip t" "as_text (dget p ''retryOfGraphRunId'') = py_strip rt"
    using head rec tl by (simp_all add: dget_def p as_text_def map_add_def)
qed

lemma event_of_ready:
  assumes "ready auth now d i"
  obtains ev where "intent_event auth i d = Inr ev" "intent_matches ev i" "ea_run ev = or_none (py_strip (opt_text (cr_chat (co_row i))))"
proof -
  have ok: "intent_ok i" using assms by (simp add: ready_def)
  obtain p where p: "graph_run_state_event_payload auth (co_row i) (co_status i) (co_transition i) (opt_text (co_retry i)) d = Inr p"
    using assms by (auto simp: ready_def)
  let ?ev = "emitted_event (create_emitter (co_session i) (or_none (as_text (dget p ''runId''))) canvas_source (cv_core d))
      canvas_topic p ''event'' (co_event i) (Some (co_expected i))"
  have e: "intent_event auth i d = Inr ?ev" using ok p by (simp add: intent_event_def intent_ok_def)
  have "ea_payload ?ev = dset ''contextEpoch'' (JInt (em_epoch (create_emitter (co_session i)
      (or_none (as_text (dget p ''runId''))) canvas_source (cv_core d)))) p"
    by (simp add: emitted_event_def)
  then have "as_text (dget (ea_payload ?ev) ''graphRunId'') = py_strip (cr_id (co_row i))"
    "as_text (dget (ea_payload ?ev) ''status'') = public_graph_run_status (co_status i)"
    "as_text (dget (ea_payload ?ev) ''transition'') = py_strip (co_transition i)"
    "as_text (dget (ea_payload ?ev) ''retryOfGraphRunId'') = py_strip (opt_text (co_retry i))"
    using payload_texts [OF p] by simp_all
  then have "intent_matches ?ev i"
    using ok by (simp add: intent_matches_def intent_ok_def emitted_event_def create_emitter_def)
  moreover have "ea_run ?ev = or_none (py_strip (opt_text (cr_chat (co_row i))))"
    by (simp add: emitted_event_def create_emitter_def payload_texts(5) [OF p])
  ultimately show ?thesis using e that by blast
qed

lemma project_intent_event:
  "project_intent auth i now d =
     (case intent_event auth i d of
        Inl err \<Rightarrow> (Inl err, d)
      | Inr ev \<Rightarrow> (case project_canvas_graph_run_event_outbox ev (py_strip (co_id i)) now d of
          (Inl err, d') \<Rightarrow> (Inl err, d')
        | (Inr None, d') \<Rightarrow> (Inl ProjectionRefused, d')
        | (Inr (Some n), d') \<Rightarrow> (if n = 0 then Inl ProjectionRefused else Inr n, d')))"
  by (simp add: project_intent_def intent_event_def emit_canvas_event_def Let_def split: sum.split prod.split option.split)

text \<open>Sequence numbers start at one.\<close>

definition floors_ok :: "db \<Rightarrow> bool" where
  "floors_ok c \<longleftrightarrow> (\<forall>s. 0 \<le> runtime_event_sequence_floor c s)"

lemma floors_after:
  assumes ok: "floors_ok c" and al: "allocate_runtime_event_seq s now c = (n, e)" and es: "ev_session x = s" "ev_seq x = n"
  shows "floors_ok (e\<lparr>db_events := db_events e @ [x]\<rparr>)"
  unfolding floors_ok_def
proof
  let ?c = "e\<lparr>db_events := db_events e @ [x]\<rparr>"
  have n: "n = runtime_event_sequence_floor c s + 1" using al by (simp add: allocate_runtime_event_seq_def Let_def split: prod.splits)
  then have pos: "0 \<le> n" using ok by (simp add: floors_ok_def add.commute)
  fix t
  show "0 \<le> runtime_event_sequence_floor ?c t"
  proof (cases "t = s")
    case True
    have "n \<in> set (session_seqs ?c t)" using es True by (simp add: session_seqs_def)
    then show ?thesis using seq_below_floor [of n ?c t] pos by simp
  next
    case False
    have e: "db_events e = db_events c" "db_snapshots e = db_snapshots c"
      using arg_cong [OF al, of "\<lambda>p. db_events (snd p)"] arg_cong [OF al, of "\<lambda>p. db_snapshots (snd p)"] by simp_all
    have "filter (\<lambda>h. sh_session h = t) (upd_where (\<lambda>h. sh_session h = s) (moved_head n now) hs) = filter (\<lambda>h. sh_session h = t) hs" for hs
      using False by (intro filter_upd_where_frame) auto
    moreover have "db_heads e = (if sel_by sh_session s (db_heads c) = None then db_heads c @ [new_head s n now]
        else upd_where (\<lambda>h. sh_session h = s) (moved_head n now) (db_heads c))"
      using arg_cong [OF al, of "\<lambda>p. db_heads (snd p)"] n by (auto simp: allocate_runtime_event_seq_def Let_def split: if_splits)
    ultimately have "filter (\<lambda>h. sh_session h = t) (db_heads e) = filter (\<lambda>h. sh_session h = t) (db_heads c)" using False by simp
    then have "runtime_event_sequence_floor ?c t = runtime_event_sequence_floor c t"
      using False es e by (simp add: runtime_event_sequence_floor_def)
    then show ?thesis using ok by (simp add: floors_ok_def)
  qed
qed

lemma project_ready:
  assumes wf: "canvas_wf d" and fl: "floors_ok (cv_core d)" and i: "i \<in> set (cv_outbox d)" "co_projected i = None"
    and first: "\<not> earlier_pending i d" and rdy: "ready auth now d i"
  obtains n d' ev where "project_intent auth i now d = (Inr n, d')"
    "d' = snd (project_canvas_graph_run_event_outbox ev (co_id i) now d)"
    "cv_outbox d' = upd_where (\<lambda>j. co_id j = co_id i) (projected_intent now) (cv_outbox d)"
    "cv_runs d' = cv_runs d" "cv_sessions d' = cv_sessions d" "cv_graphs d' = cv_graphs d"
    "db_runs (cv_core d') = db_runs (cv_core d)" "floors_ok (cv_core d')"
proof -
  have ob: "outbox_ok d" using wf by (simp add: canvas_wf_def)
  then have k: "keyed co_id (cv_outbox d)" by (simp add: outbox_ok_def)
  obtain ev where ev: "intent_event auth i d = Inr ev" "intent_matches ev i" "ea_run ev = or_none (py_strip (opt_text (cr_chat (co_row i))))"
    using event_of_ready [OF rdy] .
  have strip: "py_strip (co_id i) = co_id i" using rdy by (simp add: ready_def intent_ok_def)
  have sel: "sel_by co_id (co_id i) (cv_outbox d) = Some i" using k i(1) by (simp add: keyed_sel_iff)
  have new: "sel_by ev_id (co_event i) (db_events (cv_core d)) = None"
    using ob i by (simp add: outbox_ok_def sel_by_None_iff)
  have guard: "(co_projected i = None \<and> earlier_pending i d) = False" using first by simp
  have fk: "(case ea_run ev of None \<Rightarrow> False | Some r \<Rightarrow> run_of r (cv_core d) = None) = False"
    using rdy ev(3) by (auto simp: ready_def or_none_def)
  obtain n c where al: "allocate_runtime_event_seq (co_session i) now (cv_core d) = (n, c)" by force
  let ?P = "\<lambda>j. co_id j = co_id i \<and> co_projected j = None"
  let ?d' = "d\<lparr>cv_core := c\<lparr>db_events := db_events c @ [new_event_row ev n (ea_payload ev)]\<rparr>,
      cv_outbox := upd_where ?P (projected_intent now) (cv_outbox d)\<rparr>"
  have pr: "project_canvas_graph_run_event_outbox ev (co_id i) now d = (Inr (Some n), ?d')"
    by (simp add: project_canvas_graph_run_event_outbox_def strip sel ev(2) guard new fk al)
  have n: "n = runtime_event_sequence_floor (cv_core d) (co_session i) + 1"
    using al by (simp add: allocate_runtime_event_seq_def Let_def split: prod.splits)
  then have "n \<noteq> 0" using fl by (metis add_nonneg_pos floors_ok_def less_irrefl zero_less_one)
  then have "project_intent auth i now d = (Inr n, ?d')" using pr by (simp add: project_intent_event ev(1) strip)
  moreover have "cv_outbox ?d' = upd_where (\<lambda>j. co_id j = co_id i) (projected_intent now) (cv_outbox d)"
    using keyed_inj [OF k _ i(1)] i(2) by (auto intro!: upd_where_cong)
  moreover have "db_runs c = db_runs (cv_core d)"
    using arg_cong [OF al, of "\<lambda>p. db_runs (snd p)"] by (simp add: allocate_runtime_event_seq_def Let_def)
  moreover have "floors_ok (cv_core ?d')"
    using floors_after [OF fl al] ev(2) by (simp add: intent_matches_def)
  ultimately show ?thesis using that [of n ?d' ev] pr by simp
qed

lemma ready_cong:
  assumes "cv_sessions d' = cv_sessions d" and "cv_graphs d' = cv_graphs d" and "db_runs (cv_core d') = db_runs (cv_core d)"
  shows "ready auth now d' i = ready auth now d i"
proof -
  have "canvas_authority auth s w d' = canvas_authority auth s w d" for s w
    by (simp only: canvas_authority_def assms)
  moreover have "assert_graph_workspace_authority s g a d' = assert_graph_workspace_authority s g a d" for s g a
    by (simp only: assert_graph_workspace_authority_def assms)
  ultimately have "graph_run_state_event_payload auth row st t rt d' = graph_run_state_event_payload auth row st t rt d" for row st t rt
    by (simp only: graph_run_state_event_payload_def)
  then show ?thesis by (simp only: ready_def assms)
qed

abbreviation all_pending :: "canvas_db \<Rightarrow> canvas_intent list" where
  "all_pending d \<equiv> filter (\<lambda>i. co_projected i = None) (cv_outbox d)"

lemma first_of_pending:
  assumes "outbox_ok d" and "all_pending d = i # rest"
  shows "i \<in> set (cv_outbox d) \<and> co_projected i = None \<and> \<not> earlier_pending i d"
proof -
  have "sorted_wrt (<) (map co_seq (i # rest))"
    unfolding assms(2) [symmetric] using assms(1) by (simp add: outbox_ok_def sorted_wrt_map sorted_wrt_filter)
  then have "\<forall>j \<in> set (all_pending d). \<not> co_seq j < co_seq i" unfolding assms(2) by auto
  moreover have "i \<in> set (all_pending d)" using assms(2) by simp
  ultimately show ?thesis by (auto simp: earlier_pending_def)
qed

lemma repair_drains:
  assumes "canvas_wf d" and "floors_ok (cv_core d)" and "all_pending d = is" and "\<forall>i \<in> set is. ready auth now d i"
    and "rr_blocked p = []"
  shows "\<exists>p' ops. fold (repair_intent auth now) is (p, d) = (p', run_steps canvas_step ops d) \<and>
    rr_failed p' = rr_failed p \<and> rr_projected p' = rr_projected p + int (length is) \<and>
    all_pending (run_steps canvas_step ops d) = []"
  using assms
proof (induction "is" arbitrary: p d)
  case Nil
  then show ?case by (intro exI [of _ p] exI [of _ "[]"]) simp
next
  case (Cons i rest)
  have ob: "outbox_ok d" using Cons.prems(1) by (simp add: canvas_wf_def)
  note fst = first_of_pending [OF ob Cons.prems(3)]
  have rdy: "ready auth now d i" using Cons.prems(4) by simp
  obtain n d' ev where pr: "project_intent auth i now d = (Inr n, d')"
      "d' = snd (project_canvas_graph_run_event_outbox ev (co_id i) now d)"
      "cv_outbox d' = upd_where (\<lambda>j. co_id j = co_id i) (projected_intent now) (cv_outbox d)"
    and frame: "cv_runs d' = cv_runs d" "cv_sessions d' = cv_sessions d" "cv_graphs d' = cv_graphs d"
      "db_runs (cv_core d') = db_runs (cv_core d)" "floors_ok (cv_core d')"
    using project_ready [OF Cons.prems(1,2) _ _ _ rdy] fst by blast
  have step: "d' = canvas_step (Project ev (co_id i) now) d" using pr(2) by (simp add: canvas_step_def admissible_def op_effect_def)
  let ?p = "p\<lparr>rr_projected := rr_projected p + 1\<rparr>"
  have one: "repair_intent auth now i (p, d) = (?p, d')"
    using Cons.prems(5) rdy pr(1) by (simp add: repair_intent_def ready_def Let_def)
  have wf': "canvas_wf d'" unfolding step by (rule step_log(3) [OF Cons.prems(1)])
  have k: "keyed co_id (cv_outbox d)" using ob by (simp add: outbox_ok_def)
  have rest: "all_pending d' = rest"
    unfolding pr(3) by (rule view_tail [OF k Cons.prems(3)]) simp
  have "\<forall>j \<in> set rest. ready auth now d' j" using Cons.prems(4) ready_cong [OF frame(2-4)] by simp
  then obtain p' ops where "fold (repair_intent auth now) rest (?p, d') = (p', run_steps canvas_step ops d')"
      "rr_failed p' = rr_failed p" "rr_projected p' = rr_projected p + 1 + int (length rest)"
      "all_pending (run_steps canvas_step ops d') = []"
    using Cons.IH [OF wf' frame(5) rest, of ?p] Cons.prems(5) by auto
  then show ?case using one step by (intro exI [of _ p'] exI [of _ "Project ev (co_id i) now # ops"]) simp
qed

lemma list_all_pending:
  assumes "outbox_ok d" and "length (all_pending d) \<le> 256"
  shows "list_pending_canvas_graph_run_event_outbox default_repair_limit d = all_pending d"
proof -
  have "sorted (map co_seq (all_pending d))"
    using assms(1) by (simp add: outbox_ok_def sorted_wrt_map sorted_wrt_filter sorted_wrt_mono_rel [of _ "\<lambda>x y. co_seq x < co_seq y"])
  then have "sort_key co_seq (all_pending d) = all_pending d" by (rule sort_key_id_if_sorted)
  then show ?thesis using assms(2) by (simp add: list_pending_canvas_graph_run_event_outbox_def default_repair_limit_def)
qed

section \<open>An example\<close>

definition demo_canvas_authority :: authority_service where
  "demo_canvas_authority s = Inr \<lparr>wa_workspace = ''w1'', wa_root = ''/w'', wa_key = ''w'', wa_writes = True\<rparr>"

definition demo_canvas :: canvas_db where
  "demo_canvas = \<lparr>cv_core = empty_db, cv_sessions = [''s1''],
     cv_graphs = [\<lparr>cg_id = ''g1'', cg_session = ''s1'', cg_workspace = ''w'', cg_revision = 1\<rparr>],
     cv_runs = [], cv_outbox = [], cv_last_intent = 0, cv_receipts = []\<rparr>"

definition demo_run_id :: string where
  "demo_run_id = ''canvas-run-'' @ replicate 32 (CHR ''0'')"

definition demo_start :: "string \<Rightarrow> start_args" where
  "demo_start op = \<lparr>st_session = ''s1'', st_graph = ''g1'', st_revision = 1, st_operation = op, st_requested = [],
     st_chat = [], st_plan = [(''actions'', JList [JObj [(''actionNodeId'', JStr ''a'')]])]\<rparr>"

definition demo_running :: write_args where
  "demo_running = running_write demo_run_id []"

definition demo_failed :: write_args where
  "demo_failed = demo_running\<lparr>wr_status := ''failed'', wr_error := ''boom'', wr_completed := True, wr_expected := Some [''running'']\<rparr>"

definition demo_project :: "string \<Rightarrow> time \<Rightarrow> canvas_db \<Rightarrow> canvas_op" where
  "demo_project k now d = (case sel_by co_id k (cv_outbox d) of None \<Rightarrow> Prune True
     | Some i \<Rightarrow> (case intent_event demo_canvas_authority i d of Inl _ \<Rightarrow> Prune True | Inr ev \<Rightarrow> Project ev k now))"

definition demo_canvas_1 :: canvas_db where
  "demo_canvas_1 = canvas_step (StartRun (''o1'', ''e1'') demo_run_id (demo_start ''op'') [] 10) demo_canvas"

definition demo_canvas_2 :: canvas_db where
  "demo_canvas_2 = canvas_step (WriteRun (''o2'', ''e2'') demo_running 11) demo_canvas_1"

definition demo_canvas_3 :: canvas_db where
  "demo_canvas_3 = canvas_step (WriteRun (''o3'', ''e3'') demo_failed 12) demo_canvas_2"

lemma demo_canvas_ok: "canvas_wf demo_canvas" "events_agree demo_canvas" "one_active demo_canvas"
  by (simp_all add: canvas_wf_def runs_ok_def outbox_ok_def keyed_def demo_canvas_def events_agree_def one_active_def)

lemma demo_canvas_3_ok: "canvas_wf demo_canvas_3" "events_agree demo_canvas_3"
  unfolding demo_canvas_3_def demo_canvas_2_def demo_canvas_1_def
  by (intro step_log(3) step_agrees demo_canvas_ok)+

lemma demo_canvas_statuses:
  "map cr_status (cv_runs demo_canvas_2) = [''running'']" "map cr_status (cv_runs demo_canvas_3) = [''failed'']"
  "pending_marks ''s1'' demo_canvas_3 = [(demo_run_id, ''queued''), (demo_run_id, ''running''), (demo_run_id, ''failed'')]"
  by code_simp+

section \<open>Properties\<close>

text \<open>C21: The event log refines the history of the runs. However clients, executors, restarts, terminal
  proofs, projections (with whatever event), failures and other events interleave, the canvas events of
  a session followed by its pending intents are what they were, followed by every change of a public
  status of the session's runs (and every applied terminal proof), in the order they happened: no change
  is lost, repeated or overtaken.\<close>

theorem canvas_events_follow_the_runs:
  assumes "canvas_wf d"
  shows "canvas_log s (run_steps canvas_step xs d) @ pending_marks s (run_steps canvas_step xs d) =
    canvas_log s d @ pending_marks s d @ along canvas_step (happened s) xs d"
  using run_log [OF assms] canvas_outbox.run_lossless [OF assms] by simp

theorem canvas_events_follow_the_runs_witness:
  "canvas_log ''s1'' (canvas_step (demo_project ''o1'' 13 demo_canvas_3) demo_canvas_3) =
     [(demo_run_id, ''queued'')]"
proof -
  let ?x = "demo_project ''o1'' 13 demo_canvas_3"
  have "happened ''s1'' ?x demo_canvas_3 = []" "canvas_log ''s1'' demo_canvas_3 = []"
    "pending_marks ''s1'' (canvas_step ?x demo_canvas_3) = [(demo_run_id, ''running''), (demo_run_id, ''failed'')]"
    by code_simp+
  then show ?thesis
    using canvas_events_follow_the_runs [OF demo_canvas_3_ok(1), of "''s1''" "[?x]"] demo_canvas_statuses(3) by simp
qed

text \<open>C23: A run keeps to its life cycle. Through any interleaving of what the executor's call sites
  write with starts, cancellations, retries, restarts, proofs and projections, a run is never lost, keeps
  its session, graph, operation, revision and creation time, and changes status only along the table
  \<open>next_statuses\<close>; once it succeeded or was cancelled, it stays so.\<close>

theorem canvas_run_life_cycle:
  assumes "canvas_wf d" and "list_all call_site xs" and "sel_by cr_id g (cv_runs d) = Some r"
  shows "\<exists>q. sel_by cr_id g (cv_runs (run_steps canvas_step xs d)) = Some q \<and> same_run r q \<and>
    may_become\<^sup>*\<^sup>* (cr_status r) (cr_status q) \<and>
    (cr_status r \<in> {''succeeded'', ''cancelled''} \<longrightarrow> cr_status q = cr_status r)"
  using life_cycle [OF assms] final_status by blast

theorem canvas_run_life_cycle_witness:
  "\<exists>q. sel_by cr_id demo_run_id (cv_runs demo_canvas_3) = Some q \<and> may_become\<^sup>*\<^sup>* ''running'' (cr_status q)"
proof -
  let ?x = "WriteRun (''o3'', ''e3'') demo_failed 12"
  have wf: "canvas_wf demo_canvas_2" unfolding demo_canvas_2_def demo_canvas_1_def by (intro step_log(3) demo_canvas_ok)
  have site: "list_all call_site [?x]"
    by (simp add: call_site_def demo_failed_def demo_running_def running_write_def executor_writes_def)
  obtain r where r: "sel_by cr_id demo_run_id (cv_runs demo_canvas_2) = Some r" "cr_status r = ''running''"
  proof -
    have "map_option cr_status (sel_by cr_id demo_run_id (cv_runs demo_canvas_2)) = Some ''running''" by code_simp
    then show ?thesis using that by auto
  qed
  then show ?thesis using canvas_run_life_cycle [OF wf site r(1)] r(2) by (auto simp: demo_canvas_3_def)
qed


lemma demo_ready: "\<forall>i \<in> set (all_pending demo_canvas_3). ready demo_canvas_authority 13 demo_canvas_3 i"
proof -
  have "list_all (\<lambda>i. intent_ok i \<and> co_next i = None \<and> cr_chat (co_row i) = None \<and>
      \<not> isl (graph_run_state_event_payload demo_canvas_authority (co_row i) (co_status i) (co_transition i) (opt_text (co_retry i)) demo_canvas_3))
      (all_pending demo_canvas_3)" by code_simp
  then show ?thesis by (auto simp: list_all_iff ready_def opt_text_def isl_def) (metis sum.exhaust)
qed

lemma empty_floors: "floors_ok empty_db"
  by (simp add: floors_ok_def runtime_event_sequence_floor_def empty_db_def table_max_def)




text \<open>C24: A session has at most one active run: every interleaving of starts, the executor's writes,
  cancellations, restarts, proofs and projections keeps it so. (A retry does not: see below.)\<close>

theorem canvas_runs_do_not_overlap:
  assumes "canvas_wf d" and "one_active d" and "list_all (\<lambda>x. call_site x \<and> \<not> is_retry x) xs"
  shows "one_active (run_steps canvas_step xs d)"
  by (rule run_one_active [OF assms])

definition demo_second_start :: canvas_op where
  "demo_second_start = StartRun (''o5'', ''e5'') (''canvas-run-'' @ replicate 32 (CHR ''1'')) (demo_start ''op2'') [] 14"

theorem canvas_runs_do_not_overlap_witness:
  "one_active (run_steps canvas_step [demo_second_start] demo_canvas_2)"
proof (rule canvas_runs_do_not_overlap)
  show "canvas_wf demo_canvas_2" unfolding demo_canvas_2_def demo_canvas_1_def by (intro step_log(3) demo_canvas_ok)
  show "one_active demo_canvas_2" by code_simp
  show "list_all (\<lambda>x. call_site x \<and> \<not> is_retry x) [demo_second_start]"
    by (simp add: call_site_def is_retry_def demo_second_start_def)
qed

text \<open>A run that failed can be retried while another run of its session is active: the claim checks
  neither the table nor an index for one, and both then execute.\<close>

lemma retry_starts_a_second_run:
  "\<not> one_active (run_steps canvas_step
     [demo_second_start, ClaimRetry (''o6'', ''e6'') demo_canvas_authority ''s1'' demo_run_id 15] demo_canvas_3)"
  by code_simp

end
