(* ===== verification/Spec2Isabelle.thy ===== *)
theory Spec2Isabelle
  imports EffectService EventLog SessionWaits Automation Episodes NeighborHistory Relay
    PromptBudget BudgetHistory ModelRef TokenPolicy Approvals ChatRoutes SessionAdmission CanvasDelivery
begin

text \<open>
  A verification library for the V8 agent engine (apps/v8-agent-os-engine). The engine runs
  agents whose work has to survive crashes, retries and several workers at once. What decides
  whether it is correct is a durable core: operations on SQLite tables that hand out work, order
  events, admit calls and record outcomes. This library models that core operation by operation
  from the source and proves what it promises over all histories of operations. File names below
  are relative to apps/v8-agent-os-engine.

  \<^bold>\<open>The program and the theories.\<close>

  \<^item> \<^bold>\<open>Runtime tables\<close> (core/database_schema.py): Schema holds the rows the runtime
    operations touch and the state \<open>db\<close>; NetSchema the ten tables of the neighbour network and
    the relay and the state \<open>net_db\<close>.
  \<^item> \<^bold>\<open>External effects\<close>: SideEffects models the receipt ledger of core/database.py
    (claim, start, complete, fail, heartbeat, expiry), EffectService the service around it
    (erc/side_effect_idempotency.py), which derives the key of an effect, answers a repeated tool
    call from its receipt or its checkpoint, and emits the outcome.
  \<^item> \<^bold>\<open>Runs\<close>: Runs models run records, their status compare-and-set, control signals and
    the scheduling of a resume; RunControl the control plane over them (erc/run_service.py,
    erc/command_service.py, erc/runtime_control.py); SessionLane the lanes that keep one run per
    session active (erc/session_lane_scheduler.py), with threads on a condition variable;
    SessionAdmission the durable record of the lanes (erc/session_admission_service.py); EventLog
    the numbered event log of a session with its epoch fence, and the emitter of erc/event_bus.py;
    SessionWaits the waits of a parked run for assigned results.
  \<^item> \<^bold>\<open>What reaches a run\<close>: ChatQueue models the queue of user messages that arrive while a
    run works, ChatRoutes the routes over it (api/chat_realtime_routes.py) with the guidance of a
    running supervisor (runtimes/chat/runtime.py); Coordination the messages and versioned results
    between the supervisors of sessions, CoordinationService their dispatch, wake-up, settlement and
    recovery (erc/session_coordination_service.py); Approvals the approvals of a run, their decision
    and the delivery of the decision.
  \<^item> \<^bold>\<open>Work handed to workers\<close>: Automation models deliveries of automation events,
    Episodes the queue, leases and generations of runtime episodes.
  \<^item> \<^bold>\<open>Canvas\<close>: CanvasRuns models the runs of a canvas graph and the transactions that
    create and change them (core/creative_canvas_graph.py); CanvasOutbox the outbox that carries every
    change of a run's status into the event log (core/database.py, erc/event_bus.py,
    core/storage_retention.py), its repair loop and the handlers that end with a repair; CanvasHistory
    the steps all of these interleave in, and the invariants; CanvasDelivery what clients rely on.
    A step is taken with identifiers that are not in use and, where a state is written, at an instant
    after the last one announced (the code's clock counts microseconds); the retention job that deletes
    old canvas events from the log is not a step.
  \<^item> \<^bold>\<open>Neighbour network\<close>: NeighborStore models links, messages, tasks, assignments and
    results; NeighborWake the wake queue (core/database.py, core/network_neighbor_delivery.py,
    runtimes/network_supervisor/neighbor.py); NeighborInbox the reception of a signed message;
    NeighborHistory what holds along their histories; Relay the outbox, cursors, acknowledgements
    and dead letters with the two workers of runtimes/network_supervisor/relay_runtime.py.
  \<^item> \<^bold>\<open>Model calls\<close>: PromptBudget models core/prompt_budget.py; ProviderCircuit and
    CircuitHistory the circuit breaker of core/provider_circuit.py; ModelBudget the reservations of
    core/model_budget_service.py and the usage ledger; ModelAdmission the callback of
    core/model_telemetry.py that joins circuit and budget around a call; BudgetHistory what holds
    of them together; TokenPolicy the output limit a call is sent with (core/model_token_policy.py);
    ModelRef the references of core/model_ref.py.
  \<^item> \<^bold>\<open>Shared\<close>: Prelude (strings, nullable timestamps, generic facts), PyText (Python
    texts as code points), PyValue (JSON values), Tables and TableViews (SQL statements on row lists, and
    how rows evolve), Leases and Streams (the interfaces).

  The parts interact through the tables: a worker claims an episode or a delivery, runs it, guards
  each external effect by a receipt, emits events under the run's epoch, and reports back under
  its lease; a run that waits is parked by SessionWaits and woken through Runs; the commands of
  RunControl, the messages of Coordination and the guidance of ChatRoutes reach a run through the one
  control signal in its metadata, and its end settles what was addressed to it; a message from
  a neighbour enters through NeighborInbox and becomes an item of NeighborWake; every model call is
  admitted by ModelAdmission.

  \<^bold>\<open>How code becomes definitions.\<close> A row is a record with the columns of its table, a
  table the list of its rows in insertion order, a database a record of tables. An operation is a
  function from its arguments, the instant and the database to an answer and the new database;
  refusals and raised errors are values of a sum or option type, and a transaction that raises
  returns the database it was given. A guarded UPDATE is \<open>update_row\<close>, its row count decides the
  answer as in the code; a unique key is a \<open>keyed\<close> invariant that every operation keeps. Where
  the code reads a row in one transaction and writes in another, the earlier state is an argument
  of its own. Each operation reads the clock once. A timestamp is an integer of milliseconds
  (seconds as rationals for the circuit breaker, whose clock is a float), a nullable column an
  option, a JSON column the value it decodes to. Strings are lists of characters below 256;
  PromptBudget and ModelRef use lists of code points. Fresh identifiers, digests, the transport of
  the relay, the handling of an envelope and the checkpoint saver are parameters.

  \<^bold>\<open>The interfaces.\<close> \<open>lease_queue\<close> (Leases) states what a table that hands out work under
  a lease promises; that nobody else is handed an item while its lease runs is proved once in it
  and holds by interpretation for effects, deliveries, episodes and the outbox;
  \<open>fenced_lease_queue\<close> adds that only the holder can settle, for effects. \<open>guarded_stream\<close>
  (Streams) states what a table that numbers its rows under an invariant promises, for the cursors of
  project results; \<open>numbered_stream\<close> is its case without an invariant, for the event log of a
  session, the messages of a link and the ordinals of a chat queue. \<open>lossless_channel\<close> states that
  what is taken out is what was put in, in order, for the chat queue and for the canvas outbox, whose
  channel leads from the table of runs to the event log.

  \<^bold>\<open>The lemmas.\<close> Each component theory first shows what an operation does on each branch
  (lemmas ending in \<open>_cases\<close>, \<open>_effect\<close> or \<open>_sel\<close>), then an invariant and that every operation
  keeps it (\<open>_inv\<close>, \<open>_ok\<close>), then lifts both to histories (\<open>_run\<close>). The properties
  (C1 to C40) are stated over histories where they speak of interleavings: at most one execution,
  exclusive leases, fencing of superseded workers, numbers never reused, bounded publication,
  books that balance, limits that bound spending, answers given once, messages started, delivered
  or settled once. Rows that are only changed in certain ways are related before and after by
  \<open>table_evolves\<close>. Other kinds: the claim of an effect refines an
  abstract ledger (SideEffects), the chat queue a first-in first-out channel
  (ChatQueue), the canvas events the history of the runs (CanvasDelivery), the lane record the scheduler
  (SessionAdmission); the binary search of the prompt budget is equivalent to the naive
  cut, which includes that the search ends (PromptBudget); refusals change nothing and say when to
  come back (CircuitHistory, BudgetHistory); references round trip down to the bytes of UTF-8
  (ModelRef); a repair delivers what is pending (CanvasDelivery); no wakeup is lost in a step relation of threads (SessionLane). A
  property with hypotheses is followed by a witness that applies it to a concrete history.

  \<^bold>\<open>Loops and bounds.\<close> Loops over rows are structural recursions. The search of PromptBudget is
  a partial function proved to return; percent decoding recurs on the length of the text; the
  emitter's retries on a locked database take the number of failing attempts as an argument and
  are bounded by the code's own limit. No definition uses fuel.

  \<^bold>\<open>Not modelled.\<close> The orchestration around the core is left out because its behaviour is
  that of services outside the repository (language models, browsers, desktops, networks): the
  chat, computer-use, creative-media, RPA and plugin runtimes, the episode runner, web and research
  tools, provider adapters, the HTTP routes and the clients. Not modelled either, and candidates for
  later work: composing coordination messages, handoffs, the messages and reviews of episodes, the
  workflow ledger, the editing of canvas graphs and the plans compiled from them, the episode upsert with its idempotency ledger, transcripts and
  projections. SQLite itself, process
  crashes inside a transaction (they roll back) and lock contention appear only through the
  atomicity of an operation.
\<close>

end
